(* ===== verification/Prelude.thy ===== *)
theory Prelude
  imports Complex_Main "HOL-Library.Monad_Syntax" "HOL-Library.AList"
begin

text \<open>
  Shared ground of the development: Go's 64-bit integers with wrap-around, durations and
  instants of the \<^verbatim>\<open>time\<close> package, decimal rendering (\<^verbatim>\<open>strconv\<close>, \<^verbatim>\<open>%d\<close>), the
  string helpers the policies call, Go maps as association lists, and the generic lemmas
  the components use.
\<close>

named_theorems go_arith \<open>facts on wrapped integers, durations and instants\<close>
named_theorems go_map \<open>facts on association lists used as Go maps\<close>

section \<open>64-bit integers\<close>

definition wrap64 :: "int \<Rightarrow> int" where
  "wrap64 x = (x + 2 ^ 63) mod 2 ^ 64 - 2 ^ 63"

definition int64 :: "int \<Rightarrow> bool" where
  "int64 x \<longleftrightarrow> - (2 ^ 63) \<le> x \<and> x < 2 ^ 63"

lemma int64_wrap64 [simp]: "int64 (wrap64 x)"
proof -
  have "0 \<le> (x + 2 ^ 63) mod 2 ^ 64" "(x + 2 ^ 63) mod 2 ^ 64 < (2 ^ 64 :: int)"
    by simp_all
  then show ?thesis by (simp add: int64_def wrap64_def)
qed

lemma wrap64_id [go_arith]: "int64 x \<Longrightarrow> wrap64 x = x"
  by (simp add: int64_def wrap64_def)

lemma wrap64_0 [simp]: "wrap64 0 = 0"
  by (simp add: wrap64_def)

text \<open>Go's integer division truncates towards zero; a zero divisor panics, which the callers
  model as \<open>None\<close>.\<close>

definition go_div :: "int \<Rightarrow> int \<Rightarrow> int option" where
  "go_div a b = (if b = 0 then None else Some (wrap64 (sgn a * sgn b * (\<bar>a\<bar> div \<bar>b\<bar>))))"

lemma go_div_pos:
  assumes "0 \<le> a" "0 < b" "int64 a"
  shows "go_div a b = Some (a div b)"
proof (cases "a = 0")
  case True
  with assms show ?thesis by (simp add: go_div_def)
next
  case False
  have "a div b \<le> a" using assms zdiv_mono2 [of a 1 b] by simp
  moreover have "0 \<le> a div b" using assms by (simp add: pos_imp_zdiv_nonneg_iff)
  ultimately have "int64 (a div b)" using assms(3) by (simp add: int64_def)
  then show ?thesis using assms False by (simp add: go_div_def wrap64_id)
qed


text \<open>Clamping, as the code writes it.\<close>

lemma if_less_min [go_arith]: "(if b < a then b else a) = min a (b :: int)"
  by (simp add: min_def)

lemma if_neg_max [go_arith]: "(if a < 0 then 0 else a) = max 0 (a :: int)"
  by (simp add: max_def)

section \<open>Durations and instants\<close>

text \<open>
  A \<^verbatim>\<open>time.Duration\<close> is an int64 number of nanoseconds; its arithmetic wraps. A
  \<^verbatim>\<open>time.Time\<close> is a number of nanoseconds since Go's zero time (January 1, year 1 UTC),
  which is unbounded for the instants a clock returns. \<^verbatim>\<open>Time.Sub\<close> saturates at the ends of
  the duration range; \<^verbatim>\<open>Time.Truncate\<close> rounds down to a multiple of the duration since the
  zero time and leaves the instant unchanged for a duration that is not positive.
\<close>

type_synonym duration = int
type_synonym instant = int

definition time_Add :: "instant \<Rightarrow> duration \<Rightarrow> instant" where
  "time_Add t d = t + d"

definition time_Sub :: "instant \<Rightarrow> instant \<Rightarrow> duration" where
  "time_Sub t u = max (- (2 ^ 63)) (min (2 ^ 63 - 1) (t - u))"

definition time_Truncate :: "instant \<Rightarrow> duration \<Rightarrow> instant" where
  "time_Truncate t d = (if d \<le> 0 then t else t - t mod d)"

definition Second :: duration where "Second = 1000000000"
definition Minute :: duration where "Minute = 60 * Second"
definition Hour :: duration where "Hour = 60 * Minute"
definition Millisecond :: duration where "Millisecond = 1000000"

text \<open>\<^verbatim>\<open>Time.Unix\<close> and \<^verbatim>\<open>Time.UnixNano\<close>: the distance to January 1, 1970, the latter
  with the wrap-around of its int64 result.\<close>

definition unix_epoch :: instant where
  "unix_epoch = 62135596800 * Second"

definition time_Unix :: "instant \<Rightarrow> int" where
  "time_Unix t = (t - unix_epoch) div Second"

definition time_UnixNano :: "instant \<Rightarrow> int" where
  "time_UnixNano t = wrap64 (t - unix_epoch)"

lemma time_Sub_id [go_arith]: "int64 (t - u) \<Longrightarrow> time_Sub t u = t - u"
  by (auto simp: time_Sub_def int64_def)

lemma time_Sub_pos [simp]: "0 < time_Sub t u \<longleftrightarrow> u < t"
  by (auto simp: time_Sub_def min_def max_def)

lemma int64_time_Sub [simp]: "int64 (time_Sub t u)"
  by (auto simp: time_Sub_def int64_def)

lemma time_Truncate_le: "0 < d \<Longrightarrow> time_Truncate t d \<le> t"
  by (simp add: time_Truncate_def)

lemma time_Truncate_gt: "0 < d \<Longrightarrow> t < time_Truncate t d + d"
  using pos_mod_bound [of d t] by (simp add: time_Truncate_def)

lemma time_Truncate_dvd: "0 < d \<Longrightarrow> d dvd time_Truncate t d"
  by (simp add: time_Truncate_def minus_mod_eq_mult_div)

lemma time_Truncate_eq:
  assumes "0 < d" "d dvd w" "w \<le> t" "t < w + d"
  shows "time_Truncate t d = w"
proof -
  from assms obtain k where w: "w = d * k" by (auto elim: dvdE)
  have "t mod d = (t - d * k) mod d" by (metis mod_mult_self2 diff_conv_add_uminus mult_minus_right)
  also have "\<dots> = t - d * k" using assms w by (intro mod_pos_pos_trivial) auto
  finally show ?thesis using assms(1) w by (simp add: time_Truncate_def)
qed

section \<open>Decimal rendering\<close>

fun digits_rev :: "nat \<Rightarrow> string" where
  "digits_rev n = (let d = char_of (48 + n mod 10) in
     if n < 10 then [d] else d # digits_rev (n div 10))"

declare digits_rev.simps [simp del]

definition itoa :: "int \<Rightarrow> string" where
  "itoa i = (if i < 0 then CHR ''-'' # rev (digits_rev (nat (- i))) else rev (digits_rev (nat i)))"

definition is_digit :: "char \<Rightarrow> bool" where
  "is_digit c \<longleftrightarrow> 48 \<le> (of_char c :: nat) \<and> (of_char c :: nat) \<le> 57"

lemma digits_rev_digits: "c \<in> set (digits_rev n) \<Longrightarrow> is_digit c"
proof (induction n rule: digits_rev.induct)
  case (1 n)
  have d: "is_digit (char_of (48 + n mod 10 :: nat))"
    by (simp add: is_digit_def)
  show ?case
  proof (cases "n < 10")
    case True
    with "1.prems" d show ?thesis by (simp add: digits_rev.simps [of n])
  next
    case False
    with "1.prems" d "1.IH" show ?thesis by (auto simp: digits_rev.simps [of n])
  qed
qed

lemma digits_rev_inj: "digits_rev m = digits_rev n \<Longrightarrow> m = n"
proof (induction m arbitrary: n rule: digits_rev.induct)
  case (1 m)
  have head: "k mod 10 = l mod 10"
    if "(char_of (48 + k mod 10 :: nat) :: char) = char_of (48 + l mod 10 :: nat)" for k l :: nat
  proof -
    from that have "(of_char (char_of (48 + k mod 10 :: nat)) :: nat) = of_char (char_of (48 + l mod 10 :: nat))"
      by simp
    then show ?thesis by simp
  qed
  have ne: "digits_rev k \<noteq> []" for k by (subst digits_rev.simps) (simp add: Let_def)
  from "1.prems" have mod: "m mod 10 = n mod 10"
    by (intro head) (simp add: digits_rev.simps [of m] digits_rev.simps [of n] Let_def split: if_splits)
  show ?case
  proof (cases "m < 10")
    case True
    with "1.prems" have "n < 10"
      using ne [of "n div 10"] by (auto simp: digits_rev.simps [of m] digits_rev.simps [of n] Let_def split: if_splits)
    with True mod show ?thesis by simp
  next
    case False
    with "1.prems" have n: "\<not> n < 10"
      using ne [of "m div 10"] by (auto simp: digits_rev.simps [of m] digits_rev.simps [of n] Let_def split: if_splits)
    with "1.prems" False have "digits_rev (m div 10) = digits_rev (n div 10)"
      by (simp add: digits_rev.simps [of m] digits_rev.simps [of n] Let_def)
    with "1.IH" False have "m div 10 = n div 10" by simp
    with mod show ?thesis by (metis div_mult_mod_eq)
  qed
qed

lemma itoa_digits: "0 \<le> i \<Longrightarrow> c \<in> set (itoa i) \<Longrightarrow> is_digit c"
  by (simp add: itoa_def digits_rev_digits)

lemma itoa_inj: "0 \<le> i \<Longrightarrow> 0 \<le> j \<Longrightarrow> itoa i = itoa j \<longleftrightarrow> i = j"
  using digits_rev_inj [of "nat i" "nat j"] by (auto simp: itoa_def)

section \<open>Go maps\<close>

text \<open>
  A Go map is an association list with distinct keys: \<^const>\<open>map_of\<close> is the lookup,
  \<^const>\<open>AList.update\<close> the store, \<^const>\<open>AList.delete\<close> the \<^verbatim>\<open>delete\<close> builtin and
  \<^const>\<open>length\<close> the \<^verbatim>\<open>len\<close>. Go iterates over a map in an unspecified order: an operation
  that iterates takes the order as an argument, a list of keys.
\<close>

type_synonym ('k, 'v) gomap = "('k \<times> 'v) list"

definition map_ok :: "('k, 'v) gomap \<Rightarrow> bool" where
  "map_ok m \<longleftrightarrow> distinct (map fst m)"

lemma map_ok_Nil [simp]: "map_ok []"
  by (simp add: map_ok_def)

lemma map_ok_update [simp]: "map_ok m \<Longrightarrow> map_ok (AList.update k v m)"
  by (simp add: map_ok_def distinct_update)

lemma map_ok_delete [simp]: "map_ok m \<Longrightarrow> map_ok (AList.delete k m)"
  by (simp add: map_ok_def distinct_delete)

lemma map_ok_filter [simp]: "map_ok m \<Longrightarrow> map_ok (filter P m)"
  by (auto simp: map_ok_def distinct_map_filter)

lemma map_of_update [simp, go_map]: "map_of (AList.update k v m) k' = (if k = k' then Some v else map_of m k')"
  by (simp add: update_conv')

lemma map_of_delete [simp, go_map]: "map_of (AList.delete k m) k' = (if k = k' then None else map_of m k')"
  by (simp add: delete_conv')

lemma map_of_filter_ok [go_map]:
  "map_ok m \<Longrightarrow> map_of (filter P m) k = (case map_of m k of None \<Rightarrow> None | Some v \<Rightarrow> if P (k, v) then Some v else None)"
  by (induction m) (auto simp: map_ok_def split: option.splits dest: map_of_SomeD intro: rev_image_eqI)

end
