(* ===== verification/GoFloat.thy ===== *)
theory GoFloat
  imports Prelude
begin

text \<open>
  Go's \<^verbatim>\<open>float64\<close>: IEEE 754 binary64 values as rationals with infinities and NaN, the
  operations rounded to nearest, ties to even. Zero has one sign here: no policy looks at the
  sign of a zero. The main result is that the ceiling of a rounded quotient of two integers
  below \<open>2 ^ 53\<close> is the ceiling of the exact quotient, which is what the rate limiter's
  \<^verbatim>\<open>int64(math.Ceil(float64(a)/float64(b)))\<close> relies on.
\<close>

datatype f64 = Fin rat | PInf | NInf | NaN

section \<open>Rounding\<close>

text \<open>The binary exponent of a positive rational: the \<open>e\<close> with \<open>2 powi e \<le> q < 2 powi (e + 1)\<close>.
  The bit lengths of numerator and denominator give it up to one.\<close>

fun bitlen :: "nat \<Rightarrow> nat" where
  "bitlen n = (if n = 0 then 0 else Suc (bitlen (n div 2)))"

declare bitlen.simps [simp del]

definition exponent :: "rat \<Rightarrow> int" where
  "exponent q = (let (a, b) = quotient_of q;
       e = int (bitlen (nat a)) - int (bitlen (nat b))
     in if 2 powi e \<le> q then e else e - 1)"

definition round_even :: "rat \<Rightarrow> int" where
  "round_even q = (let k = \<lfloor>q\<rfloor>; r = q - of_int k in
     if r < 1 / 2 then k else if 1 / 2 < r then k + 1 else if even k then k else k + 1)"

definition ulp :: "rat \<Rightarrow> rat" where
  "ulp q = 2 powi (max (exponent q - 52) (- 1074))"

definition f64_round :: "rat \<Rightarrow> f64" where
  "f64_round q = (if q = 0 then Fin 0 else
     let u = ulp \<bar>q\<bar>; r = of_int (round_even (q / u)) * u in
       if 2 ^ 1024 \<le> r then PInf else if r \<le> - (2 ^ 1024) then NInf else Fin r)"

section \<open>Operations\<close>

definition f64_of_int :: "int \<Rightarrow> f64" where
  "f64_of_int i = f64_round (of_int i)"

fun f64_neg :: "f64 \<Rightarrow> f64" where
  "f64_neg (Fin x) = Fin (- x)"
| "f64_neg PInf = NInf"
| "f64_neg NInf = PInf"
| "f64_neg NaN = NaN"

fun f64_add :: "f64 \<Rightarrow> f64 \<Rightarrow> f64" where
  "f64_add NaN _ = NaN"
| "f64_add _ NaN = NaN"
| "f64_add (Fin x) (Fin y) = f64_round (x + y)"
| "f64_add PInf NInf = NaN"
| "f64_add NInf PInf = NaN"
| "f64_add PInf _ = PInf"
| "f64_add _ PInf = PInf"
| "f64_add NInf _ = NInf"
| "f64_add _ NInf = NInf"

fun f64_inf_sgn :: "rat \<Rightarrow> f64" where
  "f64_inf_sgn s = (if s = 0 then NaN else if 0 < s then PInf else NInf)"

fun f64_mul :: "f64 \<Rightarrow> f64 \<Rightarrow> f64" where
  "f64_mul NaN _ = NaN"
| "f64_mul _ NaN = NaN"
| "f64_mul (Fin x) (Fin y) = f64_round (x * y)"
| "f64_mul (Fin x) PInf = f64_inf_sgn x"
| "f64_mul (Fin x) NInf = f64_inf_sgn (- x)"
| "f64_mul PInf (Fin y) = f64_inf_sgn y"
| "f64_mul NInf (Fin y) = f64_inf_sgn (- y)"
| "f64_mul PInf PInf = PInf"
| "f64_mul NInf NInf = PInf"
| "f64_mul _ _ = NInf"

text \<open>Division by a zero, whose sign is taken positive.\<close>

fun f64_div :: "f64 \<Rightarrow> f64 \<Rightarrow> f64" where
  "f64_div NaN _ = NaN"
| "f64_div _ NaN = NaN"
| "f64_div (Fin x) (Fin y) = (if y = 0 then f64_inf_sgn x else f64_round (x / y))"
| "f64_div (Fin x) _ = Fin 0"
| "f64_div PInf (Fin y) = (if y < 0 then NInf else PInf)"
| "f64_div NInf (Fin y) = (if y < 0 then PInf else NInf)"
| "f64_div _ _ = NaN"

fun f64_lt :: "f64 \<Rightarrow> f64 \<Rightarrow> bool" where
  "f64_lt NaN _ = False"
| "f64_lt _ NaN = False"
| "f64_lt (Fin x) (Fin y) = (x < y)"
| "f64_lt NInf NInf = False"
| "f64_lt NInf _ = True"
| "f64_lt _ NInf = False"
| "f64_lt PInf _ = False"
| "f64_lt (Fin x) PInf = True"

fun math_Ceil :: "f64 \<Rightarrow> f64" where
  "math_Ceil (Fin x) = Fin (of_int \<lceil>x\<rceil>)"
| "math_Ceil v = v"

text \<open>The conversion \<^verbatim>\<open>int64(f)\<close> truncates towards zero. Outside the int64 range (and on NaN)
  Go leaves the result to the implementation; the value here is that of amd64.\<close>

definition rat_trunc :: "rat \<Rightarrow> int" where
  "rat_trunc x = (if 0 \<le> x then \<lfloor>x\<rfloor> else \<lceil>x\<rceil>)"

fun f64_to_int64 :: "f64 \<Rightarrow> int" where
  "f64_to_int64 (Fin x) = (if int64 (rat_trunc x) then rat_trunc x else - (2 ^ 63))"
| "f64_to_int64 _ = - (2 ^ 63)"

section \<open>The exponent\<close>

lemma bitlen_bounds: "0 < n \<Longrightarrow> 2 ^ (bitlen n - 1) \<le> n \<and> n < 2 ^ bitlen n \<and> 0 < bitlen n"
proof (induction n rule: bitlen.induct)
  case (1 n)
  show ?case
  proof (cases "n div 2 = 0")
    case True
    with "1.prems" have "n = 1" by auto
    then show ?thesis by (simp add: bitlen.simps [of "Suc 0"] bitlen.simps [of 0])
  next
    case False
    with "1" have IH: "2 ^ (bitlen (n div 2) - 1) \<le> n div 2" "n div 2 < 2 ^ bitlen (n div 2)"
        "0 < bitlen (n div 2)"
      by auto
    have b: "bitlen n = Suc (bitlen (n div 2))"
      using "1.prems" by (subst bitlen.simps) simp
    have p: "(2::nat) ^ bitlen (n div 2) = 2 * 2 ^ (bitlen (n div 2) - 1)"
      using IH(3) by (cases "bitlen (n div 2)") auto
    have "2 ^ bitlen (n div 2) \<le> n" using IH(1) p by linarith
    moreover have "n < 2 * 2 ^ bitlen (n div 2)" using IH(2) by linarith
    ultimately show ?thesis by (simp add: b)
  qed
qed

lemma bitlen_rat:
  assumes "0 < a"
  shows "2 powi (int (bitlen (nat a)) - 1) \<le> (of_int a :: rat)"
    and "(of_int a :: rat) < 2 powi int (bitlen (nat a))"
proof -
  let ?A = "bitlen (nat a)"
  have A: "2 ^ (?A - 1) \<le> nat a" "nat a < 2 ^ ?A" "0 < ?A"
    using bitlen_bounds [of "nat a"] assms by simp_all
  have "(2::rat) powi (int ?A - 1) = of_nat (2 ^ (?A - 1))"
    using A(3) by (cases ?A) (simp_all add: power_int_def)
  also have "\<dots> \<le> of_nat (nat a)" using A(1) by (simp only: of_nat_le_iff)
  finally show "2 powi (int ?A - 1) \<le> (of_int a :: rat)" using assms by simp
  have "of_nat (nat a) < (of_nat (2 ^ ?A) :: rat)" using A(2) by (simp only: of_nat_less_iff)
  then show "(of_int a :: rat) < 2 powi int ?A" using assms by (simp add: power_int_def)
qed

lemma exponent_bounds:
  assumes "0 < q"
  shows "2 powi exponent q \<le> q" and "q < 2 powi (exponent q + 1)"
proof -
  obtain a b where ab: "quotient_of q = (a, b)" by (cases "quotient_of q") auto
  have b: "0 < b" using ab by (rule quotient_of_denom_pos)
  have q: "q = of_int a / of_int b" using ab by (rule quotient_of_div)
  have a: "0 < a" using assms b q by (simp add: zero_less_divide_iff)
  define A B where "A = int (bitlen (nat a))" and "B = int (bitlen (nat b))"
  note ra = bitlen_rat [OF a, folded A_def] and rb = bitlen_rat [OF b, folded B_def]
  have "q < 2 powi A / of_int b" using ra(2) b by (simp add: q divide_strict_right_mono)
  also have "\<dots> \<le> 2 powi A / 2 powi (B - 1)"
    using rb(1) b by (intro divide_left_mono) auto
  also have "\<dots> = 2 powi (A - (B - 1))" by (rule power_int_diff [symmetric]) simp
  finally have up: "q < 2 powi (A - B + 1)" by (simp add: algebra_simps)
  have "2 powi (A - 1 - B) = (2::rat) powi (A - 1) / 2 powi B" by (rule power_int_diff) simp
  also have "\<dots> \<le> 2 powi (A - 1) / of_int b"
    using rb(2) b by (intro divide_left_mono) auto
  also have "\<dots> \<le> q" using ra(1) b by (simp add: q divide_right_mono)
  finally have lo: "2 powi (A - B - 1) \<le> q" by (simp add: algebra_simps)
  have ex: "exponent q = (if 2 powi (A - B) \<le> q then A - B else A - B - 1)"
    by (simp add: exponent_def ab A_def B_def)
  show "2 powi exponent q \<le> q" using lo by (simp add: ex)
  show "q < 2 powi (exponent q + 1)" using up by (simp add: ex)
qed

section \<open>Rounding to an integer\<close>

lemma round_even_of_int [simp]: "round_even (of_int k) = k"
  by (simp add: round_even_def)

lemma round_even_le:
  assumes "q \<le> of_int k"
  shows "round_even q \<le> k"
proof (cases "q = of_int k")
  case False
  with assms have "\<lfloor>q\<rfloor> < k" by (simp add: floor_less_iff)
  then show ?thesis by (simp add: round_even_def Let_def)
qed simp

lemma round_even_gt:
  assumes "of_int k + 1 / 2 < q"
  shows "k < round_even q"
proof (cases "\<lfloor>q\<rfloor> = k")
  case True
  with assms show ?thesis by (auto simp: round_even_def Let_def)
next
  case False
  moreover have "of_int k \<le> q" using assms by linarith
  ultimately have "k < \<lfloor>q\<rfloor>" by (simp add: less_le le_floor_iff)
  then show ?thesis by (simp add: round_even_def Let_def)
qed

section \<open>The ceiling of a quotient\<close>

lemma ulp_inverse:
  assumes "0 < q" "q < 2 ^ 53" "- 1022 \<le> exponent q"
  shows "\<exists>N. 0 < N \<and> ulp q = 1 / of_int N \<and> (2::rat) powi (52 - exponent q) = of_int N"
proof -
  have "(2::rat) powi exponent q < 2 powi 53"
    using exponent_bounds(1) [OF assms(1)] assms(2) by simp
  then have e: "exponent q \<le> 52"
    using power_int_increasing [of 53 "exponent q" "2::rat"] by (cases "53 \<le> exponent q") simp_all
  define N :: int where "N = 2 ^ nat (52 - exponent q)"
  have N: "(2::rat) powi (52 - exponent q) = of_int N" using e by (simp add: N_def power_int_def)
  have "max (exponent q - 52) (- 1074) = - (52 - exponent q)" using assms(3) by linarith
  then have "ulp q = 2 powi (- (52 - exponent q))" by (simp only: ulp_def)
  also have "\<dots> = 1 / of_int N" unfolding power_int_minus N by (simp add: inverse_eq_divide)
  finally show ?thesis using N by (intro exI [of _ N]) (simp add: N_def)
qed

lemma exponent_quotient:
  assumes "0 < a" "a < 2 ^ 53" "0 < b" "b < 2 ^ 53"
  defines "q \<equiv> of_int a / (of_int b :: rat)"
  shows "- 1022 \<le> exponent q" and "of_int b < 2 * (2::rat) powi (52 - exponent q)"
proof -
  have q: "0 < q" using assms by simp
  have ab: "0 < (of_int a :: rat)" "of_int a < (2 ^ 53 :: rat)" "0 < (of_int b :: rat)" "of_int b < (2 ^ 53 :: rat)"
    using assms(1-4) of_int_less_iff [of a "2 ^ 53", where 'a = rat] of_int_less_iff [of b "2 ^ 53", where 'a = rat]
    by simp_all
  have "(2::rat) powi (- 53) < q"
  proof -
    have "1 \<le> (of_int a :: rat)" using assms(1) by simp
    then have "1 / 2 ^ 53 < (of_int a / of_int b :: rat)" using ab
      by (simp add: field_simps)
    then show ?thesis by (simp add: q_def power_int_minus inverse_eq_divide)
  qed
  then have "(2::rat) powi (- 53) < 2 powi (exponent q + 1)"
    using exponent_bounds(2) [OF q] by linarith
  then show "- 1022 \<le> exponent q"
    using power_int_increasing [of "exponent q + 1" "-53" "2::rat"] by (cases "exponent q + 1 \<le> - 53") simp_all
  have "2 powi exponent q * of_int b \<le> q * of_int b"
    using exponent_bounds(1) [OF q] ab(3) by (intro mult_right_mono) auto
  also have "\<dots> = of_int a" using ab(3) by (simp add: q_def)
  also have "\<dots> < 2 powi 53" using ab(2) by simp
  finally have "of_int b < 2 powi 53 / (2::rat) powi exponent q"
    by (simp add: pos_less_divide_eq mult.commute)
  also have "\<dots> = 2 powi (53 - exponent q)" by (rule power_int_diff [symmetric]) simp
  also have "\<dots> = 2 * (2::rat) powi (52 - exponent q)"
    using power_int_add_1' [of "2::rat" "52 - exponent q"] by simp
  finally show "of_int b < 2 * (2::rat) powi (52 - exponent q)" .
qed

lemma f64_round_ulp_inverse:
  assumes "0 < q" "q < 2 ^ 53" "ulp q = 1 / of_int N" "0 < N"
  shows "f64_round q = Fin (of_int (round_even (q * of_int N)) / of_int N)"
proof -
  have "q \<le> of_int \<lceil>q\<rceil>" "\<lceil>q\<rceil> \<le> 2 ^ 53" using assms(2) by (simp_all add: ceiling_le_iff less_imp_le)
  then have "q * of_int N \<le> of_int (2 ^ 53 * N)"
    using assms by (simp add: mult_right_mono less_imp_le)
  then have "round_even (q * of_int N) \<le> 2 ^ 53 * N" by (rule round_even_le)
  then have "(of_int (round_even (q * of_int N)) :: rat) \<le> of_int (2 ^ 53 * N)"
    by (simp only: of_int_le_iff)
  then have hi: "of_int (round_even (q * of_int N)) / of_int N \<le> (2 ^ 53 :: rat)"
    using assms(4) by (simp add: pos_divide_le_eq)
  have "- 1 < round_even (q * of_int N)"
    using assms by (intro round_even_gt) (auto intro: less_trans [of _ 0])
  then have lo: "0 \<le> of_int (round_even (q * of_int N)) / (of_int N :: rat)"
    using assms(4) by simp
  show ?thesis using assms hi lo by (simp add: f64_round_def Let_def)
qed

lemma ceil_rounded_quotient:
  assumes "0 < a" "a < 2 ^ 53" "0 < b" "b < 2 ^ 53"
  shows "math_Ceil (f64_round (of_int a / of_int b)) = Fin (of_int \<lceil>of_int a / (of_int b :: rat)\<rceil>)"
proof -
  define q :: rat where "q = of_int a / of_int b"
  have q: "0 < q" using assms by (simp add: q_def)
  have "1 \<le> (of_int b :: rat)" using assms by simp
  then have "q \<le> of_int a" using assms(1,3) by (simp add: q_def pos_divide_le_eq)
  moreover have "(of_int a :: rat) < of_int (2 ^ 53)" using assms(2) by (simp only: of_int_less_iff)
  ultimately have q53: "q < 2 ^ 53" by simp
  note ex = exponent_quotient [OF assms, folded q_def]
  obtain N where N: "0 < N" "ulp q = 1 / of_int N" "(2::rat) powi (52 - exponent q) = of_int N"
    using ulp_inverse [OF q q53 ex(1)] by blast
  let ?r = "round_even (q * of_int N)"
  have r: "f64_round q = Fin (of_int ?r / of_int N)"
    using q q53 N(2,1) by (rule f64_round_ulp_inverse)
  have "q * of_int N \<le> of_int (\<lceil>q\<rceil> * N)" using N(1) by (simp add: mult_right_mono)
  then have up: "?r \<le> \<lceil>q\<rceil> * N" by (rule round_even_le)
  have lo: "(\<lceil>q\<rceil> - 1) * N < ?r"
  proof (rule round_even_gt)
    have "of_int ((\<lceil>q\<rceil> - 1) * b) < (of_int a :: rat)"
      using ceiling_correct [of q] assms(3) by (simp add: q_def pos_less_divide_eq)
    then have "(\<lceil>q\<rceil> - 1) * b + 1 \<le> a" by (simp only: of_int_less_iff)
    then have "of_int ((\<lceil>q\<rceil> - 1) * b + 1) \<le> (of_int a :: rat)" by (simp only: of_int_le_iff)
    then have "of_int ((\<lceil>q\<rceil> - 1) * b + 1) / of_int b \<le> q"
      using assms(3) unfolding q_def by (intro divide_right_mono) auto
    then have "of_int (\<lceil>q\<rceil> - 1) + 1 / of_int b \<le> q"
      using assms(3) by (simp add: add_divide_distrib)
    then have "(of_int (\<lceil>q\<rceil> - 1) + 1 / of_int b) * of_int N \<le> q * of_int N"
      using N(1) by (intro mult_right_mono) auto
    moreover have "1 / 2 < of_int N / (of_int b :: rat)"
      using ex(2) N(3) assms(3) by (simp add: field_simps)
    moreover have "(of_int (\<lceil>q\<rceil> - 1) + 1 / of_int b) * of_int N
        = of_int ((\<lceil>q\<rceil> - 1) * N) + of_int N / (of_int b :: rat)"
      by (simp add: distrib_right)
    ultimately show "of_int ((\<lceil>q\<rceil> - 1) * N) + 1 / 2 < q * of_int N" by linarith
  qed
  have "\<lceil>of_int ?r / (of_int N :: rat)\<rceil> = \<lceil>q\<rceil>"
  proof (rule ceiling_unique)
    have "of_int ((\<lceil>q\<rceil> - 1) * N) < (of_int ?r :: rat)" using lo by (simp only: of_int_less_iff)
    then show "of_int \<lceil>q\<rceil> - 1 < of_int ?r / (of_int N :: rat)" using N(1) by (simp add: pos_less_divide_eq)
    have "of_int ?r \<le> (of_int (\<lceil>q\<rceil> * N) :: rat)" using up by (simp only: of_int_le_iff)
    then show "of_int ?r / (of_int N :: rat) \<le> of_int \<lceil>q\<rceil>" using N(1) by (simp add: pos_divide_le_eq)
  qed
  then show ?thesis by (simp add: r flip: q_def)
qed

lemma f64_of_int_exact:
  assumes "0 < a" "a < 2 ^ 53"
  shows "f64_of_int a = Fin (of_int a)"
proof -
  define q :: rat where "q = of_int a"
  have q: "0 < q" "1 \<le> q" using assms by (simp_all add: q_def)
  have q53: "q < 2 ^ 53" using assms(2) of_int_less_iff [of a "2 ^ 53", where 'a = rat] by (simp add: q_def)
  have "- 1022 \<le> exponent q"
    using exponent_quotient(1) [OF assms, of 1] by (simp add: q_def)
  then obtain N where N: "0 < N" "ulp q = 1 / of_int N" using ulp_inverse [OF q(1) q53] by blast
  have "q * of_int N = of_int (a * N)" by (simp add: q_def)
  then have "f64_round q = Fin q"
    using f64_round_ulp_inverse [OF q(1) q53 N(2,1)] N(1) by (simp only: round_even_of_int) (simp add: q_def)
  then show ?thesis by (simp add: f64_of_int_def q_def)
qed

definition cdiv :: "int \<Rightarrow> int \<Rightarrow> int" where
  "cdiv a b = - ((- a) div b)"

lemma ceiling_quotient: "\<lceil>of_int a / (of_int b :: rat)\<rceil> = cdiv a b"
  using floor_divide_of_int_eq [of "- a" b, where 'a = rat] by (simp add: cdiv_def ceiling_def)

text \<open>The ceiling the limiter computes in floating point is the exact one.\<close>

lemma ceil_quotient_exact:
  assumes "0 < a" "a < 2 ^ 53" "0 < b" "b < 2 ^ 53"
  shows "f64_to_int64 (math_Ceil (f64_div (f64_of_int a) (f64_of_int b))) = cdiv a b"
proof -
  have c: "0 \<le> cdiv a b" "cdiv a b \<le> a"
  proof -
    have "(- a) div b \<le> 0" using assms by (simp add: div_nonpos_pos_le0)
    then show "0 \<le> cdiv a b" by (simp add: cdiv_def)
    have "(- a) div 1 \<le> (- a) div b" using assms by (intro zdiv_mono2_neg) auto
    then show "cdiv a b \<le> a" by (simp add: cdiv_def)
  qed
  have "f64_div (f64_of_int a) (f64_of_int b) = f64_round (of_int a / of_int b)"
    using assms by (simp add: f64_of_int_exact)
  then have "math_Ceil (f64_div (f64_of_int a) (f64_of_int b)) = Fin (of_int (cdiv a b))"
    using ceil_rounded_quotient [OF assms] by (simp add: ceiling_quotient)
  then show ?thesis using c assms by (simp add: rat_trunc_def int64_def)
qed

end
