(* ===== verification/Limiter.thy ===== *)
theory Limiter
  imports GoFloat
begin

text \<open>
  Package \<^verbatim>\<open>limiter\<close> of the advanced-ratelimit policy: the result of a check
  (\<^verbatim>\<open>limiter/result.go\<close>) with the headers it sets, the algorithm registry
  (\<^verbatim>\<open>limiter/factory.go\<close>), and the \<^verbatim>\<open>Limiter\<close> interface (\<^verbatim>\<open>limiter/interface.go\<close>) as the
  locale \<open>limiter_contract\<close>, which the in-memory limiters interpret and on which the
  multi-limiter rests.

  Every limiter method returns the new state of the limiter and an outcome: a value, an error
  or a panic. The clock is an argument: \<open>clock\<close> is what the limiter's \<^verbatim>\<open>Clock\<close> returns,
  \<open>sys_now\<close> what \<^verbatim>\<open>time.Until\<close> reads from the system.
\<close>

section \<open>Outcomes and the environment of a call\<close>

datatype 'a outcome = Ret 'a | Fail string | Panic

record env =
  clock :: instant
  sys_now :: instant

definition time_Until :: "env \<Rightarrow> instant \<Rightarrow> duration" where
  "time_Until e t = time_Sub t (sys_now e)"

section \<open>Result\<close>

record result =
  Allowed :: bool
  Requested :: int
  Consumed :: int
  Overflow :: int
  RLimit :: int
  Remaining :: int
  Reset :: instant
  RetryAfter :: duration
  FullQuotaAt :: instant
  RDuration :: duration

text \<open>The zero value of the struct.\<close>

definition result_zero :: result where
  "result_zero = \<lparr>Allowed = False, Requested = 0, Consumed = 0, Overflow = 0, RLimit = 0,
     Remaining = 0, Reset = 0, RetryAfter = 0, FullQuotaAt = 0, RDuration = 0\<rparr>"

text \<open>\<^verbatim>\<open>Duration.Seconds\<close> of the standard library.\<close>

definition dur_Seconds :: "duration \<Rightarrow> f64" where
  "dur_Seconds d = (let s = sgn d * (\<bar>d\<bar> div Second); n = sgn d * (\<bar>d\<bar> mod Second) in
     f64_add (f64_of_int s) (f64_div (f64_of_int n) (f64_of_int 1000000000)))"

text \<open>\<^verbatim>\<open>http.Header\<close> canonicalises the keys it stores: a letter after the start or a hyphen in
  upper case, the others in lower case.\<close>

definition to_upper :: "char \<Rightarrow> char" where
  "to_upper c = (if 97 \<le> (of_char c :: nat) \<and> (of_char c :: nat) \<le> 122 then char_of (of_char c - 32 :: nat) else c)"

definition to_lower :: "char \<Rightarrow> char" where
  "to_lower c = (if 65 \<le> (of_char c :: nat) \<and> (of_char c :: nat) \<le> 90 then char_of (of_char c + 32 :: nat) else c)"

fun canonical_key :: "bool \<Rightarrow> string \<Rightarrow> string" where
  "canonical_key up [] = []"
| "canonical_key up (c # cs) = (if up then to_upper c else to_lower c) # canonical_key (c = CHR ''-'') cs"

type_synonym header = "(string, string) gomap"

definition header_Set :: "string \<Rightarrow> string \<Rightarrow> header \<Rightarrow> header" where
  "header_Set k v h = AList.update (canonical_key True k) v h"

definition header_Get :: "string \<Rightarrow> header \<Rightarrow> string option" where
  "header_Get k h = map_of h (canonical_key True k)"

definition SetXRateLimitHeaders :: "result \<Rightarrow> header \<Rightarrow> header" where
  "SetXRateLimitHeaders r h =
     (let h = header_Set ''X-RateLimit-Limit'' (itoa (RLimit r)) h;
          h = header_Set ''X-RateLimit-Remaining'' (itoa (Remaining r)) h;
          h = header_Set ''X-RateLimit-Reset'' (itoa (time_Unix (Reset r))) h
      in header_Set ''X-RateLimit-Full-Quota-Reset'' (itoa (time_Unix (FullQuotaAt r))) h)"

definition seconds_until :: "env \<Rightarrow> instant \<Rightarrow> int" where
  "seconds_until e t = (let s = f64_to_int64 (dur_Seconds (time_Until e t)) in if s < 0 then 0 else s)"

definition SetIETFHeaders :: "env \<Rightarrow> result \<Rightarrow> header \<Rightarrow> header" where
  "SetIETFHeaders e r h =
     (let h = header_Set ''RateLimit-Limit'' (itoa (RLimit r)) h;
          h = header_Set ''RateLimit-Remaining'' (itoa (Remaining r)) h;
          h = header_Set ''RateLimit-Reset'' (itoa (seconds_until e (Reset r))) h;
          h = header_Set ''RateLimit-Full-Quota-Reset'' (itoa (seconds_until e (FullQuotaAt r))) h
      in header_Set ''RateLimit-Policy''
           (itoa (RLimit r) @ '';w='' @ itoa (f64_to_int64 (dur_Seconds (RDuration r)))) h)"

definition SetRetryAfterHeader :: "result \<Rightarrow> header \<Rightarrow> header" where
  "SetRetryAfterHeader r h =
     (if 0 < RetryAfter r then
        let s = f64_to_int64 (dur_Seconds (RetryAfter r)); s = (if s < 1 then 1 else s)
        in header_Set ''Retry-After'' (itoa s) h
      else h)"

definition SetHeaders :: "env \<Rightarrow> result \<Rightarrow> header \<Rightarrow> header" where
  "SetHeaders e r h =
     (let h = SetIETFHeaders e r (SetXRateLimitHeaders r h) in
      if \<not> Allowed r then SetRetryAfterHeader r h else h)"

lemma header_Get_Set [simp]:
  "header_Get k (header_Set k' v h) = (if canonical_key True k' = canonical_key True k then Some v else header_Get k h)"
  by (simp add: header_Get_def header_Set_def)

section \<open>The algorithm registry\<close>

record limit_config =
  lcLimit :: int
  lcDuration :: duration
  lcBurst :: int

text \<open>\<open>'c\<close> is the configuration and \<open>'l\<close> the limiter a factory builds from it.\<close>

type_synonym ('c, 'l) registry = "(string, 'c \<Rightarrow> 'l outcome) gomap"

definition RegisterAlgorithm :: "string \<Rightarrow> ('c \<Rightarrow> 'l outcome) \<Rightarrow> ('c, 'l) registry \<Rightarrow> ('c, 'l) registry" where
  "RegisterAlgorithm name factory algorithms = AList.update name factory algorithms"

definition CreateLimiter :: "('c, 'l) registry \<Rightarrow> string \<Rightarrow> 'c \<Rightarrow> 'l outcome" where
  "CreateLimiter algorithms algorithm config =
     (case map_of algorithms algorithm of
        None \<Rightarrow> Fail (''unknown algorithm: '' @ algorithm)
      | Some factory \<Rightarrow> factory config)"

section \<open>The limiter interface\<close>

type_synonym 's limiter_op = "env \<Rightarrow> 's \<Rightarrow> string \<Rightarrow> int \<Rightarrow> 's \<times> result outcome"
type_synonym 's avail_op = "env \<Rightarrow> 's \<Rightarrow> string \<Rightarrow> int outcome"

text \<open>
  What a client of a limiter relies on. The invariant \<open>ok now s\<close> says that \<open>s\<close> is a state the
  limiter can be in at time \<open>now\<close>; \<open>now\<close> may advance. Under it, for a request of at least one
  token: a check returns a result, with a remaining quota that is not negative; a check
  (\<^verbatim>\<open>AllowN\<close>) succeeds exactly when the request fits the quota \<^verbatim>\<open>GetAvailable\<close> reports, and a
  denied one changes nothing; a clamped consumption (\<^verbatim>\<open>ConsumeOrClampN\<close>) consumes what is
  there, and a denied one leaves no quota.
\<close>

locale limiter_contract =
  fixes ok :: "instant \<Rightarrow> 's \<Rightarrow> bool"
    and AllowN :: "'s limiter_op"
    and ConsumeOrClampN :: "'s limiter_op"
    and GetAvailable :: "'s avail_op"
  assumes ok_later: "ok t s \<Longrightarrow> t \<le> t' \<Longrightarrow> ok t' s"
    and avail_ret: "ok (clock e) s \<Longrightarrow> \<exists>a\<ge>0. GetAvailable e s k = Ret a"
    and allow_ret: "ok (clock e) s \<Longrightarrow> 1 \<le> n \<Longrightarrow> n < 2 ^ 62 \<Longrightarrow> GetAvailable e s k = Ret a \<Longrightarrow>
        \<exists>s' r. AllowN e s k n = (s', Ret r) \<and> ok (clock e) s' \<and> 0 \<le> Remaining r \<and>
          (Allowed r \<longleftrightarrow> n \<le> a) \<and> (\<not> Allowed r \<longrightarrow> s' = s)"
    and clamp_ret: "ok (clock e) s \<Longrightarrow> 0 \<le> n \<Longrightarrow> n < 2 ^ 62 \<Longrightarrow> GetAvailable e s k = Ret a \<Longrightarrow>
        \<exists>s' r. ConsumeOrClampN e s k n = (s', Ret r) \<and> ok (clock e) s' \<and> 0 \<le> Remaining r \<and>
          Consumed r = min n a \<and> Overflow r = n - Consumed r \<and> (Allowed r \<longleftrightarrow> n \<le> a) \<and>
          (\<not> Allowed r \<longrightarrow> Remaining r = 0)"
begin

lemma allow_fits:
  assumes "ok (clock e) s" "1 \<le> n" "n < 2 ^ 62" "AllowN e s k n = (s', Ret r)"
  shows "Allowed r \<longleftrightarrow> (\<exists>a. GetAvailable e s k = Ret a \<and> n \<le> a)"
proof -
  obtain a where "GetAvailable e s k = Ret a" using avail_ret [OF assms(1)] by blast
  then show ?thesis using allow_ret [OF assms(1-3), of k a] assms(4) by auto
qed

lemma allow_total:
  "ok (clock e) s \<Longrightarrow> 1 \<le> n \<Longrightarrow> n < 2 ^ 62 \<Longrightarrow> \<exists>s' r. AllowN e s k n = (s', Ret r) \<and> ok (clock e) s'"
  using avail_ret allow_ret by blast

lemma denied_unchanged:
  "ok (clock e) s \<Longrightarrow> 1 \<le> n \<Longrightarrow> n < 2 ^ 62 \<Longrightarrow> AllowN e s k n = (s', Ret r) \<Longrightarrow> \<not> Allowed r \<Longrightarrow> s' = s"
  using avail_ret allow_ret by (metis outcome.inject(1) prod.inject)

lemma clamp_total:
  assumes "ok (clock e) s" "0 \<le> n" "n < 2 ^ 62"
  obtains s' r where "ConsumeOrClampN e s k n = (s', Ret r)" "ok (clock e) s'" "0 \<le> Remaining r"
    "Allowed r \<longrightarrow> Consumed r = n" "\<not> Allowed r \<longrightarrow> Remaining r = 0 \<and> Consumed r < n"
    "0 \<le> Consumed r" "Consumed r + Overflow r = n"
proof -
  obtain a where a: "0 \<le> a" "GetAvailable e s k = Ret a" using avail_ret [OF assms(1)] by blast
  from clamp_ret [OF assms a(2)] a(1) that assms(2) show ?thesis by fastforce
qed

end

end
