(* ===== verification/Gcra.thy ===== *)
theory Gcra
  imports Limiter
begin

text \<open>
  Package \<^verbatim>\<open>gcra\<close>: the policy (\<^verbatim>\<open>gcra/policy.go\<close>) and the in-memory limiter
  (\<^verbatim>\<open>gcra/memory.go\<close>) of the generic cell rate algorithm. A key's state is its theoretical
  arrival time (TAT) with an expiration after which the entry counts as absent and may be
  removed by the cleanup. The lemmas show that expiration and cleanup never lose a TAT that
  still matters, that the quota computed in floating point is the exact one, what every
  operation returns, and the rate bound of the algorithm.
\<close>

section \<open>Policy\<close>

record gcra_policy =
  gLimit :: int
  gDuration :: duration
  gBurst :: int

definition NewPolicy :: "int \<Rightarrow> duration \<Rightarrow> int \<Rightarrow> gcra_policy" where
  "NewPolicy limit duration burst = \<lparr>gLimit = limit, gDuration = duration, gBurst = burst\<rparr>"

text \<open>Division by a zero limit panics: \<open>None\<close>.\<close>

definition EmissionInterval :: "gcra_policy \<Rightarrow> duration option" where
  "EmissionInterval p = go_div (gDuration p) (gLimit p)"

definition BurstAllowance :: "gcra_policy \<Rightarrow> duration option" where
  "BurstAllowance p = (if gBurst p \<le> 1 then Some 0 else
     do { ei \<leftarrow> EmissionInterval p; Some (wrap64 (ei * wrap64 (gBurst p - 1))) })"

definition WithBurst :: "gcra_policy \<Rightarrow> int \<Rightarrow> gcra_policy" where
  "WithBurst p burst = p\<lparr>gBurst := burst\<rparr>"

definition PerSecond :: "int \<Rightarrow> gcra_policy" where
  "PerSecond limit = \<lparr>gLimit = limit, gDuration = Second, gBurst = limit\<rparr>"

definition PerMinute :: "int \<Rightarrow> gcra_policy" where
  "PerMinute limit = \<lparr>gLimit = limit, gDuration = Minute, gBurst = limit\<rparr>"

definition PerHour :: "int \<Rightarrow> gcra_policy" where
  "PerHour limit = \<lparr>gLimit = limit, gDuration = Hour, gBurst = limit\<rparr>"

definition PerDay :: "int \<Rightarrow> gcra_policy" where
  "PerDay limit = \<lparr>gLimit = limit, gDuration = 24 * Hour, gBurst = limit\<rparr>"

section \<open>In-memory limiter\<close>

record tatEntry =
  tat :: instant
  expiration :: instant

record gcra_mem =
  gdata :: "(string, tatEntry) gomap"
  gpolicy :: gcra_policy
  gcleanup :: bool
  gclosed :: bool

definition NewMemoryLimiter :: "gcra_policy \<Rightarrow> duration \<Rightarrow> gcra_mem" where
  "NewMemoryLimiter p cleanupInterval =
     \<lparr>gdata = [], gpolicy = p, gcleanup = (0 < cleanupInterval), gclosed = False\<rparr>"

text \<open>The TAT an operation starts from: the stored one unless the entry is absent or expired,
  then raised to the current time.\<close>

definition loadTAT :: "gcra_mem \<Rightarrow> string \<Rightarrow> instant \<Rightarrow> instant" where
  "loadTAT m key now =
     (let t = (case map_of (gdata m) key of
                 Some entry \<Rightarrow> if now < expiration entry then tat entry else now
               | None \<Rightarrow> now)
      in if t < now then now else t)"

definition calculateRemaining :: "gcra_policy \<Rightarrow> instant \<Rightarrow> instant \<Rightarrow> duration \<Rightarrow> duration \<Rightarrow> int" where
  "calculateRemaining p t now emissionInterval burstAllowance =
     (if t < now \<or> t = now then gBurst p
      else let usedBurst = time_Sub t now in
        if burstAllowance < usedBurst then 0
        else let remaining = wrap64 (gBurst p -
                   f64_to_int64 (math_Ceil (f64_div (f64_of_int usedBurst) (f64_of_int emissionInterval))))
             in if remaining < 0 then 0 else remaining)"

definition storeTAT :: "gcra_mem \<Rightarrow> string \<Rightarrow> instant \<Rightarrow> instant \<Rightarrow> duration \<Rightarrow> gcra_mem" where
  "storeTAT m key newTAT now d =
     m\<lparr>gdata := AList.update key \<lparr>tat = newTAT, expiration = time_Add now d\<rparr> (gdata m)\<rparr>"

definition gcra_result :: "gcra_policy \<Rightarrow> bool \<Rightarrow> int \<Rightarrow> instant \<Rightarrow> duration \<Rightarrow> instant \<Rightarrow> result" where
  "gcra_result p allowed remaining reset retryAfter now =
     result_zero\<lparr>Allowed := allowed, RLimit := gLimit p, Remaining := remaining, Reset := reset,
       RetryAfter := retryAfter, FullQuotaAt := (if reset < now then now else reset),
       RDuration := gDuration p\<rparr>"

definition AllowN :: "gcra_mem limiter_op" where
  "AllowN e m key n =
     (let now = clock e; p = gpolicy m; t = loadTAT m key now in
      case (EmissionInterval p, BurstAllowance p) of
        (Some emissionInterval, Some burstAllowance) \<Rightarrow>
          (let allowAt = time_Add t (wrap64 (- burstAllowance));
               remaining = calculateRemaining p t now emissionInterval burstAllowance in
           if now < allowAt then
             (m, Ret (gcra_result p False remaining t (time_Sub allowAt now) now))
           else if remaining < n then
             (m, Ret (gcra_result p False remaining t 0 now))
           else
             let newTAT = time_Add t (wrap64 (emissionInterval * n));
                 m' = (if 0 < n then storeTAT m key newTAT now (wrap64 (gDuration p + burstAllowance)) else m);
                 remaining = calculateRemaining p newTAT now emissionInterval burstAllowance
             in (m', Ret (gcra_result p True remaining newTAT 0 now)))
      | _ \<Rightarrow> (m, Panic))"

definition Allow :: "env \<Rightarrow> gcra_mem \<Rightarrow> string \<Rightarrow> gcra_mem \<times> result outcome" where
  "Allow e m key = AllowN e m key 1"

definition ConsumeOrClampN :: "gcra_mem limiter_op" where
  "ConsumeOrClampN e m key n0 =
     (let n = (if n0 < 0 then 0 else n0); now = clock e; p = gpolicy m in
      case (EmissionInterval p, BurstAllowance p) of
        (Some emissionInterval, Some burstAllowance) \<Rightarrow>
          (let t = loadTAT m key now;
               allowAt = time_Add t (wrap64 (- burstAllowance));
               remainingBefore = calculateRemaining p t now emissionInterval burstAllowance;
               consumed = (if now < allowAt then 0 else n);
               consumed = (if remainingBefore < consumed then remainingBefore else consumed);
               overflow = wrap64 (n - consumed);
               allowed = (overflow = 0);
               newTAT = time_Add t (wrap64 (emissionInterval * consumed));
               m' = (if 0 < consumed then storeTAT m key newTAT now (wrap64 (gDuration p + burstAllowance)) else m);
               remainingAfter = calculateRemaining p newTAT now emissionInterval burstAllowance;
               nextAllowAt = time_Add newTAT (wrap64 (- burstAllowance));
               retryAfter = (if \<not> allowed \<and> now < nextAllowAt then time_Sub nextAllowAt now else 0)
           in (m', Ret ((gcra_result p allowed remainingAfter newTAT retryAfter now)
                    \<lparr>Requested := n, Consumed := consumed, Overflow := overflow\<rparr>)))
      | _ \<Rightarrow> (m, Panic))"

definition ConsumeN :: "gcra_mem limiter_op" where
  "ConsumeN e m key n0 =
     (let n = (if n0 < 0 then 0 else n0); now = clock e; p = gpolicy m; t = loadTAT m key now in
      case (EmissionInterval p, BurstAllowance p) of
        (Some emissionInterval, Some burstAllowance) \<Rightarrow>
          (let newTAT = time_Add t (wrap64 (emissionInterval * n));
               baseExpiration = wrap64 (gDuration p + burstAllowance);
               debt = time_Sub newTAT now;
               expiration = (if baseExpiration < debt then debt else baseExpiration);
               m' = (if 0 < n then storeTAT m key newTAT now expiration else m);
               remainingBefore = calculateRemaining p t now emissionInterval burstAllowance;
               remaining = calculateRemaining p newTAT now emissionInterval burstAllowance;
               allowAt = time_Add t (wrap64 (- burstAllowance));
               allowed = (\<not> now < allowAt \<and> n \<le> remainingBefore);
               overflow = (if remainingBefore < n then wrap64 (n - remainingBefore) else 0);
               nextAllowAt = time_Add newTAT (wrap64 (- burstAllowance));
               retryAfter = (if allowed then 0 else let d = time_Sub nextAllowAt now in if d < 0 then 0 else d)
           in (m', Ret ((gcra_result p allowed remaining newTAT retryAfter now)
                    \<lparr>Requested := n, Consumed := n, Overflow := overflow\<rparr>)))
      | _ \<Rightarrow> (m, Panic))"

definition GetAvailable :: "gcra_mem avail_op" where
  "GetAvailable e m key =
     (let now = clock e; p = gpolicy m in
      case (EmissionInterval p, BurstAllowance p) of
        (Some emissionInterval, Some burstAllowance) \<Rightarrow>
          (case map_of (gdata m) key of
             None \<Rightarrow> Ret (gBurst p)
           | Some entry \<Rightarrow>
               if expiration entry < now then Ret (gBurst p)
               else Ret (calculateRemaining p (tat entry) now emissionInterval burstAllowance))
      | _ \<Rightarrow> Panic)"

definition removeExpired :: "instant \<Rightarrow> gcra_mem \<Rightarrow> gcra_mem" where
  "removeExpired now m = m\<lparr>gdata := filter (\<lambda>(key, entry). \<not> expiration entry < now) (gdata m)\<rparr>"

text \<open>\<^verbatim>\<open>Close\<close> closes \<^verbatim>\<open>done\<close> and stops the ticker, once; the cleanup loop runs
  \<^const>\<open>removeExpired\<close> on every tick until then.\<close>

definition Close :: "gcra_mem \<Rightarrow> gcra_mem" where
  "Close m = (if gclosed m then m else m\<lparr>gclosed := True, gcleanup := False\<rparr>)"

definition cleanupTick :: "instant \<Rightarrow> gcra_mem \<Rightarrow> gcra_mem" where
  "cleanupTick now m = (if gcleanup m \<and> \<not> gclosed m then removeExpired now m else m)"

section \<open>Configurations the bounds hold for\<close>

text \<open>
  A usable policy: at least one request per window and at least a nanosecond between requests,
  a burst of at least one, and the window and the time a full burst takes to regenerate below
  \<open>2 ^ 53\<close> nanoseconds (104 days), where \<^verbatim>\<open>float64\<close> is exact.
\<close>

definition policy_ok :: "gcra_policy \<Rightarrow> bool" where
  "policy_ok p \<longleftrightarrow> 1 \<le> gLimit p \<and> gLimit p \<le> gDuration p \<and> gDuration p < 2 ^ 53 \<and> 1 \<le> gBurst p \<and>
     (gDuration p div gLimit p) * gBurst p < 2 ^ 53"

definition ei :: "gcra_policy \<Rightarrow> duration" where
  "ei p = gDuration p div gLimit p"

definition ba :: "gcra_policy \<Rightarrow> duration" where
  "ba p = ei p * (gBurst p - 1)"


lemma ei_pos: "policy_ok p \<Longrightarrow> 1 \<le> ei p"
  using zdiv_mono1 [of "gLimit p" "gDuration p" "gLimit p"] by (simp add: policy_ok_def ei_def)

lemma ei_le_duration: "policy_ok p \<Longrightarrow> ei p \<le> gDuration p"
  using zdiv_mono2 [of "gDuration p" 1 "gLimit p"] by (simp add: policy_ok_def ei_def)

lemma ba_ei: "ba p + ei p = ei p * gBurst p"
  by (simp add: ba_def algebra_simps)

lemma policy_ok_bounds:
  assumes "policy_ok p"
  shows "1 \<le> ei p" "ei p < 2 ^ 53" "0 \<le> ba p" "ba p + ei p < 2 ^ 53" "1 \<le> gBurst p" "gBurst p < 2 ^ 53"
    "gDuration p < 2 ^ 53" "ei p \<le> gDuration p"
proof -
  show ei: "1 \<le> ei p" using assms by (rule ei_pos)
  show "ei p \<le> gDuration p" using assms by (rule ei_le_duration)
  then show "ei p < 2 ^ 53" using assms by (simp add: policy_ok_def)
  show b: "1 \<le> gBurst p" using assms by (simp add: policy_ok_def)
  show "0 \<le> ba p" using ei b by (simp add: ba_def)
  show "ba p + ei p < 2 ^ 53" using assms by (simp add: ba_ei) (simp add: policy_ok_def ei_def)
  have "1 * gBurst p \<le> ei p * gBurst p" using ei b by (intro mult_right_mono) auto
  then show "gBurst p < 2 ^ 53" using \<open>ba p + ei p < 2 ^ 53\<close> by (simp add: ba_ei)
  show "gDuration p < 2 ^ 53" using assms by (simp add: policy_ok_def)
qed

lemma EmissionInterval_ok: "policy_ok p \<Longrightarrow> EmissionInterval p = Some (ei p)"
  unfolding EmissionInterval_def ei_def by (rule go_div_pos) (auto simp: policy_ok_def int64_def)

lemma BurstAllowance_ok: "policy_ok p \<Longrightarrow> BurstAllowance p = Some (ba p)"
proof -
  assume p: "policy_ok p"
  note b = policy_ok_bounds [OF p]
  have "wrap64 (gBurst p - 1) = gBurst p - 1" using b by (intro wrap64_id) (simp add: int64_def)
  moreover have "wrap64 (ba p) = ba p" using b by (intro wrap64_id) (simp add: int64_def)
  ultimately show ?thesis using p b by (auto simp: BurstAllowance_def EmissionInterval_ok ba_def)
qed

lemmas policy_ok_params = EmissionInterval_ok BurstAllowance_ok

section \<open>The quota as a function of the distance to the TAT\<close>

definition avail :: "gcra_policy \<Rightarrow> int \<Rightarrow> int" where
  "avail p d = max 0 (gBurst p - cdiv (max 0 d) (ei p))"

lemma cdiv_bounds:
  assumes "0 < b"
  shows "a \<le> cdiv a b * b" and "cdiv a b * b < a + b"
proof -
  have m: "b * ((- a) div b) + (- a) mod b = - a" by simp
  have "0 \<le> (- a) mod b" "(- a) mod b < b" using assms by simp_all
  moreover have "cdiv a b * b = - (b * ((- a) div b))" by (simp add: cdiv_def mult.commute)
  ultimately show "a \<le> cdiv a b * b" "cdiv a b * b < a + b" using m by linarith+
qed

lemma cdiv_le_iff:
  assumes "0 < b"
  shows "cdiv a b \<le> k \<longleftrightarrow> a \<le> k * b"
proof
  assume "cdiv a b \<le> k"
  then have "cdiv a b * b \<le> k * b" using assms by (intro mult_right_mono) auto
  then show "a \<le> k * b" using cdiv_bounds(1) [OF assms, of a] by linarith
next
  assume "a \<le> k * b"
  then have "cdiv a b * b < (k + 1) * b" using cdiv_bounds(2) [OF assms, of a] by (simp add: algebra_simps)
  then show "cdiv a b \<le> k" using assms by (simp add: mult_less_cancel_right)
qed

lemma avail_bounds: "policy_ok p \<Longrightarrow> 0 \<le> avail p d \<and> avail p d \<le> gBurst p"
proof -
  assume p: "policy_ok p"
  have "0 \<le> cdiv (max 0 d) (ei p)"
    using p cdiv_le_iff [of "ei p" "max 0 d" "- 1"] policy_ok_bounds(1) [OF p] by fastforce
  then show ?thesis using policy_ok_bounds(5) [OF p] by (simp add: avail_def)
qed

lemma avail_fits:
  assumes "policy_ok p" "1 \<le> n"
  shows "n \<le> avail p d \<longleftrightarrow> max 0 d + n * ei p \<le> gBurst p * ei p"
proof -
  have "n \<le> avail p d \<longleftrightarrow> cdiv (max 0 d) (ei p) \<le> gBurst p - n"
    using assms(2) by (auto simp: avail_def)
  also have "\<dots> \<longleftrightarrow> max 0 d \<le> (gBurst p - n) * ei p"
    using policy_ok_bounds(1) [OF assms(1)] by (intro cdiv_le_iff) auto
  finally show ?thesis by (simp add: algebra_simps)
qed

lemma avail_zero_iff: "policy_ok p \<Longrightarrow> avail p d = 0 \<longleftrightarrow> ba p < d"
  using avail_fits [of p 1 d] avail_bounds [of p d] policy_ok_bounds(3) [of p]
  by (auto simp: ba_def algebra_simps max_def split: if_splits)

lemma avail_pos_iff: "policy_ok p \<Longrightarrow> 1 \<le> avail p d \<longleftrightarrow> d \<le> ba p"
  using avail_zero_iff [of p d] avail_bounds [of p d] by linarith

lemma calculateRemaining_avail:
  assumes "policy_ok p"
  shows "calculateRemaining p t now (ei p) (ba p) = avail p (t - now)"
proof (cases "t \<le> now")
  case True
  then show ?thesis using policy_ok_bounds [OF assms]
    by (auto simp: calculateRemaining_def avail_def cdiv_def)
next
  case False
  note b = policy_ok_bounds [OF assms]
  show ?thesis
  proof (cases "ba p < t - now")
    case True
    then have "ba p < time_Sub t now" using b by (auto simp: time_Sub_def)
    then show ?thesis using False True assms by (simp add: calculateRemaining_def avail_zero_iff)
  next
    case le: False
    then have sub: "time_Sub t now = t - now" using False b by (intro time_Sub_id) (simp add: int64_def)
    have c: "f64_to_int64 (math_Ceil (f64_div (f64_of_int (t - now)) (f64_of_int (ei p)))) = cdiv (t - now) (ei p)"
      using False le b by (intro ceil_quotient_exact) linarith+
    have "1 \<le> avail p (t - now)" using avail_zero_iff [OF assms, of "t - now"] avail_bounds [OF assms, of "t - now"] le
      by linarith
    then have a: "avail p (t - now) = gBurst p - cdiv (t - now) (ei p)" using False by (auto simp: avail_def)
    have "wrap64 (gBurst p - cdiv (t - now) (ei p)) = avail p (t - now)"
      unfolding a [symmetric] using avail_bounds [OF assms, of "t - now"] b by (intro wrap64_id) (auto simp: int64_def)
    then show ?thesis using False le avail_bounds [OF assms, of "t - now"]
      by (simp add: calculateRemaining_def sub c)
  qed
qed

section \<open>Invariant\<close>

text \<open>An entry never expires before its TAT: a removed or ignored entry is one whose TAT has
  passed, so it would count as the current time anyway.\<close>

definition gcra_inv :: "gcra_mem \<Rightarrow> bool" where
  "gcra_inv m \<longleftrightarrow> policy_ok (gpolicy m) \<and> map_ok (gdata m) \<and>
     (\<forall>(k, entry) \<in> set (gdata m). tat entry \<le> expiration entry)"

lemma gcra_invD: "gcra_inv m \<Longrightarrow> map_of (gdata m) k = Some entry \<Longrightarrow> tat entry \<le> expiration entry"
  by (auto simp: gcra_inv_def dest!: map_of_SomeD)

lemma gcra_inv_ok: "gcra_inv m \<Longrightarrow> policy_ok (gpolicy m)"
  by (simp add: gcra_inv_def)

lemma gcra_inv_new: "policy_ok p \<Longrightarrow> gcra_inv (NewMemoryLimiter p d)"
  by (simp add: gcra_inv_def NewMemoryLimiter_def)

lemma gcra_inv_store:
  assumes "gcra_inv m" "t \<le> now + d"
  shows "gcra_inv (storeTAT m k t now d)"
proof -
  have "set (AList.update k v al) \<subseteq> insert (k, v) (set al)" for v :: tatEntry and al
    by (induction al) auto
  then show ?thesis using assms by (fastforce simp: gcra_inv_def storeTAT_def time_Add_def)
qed

lemma gcra_inv_removeExpired: "gcra_inv m \<Longrightarrow> gcra_inv (removeExpired now m)"
  by (auto simp: gcra_inv_def removeExpired_def)

text \<open>The abstraction: the TAT of a key as seen at a time, with no expiration at all.\<close>

definition abs_tat :: "gcra_mem \<Rightarrow> string \<Rightarrow> instant \<Rightarrow> instant" where
  "abs_tat m k now = (case map_of (gdata m) k of None \<Rightarrow> now | Some entry \<Rightarrow> max (tat entry) now)"

lemma loadTAT_abs: "gcra_inv m \<Longrightarrow> loadTAT m k now = abs_tat m k now"
  using gcra_invD [of m k]
  by (fastforce simp: loadTAT_def abs_tat_def Let_def split: option.splits)

lemma abs_tat_ge: "now \<le> abs_tat m k now"
  by (auto simp: abs_tat_def split: option.splits)

lemma abs_tat_later: "now \<le> now' \<Longrightarrow> abs_tat m k now' = max (abs_tat m k now) now'"
  by (auto simp: abs_tat_def split: option.splits)

lemma abs_tat_store [simp]:
  "abs_tat (storeTAT m k t now d) k' now' = (if k = k' then max t now' else abs_tat m k' now')"
  by (auto simp: abs_tat_def storeTAT_def split: option.splits)

lemma abs_tat_removeExpired:
  assumes "gcra_inv m" "now \<le> now'"
  shows "abs_tat (removeExpired now m) k now' = abs_tat m k now'"
  using assms gcra_invD [OF assms(1), of k]
  by (fastforce simp: abs_tat_def removeExpired_def gcra_inv_def map_of_filter_ok split: option.splits)

section \<open>What the operations do\<close>

lemma policy_ok_wraps:
  assumes "policy_ok p"
  shows "wrap64 (- ba p) = - ba p" and "wrap64 (gDuration p + ba p) = gDuration p + ba p"
    and "0 \<le> n \<Longrightarrow> n \<le> gBurst p \<Longrightarrow> wrap64 (ei p * n) = ei p * n"
proof -
  note b = policy_ok_bounds [OF assms]
  show "wrap64 (- ba p) = - ba p" "wrap64 (gDuration p + ba p) = gDuration p + ba p"
    using b by (auto intro!: wrap64_id simp: int64_def)
  assume n: "0 \<le> n" "n \<le> gBurst p"
  then have "ei p * n \<le> ei p * gBurst p" "0 \<le> ei p * n" using b by (auto intro: mult_left_mono)
  then show "wrap64 (ei p * n) = ei p * n" using b(4) by (intro wrap64_id) (simp add: int64_def ba_ei)
qed

lemma gcra_AllowN_spec:
  fixes e :: env and k :: string
  assumes "gcra_inv m" "1 \<le> n"
  defines "p \<equiv> gpolicy m" and "now \<equiv> clock e" and "t \<equiv> abs_tat m k (clock e)"
  shows "AllowN e m k n =
     (if n \<le> avail p (t - now)
      then (storeTAT m k (t + ei p * n) now (gDuration p + ba p),
            Ret (gcra_result p True (avail p (t + ei p * n - now)) (t + ei p * n) 0 now))
      else (m, Ret (gcra_result p False (avail p (t - now)) t
                     (if ba p < t - now then time_Sub (t - ba p) now else 0) now)))"
proof -
  have p: "policy_ok p" using assms(1) by (simp add: p_def gcra_inv_ok)
  have L: "loadTAT m k now = t" using loadTAT_abs [OF assms(1)] by (simp add: t_def now_def)
  have late: "avail p (t - now) = 0 \<longleftrightarrow> now < t - ba p" using avail_zero_iff [OF p, of "t - now"] by auto
  have "wrap64 (ei p * n) = ei p * n" if "n \<le> avail p (t - now)"
    using policy_ok_wraps(3) [OF p, of n] avail_bounds [OF p, of "t - now"] assms(2) that by linarith
  then show ?thesis
    using assms(2) late L
    by (auto simp: AllowN_def Let_def policy_ok_params p calculateRemaining_avail time_Add_def
        policy_ok_wraps(1,2) simp flip: p_def now_def)
qed

lemma gcra_ConsumeOrClampN_spec:
  fixes e :: env and k :: string
  assumes "gcra_inv m" "0 \<le> n" "n < 2 ^ 62"
  defines "p \<equiv> gpolicy m" and "now \<equiv> clock e" and "t \<equiv> abs_tat m k (clock e)"
  defines "c \<equiv> min n (avail p (t - now))"
  shows "ConsumeOrClampN e m k n =
     (if 0 < c then storeTAT m k (t + ei p * c) now (gDuration p + ba p) else m,
      Ret ((gcra_result p (c = n) (avail p (t + ei p * c - now)) (t + ei p * c)
              (if c \<noteq> n \<and> now < t + ei p * c - ba p then time_Sub (t + ei p * c - ba p) now else 0) now)
            \<lparr>Requested := n, Consumed := c, Overflow := n - c\<rparr>))"
proof -
  have p: "policy_ok p" using assms(1) by (simp add: p_def gcra_inv_ok)
  have L: "loadTAT m k now = t" using loadTAT_abs [OF assms(1)] by (simp add: t_def now_def)
  have late: "avail p (t - now) = 0 \<longleftrightarrow> now < t - ba p" using avail_zero_iff [OF p, of "t - now"] by auto
  have a: "0 \<le> avail p (t - now)" "avail p (t - now) \<le> gBurst p" using avail_bounds [OF p] by auto
  have w: "wrap64 (ei p * c) = ei p * c" using policy_ok_wraps(3) [OF p, of c] a assms(2) by (simp add: c_def)
  have o: "wrap64 (n - c) = n - c" using a assms(2,3) by (intro wrap64_id) (auto simp: int64_def c_def)
  consider (none) "now < t - ba p" "avail p (t - now) = 0" "c = 0"
    | (all) "\<not> now < t - ba p" "\<not> avail p (t - now) < n" "c = n"
    | (some) "\<not> now < t - ba p" "avail p (t - now) < n" "c = avail p (t - now)"
    using late [THEN iffD2] a assms(2) by (cases "now < t - ba p"; cases "avail p (t - now) < n") (auto simp: c_def)
  then show ?thesis
    using assms(2) w o L
    by cases (simp_all add: ConsumeOrClampN_def Let_def policy_ok_params p calculateRemaining_avail time_Add_def
        policy_ok_wraps(1,2) flip: p_def now_def)
qed

lemma gcra_GetAvailable_spec:
  assumes "gcra_inv m"
  shows "GetAvailable e m k = Ret (avail (gpolicy m) (abs_tat m k (clock e) - clock e))"
proof -
  have p: "policy_ok (gpolicy m)" using assms by (rule gcra_inv_ok)
  have "avail (gpolicy m) d = gBurst (gpolicy m)" if "d \<le> 0" for d
    using that policy_ok_bounds(5) [OF p] by (simp add: avail_def cdiv_def)
  moreover have "avail (gpolicy m) (max x y - y) = avail (gpolicy m) (x - y)" for x y
    by (simp add: avail_def max_def)
  ultimately show ?thesis using p gcra_invD [OF assms, of k]
    by (auto simp: GetAvailable_def Let_def policy_ok_params calculateRemaining_avail abs_tat_def split: option.splits)
qed

text \<open>A forced consumption of \<open>n\<close> tokens moves the TAT by \<open>n\<close> intervals whatever the quota,
  and its entry lives until the debt is paid.\<close>

lemma gcra_ConsumeN_spec:
  fixes e :: env and k :: string
  assumes "gcra_inv m" "0 < n" "ei (gpolicy m) * n < 2 ^ 62" "abs_tat m k (clock e) - clock e < 2 ^ 62"
  defines "p \<equiv> gpolicy m" and "now \<equiv> clock e" and "t \<equiv> abs_tat m k (clock e)"
  shows "\<exists>r. ConsumeN e m k n =
     (storeTAT m k (t + ei p * n) now (max (gDuration p + ba p) (t + ei p * n - now)), Ret r) \<and>
     Consumed r = n \<and> (Allowed r \<longleftrightarrow> n \<le> avail p (t - now)) \<and> Remaining r = avail p (t + ei p * n - now) \<and>
     Overflow r = max 0 (n - avail p (t - now))"
proof -
  have p: "policy_ok p" using assms(1) by (simp add: p_def gcra_inv_ok)
  note b = policy_ok_bounds [OF p]
  have L: "loadTAT m k now = t" using loadTAT_abs [OF assms(1)] by (simp add: t_def now_def)
  have late: "avail p (t - now) = 0 \<longleftrightarrow> now < t - ba p" using avail_zero_iff [OF p, of "t - now"] by auto
  have a: "0 \<le> avail p (t - now)" using avail_bounds [OF p] by auto
  have "1 * n \<le> ei p * n" using b(1) assms(2) by (intro mult_right_mono) auto
  moreover have "ei p * n < 2 ^ 62" using assms(3) by (simp add: p_def)
  ultimately have n: "n < 2 ^ 62" "0 \<le> ei p * n" "ei p * n < 2 ^ 62" using assms(2) by linarith+
  have w: "wrap64 (ei p * n) = ei p * n" "wrap64 (n - avail p (t - now)) = n - avail p (t - now)"
    using n a assms(2) avail_bounds [OF p, of "t - now"] b(6) by (auto intro!: wrap64_id simp: int64_def)
  have d: "time_Sub (t + ei p * n) now = t + ei p * n - now"
    using n assms(4) abs_tat_ge [of "clock e" m k] by (intro time_Sub_id) (auto simp: int64_def t_def now_def)
  show ?thesis
    using assms(2) late a w d L
    by (auto simp: ConsumeN_def Let_def policy_ok_params p calculateRemaining_avail time_Add_def max_def
        policy_ok_wraps(1,2) gcra_result_def simp flip: p_def now_def)
qed

section \<open>The invariant is kept and the contract met\<close>

lemma gcra_AllowN_inv: "gcra_inv m \<Longrightarrow> 1 \<le> n \<Longrightarrow> gcra_inv (fst (AllowN e m k n))"
proof -
  assume m: "gcra_inv m" and n: "1 \<le> n"
  let ?p = "gpolicy m" and ?t = "abs_tat m k (clock e)"
  have p: "policy_ok ?p" using m by (rule gcra_inv_ok)
  have "?t + ei ?p * n \<le> clock e + (gDuration ?p + ba ?p)" if "n \<le> avail ?p (?t - clock e)"
    using that avail_fits [OF p n, of "?t - clock e"] abs_tat_ge [of "clock e" m k] ba_ei [of ?p]
      policy_ok_bounds(8) [OF p] by (simp add: max_def mult.commute)
  then show ?thesis using m n by (auto simp: gcra_AllowN_spec intro: gcra_inv_store)
qed

lemma gcra_ConsumeOrClampN_inv:
  assumes "gcra_inv m" "0 \<le> n" "n < 2 ^ 62"
  shows "gcra_inv (fst (ConsumeOrClampN e m k n))"
proof -
  let ?p = "gpolicy m" and ?t = "abs_tat m k (clock e)"
  let ?c = "min n (avail ?p (?t - clock e))"
  have p: "policy_ok ?p" using assms(1) by (rule gcra_inv_ok)
  have "?t + ei ?p * ?c \<le> clock e + (gDuration ?p + ba ?p)" if "0 < ?c"
    using that avail_fits [OF p, of ?c "?t - clock e"] abs_tat_ge [of "clock e" m k] ba_ei [of ?p]
      policy_ok_bounds(8) [OF p] by (simp add: mult.commute)
  then show ?thesis using assms by (simp add: gcra_ConsumeOrClampN_spec gcra_inv_store)
qed

lemma ConsumeN_inv:
  assumes "gcra_inv m" "0 < n" "ei (gpolicy m) * n < 2 ^ 62" "abs_tat m k (clock e) - clock e < 2 ^ 62"
  shows "gcra_inv (fst (ConsumeN e m k n))"
  using gcra_ConsumeN_spec [OF assms] assms(1) by (auto intro!: gcra_inv_store)

text \<open>The quota left by a clamped consumption that was cut short.\<close>

lemma avail_exhausted:
  assumes "policy_ok p" "0 \<le> d"
  shows "avail p (d + ei p * avail p d) = 0"
proof (cases "avail p d = 0")
  case False
  then have a: "avail p d = gBurst p - cdiv d (ei p)" using assms(2) by (auto simp: avail_def)
  have "cdiv d (ei p) * ei p < d + ei p" using policy_ok_bounds(1) [OF assms(1)] by (intro cdiv_bounds) simp
  then have "ba p < d + ei p * avail p d" by (simp add: a ba_def algebra_simps)
  then show ?thesis using assms(1) by (simp add: avail_zero_iff)
qed simp

interpretation gcra_mem: limiter_contract "\<lambda>_. gcra_inv" AllowN ConsumeOrClampN GetAvailable
proof
  show "\<exists>a\<ge>0. GetAvailable e s k = Ret a" if "gcra_inv s" for e s k
    using that gcra_GetAvailable_spec avail_bounds gcra_inv_ok by blast
next
  fix e s k and n a :: int
  assume s: "gcra_inv s" and n: "1 \<le> n" "n < 2 ^ 62" and a: "GetAvailable e s k = Ret a"
  then show "\<exists>s' r. AllowN e s k n = (s', Ret r) \<and> gcra_inv s' \<and> 0 \<le> Remaining r \<and>
      (Allowed r \<longleftrightarrow> n \<le> a) \<and> (\<not> Allowed r \<longrightarrow> s' = s)"
    using gcra_AllowN_inv [OF s n(1), of e k] avail_bounds [OF gcra_inv_ok [OF s]]
    by (auto simp: gcra_AllowN_spec gcra_GetAvailable_spec gcra_result_def)
next
  fix e s k and n a :: int
  assume s: "gcra_inv s" and n: "0 \<le> n" "n < 2 ^ 62" and a: "GetAvailable e s k = Ret a"
  have "avail (gpolicy s) (abs_tat s k (clock e) + ei (gpolicy s) * a - clock e) = 0"
    using a s avail_exhausted [OF gcra_inv_ok [OF s], of "abs_tat s k (clock e) - clock e"]
      abs_tat_ge [of "clock e" s k] by (simp add: gcra_GetAvailable_spec algebra_simps)
  then show "\<exists>s' r. ConsumeOrClampN e s k n = (s', Ret r) \<and> gcra_inv s' \<and> 0 \<le> Remaining r \<and>
      Consumed r = min n a \<and> Overflow r = n - Consumed r \<and> (Allowed r \<longleftrightarrow> n \<le> a) \<and>
      (\<not> Allowed r \<longrightarrow> Remaining r = 0)"
    using gcra_ConsumeOrClampN_inv [OF s n, of e k] avail_bounds [OF gcra_inv_ok [OF s]] a n s
    by (auto simp: gcra_ConsumeOrClampN_spec gcra_GetAvailable_spec gcra_result_def min_def)
qed

section \<open>Runs\<close>

text \<open>A run of the limiter: checks and clamped consumptions of any key and ticks of the cleanup,
  each at its clock reading. \<open>admitted k\<close> is the number of tokens an event grants to \<open>k\<close>.\<close>

datatype gcra_event = EvAllow string int | EvClamp string int | EvCleanup

fun valid_event :: "gcra_event \<Rightarrow> bool" where
  "valid_event (EvAllow k n) = (1 \<le> n \<and> n < 2 ^ 62)"
| "valid_event (EvClamp k n) = (0 \<le> n \<and> n < 2 ^ 62)"
| "valid_event EvCleanup = True"

fun gcra_step :: "env \<Rightarrow> gcra_event \<Rightarrow> gcra_mem \<Rightarrow> gcra_mem" where
  "gcra_step e (EvAllow k n) m = fst (AllowN e m k n)"
| "gcra_step e (EvClamp k n) m = fst (ConsumeOrClampN e m k n)"
| "gcra_step e EvCleanup m = cleanupTick (clock e) m"

fun admitted :: "string \<Rightarrow> env \<Rightarrow> gcra_event \<Rightarrow> gcra_mem \<Rightarrow> int" where
  "admitted k e (EvAllow k' n) m =
     (case snd (AllowN e m k' n) of Ret r \<Rightarrow> if k' = k \<and> Allowed r then n else 0 | _ \<Rightarrow> 0)"
| "admitted k e (EvClamp k' n) m =
     (case snd (ConsumeOrClampN e m k' n) of Ret r \<Rightarrow> if k' = k then Consumed r else 0 | _ \<Rightarrow> 0)"
| "admitted k e EvCleanup m = 0"

fun gcra_run :: "gcra_mem \<Rightarrow> (env \<times> gcra_event) list \<Rightarrow> gcra_mem" where
  "gcra_run m [] = m"
| "gcra_run m ((e, ev) # evs) = gcra_run (gcra_step e ev m) evs"

fun admitted_total :: "string \<Rightarrow> gcra_mem \<Rightarrow> (env \<times> gcra_event) list \<Rightarrow> int" where
  "admitted_total k m [] = 0"
| "admitted_total k m ((e, ev) # evs) = admitted k e ev m + admitted_total k (gcra_step e ev m) evs"

lemma gpolicy_storeTAT [simp]: "gpolicy (storeTAT m k t now d) = gpolicy m"
  by (simp add: storeTAT_def)

lemma gpolicy_cleanupTick [simp]: "gpolicy (cleanupTick now m) = gpolicy m"
  by (simp add: cleanupTick_def removeExpired_def)

lemma cleanupTick_inv: "gcra_inv m \<Longrightarrow> gcra_inv (cleanupTick now m)"
  by (simp add: cleanupTick_def gcra_inv_removeExpired)

lemma abs_tat_cleanupTick: "gcra_inv m \<Longrightarrow> now \<le> now' \<Longrightarrow> abs_tat (cleanupTick now m) k now' = abs_tat m k now'"
  by (simp add: cleanupTick_def abs_tat_removeExpired)

lemma gcra_step_inv: "gcra_inv m \<Longrightarrow> valid_event ev \<Longrightarrow> gcra_inv (gcra_step e ev m)"
  by (cases ev) (auto intro: gcra_AllowN_inv gcra_ConsumeOrClampN_inv cleanupTick_inv)

lemma gpolicy_gcra_step: "gcra_inv m \<Longrightarrow> valid_event ev \<Longrightarrow> gpolicy (gcra_step e ev m) = gpolicy m"
  by (cases ev) (auto simp: gcra_AllowN_spec gcra_ConsumeOrClampN_spec)

text \<open>One step moves the TAT of a key by an interval per granted token, and grants tokens only
  up to the burst.\<close>

lemma gcra_step_tat:
  assumes "gcra_inv m" "valid_event ev"
  defines "p \<equiv> gpolicy m"
  shows "abs_tat m k (clock e) + ei p * admitted k e ev m \<le> abs_tat (gcra_step e ev m) k (clock e)"
    and "admitted k e ev m = 0 \<or>
      abs_tat m k (clock e) + ei p * admitted k e ev m \<le> clock e + gBurst p * ei p"
proof -
  have p: "policy_ok p" using assms(1) by (simp add: p_def gcra_inv_ok)
  have fits: "c = 0 \<or> abs_tat m k (clock e) + ei p * c \<le> clock e + gBurst p * ei p"
    if "0 \<le> c" "c \<le> avail p (abs_tat m k (clock e) - clock e)" for c
    using avail_fits [OF p, of c "abs_tat m k (clock e) - clock e"] that abs_tat_ge [of "clock e" m k]
    by (cases "c = 0") (auto simp: mult.commute)
  have a: "0 \<le> avail p (abs_tat m k (clock e) - clock e)" using avail_bounds [OF p] by auto
  show "abs_tat m k (clock e) + ei p * admitted k e ev m \<le> abs_tat (gcra_step e ev m) k (clock e)"
    using assms(1,2) a by (cases ev)
      (auto simp: gcra_AllowN_spec gcra_ConsumeOrClampN_spec gcra_result_def abs_tat_cleanupTick p_def min_def)
  show "admitted k e ev m = 0 \<or>
      abs_tat m k (clock e) + ei p * admitted k e ev m \<le> clock e + gBurst p * ei p"
    using assms(1,2) fits a by (cases ev)
      (auto simp: gcra_AllowN_spec gcra_ConsumeOrClampN_spec gcra_result_def min_def simp flip: p_def)
qed

lemma gcra_admitted_total_bound:
  assumes "gcra_inv m" "\<forall>(e, ev) \<in> set evs. s \<le> clock e \<and> clock e \<le> t1 \<and> valid_event ev"
    "sorted (map (\<lambda>(e, ev). clock e) evs)"
  shows "admitted_total k m evs = 0 \<or>
    abs_tat m k s + ei (gpolicy m) * admitted_total k m evs \<le> t1 + gBurst (gpolicy m) * ei (gpolicy m)"
  using assms
proof (induction evs arbitrary: m s)
  case (Cons x evs)
  obtain e ev where x: "x = (e, ev)" by (cases x)
  let ?m = "gcra_step e ev m" and ?a = "admitted k e ev m"
  have e: "s \<le> clock e" "clock e \<le> t1" "valid_event ev" using Cons.prems(2) x by auto
  have p: "gpolicy ?m = gpolicy m" using Cons.prems(1) e(3) by (rule gpolicy_gcra_step)
  have later: "\<forall>(e', ev') \<in> set evs. clock e \<le> clock e' \<and> clock e' \<le> t1 \<and> valid_event ev'"
    using Cons.prems(2,3) x by fastforce
  have IH: "admitted_total k ?m evs = 0 \<or>
    abs_tat ?m k (clock e) + ei (gpolicy m) * admitted_total k ?m evs \<le> t1 + gBurst (gpolicy m) * ei (gpolicy m)"
    using Cons.IH [of ?m "clock e"] later Cons.prems e x by (simp add: p gcra_step_inv)
  have "abs_tat m k s \<le> abs_tat m k (clock e)" using e(1) by (simp add: abs_tat_later)
  then show ?case
    using IH gcra_step_tat [OF Cons.prems(1) e(3), of k e] e(2) x by (auto simp: distrib_left)
qed simp

section \<open>Properties\<close>

text \<open>A concrete limiter for the witnesses: 10 requests per second, burst 10.\<close>

definition demo :: gcra_mem where
  "demo = NewMemoryLimiter (PerSecond 10) Minute"

lemma gcra_demo_inv: "gcra_inv demo"
  by (simp add: demo_def gcra_inv_new policy_ok_def PerSecond_def Second_def)

text \<open>C1: the rate bound of GCRA. However checks and clamped consumptions of any keys and cleanup
  ticks interleave between two instants, the tokens granted to one key, each paid with one
  emission interval, are at most the elapsed time plus a full burst: no key gets more than
  \<open>burst + elapsed / interval\<close> tokens, although entries expire and are removed.\<close>

theorem gcra_rate_bound:
  assumes "gcra_inv m" "t0 \<le> t1"
    and "\<forall>(e, ev) \<in> set evs. t0 \<le> clock e \<and> clock e \<le> t1 \<and> valid_event ev"
    and "sorted (map (\<lambda>(e, ev). clock e) evs)"
  shows "ei (gpolicy m) * admitted_total k m evs \<le> (t1 - t0) + gBurst (gpolicy m) * ei (gpolicy m)"
proof -
  have "0 \<le> gBurst (gpolicy m) * ei (gpolicy m)"
    using policy_ok_bounds [OF gcra_inv_ok [OF assms(1)]] by simp
  then show ?thesis
    using gcra_admitted_total_bound [OF assms(1,3,4), of k] abs_tat_ge [of t0 m k] assms(2) by auto
qed

theorem gcra_rate_bound_witness:
  "100000000 * admitted_total ''k'' demo [(\<lparr>clock = 0, sys_now = 0\<rparr>, EvAllow ''k'' 4), (\<lparr>clock = 7, sys_now = 7\<rparr>, EvClamp ''k'' 9)]
     \<le> (7 :: int) + 10 * 100000000"
  using gcra_rate_bound [OF gcra_demo_inv, of 0 7 "[(\<lparr>clock = 0, sys_now = 0\<rparr>, EvAllow ''k'' 4), (\<lparr>clock = 7, sys_now = 7\<rparr>, EvClamp ''k'' 9)]" "''k''"]
  by (simp add: demo_def NewMemoryLimiter_def PerSecond_def ei_def Second_def)

text \<open>C22: when a request for one token is denied, the returned RetryAfter is exact: with no other
  traffic on the key, the request succeeds at the current time plus RetryAfter and fails at
  every earlier instant.\<close>

theorem gcra_retry_after_exact:
  assumes "gcra_inv m" "AllowN e m k 1 = (m', Ret r)" "\<not> Allowed r" "abs_tat m k (clock e) - clock e < 2 ^ 62"
    and "clock e \<le> clock e'" and "AllowN e' m' k 1 = (m'', Ret r')"
  shows "0 < RetryAfter r \<and> (Allowed r' \<longleftrightarrow> clock e + RetryAfter r \<le> clock e')"
proof -
  let ?p = "gpolicy m" and ?t = "abs_tat m k (clock e)"
  have p: "policy_ok ?p" using assms(1) by (rule gcra_inv_ok)
  have m': "m' = m" and r: "r = gcra_result ?p False (avail ?p (?t - clock e)) ?t
      (if ba ?p < ?t - clock e then time_Sub (?t - ba ?p) (clock e) else 0) (clock e)"
    and none: "\<not> 1 \<le> avail ?p (?t - clock e)"
    using assms(1-3) by (auto simp: gcra_AllowN_spec gcra_result_def split: if_splits)
  have late: "ba ?p < ?t - clock e"
    using none avail_bounds [OF p, of "?t - clock e"] avail_zero_iff [OF p, of "?t - clock e"] by linarith
  have "time_Sub (?t - ba ?p) (clock e) = ?t - ba ?p - clock e"
    using late assms(4) policy_ok_bounds(3) [OF p] by (intro time_Sub_id) (simp add: int64_def)
  then have ra: "RetryAfter r = ?t - ba ?p - clock e" using late by (simp add: r gcra_result_def)
  then have pos: "0 < RetryAfter r" using late by simp
  have "Allowed r' \<longleftrightarrow> 1 \<le> avail ?p (abs_tat m k (clock e') - clock e')"
    using assms(1,6) m' by (auto simp: gcra_AllowN_spec gcra_result_def split: if_splits)
  also have "\<dots> \<longleftrightarrow> \<not> ba ?p < abs_tat m k (clock e') - clock e'"
    by (simp add: avail_pos_iff [OF p] not_less)
  also have "\<dots> \<longleftrightarrow> clock e + RetryAfter r \<le> clock e'"
    using abs_tat_later [OF assms(5), of m k] policy_ok_bounds(3) [OF p] late by (auto simp: ra max_def)
  finally show ?thesis using pos by simp
qed

text \<open>The state after ten requests at time 0: the quota is used up.\<close>

definition demo_full :: gcra_mem where
  "demo_full = storeTAT demo ''k'' 1000000000 0 (gDuration (gpolicy demo) + ba (gpolicy demo))"

lemma demo_params [simp]:
  "ei (gpolicy demo) = 100000000" "ba (gpolicy demo) = 900000000" "gBurst (gpolicy demo) = 10"
  "gDuration (gpolicy demo) = 1000000000" "gLimit (gpolicy demo) = 10" "gdata demo = []"
  by (simp_all add: demo_def NewMemoryLimiter_def PerSecond_def ei_def ba_def Second_def)

lemma demo_full_inv: "gcra_inv demo_full"
  by (simp add: demo_full_def gcra_inv_store gcra_demo_inv)

lemma demo_full_params [simp]: "gpolicy demo_full = gpolicy demo" "abs_tat demo_full ''k'' now = max 1000000000 now"
  by (simp_all add: demo_full_def)

theorem gcra_retry_after_exact_witness:
  "\<exists>r r'. snd (AllowN \<lparr>clock = 0, sys_now = 0\<rparr> demo_full ''k'' 1) = Ret r \<and> 0 < RetryAfter r \<and>
     snd (AllowN \<lparr>clock = 100000000, sys_now = 0\<rparr> demo_full ''k'' 1) = Ret r' \<and>
     (Allowed r' \<longleftrightarrow> 0 + RetryAfter r \<le> 100000000)"
proof -
  let ?e = "\<lparr>clock = 0, sys_now = 0\<rparr>" and ?e' = "\<lparr>clock = 100000000, sys_now = 0\<rparr>"
  have none: "\<not> 1 \<le> avail (gpolicy demo) 1000000000"
    using gcra_inv_ok [OF gcra_demo_inv] by (simp add: avail_pos_iff)
  then obtain r where r: "AllowN ?e demo_full ''k'' 1 = (demo_full, Ret r)" "\<not> Allowed r"
    by (simp add: gcra_AllowN_spec [OF demo_full_inv] gcra_result_def)
  obtain m'' r' where r': "AllowN ?e' demo_full ''k'' 1 = (m'', Ret r')"
    using gcra_mem.allow_total [of demo_full 1 ?e' "''k''"] demo_full_inv by auto
  show ?thesis
    using gcra_retry_after_exact [OF demo_full_inv r _ _ r'] r(1) r' by simp
qed

text \<open>C21: the check refines the abstract algorithm, a TAT per key and nothing else. For a request of
  \<open>n\<close> tokens the limiter returns a result, admits exactly when the TAT plus \<open>n\<close> intervals stays
  within a burst of the current time, then moves the TAT of that key by \<open>n\<close> intervals, and
  otherwise changes nothing; every other key keeps its TAT. Expiration and cleanup do not show.\<close>

theorem gcra_allow_refines:
  assumes "gcra_inv m" "1 \<le> n" "clock e \<le> now'" "last_cleanup \<le> clock e"
  shows "\<exists>m' r. AllowN e (cleanupTick last_cleanup m) k n = (m', Ret r) \<and>
     (Allowed r \<longleftrightarrow> abs_tat m k (clock e) + n * ei (gpolicy m) \<le> clock e + gBurst (gpolicy m) * ei (gpolicy m)) \<and>
     abs_tat m' k' now' = max now' (abs_tat m k' (clock e) + (if k' = k \<and> Allowed r then n * ei (gpolicy m) else 0))"
proof -
  let ?m = "cleanupTick last_cleanup m" and ?p = "gpolicy m"
  have m: "gcra_inv ?m" "gpolicy ?m = ?p" using assms(1) by (simp_all add: cleanupTick_inv)
  have p: "policy_ok ?p" using assms(1) by (rule gcra_inv_ok)
  have t: "abs_tat ?m k'' now = abs_tat m k'' now" if "clock e \<le> now" for k'' now
    using assms(1,4) that by (simp add: abs_tat_cleanupTick)
  have fits: "n \<le> avail ?p (abs_tat m k (clock e) - clock e) \<longleftrightarrow>
      abs_tat m k (clock e) + n * ei ?p \<le> clock e + gBurst ?p * ei ?p"
    using avail_fits [OF p assms(2), of "abs_tat m k (clock e) - clock e"] abs_tat_ge [of "clock e" m k] by auto
  have later: "abs_tat m k'' now' = max now' (abs_tat m k'' (clock e))" for k''
    using abs_tat_later [OF assms(3), of m k''] by (simp add: max.commute)
  show ?thesis
    using assms(3) by (auto simp: gcra_AllowN_spec [OF m(1) assms(2)] m(2) t fits later gcra_result_def
        max.commute mult.commute)
qed

theorem gcra_allow_refines_witness:
  "\<exists>m' r. AllowN \<lparr>clock = 5, sys_now = 5\<rparr> (cleanupTick 5 demo) ''k'' 3 = (m', Ret r) \<and>
     (Allowed r \<longleftrightarrow> abs_tat demo ''k'' 5 + 3 * 100000000 \<le> 5 + 10 * 100000000) \<and>
     abs_tat m' ''k'' 5 = max 5 (abs_tat demo ''k'' 5 + (if Allowed r then 3 * 100000000 else 0))"
  using gcra_allow_refines [OF gcra_demo_inv, of 3 "\<lparr>clock = 5, sys_now = 5\<rparr>" 5 5 "''k''" "''k''"] by (simp cong: if_cong split del: if_split)

text \<open>A forced consumption (post-response cost) is never forgotten: it records the full cost
  whatever the quota, and at every later time, through expiration and cleanup, the key's TAT
  still carries the whole debt.\<close>

lemma gcra_forced_debt_kept:
  assumes "gcra_inv m" "0 < n" "ei (gpolicy m) * n < 2 ^ 62" "abs_tat m k (clock e) - clock e < 2 ^ 62"
    and "clock e \<le> c" "c \<le> now'"
  shows "\<exists>m' r. ConsumeN e m k n = (m', Ret r) \<and> Consumed r = n \<and>
     loadTAT (cleanupTick c m') k now' = max now' (abs_tat m k (clock e) + ei (gpolicy m) * n)"
proof -
  obtain r where r: "ConsumeN e m k n = (storeTAT m k (abs_tat m k (clock e) + ei (gpolicy m) * n) (clock e)
      (max (gDuration (gpolicy m) + ba (gpolicy m)) (abs_tat m k (clock e) + ei (gpolicy m) * n - clock e)), Ret r)"
    "Consumed r = n"
    using gcra_ConsumeN_spec [OF assms(1-4)] by blast
  have inv: "gcra_inv (fst (ConsumeN e m k n))" using assms(1-4) by (rule ConsumeN_inv)
  show ?thesis
    using r inv assms(5,6) cleanupTick_inv [OF inv, of c] abs_tat_cleanupTick [OF inv, of c now' k]
    by (simp add: loadTAT_abs max.commute)
qed

lemma gcra_forced_debt_kept_example:
  "\<exists>m' r. ConsumeN \<lparr>clock = 0, sys_now = 0\<rparr> demo_full ''k'' 500 = (m', Ret r) \<and> Consumed r = 500 \<and>
     loadTAT (cleanupTick 2000000000 m') ''k'' 3000000000 = max 3000000000 (1000000000 + 100000000 * 500)"
  using gcra_forced_debt_kept [OF demo_full_inv, of 500 "''k''" "\<lparr>clock = 0, sys_now = 0\<rparr>" 2000000000 3000000000]
  by simp

text \<open>C23: the remaining quota the limiter computes in floating point is the exact integer
  \<open>burst - ceiling((TAT - now) / interval)\<close>, cut at zero.\<close>

theorem gcra_remaining_exact:
  assumes "policy_ok p" "EmissionInterval p = Some i" "BurstAllowance p = Some b" "now \<le> t"
  shows "calculateRemaining p t now i b = max 0 (gBurst p - \<lceil>of_int (t - now) / (of_int i :: rat)\<rceil>)"
proof -
  have "i = ei p" "b = ba p" using assms(1-3) by (simp_all add: policy_ok_params)
  then have "calculateRemaining p t now i b = max 0 (gBurst p - cdiv (t - now) i)"
    using assms(1,4) by (simp add: calculateRemaining_avail avail_def)
  then show ?thesis by (simp only: ceiling_quotient)
qed

theorem gcra_remaining_exact_witness:
  "calculateRemaining (PerSecond 10) 250000000 0 100000000 900000000
     = max 0 (10 - \<lceil>of_int 250000000 / (of_int 100000000 :: rat)\<rceil>)"
  using gcra_remaining_exact [of "PerSecond 10" 100000000 900000000 0 250000000]
  by (simp add: policy_ok_def PerSecond_def Second_def EmissionInterval_def BurstAllowance_def go_div_def wrap64_def)

end
