(* ===== verification/FixedWindow.thy ===== *)
theory FixedWindow
  imports Limiter
begin

text \<open>
  Package \<^verbatim>\<open>fixedwindow\<close>: the policy (\<^verbatim>\<open>fixedwindow/policy.go\<close>) and the in-memory limiter
  (\<^verbatim>\<open>fixedwindow/memory.go\<close>). A key's state is the count of its current window. The lemmas
  show that the limiter is a counter per key and window, that expiration and cleanup never drop
  a live count, and that a window never admits more than its limit.
\<close>

section \<open>Policy\<close>

record fw_policy =
  fLimit :: int
  fDuration :: duration

definition NewPolicy :: "int \<Rightarrow> duration \<Rightarrow> fw_policy" where
  "NewPolicy limit duration = \<lparr>fLimit = limit, fDuration = duration\<rparr>"

definition WindowStart :: "fw_policy \<Rightarrow> instant \<Rightarrow> instant" where
  "WindowStart p now = time_Truncate now (fDuration p)"

definition WindowEnd :: "fw_policy \<Rightarrow> instant \<Rightarrow> instant" where
  "WindowEnd p now = time_Add (WindowStart p now) (fDuration p)"

definition PerSecond :: "int \<Rightarrow> fw_policy" where
  "PerSecond limit = \<lparr>fLimit = limit, fDuration = Second\<rparr>"

definition PerMinute :: "int \<Rightarrow> fw_policy" where
  "PerMinute limit = \<lparr>fLimit = limit, fDuration = Minute\<rparr>"

definition PerHour :: "int \<Rightarrow> fw_policy" where
  "PerHour limit = \<lparr>fLimit = limit, fDuration = Hour\<rparr>"

definition PerDay :: "int \<Rightarrow> fw_policy" where
  "PerDay limit = \<lparr>fLimit = limit, fDuration = 24 * Hour\<rparr>"

section \<open>In-memory limiter\<close>

record windowEntry =
  wcount :: int
  windowStart :: instant
  wexpiration :: instant

record fw_mem =
  fdata :: "(string, windowEntry) gomap"
  fpolicy :: fw_policy
  fcleanup :: bool
  fclosed :: bool

definition NewMemoryLimiter :: "fw_policy \<Rightarrow> duration \<Rightarrow> fw_mem" where
  "NewMemoryLimiter p cleanupInterval =
     \<lparr>fdata = [], fpolicy = p, fcleanup = (0 < cleanupInterval), fclosed = False\<rparr>"

text \<open>The count of the key in the window of \<open>now\<close>.\<close>

definition currentCount :: "fw_mem \<Rightarrow> string \<Rightarrow> instant \<Rightarrow> int" where
  "currentCount m key now =
     (case map_of (fdata m) key of
        None \<Rightarrow> 0
      | Some entry \<Rightarrow>
          if windowStart entry \<noteq> WindowStart (fpolicy m) now \<or> wexpiration entry < now then 0
          else wcount entry)"

definition storeCount :: "fw_mem \<Rightarrow> string \<Rightarrow> int \<Rightarrow> instant \<Rightarrow> fw_mem" where
  "storeCount m key c now =
     m\<lparr>fdata := AList.update key
        \<lparr>wcount = c, windowStart = WindowStart (fpolicy m) now,
         wexpiration = time_Add (WindowEnd (fpolicy m) now) Minute\<rparr> (fdata m)\<rparr>"

definition boolToCount :: "bool \<Rightarrow> int \<Rightarrow> int" where
  "boolToCount condition v = (if condition then v else 0)"

text \<open>The retry-after of a denied request is read off the system clock.\<close>

definition retryAfterUntil :: "env \<Rightarrow> bool \<Rightarrow> instant \<Rightarrow> duration" where
  "retryAfterUntil e allowed windowEnd =
     (if allowed then 0 else let d = time_Until e windowEnd in if d < 0 then 0 else d)"

definition fw_result :: "env \<Rightarrow> fw_mem \<Rightarrow> bool \<Rightarrow> int \<Rightarrow> result" where
  "fw_result e m allowed remaining =
     result_zero\<lparr>Allowed := allowed, RLimit := fLimit (fpolicy m), Remaining := remaining,
       Reset := WindowEnd (fpolicy m) (clock e), RDuration := fDuration (fpolicy m),
       RetryAfter := retryAfterUntil e allowed (WindowEnd (fpolicy m) (clock e))\<rparr>"

definition AllowN :: "fw_mem limiter_op" where
  "AllowN e m key n =
     (let now = clock e; limit = fLimit (fpolicy m); current = currentCount m key now;
          newCount = wrap64 (current + n);
          allowed = (newCount \<le> limit);
          remaining = (if allowed then wrap64 (limit - newCount) else wrap64 (limit - current));
          remaining = (if remaining < 0 then 0 else remaining);
          m' = (if allowed \<and> 0 < n then storeCount m key newCount now else m)
      in (m', Ret ((fw_result e m allowed remaining)
           \<lparr>Requested := n, Consumed := boolToCount (allowed \<and> 0 < n) n,
            Overflow := boolToCount (\<not> allowed \<and> 0 < n) n\<rparr>)))"

definition Allow :: "env \<Rightarrow> fw_mem \<Rightarrow> string \<Rightarrow> fw_mem \<times> result outcome" where
  "Allow e m key = AllowN e m key 1"

definition ConsumeOrClampN :: "fw_mem limiter_op" where
  "ConsumeOrClampN e m key n0 =
     (let now = clock e; limit = fLimit (fpolicy m); current = currentCount m key now;
          remainingBefore = wrap64 (limit - current);
          remainingBefore = (if remainingBefore < 0 then 0 else remainingBefore);
          n = (if n0 < 0 then 0 else n0);
          consumed = (if remainingBefore < n then remainingBefore else n);
          overflow = wrap64 (n - consumed);
          allowed = (overflow = 0);
          newCount = wrap64 (current + consumed);
          remaining = wrap64 (limit - newCount);
          remaining = (if remaining < 0 then 0 else remaining);
          m' = (if 0 < consumed then storeCount m key newCount now else m)
      in (m', Ret ((fw_result e m allowed remaining)
           \<lparr>Requested := n, Consumed := consumed, Overflow := overflow\<rparr>)))"

definition ConsumeN :: "fw_mem limiter_op" where
  "ConsumeN e m key n =
     (let now = clock e; limit = fLimit (fpolicy m); current = currentCount m key now;
          newCount = wrap64 (current + n);
          allowed = (newCount \<le> limit);
          remaining = wrap64 (limit - newCount);
          remaining = (if remaining < 0 then 0 else remaining);
          m' = (if 0 < n then storeCount m key newCount now else m)
      in (m', Ret (fw_result e m allowed remaining)))"

definition GetAvailable :: "fw_mem avail_op" where
  "GetAvailable e m key =
     (let remaining = wrap64 (fLimit (fpolicy m) - currentCount m key (clock e))
      in Ret (if remaining < 0 then 0 else remaining))"

definition removeExpired :: "instant \<Rightarrow> fw_mem \<Rightarrow> fw_mem" where
  "removeExpired now m = m\<lparr>fdata := filter (\<lambda>(key, entry). \<not> wexpiration entry < now) (fdata m)\<rparr>"

definition Close :: "fw_mem \<Rightarrow> fw_mem" where
  "Close m = (if fclosed m then m else m\<lparr>fclosed := True, fcleanup := False\<rparr>)"

definition cleanupTick :: "instant \<Rightarrow> fw_mem \<Rightarrow> fw_mem" where
  "cleanupTick now m = (if fcleanup m \<and> \<not> fclosed m then removeExpired now m else m)"

section \<open>Windows\<close>

lemma WindowStart_le: "0 < fDuration p \<Longrightarrow> WindowStart p now \<le> now"
  by (simp add: WindowStart_def time_Truncate_le)

lemma WindowEnd_gt: "0 < fDuration p \<Longrightarrow> now < WindowEnd p now"
  by (simp add: WindowEnd_def WindowStart_def time_Truncate_gt time_Add_def)

lemma WindowStart_same_iff:
  assumes "0 < fDuration p"
  shows "WindowStart p now' = WindowStart p now \<longleftrightarrow> WindowStart p now \<le> now' \<and> now' < WindowEnd p now"
proof
  show "WindowStart p now' = WindowStart p now" if "WindowStart p now \<le> now' \<and> now' < WindowEnd p now"
    using that assms time_Truncate_eq [of "fDuration p" "WindowStart p now" now'] time_Truncate_dvd [OF assms]
    by (simp add: WindowStart_def WindowEnd_def time_Add_def)
  show "WindowStart p now \<le> now' \<and> now' < WindowEnd p now" if "WindowStart p now' = WindowStart p now"
    using WindowStart_le [OF assms, of now'] WindowEnd_gt [OF assms, of now'] that by (simp add: WindowEnd_def)
qed

section \<open>Invariant\<close>

text \<open>Limits and counts are small enough not to wrap, and an entry expires a minute after its
  window ends.\<close>

definition fw_inv :: "fw_mem \<Rightarrow> bool" where
  "fw_inv m \<longleftrightarrow> 0 \<le> fLimit (fpolicy m) \<and> fLimit (fpolicy m) < 2 ^ 62 \<and> 0 < fDuration (fpolicy m) \<and>
     map_ok (fdata m) \<and>
     (\<forall>(k, entry) \<in> set (fdata m). 0 \<le> wcount entry \<and> wcount entry < 2 ^ 62 \<and>
        wexpiration entry = windowStart entry + fDuration (fpolicy m) + Minute)"

text \<open>The abstraction: the count of a key in the window that starts at \<open>ws\<close>.\<close>

definition abs_count :: "fw_mem \<Rightarrow> string \<Rightarrow> instant \<Rightarrow> int" where
  "abs_count m k ws = (case map_of (fdata m) k of
     None \<Rightarrow> 0 | Some entry \<Rightarrow> if windowStart entry = ws then wcount entry else 0)"

lemma fw_invD:
  assumes "fw_inv m" "map_of (fdata m) k = Some entry"
  shows "0 \<le> wcount entry" "wcount entry < 2 ^ 62" "wexpiration entry = windowStart entry + fDuration (fpolicy m) + Minute"
  using assms by (auto simp: fw_inv_def dest!: map_of_SomeD)

lemma currentCount_abs:
  assumes "fw_inv m"
  shows "currentCount m k now = abs_count m k (WindowStart (fpolicy m) now)"
proof -
  have "now < WindowStart (fpolicy m) now + fDuration (fpolicy m) + Minute"
    using assms WindowEnd_gt [of "fpolicy m" now] by (simp add: fw_inv_def WindowEnd_def time_Add_def Minute_def Second_def)
  then show ?thesis using fw_invD [OF assms, of k]
    by (auto simp: currentCount_def abs_count_def split: option.splits)
qed

lemma abs_count_bounds: "fw_inv m \<Longrightarrow> 0 \<le> abs_count m k ws \<and> abs_count m k ws < 2 ^ 62"
  using fw_invD [of m k] by (auto simp: abs_count_def split: option.splits)

lemma abs_count_store [simp]:
  "abs_count (storeCount m k c now) k' ws =
     (if k = k' then if WindowStart (fpolicy m) now = ws then c else 0 else abs_count m k' ws)"
  by (auto simp: abs_count_def storeCount_def)

lemma fpolicy_store [simp]: "fpolicy (storeCount m k c now) = fpolicy m"
  by (simp add: storeCount_def)

lemma fw_inv_store:
  assumes "fw_inv m" "0 \<le> c" "c < 2 ^ 62"
  shows "fw_inv (storeCount m k c now)"
proof -
  have "set (AList.update k v al) \<subseteq> insert (k, v) (set al)" for v :: windowEntry and al
    by (induction al) auto
  then show ?thesis using assms by (fastforce simp: fw_inv_def storeCount_def time_Add_def WindowEnd_def)
qed

lemma fw_inv_cleanupTick: "fw_inv m \<Longrightarrow> fw_inv (cleanupTick now m)"
  by (auto simp: fw_inv_def cleanupTick_def removeExpired_def)

lemma fpolicy_cleanupTick [simp]: "fpolicy (cleanupTick now m) = fpolicy m"
  by (simp add: cleanupTick_def removeExpired_def)

text \<open>The cleanup drops a count only once its window is over.\<close>

lemma abs_count_cleanupTick:
  assumes "fw_inv m" "c \<le> now"
  shows "abs_count (cleanupTick c m) k (WindowStart (fpolicy m) now) = abs_count m k (WindowStart (fpolicy m) now)"
proof -
  have "now < WindowStart (fpolicy m) now + fDuration (fpolicy m) + Minute"
    using assms WindowEnd_gt [of "fpolicy m" now] by (simp add: fw_inv_def WindowEnd_def time_Add_def Minute_def Second_def)
  then show ?thesis using fw_invD(3) [OF assms(1), of k] assms
    by (auto simp: abs_count_def cleanupTick_def removeExpired_def fw_inv_def map_of_filter_ok split: option.splits)
qed

section \<open>What the operations do\<close>

lemma fw_AllowN_spec:
  fixes e :: env and k :: string
  assumes "fw_inv m" "0 \<le> n" "n < 2 ^ 62"
  defines "L \<equiv> fLimit (fpolicy m)" and "c \<equiv> abs_count m k (WindowStart (fpolicy m) (clock e))"
  shows "AllowN e m k n =
     (if c + n \<le> L \<and> 0 < n then storeCount m k (c + n) (clock e) else m,
      Ret ((fw_result e m (c + n \<le> L) (max 0 (L - (if c + n \<le> L then c + n else c))))
        \<lparr>Requested := n, Consumed := (if c + n \<le> L then n else 0), Overflow := (if c + n \<le> L then 0 else n)\<rparr>))"
proof -
  have c: "0 \<le> c" "c < 2 ^ 62" using abs_count_bounds [OF assms(1)] by (auto simp: c_def)
  have "wrap64 (c + n) = c + n" "wrap64 (L - (c + n)) = L - (c + n)" "wrap64 (L - c) = L - c"
    using c assms(1-3) by (auto intro!: wrap64_id simp: int64_def L_def fw_inv_def)
  then show ?thesis using assms(2)
    by (auto simp: AllowN_def Let_def currentCount_abs [OF assms(1)] boolToCount_def max_def simp flip: L_def c_def)
qed

lemma fw_ConsumeOrClampN_spec:
  fixes e :: env and k :: string
  assumes "fw_inv m" "0 \<le> n" "n < 2 ^ 62"
  defines "L \<equiv> fLimit (fpolicy m)" and "c \<equiv> abs_count m k (WindowStart (fpolicy m) (clock e))"
  defines "x \<equiv> min n (max 0 (L - c))"
  shows "ConsumeOrClampN e m k n =
     (if 0 < x then storeCount m k (c + x) (clock e) else m,
      Ret ((fw_result e m (x = n) (max 0 (L - (c + x))))\<lparr>Requested := n, Consumed := x, Overflow := n - x\<rparr>))"
proof -
  have c: "0 \<le> c" "c < 2 ^ 62" using abs_count_bounds [OF assms(1)] by (auto simp: c_def)
  have L: "0 \<le> L" "L < 2 ^ 62" using assms(1) by (auto simp: fw_inv_def L_def)
  have x: "0 \<le> x" "x \<le> n" "c + x < 2 ^ 63" using c L assms(2,3) by (auto simp: x_def)
  have w: "wrap64 (L - c) = L - c" "wrap64 (n - x) = n - x" "wrap64 (c + x) = c + x" "wrap64 (L - (c + x)) = L - (c + x)"
    using c x L assms(2,3) by (auto intro!: wrap64_id simp: int64_def)
  have n: "(if n < 0 then 0 else n) = n" using assms(2) by simp
  have rb: "(if wrap64 (L - c) < 0 then 0 else wrap64 (L - c)) = max 0 (L - c)" by (simp add: w max_def)
  have ra: "(if wrap64 (L - (c + x)) < 0 then 0 else wrap64 (L - (c + x))) = max 0 (L - (c + x))"
    by (simp add: w max_def)
  have k: "(if max 0 (L - c) < n then max 0 (L - c) else n) = x" unfolding x_def by (rule if_less_min)
  have o: "(n - x = 0) = (x = n)" by auto
  show ?thesis
    unfolding ConsumeOrClampN_def Let_def currentCount_abs [OF assms(1)] c_def [symmetric] L_def [symmetric]
    by (simp only: n rb k w(3) ra o w(2))
qed

lemma fw_ConsumeN_spec:
  fixes e :: env and k :: string
  assumes "fw_inv m" "0 < n" "abs_count m k (WindowStart (fpolicy m) (clock e)) + n < 2 ^ 62"
  defines "L \<equiv> fLimit (fpolicy m)" and "c \<equiv> abs_count m k (WindowStart (fpolicy m) (clock e))"
  shows "ConsumeN e m k n = (storeCount m k (c + n) (clock e), Ret (fw_result e m (c + n \<le> L) (max 0 (L - (c + n)))))"
proof -
  have c: "0 \<le> c" "c + n < 2 ^ 62" using abs_count_bounds [OF assms(1)] assms(3) by (auto simp: c_def)
  have "wrap64 (c + n) = c + n" "wrap64 (L - (c + n)) = L - (c + n)"
    using c assms(1,2) by (auto intro!: wrap64_id simp: int64_def L_def fw_inv_def)
  then show ?thesis using assms(2)
    by (simp add: ConsumeN_def Let_def currentCount_abs [OF assms(1)] max_def flip: L_def c_def)
qed

lemma fw_GetAvailable_spec:
  assumes "fw_inv m"
  shows "GetAvailable e m k = Ret (max 0 (fLimit (fpolicy m) - abs_count m k (WindowStart (fpolicy m) (clock e))))"
proof -
  let ?x = "fLimit (fpolicy m) - abs_count m k (WindowStart (fpolicy m) (clock e))"
  have "wrap64 ?x = ?x"
    using assms abs_count_bounds [OF assms, of k "WindowStart (fpolicy m) (clock e)"]
    by (intro wrap64_id) (auto simp: int64_def fw_inv_def)
  then show ?thesis by (simp add: GetAvailable_def currentCount_abs [OF assms] max_def)
qed

section \<open>The contract\<close>

lemma fw_AllowN_inv: "fw_inv m \<Longrightarrow> 0 \<le> n \<Longrightarrow> n < 2 ^ 62 \<Longrightarrow> fw_inv (fst (AllowN e m k n))"
  using abs_count_bounds [of m k "WindowStart (fpolicy m) (clock e)"]
  by (auto simp: fw_AllowN_spec fw_inv_def [of m] intro!: fw_inv_store)

lemma fw_ConsumeOrClampN_inv: "fw_inv m \<Longrightarrow> 0 \<le> n \<Longrightarrow> n < 2 ^ 62 \<Longrightarrow> fw_inv (fst (ConsumeOrClampN e m k n))"
  using abs_count_bounds [of m k "WindowStart (fpolicy m) (clock e)"]
  by (auto simp: fw_ConsumeOrClampN_spec fw_inv_def [of m] min_def max_def intro!: fw_inv_store)

interpretation fw_mem: limiter_contract "\<lambda>_. fw_inv" AllowN ConsumeOrClampN GetAvailable
proof
  show "\<exists>a\<ge>0. GetAvailable e s k = Ret a" if "fw_inv s" for e s k
    using that fw_GetAvailable_spec by simp
next
  fix e s k and n a :: int
  assume s: "fw_inv s" and n: "1 \<le> n" "n < 2 ^ 62" and a: "GetAvailable e s k = Ret a"
  then show "\<exists>s' r. AllowN e s k n = (s', Ret r) \<and> fw_inv s' \<and> 0 \<le> Remaining r \<and>
      (Allowed r \<longleftrightarrow> n \<le> a) \<and> (\<not> Allowed r \<longrightarrow> s' = s)"
    using fw_AllowN_inv [OF s, of n e k] by (auto simp: fw_AllowN_spec fw_GetAvailable_spec fw_result_def)
next
  fix e s k and n a :: int
  assume s: "fw_inv s" and n: "0 \<le> n" "n < 2 ^ 62" and a: "GetAvailable e s k = Ret a"
  have "fLimit (fpolicy s) - (abs_count s k (WindowStart (fpolicy s) (clock e)) + a) \<le> 0"
    using a s by (simp add: fw_GetAvailable_spec)
  with s n a show "\<exists>s' r. ConsumeOrClampN e s k n = (s', Ret r) \<and> fw_inv s' \<and> 0 \<le> Remaining r \<and>
      Consumed r = min n a \<and> Overflow r = n - Consumed r \<and> (Allowed r \<longleftrightarrow> n \<le> a) \<and>
      (\<not> Allowed r \<longrightarrow> Remaining r = 0)"
    using fw_ConsumeOrClampN_inv [OF s n, of e k]
    by (cases "n \<le> a") (auto simp: fw_ConsumeOrClampN_spec fw_GetAvailable_spec fw_result_def)
qed

section \<open>Runs\<close>

datatype fw_event = EvAllow string int | EvClamp string int | EvCleanup

fun valid_event :: "fw_event \<Rightarrow> bool" where
  "valid_event (EvAllow k n) = (0 \<le> n \<and> n < 2 ^ 62)"
| "valid_event (EvClamp k n) = (0 \<le> n \<and> n < 2 ^ 62)"
| "valid_event EvCleanup = True"

fun fw_step :: "env \<Rightarrow> fw_event \<Rightarrow> fw_mem \<Rightarrow> fw_mem" where
  "fw_step e (EvAllow k n) m = fst (AllowN e m k n)"
| "fw_step e (EvClamp k n) m = fst (ConsumeOrClampN e m k n)"
| "fw_step e EvCleanup m = cleanupTick (clock e) m"

fun admitted :: "string \<Rightarrow> env \<Rightarrow> fw_event \<Rightarrow> fw_mem \<Rightarrow> int" where
  "admitted k e (EvAllow k' n) m =
     (case snd (AllowN e m k' n) of Ret r \<Rightarrow> if k' = k then Consumed r else 0 | _ \<Rightarrow> 0)"
| "admitted k e (EvClamp k' n) m =
     (case snd (ConsumeOrClampN e m k' n) of Ret r \<Rightarrow> if k' = k then Consumed r else 0 | _ \<Rightarrow> 0)"
| "admitted k e EvCleanup m = 0"

fun admitted_total :: "string \<Rightarrow> fw_mem \<Rightarrow> (env \<times> fw_event) list \<Rightarrow> int" where
  "admitted_total k m [] = 0"
| "admitted_total k m ((e, ev) # evs) = admitted k e ev m + admitted_total k (fw_step e ev m) evs"

fun fw_run :: "fw_mem \<Rightarrow> (env \<times> fw_event) list \<Rightarrow> fw_mem" where
  "fw_run m [] = m"
| "fw_run m ((e, ev) # evs) = fw_run (fw_step e ev m) evs"

lemma fw_step_inv: "fw_inv m \<Longrightarrow> valid_event ev \<Longrightarrow> fw_inv (fw_step e ev m)"
  by (cases ev) (auto intro: fw_AllowN_inv fw_ConsumeOrClampN_inv fw_inv_cleanupTick)

lemma fpolicy_fw_step: "fw_inv m \<Longrightarrow> valid_event ev \<Longrightarrow> fpolicy (fw_step e ev m) = fpolicy m"
  by (cases ev) (auto simp: fw_AllowN_spec fw_ConsumeOrClampN_spec)

text \<open>A step in a window adds what it grants to the window's count, and grants only what the
  limit leaves.\<close>

lemma fw_step_count:
  assumes "fw_inv m" "valid_event ev" "WindowStart (fpolicy m) (clock e) = ws"
  shows "abs_count (fw_step e ev m) k ws = abs_count m k ws + admitted k e ev m"
    and "0 \<le> admitted k e ev m"
    and "admitted k e ev m = 0 \<or> abs_count m k ws + admitted k e ev m \<le> fLimit (fpolicy m)"
  using assms abs_count_cleanupTick [OF assms(1), of "clock e" "clock e" k]
  by (cases ev; auto simp: fw_AllowN_spec fw_ConsumeOrClampN_spec min_def max_def)+

lemma fw_admitted_total_bound:
  assumes "fw_inv m" "\<forall>(e, ev) \<in> set evs. WindowStart (fpolicy m) (clock e) = ws \<and> valid_event ev"
  shows "0 \<le> admitted_total k m evs \<and> fpolicy (fw_run m evs) = fpolicy m \<and> fw_inv (fw_run m evs) \<and>
    abs_count (fw_run m evs) k ws = abs_count m k ws + admitted_total k m evs \<and>
    (admitted_total k m evs = 0 \<or> abs_count m k ws + admitted_total k m evs \<le> fLimit (fpolicy m))"
  using assms
proof (induction evs arbitrary: m)
  case (Cons x evs)
  obtain e ev where x: "x = (e, ev)" by (cases x)
  have e: "WindowStart (fpolicy m) (clock e) = ws" "valid_event ev" using Cons.prems(2) x by auto
  have p: "fpolicy (fw_step e ev m) = fpolicy m" using Cons.prems(1) e(2) by (rule fpolicy_fw_step)
  have IH: "0 \<le> admitted_total k (fw_step e ev m) evs"
    "fpolicy (fw_run (fw_step e ev m) evs) = fpolicy m" "fw_inv (fw_run (fw_step e ev m) evs)"
    "abs_count (fw_run (fw_step e ev m) evs) k ws =
       abs_count (fw_step e ev m) k ws + admitted_total k (fw_step e ev m) evs"
    "admitted_total k (fw_step e ev m) evs = 0 \<or>
     abs_count (fw_step e ev m) k ws + admitted_total k (fw_step e ev m) evs \<le> fLimit (fpolicy m)"
    using Cons.IH [of "fw_step e ev m"] Cons.prems e x by (auto simp: p fw_step_inv)
  show ?case using IH fw_step_count [OF Cons.prems(1) e(2,1), of k] x by auto
qed simp

section \<open>Properties\<close>

definition demo :: fw_mem where
  "demo = NewMemoryLimiter (PerSecond 10) Minute"

lemma fw_demo_inv: "fw_inv demo"
  by (simp add: demo_def fw_inv_def NewMemoryLimiter_def PerSecond_def Second_def)

text \<open>C2: the fixed window limit. However checks and clamped consumptions of any keys and cleanup
  ticks interleave within one window of a fresh limiter, a key is granted at most the limit,
  and the quota reported afterwards is exactly the limit less what was granted.\<close>

theorem fw_window_limit:
  assumes "fw_inv m" "abs_count m k ws = 0"
    and "\<forall>(e, ev) \<in> set evs. WindowStart (fpolicy m) (clock e) = ws \<and> valid_event ev"
    and "WindowStart (fpolicy m) (clock e') = ws"
  shows "admitted_total k m evs \<le> fLimit (fpolicy m) \<and>
    GetAvailable e' (fw_run m evs) k = Ret (fLimit (fpolicy m) - admitted_total k m evs)"
  using fw_admitted_total_bound [OF assms(1,3), of k] assms by (auto simp: fw_GetAvailable_spec fw_inv_def)

theorem fw_window_limit_witness:
  "admitted_total ''k'' demo [(\<lparr>clock = 5, sys_now = 5\<rparr>, EvAllow ''k'' 7), (\<lparr>clock = 9, sys_now = 9\<rparr>, EvClamp ''k'' 20)]
     \<le> fLimit (fpolicy demo) \<and>
   GetAvailable \<lparr>clock = 10, sys_now = 9\<rparr> (fw_run demo [(\<lparr>clock = 5, sys_now = 5\<rparr>, EvAllow ''k'' 7), (\<lparr>clock = 9, sys_now = 9\<rparr>, EvClamp ''k'' 20)]) ''k''
     = Ret (fLimit (fpolicy demo) - admitted_total ''k'' demo [(\<lparr>clock = 5, sys_now = 5\<rparr>, EvAllow ''k'' 7), (\<lparr>clock = 9, sys_now = 9\<rparr>, EvClamp ''k'' 20)])"
  by (rule fw_window_limit [OF fw_demo_inv])
    (simp_all add: demo_def NewMemoryLimiter_def PerSecond_def abs_count_def WindowStart_def time_Truncate_def Second_def)

text \<open>The comment of \<^verbatim>\<open>WindowStart\<close> says that windows are aligned to the Unix epoch; they are
  aligned to Go's zero time, and a week-long window does not start at a multiple of a week
  after the epoch.\<close>

lemma fw_window_not_epoch_aligned:
  "\<exists>now. (WindowStart \<lparr>fLimit = 1, fDuration = 7 * 24 * Hour\<rparr> now - unix_epoch) mod (7 * 24 * Hour) \<noteq> 0"
  by (rule exI [of _ unix_epoch])
    (simp add: WindowStart_def time_Truncate_def unix_epoch_def Hour_def Minute_def Second_def)

end
