(* ===== verification/MultiLimiter.thy ===== *)
theory MultiLimiter
  imports Gcra FixedWindow
begin

text \<open>
  \<^verbatim>\<open>gcra/multi.go\<close> and \<^verbatim>\<open>fixedwindow/multi.go\<close>: a limiter over several limiters, one per
  configured limit. The two files have the same text; the loops are written once over the
  operations of the \<^verbatim>\<open>Limiter\<close> interface and instantiated with the two in-memory limiters. The
  factories that build them are in \<open>Factory\<close>. The loop of limiter \<open>i\<close> reads the clock for itself: its environment is
  \<open>envs i\<close>.
\<close>

section \<open>The loops\<close>

definition policyKey :: "string \<Rightarrow> nat \<Rightarrow> string" where
  "policyKey key i = key @ '':p'' @ itoa (int i)"

definition limiterFailed :: "nat \<Rightarrow> string \<Rightarrow> string" where
  "limiterFailed i err = ''limiter '' @ itoa (int i) @ '' failed: '' @ err"

definition mostRestrictive :: "result option \<Rightarrow> result \<Rightarrow> result" where
  "mostRestrictive mr r = (case mr of
     None \<Rightarrow> r
   | Some b \<Rightarrow> if \<not> Allowed r then r else if Remaining r < Remaining b then r else b)"

text \<open>The result of a finished loop; a nil result is a panic in the caller.\<close>

definition loopResult :: "result option \<Rightarrow> result outcome" where
  "loopResult mr = (case mr of Some r \<Rightarrow> Ret r | None \<Rightarrow> Panic)"

fun allow_loop :: "'s limiter_op \<Rightarrow> (nat \<Rightarrow> env) \<Rightarrow> string \<Rightarrow> int \<Rightarrow> nat \<Rightarrow> result option \<Rightarrow> 's list \<Rightarrow> 's list \<times> result outcome" where
  "allow_loop op envs key n i mr [] = ([], loopResult mr)"
| "allow_loop op envs key n i mr (l # ls) =
     (case op (envs i) l (policyKey key i) n of
        (l', Ret r) \<Rightarrow>
          if \<not> Allowed r then (l' # ls, Ret r)
          else let (ls', out) = allow_loop op envs key n (Suc i) (Some (mostRestrictive mr r)) ls
               in (l' # ls', out)
      | (l', Fail err) \<Rightarrow> (l' # ls, Fail (limiterFailed i err))
      | (l', Panic) \<Rightarrow> (l' # ls, Panic))"

definition multi_AllowN :: "'s limiter_op \<Rightarrow> (nat \<Rightarrow> env) \<Rightarrow> 's list \<Rightarrow> string \<Rightarrow> int \<Rightarrow> 's list \<times> result outcome" where
  "multi_AllowN op envs ls key n =
     (if ls = [] then (ls, Fail ''no limiters configured'') else allow_loop op envs key n 0 None ls)"

fun consume_loop :: "'s limiter_op \<Rightarrow> (nat \<Rightarrow> env) \<Rightarrow> string \<Rightarrow> int \<Rightarrow> nat \<Rightarrow> result option \<Rightarrow> 's list \<Rightarrow> 's list \<times> result outcome" where
  "consume_loop op envs key n i mr [] = ([], loopResult mr)"
| "consume_loop op envs key n i mr (l # ls) =
     (case op (envs i) l (policyKey key i) n of
        (l', Ret r) \<Rightarrow>
          let (ls', out) = consume_loop op envs key n (Suc i) (Some (mostRestrictive mr r)) ls
          in (l' # ls', out)
      | (l', Fail err) \<Rightarrow> (l' # ls, Fail (limiterFailed i err))
      | (l', Panic) \<Rightarrow> (l' # ls, Panic))"

definition multi_ConsumeOrClampN :: "'s limiter_op \<Rightarrow> (nat \<Rightarrow> env) \<Rightarrow> 's list \<Rightarrow> string \<Rightarrow> int \<Rightarrow> 's list \<times> result outcome" where
  "multi_ConsumeOrClampN op envs ls key n =
     (if ls = [] then (ls, Fail ''no limiters configured'') else consume_loop op envs key n 0 None ls)"

text \<open>\<^verbatim>\<open>ConsumeN\<close> asks each limiter whether it implements \<^verbatim>\<open>CostTracker\<close>: \<open>tracker l\<close> is its
  \<^verbatim>\<open>ConsumeN\<close> if it does. Otherwise a clamped consumption that fell short is an error.\<close>

fun track_loop :: "('s \<Rightarrow> 's limiter_op option) \<Rightarrow> 's limiter_op \<Rightarrow> (nat \<Rightarrow> env) \<Rightarrow> string \<Rightarrow> int \<Rightarrow> nat \<Rightarrow> result option \<Rightarrow> 's list \<Rightarrow> 's list \<times> result outcome" where
  "track_loop tracker clamp envs key n i mr [] = ([], loopResult mr)"
| "track_loop tracker clamp envs key n i mr (l # ls) =
     (let (l', out) = (case tracker l of Some t \<Rightarrow> t | None \<Rightarrow> clamp) (envs i) l (policyKey key i) n
      in case out of
        Ret r \<Rightarrow>
          if tracker l = None \<and> Consumed r < n then
            (l' # ls, Fail (''limiter '' @ itoa (int i) @ '' does not implement CostTracker and clamped consumption to ''
               @ itoa (Consumed r) @ '' (requested '' @ itoa n @ ''); cannot guarantee ConsumeN semantics''))
          else let (ls', out) = track_loop tracker clamp envs key n (Suc i) (Some (mostRestrictive mr r)) ls
               in (l' # ls', out)
      | Fail err \<Rightarrow> (l' # ls, Fail (limiterFailed i err))
      | Panic \<Rightarrow> (l' # ls, Panic))"

definition multi_ConsumeN :: "('s \<Rightarrow> 's limiter_op option) \<Rightarrow> 's limiter_op \<Rightarrow> (nat \<Rightarrow> env) \<Rightarrow> 's list \<Rightarrow> string \<Rightarrow> int \<Rightarrow> 's list \<times> result outcome" where
  "multi_ConsumeN tracker clamp envs ls key n =
     (if ls = [] then (ls, Fail ''no limiters configured'') else track_loop tracker clamp envs key n 0 None ls)"

fun available_loop :: "'s avail_op \<Rightarrow> (nat \<Rightarrow> env) \<Rightarrow> string \<Rightarrow> nat \<Rightarrow> int \<Rightarrow> 's list \<Rightarrow> int outcome" where
  "available_loop op envs key i minAvailable [] = Ret minAvailable"
| "available_loop op envs key i minAvailable (l # ls) =
     (case op (envs i) l (policyKey key i) of
        Ret a \<Rightarrow> available_loop op envs key (Suc i)
                   (if minAvailable = - 1 \<or> a < minAvailable then a else minAvailable) ls
      | Fail err \<Rightarrow> Fail (limiterFailed i err)
      | Panic \<Rightarrow> Panic)"

definition multi_GetAvailable :: "'s avail_op \<Rightarrow> (nat \<Rightarrow> env) \<Rightarrow> 's list \<Rightarrow> string \<Rightarrow> int outcome" where
  "multi_GetAvailable op envs ls key =
     (if ls = [] then Fail ''no limiters configured'' else available_loop op envs key 0 (- 1) ls)"

text \<open>\<^verbatim>\<open>Close\<close> closes every limiter and keeps the first error.\<close>

fun close_loop :: "('s \<Rightarrow> 's \<times> string option) \<Rightarrow> nat \<Rightarrow> string option \<Rightarrow> 's list \<Rightarrow> 's list \<times> string option" where
  "close_loop close i firstErr [] = ([], firstErr)"
| "close_loop close i firstErr (l # ls) =
     (let (l', err) = close l;
          firstErr' = (if err \<noteq> None \<and> firstErr = None
                       then Some (''failed to close limiter '' @ itoa (int i) @ '': '' @ the err) else firstErr);
          (ls', e) = close_loop close (Suc i) firstErr' ls
      in (l' # ls', e))"

definition multi_Close :: "('s \<Rightarrow> 's \<times> string option) \<Rightarrow> 's list \<Rightarrow> 's list \<times> string option" where
  "multi_Close close ls = close_loop close 0 None ls"

section \<open>Over any limiter that meets the contract\<close>

context limiter_contract
begin

lemma ok_tail:
  assumes "\<forall>j < length (l # ls). ok (clock (envs (i + j))) ((l # ls) ! j)"
  shows "ok (clock (envs i)) l" and "\<forall>j < length ls. ok (clock (envs (Suc i + j))) (ls ! j)"
proof -
  show "ok (clock (envs i)) l" using assms by fastforce
  show "\<forall>j < length ls. ok (clock (envs (Suc i + j))) (ls ! j)"
    using assms [rule_format, of "Suc _"] by simp
qed

lemma allow_loop_spec:
  assumes "\<forall>j < length ls. ok (clock (envs (i + j))) (ls ! j)" "1 \<le> n" "n < 2 ^ 62"
    and "case mr of Some b \<Rightarrow> Allowed b | None \<Rightarrow> ls \<noteq> []"
  shows "\<exists>ls' r. allow_loop AllowN envs key n i mr ls = (ls', Ret r) \<and> length ls' = length ls \<and>
    (\<forall>j < length ls. ok (clock (envs (i + j))) (ls' ! j)) \<and>
    (Allowed r \<longleftrightarrow> (\<forall>j < length ls. \<exists>a. GetAvailable (envs (i + j)) (ls ! j) (policyKey key (i + j)) = Ret a \<and> n \<le> a))"
  using assms
proof (induction ls arbitrary: i mr)
  case Nil
  then show ?case by (auto simp: loopResult_def split: option.splits)
next
  case (Cons l ls)
  note l = ok_tail(1) [OF Cons.prems(1)] and ls = ok_tail(2) [OF Cons.prems(1)]
  obtain l' r where r: "AllowN (envs i) l (policyKey key i) n = (l', Ret r)" "ok (clock (envs i)) l'"
    using allow_total [OF l Cons.prems(2,3)] by blast
  have fits: "Allowed r \<longleftrightarrow> (\<exists>a. GetAvailable (envs i) l (policyKey key i) = Ret a \<and> n \<le> a)"
    using allow_fits [OF l Cons.prems(2,3) r(1)] .
  show ?case
  proof (cases "Allowed r")
    case True
    then have mr: "case Some (mostRestrictive mr r) of Some b \<Rightarrow> Allowed b | None \<Rightarrow> ls \<noteq> []"
      using Cons.prems(4) by (auto simp: mostRestrictive_def split: option.splits)
    from Cons.IH [OF ls Cons.prems(2,3) mr] r fits True show ?thesis
      by (fastforce simp: nth_Cons All_less_Suc2 split: nat.splits)
  next
    case False
    with Cons.prems(1) ls r fits show ?thesis by (auto simp: All_less_Suc2)
  qed
qed

text \<open>The loop of the check charges the limiters before the first that denies and leaves that one
  and the later ones alone.\<close>

lemma allow_loop_denied:
  assumes "\<forall>j < length ls. ok (clock (envs (i + j))) (ls ! j)" "1 \<le> n" "n < 2 ^ 62" "d < length ls"
    and "\<forall>j < d. \<exists>a. GetAvailable (envs (i + j)) (ls ! j) (policyKey key (i + j)) = Ret a \<and> n \<le> a"
    and "\<forall>a. GetAvailable (envs (i + d)) (ls ! d) (policyKey key (i + d)) = Ret a \<longrightarrow> a < n"
  shows "\<exists>r. allow_loop AllowN envs key n i mr ls =
    (map (\<lambda>j. fst (AllowN (envs (i + j)) (ls ! j) (policyKey key (i + j)) n)) [0..<d] @ drop d ls, Ret r) \<and> \<not> Allowed r"
  using assms
proof (induction ls arbitrary: i mr d)
  case (Cons l ls)
  note l = ok_tail(1) [OF Cons.prems(1)] and ls = ok_tail(2) [OF Cons.prems(1)]
  obtain l' r where r: "AllowN (envs i) l (policyKey key i) n = (l', Ret r)" "ok (clock (envs i)) l'"
    using allow_total [OF l Cons.prems(2,3)] by blast
  note fits = allow_fits [OF l Cons.prems(2,3) r(1)]
  show ?case
  proof (cases d)
    case 0
    then have "\<not> Allowed r" using fits Cons.prems(6) by fastforce
    then show ?thesis using r 0 denied_unchanged [OF l Cons.prems(2,3) r(1)] by simp
  next
    case (Suc d')
    have "Allowed r" using fits Cons.prems(5) [rule_format, of 0] Suc by simp
    moreover have "\<exists>r'. allow_loop AllowN envs key n (Suc i) (Some (mostRestrictive mr r)) ls =
        (map (\<lambda>j. fst (AllowN (envs (Suc i + j)) (ls ! j) (policyKey key (Suc i + j)) n)) [0..<d'] @ drop d' ls, Ret r') \<and>
        \<not> Allowed r'"
    proof (rule Cons.IH [OF ls Cons.prems(2,3)])
      show "d' < length ls" using Cons.prems(4) Suc by simp
      show "\<forall>j<d'. \<exists>a. GetAvailable (envs (Suc i + j)) (ls ! j) (policyKey key (Suc i + j)) = Ret a \<and> n \<le> a"
        using Cons.prems(5) [rule_format, of "Suc _"] Suc by simp
      show "\<forall>a. GetAvailable (envs (Suc i + d')) (ls ! d') (policyKey key (Suc i + d')) = Ret a \<longrightarrow> a < n"
        using Cons.prems(6) Suc by simp
    qed
    ultimately show ?thesis using r Suc by (auto simp: upt_rec [of 0] map_Suc_upt [symmetric] simp del: upt_Suc)
  qed
qed simp

text \<open>The consuming loop visits every limiter. A denied result has no quota left, so a later
  admitted one never replaces it: the loop's result is admitted exactly when all are.\<close>

lemma consume_loop_spec:
  assumes "\<forall>j < length ls. ok (clock (envs (i + j))) (ls ! j)" "0 \<le> n" "n < 2 ^ 62"
    and "case mr of Some b \<Rightarrow> 0 \<le> Remaining b \<and> (\<not> Allowed b \<longrightarrow> Remaining b = 0) | None \<Rightarrow> ls \<noteq> []"
  shows "\<exists>ls' r. consume_loop ConsumeOrClampN envs key n i mr ls = (ls', Ret r) \<and>
    ls' = map (\<lambda>j. fst (ConsumeOrClampN (envs (i + j)) (ls ! j) (policyKey key (i + j)) n)) [0..<length ls] \<and>
    (\<forall>j < length ls. ok (clock (envs (i + j))) (ls' ! j)) \<and>
    (Allowed r \<longleftrightarrow> (case mr of Some b \<Rightarrow> Allowed b | None \<Rightarrow> True) \<and>
       (\<forall>j < length ls. \<exists>a. GetAvailable (envs (i + j)) (ls ! j) (policyKey key (i + j)) = Ret a \<and> n \<le> a))"
  using assms
proof (induction ls arbitrary: i mr)
  case Nil
  then show ?case by (auto simp: loopResult_def split: option.splits)
next
  case (Cons l ls)
  note l = ok_tail(1) [OF Cons.prems(1)] and ls = ok_tail(2) [OF Cons.prems(1)]
  obtain a where a: "GetAvailable (envs i) l (policyKey key i) = Ret a" using avail_ret [OF l] by blast
  obtain l' r where r: "ConsumeOrClampN (envs i) l (policyKey key i) n = (l', Ret r)" "ok (clock (envs i)) l'"
    "0 \<le> Remaining r" "Allowed r \<longleftrightarrow> n \<le> a" "\<not> Allowed r \<longrightarrow> Remaining r = 0"
    using clamp_ret [OF l Cons.prems(2,3) a] by blast
  let ?mr = "Some (mostRestrictive mr r)"
  have mr: "case ?mr of Some b \<Rightarrow> 0 \<le> Remaining b \<and> (\<not> Allowed b \<longrightarrow> Remaining b = 0) | None \<Rightarrow> ls \<noteq> []"
    using Cons.prems(4) r(3,5) by (auto simp: mostRestrictive_def split: option.splits)
  have al: "Allowed (mostRestrictive mr r) \<longleftrightarrow> (case mr of Some b \<Rightarrow> Allowed b | None \<Rightarrow> True) \<and> n \<le> a"
    using Cons.prems(4) r(3,4,5) by (auto simp: mostRestrictive_def split: option.splits)
  from Cons.IH [OF ls Cons.prems(2,3) mr] obtain ls' r' where
    IH: "consume_loop ConsumeOrClampN envs key n (Suc i) ?mr ls = (ls', Ret r')"
      "ls' = map (\<lambda>j. fst (ConsumeOrClampN (envs (Suc i + j)) (ls ! j) (policyKey key (Suc i + j)) n)) [0..<length ls]"
      "\<forall>j < length ls. ok (clock (envs (Suc i + j))) (ls' ! j)"
      "Allowed r' \<longleftrightarrow> Allowed (mostRestrictive mr r) \<and>
        (\<forall>j < length ls. \<exists>a. GetAvailable (envs (Suc i + j)) (ls ! j) (policyKey key (Suc i + j)) = Ret a \<and> n \<le> a)"
    by auto
  have "l' # ls' = map (\<lambda>j. fst (ConsumeOrClampN (envs (i + j)) ((l # ls) ! j) (policyKey key (i + j)) n)) [0..<length (l # ls)]"
    using r(1) IH(2) by (simp add: upt_rec [of 0 "Suc _"] map_Suc_upt [symmetric] del: upt_Suc)
  moreover have "\<forall>j < length (l # ls). ok (clock (envs (i + j))) ((l' # ls') ! j)"
    using r(2) IH(3) by (simp add: All_less_Suc2)
  ultimately show ?case using r(1) IH(1,4) al a by (simp add: All_less_Suc2)
qed

lemma available_loop_spec:
  assumes "\<forall>j < length ls. ok (clock (envs (i + j))) (ls ! j)" "0 \<le> mn \<or> mn = - 1 \<and> ls \<noteq> []"
  shows "\<exists>x \<ge> 0. available_loop GetAvailable envs key i mn ls = Ret x \<and>
    (\<forall>n. n \<le> x \<longleftrightarrow> (mn = - 1 \<or> n \<le> mn) \<and>
      (\<forall>j < length ls. \<exists>a. GetAvailable (envs (i + j)) (ls ! j) (policyKey key (i + j)) = Ret a \<and> n \<le> a))"
  using assms
proof (induction ls arbitrary: i mn)
  case (Cons l ls)
  note l = ok_tail(1) [OF Cons.prems(1)] and ls = ok_tail(2) [OF Cons.prems(1)]
  obtain a where a: "0 \<le> a" "GetAvailable (envs i) l (policyKey key i) = Ret a" using avail_ret [OF l] by blast
  let ?mn = "if mn = - 1 \<or> a < mn then a else mn"
  have mn: "0 \<le> ?mn" using Cons.prems(2) a(1) by auto
  from Cons.IH [OF ls, of ?mn] mn obtain x where x: "0 \<le> x"
    "available_loop GetAvailable envs key (Suc i) ?mn ls = Ret x"
    "\<And>n. n \<le> x \<longleftrightarrow> (?mn = - 1 \<or> n \<le> ?mn) \<and>
      (\<forall>j < length ls. \<exists>a. GetAvailable (envs (Suc i + j)) (ls ! j) (policyKey key (Suc i + j)) = Ret a \<and> n \<le> a)"
    by blast
  have "(?mn = - 1 \<or> n \<le> ?mn) \<longleftrightarrow> (mn = - 1 \<or> n \<le> mn) \<and> n \<le> a" for n using mn by auto
  with x a show ?case by (auto simp: All_less_Suc2)
qed auto

end

section \<open>The two multi-limiters\<close>

definition gcra_multi_AllowN :: "(nat \<Rightarrow> env) \<Rightarrow> gcra_mem list \<Rightarrow> string \<Rightarrow> int \<Rightarrow> gcra_mem list \<times> result outcome" where
  "gcra_multi_AllowN = multi_AllowN Gcra.AllowN"

definition gcra_multi_ConsumeOrClampN :: "(nat \<Rightarrow> env) \<Rightarrow> gcra_mem list \<Rightarrow> string \<Rightarrow> int \<Rightarrow> gcra_mem list \<times> result outcome" where
  "gcra_multi_ConsumeOrClampN = multi_ConsumeOrClampN Gcra.ConsumeOrClampN"

definition gcra_multi_ConsumeN :: "(nat \<Rightarrow> env) \<Rightarrow> gcra_mem list \<Rightarrow> string \<Rightarrow> int \<Rightarrow> gcra_mem list \<times> result outcome" where
  "gcra_multi_ConsumeN = multi_ConsumeN (\<lambda>_. Some Gcra.ConsumeN) Gcra.ConsumeOrClampN"

definition gcra_multi_GetAvailable :: "(nat \<Rightarrow> env) \<Rightarrow> gcra_mem list \<Rightarrow> string \<Rightarrow> int outcome" where
  "gcra_multi_GetAvailable = multi_GetAvailable Gcra.GetAvailable"

definition fw_multi_AllowN :: "(nat \<Rightarrow> env) \<Rightarrow> fw_mem list \<Rightarrow> string \<Rightarrow> int \<Rightarrow> fw_mem list \<times> result outcome" where
  "fw_multi_AllowN = multi_AllowN FixedWindow.AllowN"

definition fw_multi_ConsumeOrClampN :: "(nat \<Rightarrow> env) \<Rightarrow> fw_mem list \<Rightarrow> string \<Rightarrow> int \<Rightarrow> fw_mem list \<times> result outcome" where
  "fw_multi_ConsumeOrClampN = multi_ConsumeOrClampN FixedWindow.ConsumeOrClampN"

definition fw_multi_ConsumeN :: "(nat \<Rightarrow> env) \<Rightarrow> fw_mem list \<Rightarrow> string \<Rightarrow> int \<Rightarrow> fw_mem list \<times> result outcome" where
  "fw_multi_ConsumeN = multi_ConsumeN (\<lambda>_. Some FixedWindow.ConsumeN) FixedWindow.ConsumeOrClampN"

definition fw_multi_GetAvailable :: "(nat \<Rightarrow> env) \<Rightarrow> fw_mem list \<Rightarrow> string \<Rightarrow> int outcome" where
  "fw_multi_GetAvailable = multi_GetAvailable FixedWindow.GetAvailable"

section \<open>Properties\<close>

text \<open>The multi-limiter admits a request exactly when every limit has room for it, which is
  exactly when it fits the quota the multi-limiter itself reports: GetAvailable is the minimum
  over the limits, in spite of its sentinel \<open>-1\<close>.\<close>

lemma gcra_multi_allow_iff_available:
  assumes "ls \<noteq> []" "\<forall>m \<in> set ls. gcra_inv m" "1 \<le> n" "n < 2 ^ 62"
  shows "\<exists>ls' r a. gcra_multi_AllowN envs ls key n = (ls', Ret r) \<and>
    gcra_multi_GetAvailable envs ls key = Ret a \<and> (Allowed r \<longleftrightarrow> n \<le> a) \<and> (\<forall>m \<in> set ls'. gcra_inv m)"
proof -
  have ok: "\<forall>j < length ls. gcra_inv (ls ! j)" using assms(2) by simp
  from gcra_mem.allow_loop_spec [where ls = ls and n = n and mr = None and envs = envs and i = 0 and key = key] ok assms(1,3,4)
  obtain ls' r where r: "allow_loop Gcra.AllowN envs key n 0 None ls = (ls', Ret r)" "length ls' = length ls"
    "\<forall>j < length ls. gcra_inv (ls' ! j)"
    "Allowed r \<longleftrightarrow> (\<forall>j < length ls. \<exists>a. Gcra.GetAvailable (envs j) (ls ! j) (policyKey key j) = Ret a \<and> n \<le> a)"
    by auto
  from gcra_mem.available_loop_spec [where ls = ls and mn = "- 1" and envs = envs and i = 0 and key = key] ok assms(1)
  obtain a where "available_loop Gcra.GetAvailable envs key 0 (- 1) ls = Ret a"
    "\<And>n. n \<le> a \<longleftrightarrow> (\<forall>j < length ls. \<exists>a. Gcra.GetAvailable (envs j) (ls ! j) (policyKey key j) = Ret a \<and> n \<le> a)"
    by auto
  with r assms(1) show ?thesis
    by (auto simp: gcra_multi_AllowN_def multi_AllowN_def gcra_multi_GetAvailable_def multi_GetAvailable_def set_conv_nth)
qed

lemma gcra_multi_allow_iff_available_example:
  "\<exists>ls' r a. gcra_multi_AllowN (\<lambda>_. \<lparr>clock = 3, sys_now = 3\<rparr>) [Gcra.demo, Gcra.demo_full] ''k'' 2 = (ls', Ret r) \<and>
    gcra_multi_GetAvailable (\<lambda>_. \<lparr>clock = 3, sys_now = 3\<rparr>) [Gcra.demo, Gcra.demo_full] ''k'' = Ret a \<and>
    (Allowed r \<longleftrightarrow> 2 \<le> a) \<and> (\<forall>m \<in> set ls'. gcra_inv m)"
  by (rule gcra_multi_allow_iff_available) (simp_all add: Gcra.gcra_demo_inv Gcra.demo_full_inv)

text \<open>A clamped consumption over several limits reaches every limiter and is reported as allowed
  exactly when every limit had room for all of it; a limit that cut it short is never hidden by
  a later one that did not.\<close>

lemma fw_multi_clamp_iff_all:
  assumes "ls \<noteq> []" "\<forall>m \<in> set ls. fw_inv m" "0 \<le> n" "n < 2 ^ 62"
  shows "\<exists>ls' r. fw_multi_ConsumeOrClampN envs ls key n = (ls', Ret r) \<and>
    ls' = map (\<lambda>j. fst (FixedWindow.ConsumeOrClampN (envs j) (ls ! j) (policyKey key j) n)) [0..<length ls] \<and>
    (Allowed r \<longleftrightarrow> (\<forall>j < length ls. \<exists>a. FixedWindow.GetAvailable (envs j) (ls ! j) (policyKey key j) = Ret a \<and> n \<le> a))"
  using fw_mem.consume_loop_spec [where ls = ls and n = n and mr = None and envs = envs and i = 0 and key = key] assms
  by (auto simp: fw_multi_ConsumeOrClampN_def multi_ConsumeOrClampN_def)

lemma fw_multi_clamp_iff_all_example:
  "\<exists>ls' r. fw_multi_ConsumeOrClampN (\<lambda>_. \<lparr>clock = 3, sys_now = 3\<rparr>) [FixedWindow.demo, FixedWindow.demo] ''k'' 4 = (ls', Ret r) \<and>
    ls' = map (\<lambda>j. fst (FixedWindow.ConsumeOrClampN \<lparr>clock = 3, sys_now = 3\<rparr> ([FixedWindow.demo, FixedWindow.demo] ! j) (policyKey ''k'' j) 4)) [0..<length [FixedWindow.demo, FixedWindow.demo]] \<and>
    (Allowed r \<longleftrightarrow> (\<forall>j < length [FixedWindow.demo, FixedWindow.demo].
       \<exists>a. FixedWindow.GetAvailable \<lparr>clock = 3, sys_now = 3\<rparr> ([FixedWindow.demo, FixedWindow.demo] ! j) (policyKey ''k'' j) = Ret a \<and> 4 \<le> a))"
  by (rule fw_multi_clamp_iff_all) (simp_all add: FixedWindow.fw_demo_inv)

text \<open>A check over several limits is not atomic. When limit \<open>d\<close> is the first without room, the
  request is denied, limiter \<open>d\<close> and the later ones are untouched, but every limiter before
  \<open>d\<close> has already been charged the full cost of the denied request.\<close>

lemma fw_multi_denied_charges_earlier:
  assumes "\<forall>m \<in> set ls. fw_inv m" "1 \<le> n" "n < 2 ^ 62" "d < length ls"
    and "\<forall>j < d. \<exists>a. FixedWindow.GetAvailable (envs j) (ls ! j) (policyKey key j) = Ret a \<and> n \<le> a"
    and "\<forall>a. FixedWindow.GetAvailable (envs d) (ls ! d) (policyKey key d) = Ret a \<longrightarrow> a < n"
  shows "\<exists>ls' r. fw_multi_AllowN envs ls key n = (ls', Ret r) \<and> \<not> Allowed r \<and> drop d ls' = drop d ls \<and>
    (\<forall>j < d. abs_count (ls' ! j) (policyKey key j) (WindowStart (fpolicy (ls ! j)) (clock (envs j))) =
       abs_count (ls ! j) (policyKey key j) (WindowStart (fpolicy (ls ! j)) (clock (envs j))) + n)"
proof -
  have ok: "\<forall>j < length ls. fw_inv (ls ! j)" using assms(1) by simp
  let ?ls = "map (\<lambda>j. fst (FixedWindow.AllowN (envs j) (ls ! j) (policyKey key j) n)) [0..<d] @ drop d ls"
  obtain r where r: "allow_loop FixedWindow.AllowN envs key n 0 None ls = (?ls, Ret r)" "\<not> Allowed r"
    using fw_mem.allow_loop_denied [where ls = ls and n = n and mr = None and envs = envs and i = 0 and key = key and d = d] ok assms(2-6) by auto
  have "abs_count (?ls ! j) (policyKey key j) (WindowStart (fpolicy (ls ! j)) (clock (envs j))) =
      abs_count (ls ! j) (policyKey key j) (WindowStart (fpolicy (ls ! j)) (clock (envs j))) + n" if "j < d" for j
    using that assms(2-5) ok
    by (fastforce simp: nth_append FixedWindow.fw_AllowN_spec FixedWindow.fw_GetAvailable_spec)
  with r assms(4) show ?thesis by (auto simp: fw_multi_AllowN_def multi_AllowN_def)
qed

text \<open>A limit of 3 per second behind one of 10 per second.\<close>

definition demo_limits :: "fw_mem list" where
  "demo_limits = [FixedWindow.demo, FixedWindow.NewMemoryLimiter (FixedWindow.PerSecond 3) Minute]"

lemma fw_multi_denied_charges_earlier_example:
  "\<exists>ls' r. fw_multi_AllowN (\<lambda>_. \<lparr>clock = 3, sys_now = 3\<rparr>) demo_limits ''k'' 5 = (ls', Ret r) \<and> \<not> Allowed r \<and>
    drop 1 ls' = drop 1 demo_limits \<and>
    (\<forall>j < 1. abs_count (ls' ! j) (policyKey ''k'' j) (WindowStart (fpolicy (demo_limits ! j)) 3) =
       abs_count (demo_limits ! j) (policyKey ''k'' j) (WindowStart (fpolicy (demo_limits ! j)) 3) + 5)"
proof -
  have inv: "\<forall>m \<in> set demo_limits. fw_inv m"
    by (simp add: demo_limits_def FixedWindow.fw_demo_inv)
      (simp add: fw_inv_def FixedWindow.NewMemoryLimiter_def FixedWindow.PerSecond_def Second_def)
  have a: "length demo_limits = 2"
    "FixedWindow.GetAvailable \<lparr>clock = 3, sys_now = 3\<rparr> (demo_limits ! 0) (policyKey ''k'' 0) = Ret 10"
    "FixedWindow.GetAvailable \<lparr>clock = 3, sys_now = 3\<rparr> (demo_limits ! Suc 0) (policyKey ''k'' (Suc 0)) = Ret 3"
    by (simp_all add: demo_limits_def FixedWindow.demo_def FixedWindow.NewMemoryLimiter_def FixedWindow.PerSecond_def
        FixedWindow.GetAvailable_def currentCount_def wrap64_def)
  show ?thesis
    using fw_multi_denied_charges_earlier [OF inv, of 5 1 "\<lambda>_. \<lparr>clock = 3, sys_now = 3\<rparr>" "''k''"] by (simp add: a)
qed

end
