(* ===== verification/LocalAsync.thy ===== *)
theory LocalAsync
  imports FixedWindow "HOL-Library.Word"
begin

text \<open>
  \<^verbatim>\<open>fixedwindow/redis_local_async.go\<close>: the fixed-window limiter that decides locally and flushes
  its counts to Redis in the background. The state is sharded in stripes, each with the per-key
  states, the set of dirty keys and the deltas carried out of evicted states. A flush is modelled
  in its phases (snapshot, pipeline, apply, outcome) so that checks may come between them, as the
  code's locking allows.

  Redis is not part of the sources: a pipeline of INCRBY commands is the parameter
  \<open>pipe :: 'r \<Rightarrow> (string \<times> int) list \<Rightarrow> 'r \<times> int list \<times> string option\<close>, from a server state and the
  commands to the new server state, the replies and the error of \<^verbatim>\<open>Exec\<close>. Go's iteration orders
  over maps are arguments.
\<close>

unbundle bit_operations_syntax

section \<open>Configuration\<close>

definition DefaultSyncInterval :: duration where "DefaultSyncInterval = 50 * Millisecond"
definition DefaultMaxLocalEntries :: int where "DefaultMaxLocalEntries = 100000"
definition DefaultMaxPipelineCommands :: int where "DefaultMaxPipelineCommands = 5000"
definition failClosedThreshold :: int where "failClosedThreshold = 2"
definition numStripes :: nat where "numStripes = 16"

record async_config =
  SyncInterval :: duration
  FailOpen :: bool
  MaxLocalEntries :: int
  FlushWorkers :: int
  MaxPipelineCommands :: int

definition withDefaults :: "async_config \<Rightarrow> async_config" where
  "withDefaults c =
     (let c = (if SyncInterval c \<le> 0 then c\<lparr>SyncInterval := DefaultSyncInterval\<rparr> else c);
          c = (if MaxLocalEntries c \<le> 0 then c\<lparr>MaxLocalEntries := DefaultMaxLocalEntries\<rparr> else c)
      in if MaxPipelineCommands c \<le> 0 then c\<lparr>MaxPipelineCommands := DefaultMaxPipelineCommands\<rparr> else c)"

section \<open>State\<close>

record localState =
  lsWindowStart :: instant
  globalBase :: int
  localDelta :: int
  blocked :: bool

record pendingFlush =
  pfKey :: string
  pfRedisKey :: string
  flushN :: int
  pfWs :: instant
  evicted :: bool

record expireEntry =
  eeRedisKey :: string
  eeWindowEnd :: instant

record stripe =
  states :: "(string, localState) gomap"
  dirty :: "string list"
  evictedPending :: "pendingFlush list"

record async =
  cfg :: async_config
  stripeCap :: int
  stripes :: "stripe list"
  enqueued :: bool
  nextFlushAt :: int
  redisDown :: bool
  failStreak :: int
  flushCursor :: nat
  apolicy :: fw_policy
  keyPrefix :: string

definition newStripe :: stripe where
  "newStripe = \<lparr>states = [], dirty = [], evictedPending = []\<rparr>"

text \<open>\<^verbatim>\<open>coordNow\<close> is the coordinator's reading of the system clock.\<close>

definition newRedisLocalAsyncLimiterWith :: "fw_policy \<Rightarrow> string \<Rightarrow> async_config \<Rightarrow> instant \<Rightarrow> async" where
  "newRedisLocalAsyncLimiterWith p prefix c coordNow =
     (let c = withDefaults c in
      \<lparr>cfg = c, stripeCap = max 1 (MaxLocalEntries c div int numStripes),
       stripes = replicate numStripes newStripe, enqueued = False,
       nextFlushAt = time_UnixNano (time_Add coordNow (SyncInterval c)),
       redisDown = False, failStreak = 0, flushCursor = 0, apolicy = p, keyPrefix = prefix\<rparr>)"

text \<open>FNV-1a on 32 bits.\<close>

fun fnv1a :: "32 word \<Rightarrow> string \<Rightarrow> 32 word" where
  "fnv1a h [] = h"
| "fnv1a h (c # cs) = fnv1a ((h XOR of_nat (of_char c)) * 16777619) cs"

definition stripeFor :: "string \<Rightarrow> nat" where
  "stripeFor key = unat (fnv1a 2166136261 key AND 15)"

definition getStripe :: "async \<Rightarrow> string \<Rightarrow> stripe" where
  "getStripe r key = stripes r ! stripeFor key"

definition setStripe :: "async \<Rightarrow> string \<Rightarrow> stripe \<Rightarrow> async" where
  "setStripe r key s = r\<lparr>stripes := (stripes r)[stripeFor key := s]\<rparr>"

definition redisKeyFor :: "async \<Rightarrow> string \<Rightarrow> instant \<Rightarrow> string" where
  "redisKeyFor r key ws = keyPrefix r @ key @ '':'' @ itoa (time_UnixNano ws)"

definition mapAdd :: "string \<Rightarrow> string list \<Rightarrow> string list" where
  "mapAdd k d = (if k \<in> set d then d else d @ [k])"

section \<open>Eviction\<close>

definition evictLocked :: "async \<Rightarrow> stripe \<Rightarrow> string \<Rightarrow> localState \<Rightarrow> stripe" where
  "evictLocked r s k st =
     (let s = (if 0 < localDelta st \<and> int (length (evictedPending s)) < 2 * stripeCap r then
                 s\<lparr>evictedPending := evictedPending s @
                    [\<lparr>pfKey = k, pfRedisKey = redisKeyFor r k (lsWindowStart st), flushN = localDelta st,
                      pfWs = lsWindowStart st, evicted = True\<rparr>]\<rparr>
               else s)
      in s\<lparr>states := AList.delete k (states s), dirty := removeAll k (dirty s)\<rparr>)"

definition stateExpired :: "async \<Rightarrow> instant \<Rightarrow> localState \<Rightarrow> bool" where
  "stateExpired r now st \<longleftrightarrow> localDelta st = 0 \<and>
     time_Add (time_Add (lsWindowStart st) (fDuration (apolicy r))) Minute < now"

definition evictExpiredLocked :: "async \<Rightarrow> stripe \<Rightarrow> instant \<Rightarrow> stripe" where
  "evictExpiredLocked r s now =
     s\<lparr>states := filter (\<lambda>(k, st). \<not> stateExpired r now st) (states s),
       dirty := filter (\<lambda>k. case map_of (states s) k of Some st \<Rightarrow> \<not> stateExpired r now st | None \<Rightarrow> True) (dirty s)\<rparr>"

text \<open>The search for a victim over the states in iteration order: the first one, or the first with
  nothing to flush, among at most eight. The empty key stands for no victim yet.\<close>

fun pickVictim :: "(string, localState) gomap \<Rightarrow> string list \<Rightarrow> nat \<Rightarrow> string \<times> localState option \<Rightarrow> string \<times> localState option" where
  "pickVictim m [] scanned v = v"
| "pickVictim m (k # ks) scanned v =
     (case map_of m k of
        None \<Rightarrow> pickVictim m ks scanned v
      | Some st \<Rightarrow>
          let v = (if fst v = '''' then (k, Some st) else v) in
          if localDelta st = 0 then (k, Some st)
          else if 8 \<le> Suc scanned then v
          else pickVictim m ks (Suc scanned) v)"

definition ensureCapacityLocked :: "async \<Rightarrow> stripe \<Rightarrow> instant \<Rightarrow> string list \<Rightarrow> stripe" where
  "ensureCapacityLocked r s now ord =
     (if int (length (states s)) < stripeCap r then s
      else let s = evictExpiredLocked r s now in
        if int (length (states s)) < stripeCap r then s
        else case pickVictim (states s) ord 0 ('''', None) of
               (vk, Some vst) \<Rightarrow> if vk \<noteq> '''' then evictLocked r s vk vst else s
             | (vk, None) \<Rightarrow> s)"

section \<open>The local check\<close>

definition freshState :: "instant \<Rightarrow> localState" where
  "freshState ws = \<lparr>lsWindowStart = ws, globalBase = 0, localDelta = 0, blocked = False\<rparr>"

text \<open>The state of the key in the current window, created (after making room) if it is missing or
  of another window.\<close>

definition loadState :: "async \<Rightarrow> stripe \<Rightarrow> string \<Rightarrow> instant \<Rightarrow> instant \<Rightarrow> string list \<Rightarrow> stripe \<times> localState" where
  "loadState r s key ws now ord =
     (case map_of (states s) key of
        Some st \<Rightarrow>
          if lsWindowStart st = ws then (s, st)
          else (s\<lparr>states := AList.update key (freshState ws) (states s)\<rparr>, freshState ws)
      | None \<Rightarrow>
          (let s = ensureCapacityLocked r s now ord
           in (s\<lparr>states := AList.update key (freshState ws) (states s)\<rparr>, freshState ws)))"

text \<open>The decision on a state: the new state, whether the request is allowed, and whether it asks
  for a place in the flush queue.\<close>

definition decide :: "async \<Rightarrow> localState \<Rightarrow> int \<Rightarrow> localState \<times> bool \<times> bool" where
  "decide r st n =
     (if blocked st then (st, False, False)
      else if \<not> FailOpen (cfg r) \<and> redisDown r then (st, False, True)
      else if fLimit (apolicy r) < wrap64 (wrap64 (globalBase st + localDelta st) + n) then
        (st\<lparr>blocked := True\<rparr>, False, False)
      else (st\<lparr>localDelta := wrap64 (localDelta st + n)\<rparr>, True, 0 < n))"

text \<open>The section under the stripe's lock: the new state, whether the request is allowed, the
  remaining quota and whether the limiter needs a place in the flush queue.\<close>

definition checkLocked :: "async \<Rightarrow> string \<Rightarrow> int \<Rightarrow> instant \<Rightarrow> string list \<Rightarrow> async \<times> bool \<times> int \<times> bool" where
  "checkLocked r key n now ord =
     (let p = apolicy r; limit = fLimit p;
          (s, st) = loadState r (getStripe r key) key (WindowStart p now) now ord;
          (st', allowed, wants) = decide r st n;
          s' = s\<lparr>states := AList.update key st' (states s),
                 dirty := (if allowed \<and> 0 < n then mapAdd key (dirty s) else dirty s)\<rparr>;
          needEnqueue = (evictedPending s \<noteq> [] \<or> wants);
          remaining = wrap64 (limit - wrap64 (globalBase st' + localDelta st'));
          remaining = (if remaining < 0 then 0 else remaining)
      in (setStripe r key s', allowed, remaining, needEnqueue))"

text \<open>The compare-and-swap on \<^verbatim>\<open>enqueued\<close>: the second component says that it took place and the
  limiter enters the coordinator's active set.\<close>

definition enqueueCAS :: "bool \<Rightarrow> async \<Rightarrow> async \<times> bool" where
  "enqueueCAS needEnqueue r =
     (if needEnqueue \<and> \<not> enqueued r then (r\<lparr>enqueued := True\<rparr>, True) else (r, False))"

definition AllowN :: "env \<Rightarrow> async \<Rightarrow> string \<Rightarrow> int \<Rightarrow> string list \<Rightarrow> async \<times> result \<times> bool" where
  "AllowN e r key n0 ord =
     (let n = (if n0 < 0 then 0 else n0); now = clock e; p = apolicy r; windowEnd = WindowEnd p now;
          (r, allowed, remaining, needEnqueue) = checkLocked r key n now ord;
          (r, mark) = enqueueCAS needEnqueue r
      in (r, result_zero\<lparr>Allowed := allowed, Requested := n, Consumed := boolToCount (allowed \<and> 0 < n) n,
                Overflow := boolToCount (\<not> allowed \<and> 0 < n) n, RLimit := fLimit p, Remaining := remaining,
                Reset := windowEnd, RDuration := fDuration p,
                RetryAfter := retryAfterUntil e allowed windowEnd\<rparr>, mark))"

section \<open>The flush\<close>

text \<open>The dirty keys of a stripe in iteration order, within the budget.\<close>

fun drainDirty :: "async \<Rightarrow> (string, localState) gomap \<Rightarrow> string list \<Rightarrow> string list \<Rightarrow> int \<Rightarrow> pendingFlush list \<Rightarrow> bool
    \<Rightarrow> string list \<times> int \<times> pendingFlush list \<times> bool" where
  "drainDirty r m [] d budget batch mor = (d, budget, batch, mor)"
| "drainDirty r m (k # ks) d budget batch mor =
     (if k \<notin> set d then drainDirty r m ks d budget batch mor
      else if budget \<le> 0 then (d, budget, batch, True)
      else case map_of m k of
        None \<Rightarrow> drainDirty r m ks (removeAll k d) budget batch mor
      | Some st \<Rightarrow>
          if localDelta st = 0 then drainDirty r m ks (removeAll k d) budget batch mor
          else drainDirty r m ks (removeAll k d) (budget - 1)
                 (batch @ [\<lparr>pfKey = k, pfRedisKey = redisKeyFor r k (lsWindowStart st), flushN = localDelta st,
                            pfWs = lsWindowStart st, evicted = False\<rparr>]) mor)"

definition snapshotStripe :: "async \<Rightarrow> instant \<Rightarrow> string list \<Rightarrow> stripe \<Rightarrow> int \<Rightarrow> pendingFlush list \<Rightarrow> bool
    \<Rightarrow> stripe \<times> int \<times> pendingFlush list \<times> bool" where
  "snapshotStripe r now ord s budget batch mor =
     (let take_n = min (length (evictedPending s)) (nat budget);
          batch = batch @ take take_n (evictedPending s);
          rest = drop take_n (evictedPending s);
          budget = budget - int take_n;
          mor = (mor \<or> rest \<noteq> []);
          (d, budget, batch, mor) = drainDirty r (states s) ord (dirty s) budget batch mor;
          s = evictExpiredLocked r (s\<lparr>evictedPending := rest, dirty := d\<rparr>) now
      in (s, budget, batch, mor))"

text \<open>The stripes from the rotating cursor on, until the budget is used up.\<close>

fun snapshotLoop :: "async \<Rightarrow> instant \<Rightarrow> (nat \<Rightarrow> string list) \<Rightarrow> nat list \<Rightarrow> stripe list \<Rightarrow> int \<Rightarrow> pendingFlush list \<Rightarrow> bool
    \<Rightarrow> stripe list \<times> pendingFlush list \<times> bool" where
  "snapshotLoop r now ords [] ss budget batch mor = (ss, batch, mor)"
| "snapshotLoop r now ords (j # js) ss budget batch mor =
     (if budget \<le> 0 then (ss, batch, True)
      else let (s, budget, batch, mor) = snapshotStripe r now (ords j) (ss ! j) budget batch mor
           in snapshotLoop r now ords js (ss[j := s]) budget batch mor)"

definition snapshotPendingLocked :: "async \<Rightarrow> instant \<Rightarrow> (nat \<Rightarrow> string list) \<Rightarrow> int \<Rightarrow> async \<times> pendingFlush list \<times> bool" where
  "snapshotPendingLocked r now ords budget =
     (let (ss, batch, mor) = snapshotLoop r now ords
            (map (\<lambda>i. (flushCursor r + i) mod numStripes) [0..<numStripes]) (stripes r) budget [] False
      in (r\<lparr>stripes := ss, flushCursor := (flushCursor r + 1) mod numStripes\<rparr>, batch, mor))"

text \<open>The pipelines: chunks of \<open>step\<close> commands; after a failed chunk the later ones inherit its
  error and are not executed. The result of an entry is its new count or an error.\<close>

function incrChunks :: "('r \<Rightarrow> (string \<times> int) list \<Rightarrow> 'r \<times> int list \<times> string option) \<Rightarrow> nat \<Rightarrow> string option
    \<Rightarrow> 'r \<Rightarrow> pendingFlush list \<Rightarrow> 'r \<times> int outcome list" where
  "incrChunks pipe step aborted R batch =
     (if batch = [] then (R, [])
      else let chunk = take (max 1 step) batch; rest = drop (max 1 step) batch in
        case aborted of
          Some err \<Rightarrow>
            (let (R', res) = incrChunks pipe step aborted R rest in (R', map (\<lambda>_. Fail err) chunk @ res))
        | None \<Rightarrow>
            (let (R1, vals, err) = pipe R (map (\<lambda>p. (pfRedisKey p, flushN p)) chunk);
                 (R', res) = incrChunks pipe step err R1 rest
             in (R', (case err of None \<Rightarrow> map Ret vals | Some m \<Rightarrow> map (\<lambda>_. Fail m) chunk) @ res)))"
  by pat_completeness auto
termination
  by (relation "measure (\<lambda>(pipe, step, aborted, R, batch). length batch)") (auto simp: max_def)

declare incrChunks.simps [simp del]

definition execIncrBatch :: "('r \<Rightarrow> (string \<times> int) list \<Rightarrow> 'r \<times> int list \<times> string option) \<Rightarrow> 'r \<Rightarrow> pendingFlush list \<Rightarrow> int
    \<Rightarrow> 'r \<times> int outcome list" where
  "execIncrBatch pipe R batch chunkSize =
     (let n = length batch; step = (if chunkSize \<le> 0 \<or> int n < chunkSize then n else nat chunkSize)
      in incrChunks pipe step None R batch)"

text \<open>One entry's result: an error puts the delta back, a count reconciles the state of the window.\<close>

definition applyOne :: "async \<Rightarrow> pendingFlush \<Rightarrow> int outcome \<Rightarrow> async \<times> bool \<times> bool \<times> bool" where
  "applyOne r p res =
     (let s = getStripe r (pfKey p) in
      case res of
        Ret newGlobal \<Rightarrow>
          (case map_of (states s) (pfKey p) of
             Some st \<Rightarrow>
               if lsWindowStart st = pfWs p then
                 let st = st\<lparr>globalBase := newGlobal\<rparr>;
                     st = (if \<not> evicted p then
                             st\<lparr>localDelta := (let d = wrap64 (localDelta st - flushN p) in if d < 0 then 0 else d)\<rparr>
                           else st);
                     st = (if fLimit (apolicy r) \<le> newGlobal then st\<lparr>blocked := True\<rparr> else st);
                     again = (localDelta st \<noteq> 0);
                     s = s\<lparr>states := AList.update (pfKey p) st (states s),
                           dirty := (if again then mapAdd (pfKey p) (dirty s) else dirty s)\<rparr>
                 in (setStripe r (pfKey p) s, again, newGlobal = flushN p, False)
               else (r, False, newGlobal = flushN p, False)
           | None \<Rightarrow> (r, False, newGlobal = flushN p, False))
      | _ \<Rightarrow>
          (let s = (if evicted p then
                      if int (length (evictedPending s)) < 2 * stripeCap r
                      then s\<lparr>evictedPending := evictedPending s @ [p]\<rparr> else s
                    else case map_of (states s) (pfKey p) of
                      Some st \<Rightarrow> if lsWindowStart st = pfWs p then s\<lparr>dirty := mapAdd (pfKey p) (dirty s)\<rparr> else s
                    | None \<Rightarrow> s)
           in (setStripe r (pfKey p) s, True, False, True)))"

text \<open>All results: whether work remains, the entries that created their window key, whether any
  command failed.\<close>

fun applyResultsLocked :: "async \<Rightarrow> (pendingFlush \<times> int outcome) list \<Rightarrow> async \<times> bool \<times> pendingFlush list \<times> bool" where
  "applyResultsLocked r [] = (r, False, [], False)"
| "applyResultsLocked r ((p, res) # rest) =
     (let (r1, mor, created, err) = applyOne r p res;
          (r2, mor', creators, tickErr) = applyResultsLocked r1 rest
      in (r2, mor \<or> mor', (if created then p # creators else creators), err \<or> tickErr))"

definition expireEntries :: "async \<Rightarrow> pendingFlush list \<Rightarrow> expireEntry list" where
  "expireEntries r creators =
     map (\<lambda>p. \<lparr>eeRedisKey = pfRedisKey p, eeWindowEnd = time_Add (pfWs p) (fDuration (apolicy r))\<rparr>) creators"

text \<open>The EXPIRE commands issued, given the random jitter of each: those with a time to live left.\<close>

definition execExpire :: "env \<Rightarrow> (nat \<Rightarrow> duration) \<Rightarrow> expireEntry list \<Rightarrow> (string \<times> duration) list" where
  "execExpire e jitter entries =
     filter (\<lambda>(k, ttl). 0 < ttl)
       (map (\<lambda>(i, x). (eeRedisKey x, wrap64 (time_Until e (eeWindowEnd x) + jitter i))) (enumerate 0 entries))"

definition noteFlushOutcomeLocked :: "async \<Rightarrow> bool \<Rightarrow> async" where
  "noteFlushOutcomeLocked r tickErr =
     (if tickErr then
        let streak = failStreak r + 1
        in r\<lparr>failStreak := streak, redisDown := (\<not> FailOpen (cfg r) \<and> failClosedThreshold \<le> streak)\<rparr>
      else r\<lparr>failStreak := 0, redisDown := False\<rparr>)"

text \<open>\<^verbatim>\<open>ping R\<close> says whether PING succeeds.\<close>

definition probeRedisLocked :: "('r \<Rightarrow> bool) \<Rightarrow> 'r \<Rightarrow> async \<Rightarrow> async" where
  "probeRedisLocked ping R r = noteFlushOutcomeLocked r (\<not> ping R)"

definition flushPending :: "('r \<Rightarrow> (string \<times> int) list \<Rightarrow> 'r \<times> int list \<times> string option) \<Rightarrow> ('r \<Rightarrow> bool) \<Rightarrow> env
    \<Rightarrow> (nat \<Rightarrow> string list) \<Rightarrow> 'r \<Rightarrow> async \<Rightarrow> 'r \<times> async \<times> expireEntry list \<times> bool" where
  "flushPending pipe ping e ords R r =
     (let (r, batch, mor) = snapshotPendingLocked r (clock e) ords (MaxPipelineCommands (cfg r)) in
      if batch = [] then
        (R, if \<not> FailOpen (cfg r) \<and> redisDown r then probeRedisLocked ping R r else r, [], mor)
      else
        let (R, results) = execIncrBatch pipe R batch 0;
            (r, applyMore, creators, tickErr) = applyResultsLocked r (zip batch results)
        in (R, noteFlushOutcomeLocked r tickErr, expireEntries r creators, mor \<or> applyMore))"

text \<open>The drain of \<^verbatim>\<open>Close\<close>: at most \<open>numStripes + 1\<close> flushes, while work remains.\<close>

fun closeDrain :: "('r \<Rightarrow> (string \<times> int) list \<Rightarrow> 'r \<times> int list \<times> string option) \<Rightarrow> ('r \<Rightarrow> bool) \<Rightarrow> env
    \<Rightarrow> (nat \<Rightarrow> string list) \<Rightarrow> nat \<Rightarrow> 'r \<Rightarrow> async \<Rightarrow> 'r \<times> async" where
  "closeDrain pipe ping e ords 0 R r = (R, r)"
| "closeDrain pipe ping e ords (Suc i) R r =
     (let (R, r, _, mor) = flushPending pipe ping e ords R r
      in if mor then closeDrain pipe ping e ords i R r else (R, r))"

end
