(* ===== verification/AsyncFlush.thy ===== *)
theory AsyncFlush
  imports LocalAsync
begin

text \<open>
  The accounting of the local-async limiter of \<^verbatim>\<open>fixedwindow/redis_local_async.go\<close>: what a limiter
  owes to Redis, the soundness of its stripes, and what the phases of a flush (snapshot,
  pipeline, apply) keep of both.
\<close>

section \<open>What is owed to Redis\<close>

definition entryOwed :: "async \<Rightarrow> string \<Rightarrow> string \<times> localState \<Rightarrow> int" where
  "entryOwed r rk x = (if redisKeyFor r (fst x) (lsWindowStart (snd x)) = rk then localDelta (snd x) else 0)"

definition flushOwed :: "string \<Rightarrow> pendingFlush list \<Rightarrow> int" where
  "flushOwed rk ps = sum_list (map flushN (filter (\<lambda>p. pfRedisKey p = rk) ps))"

definition stripeOwed :: "async \<Rightarrow> string \<Rightarrow> stripe \<Rightarrow> int" where
  "stripeOwed r rk s = flushOwed rk (evictedPending s) + sum_list (map (entryOwed r rk) (states s))"

text \<open>The count a limiter owes to a Redis key: the deltas of its states and the carried ones.\<close>

definition owed :: "async \<Rightarrow> string \<Rightarrow> int" where
  "owed r rk = sum_list (map (stripeOwed r rk) (stripes r))"

text \<open>A stripe is sound when its keys belong to it, every unflushed delta is in the dirty set or in
  flight (the keys \<open>F\<close> of a batch that was taken but not applied), and the carried deltas keep
  within their bound.\<close>

definition stripe_ok :: "string set \<Rightarrow> async \<Rightarrow> nat \<Rightarrow> stripe \<Rightarrow> bool" where
  "stripe_ok F r j s \<longleftrightarrow> map_ok (states s) \<and>
     (\<forall>(k, st) \<in> set (states s). stripeFor k = j \<and> 0 \<le> localDelta st \<and> (localDelta st \<noteq> 0 \<longrightarrow> k \<in> set (dirty s) \<union> F)) \<and>
     (\<forall>p \<in> set (evictedPending s). evicted p \<and> stripeFor (pfKey p) = j \<and> 0 \<le> flushN p) \<and>
     int (length (evictedPending s)) \<le> 2 * stripeCap r"

definition async_inv :: "async \<Rightarrow> bool" where
  "async_inv r \<longleftrightarrow> length (stripes r) = numStripes \<and> (\<forall>j < numStripes. stripe_ok {} r j (stripes r ! j))"

text \<open>What an operation never changes.\<close>

definition same_frame :: "async \<Rightarrow> async \<Rightarrow> bool" where
  "same_frame r r' \<longleftrightarrow> cfg r' = cfg r \<and> stripeCap r' = stripeCap r \<and> apolicy r' = apolicy r \<and>
     keyPrefix r' = keyPrefix r \<and> length (stripes r') = length (stripes r)"

lemma same_frame_refl [simp]: "same_frame r r"
  by (simp add: same_frame_def)

lemma same_frame_trans: "same_frame a b \<Longrightarrow> same_frame b c \<Longrightarrow> same_frame a c"
  by (simp add: same_frame_def)

lemma redisKeyFor_frame: "same_frame r r' \<Longrightarrow> redisKeyFor r' = redisKeyFor r"
  by (intro ext) (simp add: same_frame_def redisKeyFor_def)

lemma stripeOwed_frame: "same_frame r r' \<Longrightarrow> stripeOwed r' rk = stripeOwed r rk"
  by (intro ext) (simp add: stripeOwed_def entryOwed_def [abs_def] redisKeyFor_frame)

lemma stripe_ok_frame: "same_frame r r' \<Longrightarrow> stripe_ok F r' = stripe_ok F r"
  by (intro ext) (simp add: stripe_ok_def same_frame_def)

lemma stripeFor_less: "stripeFor k < numStripes"
proof -
  have "fnv1a 2166136261 k AND 15 \<le> 15" by (rule word_and_le1)
  then show ?thesis by (simp add: stripeFor_def numStripes_def word_le_nat_alt)
qed

lemma flushOwed_simps [simp]:
  "flushOwed rk [] = 0"
  "flushOwed rk (p # ps) = (if pfRedisKey p = rk then flushN p else 0) + flushOwed rk ps"
  "flushOwed rk (ps @ qs) = flushOwed rk ps + flushOwed rk qs"
  by (simp_all add: flushOwed_def)

lemma sum_list_set:
  fixes xs :: "int list"
  shows "j < length xs \<Longrightarrow> sum_list (xs[j := y]) = sum_list xs - xs ! j + y"
  by (induction xs arbitrary: j) (auto split: nat.splits)

lemma owed_set_stripe:
  assumes "j < length (stripes r)"
  shows "owed (r\<lparr>stripes := (stripes r)[j := s]\<rparr>) rk = owed r rk - stripeOwed r rk (stripes r ! j) + stripeOwed r rk s"
proof -
  have "stripeOwed (r\<lparr>stripes := (stripes r)[j := s]\<rparr>) rk = stripeOwed r rk"
    by (rule stripeOwed_frame) (simp add: same_frame_def)
  then show ?thesis using assms by (simp add: owed_def map_update sum_list_set)
qed

lemma alist_sum_update:
  fixes f :: "string \<times> localState \<Rightarrow> int"
  assumes "map_ok m"
  shows "sum_list (map f (AList.update k v m)) =
    sum_list (map f m) + f (k, v) - (case map_of m k of Some u \<Rightarrow> f (k, u) | None \<Rightarrow> 0)"
  using assms by (induction m) (auto simp: map_ok_def map_of_eq_None_iff split: option.splits)

lemma alist_sum_delete:
  fixes f :: "string \<times> localState \<Rightarrow> int"
  assumes "map_ok m"
  shows "sum_list (map f (AList.delete k m)) = sum_list (map f m) - (case map_of m k of Some u \<Rightarrow> f (k, u) | None \<Rightarrow> 0)"
  using assms by (induction m) (auto simp: map_ok_def split: option.splits)

section \<open>The snapshot\<close>

lemma evictExpired_frame [simp]:
  "evictedPending (evictExpiredLocked r s now) = evictedPending s"
  by (simp add: evictExpiredLocked_def)

lemma evictExpired_map:
  "map_ok (states s) \<Longrightarrow> map_of (states (evictExpiredLocked r s now)) k =
    (case map_of (states s) k of None \<Rightarrow> None | Some st \<Rightarrow> if stateExpired r now st then None else Some st)"
  by (auto simp: evictExpiredLocked_def map_of_filter_ok split: option.splits)

text \<open>Only settled states expire, so nothing owed is dropped.\<close>

lemma evictExpired_owed: "stripeOwed r rk (evictExpiredLocked r' s now) = stripeOwed r rk s"
proof -
  have "sum_list (map (entryOwed r rk) (filter (\<lambda>(k, st). \<not> stateExpired r' now st) xs)) = sum_list (map (entryOwed r rk) xs)" for xs
    by (induction xs) (auto simp: stateExpired_def entryOwed_def)
  then show ?thesis by (simp add: stripeOwed_def evictExpiredLocked_def)
qed

lemma evictExpired_ok:
  assumes "stripe_ok F r j s"
  shows "stripe_ok F r j (evictExpiredLocked r' s now)"
proof -
  have "case map_of (states s) k of Some st \<Rightarrow> \<not> stateExpired r' now st | None \<Rightarrow> True"
    if "(k, st) \<in> set (states s)" "\<not> stateExpired r' now st" for k st
    using assms that by (simp add: stripe_ok_def map_ok_def)
  then show ?thesis using assms by (auto simp: stripe_ok_def evictExpiredLocked_def)
qed

text \<open>The entry of a flush that stands for the whole delta of a state.\<close>

definition ready :: "async \<Rightarrow> (string, localState) gomap \<Rightarrow> pendingFlush \<Rightarrow> bool" where
  "ready r m p \<longleftrightarrow> pfRedisKey p = redisKeyFor r (pfKey p) (pfWs p) \<and>
     (\<exists>st. map_of m (pfKey p) = Some st \<and> lsWindowStart st = pfWs p \<and> localDelta st = flushN p \<and> flushN p \<noteq> 0)"

text \<open>What draining the dirty set \<open>d\<close> of the states \<open>m\<close> in the order \<open>ks\<close> yields: the entries \<open>new\<close>
  stand for whole deltas, one for each key, and a key that leaves the dirty set is among them or
  has nothing to flush; without a spill the whole set is drained.\<close>

definition settled :: "(string, localState) gomap \<Rightarrow> string \<Rightarrow> bool" where
  "settled m k \<longleftrightarrow> (\<forall>st. map_of m k = Some st \<longrightarrow> localDelta st = 0)"

definition drained :: "async \<Rightarrow> (string, localState) gomap \<Rightarrow> string list \<Rightarrow> string list \<Rightarrow> bool \<Rightarrow> string list \<Rightarrow> bool
    \<Rightarrow> pendingFlush list \<Rightarrow> bool" where
  "drained r m ks d mor d' mor' new \<longleftrightarrow> distinct (map pfKey new) \<and>
    (\<forall>p \<in> set new. \<not> evicted p \<and> ready r m p \<and> pfKey p \<in> set d \<and> pfKey p \<notin> set d') \<and> set d' \<subseteq> set d \<and>
    (\<forall>k. k \<in> set d \<longrightarrow> k \<notin> set d' \<longrightarrow> k \<notin> pfKey ` set new \<longrightarrow> settled m k) \<and>
    (mor \<longrightarrow> mor') \<and> ((\<forall>k. k \<in> set d \<longrightarrow> k \<in> set ks) \<longrightarrow> \<not> mor' \<longrightarrow> d' = [])"

lemma drained_skip: "drained r m ks d mor d' mor' new \<Longrightarrow> k \<notin> set d \<Longrightarrow> drained r m (k # ks) d mor d' mor' new"
  unfolding drained_def by (metis set_ConsD)

lemma drained_settled:
  "drained r m ks (removeAll k d) mor d' mor' new \<Longrightarrow> settled m k \<Longrightarrow> drained r m (k # ks) d mor d' mor' new"
  unfolding drained_def set_removeAll by (intro conjI; (elim conjE)?; (metis DiffD1 DiffI singletonD set_ConsD subset_Diff_insert Diff_subset subset_trans)?)

lemma drained_work:
  "drained r m ks (removeAll (pfKey p) d) mor d' mor' new \<Longrightarrow> \<not> evicted p \<Longrightarrow> ready r m p \<Longrightarrow> pfKey p \<in> set d \<Longrightarrow>
    drained r m (pfKey p # ks) d mor d' mor' (p # new)"
  unfolding drained_def set_removeAll by (intro conjI; (elim conjE)?; force)

lemma drainDirty_spec:
  assumes "drainDirty r m ks d budget batch mor = (d', budget', batch', mor')"
  shows "\<exists>new. batch' = batch @ new \<and> drained r m ks d mor d' mor' new"
  using assms
proof (induction r m ks d budget batch mor arbitrary: d' budget' batch' mor' rule: drainDirty.induct)
  case (1 r m d budget batch mor)
  then show ?case by (simp add: drained_def)
next
  case (2 r m k ks d budget batch mor)
  note IH = 2(1-4) and run = 2(5)
  consider (skip) "k \<notin> set d" | (spill) "k \<in> set d" "budget \<le> 0" | (gone) "k \<in> set d" "\<not> budget \<le> 0" "map_of m k = None"
    | (settled) st where "k \<in> set d" "\<not> budget \<le> 0" "map_of m k = Some st" "localDelta st = 0"
    | (work) st where "k \<in> set d" "\<not> budget \<le> 0" "map_of m k = Some st" "localDelta st \<noteq> 0"
    by (cases "map_of m k") fastforce+
  then show ?case
  proof cases
    case skip
    then show ?thesis using IH(1) [of d' budget' batch' mor'] run drained_skip by auto
  next
    case spill
    then show ?thesis using run by (auto simp: drained_def)
  next
    case gone
    then have "settled m k" by (simp add: settled_def)
    then show ?thesis using IH(2) [of d' budget' batch' mor'] run gone drained_settled by fastforce
  next
    case (settled st)
    then have "AsyncFlush.settled m k" by (simp add: settled_def)
    then show ?thesis using IH(3) [of st d' budget' batch' mor'] run settled drained_settled by fastforce
  next
    case (work st)
    define p where "p = \<lparr>pfKey = k, pfRedisKey = redisKeyFor r k (lsWindowStart st), flushN = localDelta st,
      pfWs = lsWindowStart st, evicted = False\<rparr>"
    have p: "pfKey p = k" "\<not> evicted p" "ready r m p" using work by (simp_all add: p_def ready_def)
    have "drainDirty r m ks (removeAll k d) (budget - 1) (batch @ [p]) mor = (d', budget', batch', mor')"
      using work run by (simp add: p_def)
    from IH(4) [OF _ _ work(3,4) this [unfolded p_def]] work(1,2)
    obtain new where new: "batch' = (batch @ [p]) @ new" "drained r m ks (removeAll k d) mor d' mor' new"
      by (auto simp: p_def)
    show ?thesis using new(1) drained_work [of r m ks p d mor d' mor' new] new(2) work(1) p by auto
  qed
qed

text \<open>A batch has live entries, whose delta is still in the state it was taken from, and entries
  carried out of evicted states.\<close>

definition live :: "pendingFlush list \<Rightarrow> pendingFlush list" where
  "live batch = filter (\<lambda>p. \<not> evicted p) batch"

definition carried :: "pendingFlush list \<Rightarrow> pendingFlush list" where
  "carried batch = filter evicted batch"

lemma live_simps [simp]:
  "live [] = []" "live (p # ps) = (if evicted p then live ps else p # live ps)" "live (ps @ qs) = live ps @ live qs"
  by (simp_all add: live_def)

lemma carried_simps [simp]:
  "carried [] = []" "carried (p # ps) = (if evicted p then p # carried ps else carried ps)"
  "carried (ps @ qs) = carried ps @ carried qs"
  by (simp_all add: carried_def)

definition inflight :: "async \<Rightarrow> stripe list \<Rightarrow> pendingFlush list \<Rightarrow> bool" where
  "inflight r ss batch \<longleftrightarrow> length ss = numStripes \<and> distinct (map pfKey (live batch)) \<and>
     (\<forall>p \<in> set (live batch). ready r (states (ss ! stripeFor (pfKey p))) p) \<and> (\<forall>p \<in> set batch. 0 \<le> flushN p) \<and>
     (\<forall>j < numStripes. stripe_ok (pfKey ` set (live batch)) r j (ss ! j) \<and>
        int (length (evictedPending (ss ! j))) + int (length (filter (\<lambda>p. stripeFor (pfKey p) = j) (carried batch)))
          \<le> 2 * stripeCap r)"

lemma stripe_ok_mono: "stripe_ok F r j s \<Longrightarrow> F \<subseteq> G \<Longrightarrow> stripe_ok G r j s"
  by (fastforce simp: stripe_ok_def)

lemma snapshotStripe_spec:
  assumes run: "snapshotStripe r now ord s budget batch mor = (s', budget', batch', mor')"
    and ok: "stripe_ok F r j s"
  shows "\<exists>ev new. batch' = batch @ ev @ new \<and> (\<forall>p \<in> set ev. evicted p \<and> stripeFor (pfKey p) = j \<and> 0 \<le> flushN p) \<and>
    length (evictedPending s') + length ev = length (evictedPending s) \<and>
    stripeOwed r rk s = stripeOwed r rk s' + flushOwed rk ev \<and>
    (\<forall>p \<in> set new. \<not> evicted p \<and> stripeFor (pfKey p) = j \<and> ready r (states s') p) \<and> distinct (map pfKey new) \<and>
    stripe_ok (F \<union> pfKey ` set new) r j s' \<and> (mor \<longrightarrow> mor') \<and>
    (\<not> mor' \<longrightarrow> set (dirty s) \<subseteq> set ord \<longrightarrow> evictedPending s' = [] \<and> dirty s' = [])"
proof -
  define tk where "tk = min (length (evictedPending s)) (nat budget)"
  define ev where "ev = take tk (evictedPending s)"
  define rest where "rest = drop tk (evictedPending s)"
  obtain d where dr: "drainDirty r (states s) ord (dirty s) (budget - int tk) (batch @ ev) (mor \<or> rest \<noteq> []) = (d, budget', batch', mor')"
    and s': "s' = evictExpiredLocked r (s\<lparr>evictedPending := rest, dirty := d\<rparr>) now"
    using run by (auto simp: snapshotStripe_def Let_def tk_def ev_def rest_def split: prod.splits)
  obtain new where new: "batch' = (batch @ ev) @ new" "drained r (states s) ord (dirty s) (mor \<or> rest \<noteq> []) d mor' new"
    using drainDirty_spec [OF dr] by blast
  have split: "evictedPending s = ev @ rest" by (simp add: ev_def rest_def)
  have mok: "map_ok (states s)" using ok by (simp add: stripe_ok_def)
  have ready: "ready r (states s') p" if "p \<in> set new" for p
    using new(2) that mok unfolding drained_def
    by (auto simp: ready_def s' evictExpired_map stateExpired_def)
  have home: "stripeFor (pfKey p) = j" if "p \<in> set new" for p
    using new(2) that ok by (fastforce simp: drained_def ready_def stripe_ok_def dest: map_of_SomeD)
  have "stripe_ok (F \<union> pfKey ` set new) r j (s\<lparr>evictedPending := rest, dirty := d\<rparr>)"
    using ok new(2) unfolding stripe_ok_def drained_def settled_def
    by (force simp: split map_ok_def)
  then have ok': "stripe_ok (F \<union> pfKey ` set new) r j s'" unfolding s' by (rule evictExpired_ok)
  have owed: "stripeOwed r rk s = stripeOwed r rk s' + flushOwed rk ev"
    unfolding s' evictExpired_owed by (simp add: stripeOwed_def split)
  have clean: "evictedPending s' = [] \<and> dirty s' = []" if "\<not> mor'" "set (dirty s) \<subseteq> set ord"
    using new(2) that unfolding drained_def s' by (auto simp: evictExpiredLocked_def)
  have evd: "\<forall>p \<in> set ev. evicted p \<and> stripeFor (pfKey p) = j \<and> 0 \<le> flushN p" using ok split by (auto simp: stripe_ok_def)
  have len: "length (evictedPending s') + length ev = length (evictedPending s)" by (simp add: s' split)
  show ?thesis
    using new owed evd ready home ok' clean len unfolding drained_def by (intro exI [of _ ev] exI [of _ new]) auto
qed

lemma inflight_step:
  assumes inv: "inflight r ss batch" and j: "j < numStripes" and fresh: "\<forall>p \<in> set (live batch). stripeFor (pfKey p) \<noteq> j"
    and ev: "\<forall>p \<in> set ev. evicted p \<and> stripeFor (pfKey p) = j \<and> 0 \<le> flushN p"
    and len: "length (evictedPending s') + length ev = length (evictedPending (ss ! j))"
    and new: "\<forall>p \<in> set new. \<not> evicted p \<and> stripeFor (pfKey p) = j \<and> ready r (states s') p" "distinct (map pfKey new)"
    and ok: "stripe_ok (pfKey ` set (live batch) \<union> pfKey ` set new) r j s'"
  shows "inflight r (ss[j := s']) (batch @ ev @ new)"
proof -
  have [simp]: "live ev = []" "carried ev = ev" "live new = new" "carried new = []"
    "filter (\<lambda>p. stripeFor (pfKey p) = i) ev = (if i = j then ev else [])" for i
    using ev new(1) by (auto simp: live_def carried_def filter_empty_conv filter_id_conv)
  have l: "length ss = numStripes" using inv by (simp add: inflight_def)
  have disj: "pfKey ` set (live batch) \<inter> pfKey ` set new = {}" using fresh new(1) by auto
  have bound: "int (length (evictedPending (ss ! i))) + int (length (filter (\<lambda>p. stripeFor (pfKey p) = i) (carried batch)))
      \<le> 2 * stripeCap r" if "i < numStripes" for i
    using inv that by (simp add: inflight_def)
  have okj: "stripe_ok (pfKey ` set (live (batch @ ev @ new))) r i (ss[j := s'] ! i)" if "i < numStripes" for i
    using inv ok l that
    by (cases "i = j") (auto simp: inflight_def image_Un intro: stripe_ok_mono)
  have rd: "ready r (states (ss[j := s'] ! stripeFor (pfKey p))) p" if "p \<in> set (live (batch @ ev @ new))" for p
    using inv that new(1) fresh l j by (auto simp: inflight_def)
  have dist: "distinct (map pfKey (live (batch @ ev @ new)))"
    using inv new(2) disj by (auto simp: inflight_def)
  have len': "int (length (evictedPending (ss[j := s'] ! i))) +
      int (length (filter (\<lambda>p. stripeFor (pfKey p) = i) (carried (batch @ ev @ new)))) \<le> 2 * stripeCap r"
    if "i < numStripes" for i
    using bound [OF that] len l j by (cases "i = j") auto
  have "0 \<le> flushN p" if "p \<in> set new" for p
  proof -
    have "ready r (states s') p" using new(1) that by blast
    then obtain st where st: "map_of (states s') (pfKey p) = Some st" "localDelta st = flushN p" by (auto simp: ready_def)
    have "0 \<le> localDelta st" using ok map_of_SomeD [OF st(1)] by (auto simp: stripe_ok_def)
    then show ?thesis using st(2) by simp
  qed
  then have amounts: "\<forall>p \<in> set (batch @ ev @ new). 0 \<le> flushN p" using inv ev by (auto simp: inflight_def)
  show ?thesis unfolding inflight_def using l okj rd dist len' amounts by simp
qed

lemma snapshotLoop_spec:
  assumes "snapshotLoop r now ords js ss budget batch mor = (ss', batch', mor')"
    "inflight r ss batch" "distinct js" "set js \<subseteq> {..<numStripes}" "\<forall>p \<in> set (live batch). stripeFor (pfKey p) \<notin> set js"
  shows "inflight r ss' batch' \<and> (mor \<longrightarrow> mor') \<and>
    sum_list (map (stripeOwed r rk) ss') + flushOwed rk (carried batch') =
      sum_list (map (stripeOwed r rk) ss) + flushOwed rk (carried batch) \<and>
    (\<forall>j. j \<notin> set js \<longrightarrow> ss' ! j = ss ! j) \<and>
    (\<not> mor' \<longrightarrow> (\<forall>j \<in> set js. set (dirty (ss ! j)) \<subseteq> set (ords j) \<longrightarrow> evictedPending (ss' ! j) = [] \<and> dirty (ss' ! j) = []))"
  using assms
proof (induction js arbitrary: ss budget batch mor)
  case (Cons j js)
  show ?case
  proof (cases "budget \<le> 0")
    case True
    then show ?thesis using Cons.prems by simp
  next
    case False
    obtain s1 b1 batch1 m1 where st: "snapshotStripe r now (ords j) (ss ! j) budget batch mor = (s1, b1, batch1, m1)"
      by (cases "snapshotStripe r now (ords j) (ss ! j) budget batch mor")
    have run: "snapshotLoop r now ords js (ss[j := s1]) b1 batch1 m1 = (ss', batch', mor')"
      using Cons.prems(1) False st by simp
    have j: "j < numStripes" "length ss = numStripes" "stripe_ok (pfKey ` set (live batch)) r j (ss ! j)"
      using Cons.prems by (auto simp: inflight_def)
    obtain ev new where e: "batch1 = batch @ ev @ new" "\<forall>p \<in> set ev. evicted p \<and> stripeFor (pfKey p) = j \<and> 0 \<le> flushN p"
      "length (evictedPending s1) + length ev = length (evictedPending (ss ! j))"
      "stripeOwed r rk (ss ! j) = stripeOwed r rk s1 + flushOwed rk ev"
      "\<forall>p \<in> set new. \<not> evicted p \<and> stripeFor (pfKey p) = j \<and> ready r (states s1) p" "distinct (map pfKey new)"
      "stripe_ok (pfKey ` set (live batch) \<union> pfKey ` set new) r j s1" "mor \<longrightarrow> m1"
      "\<not> m1 \<longrightarrow> set (dirty (ss ! j)) \<subseteq> set (ords j) \<longrightarrow> evictedPending s1 = [] \<and> dirty s1 = []"
      using snapshotStripe_spec [OF st j(3), of rk] by blast
    have inv: "inflight r (ss[j := s1]) batch1"
      unfolding e(1) using Cons.prems(2,5) j(1) e by (intro inflight_step) auto
    have [simp]: "live ev = []" "carried ev = ev" "live new = new" "carried new = []"
      using e(2,5) by (auto simp: live_def carried_def filter_empty_conv filter_id_conv)
    have "\<forall>p \<in> set (live batch1). stripeFor (pfKey p) \<notin> set js"
      using Cons.prems(3,5) e(1,5) by auto
    note IH = Cons.IH [OF run inv _ _ this] Cons.prems(3,4)
    have same: "ss' ! j = s1" using IH j by simp
    have sum: "sum_list (map (stripeOwed r rk) (ss[j := s1])) = sum_list (map (stripeOwed r rk) ss) - flushOwed rk ev"
      using j e(4) by (simp add: map_update sum_list_set)
    have rest: "ss[j := s1] ! i = ss ! i" if "i \<in> set js" for i using that Cons.prems(3) by (cases "i = j") auto
    have other: "ss' ! i = ss ! i" if "i \<notin> set (j # js)" for i using IH that by auto
    have clean: "evictedPending (ss' ! i) = [] \<and> dirty (ss' ! i) = []"
      if "\<not> mor'" "i \<in> set (j # js)" "set (dirty (ss ! i)) \<subseteq> set (ords i)" for i
      using IH same e(9) rest that by (cases "i = j") auto
    show ?thesis using IH sum e(1,8) other clean by auto
  qed
qed simp

lemma snapshot_order: "set (map (\<lambda>i. (c + i) mod numStripes) [0..<numStripes]) = {..<numStripes}"
    "distinct (map (\<lambda>i. (c + i) mod numStripes) [0..<numStripes])"
proof -
  let ?js = "map (\<lambda>i. (c + i) mod numStripes) [0..<numStripes]"
  have "inj_on (\<lambda>i. (c + i) mod numStripes) {..<numStripes}"
    unfolding numStripes_def by (auto simp: inj_on_def nat_mod_eq_iff; presburger)
  then show dist: "distinct ?js" by (simp add: distinct_map atLeast0LessThan)
  have "card (set ?js) = numStripes" using distinct_card [OF dist] by simp
  moreover have "set ?js \<subseteq> {..<numStripes}" by (auto simp: numStripes_def)
  ultimately show "set ?js = {..<numStripes}" by (simp add: card_subset_eq)
qed

lemma snapshot_spec:
  assumes run: "snapshotPendingLocked r now ords budget = (r', batch, mor)" and inv: "async_inv r"
  shows "same_frame r r'" "inflight r (stripes r') batch"
    and "owed r' rk + flushOwed rk (carried batch) = owed r rk"
    and "\<not> mor \<Longrightarrow> \<forall>j < numStripes. set (dirty (stripes r ! j)) \<subseteq> set (ords j) \<Longrightarrow>
      \<forall>j < numStripes. evictedPending (stripes r' ! j) = [] \<and> dirty (stripes r' ! j) = []"
proof -
  define js where "js = map (\<lambda>i. (flushCursor r + i) mod numStripes) [0..<numStripes]"
  obtain ss where loop: "snapshotLoop r now ords js (stripes r) budget [] False = (ss, batch, mor)"
    and r': "r' = r\<lparr>stripes := ss, flushCursor := (flushCursor r + 1) mod numStripes\<rparr>"
    using run by (auto simp: snapshotPendingLocked_def js_def split: prod.splits)
  have start: "inflight r (stripes r) []" using inv by (auto simp: async_inv_def inflight_def stripe_ok_def)
  have all: "set js = {..<numStripes}" and dist: "distinct js" by (simp_all only: js_def snapshot_order)
  have sub: "set js \<subseteq> {..<numStripes}" using all by simp
  note L = snapshotLoop_spec [OF loop start dist sub]
  show "same_frame r r'" using L start by (simp add: r' same_frame_def inflight_def)
  then show "owed r' rk + flushOwed rk (carried batch) = owed r rk"
    using L [of rk] by (simp add: owed_def stripeOwed_frame) (simp add: r')
  show "inflight r (stripes r') batch" using L by (simp add: r')
  show "\<forall>j < numStripes. evictedPending (stripes r' ! j) = [] \<and> dirty (stripes r' ! j) = []"
    if "\<not> mor" "\<forall>j < numStripes. set (dirty (stripes r ! j)) \<subseteq> set (ords j)"
    using L that all by (simp add: r')
qed

section \<open>Applying the results\<close>

definition landed :: "string \<Rightarrow> (pendingFlush \<times> int outcome) list \<Rightarrow> int" where
  "landed rk xs = sum_list (map (\<lambda>(p, res). case res of Ret v \<Rightarrow> if pfRedisKey p = rk then flushN p else 0 | _ \<Rightarrow> 0) xs)"

lemma landed_simps [simp]:
  "landed rk [] = 0"
  "landed rk ((p, res) # xs) = (case res of Ret v \<Rightarrow> if pfRedisKey p = rk then flushN p else 0 | _ \<Rightarrow> 0) + landed rk xs"
  by (simp_all add: landed_def)

text \<open>The effect of a write to the stripe of a key that keeps the stripe sound.\<close>

lemma inflight_write:
  assumes inv: "inflight r (stripes r) (p # batch)"
    and ok: "stripe_ok (pfKey ` set (live batch)) r (stripeFor (pfKey p)) s"
    and keep: "\<And>q. q \<in> set (live batch) \<Longrightarrow> stripeFor (pfKey q) = stripeFor (pfKey p) \<Longrightarrow>
      ready r (states (getStripe r (pfKey p))) q \<Longrightarrow> ready r (states s) q"
    and len: "int (length (evictedPending s)) \<le> int (length (evictedPending (getStripe r (pfKey p)))) + of_bool (evicted p)"
    and rest: "\<And>j. j < numStripes \<Longrightarrow> j \<noteq> stripeFor (pfKey p) \<Longrightarrow> \<not> evicted p \<Longrightarrow>
      stripe_ok (pfKey ` set (live batch)) r j (stripes r ! j)"
  shows "inflight (setStripe r (pfKey p) s) (stripes (setStripe r (pfKey p) s)) batch"
proof -
  let ?j = "stripeFor (pfKey p)" and ?r = "setStripe r (pfKey p) s"
  have j: "?j < numStripes" by (rule stripeFor_less)
  have frame: "same_frame r ?r" by (simp add: same_frame_def setStripe_def)
  have l: "length (stripes r) = numStripes" using inv by (simp add: inflight_def)
  have ss: "stripes ?r = (stripes r)[?j := s]" by (simp add: setStripe_def)
  have rd: "ready ?r = ready r" by (intro ext) (simp add: ready_def redisKeyFor_frame [OF frame])
  have bound: "int (length (evictedPending (stripes r ! i))) +
      int (length (filter (\<lambda>p. stripeFor (pfKey p) = i) (carried (p # batch)))) \<le> 2 * stripeCap r" if "i < numStripes" for i
    using inv that by (simp add: inflight_def)
  have okk: "stripe_ok (pfKey ` set (live batch)) r i ((stripes r)[?j := s] ! i)" if "i < numStripes" for i
    using ok rest that l inv by (cases "i = ?j"; cases "evicted p") (auto simp: inflight_def)
  have rdy: "ready r (states ((stripes r)[?j := s] ! stripeFor (pfKey q))) q" if "q \<in> set (live batch)" for q
    using inv keep [OF that] that l j by (cases "stripeFor (pfKey q) = ?j") (auto simp: inflight_def getStripe_def split: if_splits)
  have len': "int (length (evictedPending ((stripes r)[?j := s] ! i))) +
      int (length (filter (\<lambda>p. stripeFor (pfKey p) = i) (carried batch))) \<le> 2 * stripeCap r" if "i < numStripes" for i
    using bound [OF that] len l j by (cases "i = ?j"; cases "evicted p") (auto simp: getStripe_def)
  have dist: "distinct (map pfKey (live batch))" using inv by (auto simp: inflight_def split: if_splits)
  have cap: "stripeCap ?r = stripeCap r" by (simp add: setStripe_def)
  show ?thesis unfolding inflight_def rd stripe_ok_frame [OF frame] ss cap
    using l okk rdy len' dist inv by (simp add: inflight_def)
qed

lemma inflight_stripe_ok:
  "inflight r (stripes r) batch \<Longrightarrow> stripe_ok (pfKey ` set (live batch)) r (stripeFor k) (getStripe r k)"
  using stripeFor_less [of k] by (simp add: inflight_def getStripe_def)

text \<open>An in-flight key leaves the in-flight set once its delta is settled or it is dirty again.\<close>

lemma stripe_ok_discharge:
  assumes "stripe_ok (insert k F) r j s" "settled (states s) k \<or> k \<in> set (dirty s)"
  shows "stripe_ok F r j s"
  using assms unfolding stripe_ok_def settled_def map_ok_def by (fastforce simp: map_of_eq_Some_iff)

lemma stripe_ok_elsewhere:
  assumes "stripe_ok (insert k F) r j s" "stripeFor k \<noteq> j"
  shows "stripe_ok F r j s"
  using assms by (fastforce simp: stripe_ok_def)

lemma map_ok_mem: "map_ok m \<Longrightarrow> (k, v) \<in> set m \<longleftrightarrow> map_of m k = Some v"
  by (simp add: map_ok_def)

lemma stripe_ok_alt:
  "stripe_ok F r j s \<longleftrightarrow> map_ok (states s) \<and>
     (\<forall>k st. map_of (states s) k = Some st \<longrightarrow>
        stripeFor k = j \<and> 0 \<le> localDelta st \<and> (localDelta st \<noteq> 0 \<longrightarrow> k \<in> set (dirty s) \<union> F)) \<and>
     (\<forall>p \<in> set (evictedPending s). evicted p \<and> stripeFor (pfKey p) = j \<and> 0 \<le> flushN p) \<and>
     int (length (evictedPending s)) \<le> 2 * stripeCap r"
  unfolding stripe_ok_def by (cases "map_ok (states s)") (auto simp: map_ok_mem [symmetric])

lemma stripe_ok_write:
  assumes "stripe_ok F r j s" "stripeFor k = j" "0 \<le> localDelta st" "localDelta st \<noteq> 0 \<longrightarrow> k \<in> set d \<union> F" "set (dirty s) \<subseteq> set d"
  shows "stripe_ok F r j (s\<lparr>states := AList.update k st (states s), dirty := d\<rparr>)"
  using assms by (auto simp: stripe_ok_alt)

lemma stripe_ok_mark:
  assumes "stripe_ok F r j s" "set (dirty s) \<subseteq> set d"
  shows "stripe_ok F r j (s\<lparr>dirty := d\<rparr>)"
  using assms by (fastforce simp: stripe_ok_alt)

lemma stripeOwed_dirty [simp]: "stripeOwed r rk (s\<lparr>dirty := d\<rparr>) = stripeOwed r rk s"
  by (simp add: stripeOwed_def)

lemma stripeOwed_write:
  "map_ok (states s) \<Longrightarrow> stripeOwed r rk (s\<lparr>states := AList.update k st (states s), dirty := d\<rparr>) =
    stripeOwed r rk s + entryOwed r rk (k, st) -
      (case map_of (states s) k of Some u \<Rightarrow> entryOwed r rk (k, u) | None \<Rightarrow> 0)"
  by (simp add: stripeOwed_def alist_sum_update)

lemma set_mapAdd [simp]: "set (mapAdd k d) = insert k (set d)"
  by (auto simp: mapAdd_def)

lemma setStripe_getStripe [simp]: "length (stripes r) = numStripes \<Longrightarrow> setStripe r k (getStripe r k) = r"
  by (simp add: setStripe_def getStripe_def)

lemma owed_setStripe:
  assumes "length (stripes r) = numStripes"
  shows "owed (setStripe r k s) rk = owed r rk - stripeOwed r rk (getStripe r k) + stripeOwed r rk s"
  using owed_set_stripe [of "stripeFor k" r s rk] stripeFor_less [of k] assms by (simp add: setStripe_def getStripe_def)

lemma same_frame_setStripe [simp]: "same_frame r (setStripe r k s)"
  by (simp add: same_frame_def setStripe_def)

text \<open>The queues of the stripes: the work the limiter knows of.\<close>

definition queues :: "async \<Rightarrow> (string list \<times> pendingFlush list) list" where
  "queues r = map (\<lambda>s. (dirty s, evictedPending s)) (stripes r)"

lemma queues_setStripe:
  "length (stripes r) = numStripes \<Longrightarrow> dirty s = dirty (getStripe r k) \<Longrightarrow> evictedPending s = evictedPending (getStripe r k) \<Longrightarrow>
    queues (setStripe r k s) = queues r"
  using list_update_id [of "queues r" "stripeFor k"] stripeFor_less [of k]
  by (simp add: queues_def setStripe_def getStripe_def map_update)

lemma applyOne_live_ret:
  assumes inv: "inflight r (stripes r) (p # batch)" and p: "\<not> evicted p"
    and run: "applyOne r p (Ret v) = (r', mor, created, err)"
  shows "inflight r' (stripes r') batch" "owed r' rk + (if pfRedisKey p = rk then flushN p else 0) = owed r rk"
    "queues r' = queues r" "same_frame r r'" "\<not> err"
proof -
  let ?s = "getStripe r (pfKey p)"
  have l: "length (stripes r) = numStripes" using inv by (simp add: inflight_def)
  obtain st where st: "map_of (states ?s) (pfKey p) = Some st" "lsWindowStart st = pfWs p" "localDelta st = flushN p"
    and rk: "pfRedisKey p = redisKeyFor r (pfKey p) (pfWs p)"
    using inv p by (auto simp: inflight_def ready_def getStripe_def)
  define st' where "st' = (let st1 = st\<lparr>globalBase := v, localDelta := 0\<rparr> in
    if fLimit (apolicy r) \<le> v then st1\<lparr>blocked := True\<rparr> else st1)"
  have st': "localDelta st' = 0" "lsWindowStart st' = pfWs p" by (simp_all add: st'_def Let_def st)
  define s' where "s' = ?s\<lparr>states := AList.update (pfKey p) st' (states ?s), dirty := dirty ?s\<rparr>"
  have r': "r' = setStripe r (pfKey p) s'" "\<not> err"
    using run p st by (auto simp: applyOne_def Let_def s'_def st'_def split: if_splits)
  have ok: "stripe_ok (insert (pfKey p) (pfKey ` set (live batch))) r (stripeFor (pfKey p)) ?s"
    using inflight_stripe_ok [OF inv, of "pfKey p"] p by simp
  have ok': "stripe_ok (pfKey ` set (live batch)) r (stripeFor (pfKey p)) s'"
  proof (rule stripe_ok_discharge)
    show "stripe_ok (insert (pfKey p) (pfKey ` set (live batch))) r (stripeFor (pfKey p)) s'"
      unfolding s'_def by (rule stripe_ok_write [OF ok]) (simp_all add: st')
  qed (simp add: s'_def settled_def st')
  have key: "pfKey q \<noteq> pfKey p" if "q \<in> set (live batch)" for q
    using inv p imageI [OF that, of pfKey] by (auto simp: inflight_def)
  show "inflight r' (stripes r') batch" unfolding r'
  proof (rule inflight_write [OF inv ok'])
    show "ready r (states s') q" if "q \<in> set (live batch)" "ready r (states ?s) q" for q
      using that key [OF that(1)] by (simp add: ready_def s'_def)
    show "stripe_ok (pfKey ` set (live batch)) r j (stripes r ! j)" if "j < numStripes" "j \<noteq> stripeFor (pfKey p)" for j
      using inv p that stripe_ok_elsewhere by (auto simp: inflight_def)
  qed (simp add: s'_def)
  have mok: "map_ok (states ?s)" using ok by (simp add: stripe_ok_def)
  show "owed r' rk + (if pfRedisKey p = rk then flushN p else 0) = owed r rk"
    unfolding r' owed_setStripe [OF l] s'_def stripeOwed_write [OF mok] using st st' rk by (simp add: entryOwed_def)
  show "queues r' = queues r" unfolding r' by (rule queues_setStripe [OF l]) (simp_all add: s'_def)
  show "same_frame r r'" "\<not> err" using r' by simp_all
qed

lemma applyOne_carried_ret:
  assumes inv: "inflight r (stripes r) (p # batch)" and p: "evicted p"
    and run: "applyOne r p (Ret v) = (r', mor, created, err)"
  shows "inflight r' (stripes r') batch" "owed r' rk = owed r rk" "\<not> mor \<longrightarrow> queues r' = queues r" "same_frame r r'" "\<not> err"
proof -
  let ?s = "getStripe r (pfKey p)" and ?F = "pfKey ` set (live batch)"
  have l: "length (stripes r) = numStripes" using inv by (simp add: inflight_def)
  have ok: "stripe_ok ?F r (stripeFor (pfKey p)) ?s" using inflight_stripe_ok [OF inv, of "pfKey p"] p by simp
  have mok: "map_ok (states ?s)" using ok by (simp add: stripe_ok_def)
  have "\<exists>s'. r' = setStripe r (pfKey p) s' \<and> stripe_ok ?F r (stripeFor (pfKey p)) s' \<and>
      (\<forall>q. ready r (states ?s) q \<longrightarrow> ready r (states s') q) \<and> evictedPending s' = evictedPending ?s \<and>
      stripeOwed r rk s' = stripeOwed r rk ?s \<and> (\<not> mor \<longrightarrow> dirty s' = dirty ?s)"
  proof (cases "\<exists>st. map_of (states ?s) (pfKey p) = Some st \<and> lsWindowStart st = pfWs p")
    case True
    then obtain st where st: "map_of (states ?s) (pfKey p) = Some st" "lsWindowStart st = pfWs p" by blast
    define st' where "st' = (let st1 = st\<lparr>globalBase := v\<rparr> in if fLimit (apolicy r) \<le> v then st1\<lparr>blocked := True\<rparr> else st1)"
    have st': "localDelta st' = localDelta st" "lsWindowStart st' = lsWindowStart st" by (simp_all add: st'_def Let_def)
    define d where "d = (if localDelta st' \<noteq> 0 then mapAdd (pfKey p) (dirty ?s) else dirty ?s)"
    define s' where "s' = ?s\<lparr>states := AList.update (pfKey p) st' (states ?s), dirty := d\<rparr>"
    have "r' = setStripe r (pfKey p) s'" "mor \<longleftrightarrow> localDelta st' \<noteq> 0"
      using run p st by (auto simp: applyOne_def Let_def s'_def st'_def d_def split: if_splits)
    moreover have "stripe_ok ?F r (stripeFor (pfKey p)) s'"
      unfolding s'_def
    proof (rule stripe_ok_write [OF ok])
      show "0 \<le> localDelta st'" using ok st(1) unfolding stripe_ok_alt st'(1) by blast
    qed (auto simp: d_def)
    moreover have "ready r (states s') q" if "ready r (states ?s) q" for q
      using that st st' by (cases "pfKey q = pfKey p") (simp_all add: ready_def s'_def)
    moreover have "stripeOwed r rk s' = stripeOwed r rk ?s"
      unfolding s'_def stripeOwed_write [OF mok] using st st' by (simp add: entryOwed_def)
    ultimately show ?thesis by (intro exI [of _ s']) (auto simp: s'_def d_def)
  next
    case False
    then have "r' = r" using run p by (cases "map_of (states ?s) (pfKey p)") (auto simp: applyOne_def Let_def)
    then show ?thesis using ok l by (intro exI [of _ ?s]) simp
  qed
  then obtain s' where s': "r' = setStripe r (pfKey p) s'" "stripe_ok ?F r (stripeFor (pfKey p)) s'"
    "\<And>q. ready r (states ?s) q \<Longrightarrow> ready r (states s') q" "evictedPending s' = evictedPending ?s"
    "stripeOwed r rk s' = stripeOwed r rk ?s" "\<not> mor \<Longrightarrow> dirty s' = dirty ?s" by blast
  show "inflight r' (stripes r') batch" unfolding s'(1)
    by (rule inflight_write [OF inv s'(2)]) (use s' p in auto)
  show "owed r' rk = owed r rk" unfolding s'(1) owed_setStripe [OF l] using s'(5) by simp
  show "\<not> mor \<longrightarrow> queues r' = queues r" using s' by (auto intro: queues_setStripe [OF l])
  show "same_frame r r'" using s'(1) by simp
  show "\<not> err" using run by (auto simp: applyOne_def Let_def split: option.splits if_splits)
qed

lemma applyOne_fail:
  assumes inv: "inflight r (stripes r) (p # batch)" and res: "\<And>v. res \<noteq> Ret v"
    and run: "applyOne r p res = (r', mor, created, err)"
  shows "inflight r' (stripes r') batch" "owed r' rk = owed r rk + (if evicted p \<and> pfRedisKey p = rk then flushN p else 0)"
    "same_frame r r'" "mor" "err"
proof -
  let ?s = "getStripe r (pfKey p)" and ?F = "pfKey ` set (live batch)" and ?j = "stripeFor (pfKey p)"
  have l: "length (stripes r) = numStripes" using inv by (simp add: inflight_def)
  have ok: "stripe_ok (pfKey ` set (live (p # batch))) r ?j ?s" by (rule inflight_stripe_ok [OF inv])
  define s' where "s' = (if evicted p then ?s\<lparr>evictedPending := evictedPending ?s @ [p]\<rparr> else ?s\<lparr>dirty := mapAdd (pfKey p) (dirty ?s)\<rparr>)"
  have "int (length (evictedPending ?s)) + int (length (filter (\<lambda>q. stripeFor (pfKey q) = ?j) (carried (p # batch)))) \<le> 2 * stripeCap r"
    using inv stripeFor_less [of "pfKey p"] by (simp add: inflight_def getStripe_def)
  then have room: "int (length (evictedPending ?s)) < 2 * stripeCap r" if "evicted p" using that by auto
  have st: "\<exists>st. map_of (states ?s) (pfKey p) = Some st \<and> lsWindowStart st = pfWs p" if "\<not> evicted p"
    using inv that by (auto simp: inflight_def ready_def getStripe_def)
  have r': "r' = setStripe r (pfKey p) s'" and flags: mor err
    using run res room st by (auto simp: applyOne_def Let_def s'_def split: outcome.splits)
  have ok': "stripe_ok ?F r ?j s'"
  proof (cases "evicted p")
    case True
    moreover have "0 \<le> flushN p" using inv by (simp add: inflight_def)
    ultimately show ?thesis using ok room by (auto simp: s'_def stripe_ok_def)
  next
    case False
    then have "stripe_ok (insert (pfKey p) ?F) r ?j s'" using ok by (auto simp: s'_def intro: stripe_ok_mark)
    then show ?thesis by (rule stripe_ok_discharge) (simp add: s'_def False)
  qed
  show "inflight r' (stripes r') batch" unfolding r'
  proof (rule inflight_write [OF inv ok'])
    show "stripe_ok ?F r j (stripes r ! j)" if "j < numStripes" "j \<noteq> ?j" "\<not> evicted p" for j
      using inv that stripe_ok_elsewhere by (auto simp: inflight_def)
  qed (auto simp: s'_def)
  show "owed r' rk = owed r rk + (if evicted p \<and> pfRedisKey p = rk then flushN p else 0)"
    unfolding r' owed_setStripe [OF l] by (simp add: s'_def stripeOwed_def)
  show "same_frame r r'" "mor" "err" using r' flags by simp_all
qed

lemma applyResults_spec:
  assumes "inflight r (stripes r) (map fst xs)" "applyResultsLocked r xs = (r', mor, creators, err)"
  shows "async_inv r' \<and> same_frame r r' \<and> owed r' rk + landed rk xs = owed r rk + flushOwed rk (carried (map fst xs)) \<and>
    (\<not> mor \<longrightarrow> queues r' = queues r) \<and> (err \<longrightarrow> mor) \<and> (err \<longleftrightarrow> (\<exists>x \<in> set xs. \<forall>v. snd x \<noteq> Ret v))"
  using assms
proof (induction xs arbitrary: r r' mor creators err)
  case Nil
  then show ?case by (simp add: inflight_def async_inv_def)
next
  case (Cons x xs)
  obtain p res where x: "x = (p, res)" by (cases x)
  obtain r1 m1 c1 e1 where one: "applyOne r p res = (r1, m1, c1, e1)" by (cases "applyOne r p res")
  obtain m2 c2 e2 where rest: "applyResultsLocked r1 xs = (r', m2, c2, e2)"
    and flags: "mor = (m1 \<or> m2)" "err = (e1 \<or> e2)"
    using Cons.prems(2) by (auto simp: x one Let_def split: prod.splits)
  have inv: "inflight r (stripes r) (p # map fst xs)" using Cons.prems(1) by (simp add: x)
  have "inflight r1 (stripes r1) (map fst xs) \<and> same_frame r r1 \<and>
      owed r1 rk + landed rk [(p, res)] = owed r rk + flushOwed rk (carried [p]) \<and>
      (\<not> m1 \<longrightarrow> queues r1 = queues r) \<and> (e1 \<longrightarrow> m1) \<and> (e1 \<longleftrightarrow> (\<forall>v. res \<noteq> Ret v))"
  proof (cases "\<exists>v. res = Ret v")
    case True
    then obtain v where v: "res = Ret v" by blast
    show ?thesis
    proof (cases "evicted p")
      case True
      note facts = applyOne_carried_ret [OF inv True one [unfolded v]]
      show ?thesis using facts(1,3,4,5) facts(2) [of rk] by (simp add: v True)
    next
      case False
      note facts = applyOne_live_ret [OF inv False one [unfolded v]]
      show ?thesis using facts(1,3,4,5) facts(2) [of rk] by (simp add: v False)
    qed
  next
    case False
    note facts = applyOne_fail [OF inv _ one]
    show ?thesis using facts(1,3,4,5) facts(2) [of rk] False by (cases res) auto
  qed
  then have one': "inflight r1 (stripes r1) (map fst xs)" "same_frame r r1"
    "owed r1 rk + landed rk [(p, res)] = owed r rk + flushOwed rk (carried [p])"
    "\<not> m1 \<longrightarrow> queues r1 = queues r" "e1 \<longrightarrow> m1" "e1 \<longleftrightarrow> (\<forall>v. res \<noteq> Ret v)" by blast+
  note IH = Cons.IH [OF one'(1) rest]
  have "same_frame r r'" using one'(2) IH same_frame_trans by blast
  moreover have "owed r' rk + landed rk (x # xs) = owed r rk + flushOwed rk (carried (map fst (x # xs)))"
    using IH one'(3) by (simp add: x split: if_splits)
  ultimately show ?case using IH one'(4-6) flags by (simp add: x)
qed

section \<open>The pipeline\<close>

text \<open>What INCRBY is documented to do, for a pipeline whose amounts are not negative: \<open>cnt R rk\<close> is the counter of a
  key on the server. A pipeline without an error gives one reply for each command and has added every increment; one
  with an error may have added any of them (a reply can be lost, and a command can fail alone). No counter expires
  meanwhile. Others may increment too, and the client may send a pipeline again.\<close>

definition incr_law :: "('r \<Rightarrow> (string \<times> int) list \<Rightarrow> 'r \<times> int list \<times> string option) \<Rightarrow> ('r \<Rightarrow> string \<Rightarrow> int) \<Rightarrow> bool" where
  "incr_law pipe cnt \<longleftrightarrow> (\<forall>R cmds R' vals err. (\<forall>c \<in> set cmds. 0 \<le> snd c) \<longrightarrow> pipe R cmds = (R', vals, err) \<longrightarrow>
     (err = None \<longrightarrow> length vals = length cmds \<and>
        (\<forall>rk. cnt R rk + sum_list (map snd (filter (\<lambda>c. fst c = rk) cmds)) \<le> cnt R' rk)) \<and>
     (err \<noteq> None \<longrightarrow> (\<forall>rk. cnt R rk \<le> cnt R' rk)))"

text \<open>The other bound: no command runs twice and nobody else increments.\<close>

definition once_law :: "('r \<Rightarrow> (string \<times> int) list \<Rightarrow> 'r \<times> int list \<times> string option) \<Rightarrow> ('r \<Rightarrow> string \<Rightarrow> int) \<Rightarrow> bool" where
  "once_law pipe cnt \<longleftrightarrow> (\<forall>R cmds rk. (\<forall>c \<in> set cmds. 0 \<le> snd c) \<longrightarrow>
     cnt (fst (pipe R cmds)) rk \<le> cnt R rk + sum_list (map snd (filter (\<lambda>c. fst c = rk) cmds)))"

lemma landed_append [simp]: "landed rk (xs @ ys) = landed rk xs + landed rk ys"
  by (simp add: landed_def)

lemma landed_fail [simp]: "landed rk (zip ps (map (\<lambda>_. Fail m) ps)) = 0"
  by (induction ps) auto

lemma landed_ret:
  "length vals = length ps \<Longrightarrow> landed rk (zip ps (map Ret vals)) = flushOwed rk ps"
  by (induction ps vals rule: list_induct2') auto

lemma incrChunks_abort:
  "incrChunks pipe step (Some m) R batch = (R, map (\<lambda>_. Fail m) batch)"
proof (induction "length batch" arbitrary: batch rule: less_induct)
  case less
  show ?case
  proof (cases "batch = []")
    case False
    then have "incrChunks pipe step (Some m) R (drop (max 1 step) batch) = (R, map (\<lambda>_. Fail m) (drop (max 1 step) batch))"
      by (intro less) (auto simp: max_def)
    then show ?thesis using False
      by (subst incrChunks.simps) (simp add: Let_def map_append [symmetric] del: map_append)
  qed (subst incrChunks.simps, simp)
qed

lemma incrChunks_run:
  assumes "batch \<noteq> []" "pipe R (map (\<lambda>p. (pfRedisKey p, flushN p)) (take (max 1 step) batch)) = (R1, vals, err)"
  shows "incrChunks pipe step None R batch =
    (let (R', res) = incrChunks pipe step err R1 (drop (max 1 step) batch)
     in (R', (case err of None \<Rightarrow> map Ret vals | Some m \<Rightarrow> map (\<lambda>_. Fail m) (take (max 1 step) batch)) @ res))"
  using assms by (subst incrChunks.simps) (simp add: Let_def del: One_nat_def)

lemma flushOwed_append: "flushOwed rk (ps @ qs) = flushOwed rk ps + flushOwed rk qs"
  by (simp add: flushOwed_def)

lemma flushOwed_nonneg: "\<forall>p \<in> set ps. 0 \<le> flushN p \<Longrightarrow> 0 \<le> flushOwed rk ps"
  by (auto simp: flushOwed_def intro!: sum_list_nonneg)

lemma incrChunks_spec:
  assumes law: "incr_law pipe cnt" and amounts: "\<forall>p \<in> set batch. 0 \<le> flushN p" and "incrChunks pipe step None R batch = (R', results)"
  shows "length results = length batch \<and> cnt R rk + landed rk (zip batch results) \<le> cnt R' rk \<and>
    (once_law pipe cnt \<longrightarrow> cnt R' rk \<le> cnt R rk + flushOwed rk batch)"
  using assms(2,3)
proof (induction "length batch" arbitrary: R batch R' results rule: less_induct)
  case less
  show ?case
  proof (cases "batch = []")
    case True
    then show ?thesis using less.prems by (subst (asm) incrChunks.simps) (simp add: flushOwed_def)
  next
    case False
    define chunk where "chunk = take (max 1 step) batch"
    define rest where "rest = drop (max 1 step) batch"
    have split: "batch = chunk @ rest" by (simp add: chunk_def rest_def)
    have amounts: "\<forall>p \<in> set chunk. 0 \<le> flushN p" "\<forall>p \<in> set rest. 0 \<le> flushN p" using less.prems(1) split by auto
    define cmds where "cmds = map (\<lambda>p. (pfRedisKey p, flushN p)) chunk"
    have cmds: "\<forall>c \<in> set cmds. 0 \<le> snd c" "length cmds = length chunk"
      "sum_list (map snd (filter (\<lambda>c. fst c = rk) cmds)) = flushOwed rk chunk"
      using amounts(1) by (auto simp: cmds_def flushOwed_def filter_map comp_def)
    obtain R1 vals err where p: "pipe R cmds = (R1, vals, err)" by (cases "pipe R cmds")
    have law': "err = None \<Longrightarrow> length vals = length chunk \<and> cnt R rk + flushOwed rk chunk \<le> cnt R1 rk"
      "err \<noteq> None \<Longrightarrow> cnt R rk \<le> cnt R1 rk"
    proof -
      have one: "\<And>R' vals' err'. pipe R cmds = (R', vals', err') \<Longrightarrow> (err' = None \<longrightarrow> length vals' = length cmds \<and>
          (\<forall>rk. cnt R rk + sum_list (map snd (filter (\<lambda>c. fst c = rk) cmds)) \<le> cnt R' rk)) \<and> (err' \<noteq> None \<longrightarrow> (\<forall>rk. cnt R rk \<le> cnt R' rk))"
        using law cmds(1) unfolding incr_law_def by blast
      show "err = None \<Longrightarrow> length vals = length chunk \<and> cnt R rk + flushOwed rk chunk \<le> cnt R1 rk"
        using one [OF p] cmds(2,3) by metis
      show "err \<noteq> None \<Longrightarrow> cnt R rk \<le> cnt R1 rk" using one [OF p] by blast
    qed
    have once: "once_law pipe cnt \<longrightarrow> cnt R1 rk \<le> cnt R rk + flushOwed rk chunk"
    proof
      assume "once_law pipe cnt"
      then have "cnt (fst (pipe R cmds)) rk \<le> cnt R rk + sum_list (map snd (filter (\<lambda>c. fst c = rk) cmds))"
        using cmds(1) unfolding once_law_def by blast
      then show "cnt R1 rk \<le> cnt R rk + flushOwed rk chunk" using p cmds(3) by simp
    qed
    obtain res where run: "incrChunks pipe step err R1 rest = (R', res)"
      and results: "results = (case err of None \<Rightarrow> map Ret vals | Some m \<Rightarrow> map (\<lambda>_. Fail m) chunk) @ res"
      using less.prems incrChunks_run [OF False, of pipe R step R1 vals err] p
      unfolding cmds_def chunk_def rest_def by (auto simp del: One_nat_def split: prod.splits)
    show ?thesis
    proof (cases err)
      case None
      have "length rest < length batch" using False by (auto simp: rest_def max_def)
      then have "length res = length rest \<and> cnt R1 rk + landed rk (zip rest res) \<le> cnt R' rk \<and>
          (once_law pipe cnt \<longrightarrow> cnt R' rk \<le> cnt R1 rk + flushOwed rk rest)"
        using less.hyps [OF _ amounts(2)] run None by simp
      then show ?thesis using law'(1) None once by (auto simp: split results landed_ret flushOwed_append)
    next
      case (Some m)
      have "0 \<le> flushOwed rk rest" using amounts(2) by (rule flushOwed_nonneg)
      then show ?thesis using law'(2) run Some once by (auto simp: incrChunks_abort split results flushOwed_append)
    qed
  qed
qed

lemma execIncrBatch_spec:
  "incr_law pipe cnt \<Longrightarrow> \<forall>p \<in> set batch. 0 \<le> flushN p \<Longrightarrow> execIncrBatch pipe R batch c = (R', results) \<Longrightarrow>
    length results = length batch \<and> cnt R rk + landed rk (zip batch results) \<le> cnt R' rk \<and>
    (once_law pipe cnt \<longrightarrow> cnt R' rk \<le> cnt R rk + flushOwed rk batch)"
  unfolding execIncrBatch_def Let_def by (rule incrChunks_spec)

section \<open>A whole flush\<close>

lemma owed_clean:
  assumes "async_inv r" "\<forall>q \<in> set (queues r). q = ([], [])"
  shows "owed r rk = 0"
proof -
  have "stripeOwed r rk s = 0" if mem: "s \<in> set (stripes r)" for s
  proof -
    have len: "length (stripes r) = numStripes" using assms(1) by (simp add: async_inv_def)
    obtain j where j: "j < numStripes" "s = stripes r ! j"
      using mem [unfolded in_set_conv_nth len] by blast
    have q: "dirty s = []" "evictedPending s = []" using assms(2) mem by (auto simp: queues_def)
    have "stripe_ok {} r j s" using assms(1) j by (simp add: async_inv_def)
    then have "\<forall>x \<in> set (states s). entryOwed r rk x = 0" using q by (auto simp: stripe_ok_def entryOwed_def)
    then have "sum_list (map (entryOwed r rk) (states s)) = 0"
      by (metis map_eq_conv sum_list_0)
    then show ?thesis using q by (simp add: stripeOwed_def)
  qed
  then show ?thesis unfolding owed_def by (metis map_eq_conv sum_list_0)
qed

lemma noteFlushOutcome_frame [simp]: "same_frame r (noteFlushOutcomeLocked r b)"
    "stripes (noteFlushOutcomeLocked r b) = stripes r"
  by (simp_all add: noteFlushOutcomeLocked_def same_frame_def Let_def)

lemma same_stripes:
  assumes "same_frame r r'" "stripes r' = stripes r"
  shows "owed r' rk = owed r rk" "async_inv r' = async_inv r" "queues r' = queues r"
  unfolding owed_def async_inv_def queues_def stripeOwed_frame [OF assms(1)] stripe_ok_frame [OF assms(1)]
  using assms by simp_all

lemmas noteFlushOutcome_same [simp] = same_stripes [OF noteFlushOutcome_frame]

lemma inflight_frame:
  assumes "same_frame r r'"
  shows "inflight r' = inflight r"
  unfolding inflight_def ready_def stripe_ok_frame [OF assms] redisKeyFor_frame [OF assms]
  using assms by (simp add: same_frame_def)

lemma owed_nonneg:
  assumes "async_inv r"
  shows "0 \<le> owed r rk"
proof -
  have "0 \<le> stripeOwed r rk (stripes r ! j)" if "j < numStripes" for j
  proof -
    have ok: "stripe_ok {} r j (stripes r ! j)" using assms that by (simp add: async_inv_def)
    then have "0 \<le> flushOwed rk (evictedPending (stripes r ! j))" by (auto simp: stripe_ok_def intro!: flushOwed_nonneg)
    moreover have "0 \<le> sum_list (map (entryOwed r rk) (states (stripes r ! j)))"
      using ok by (intro sum_list_nonneg) (auto simp: stripe_ok_def entryOwed_def)
    ultimately show ?thesis by (simp add: stripeOwed_def)
  qed
  then show ?thesis using assms unfolding owed_def
    by (intro sum_list_nonneg) (auto simp: async_inv_def in_set_conv_nth)
qed

text \<open>A batch holds no more than the limiter owes.\<close>

lemma batch_owed:
  assumes "inflight r (stripes r) batch"
  shows "flushOwed rk batch \<le> owed r rk + flushOwed rk (carried batch)"
proof -
  let ?xs = "zip batch (map Ret (replicate (length batch) 0))"
  obtain r' mor cr err where ap: "applyResultsLocked r ?xs = (r', mor, cr, err)" by (metis prod.collapse)
  have "map fst ?xs = batch" by simp
  then have "async_inv r' \<and> owed r' rk + landed rk ?xs = owed r rk + flushOwed rk (carried batch)"
    using applyResults_spec [OF _ ap, of rk] assms by simp
  then show ?thesis using owed_nonneg [of r' rk] landed_ret [of "replicate (length batch) 0" batch rk] by simp
qed

lemma applyResults_streak: "applyResultsLocked r xs = (r', mor, cr, err) \<Longrightarrow> failStreak r' = failStreak r"
proof (induction xs arbitrary: r r' mor cr err)
  case (Cons x xs)
  obtain p res where x: "x = (p, res)" by (cases x)
  obtain r1 m1 c1 e1 where one: "applyOne r p res = (r1, m1, c1, e1)" by (cases "applyOne r p res")
  obtain m2 c2 e2 where rest: "applyResultsLocked r1 xs = (r', m2, c2, e2)"
    using Cons.prems by (auto simp: x one Let_def split: prod.splits)
  have "failStreak r1 = failStreak r"
    using one by (auto simp: applyOne_def Let_def setStripe_def split: outcome.splits option.splits if_splits)
  then show ?case using Cons.IH [OF rest] by simp
qed simp

lemma landed_nonneg: "\<forall>p \<in> set ps. 0 \<le> flushN p \<Longrightarrow> 0 \<le> landed rk (zip ps rs)"
  by (induction ps rs rule: list_induct2') (auto split: outcome.splits)

lemma landed_all: "length rs = length ps \<Longrightarrow> \<forall>x \<in> set (zip ps rs). \<exists>v. snd x = Ret v \<Longrightarrow> landed rk (zip ps rs) = flushOwed rk ps"
  by (induction ps rs rule: list_induct2') (auto simp: flushOwed_def)

lemma flushPending_spec:
  assumes law: "incr_law pipe cnt" and inv: "async_inv r"
    and ords: "\<forall>j < numStripes. set (dirty (stripes r ! j)) \<subseteq> set (ords j)"
    and run: "flushPending pipe ping e ords R r = (R', r', exps, mor)"
  shows "async_inv r' \<and> same_frame r r' \<and> cnt R rk + owed r rk \<le> cnt R' rk + owed r' rk \<and> (\<not> mor \<longrightarrow> owed r' rk = 0) \<and>
    (once_law pipe cnt \<longrightarrow> cnt R' rk + owed r' rk \<le> cnt R rk + owed r rk + (if failStreak r' = failStreak r + 1 then owed r rk else 0))"
proof -
  obtain r1 batch m1 where snap: "snapshotPendingLocked r (clock e) ords (MaxPipelineCommands (cfg r)) = (r1, batch, m1)"
    by (cases "snapshotPendingLocked r (clock e) ords (MaxPipelineCommands (cfg r))")
  note S = snapshot_spec [OF snap inv]
  have inv1: "inflight r1 (stripes r1) batch" using S(2) inflight_frame [OF S(1)] by simp
  have len: "length (stripes r1) = numStripes" using inv1 by (simp add: inflight_def)
  have clean: "\<forall>q \<in> set (queues r1). q = ([], [])" if "\<not> m1"
    using S(4) [OF that ords] len by (auto simp: queues_def in_set_conv_nth)
  note nonneg = owed_nonneg [OF inv, of rk]
  show ?thesis
  proof (cases "batch = []")
    case True
    have inv1': "async_inv r1" using inv1 True by (simp add: inflight_def async_inv_def)
    have owed1: "owed r1 rk = owed r rk" using S(3) [of rk] True by simp
    have eqs: "R' = R" "mor = m1" "same_frame r1 r'" "stripes r' = stripes r1"
      using run snap True by (auto simp: flushPending_def probeRedisLocked_def split: if_splits)
    have "owed r' rk = owed r rk" "async_inv r'" using same_stripes [OF eqs(3,4)] inv1' owed1 by simp_all
    moreover have "owed r rk = 0" if "\<not> mor" using owed_clean [OF inv1' clean] that eqs(2) owed1 by simp
    ultimately show ?thesis using eqs S(1) same_frame_trans nonneg by auto
  next
    case False
    obtain results where ex: "execIncrBatch pipe R batch 0 = (R', results)"
      using run snap False by (auto simp: flushPending_def split: prod.splits)
    obtain r2 m2 creators err where ap: "applyResultsLocked r1 (zip batch results) = (r2, m2, creators, err)"
      by (cases "applyResultsLocked r1 (zip batch results)")
    have r': "r' = noteFlushOutcomeLocked r2 err" "mor \<longleftrightarrow> m1 \<or> m2"
      using run snap False ex ap by (auto simp: flushPending_def)
    have amounts: "\<forall>p \<in> set batch. 0 \<le> flushN p" using inv1 by (simp add: inflight_def)
    note E = execIncrBatch_spec [OF law amounts ex, of rk]
    have fst: "map fst (zip batch results) = batch" using E by simp
    then have A: "async_inv r2 \<and> same_frame r1 r2 \<and>
        owed r2 rk + landed rk (zip batch results) = owed r1 rk + flushOwed rk (carried batch) \<and>
        (\<not> m2 \<longrightarrow> queues r2 = queues r1) \<and> (err \<longleftrightarrow> (\<exists>x \<in> set (zip batch results). \<forall>v. snd x \<noteq> Ret v))"
      using applyResults_spec [OF _ ap, of rk] inv1 by simp
    have clear: "owed r2 rk = 0" if "\<not> mor" using owed_clean [of r2] A clean r'(2) that by simp
    have frame: "same_frame r r'" using S(1) A r'(1) same_frame_trans noteFlushOutcome_frame(1) by metis
    have lower: "cnt R rk + owed r rk \<le> cnt R' rk + owed r2 rk" using E A S(3) [of rk] by simp
    have upper: "cnt R' rk + owed r2 rk \<le> cnt R rk + owed r rk + (if failStreak r' = failStreak r + 1 then owed r rk else 0)"
      if "once_law pipe cnt"
    proof (cases err)
      case True
      have "failStreak r1 = failStreak r" using snap by (auto simp: snapshotPendingLocked_def split: prod.splits)
      moreover have "failStreak r2 = failStreak r1" using applyResults_streak [OF ap] .
      ultimately have "failStreak r' = failStreak r + 1" using r'(1) True by (simp add: noteFlushOutcomeLocked_def Let_def)
      moreover have "owed r2 rk \<le> owed r rk" using A landed_nonneg [OF amounts, of rk results] S(3) [of rk] by simp
      moreover have "flushOwed rk batch \<le> owed r rk" using batch_owed [OF inv1, of rk] S(3) [of rk] by simp
      ultimately show ?thesis using E that by simp
    next
      case False
      then have "landed rk (zip batch results) = flushOwed rk batch" using A E landed_all [of results batch rk] by blast
      then show ?thesis using E A S(3) [of rk] that nonneg by simp
    qed
    show ?thesis using A r' frame lower upper clear by simp
  qed
qed

section \<open>Eviction and the check\<close>

lemma pickVictim_mem:
  "pickVictim m ks scanned v = (vk, Some vst) \<Longrightarrow> (\<And>k st. v = (k, Some st) \<Longrightarrow> map_of m k = Some st) \<Longrightarrow> map_of m vk = Some vst"
  by (induction m ks scanned v rule: pickVictim.induct) (auto simp: Let_def split: option.splits if_splits)

lemma evictLocked_spec:
  assumes "stripe_ok {} r j s" "map_of (states s) k = Some st" "int (length (evictedPending s)) < 2 * stripeCap r"
  shows "stripe_ok {} r j (evictLocked r s k st)" "stripeOwed r rk (evictLocked r s k st) = stripeOwed r rk s"
    "map_of (states (evictLocked r s k st)) k' = (if k' = k then None else map_of (states s) k')"
proof -
  have st: "0 \<le> localDelta st" "stripeFor k = j" "map_ok (states s)" using assms(1,2) by (auto simp: stripe_ok_alt)
  show "stripe_ok {} r j (evictLocked r s k st)" using assms st(2) by (auto simp: stripe_ok_alt evictLocked_def Let_def)
  show "stripeOwed r rk (evictLocked r s k st) = stripeOwed r rk s"
    using assms(2,3) st by (simp add: stripeOwed_def evictLocked_def Let_def alist_sum_delete entryOwed_def)
  show "map_of (states (evictLocked r s k st)) k' = (if k' = k then None else map_of (states s) k')"
    by (simp add: evictLocked_def Let_def)
qed

lemma ensureCapacity_spec:
  assumes ok: "stripe_ok {} r j s" and room: "int (length (evictedPending s)) < 2 * stripeCap r"
  shows "stripe_ok {} r j (ensureCapacityLocked r s now ord) \<and>
    stripeOwed r rk (ensureCapacityLocked r s now ord) = stripeOwed r rk s \<and>
    (map_of (states s) k = None \<longrightarrow> map_of (states (ensureCapacityLocked r s now ord)) k = None)"
proof -
  define s1 where "s1 = evictExpiredLocked r s now"
  have mok: "map_ok (states s)" using ok by (simp add: stripe_ok_def)
  have s1: "stripe_ok {} r j s1" "stripeOwed r rk s1 = stripeOwed r rk s" "evictedPending s1 = evictedPending s"
    "map_of (states s) k = None \<longrightarrow> map_of (states s1) k = None"
    by (auto simp: s1_def evictExpired_owed evictExpired_map [OF mok] intro: evictExpired_ok [OF ok])
  obtain vk v where pick: "pickVictim (states s1) ord 0 ('''', None) = (vk, v)" by (cases "pickVictim (states s1) ord 0 ('''', None)")
  have "ensureCapacityLocked r s now ord = s \<or> ensureCapacityLocked r s now ord = s1 \<or>
      (\<exists>vst. v = Some vst \<and> ensureCapacityLocked r s now ord = evictLocked r s1 vk vst)"
    by (auto simp: ensureCapacityLocked_def Let_def s1_def [symmetric] pick split: option.splits)
  moreover have "map_of (states s1) vk = Some vst" if "v = Some vst" for vst
    using pickVictim_mem [of "states s1" ord 0] pick that by auto
  ultimately show ?thesis using ok s1 room evictLocked_spec [of r j s1 vk] by auto
qed

lemma loadState_spec:
  assumes ok: "stripe_ok {} r (stripeFor key) s" and room: "int (length (evictedPending s)) < 2 * stripeCap r"
    and load: "loadState r s key ws now ord = (s', st)"
    and old: "\<And>u. map_of (states s) key = Some u \<Longrightarrow> lsWindowStart u \<noteq> ws \<Longrightarrow> redisKeyFor r key (lsWindowStart u) \<noteq> rk"
  shows "stripe_ok {} r (stripeFor key) s'" "map_of (states s') key = Some st" "lsWindowStart st = ws"
    "st = freshState ws \<or> map_of (states s) key = Some st" "stripeOwed r rk s' = stripeOwed r rk s"
proof -
  have mok: "map_ok (states s)" using ok by (simp add: stripe_ok_def)
  have wr: "stripe_ok {} r (stripeFor key) (u\<lparr>states := AList.update key (freshState ws) (states u)\<rparr>)"
    if "stripe_ok {} r (stripeFor key) u" for u
    using stripe_ok_write [OF that, of key "freshState ws" "dirty u"] by (simp add: freshState_def)
  have sum: "stripeOwed r rk (u\<lparr>states := AList.update key (freshState ws) (states u)\<rparr>) = stripeOwed r rk u"
    if "map_ok (states u)" "case map_of (states u) key of Some x \<Rightarrow> entryOwed r rk (key, x) = 0 | None \<Rightarrow> True" for u
    using that by (simp add: stripeOwed_def alist_sum_update entryOwed_def freshState_def split: option.splits if_splits)
  note E = ensureCapacity_spec [OF ok room, of now ord rk key]
  have "stripe_ok {} r (stripeFor key) s' \<and> map_of (states s') key = Some st \<and> lsWindowStart st = ws \<and>
    (st = freshState ws \<or> map_of (states s) key = Some st) \<and> stripeOwed r rk s' = stripeOwed r rk s"
  proof (cases "map_of (states s) key")
    case None
    have "s' = (ensureCapacityLocked r s now ord)\<lparr>states := AList.update key (freshState ws) (states (ensureCapacityLocked r s now ord))\<rparr>"
      "st = freshState ws" using load None by (auto simp: loadState_def Let_def)
    moreover have "map_ok (states (ensureCapacityLocked r s now ord))" using E by (simp add: stripe_ok_def)
    ultimately show ?thesis using E None wr sum by (simp add: freshState_def)
  next
    case (Some u)
    show ?thesis
    proof (cases "lsWindowStart u = ws")
      case True
      then show ?thesis using load Some ok by (simp add: loadState_def)
    next
      case False
      have "s' = s\<lparr>states := AList.update key (freshState ws) (states s)\<rparr>" "st = freshState ws"
        using load Some False by (auto simp: loadState_def)
      moreover have "entryOwed r rk (key, u) = 0" using old [OF Some False] by (simp add: entryOwed_def)
      ultimately show ?thesis using Some wr [OF ok] sum [OF mok] by (simp add: freshState_def)
    qed
  qed
  then show "stripe_ok {} r (stripeFor key) s'" "map_of (states s') key = Some st" "lsWindowStart st = ws"
    "st = freshState ws \<or> map_of (states s) key = Some st" "stripeOwed r rk s' = stripeOwed r rk s" by blast+
qed
definition modest :: "localState \<Rightarrow> bool" where
  "modest st \<longleftrightarrow> \<bar>globalBase st\<bar> < 2 ^ 61 \<and> localDelta st < 2 ^ 61"

lemma decide_spec:
  assumes "decide r st n = (st', allowed, wants)" "0 \<le> n" "n < 2 ^ 62" "modest st" "0 \<le> localDelta st"
  shows "lsWindowStart st' = lsWindowStart st" "localDelta st' = localDelta st + (if allowed then n else 0)"
    "allowed \<longleftrightarrow> \<not> blocked st \<and> (FailOpen (cfg r) \<or> \<not> redisDown r) \<and> globalBase st + localDelta st + n \<le> fLimit (apolicy r)"
    "globalBase st' = globalBase st" "allowed \<and> 0 < n \<longrightarrow> wants"
proof -
  have "int64 (globalBase st + localDelta st)" "int64 (globalBase st + localDelta st + n)" "int64 (localDelta st + n)"
    using assms(2-5) by (auto simp: modest_def int64_def)
  then have wraps: "wrap64 (wrap64 (globalBase st + localDelta st) + n) = globalBase st + localDelta st + n"
    "wrap64 (localDelta st + n) = localDelta st + n"
    by (simp_all add: wrap64_id)
  show "lsWindowStart st' = lsWindowStart st" "localDelta st' = localDelta st + (if allowed then n else 0)"
    "allowed \<longleftrightarrow> \<not> blocked st \<and> (FailOpen (cfg r) \<or> \<not> redisDown r) \<and> globalBase st + localDelta st + n \<le> fLimit (apolicy r)"
    "globalBase st' = globalBase st" "allowed \<and> 0 < n \<longrightarrow> wants"
    using assms(1) by (auto simp: decide_def wraps split: if_splits)
qed

lemma async_AllowN_spec:
  fixes e r key n ord
  defines "ws \<equiv> WindowStart (apolicy r) (clock e)"
  assumes inv: "async_inv r" and n: "0 \<le> n" "n < 2 ^ 62"
    and room: "int (length (evictedPending (getStripe r key))) < 2 * stripeCap r"
    and modest: "\<And>u. map_of (states (getStripe r key)) key = Some u \<Longrightarrow> modest u"
    and old: "\<And>u. map_of (states (getStripe r key)) key = Some u \<Longrightarrow> lsWindowStart u \<noteq> ws \<Longrightarrow> redisKeyFor r key (lsWindowStart u) \<noteq> rk"
    and run: "AllowN e r key n ord = (r', res, mark)"
  shows "async_inv r' \<and> same_frame r r' \<and> Consumed res = (if Allowed res then n else 0) \<and>
    owed r' rk = owed r rk + (if redisKeyFor r key ws = rk then Consumed res else 0) \<and>
    (\<exists>st. map_of (states (getStripe r' key)) key = Some st \<and> lsWindowStart st = ws \<and>
       (Allowed res \<longrightarrow> globalBase st + localDelta st \<le> fLimit (apolicy r))) \<and>
    (0 < Consumed res \<longrightarrow> enqueued r')"
proof -
  obtain s st where load: "loadState r (getStripe r key) key ws (clock e) ord = (s, st)"
    by (cases "loadState r (getStripe r key) key ws (clock e) ord")
  obtain st' allowed wants where dec: "decide r st n = (st', allowed, wants)" by (cases "decide r st n")
  define d where "d = (if allowed \<and> 0 < n then mapAdd key (dirty s) else dirty s)"
  define s' where "s' = s\<lparr>states := AList.update key st' (states s), dirty := d\<rparr>"
  have r': "r' = (setStripe r key s')\<lparr>enqueued := enqueued r \<or> evictedPending s \<noteq> [] \<or> wants\<rparr>"
    and res: "Allowed res = allowed" "Consumed res = boolToCount (allowed \<and> 0 < n) n"
    using run n
    by (auto simp: AllowN_def checkLocked_def enqueueCAS_def Let_def ws_def [symmetric] load dec s'_def d_def setStripe_def
        split: if_splits)
  have len: "length (stripes r) = numStripes" using inv by (simp add: async_inv_def)
  have ok: "stripe_ok {} r (stripeFor key) (getStripe r key)"
    using inv stripeFor_less [of key] by (simp add: async_inv_def getStripe_def)
  have L: "stripe_ok {} r (stripeFor key) s" "map_of (states s) key = Some st" "lsWindowStart st = ws"
    "st = freshState ws \<or> map_of (states (getStripe r key)) key = Some st" "stripeOwed r rk s = stripeOwed r rk (getStripe r key)"
    using loadState_spec [OF ok room load old] by blast+
  have nn: "0 \<le> localDelta st" using L(1,2) by (auto simp: stripe_ok_alt)
  have md: "modest st" using L(4) modest by (auto simp: freshState_def modest_def)
  note D = decide_spec [OF dec n md nn]
  have ok': "stripe_ok {} r (stripeFor key) s'" unfolding s'_def
  proof (rule stripe_ok_write [OF L(1)])
    show "localDelta st' \<noteq> 0 \<longrightarrow> key \<in> set d \<union> {}"
      using L(1,2) D(2) n by (auto simp: stripe_ok_alt d_def split: if_splits)
  qed (use D(2) n nn in \<open>auto simp: d_def\<close>)
  have frame: "same_frame r r'" by (simp add: r' same_frame_def setStripe_def)
  have inv': "async_inv r'"
    unfolding async_inv_def stripe_ok_frame [OF frame]
    using inv ok' len stripeFor_less [of key] by (simp add: async_inv_def r' setStripe_def nth_list_update)
  have mok: "map_ok (states s)" using L(1) by (simp add: stripe_ok_def)
  have "owed r' rk = owed (setStripe r key s') rk"
    by (rule same_stripes) (simp_all add: r' same_frame_def)
  also have "\<dots> = owed r rk + (if redisKeyFor r key ws = rk then localDelta st' - localDelta st else 0)"
    unfolding owed_setStripe [OF len] s'_def stripeOwed_write [OF mok] L(5) using L(2,3) D(1) by (simp add: entryOwed_def)
  finally have owed: "owed r' rk = owed r rk + (if redisKeyFor r key ws = rk then Consumed res else 0)"
    using D(2) n res by (simp add: boolToCount_def)
  have get: "getStripe r' key = s'" using len stripeFor_less [of key] by (simp add: r' getStripe_def setStripe_def)
  have "0 < Consumed res \<longrightarrow> enqueued r'" using D(5) res by (simp add: r' boolToCount_def)
  then show ?thesis
    using inv' frame owed res D L(3) n by (simp add: get s'_def boolToCount_def)
qed
section \<open>Properties\<close>

text \<open>A server whose counters are an association list, with a switch for an outage, and a limiter
  of ten requests in a minute.\<close>

definition demoCount :: "(string, int) gomap \<Rightarrow> string \<Rightarrow> int" where
  "demoCount R k = (case map_of R k of None \<Rightarrow> 0 | Some c \<Rightarrow> c)"

definition demoPipe :: "bool \<Rightarrow> (string, int) gomap \<Rightarrow> (string \<times> int) list \<Rightarrow> (string, int) gomap \<times> int list \<times> string option" where
  "demoPipe up R cmds =
     (if up then
        let (R', vals) = fold (\<lambda>(k, n) (R, vals). let v = demoCount R k + n
                                          in (AList.update k v R, vals @ [v])) cmds (R, [])
        in (R', vals, None)
      else (R, [], Some ''connection refused''))"

definition demoConfig :: async_config where
  "demoConfig = \<lparr>SyncInterval = 0, FailOpen = False, MaxLocalEntries = 16, FlushWorkers = 0, MaxPipelineCommands = 0\<rparr>"

definition demoAsync :: async where
  "demoAsync = newRedisLocalAsyncLimiterWith \<lparr>fLimit = 10, fDuration = Minute\<rparr> ''rl:'' demoConfig 0"

definition at_time :: "instant \<Rightarrow> env" where
  "at_time t = \<lparr>clock = t, sys_now = t\<rparr>"

lemma demoPipe_fold:
  "fold (\<lambda>(k, n) (R, vals). let v = demoCount R k + n in (AList.update k v R, vals @ [v])) cmds (R, vals) = (R', vals') \<Longrightarrow>
    length vals' = length vals + length cmds \<and>
    demoCount R' rk = demoCount R rk + sum_list (map snd (filter (\<lambda>c. fst c = rk) cmds))"
proof (induction cmds arbitrary: R vals)
  case (Cons c cmds)
  obtain k n where c: "c = (k, n)" by (cases c)
  have "demoCount (AList.update k (demoCount R k + n) R) rk = demoCount R rk + (if k = rk then n else 0)"
    by (simp add: demoCount_def)
  then show ?case
    using Cons.IH [of "AList.update k (demoCount R k + n) R" "vals @ [demoCount R k + n]"] Cons.prems by (auto simp: c Let_def)
qed simp

lemma demoPipe_exact:
  assumes "demoPipe True R cmds = (R', vals, err)"
  shows "err = None \<and> length vals = length cmds \<and> demoCount R' rk = demoCount R rk + sum_list (map snd (filter (\<lambda>c. fst c = rk) cmds))"
proof -
  let ?f = "fold (\<lambda>(k, n) (R, vals). let v = demoCount R k + n in (AList.update k v R, vals @ [v])) cmds (R, [])"
  have "demoPipe True R cmds = (fst ?f, snd ?f, None)" by (simp add: demoPipe_def case_prod_unfold Let_def)
  then have "R' = fst ?f" "vals = snd ?f" "err = None" using assms by simp_all
  then show ?thesis using demoPipe_fold [of cmds R "[]" "fst ?f" "snd ?f" rk] by simp
qed

lemma demoPipe_law: "incr_law (demoPipe up) demoCount"
proof (cases up)
  case True
  have "incr_law (demoPipe True) demoCount"
    unfolding incr_law_def using demoPipe_exact by (intro allI impI conjI) force+
  then show ?thesis using True by simp
qed (simp add: incr_law_def demoPipe_def)

lemma demoPipe_once: "once_law (demoPipe True) demoCount"
proof -
  have "demoCount (fst (demoPipe True R cmds)) rk = demoCount R rk + sum_list (map snd (filter (\<lambda>c. fst c = rk) cmds))" for R cmds rk
    using demoPipe_exact [of R cmds "fst (demoPipe True R cmds)" "fst (snd (demoPipe True R cmds))" "snd (snd (demoPipe True R cmds))" rk] by simp
  then show ?thesis by (simp add: once_law_def)
qed

text \<open>A server that runs the pipeline and whose reply is lost.\<close>

definition lossyPipe :: "(string, int) gomap \<Rightarrow> (string \<times> int) list \<Rightarrow> (string, int) gomap \<times> int list \<times> string option" where
  "lossyPipe R cmds = (fst (demoPipe True R cmds), [], Some ''i/o timeout'')"

lemma lossyPipe_law:
  "incr_law lossyPipe demoCount" "once_law lossyPipe demoCount"
proof -
  have "demoCount (fst (demoPipe True R cmds)) rk = demoCount R rk + sum_list (map snd (filter (\<lambda>c. fst c = rk) cmds))" for R cmds rk
    using demoPipe_exact [of R cmds "fst (demoPipe True R cmds)" "fst (snd (demoPipe True R cmds))" "snd (snd (demoPipe True R cmds))" rk] by simp
  then show "incr_law lossyPipe demoCount" "once_law lossyPipe demoCount"
    by (auto simp: incr_law_def once_law_def lossyPipe_def intro!: sum_list_nonneg)
qed

lemma async_inv_new: "async_inv (newRedisLocalAsyncLimiterWith p prefix c now)"
  by (simp add: newRedisLocalAsyncLimiterWith_def Let_def async_inv_def stripe_ok_def newStripe_def)

lemma stripeFor_a: "stripeFor ''a'' = 12"
  by (simp add: stripeFor_def)

lemma stripeFor_q: "stripeFor ''q'' = 12"
  by (simp add: stripeFor_def)

lemma upt16: "[0..<16] = [0,1,2,3,4,5,6,7,8,9,10,11,12,13,14,15]"
  by (simp add: upt_rec)

lemmas demo_eval = AllowN_def checkLocked_def enqueueCAS_def demoAsync_def newRedisLocalAsyncLimiterWith_def withDefaults_def demoConfig_def numStripes_def
  getStripe_def setStripe_def stripeFor_a stripeFor_q loadState_def WindowStart_def WindowEnd_def at_time_def
  time_Truncate_def newStripe_def Minute_def Second_def ensureCapacityLocked_def decide_def freshState_def
  mapAdd_def time_Add_def DefaultSyncInterval_def Millisecond_def DefaultMaxPipelineCommands_def
  snapshotPendingLocked_def snapshotStripe_def redisKeyFor_def evictExpiredLocked_def stateExpired_def evictLocked_def
  execIncrBatch_def incrChunks.simps demoPipe_def demoCount_def applyOne_def flushPending_def noteFlushOutcomeLocked_def
  upt16 wrap64_id int64_def

definition demoDirty :: async where
  "demoDirty = fst (AllowN (at_time 5) demoAsync ''a'' 4 [])"

lemma demoAsync_empty: "stripes demoAsync = replicate numStripes newStripe" "stripeCap demoAsync = 1"
  by (simp_all add: demoAsync_def newRedisLocalAsyncLimiterWith_def withDefaults_def demoConfig_def numStripes_def Let_def)

lemma demoAsync_get [simp]: "getStripe demoAsync k = newStripe"
  using stripeFor_less [of k] by (simp add: getStripe_def demoAsync_empty)

lemma demoAsync_inv: "async_inv demoAsync"
  by (simp add: demoAsync_def async_inv_new)

lemma demoDirty_inv: "async_inv demoDirty"
  using async_AllowN_spec [OF demoAsync_inv, of 4 "''a''" "at_time 5" "[]"] unfolding demoDirty_def
  by (cases "AllowN (at_time 5) demoAsync ''a'' 4 []") (simp add: newStripe_def demoAsync_empty)



text \<open>The slack is used: a pipeline that ran and whose reply was lost is sent again, and its amounts are counted twice.\<close>

lemma replicate16: "replicate 16 x = [x, x, x, x, x, x, x, x, x, x, x, x, x, x, x, x]"
  by (simp add: numeral_eq_Suc)

lemma async_lost_reply_counts_twice:
  "case flushPending lossyPipe (\<lambda>_. True) (at_time 9) (\<lambda>j. dirty (stripes demoDirty ! j)) [] demoDirty of
     (R', r', exps, mor) \<Rightarrow> demoCount R' (redisKeyFor demoAsync ''a'' 0) = 4 \<and> owed r' (redisKeyFor demoAsync ''a'' 0) = 4 \<and> mor"
  by (simp add: demoDirty_def lossyPipe_def demo_eval owed_def stripeOwed_def flushOwed_def entryOwed_def replicate16)

text \<open>The local check keeps the books. An admitted request of \<open>n\<close> tokens adds exactly \<open>n\<close> to
  what is owed to the Redis key of the current window, also when it evicts another key to make
  room, and to no other key; a denied one adds nothing; the estimate an admission leaves is
  within the limit, and an admission leaves the limiter queued for a flush.\<close>

lemma async_allow_accounts:
  assumes "async_inv r" "0 \<le> n" "n < 2 ^ 62"
    and "int (length (evictedPending (getStripe r key))) < 2 * stripeCap r"
    and "\<And>u. map_of (states (getStripe r key)) key = Some u \<Longrightarrow> modest u"
    and "\<And>u. map_of (states (getStripe r key)) key = Some u \<Longrightarrow> lsWindowStart u \<noteq> WindowStart (apolicy r) (clock e) \<Longrightarrow>
      redisKeyFor r key (lsWindowStart u) \<noteq> rk"
    and "AllowN e r key n ord = (r', res, mark)"
  shows "async_inv r' \<and> Consumed res = (if Allowed res then n else 0) \<and>
    owed r' rk = owed r rk + (if redisKeyFor r key (WindowStart (apolicy r) (clock e)) = rk then Consumed res else 0) \<and>
    (\<exists>st. map_of (states (getStripe r' key)) key = Some st \<and> lsWindowStart st = WindowStart (apolicy r) (clock e) \<and>
       (Allowed res \<longrightarrow> globalBase st + localDelta st \<le> fLimit (apolicy r))) \<and>
    (0 < Consumed res \<longrightarrow> enqueued r')"
  using async_AllowN_spec [OF assms] by blast

lemma async_allow_accounts_example:
  "case AllowN (at_time 5) demoAsync ''a'' 4 [] of (r', res, mark) \<Rightarrow>
     async_inv r' \<and> Consumed res = (if Allowed res then 4 else 0) \<and>
     owed r' (redisKeyFor demoAsync ''a'' 0) = owed demoAsync (redisKeyFor demoAsync ''a'' 0) + Consumed res"
proof -
  have ws: "WindowStart (apolicy demoAsync) (clock (at_time 5)) = 0"
    by (simp add: WindowStart_def demoAsync_def newRedisLocalAsyncLimiterWith_def Let_def time_Truncate_def at_time_def Minute_def Second_def)
  show ?thesis
    using async_allow_accounts [OF demoAsync_inv, of 4 "''a''" "at_time 5" "redisKeyFor demoAsync ''a'' 0"]
    by (simp add: ws newStripe_def demoAsync_empty split: prod.splits)
qed

lemma failStreak_foldl:
  "failStreak r = 0 \<Longrightarrow> failStreak (foldl noteFlushOutcomeLocked r outs) = int (length (takeWhile id (rev outs))) \<and>
    cfg (foldl noteFlushOutcomeLocked r outs) = cfg r"
  by (induction outs rule: rev_induct) (auto simp: noteFlushOutcomeLocked_def Let_def)

text \<open>C24: the fail-closed latch. After any sequence of flush outcomes (true for a failed one) the
  limiter considers Redis down exactly when it is fail-closed and the last two outcomes or more
  were failures.\<close>

theorem async_fail_closed_latch:
  assumes "failStreak r = 0" "\<not> redisDown r"
  shows "redisDown (foldl noteFlushOutcomeLocked r outs) \<longleftrightarrow>
    \<not> FailOpen (cfg r) \<and> 2 \<le> length (takeWhile id (rev outs))"
proof (cases outs rule: rev_cases)
  case (snoc xs x)
  then show ?thesis using failStreak_foldl [OF assms(1), of xs]
    by (auto simp: noteFlushOutcomeLocked_def Let_def failClosedThreshold_def)
qed (use assms in simp)

theorem async_fail_closed_latch_witness:
  "redisDown (foldl noteFlushOutcomeLocked demoAsync [False, True, True]) \<longleftrightarrow>
    \<not> FailOpen (cfg demoAsync) \<and> 2 \<le> length (takeWhile id (rev [False, True, True]))"
  by (rule async_fail_closed_latch)
    (simp_all add: demoAsync_def newRedisLocalAsyncLimiterWith_def Let_def)

text \<open>While a fail-closed limiter considers Redis down it admits nothing, and a request for a
  key that is not already blocked leaves it queued, so that the next tick probes Redis again.\<close>

lemma async_down_denies:
  assumes "\<not> FailOpen (cfg r)" "redisDown r" "AllowN e r key n ord = (r', res, mark)"
  shows "\<not> Allowed res \<and> Consumed res = 0 \<and>
    (enqueued r' \<or> (\<exists>st. map_of (states (getStripe r key)) key = Some st \<and> blocked st))"
  using assms
  by (auto simp: AllowN_def checkLocked_def enqueueCAS_def decide_def loadState_def freshState_def Let_def boolToCount_def result_zero_def
      split: if_splits option.splits prod.splits)

lemma async_down_denies_example:
  "case AllowN (at_time 5) (demoAsync\<lparr>redisDown := True\<rparr>) ''a'' 1 [] of (r', res, mark) \<Rightarrow> \<not> Allowed res \<and> Consumed res = 0"
  using async_down_denies [of "demoAsync\<lparr>redisDown := True\<rparr>" "at_time 5" "''a''" 1 "[]"]
  by (simp add: demoAsync_def newRedisLocalAsyncLimiterWith_def withDefaults_def demoConfig_def Let_def split: prod.splits)

text \<open>A delta that is in flight when its state is evicted is counted twice. Five requests of
  key \<open>a\<close> are admitted and snapshotted; before the results are applied a request of another key
  of the stripe evicts \<open>a\<close>, whose whole delta is carried although it is in the batch; the next
  flush sends it again and the counter of \<open>a\<close> is ten.\<close>

lemma async_evicted_in_flight_counted_twice:
  "let (r1, res, _) = AllowN (at_time 5) demoAsync ''a'' 5 [];
       (r2, batch, _) = snapshotPendingLocked r1 6 (\<lambda>_. [''a'']) 5000;
       (r3, _) = AllowN (at_time 7) r2 ''q'' 1 [''a''];
       (R4, results) = execIncrBatch (demoPipe True) [] batch 0;
       (r5, _) = applyResultsLocked r3 (zip batch results);
       (R6, _) = flushPending (demoPipe True) (\<lambda>_. True) (at_time 8) (\<lambda>_. [''q'']) R4 r5
   in Consumed res = 5 \<and> demoCount R6 (redisKeyFor demoAsync ''a'' 0) = 10"
  by (simp add: demo_eval result_zero_def boolToCount_def)

end
