(* ===== verification/Coordinator.thy ===== *)
theory Coordinator
  imports AsyncFlush "HOL-Library.Multiset"
begin

text \<open>
  \<^verbatim>\<open>fixedwindow/flush_coordinator.go\<close>: the coordinator that drives the flushes of all local-async
  limiters. A limiter is an object of a store, named by its index; a shard's active set is a list
  of indices. The handlers are definitions over the store; the interleaving of requests with the
  phases of a tick is a step relation over the same definitions.
\<close>

section \<open>Registration and the base tick\<close>

definition baseTickMin :: duration where "baseTickMin = 10 * Millisecond"
definition baseTickMax :: duration where "baseTickMax = Second"

text \<open>\<open>gomaxprocs\<close> is \<^verbatim>\<open>runtime.GOMAXPROCS(0)\<close>.\<close>

definition resolveFlushWorkers :: "int \<Rightarrow> int \<Rightarrow> int" where
  "resolveFlushWorkers gomaxprocs configured =
     (if 0 < configured then configured
      else let w = gomaxprocs div 2; w = (if w < 1 then 1 else w) in if 8 < w then 8 else w)"

record flushCoordinator =
  intervals :: "(duration, int) gomap"
  nextShard :: nat
  started :: bool
  baseTick :: duration
  shards :: "nat list list"

definition newFlushCoordinator :: "int \<Rightarrow> bool \<Rightarrow> flushCoordinator" where
  "newFlushCoordinator workers start =
     (let workers = (if workers < 1 then 1 else workers) in
      \<lparr>intervals = [], nextShard = 0, started = start, baseTick = baseTickMax, shards = replicate (nat workers) []\<rparr>)"

text \<open>The minimum is the same in every iteration order of the map.\<close>

definition recomputeBaseTickLocked :: "flushCoordinator \<Rightarrow> flushCoordinator" where
  "recomputeBaseTickLocked c =
     (let mn = fold (\<lambda>d mn. if d < mn then d else mn) (map fst (intervals c)) baseTickMax;
          mn = (if mn < baseTickMin then baseTickMin else mn);
          mn = (if baseTickMax < mn then baseTickMax else mn)
      in c\<lparr>baseTick := mn\<rparr>)"

definition countOf :: "flushCoordinator \<Rightarrow> duration \<Rightarrow> int" where
  "countOf c d = (case map_of (intervals c) d of None \<Rightarrow> 0 | Some n \<Rightarrow> n)"

definition register :: "duration \<Rightarrow> flushCoordinator \<Rightarrow> flushCoordinator \<times> nat" where
  "register d c =
     (let c = recomputeBaseTickLocked (c\<lparr>intervals := AList.update d (countOf c d + 1) (intervals c)\<rparr>) in
      if length (shards c) = 1 then (c, 0)
      else (c\<lparr>nextShard := nextShard c + 1\<rparr>, nextShard c mod length (shards c)))"

definition dropInterval :: "duration \<Rightarrow> flushCoordinator \<Rightarrow> flushCoordinator" where
  "dropInterval d c =
     recomputeBaseTickLocked
       (c\<lparr>intervals := (if countOf c d \<le> 1 then AList.delete d (intervals c)
                        else AList.update d (countOf c d - 1) (intervals c))\<rparr>)"

definition stop :: "flushCoordinator \<Rightarrow> flushCoordinator" where
  "stop c = (if started c then c\<lparr>started := False\<rparr> else c)"

text \<open>A worker's stagger before its first tick.\<close>

definition firstDelay :: "flushCoordinator \<Rightarrow> nat \<Rightarrow> duration" where
  "firstDelay c i = baseTick c + (baseTick c * int i) div int (length (shards c))"

section \<open>The store of limiters\<close>

record limiter_obj =
  lim :: async
  shard :: nat
  client :: nat

definition updLim :: "nat \<Rightarrow> (async \<Rightarrow> async) \<Rightarrow> limiter_obj list \<Rightarrow> limiter_obj list" where
  "updLim l f objs = objs[l := (objs ! l)\<lparr>lim := f (lim (objs ! l))\<rparr>]"

definition setAdd :: "nat \<Rightarrow> nat list \<Rightarrow> nat list" where
  "setAdd l xs = (if l \<in> set xs then xs else xs @ [l])"

definition addActive :: "nat \<Rightarrow> nat \<Rightarrow> nat list list \<Rightarrow> nat list list" where
  "addActive i l sh = sh[i := setAdd l (sh ! i)]"

definition markActive :: "nat \<Rightarrow> limiter_obj list \<Rightarrow> flushCoordinator \<Rightarrow> flushCoordinator" where
  "markActive l objs c = c\<lparr>shards := addActive (shard (objs ! l)) l (shards c)\<rparr>"

definition deregister :: "nat \<Rightarrow> limiter_obj list \<Rightarrow> flushCoordinator \<Rightarrow> limiter_obj list \<times> flushCoordinator" where
  "deregister l objs c =
     (let c = dropInterval (SyncInterval (cfg (lim (objs ! l)))) c; i = shard (objs ! l)
      in (updLim l (\<lambda>r. r\<lparr>enqueued := False\<rparr>) objs, c\<lparr>shards := (shards c)[i := removeAll l (shards c ! i)]\<rparr>))"

section \<open>A tick\<close>

text \<open>Step 1 of \<^verbatim>\<open>tickShard\<close>: the due limiters leave the active set and lose the \<^verbatim>\<open>enqueued\<close> flag.\<close>

definition isDue :: "int \<Rightarrow> limiter_obj list \<Rightarrow> nat \<Rightarrow> bool" where
  "isDue nowNanos objs l \<longleftrightarrow> nextFlushAt (lim (objs ! l)) \<le> nowNanos"

definition collectDue :: "nat \<Rightarrow> int \<Rightarrow> limiter_obj list \<Rightarrow> nat list list \<Rightarrow> limiter_obj list \<times> nat list list \<times> nat list" where
  "collectDue i nowNanos objs sh =
     (let due = filter (isDue nowNanos objs) (sh ! i)
      in (fold (\<lambda>l. updLim l (\<lambda>r. r\<lparr>enqueued := False\<rparr>)) due objs,
          sh[i := filter (\<lambda>l. \<not> isDue nowNanos objs l) (sh ! i)], due))"

text \<open>The last step of a flush that leaves work: due at once and queued again in shard \<open>i\<close>.\<close>

definition reenqueue :: "nat \<Rightarrow> int \<Rightarrow> nat \<Rightarrow> limiter_obj list \<Rightarrow> nat list list \<Rightarrow> limiter_obj list \<times> nat list list" where
  "reenqueue i nowNanos l objs sh =
     (let objs = updLim l (\<lambda>r. r\<lparr>nextFlushAt := nowNanos\<rparr>) objs;
          (r, won) = enqueueCAS True (lim (objs ! l))
      in (updLim l (\<lambda>_. r) objs, if won then addActive i l sh else sh))"

record limFlush =
  fl :: nat
  fbatch :: "pendingFlush list"
  fmore :: bool

text \<open>Phase A for one limiter: the next deadline, the snapshot, and the probe of a fail-closed
  limiter that has nothing to flush. The result is the flush, if there is one, or whether the
  limiter must be queued again.\<close>

definition snapshotDue :: "('r \<Rightarrow> bool) \<Rightarrow> 'r \<Rightarrow> instant \<Rightarrow> instant \<Rightarrow> (nat \<Rightarrow> string list) \<Rightarrow> async
    \<Rightarrow> async \<times> (pendingFlush list \<times> bool) option \<times> bool" where
  "snapshotDue ping R now wnow ords r =
     (let r = r\<lparr>nextFlushAt := time_UnixNano (time_Add now (SyncInterval (cfg r)))\<rparr>;
          (r, batch, mor) = snapshotPendingLocked r wnow ords (MaxPipelineCommands (cfg r))
      in if batch = [] then
           let probe = (\<not> FailOpen (cfg r) \<and> redisDown r);
               r = (if probe then probeRedisLocked ping R r else r)
           in (r, None, mor \<or> (probe \<and> redisDown r))
         else (r, Some (batch, mor), False))"

fun snapshotAll :: "('r \<Rightarrow> bool) \<Rightarrow> (nat \<Rightarrow> 'r) \<Rightarrow> nat \<Rightarrow> instant \<Rightarrow> (nat \<Rightarrow> instant) \<Rightarrow> (nat \<Rightarrow> nat \<Rightarrow> string list) \<Rightarrow> nat list
    \<Rightarrow> limiter_obj list \<Rightarrow> nat list list \<Rightarrow> limiter_obj list \<times> nat list list \<times> limFlush list" where
  "snapshotAll ping srv i now wnow ords [] objs sh = (objs, sh, [])"
| "snapshotAll ping srv i now wnow ords (l # ls) objs sh =
     (let (r, flush, again) = snapshotDue ping (srv (client (objs ! l))) now (wnow l) (ords l) (lim (objs ! l));
          objs = updLim l (\<lambda>_. r) objs;
          (objs, sh) = (if again then reenqueue i (time_UnixNano now) l objs sh else (objs, sh));
          (objs, sh, fs) = snapshotAll ping srv i now wnow ords ls objs sh
      in (objs, sh, case flush of None \<Rightarrow> fs | Some (batch, mor) \<Rightarrow> \<lparr>fl = l, fbatch = batch, fmore = mor\<rparr> # fs))"

text \<open>Phase B: the groups by client, in the order of their first member.\<close>

fun groupByClient :: "limiter_obj list \<Rightarrow> limFlush list \<Rightarrow> (nat \<times> limFlush list) list \<Rightarrow> (nat \<times> limFlush list) list" where
  "groupByClient objs [] groups = groups"
| "groupByClient objs (f # fs) groups =
     (let c = client (objs ! fl f) in
      groupByClient objs fs
        (case map_of groups c of
           Some members \<Rightarrow> AList.update c (members @ [f]) groups
         | None \<Rightarrow> groups @ [(c, [f])]))"

text \<open>Phase C: one pipeline over the concatenated batches; each member takes the slice of the
  results at its offset.\<close>

fun demux :: "nat \<Rightarrow> limFlush list \<Rightarrow> int outcome list \<Rightarrow> (limFlush \<times> int outcome list) list" where
  "demux off [] results = []"
| "demux off (f # fs) results =
     (f, take (length (fbatch f)) (drop off results)) # demux (off + length (fbatch f)) fs results"

definition execGroup :: "('r \<Rightarrow> (string \<times> int) list \<Rightarrow> 'r \<times> int list \<times> string option) \<Rightarrow> 'r \<Rightarrow> limFlush list
    \<Rightarrow> 'r \<times> (limFlush \<times> int outcome list) list" where
  "execGroup pipe R members =
     (let (R', results) = execIncrBatch pipe R (concat (map fbatch members)) DefaultMaxPipelineCommands
      in (R', demux 0 members results))"

text \<open>Phase D for one member.\<close>

definition applyMember :: "limFlush \<Rightarrow> int outcome list \<Rightarrow> async \<Rightarrow> async \<times> bool \<times> expireEntry list" where
  "applyMember f results r =
     (let (r, applyMore, creators, tickErr) = applyResultsLocked r (zip (fbatch f) results)
      in (noteFlushOutcomeLocked r tickErr, fmore f \<or> applyMore, expireEntries r creators))"

fun applyMembers :: "(limFlush \<times> int outcome list) list \<Rightarrow> limiter_obj list \<Rightarrow> limiter_obj list \<times> (nat \<times> bool) list \<times> expireEntry list" where
  "applyMembers [] objs = (objs, [], [])"
| "applyMembers ((f, results) # fs) objs =
     (let (r, mor, exp) = applyMember f results (lim (objs ! fl f));
          (objs, mores, exps) = applyMembers fs (updLim (fl f) (\<lambda>_. r) objs)
      in (objs, (fl f, mor) # mores, exp @ exps))"

text \<open>The groups one after another; the EXPIRE commands are kept per client.\<close>

fun flushGroups :: "('r \<Rightarrow> (string \<times> int) list \<Rightarrow> 'r \<times> int list \<times> string option) \<Rightarrow> (nat \<times> limFlush list) list \<Rightarrow> (nat \<Rightarrow> 'r)
    \<Rightarrow> limiter_obj list \<Rightarrow> (nat \<Rightarrow> 'r) \<times> limiter_obj list \<times> (nat \<times> bool) list \<times> (nat \<times> expireEntry list) list" where
  "flushGroups pipe [] srv objs = (srv, objs, [], [])"
| "flushGroups pipe ((c, members) # gs) srv objs =
     (let (R, pairs) = execGroup pipe (srv c) members;
          (objs, mores, exp) = applyMembers pairs objs;
          (srv, objs, mores', exps) = flushGroups pipe gs (srv(c := R)) objs
      in (srv, objs, mores @ mores', (c, exp) # exps))"

text \<open>Phase F: the limiters that have work left are queued again.\<close>

fun requeueAll :: "nat \<Rightarrow> int \<Rightarrow> (nat \<times> bool) list \<Rightarrow> limiter_obj list \<Rightarrow> nat list list \<Rightarrow> limiter_obj list \<times> nat list list" where
  "requeueAll i nowNanos [] objs sh = (objs, sh)"
| "requeueAll i nowNanos ((l, mor) # xs) objs sh =
     (let (objs, sh) = (if mor then reenqueue i nowNanos l objs sh else (objs, sh))
      in requeueAll i nowNanos xs objs sh)"

definition flushDue :: "('r \<Rightarrow> (string \<times> int) list \<Rightarrow> 'r \<times> int list \<times> string option) \<Rightarrow> ('r \<Rightarrow> bool) \<Rightarrow> nat \<Rightarrow> instant \<Rightarrow> (nat \<Rightarrow> instant)
    \<Rightarrow> (nat \<Rightarrow> nat \<Rightarrow> string list) \<Rightarrow> nat list \<Rightarrow> (nat \<Rightarrow> 'r) \<Rightarrow> limiter_obj list \<Rightarrow> nat list list
    \<Rightarrow> (nat \<Rightarrow> 'r) \<times> limiter_obj list \<times> nat list list \<times> (nat \<times> expireEntry list) list" where
  "flushDue pipe ping i now wnow ords due srv objs sh =
     (let (objs, sh, flushes) = snapshotAll ping srv i now wnow ords due objs sh in
      if flushes = [] then (srv, objs, sh, [])
      else
        let (srv, objs, mores, exps) = flushGroups pipe (groupByClient objs flushes []) srv objs;
            (objs, sh) = requeueAll i (time_UnixNano now) mores objs sh
        in (srv, objs, sh, exps))"

definition tickShard :: "('r \<Rightarrow> (string \<times> int) list \<Rightarrow> 'r \<times> int list \<times> string option) \<Rightarrow> ('r \<Rightarrow> bool) \<Rightarrow> nat \<Rightarrow> instant \<Rightarrow> (nat \<Rightarrow> instant)
    \<Rightarrow> (nat \<Rightarrow> nat \<Rightarrow> string list) \<Rightarrow> (nat \<Rightarrow> 'r) \<Rightarrow> limiter_obj list \<Rightarrow> nat list list
    \<Rightarrow> (nat \<Rightarrow> 'r) \<times> limiter_obj list \<times> nat list list \<times> (nat \<times> expireEntry list) list" where
  "tickShard pipe ping i now wnow ords srv objs sh =
     (let (objs, sh, due) = collectDue i (time_UnixNano now) objs sh in
      if due = [] then (srv, objs, sh, []) else flushDue pipe ping i now wnow ords due srv objs sh)"

section \<open>Work that is left\<close>

definition has_work :: "async \<Rightarrow> bool" where
  "has_work r \<longleftrightarrow> (\<exists>s \<in> set (stripes r). dirty s \<noteq> [] \<or> evictedPending s \<noteq> [])"

text \<open>What the phases never touch: the flags, the configuration, the number of stripes.\<close>

definition same_flags :: "async \<Rightarrow> async \<Rightarrow> bool" where
  "same_flags r r' \<longleftrightarrow> enqueued r' = enqueued r \<and> redisDown r' = redisDown r \<and> cfg r' = cfg r \<and>
     length (stripes r') = length (stripes r)"

lemma same_flags_setStripe [simp]: "same_flags r (setStripe r k s)"
  by (simp add: same_flags_def setStripe_def)

lemma ensureCapacity_dirty: "set (dirty (ensureCapacityLocked r s now ord)) \<subseteq> set (dirty s)"
  by (auto simp: ensureCapacityLocked_def evictExpiredLocked_def evictLocked_def Let_def split: option.splits if_splits prod.splits)

lemma loadState_dirty: "loadState r s key ws now ord = (s', st) \<Longrightarrow> set (dirty s') \<subseteq> set (dirty s)"
  using ensureCapacity_dirty [of r s now ord] by (auto simp: loadState_def Let_def split: option.splits if_splits)

lemma applyOne_work:
  assumes "applyOne r p res = (r', mor, created, err)" "length (stripes r) = numStripes"
  shows "same_flags r r'" "\<not> mor \<longrightarrow> queues r' = queues r" "err \<longrightarrow> mor"
proof -
  show "same_flags r r'"
    using assms(1) by (auto simp: applyOne_def Let_def same_flags_def setStripe_def split: outcome.splits option.splits if_splits)
  show "\<not> mor \<longrightarrow> queues r' = queues r"
    using assms by (auto simp: applyOne_def Let_def intro!: queues_setStripe split: outcome.splits option.splits if_splits)
  show "err \<longrightarrow> mor"
    using assms(1) by (auto simp: applyOne_def Let_def split: outcome.splits option.splits if_splits)
qed

section \<open>The base tick\<close>

datatype reg_op = Reg duration | Dereg duration

fun reg_step :: "reg_op \<Rightarrow> flushCoordinator \<Rightarrow> flushCoordinator" where
  "reg_step (Reg d) c = fst (register d c)"
| "reg_step (Dereg d) c = dropInterval d c"

text \<open>The abstract state: the intervals of the registered limiters, with repetition.\<close>

fun reg_abs :: "reg_op \<Rightarrow> duration list \<Rightarrow> duration list" where
  "reg_abs (Reg d) ds = d # ds"
| "reg_abs (Dereg d) ds = remove1 d ds"

definition tickFor :: "duration set \<Rightarrow> duration" where
  "tickFor ds = max baseTickMin (Min (insert baseTickMax ds))"

definition coord_ok :: "duration list \<Rightarrow> flushCoordinator \<Rightarrow> bool" where
  "coord_ok ds c \<longleftrightarrow> map_ok (intervals c) \<and> baseTick c = tickFor (set ds) \<and>
     (\<forall>d. map_of (intervals c) d = (if d \<in> set ds then Some (int (count_list ds d)) else None))"

lemma fold_min: "fold (\<lambda>d mn. if d < mn then d else mn) ds (m :: int) = Min (insert m (set ds))"
proof (induction ds arbitrary: m)
  case (Cons d ds)
  have "Min (insert m (insert d (set ds))) = Min (insert (min d m) (set ds))"
    by (cases "ds = []") (auto simp: min.commute min.left_commute)
  then show ?case using Cons.IH by (simp add: min_def)
qed simp

lemma recompute_spec:
  assumes "map_ok m" "\<forall>d. map_of m d = (if d \<in> set ds then Some (int (count_list ds d)) else None)"
  shows "coord_ok ds (recomputeBaseTickLocked (c\<lparr>intervals := m\<rparr>))"
proof -
  have "d \<in> fst ` set m \<longleftrightarrow> d \<in> set ds" for d
    using assms(2) by (metis map_of_eq_None_iff option.distinct(1))
  then have keys: "fst ` set m = set ds" by blast
  define mn where "mn = Min (insert baseTickMax (set ds))"
  have le: "mn \<le> baseTickMax" by (simp add: mn_def)
  have ord: "baseTickMin \<le> baseTickMax" by (simp add: baseTickMin_def baseTickMax_def Millisecond_def Second_def)
  show ?thesis
    using assms le ord
    by (simp add: coord_ok_def recomputeBaseTickLocked_def Let_def fold_min keys tickFor_def mn_def [symmetric])
qed

lemma coord_ok_count: "coord_ok ds c \<Longrightarrow> countOf c d = int (count_list ds d)"
  by (auto simp: coord_ok_def countOf_def)

lemma count_list_remove1: "count_list (remove1 d ds) e = (if d = e \<and> d \<in> set ds then count_list ds e - 1 else count_list ds e)"
  by (induction ds) (auto simp: count_list_0_iff)

lemma in_remove1_iff: "e \<in> set (remove1 d ds) \<longleftrightarrow> (if e = d then 2 \<le> count_list ds d else e \<in> set ds)"
proof -
  have "x \<in> set xs \<longleftrightarrow> 0 < count_list xs x" for x and xs :: "'a list" by (metis count_list_0_iff gr0I less_irrefl)
  then show ?thesis by (auto simp: count_list_remove1)
qed

lemma reg_step_ok:
  assumes "coord_ok ds c"
  shows "coord_ok (reg_abs op ds) (reg_step op c)"
proof (cases op)
  case (Reg d)
  have "coord_ok (d # ds) (recomputeBaseTickLocked (c\<lparr>intervals := AList.update d (countOf c d + 1) (intervals c)\<rparr>))"
    using assms by (intro recompute_spec) (auto simp: coord_ok_def coord_ok_count [OF assms])
  then show ?thesis by (simp add: Reg register_def Let_def coord_ok_def)
next
  case (Dereg d)
  have "coord_ok (remove1 d ds) (dropInterval d c)"
    unfolding dropInterval_def using assms
    by (intro recompute_spec) (auto simp: coord_ok_def coord_ok_count [OF assms] count_list_remove1 in_remove1_iff)
  then show ?thesis by (simp add: Dereg)
qed

lemma coord_ok_new: "coord_ok [] (newFlushCoordinator w st)"
  by (simp add: coord_ok_def newFlushCoordinator_def Let_def tickFor_def baseTickMax_def baseTickMin_def Millisecond_def Second_def)

text \<open>After any sequence of registrations and deregistrations the workers' base tick is the
  smallest interval of the limiters that are registered, kept within ten milliseconds and a
  second; the reference counts are exact.\<close>

lemma coord_base_tick:
  "baseTick (fold reg_step ops (newFlushCoordinator w st)) = tickFor (set (fold reg_abs ops [])) \<and>
   countOf (fold reg_step ops (newFlushCoordinator w st)) d = int (count_list (fold reg_abs ops []) d)"
proof -
  have "coord_ok ds c \<Longrightarrow> coord_ok (fold reg_abs ops ds) (fold reg_step ops c)" for ds c
    by (induction ops arbitrary: ds c) (auto intro: reg_step_ok)
  from this [OF coord_ok_new] show ?thesis using coord_ok_count by (auto simp: coord_ok_def)
qed

section \<open>Requests against ticks\<close>

text \<open>
  The interleaving the locks allow. A request updates its stripe (\<open>check\<close>), then tries the
  compare-and-swap on \<^verbatim>\<open>enqueued\<close> (\<open>cas\<close>), then enters the active set (\<open>mark\<close>); between the
  three, anything may happen. A tick of a shard collects its due limiters under the lock of the shard and takes each
  through a flush that holds a lock of a stripe for one step at a time: the snapshot visits a stripe in a step
  (\<open>stripe\<close>), each result is applied in a step (\<open>entry\<close>), and the limiter is queued again by a compare-and-swap
  of its own. The replies of Redis, \<open>pong\<close> to a PING included, are arbitrary, and so is the clock at each step.
  A limiter's flush is one at a time (\<^verbatim>\<open>flushMu\<close>), which its phase says. The steps are the parts of
  \<^const>\<open>snapshotPendingLocked\<close> and \<^const>\<open>applyResultsLocked\<close>: \<open>snapshot_steps\<close> and \<open>apply_steps\<close> below.
\<close>

datatype fphase =
    Idle
  | Collected
  | Snapping "nat list" int "pendingFlush list" bool
  | Snapped "pendingFlush list" bool
  | Applying "(pendingFlush \<times> int outcome) list" bool bool
  | Applied bool

record sys =
  objs :: "limiter_obj list"
  active :: "nat list list"
  wanting :: "nat list"
  marking :: "nat list"
  phase :: "nat \<Rightarrow> fphase"

definition snapStart :: "instant \<Rightarrow> async \<Rightarrow> async" where
  "snapStart now r = r\<lparr>nextFlushAt := time_UnixNano (time_Add now (SyncInterval (cfg r)))\<rparr>"

definition stripeOrder :: "async \<Rightarrow> nat list" where
  "stripeOrder r = map (\<lambda>i. (flushCursor r + i) mod numStripes) [0..<numStripes]"

text \<open>The end of a snapshot that leaves the stripes \<open>js\<close> for lack of budget: the probe, or the batch.\<close>

definition snapEnd :: "('r \<Rightarrow> bool) \<Rightarrow> 'r \<Rightarrow> nat list \<Rightarrow> pendingFlush list \<Rightarrow> bool \<Rightarrow> async
    \<Rightarrow> async \<times> (pendingFlush list \<times> bool) option \<times> bool" where
  "snapEnd ping R js batch mor r =
     (let r = r\<lparr>flushCursor := (flushCursor r + 1) mod numStripes\<rparr>; mor = (mor \<or> js \<noteq> [])
      in if batch = [] then
           let probe = (\<not> FailOpen (cfg r) \<and> redisDown r);
               r = (if probe then probeRedisLocked ping R r else r)
           in (r, None, mor \<or> (probe \<and> redisDown r))
         else (r, Some (batch, mor), False))"

definition setPhase :: "nat \<Rightarrow> async \<Rightarrow> fphase \<Rightarrow> sys \<Rightarrow> sys" where
  "setPhase l r ph s = s\<lparr>objs := updLim l (\<lambda>_. r) (objs s), phase := (phase s)(l := ph)\<rparr>"

inductive sys_step :: "sys \<Rightarrow> sys \<Rightarrow> bool" where
  check: "l < length (objs s) \<Longrightarrow> checkLocked (lim (objs s ! l)) key n now ord = (r', allowed, remaining, need) \<Longrightarrow>
    sys_step s (s\<lparr>objs := updLim l (\<lambda>_. r') (objs s), wanting := (if need then l # wanting s else wanting s)\<rparr>)"
| cas: "l \<in> set (wanting s) \<Longrightarrow> l < length (objs s) \<Longrightarrow> enqueueCAS True (lim (objs s ! l)) = (r', won) \<Longrightarrow>
    sys_step s (s\<lparr>objs := updLim l (\<lambda>_. r') (objs s), wanting := remove1 l (wanting s),
      marking := (if won then l # marking s else marking s)\<rparr>)"
| mark: "l \<in> set (marking s) \<Longrightarrow>
    sys_step s (s\<lparr>active := addActive (shard (objs s ! l)) l (active s), marking := remove1 l (marking s)\<rparr>)"
| collect: "i < length (active s) \<Longrightarrow> \<forall>l < length (objs s). shard (objs s ! l) = i \<longrightarrow> phase s l = Idle \<Longrightarrow>
    collectDue i t (objs s) (active s) = (objs', active', due) \<Longrightarrow>
    sys_step s (s\<lparr>objs := objs', active := active', phase := (\<lambda>l. if l \<in> set due then Collected else phase s l)\<rparr>)"
| begin_snap: "phase s l = Collected \<Longrightarrow> l < length (objs s) \<Longrightarrow> r = lim (objs s ! l) \<Longrightarrow>
    sys_step s (setPhase l (snapStart now r) (Snapping (stripeOrder r) (MaxPipelineCommands (cfg r)) [] False) s)"
| stripe: "phase s l = Snapping (j # js) budget batch mor \<Longrightarrow> l < length (objs s) \<Longrightarrow> r = lim (objs s ! l) \<Longrightarrow>
    0 < budget \<Longrightarrow> set (dirty (stripes r ! j)) \<subseteq> set ord \<Longrightarrow>
    snapshotStripe r now ord (stripes r ! j) budget batch mor = (st, budget', batch', mor') \<Longrightarrow>
    sys_step s (setPhase l (r\<lparr>stripes := (stripes r)[j := st]\<rparr>) (Snapping js budget' batch' mor') s)"
| end_snap: "phase s l = Snapping js budget batch mor \<Longrightarrow> l < length (objs s) \<Longrightarrow> js = [] \<or> budget \<le> 0 \<Longrightarrow>
    snapEnd id pong js batch mor (lim (objs s ! l)) = (r', flush, again) \<Longrightarrow>
    sys_step s (setPhase l r' (case flush of None \<Rightarrow> Applied again | Some (b, m) \<Rightarrow> Snapped b m) s)"
| send: "phase s l = Snapped b m \<Longrightarrow> l < length (objs s) \<Longrightarrow> length results = length b \<Longrightarrow>
    sys_step s (setPhase l (lim (objs s ! l)) (Applying (zip b results) m False) s)"
| entry: "phase s l = Applying ((p, res) # xs) m err \<Longrightarrow> l < length (objs s) \<Longrightarrow>
    applyOne (lim (objs s ! l)) p res = (r', mor, created, failed) \<Longrightarrow>
    sys_step s (setPhase l r' (Applying xs (m \<or> mor) (err \<or> failed)) s)"
| end_apply: "phase s l = Applying [] m err \<Longrightarrow> l < length (objs s) \<Longrightarrow>
    sys_step s (setPhase l (noteFlushOutcomeLocked (lim (objs s ! l)) err) (Applied m) s)"
| finish: "phase s l = Applied m \<Longrightarrow> l < length (objs s) \<Longrightarrow> r = lim (objs s ! l) \<Longrightarrow>
    enqueueCAS m (if m then r\<lparr>nextFlushAt := t\<rparr> else r) = (r', won) \<Longrightarrow>
    sys_step s ((setPhase l r' Idle s)\<lparr>marking := (if won then l # marking s else marking s)\<rparr>)"

inductive reach :: "sys \<Rightarrow> sys \<Rightarrow> bool" for s0 where
  start: "reach s0 s0"
| step: "reach s0 s \<Longrightarrow> sys_step s s' \<Longrightarrow> reach s0 s'"

text \<open>A limiter is promised a place in the queue when it is queued, about to be queued, or in a flush that will queue
  it again or has not begun.\<close>

fun promising :: "fphase \<Rightarrow> bool" where
  "promising Collected \<longleftrightarrow> True"
| "promising (Snapping js n b m) \<longleftrightarrow> m"
| "promising (Snapped b m) \<longleftrightarrow> m"
| "promising (Applying xs m e) \<longleftrightarrow> m"
| "promising (Applied m) \<longleftrightarrow> m"
| "promising Idle \<longleftrightarrow> False"

definition promised :: "sys \<Rightarrow> nat \<Rightarrow> bool" where
  "promised s l \<longleftrightarrow> enqueued (lim (objs s ! l)) \<or> l \<in> set (wanting s) \<or> promising (phase s l)"

text \<open>The stripes a snapshot has still to visit.\<close>

fun unvisited :: "fphase \<Rightarrow> nat set" where
  "unvisited (Snapping js n b m) = set js"
| "unvisited _ = {}"

fun flushing :: "fphase \<Rightarrow> bool" where
  "flushing (Snapping js n b m) \<longleftrightarrow> True"
| "flushing (Snapped b m) \<longleftrightarrow> True"
| "flushing (Applying xs m e) \<longleftrightarrow> True"
| "flushing _ \<longleftrightarrow> False"

definition busy :: "async \<Rightarrow> nat \<Rightarrow> bool" where
  "busy r j \<longleftrightarrow> dirty (stripes r ! j) \<noteq> [] \<or> evictedPending (stripes r ! j) \<noteq> []"

text \<open>A limiter is attended to when it is promised a place, or all its work is in stripes that a snapshot has still to visit.\<close>

definition attended :: "sys \<Rightarrow> nat \<Rightarrow> bool" where
  "attended s l \<longleftrightarrow> promised s l \<or> {j. j < numStripes \<and> busy (lim (objs s ! l)) j} \<subseteq> unvisited (phase s l)"

definition down :: "async \<Rightarrow> bool" where
  "down r \<longleftrightarrow> \<not> FailOpen (cfg r) \<and> redisDown r"

definition failedMore :: "fphase \<Rightarrow> bool" where
  "failedMore ph \<longleftrightarrow> (\<forall>xs m. ph = Applying xs m True \<longrightarrow> m)"

definition lim_ok :: "sys \<Rightarrow> nat \<Rightarrow> bool" where
  "lim_ok s l \<longleftrightarrow> shard (objs s ! l) < length (active s) \<and> length (stripes (lim (objs s ! l))) = numStripes \<and>
     (enqueued (lim (objs s ! l)) \<longleftrightarrow> l \<in> set (active s ! shard (objs s ! l)) \<or> l \<in> set (marking s)) \<and>
     count_list (marking s) l \<le> 1 \<and> \<not> (l \<in> set (marking s) \<and> l \<in> set (active s ! shard (objs s ! l))) \<and>
     (\<forall>j < numStripes. busy (lim (objs s ! l)) j \<longrightarrow> promised s l \<or> j \<in> unvisited (phase s l)) \<and>
     (down (lim (objs s ! l)) \<longrightarrow> promised s l \<or> flushing (phase s l)) \<and> failedMore (phase s l) \<and>
     (\<forall>i < length (active s). l \<in> set (active s ! i) \<longrightarrow> i = shard (objs s ! l))"

definition sys_inv :: "sys \<Rightarrow> bool" where
  "sys_inv s \<longleftrightarrow> (\<forall>i < length (active s). \<forall>l \<in> set (active s ! i). l < length (objs s)) \<and>
     (\<forall>l \<in> set (marking s). l < length (objs s)) \<and> (\<forall>l < length (objs s). lim_ok s l)"

lemma lim_ok_other:
  assumes "lim_ok s l" "objs s' ! l = objs s ! l" "length (active s') = length (active s)"
    and "\<And>i. i < length (active s) \<Longrightarrow> l \<in> set (active s' ! i) \<longleftrightarrow> l \<in> set (active s ! i)"
    and "l \<in> set (wanting s) \<longrightarrow> l \<in> set (wanting s')" "count_list (marking s') l = count_list (marking s) l" "phase s' l = phase s l"
  shows "lim_ok s' l"
proof -
  have "l \<in> set (marking s') \<longleftrightarrow> l \<in> set (marking s)" using assms(6) by (metis count_list_0_iff)
  then show ?thesis using assms unfolding lim_ok_def promised_def by auto
qed

lemma length_updLim [simp]: "length (updLim l f os) = length os"
  by (simp add: updLim_def)

lemma updLim_other [simp]: "l' \<noteq> l \<Longrightarrow> updLim l f os ! l' = os ! l'"
  by (simp add: updLim_def)

lemma updLim_same [simp]: "l < length os \<Longrightarrow> updLim l f os ! l = (os ! l)\<lparr>lim := f (lim (os ! l))\<rparr>"
  by (simp add: updLim_def)

lemma set_setAdd [simp]: "set (setAdd l xs) = insert l (set xs)"
  by (auto simp: setAdd_def)

lemma length_addActive [simp]: "length (addActive i l sh) = length sh"
  by (simp add: addActive_def)

lemma addActive_nth: "j < length sh \<Longrightarrow> set (addActive i l sh ! j) = (if j = i then insert l (set (sh ! j)) else set (sh ! j))"
  by (simp add: addActive_def nth_list_update)

text \<open>A step of one limiter keeps the invariant if it keeps it for that limiter.\<close>

lemma sys_inv_one:
  assumes inv: "sys_inv s" and l: "l < length (objs s)"
    and objs: "length (objs s') = length (objs s)" "\<And>k. k \<noteq> l \<Longrightarrow> objs s' ! k = objs s ! k"
    and act: "length (active s') = length (active s)"
      "\<And>i k. i < length (active s) \<Longrightarrow> k \<noteq> l \<Longrightarrow> k \<in> set (active s' ! i) \<longleftrightarrow> k \<in> set (active s ! i)"
    and rest: "\<And>k. k \<noteq> l \<Longrightarrow> k \<in> set (wanting s) \<longrightarrow> k \<in> set (wanting s')"
      "\<And>k. k \<noteq> l \<Longrightarrow> count_list (marking s') k = count_list (marking s) k" "\<And>k. k \<noteq> l \<Longrightarrow> phase s' k = phase s k"
    and ok: "lim_ok s' l"
  shows "sys_inv s'"
proof -
  have "k < length (objs s)" if "k \<in> set (marking s')" for k
    using inv l rest(2) [of k] that unfolding sys_inv_def by (cases "k = l") (metis count_list_0_iff)+
  moreover have "k < length (objs s)" if "i < length (active s)" "k \<in> set (active s' ! i)" for i k
    using inv l act(2) [OF that(1)] that unfolding sys_inv_def by (cases "k = l") auto
  moreover have "lim_ok s' k" if "k < length (objs s)" for k
  proof (cases "k = l")
    case False
    have "lim_ok s k" using inv that by (simp add: sys_inv_def)
    then show ?thesis
      by (rule lim_ok_other [OF _ objs(2) [OF False] act(1) act(2) [OF _ False] rest(1) [OF False] rest(2) [OF False] rest(3) [OF False]])
  qed (use ok in simp)
  ultimately show ?thesis using objs(1) act(1) by (simp add: sys_inv_def)
qed

lemma sys_invD: "sys_inv s \<Longrightarrow> l < length (objs s) \<Longrightarrow> lim_ok s l"
  by (simp add: sys_inv_def)

lemma setPhase_simps [simp]:
  "l < length (objs s) \<Longrightarrow> objs (setPhase l r ph s) ! l = (objs s ! l)\<lparr>lim := r\<rparr>" "phase (setPhase l r ph s) l = ph"
  "active (setPhase l r ph s) = active s" "wanting (setPhase l r ph s) = wanting s" "marking (setPhase l r ph s) = marking s"
  by (simp_all add: setPhase_def)

text \<open>A step of a flush that leaves the queue flag, the shard and the requests alone.\<close>

lemma sys_inv_flush:
  assumes inv: "sys_inv s" and l: "l < length (objs s)" and r: "r = lim (objs s ! l)"
    and keep: "enqueued r' = enqueued r" "length (stripes r') = length (stripes r)"
    and work: "\<And>j. j < numStripes \<Longrightarrow> busy r' j \<Longrightarrow> busy r j \<longrightarrow> promising (phase s l) \<or> j \<in> unvisited (phase s l) \<Longrightarrow> promising ph \<or> j \<in> unvisited ph"
    and down: "down r' \<Longrightarrow> down r \<longrightarrow> promising (phase s l) \<or> flushing (phase s l) \<Longrightarrow> promising ph \<or> flushing ph"
    and failed: "failedMore (phase s l) \<Longrightarrow> failedMore ph"
  shows "sys_inv (setPhase l r' ph s)"
proof (rule sys_inv_one [OF inv l])
  have ok: "lim_ok s l" using inv l by (rule sys_invD)
  have "\<forall>j < numStripes. busy r' j \<longrightarrow> promised (setPhase l r' ph s) l \<or> j \<in> unvisited ph"
    using ok work keep l unfolding lim_ok_def promised_def r by auto
  moreover have "down r' \<longrightarrow> promised (setPhase l r' ph s) l \<or> flushing ph"
    using ok down keep l unfolding lim_ok_def promised_def r by auto
  ultimately show "lim_ok (setPhase l r' ph s) l"
    using ok keep failed l unfolding lim_ok_def r by auto
qed (auto simp: setPhase_def)

section \<open>The steps keep the invariant\<close>

lemma busy_setStripe: "length (stripes r) = numStripes \<Longrightarrow> j < numStripes \<Longrightarrow>
    busy (setStripe r k s) j = (if j = stripeFor k then dirty s \<noteq> [] \<or> evictedPending s \<noteq> [] else busy r j)"
  by (simp add: busy_def setStripe_def nth_list_update)

lemma has_work_busy: "length (stripes r) = numStripes \<Longrightarrow> has_work r \<longleftrightarrow> (\<exists>j < numStripes. busy r j)"
proof -
  assume len: "length (stripes r) = numStripes"
  have "has_work r \<longleftrightarrow> (\<exists>j < length (stripes r). busy r j)"
    unfolding has_work_def busy_def by (metis in_set_conv_nth)
  then show ?thesis by (simp add: len)
qed

lemma busy_queues:
  assumes "queues r' = queues r" "j < length (stripes r)"
  shows "busy r' j = busy r j"
proof -
  have "length (stripes r') = length (stripes r)" using arg_cong [OF assms(1), of length] by (simp add: queues_def)
  moreover have "queues r' ! j = queues r ! j" using assms(1) by simp
  ultimately show ?thesis using assms(2) by (simp add: queues_def busy_def)
qed

lemma checkLocked_work:
  assumes run: "checkLocked r key n now ord = (r', allowed, remaining, need)" and len: "length (stripes r) = numStripes"
  shows "same_flags r r'" "j < numStripes \<Longrightarrow> busy r' j \<Longrightarrow> busy r j \<or> need"
proof -
  obtain s st where load: "loadState r (getStripe r key) key (WindowStart (apolicy r) now) now ord = (s, st)"
    by (cases "loadState r (getStripe r key) key (WindowStart (apolicy r) now) now ord")
  obtain st' wants where dec: "decide r st n = (st', allowed, wants)"
    and r': "r' = setStripe r key (s\<lparr>states := AList.update key st' (states s),
      dirty := (if allowed \<and> 0 < n then mapAdd key (dirty s) else dirty s)\<rparr>)"
    and need: "need \<longleftrightarrow> evictedPending s \<noteq> [] \<or> wants"
    using run by (auto simp: checkLocked_def Let_def load split: prod.splits)
  show "same_flags r r'" by (simp add: r')
  have wants: "allowed \<and> 0 < n \<longrightarrow> wants" using dec by (auto simp: decide_def split: if_splits)
  show "busy r j \<or> need" if "j < numStripes" "busy r' j"
  proof (cases "j = stripeFor key")
    case True
    then have "busy r j \<longleftrightarrow> dirty (getStripe r key) \<noteq> [] \<or> evictedPending (getStripe r key) \<noteq> []" by (simp add: busy_def getStripe_def)
    then show ?thesis
      using that True wants need loadState_dirty [OF load] len by (auto simp: r' busy_setStripe split: if_splits)
  qed (use that len in \<open>simp add: r' busy_setStripe\<close>)
qed

lemma sys_inv_check:
  assumes inv: "sys_inv s" and l: "l < length (objs s)"
    and run: "checkLocked (lim (objs s ! l)) key n now ord = (r', allowed, remaining, need)"
  shows "sys_inv (s\<lparr>objs := updLim l (\<lambda>_. r') (objs s), wanting := (if need then l # wanting s else wanting s)\<rparr>)"
proof (rule sys_inv_one [OF inv l])
  have ok: "lim_ok s l" using inv l by (rule sys_invD)
  then have len: "length (stripes (lim (objs s ! l))) = numStripes" by (simp add: lim_ok_def)
  note C = checkLocked_work [OF run len]
  show "lim_ok (s\<lparr>objs := updLim l (\<lambda>_. r') (objs s), wanting := (if need then l # wanting s else wanting s)\<rparr>) l"
    using ok C l unfolding lim_ok_def promised_def same_flags_def down_def by auto
qed auto

lemma sys_inv_cas:
  assumes inv: "sys_inv s" and l: "l \<in> set (wanting s)" "l < length (objs s)"
    and run: "enqueueCAS True (lim (objs s ! l)) = (r', won)"
  shows "sys_inv (s\<lparr>objs := updLim l (\<lambda>_. r') (objs s), wanting := remove1 l (wanting s),
      marking := (if won then l # marking s else marking s)\<rparr>)"
proof (rule sys_inv_one [OF inv l(2)])
  have ok: "lim_ok s l" using inv l(2) by (rule sys_invD)
  have r': "enqueued r'" "won \<longleftrightarrow> \<not> enqueued (lim (objs s ! l))" "stripes r' = stripes (lim (objs s ! l))"
    using run by (auto simp: enqueueCAS_def split: if_splits)
  moreover have "won \<longrightarrow> count_list (marking s) l = 0" using ok r'(2) by (auto simp: lim_ok_def count_list_0_iff)
  ultimately show "lim_ok (s\<lparr>objs := updLim l (\<lambda>_. r') (objs s), wanting := remove1 l (wanting s),
      marking := (if won then l # marking s else marking s)\<rparr>) l"
    using ok l unfolding lim_ok_def promised_def by auto
qed auto

lemma sys_inv_mark:
  assumes inv: "sys_inv s" and l: "l \<in> set (marking s)"
  shows "sys_inv (s\<lparr>active := addActive (shard (objs s ! l)) l (active s), marking := remove1 l (marking s)\<rparr>)"
proof -
  have lo: "l < length (objs s)" using inv l by (simp add: sys_inv_def)
  show ?thesis
  proof (rule sys_inv_one [OF inv lo])
    have ok: "lim_ok s l" using inv lo by (rule sys_invD)
    moreover have "l \<notin> set (remove1 l (marking s))" using ok by (auto simp: lim_ok_def in_remove1_iff)
    ultimately show "lim_ok (s\<lparr>active := addActive (shard (objs s ! l)) l (active s), marking := remove1 l (marking s)\<rparr>) l"
      using l unfolding lim_ok_def promised_def by (auto simp: addActive_nth count_list_remove1)
  qed (auto simp: addActive_nth count_list_remove1)
qed

lemma sys_inv_begin:
  assumes "sys_inv s" "phase s l = Collected" "l < length (objs s)" "r = lim (objs s ! l)"
  shows "sys_inv (setPhase l (snapStart now r) (Snapping (stripeOrder r) (MaxPipelineCommands (cfg r)) [] False) s)"
proof (rule sys_inv_flush [OF assms(1,3,4)])
  have "set (stripeOrder r) = {..<numStripes}" unfolding stripeOrder_def by (rule snapshot_order)
  then show "promising (Snapping (stripeOrder r) (MaxPipelineCommands (cfg r)) [] False) \<or>
      j \<in> unvisited (Snapping (stripeOrder r) (MaxPipelineCommands (cfg r)) [] False)" if "j < numStripes" for j
    using that by simp
qed (simp_all add: snapStart_def failedMore_def)

lemma snapshotStripe_clean:
  assumes "snapshotStripe r now ord s budget batch mor = (s', budget', batch', mor')"
  shows "mor \<longrightarrow> mor'" "\<not> mor' \<Longrightarrow> set (dirty s) \<subseteq> set ord \<Longrightarrow> dirty s' = [] \<and> evictedPending s' = []"
proof -
  define tk where "tk = min (length (evictedPending s)) (nat budget)"
  define rest where "rest = drop tk (evictedPending s)"
  obtain d where dr: "drainDirty r (states s) ord (dirty s) (budget - int tk) (batch @ take tk (evictedPending s)) (mor \<or> rest \<noteq> []) = (d, budget', batch', mor')"
    and s': "s' = evictExpiredLocked r (s\<lparr>evictedPending := rest, dirty := d\<rparr>) now"
    using assms by (auto simp: snapshotStripe_def Let_def tk_def rest_def split: prod.splits)
  obtain new where new: "drained r (states s) ord (dirty s) (mor \<or> rest \<noteq> []) d mor' new"
    using drainDirty_spec [OF dr] by blast
  then show "mor \<longrightarrow> mor'" by (simp add: drained_def)
  show "dirty s' = [] \<and> evictedPending s' = []" if "\<not> mor'" "set (dirty s) \<subseteq> set ord"
    using new that unfolding drained_def s' by (auto simp: evictExpiredLocked_def)
qed

lemma sys_inv_stripe:
  assumes "sys_inv s" "phase s l = Snapping (j # js) budget batch mor" "l < length (objs s)" "r = lim (objs s ! l)"
    and "set (dirty (stripes r ! j)) \<subseteq> set ord" "snapshotStripe r now ord (stripes r ! j) budget batch mor = (st, budget', batch', mor')"
  shows "sys_inv (setPhase l (r\<lparr>stripes := (stripes r)[j := st]\<rparr>) (Snapping js budget' batch' mor') s)"
proof (rule sys_inv_flush [OF assms(1,3,4)])
  have len: "length (stripes r) = numStripes" using sys_invD [OF assms(1,3)] by (simp add: lim_ok_def assms(4))
  note C = snapshotStripe_clean [OF assms(6)]
  fix k
  assume k: "k < numStripes" "busy (r\<lparr>stripes := (stripes r)[j := st]\<rparr>) k" "busy r k \<longrightarrow> promising (phase s l) \<or> k \<in> unvisited (phase s l)"
  show "promising (Snapping js budget' batch' mor') \<or> k \<in> unvisited (Snapping js budget' batch' mor')"
  proof (cases "k = j")
    case True
    then have "dirty st \<noteq> [] \<or> evictedPending st \<noteq> []" using k(1,2) len by (simp add: busy_def)
    then show ?thesis using C(2) assms(5) by auto
  next
    case False
    then have "busy r k" using k(2) by (simp add: busy_def)
    then show ?thesis using k(3) False C(1) assms(2) by auto
  qed
qed (simp_all add: failedMore_def assms(2))

lemma sys_inv_end_snap:
  assumes "sys_inv s" "phase s l = Snapping js budget batch mor" "l < length (objs s)"
    and run: "snapEnd ping R js batch mor (lim (objs s ! l)) = (r', flush, again)"
  shows "sys_inv (setPhase l r' (case flush of None \<Rightarrow> Applied again | Some (b, m) \<Rightarrow> Snapped b m) s)"
proof -
  let ?r = "lim (objs s ! l)" and ?ph = "case flush of None \<Rightarrow> Applied again | Some (b, m) \<Rightarrow> Snapped b m"
  have note_same: "enqueued (noteFlushOutcomeLocked x b) = enqueued x" "cfg (noteFlushOutcomeLocked x b) = cfg x"
    "stripes (noteFlushOutcomeLocked x b) = stripes x" for x b
    by (simp_all add: noteFlushOutcomeLocked_def Let_def)
  have keep: "enqueued r' = enqueued ?r" "stripes r' = stripes ?r"
    using run by (auto simp: snapEnd_def Let_def probeRedisLocked_def note_same split: if_splits)
  have ph: "mor \<or> js \<noteq> [] \<longrightarrow> promising ?ph" "down r' \<longrightarrow> promising ?ph \<or> flushing ?ph" "failedMore ?ph"
    using run by (auto simp: snapEnd_def Let_def probeRedisLocked_def note_same down_def failedMore_def split: if_splits)
  have same: "busy r' j = busy ?r j" for j using keep(2) by (simp add: busy_def)
  show ?thesis
    by (rule sys_inv_flush [OF assms(1,3) refl]) (use ph keep assms(2) in \<open>auto simp: same\<close>)
qed

lemma sys_inv_send:
  assumes "sys_inv s" "phase s l = Snapped b m" "l < length (objs s)"
  shows "sys_inv (setPhase l (lim (objs s ! l)) (Applying (zip b results) m False) s)"
  by (rule sys_inv_flush [OF assms(1,3) refl]) (use assms(2) in \<open>simp_all add: failedMore_def\<close>)

lemma sys_inv_entry:
  assumes "sys_inv s" "phase s l = Applying ((p, res) # xs) m err" "l < length (objs s)"
    and run: "applyOne (lim (objs s ! l)) p res = (r', mor, created, failed)"
  shows "sys_inv (setPhase l r' (Applying xs (m \<or> mor) (err \<or> failed)) s)"
proof -
  have len: "length (stripes (lim (objs s ! l))) = numStripes" using sys_invD [OF assms(1,3)] by (simp add: lim_ok_def)
  note A = applyOne_work [OF run len]
  have same: "mor \<or> (busy r' j \<longleftrightarrow> busy (lim (objs s ! l)) j)" if "j < numStripes" for j
    using A(2) busy_queues [of r' "lim (objs s ! l)" j] that len by auto
  have flags: "enqueued r' = enqueued (lim (objs s ! l))" "length (stripes r') = length (stripes (lim (objs s ! l)))"
    "redisDown r' = redisDown (lim (objs s ! l))" "cfg r' = cfg (lim (objs s ! l))"
    using A(1) by (simp_all add: same_flags_def)
  show ?thesis
  proof (rule sys_inv_flush [OF assms(1,3) refl flags(1,2)])
    show "promising (Applying xs (m \<or> mor) (err \<or> failed)) \<or> j \<in> unvisited (Applying xs (m \<or> mor) (err \<or> failed))"
      if "j < numStripes" "busy r' j" "busy (lim (objs s ! l)) j \<longrightarrow> promising (phase s l) \<or> j \<in> unvisited (phase s l)" for j
      using that same [OF that(1)] assms(2) by auto
    show "failedMore (Applying xs (m \<or> mor) (err \<or> failed))" if "failedMore (phase s l)"
      using that A(3) assms(2) unfolding failedMore_def by auto
  qed simp
qed

lemma sys_inv_end_apply:
  assumes "sys_inv s" "phase s l = Applying [] m err" "l < length (objs s)"
  shows "sys_inv (setPhase l (noteFlushOutcomeLocked (lim (objs s ! l)) err) (Applied m) s)"
proof -
  have "err \<longrightarrow> m" using sys_invD [OF assms(1,3)] assms(2) by (auto simp: lim_ok_def failedMore_def)
  then show ?thesis
    by (intro sys_inv_flush [OF assms(1,3) refl])
      (use assms(2) in \<open>auto simp: noteFlushOutcomeLocked_def Let_def busy_def down_def failedMore_def\<close>)
qed

lemma sys_inv_finish:
  assumes inv: "sys_inv s" and ph: "phase s l = Applied m" and l: "l < length (objs s)" and r: "r = lim (objs s ! l)"
    and run: "enqueueCAS m (if m then r\<lparr>nextFlushAt := t\<rparr> else r) = (r', won)"
  shows "sys_inv ((setPhase l r' Idle s)\<lparr>marking := (if won then l # marking s else marking s)\<rparr>)"
proof (rule sys_inv_one [OF inv l])
  have ok: "lim_ok s l" using inv l by (rule sys_invD)
  have r': "enqueued r' \<longleftrightarrow> m \<or> enqueued r" "won \<longleftrightarrow> m \<and> \<not> enqueued r" "stripes r' = stripes r" "cfg r' = cfg r" "redisDown r' = redisDown r"
    using run by (auto simp: enqueueCAS_def split: if_splits)
  have "busy r' j = busy r j" "down r' = down r" for j using r' by (simp_all add: busy_def down_def)
  moreover have "won \<longrightarrow> count_list (marking s) l = 0" using ok r'(2) by (auto simp: lim_ok_def count_list_0_iff r)
  ultimately show "lim_ok ((setPhase l r' Idle s)\<lparr>marking := (if won then l # marking s else marking s)\<rparr>) l"
    using ok r' l ph unfolding lim_ok_def promised_def r by (auto simp: setPhase_def failedMore_def)
qed (auto simp: setPhase_def)

lemma fold_clear:
  "length (fold (\<lambda>l. updLim l (\<lambda>r. r\<lparr>enqueued := False\<rparr>)) ls os) = length os"
  "k < length os \<Longrightarrow> fold (\<lambda>l. updLim l (\<lambda>r. r\<lparr>enqueued := False\<rparr>)) ls os ! k =
    (if k \<in> set ls then (os ! k)\<lparr>lim := (lim (os ! k))\<lparr>enqueued := False\<rparr>\<rparr> else os ! k)"
proof (induction ls arbitrary: os)
  case (Cons l ls)
  { case 1 show ?case using Cons.IH(1) by simp }
  { case 2 then show ?case using Cons.IH(2) [of "updLim l (\<lambda>r. r\<lparr>enqueued := False\<rparr>) os"] by (cases "k = l") auto }
qed simp_all

lemma sys_inv_collect:
  assumes inv: "sys_inv s" and i: "i < length (active s)"
    and idle: "\<forall>l < length (objs s). shard (objs s ! l) = i \<longrightarrow> phase s l = Idle"
    and run: "collectDue i t (objs s) (active s) = (objs', active', due)"
  shows "sys_inv (s\<lparr>objs := objs', active := active', phase := (\<lambda>l. if l \<in> set due then Collected else phase s l)\<rparr>)"
    (is "sys_inv ?s")
proof -
  have due: "set due = {l \<in> set (active s ! i). isDue t (objs s) l}"
    and objs': "objs' = fold (\<lambda>l. updLim l (\<lambda>r. r\<lparr>enqueued := False\<rparr>)) due (objs s)"
    and act': "active' = (active s)[i := filter (\<lambda>l. \<not> isDue t (objs s) l) (active s ! i)]"
    using run by (auto simp: collectDue_def Let_def)
  have len: "length objs' = length (objs s)" by (simp add: objs' fold_clear)
  have act: "k \<in> set (active' ! j) \<longleftrightarrow> k \<in> set (active s ! j) \<and> \<not> (j = i \<and> k \<in> set due)" if "j < length (active s)" for j k
    using that i due by (cases "j = i") (auto simp: act')
  have "lim_ok ?s k" if k: "k < length (objs s)" for k
  proof -
    have ok: "lim_ok s k" using inv k by (rule sys_invD)
    show ?thesis
    proof (cases "k \<in> set due")
      case True
      then have home: "shard (objs s ! k) = i" "k \<in> set (active s ! i)" using ok i due by (auto simp: lim_ok_def)
      have marks: "k \<notin> set (marking s)" using ok home by (auto simp: lim_ok_def)
      have o: "objs' ! k = (objs s ! k)\<lparr>lim := (lim (objs s ! k))\<lparr>enqueued := False\<rparr>\<rparr>"
        using k True by (simp add: objs' fold_clear)
      have out: "k \<notin> set (active' ! j)" if "j < length (active s)" for j
        using ok home(1) True act [OF that] that by (auto simp: lim_ok_def)
      have al: "length active' = length (active s)" by (simp add: act')
      have base: "shard (objs s ! k) < length (active s)" "length (stripes (lim (objs s ! k))) = numStripes"
        "count_list (marking s) k \<le> 1" using ok by (simp_all add: lim_ok_def)
      show ?thesis
        unfolding lim_ok_def promised_def failedMore_def using marks out base True by (simp add: o al)
    next
      case False
      then have o: "objs' ! k = objs s ! k" using k by (simp add: objs' fold_clear)
      show ?thesis
        by (rule lim_ok_other [OF ok]) (use False o act in \<open>auto simp: act'\<close>)
    qed
  qed
  then show ?thesis using inv len act by (auto simp: sys_inv_def act')
qed

lemma sys_inv_step: "sys_step s s' \<Longrightarrow> sys_inv s \<Longrightarrow> sys_inv s'"
proof (induction rule: sys_step.induct)
  case check
  show ?case by (rule sys_inv_check [OF check.prems check.hyps])
next
  case cas
  show ?case by (rule sys_inv_cas [OF cas.prems cas.hyps])
next
  case mark
  show ?case by (rule sys_inv_mark [OF mark.prems mark.hyps])
next
  case collect
  show ?case by (rule sys_inv_collect [OF collect.prems collect.hyps])
next
  case begin_snap
  show ?case by (rule sys_inv_begin [OF begin_snap.prems begin_snap.hyps])
next
  case stripe
  show ?case by (rule sys_inv_stripe [OF stripe.prems stripe.hyps(1,2,3,5,6)])
next
  case end_snap
  show ?case by (rule sys_inv_end_snap [OF end_snap.prems end_snap.hyps(1,2,4)])
next
  case send
  show ?case by (rule sys_inv_send [OF send.prems send.hyps(1,2)])
next
  case entry
  show ?case by (rule sys_inv_entry [OF entry.prems entry.hyps])
next
  case end_apply
  show ?case by (rule sys_inv_end_apply [OF end_apply.prems end_apply.hyps])
next
  case finish
  show ?case by (rule sys_inv_finish [OF finish.prems finish.hyps])
qed

lemma sys_inv_reach: "reach s0 s \<Longrightarrow> sys_inv s0 \<Longrightarrow> sys_inv s"
  by (induction rule: reach.induct) (auto intro: sys_inv_step)

text \<open>The system before any request: fresh limiters, assigned to the shards of a new coordinator.\<close>

definition initSys :: "limiter_obj list \<Rightarrow> nat \<Rightarrow> sys" where
  "initSys os n = \<lparr>objs = os, active = replicate n [], wanting = [], marking = [], phase = (\<lambda>_. Idle)\<rparr>"

definition fresh :: "async \<Rightarrow> bool" where
  "fresh r \<longleftrightarrow> (\<exists>p prefix c now. r = newRedisLocalAsyncLimiterWith p prefix c now)"

lemma sys_inv_init:
  assumes "\<forall>x \<in> set os. fresh (lim x) \<and> shard x < n"
  shows "sys_inv (initSys os n)"
proof -
  have new: "length (stripes r) = numStripes \<and> \<not> enqueued r \<and> (\<forall>j < numStripes. \<not> busy r j) \<and> \<not> down r" if "fresh r" for r
    using that by (auto simp: fresh_def newRedisLocalAsyncLimiterWith_def Let_def busy_def down_def newStripe_def)
  show ?thesis using assms new by (auto simp: sys_inv_def initSys_def lim_ok_def failedMore_def)
qed


definition demoObj :: limiter_obj where
  "demoObj = \<lparr>lim = demoAsync, shard = 0, client = 0\<rparr>"

definition demoChecked :: sys where
  "demoChecked = (initSys [demoObj] 1)\<lparr>objs := updLim 0 (\<lambda>_. fst (checkLocked demoAsync ''a'' 4 5 [])) [demoObj], wanting := [0]\<rparr>"

lemma demoChecked_reach: "reach (initSys [demoObj] 1) demoChecked"
proof -
  have "sys_step (initSys [demoObj] 1) demoChecked"
    unfolding demoChecked_def
    using sys_step.check [of 0 "initSys [demoObj] 1" "''a''" 4 5 "[]"]
    by (simp add: initSys_def demoObj_def demo_eval)
  then show ?thesis by (meson reach.start reach.step)
qed

lemma demoChecked_work: "has_work (lim (objs demoChecked ! 0))"
  by (simp add: demoChecked_def initSys_def demoObj_def has_work_def demo_eval)
    (rule bexI [OF _ set_update_memI], simp_all)


section \<open>The steps make up the operations\<close>

lemma reach_trans: "reach b c \<Longrightarrow> reach a b \<Longrightarrow> reach a c"
  by (induction rule: reach.induct) (auto intro: reach.step)

lemma reach_one: "sys_step a b \<Longrightarrow> reach a b"
  by (blast intro: reach.intros)

lemma setPhase_same: "l < length (objs s) \<Longrightarrow> setPhase l (lim (objs s ! l)) (phase s l) s = s"
  by (simp add: setPhase_def updLim_def)

lemma setPhase_length: "length (objs (setPhase l r ph s)) = length (objs s)"
  by (simp add: setPhase_def)

lemma setPhase_twice: "setPhase l r ph (setPhase l r' ph' s) = setPhase l r ph s"
  by (cases "l < length (objs s)") (simp_all add: setPhase_def updLim_def list_update_beyond)

lemma drainDirty_frame: "redisKeyFor r' = redisKeyFor r \<Longrightarrow> drainDirty r' m ks d n b mor = drainDirty r m ks d n b mor"
proof (induction ks arbitrary: d n b mor)
  case (Cons k ks)
  then show ?case using \<open>redisKeyFor r' = redisKeyFor r\<close> by (simp only: drainDirty.simps)
qed simp

lemma snapshotStripe_frame:
  assumes "keyPrefix r' = keyPrefix r" "apolicy r' = apolicy r"
  shows "snapshotStripe r' now ord st n b mor = snapshotStripe r now ord st n b mor"
proof -
  have "redisKeyFor r' = redisKeyFor r" using assms(1) by (intro ext) (simp add: redisKeyFor_def)
  then have "drainDirty r' m ks d n b mor = drainDirty r m ks d n b mor" for m ks d n b mor by (rule drainDirty_frame)
  moreover have "stateExpired r' now x = stateExpired r now x" for x using assms(2) by (simp add: stateExpired_def)
  ultimately show ?thesis by (simp add: snapshotStripe_def evictExpiredLocked_def cong: option.case_cong)
qed

lemma loop_steps:
  assumes "phase s l = Snapping js n b m" "l < length (objs s)" "distinct js"
    and "\<forall>j \<in> set js. j < length (stripes (lim (objs s ! l))) \<and> set (dirty (stripes (lim (objs s ! l)) ! j)) \<subseteq> set (ords j)"
    and "keyPrefix r = keyPrefix (lim (objs s ! l))" "apolicy r = apolicy (lim (objs s ! l))"
    and "snapshotLoop r now ords js (stripes (lim (objs s ! l))) n b m = (ss, b', m')"
  shows "\<exists>js' n' m''. reach s (setPhase l ((lim (objs s ! l))\<lparr>stripes := ss\<rparr>) (Snapping js' n' b' m'') s) \<and>
    (js' = [] \<or> n' \<le> 0) \<and> m' = (m'' \<or> js' \<noteq> [])"
  using assms
proof (induction js arbitrary: s n b m)
  case Nil
  have same: "setPhase l ((lim (objs s ! l))\<lparr>stripes := ss\<rparr>) (Snapping [] n b' m') s = s"
    using setPhase_same [OF Nil(2)] Nil(1,7) by auto
  then show ?case using reach.start [of s] by (intro exI [of _ "[]"] exI [of _ n] exI [of _ m']) simp
next
  case (Cons j js)
  let ?r = "lim (objs s ! l)"
  show ?case
  proof (cases "n \<le> 0")
    case True
    have "setPhase l (?r\<lparr>stripes := ss\<rparr>) (Snapping (j # js) n b' m) s = s"
      using setPhase_same [OF Cons.prems(2)] Cons.prems(1,7) True by auto
    then show ?thesis using Cons.prems(7) True reach.start [of s] by (intro exI [of _ "j # js"] exI [of _ n] exI [of _ m]) simp
  next
    case False
    obtain st n1 b1 m1 where one: "snapshotStripe r now (ords j) (stripes ?r ! j) n b m = (st, n1, b1, m1)" by (metis prod.collapse)
    then have here: "snapshotStripe ?r now (ords j) (stripes ?r ! j) n b m = (st, n1, b1, m1)"
      using snapshotStripe_frame [OF Cons.prems(5,6)] by simp
    let ?s = "setPhase l (?r\<lparr>stripes := (stripes ?r)[j := st]\<rparr>) (Snapping js n1 b1 m1) s"
    have step: "sys_step s ?s" using sys_step.stripe [OF Cons.prems(1,2) refl _ _ here] False Cons.prems(4) by simp
    have lim: "lim (objs ?s ! l) = ?r\<lparr>stripes := (stripes ?r)[j := st]\<rparr>" using Cons.prems(2) by simp
    have "\<exists>js' n' m''. reach ?s (setPhase l ((lim (objs ?s ! l))\<lparr>stripes := ss\<rparr>) (Snapping js' n' b' m'') ?s) \<and>
        (js' = [] \<or> n' \<le> 0) \<and> m' = (m'' \<or> js' \<noteq> [])"
    proof (rule Cons.IH)
      have "j \<notin> set js" using Cons.prems(3) by simp
      then show "\<forall>k \<in> set js. k < length (stripes (lim (objs ?s ! l))) \<and> set (dirty (stripes (lim (objs ?s ! l)) ! k)) \<subseteq> set (ords k)"
        using Cons.prems(4) by (auto simp: lim nth_list_update)
      show "snapshotLoop r now ords js (stripes (lim (objs ?s ! l))) n1 b1 m1 = (ss, b', m')"
        using Cons.prems(7) one False by (simp add: lim)
    qed (use Cons.prems in \<open>simp_all add: lim setPhase_def\<close>)
    then obtain js' n' m'' where ih: "reach ?s (setPhase l (?r\<lparr>stripes := ss\<rparr>) (Snapping js' n' b' m'') s)"
      "js' = [] \<or> n' \<le> 0" "m' = (m'' \<or> js' \<noteq> [])"
      unfolding lim setPhase_twice by auto
    then show ?thesis using reach_trans [OF ih(1) reach_one [OF step]] by blast
  qed
qed

text \<open>A snapshot that nothing interrupts is \<^const>\<open>snapshotDue\<close>.\<close>

lemma snapshot_steps:
  assumes "phase s l = Collected" "l < length (objs s)" "length (stripes (lim (objs s ! l))) = numStripes"
    and "\<forall>j < numStripes. set (dirty (stripes (lim (objs s ! l)) ! j)) \<subseteq> set (ords j)"
    and "snapshotDue id pong now wnow ords (lim (objs s ! l)) = (r', flush, again)"
  shows "reach s (setPhase l r' (case flush of None \<Rightarrow> Applied again | Some (b, m) \<Rightarrow> Snapped b m) s)"
proof -
  let ?r = "lim (objs s ! l)" let ?q = "snapStart now ?r"
  let ?s = "setPhase l ?q (Snapping (stripeOrder ?r) (MaxPipelineCommands (cfg ?r)) [] False) s"
  obtain ss b m where loop: "snapshotLoop ?q wnow ords (stripeOrder ?r) (stripes ?r) (MaxPipelineCommands (cfg ?r)) [] False = (ss, b, m)"
    by (metis prod.collapse)
  have lim: "lim (objs ?s ! l) = ?q" using assms(2) by simp
  have ord: "set (stripeOrder ?r) = {..<numStripes}" "distinct (stripeOrder ?r)" unfolding stripeOrder_def by (simp_all only: snapshot_order)
  have st: "stripes ?q = stripes ?r" by (simp add: snapStart_def)
  have lo: "phase ?s l = Snapping (stripeOrder ?r) (MaxPipelineCommands (cfg ?r)) [] False" "l < length (objs ?s)"
    using assms(2) by (simp_all add: setPhase_def)
  have "\<exists>js' n' m''. reach ?s (setPhase l ((lim (objs ?s ! l))\<lparr>stripes := ss\<rparr>) (Snapping js' n' b m'') ?s) \<and> (js' = [] \<or> n' \<le> 0) \<and> m = (m'' \<or> js' \<noteq> [])"
    by (rule loop_steps [OF lo ord(2), where r = ?q]) (use ord(1) assms(3,4) loop in \<open>auto simp: lim st\<close>)
  then obtain js' n' m'' where ls: "reach ?s (setPhase l (?q\<lparr>stripes := ss\<rparr>) (Snapping js' n' b m'') s)" "js' = [] \<or> n' \<le> 0" "m = (m'' \<or> js' \<noteq> [])"
    unfolding lim setPhase_twice by auto
  let ?t = "setPhase l (?q\<lparr>stripes := ss\<rparr>) (Snapping js' n' b m'') s"
  have "snapEnd id pong js' b m'' (?q\<lparr>stripes := ss\<rparr>) = (r', flush, again)"
    using assms(5) loop ls(3) by (simp add: snapshotDue_def snapEnd_def snapshotPendingLocked_def stripeOrder_def snapStart_def Let_def split: if_splits)
  then have "sys_step ?t (setPhase l r' (case flush of None \<Rightarrow> Applied again | Some (b, m) \<Rightarrow> Snapped b m) ?t)"
    using assms(2) ls(2) by (intro sys_step.end_snap) (auto simp: setPhase_def)
  moreover have "sys_step s ?s" by (rule sys_step.begin_snap [OF assms(1,2) refl])
  ultimately show ?thesis unfolding setPhase_twice using ls(1) by (meson reach.start reach.step reach_trans)
qed

lemma entry_steps:
  assumes "phase s l = Applying xs m err" "l < length (objs s)" "applyResultsLocked (lim (objs s ! l)) xs = (r', mor, creators, failed)"
  shows "reach s (setPhase l r' (Applying [] (m \<or> mor) (err \<or> failed)) s)"
  using assms
proof (induction xs arbitrary: s m err mor failed creators)
  case Nil
  then show ?case using setPhase_same [OF Nil(2)] reach.start [of s] by simp
next
  case (Cons x xs)
  obtain p res where x: "x = (p, res)" by (cases x)
  obtain r1 m1 c1 e1 where one: "applyOne (lim (objs s ! l)) p res = (r1, m1, c1, e1)" by (metis prod.collapse)
  obtain m2 c2 e2 where rest: "applyResultsLocked r1 xs = (r', m2, c2, e2)" "mor = (m1 \<or> m2)" "failed = (e1 \<or> e2)"
    using Cons.prems(3) by (auto simp: x one Let_def split: prod.splits)
  let ?s = "setPhase l r1 (Applying xs (m \<or> m1) (err \<or> e1)) s"
  have "sys_step s ?s" using sys_step.entry [OF Cons.prems(1) [unfolded x] Cons.prems(2) one] .
  moreover have "reach ?s (setPhase l r' (Applying [] ((m \<or> m1) \<or> m2) ((err \<or> e1) \<or> e2)) ?s)"
    by (rule Cons.IH) (use Cons.prems(2) rest in \<open>simp_all add: setPhase_def\<close>)
  ultimately show ?case unfolding setPhase_twice using rest(2,3) by (simp add: reach_trans reach_one disj_assoc)
qed

text \<open>Results that nothing interrupts are applied as \<^const>\<open>applyMember\<close> does.\<close>

lemma apply_steps:
  assumes "phase s l = Snapped b m" "l < length (objs s)" "length results = length b"
    and "applyMember \<lparr>fl = l, fbatch = b, fmore = m\<rparr> results (lim (objs s ! l)) = (r', m', exps)"
  shows "reach s (setPhase l r' (Applied m') s)"
proof -
  let ?r = "lim (objs s ! l)" let ?s = "setPhase l ?r (Applying (zip b results) m False) s"
  obtain r1 mor cr err where ap: "applyResultsLocked ?r (zip b results) = (r1, mor, cr, err)" by (metis prod.collapse)
  have r': "r' = noteFlushOutcomeLocked r1 err" "m' = (m \<or> mor)" using assms(4) ap by (auto simp: applyMember_def)
  let ?t = "setPhase l r1 (Applying [] (m \<or> mor) err) s"
  have "sys_step s ?s" by (rule sys_step.send [OF assms(1-3)])
  moreover have "reach ?s ?t" using entry_steps [of ?s l "zip b results" m False r1 mor cr err] assms(2) ap
    by (simp add: setPhase_twice setPhase_def updLim_def)
  moreover have "sys_step ?t (setPhase l r' (Applied m') s)"
    using sys_step.end_apply [of ?t l "m \<or> mor" err] assms(2) unfolding setPhase_twice r' by (simp add: setPhase_length)
  ultimately show ?thesis by (meson reach.start reach.step reach_trans)
qed

section \<open>Batches per client\<close>

lemma demux_zip:
  assumes "length results = off + length (concat (map fbatch fs))"
  shows "concat (map (\<lambda>(f, rs). zip (fbatch f) rs) (demux off fs results)) = zip (concat (map fbatch fs)) (drop off results)"
  using assms
proof (induction fs arbitrary: off)
  case (Cons f fs)
  have "zip (fbatch f @ rest) (drop off results) =
      zip (fbatch f) (take (length (fbatch f)) (drop off results)) @ zip rest (drop (off + length (fbatch f)) results)" for rest
    by (simp add: zip_append1 add.commute)
  then show ?case using Cons by (simp add: add.assoc)
qed simp

definition grouped :: "limiter_obj list \<Rightarrow> (nat \<times> limFlush list) list \<Rightarrow> bool" where
  "grouped os groups \<longleftrightarrow> map_ok groups \<and> (\<forall>(c, members) \<in> set groups. members \<noteq> [] \<and> (\<forall>f \<in> set members. client (os ! fl f) = c))"

lemma mset_update_append:
  assumes "map_ok groups" "map_of groups c = Some members"
  shows "mset (concat (map snd (AList.update c (members @ [f]) groups))) = add_mset f (mset (concat (map snd groups)))"
  using assms by (induction groups) (auto simp: map_ok_def split: if_splits)

lemma groupByClient_spec:
  "grouped os groups \<Longrightarrow> grouped os (groupByClient os fs groups) \<and>
    mset (concat (map snd (groupByClient os fs groups))) = mset (concat (map snd groups)) + mset fs"
proof (induction os fs groups rule: groupByClient.induct)
  case (2 os f fs groups)
  let ?c = "client (os ! fl f)"
  let ?g = "case map_of groups ?c of Some members \<Rightarrow> AList.update ?c (members @ [f]) groups | None \<Rightarrow> groups @ [(?c, [f])]"
  have ok: "map_ok groups" using 2(2) by (simp add: grouped_def)
  have "grouped os ?g \<and> mset (concat (map snd ?g)) = add_mset f (mset (concat (map snd groups)))"
  proof (cases "map_of groups ?c")
    case None
    then have "?c \<notin> fst ` set groups" by (simp add: map_of_eq_None_iff)
    then show ?thesis using 2(2) None by (auto simp: grouped_def map_ok_def)
  next
    case (Some members)
    have mem: "(?c, members) \<in> set groups" using Some by (rule map_of_SomeD)
    have upd: "(c, ms) = (?c, members @ [f]) \<or> (c, ms) \<in> set groups"
      if "(c, ms) \<in> set (AList.update ?c (members @ [f]) groups)" for c ms
    proof -
      have "map_of (AList.update ?c (members @ [f]) groups) c = Some ms" using that ok map_ok_mem map_ok_update by metis
      then show ?thesis by (auto split: if_splits dest: map_of_SomeD)
    qed
    have "grouped os (AList.update ?c (members @ [f]) groups)"
      using 2(2) ok mem upd unfolding grouped_def by fastforce
    then show ?thesis using Some mset_update_append [OF ok Some] by simp
  qed
  then show ?case using 2(1) by (simp add: Let_def)
qed simp

text \<open>One pipeline per client. The groups of a tick put every flush in exactly one group, that
  of its limiter's client, with one group for each client; and when the pipeline has a result for
  each command, the slices handed back to the members pair each entry with its own result.\<close>

lemma coord_batches_per_client:
  "distinct (map fst (groupByClient os fs [])) \<and>
   mset (concat (map snd (groupByClient os fs []))) = mset fs \<and>
   (\<forall>(c, members) \<in> set (groupByClient os fs []). \<forall>f \<in> set members. client (os ! fl f) = c) \<and>
   (length results = length (concat (map fbatch members)) \<longrightarrow>
     concat (map (\<lambda>(f, rs). zip (fbatch f) rs) (demux 0 members results)) = zip (concat (map fbatch members)) results)"
  using groupByClient_spec [of os "[]" fs] demux_zip [of results 0 members]
  by (auto simp: grouped_def map_ok_def)

definition demoFlush :: limFlush where
  "demoFlush = \<lparr>fl = 0, fbatch = [\<lparr>pfKey = ''a'', pfRedisKey = ''rl:a:0'', flushN = 4, pfWs = 0, evicted = False\<rparr>], fmore = False\<rparr>"

lemma coord_batches_per_client_example:
  "length [Ret 4, Ret 8] = length (concat (map fbatch [demoFlush, demoFlush])) \<and>
   distinct (map fst (groupByClient [demoObj] [demoFlush, demoFlush] [])) \<and>
   concat (map (\<lambda>(f, rs). zip (fbatch f) rs) (demux 0 [demoFlush, demoFlush] [Ret 4, Ret 8])) =
     zip (concat (map fbatch [demoFlush, demoFlush])) [Ret 4, Ret 8]"
  using coord_batches_per_client [of "[demoObj]" "[demoFlush, demoFlush]" "[Ret 4, Ret 8]" "[demoFlush, demoFlush]"]
  by (simp add: demoFlush_def)

end
