(* ===== verification/RedisLimiter.thy ===== *)
theory RedisLimiter
  imports MultiLimiter
begin

text \<open>
  \<^verbatim>\<open>fixedwindow/redis.go\<close> with its script \<^verbatim>\<open>fixedwindow.lua\<close>, \<^verbatim>\<open>gcra/redis.go\<close> and
  \<^verbatim>\<open>redis_clients.go\<close>: the limiters whose state is in Redis and the registry of shared clients.
  The Redis client is not part of the sources: its commands are the parameters of a record over a
  server state \<open>'r\<close>, and what the limiters rely on is stated as the hypothesis \<open>redis_law\<close>. The
  random jitter of a time to live is an argument; the text of a failed EXPIRE leaves out the printed
  time to live.
\<close>

section \<open>The client\<close>

datatype 'a reply = Nil | Val 'a | Err string

record 'r redis =
  Get :: "'r \<Rightarrow> string \<Rightarrow> int reply"
  IncrBy :: "'r \<Rightarrow> string \<Rightarrow> int \<Rightarrow> 'r \<times> int reply"
  Expire :: "'r \<Rightarrow> string \<Rightarrow> duration \<Rightarrow> 'r \<times> string option"
  Run :: "'r \<Rightarrow> string \<Rightarrow> int list \<Rightarrow> 'r \<times> int list reply"
  Load :: "'r \<Rightarrow> 'r \<times> string option"

section \<open>The fixed-window limiter\<close>

record fw_redis =
  rpolicy :: fw_policy
  rprefix :: string

definition NewRedisLimiter :: "fw_policy \<Rightarrow> string \<Rightarrow> fw_redis" where
  "NewRedisLimiter p prefix = \<lparr>rpolicy = p, rprefix = (if prefix = '''' then ''ratelimit:v1:'' else prefix)\<rparr>"

definition redisKey :: "fw_redis \<Rightarrow> string \<Rightarrow> instant \<Rightarrow> string" where
  "redisKey r key now = rprefix r @ key @ '':'' @ itoa (time_UnixNano (WindowStart (rpolicy r) now))"

definition rw_result :: "env \<Rightarrow> fw_redis \<Rightarrow> bool \<Rightarrow> int \<Rightarrow> result" where
  "rw_result e r allowed remaining =
     result_zero\<lparr>Allowed := allowed, RLimit := fLimit (rpolicy r), Remaining := remaining,
       Reset := WindowEnd (rpolicy r) (clock e), RDuration := fDuration (rpolicy r),
       RetryAfter := retryAfterUntil e allowed (WindowEnd (rpolicy r) (clock e))\<rparr>"

definition AllowN :: "'r redis \<Rightarrow> duration \<Rightarrow> env \<Rightarrow> fw_redis \<Rightarrow> 'r \<Rightarrow> string \<Rightarrow> int \<Rightarrow> 'r \<times> result outcome" where
  "AllowN c jitter e r R key n =
     (let now = clock e; windowEnd = WindowEnd (rpolicy r) now; rk = redisKey r key now; limit = fLimit (rpolicy r);
          count =
            (if n = 0 then
               (case Get c R rk of
                  Nil \<Rightarrow> (R, Ret 0) | Err m \<Rightarrow> (R, Fail (''redis GET failed: '' @ m)) | Val v \<Rightarrow> (R, Ret v))
             else case IncrBy c R rk n of
                 (R, Val newCount) \<Rightarrow>
                   if newCount = n then
                     let ttl = wrap64 (time_Until e windowEnd + jitter) in
                     case Expire c R rk ttl of
                       (R, None) \<Rightarrow> (R, Ret newCount)
                     | (R, Some m) \<Rightarrow> (R, Fail (''redis EXPIRE failed for key '' @ rk @ '': '' @ m))
                   else (R, Ret newCount)
               | (R, Err m) \<Rightarrow> (R, Fail (''redis INCRBY failed: '' @ m))
               | (R, Nil) \<Rightarrow> (R, Fail (''redis INCRBY failed: nil'')))
      in case count of
           (R, Ret newCount) \<Rightarrow>
             (let allowed = (newCount \<le> limit); remaining = (if allowed then wrap64 (limit - newCount) else 0)
              in (R, Ret (rw_result e r allowed remaining)))
         | (R, Fail m) \<Rightarrow> (R, Fail m)
         | (R, Panic) \<Rightarrow> (R, Panic))"

definition Allow :: "'r redis \<Rightarrow> duration \<Rightarrow> env \<Rightarrow> fw_redis \<Rightarrow> 'r \<Rightarrow> string \<Rightarrow> 'r \<times> result outcome" where
  "Allow c jitter e r R key = AllowN c jitter e r R key 1"

text \<open>The substring test of the error text.\<close>

fun contains :: "string \<Rightarrow> string \<Rightarrow> bool" where
  "contains s [] = (s = [])"
| "contains s (c # cs) = (take (length s) (c # cs) = s \<or> contains s cs)"

text \<open>A script is run by its hash; when the server does not have it, it is loaded and run once more.\<close>

definition runWithLoad :: "'r redis \<Rightarrow> string \<Rightarrow> string \<Rightarrow> 'r \<Rightarrow> string \<Rightarrow> int list \<Rightarrow> 'r \<times> int list outcome" where
  "runWithLoad c loadFailed runFailed R rk argv =
     (case Run c R rk argv of
        (R, Val vs) \<Rightarrow> (R, Ret vs)
      | (R, Nil) \<Rightarrow> (R, Fail (runFailed @ ''redis: nil''))
      | (R, Err m) \<Rightarrow>
          if contains ''NOSCRIPT'' m then
            (case Load c R of
               (R, Some m) \<Rightarrow> (R, Fail (loadFailed @ m))
             | (R, None) \<Rightarrow>
                 (case Run c R rk argv of
                    (R, Val vs) \<Rightarrow> (R, Ret vs)
                  | (R, Nil) \<Rightarrow> (R, Fail (runFailed @ ''redis: nil''))
                  | (R, Err m) \<Rightarrow> (R, Fail (runFailed @ m))))
          else (R, Fail (runFailed @ m)))"

definition to_Milliseconds :: "duration \<Rightarrow> int" where
  "to_Milliseconds d = sgn d * (\<bar>d\<bar> div Millisecond)"

text \<open>The reply has five values; a shorter one is an index panic.\<close>

definition ConsumeOrClampN :: "'r redis \<Rightarrow> duration \<Rightarrow> env \<Rightarrow> fw_redis \<Rightarrow> 'r \<Rightarrow> string \<Rightarrow> int \<Rightarrow> 'r \<times> result outcome" where
  "ConsumeOrClampN c jitter e r R key n0 =
     (let n = (if n0 < 0 then 0 else n0); now = clock e; windowEnd = WindowEnd (rpolicy r) now;
          ttl = wrap64 (time_Until e windowEnd + jitter); ttl = (if ttl \<le> 0 then Second else ttl)
      in case runWithLoad c ''failed to load fixed window Lua script: '' ''fixed window clamp script execution failed: ''
                R (redisKey r key now) [fLimit (rpolicy r), n, to_Milliseconds ttl, 1] of
           (R, Ret (allowed # remaining # newCount # consumed # overflow # _)) \<Rightarrow>
             (R, Ret ((rw_result e r (allowed = 1) remaining)\<lparr>Requested := n, Consumed := consumed, Overflow := overflow\<rparr>))
         | (R, Ret _) \<Rightarrow> (R, Panic)
         | (R, Fail m) \<Rightarrow> (R, Fail m)
         | (R, Panic) \<Rightarrow> (R, Panic))"

definition ConsumeN :: "'r redis \<Rightarrow> duration \<Rightarrow> env \<Rightarrow> fw_redis \<Rightarrow> 'r \<Rightarrow> string \<Rightarrow> int \<Rightarrow> 'r \<times> result outcome" where
  "ConsumeN c jitter e r R key n = AllowN c jitter e r R key n"

definition GetAvailable :: "'r redis \<Rightarrow> env \<Rightarrow> fw_redis \<Rightarrow> 'r \<Rightarrow> string \<Rightarrow> int outcome" where
  "GetAvailable c e r R key =
     (case Get c R (redisKey r key (clock e)) of
        Err m \<Rightarrow> Fail (''redis get failed: '' @ m)
      | rep \<Rightarrow> (let count = (case rep of Val v \<Rightarrow> v | _ \<Rightarrow> 0); remaining = wrap64 (fLimit (rpolicy r) - count)
                in Ret (if remaining < 0 then 0 else remaining)))"

text \<open>The script \<^verbatim>\<open>fixedwindow.lua\<close> on the value of its key: the value it leaves and its reply. Lua's
  numbers are exact on the counts below \<open>2 ^ 53\<close>.\<close>

definition fixedWindowLua :: "int option \<Rightarrow> int list \<Rightarrow> int option \<times> int list" where
  "fixedWindowLua value argv =
     (let limit = argv ! 0; requested = argv ! 1; clamp = (argv ! 3 = 1);
          requested = (if requested < 0 then 0 else requested);
          current = (case value of None \<Rightarrow> 0 | Some v \<Rightarrow> v);
          remaining_before = limit - current;
          remaining_before = (if remaining_before < 0 then 0 else remaining_before);
          (consumed, allowed) =
            (if requested \<le> remaining_before then (requested, 1)
             else if clamp then (remaining_before, 0) else (0, 0));
          value = (if 0 < consumed then Some (current + consumed) else value);
          new_count = current + consumed;
          remaining = limit - new_count;
          remaining = (if remaining < 0 then 0 else remaining)
      in (value, [allowed, remaining, new_count, consumed, requested - consumed]))"

section \<open>The GCRA limiter\<close>

record gcra_redis =
  gpol :: gcra_policy
  gprefix :: string
  gclosed_once :: bool

definition NewGcraRedisLimiter :: "gcra_policy \<Rightarrow> string \<Rightarrow> gcra_redis" where
  "NewGcraRedisLimiter p prefix =
     \<lparr>gpol = p, gprefix = (if prefix = '''' then ''ratelimit:v1:'' else prefix), gclosed_once = False\<rparr>"

text \<open>The arguments of the script; a zero limit is a division by zero in \<^verbatim>\<open>EmissionInterval\<close>.\<close>

definition scriptArgs :: "gcra_redis \<Rightarrow> instant \<Rightarrow> int \<Rightarrow> bool \<Rightarrow> bool \<Rightarrow> int list option" where
  "scriptArgs r now n clamp force =
     (case (EmissionInterval (gpol r), BurstAllowance (gpol r)) of
        (Some emissionInterval, Some burstAllowance) \<Rightarrow>
          Some [time_UnixNano now, emissionInterval, burstAllowance, gBurst (gpol r),
                f64_to_int64 (dur_Seconds (wrap64 (gDuration (gpol r) + burstAllowance))), n,
                if clamp then 1 else 0, if force then 1 else 0]
      | _ \<Rightarrow> None)"

definition time_of_nanos :: "int \<Rightarrow> instant" where
  "time_of_nanos ns = unix_epoch + ns"

definition runScript :: "'r redis \<Rightarrow> env \<Rightarrow> gcra_redis \<Rightarrow> 'r \<Rightarrow> string \<Rightarrow> int \<Rightarrow> bool \<Rightarrow> bool \<Rightarrow> 'r \<times> result outcome" where
  "runScript c e r R key n0 clamp force =
     (let n = (if n0 < 0 then 0 else n0) in
      case scriptArgs r (clock e) n clamp force of
        None \<Rightarrow> (R, Panic)
      | Some argv \<Rightarrow>
          (case runWithLoad c ''failed to load Lua script: '' ''script execution failed: '' R (gprefix r @ key) argv of
             (R, Ret (allowed # remaining # reset # retryAfter # fullQuotaAt # consumed # overflow # _)) \<Rightarrow>
               (R, Ret \<lparr>Allowed = (allowed = 1), Requested = n, Consumed = consumed, Overflow = overflow,
                  RLimit = gLimit (gpol r), Remaining = remaining, Reset = time_of_nanos reset, RetryAfter = retryAfter,
                  FullQuotaAt = time_of_nanos fullQuotaAt, RDuration = gDuration (gpol r)\<rparr>)
           | (R, Ret _) \<Rightarrow> (R, Panic)
           | (R, Fail m) \<Rightarrow> (R, Fail m)
           | (R, Panic) \<Rightarrow> (R, Panic)))"

definition gcra_AllowN :: "'r redis \<Rightarrow> env \<Rightarrow> gcra_redis \<Rightarrow> 'r \<Rightarrow> string \<Rightarrow> int \<Rightarrow> 'r \<times> result outcome" where
  "gcra_AllowN c e r R key n = runScript c e r R key n False False"

definition gcra_Allow :: "'r redis \<Rightarrow> env \<Rightarrow> gcra_redis \<Rightarrow> 'r \<Rightarrow> string \<Rightarrow> 'r \<times> result outcome" where
  "gcra_Allow c e r R key = gcra_AllowN c e r R key 1"

definition gcra_ConsumeOrClampN :: "'r redis \<Rightarrow> env \<Rightarrow> gcra_redis \<Rightarrow> 'r \<Rightarrow> string \<Rightarrow> int \<Rightarrow> 'r \<times> result outcome" where
  "gcra_ConsumeOrClampN c e r R key n = runScript c e r R key n True False"

definition gcra_ConsumeN :: "'r redis \<Rightarrow> env \<Rightarrow> gcra_redis \<Rightarrow> 'r \<Rightarrow> string \<Rightarrow> int \<Rightarrow> 'r \<times> result outcome" where
  "gcra_ConsumeN c e r R key n = runScript c e r R key n False True"

definition calculateRemainingGCRA :: "instant \<Rightarrow> instant \<Rightarrow> duration \<Rightarrow> duration \<Rightarrow> int \<Rightarrow> int" where
  "calculateRemainingGCRA tat0 now emissionInterval burstAllowance burst =
     (if tat0 < now \<or> tat0 = now then burst
      else let usedBurst = time_Sub tat0 now in
        if burstAllowance < usedBurst then 0
        else let remaining = wrap64 (burst - f64_to_int64 (math_Ceil (f64_div (f64_of_int usedBurst) (f64_of_int emissionInterval))))
             in if remaining < 0 then 0 else remaining)"

text \<open>The stored arrival time is parsed as a decimal integer: \<open>None\<close> is a parse error.\<close>

definition gcra_GetAvailable :: "('r \<Rightarrow> string \<Rightarrow> int option reply) \<Rightarrow> env \<Rightarrow> gcra_redis \<Rightarrow> 'r \<Rightarrow> string \<Rightarrow> int outcome" where
  "gcra_GetAvailable getTat e r R key =
     (case (EmissionInterval (gpol r), BurstAllowance (gpol r)) of
        (Some emissionInterval, Some burstAllowance) \<Rightarrow>
          (case getTat R (gprefix r @ key) of
             Nil \<Rightarrow> Ret (gBurst (gpol r))
           | Err m \<Rightarrow> Fail (''redis get failed: '' @ m)
           | Val None \<Rightarrow> Fail ''failed to parse TAT''
           | Val (Some tatNanos) \<Rightarrow>
               Ret (calculateRemainingGCRA (time_of_nanos tatNanos) (clock e) emissionInterval burstAllowance (gBurst (gpol r))))
      | _ \<Rightarrow> Panic)"

section \<open>Shared clients\<close>

record redisConnKey =
  addr :: string
  username :: string
  passwordHash :: string
  db :: int
  dialTimeout :: duration
  readTimeout :: duration
  writeTimeout :: duration
  poolSize :: int

text \<open>The registry and the clients; a client is named by its number. \<open>sha256hex\<close> is the hash of the
  standard library; the options carry the password where the key has its hash.\<close>

record clients =
  registered :: "(redisConnKey, nat) gomap"
  created :: nat
  closedClients :: "nat list"

definition hashRedisPassword :: "(string \<Rightarrow> string) \<Rightarrow> string \<Rightarrow> string" where
  "hashRedisPassword sha256hex p = (if p = '''' then '''' else sha256hex p)"

text \<open>The client, whether this call created it, and the error of its first PING.\<close>

definition getOrCreateRedisClient :: "(string \<Rightarrow> string) \<Rightarrow> string option \<Rightarrow> redisConnKey \<Rightarrow> clients \<Rightarrow> clients \<times> nat \<times> bool \<times> string option" where
  "getOrCreateRedisClient sha256hex pingErr opts cs =
     (let key = opts\<lparr>passwordHash := hashRedisPassword sha256hex (passwordHash opts)\<rparr> in
      case map_of (registered cs) key of
        Some cl \<Rightarrow> (cs, cl, False, None)
      | None \<Rightarrow>
          (cs\<lparr>registered := AList.update key (created cs) (registered cs), created := created cs + 1\<rparr>,
           created cs, True, pingErr))"

text \<open>\<^verbatim>\<open>Close\<close> of the two limiters, on the client each holds.\<close>

definition gcra_Close :: "nat \<Rightarrow> gcra_redis \<Rightarrow> clients \<Rightarrow> gcra_redis \<times> clients" where
  "gcra_Close cl r cs =
     (if gclosed_once r then (r, cs)
      else (r\<lparr>gclosed_once := True\<rparr>, cs\<lparr>closedClients := cl # closedClients cs\<rparr>))"

definition fw_Close :: "nat \<Rightarrow> fw_redis \<Rightarrow> clients \<Rightarrow> fw_redis \<times> clients" where
  "fw_Close cl r cs = (r, cs)"

section \<open>What the limiters rely on\<close>

text \<open>A server that answers: \<open>val R k\<close> is the integer stored at \<open>k\<close>. GET, INCRBY and EXPIRE with a
  positive time to live as documented; the script is atomic and reads and writes its one key.\<close>

definition redis_law :: "'r redis \<Rightarrow> ('r \<Rightarrow> string \<Rightarrow> int option) \<Rightarrow> bool" where
  "redis_law c val \<longleftrightarrow>
     (\<forall>R k. Get c R k = (case val R k of None \<Rightarrow> Nil | Some v \<Rightarrow> Val v)) \<and>
     (\<forall>R k n. let v = (case val R k of None \<Rightarrow> 0 | Some v \<Rightarrow> v) + n in
        snd (IncrBy c R k n) = Val v \<and> val (fst (IncrBy c R k n)) = (val R)(k := Some v)) \<and>
     (\<forall>R k ttl. 0 < ttl \<longrightarrow> snd (Expire c R k ttl) = None \<and> val (fst (Expire c R k ttl)) = val R) \<and>
     (\<forall>R k argv. (\<forall>a \<in> set argv. \<bar>a\<bar> < 2 ^ 53) \<longrightarrow> (\<forall>v. val R k = Some v \<longrightarrow> \<bar>v\<bar> < 2 ^ 53) \<longrightarrow>
        snd (Run c R k argv) = Val (snd (fixedWindowLua (val R k) argv)) \<and>
        val (fst (Run c R k argv)) = (val R)(k := fst (fixedWindowLua (val R k) argv)))"

definition stored :: "('r \<Rightarrow> string \<Rightarrow> int option) \<Rightarrow> 'r \<Rightarrow> string \<Rightarrow> int" where
  "stored val R k = (case val R k of None \<Rightarrow> 0 | Some v \<Rightarrow> v)"

text \<open>The in-memory limiter and the server agree on the window of \<open>now\<close>.\<close>

definition agree :: "('r \<Rightarrow> string \<Rightarrow> int option) \<Rightarrow> 'r \<Rightarrow> fw_redis \<Rightarrow> fw_mem \<Rightarrow> instant \<Rightarrow> bool" where
  "agree val R r m now \<longleftrightarrow> fpolicy m = rpolicy r \<and>
     (\<forall>k. abs_count m k (WindowStart (rpolicy r) now) = stored val R (redisKey r k now))"

lemma redisKey_inj: "redisKey r k now = redisKey r k' now \<longleftrightarrow> k = k'"
  by (simp add: redisKey_def)

lemma agree_store:
  assumes "agree val R r m now" "val R' = (val R)(redisKey r k now := v)" "(case v of None \<Rightarrow> 0 | Some x \<Rightarrow> x) = c"
    and "m' = storeCount m k c now \<or> (m' = m \<and> c = stored val R (redisKey r k now))"
  shows "agree val R' r m' now"
  using assms by (auto simp: agree_def stored_def redisKey_inj split: if_splits)

lemma fw_result_rw: "fpolicy m = rpolicy r \<Longrightarrow> fw_result e m = rw_result e r"
  by (intro ext) (simp add: fw_result_def rw_result_def)

section \<open>Properties\<close>

lemma to_Milliseconds_bound: "0 \<le> d \<Longrightarrow> d < 2 ^ 63 \<Longrightarrow> \<bar>to_Milliseconds d\<bar> < 2 ^ 53"
  using zdiv_mono1 [of d "2 ^ 63 - 1" Millisecond] by (simp add: to_Milliseconds_def Millisecond_def sgn_if)

lemma fixedWindowLua_spec:
  assumes "0 \<le> n" "c = (case v of None \<Rightarrow> 0 | Some x \<Rightarrow> x)"
  shows "fixedWindowLua v [L, n, ttl, 1] =
    (let x = min n (max 0 (L - c)) in
     (if 0 < x then Some (c + x) else v, [if x = n then 1 else 0, max 0 (L - (c + x)), c + x, x, n - x]))"
  using assms by (auto simp: fixedWindowLua_def Let_def min_def max_def split: option.splits)

text \<open>C25: the clamped consumption of the Redis backend is that of the in-memory backend. When a
  server that follows its documentation and an in-memory limiter agree on the counts of the
  current window, the script and the in-memory code return the same result, leave the same
  counts, and report the same available quota.\<close>

theorem redis_clamp_equals_memory:
  assumes law: "redis_law c val" and inv: "fw_inv m" and ag: "agree val R r m (clock e)"
    and n: "0 \<le> n" "n < 2 ^ 53" "fLimit (rpolicy r) < 2 ^ 53" "abs_count m key (WindowStart (rpolicy r) (clock e)) < 2 ^ 53"
    and run: "ConsumeOrClampN c jitter e r R key n = (R', out)" "FixedWindow.ConsumeOrClampN e m key n = (m', out')"
  shows "out = out' \<and> agree val R' r m' (clock e) \<and>
    GetAvailable c e r R key = FixedWindow.GetAvailable e m key"
proof -
  let ?k = "redisKey r key (clock e)" and ?L = "fLimit (rpolicy r)"
  define ttl where "ttl = (let t = wrap64 (time_Until e (WindowEnd (rpolicy r) (clock e)) + jitter) in if t \<le> 0 then Second else t)"
  define argv where "argv = [?L, n, to_Milliseconds ttl, 1]"
  define cnt where "cnt = abs_count m key (WindowStart (rpolicy r) (clock e))"
  define x where "x = min n (max 0 (?L - cnt))"
  have p: "fpolicy m = rpolicy r" and cnt: "cnt = (case val R ?k of None \<Rightarrow> 0 | Some v \<Rightarrow> v)"
    using ag by (simp_all add: agree_def cnt_def stored_def)
  have L: "0 \<le> ?L" "0 \<le> cnt" using inv abs_count_bounds [OF inv] by (simp_all add: fw_inv_def p cnt_def)
  have "0 \<le> ttl" "ttl < 2 ^ 63"
    using int64_wrap64 [of "time_Until e (WindowEnd (rpolicy r) (clock e)) + jitter"]
    by (auto simp: ttl_def Let_def Second_def int64_def)
  then have "\<forall>a \<in> set argv. \<bar>a\<bar> < 2 ^ 53" using n L to_Milliseconds_bound by (simp add: argv_def)
  moreover have "\<forall>v. val R ?k = Some v \<longrightarrow> \<bar>v\<bar> < 2 ^ 53" using cnt n(4) [folded cnt_def] L(2) by auto
  ultimately have script: "snd (Run c R ?k argv) = Val (snd (fixedWindowLua (val R ?k) argv))"
    "val (fst (Run c R ?k argv)) = (val R)(?k := fst (fixedWindowLua (val R ?k) argv))"
    using law unfolding redis_law_def by blast+
  have lua: "fixedWindowLua (val R ?k) argv =
      (if 0 < x then Some (cnt + x) else val R ?k, [if x = n then 1 else 0, max 0 (?L - (cnt + x)), cnt + x, x, n - x])"
    unfolding argv_def fixedWindowLua_spec [OF n(1) cnt] by (simp add: Let_def x_def)
  have "runWithLoad c l f R ?k argv = (fst (Run c R ?k argv), Ret (snd (fixedWindowLua (val R ?k) argv)))" for l f
    using script(1) by (cases "Run c R ?k argv") (simp add: runWithLoad_def)
  then have R': "R' = fst (Run c R ?k argv)"
    and out: "out = Ret ((rw_result e r (x = n) (max 0 (?L - (cnt + x))))\<lparr>Requested := n, Consumed := x, Overflow := n - x\<rparr>)"
    using run(1) n(1) by (auto simp: ConsumeOrClampN_def Let_def ttl_def [unfolded Let_def, symmetric] argv_def [symmetric] lua)
  have mem: "m' = (if 0 < x then storeCount m key (cnt + x) (clock e) else m)"
    and out': "out' = Ret ((fw_result e m (x = n) (max 0 (?L - (cnt + x))))\<lparr>Requested := n, Consumed := x, Overflow := n - x\<rparr>)"
    using run(2) FixedWindow.fw_ConsumeOrClampN_spec [OF inv n(1), where e = e and k = key] n(2) by (simp_all add: p cnt_def x_def)
  have "agree val R' r m' (clock e)"
    by (rule agree_store [OF ag, where k = key and c = "cnt + x"]) (use script(2) cnt mem L n(1) in \<open>auto simp: R' lua x_def stored_def\<close>)
  moreover have "GetAvailable c e r R key = FixedWindow.GetAvailable e m key"
    using law cnt L n(3,4) unfolding FixedWindow.fw_GetAvailable_spec [OF inv] p
    by (auto simp: redis_law_def GetAvailable_def cnt_def [symmetric] wrap64_id int64_def max_def split: option.splits)
  ultimately show ?thesis using out out' by (simp add: fw_result_rw [OF p])
qed

text \<open>A server of one association list, for the witnesses.\<close>

definition demoRedis :: "(string, int) gomap redis" where
  "demoRedis =
     \<lparr>Get = (\<lambda>R k. case map_of R k of None \<Rightarrow> Nil | Some v \<Rightarrow> Val v),
      IncrBy = (\<lambda>R k n. let v = (case map_of R k of None \<Rightarrow> 0 | Some v \<Rightarrow> v) + n in (AList.update k v R, Val v)),
      Expire = (\<lambda>R k ttl. (R, None)),
      Run = (\<lambda>R k argv. let (v, rep) = fixedWindowLua (map_of R k) argv
                        in (case v of None \<Rightarrow> AList.delete k R | Some x \<Rightarrow> AList.update k x R, Val rep)),
      Load = (\<lambda>R. (R, None))\<rparr>"

lemma demoRedis_law: "redis_law demoRedis map_of"
  by (auto simp: redis_law_def demoRedis_def Let_def update_conv' delete_conv' split: prod.splits option.splits)

definition demoFw :: fw_redis where
  "demoFw = NewRedisLimiter (FixedWindow.PerSecond 10) ''p:''"

lemma demo_agree: "agree map_of [] demoFw FixedWindow.demo 5"
  by (simp add: agree_def demoFw_def NewRedisLimiter_def FixedWindow.demo_def FixedWindow.NewMemoryLimiter_def
      stored_def abs_count_def)

theorem redis_clamp_equals_memory_witness:
  "case ConsumeOrClampN demoRedis 7 \<lparr>clock = 5, sys_now = 5\<rparr> demoFw [] ''k'' 20 of (R', out) \<Rightarrow>
   case FixedWindow.ConsumeOrClampN \<lparr>clock = 5, sys_now = 5\<rparr> FixedWindow.demo ''k'' 20 of (m', out') \<Rightarrow>
     out = out' \<and> agree map_of R' demoFw m' 5"
proof -
  have pol: "rpolicy demoFw = FixedWindow.PerSecond 10" by (simp add: demoFw_def NewRedisLimiter_def)
  have cnt: "abs_count FixedWindow.demo ''k'' ws = 0" for ws
    by (simp add: FixedWindow.demo_def FixedWindow.NewMemoryLimiter_def abs_count_def)
  show ?thesis
    using redis_clamp_equals_memory [OF demoRedis_law FixedWindow.fw_demo_inv, of "[]" demoFw "\<lparr>clock = 5, sys_now = 5\<rparr>" 20 "''k''" 7]
    by (simp add: demo_agree pol cnt FixedWindow.PerSecond_def split: prod.splits)
qed

text \<open>A denied check of the Redis backend consumes, one of the in-memory backend does not. With
  \<open>v\<close> tokens used in the window and a request for more than is left, both deny; Redis has counted
  the request and reports no quota, the in-memory limiter still has the rest.\<close>

lemma redis_denied_check_consumes:
  assumes law: "redis_law c val" and inv: "fw_inv m" and ag: "agree val R r m (clock e)"
    and v: "abs_count m key (WindowStart (rpolicy r) (clock e)) = v" "0 < v" "v \<le> fLimit (rpolicy r)"
    and n: "0 < n" "n < 2 ^ 62" "fLimit (rpolicy r) < v + n"
    and run: "AllowN c jitter e r R key n = (R', Ret res)" "FixedWindow.AllowN e m key n = (m', Ret res')"
  shows "\<not> Allowed res \<and> GetAvailable c e r R' key = Ret 0 \<and>
    \<not> Allowed res' \<and> FixedWindow.GetAvailable e m' key = Ret (fLimit (rpolicy r) - v)"
proof -
  let ?k = "redisKey r key (clock e)"
  have p: "fpolicy m = rpolicy r" and sv: "val R ?k = Some v"
    using ag v by (auto simp: agree_def stored_def split: option.splits)
  have incr: "snd (IncrBy c R ?k n) = Val (v + n)" "val (fst (IncrBy c R ?k n)) = (val R)(?k := Some (v + n))"
    using law sv unfolding redis_law_def Let_def by (simp_all add: sv)
  obtain R1 where i: "IncrBy c R ?k n = (R1, Val (v + n))" using incr(1) by (cases "IncrBy c R ?k n") auto
  have lim: "fLimit (rpolicy r) < 2 ^ 62" "0 \<le> fLimit (rpolicy r)" using inv p by (simp_all add: fw_inv_def)
  have R': "R' = R1" and res: "\<not> Allowed res"
    using run(1) i v(2) n by (auto simp: AllowN_def Let_def rw_result_def split: if_splits)
  have "val R' ?k = Some (v + n)" using incr(2) by (simp add: i R')
  then have "Get c R' ?k = Val (v + n)" using law unfolding redis_law_def by simp
  then have av: "GetAvailable c e r R' key = Ret 0"
    using n lim v(2,3) by (simp add: GetAvailable_def wrap64_id int64_def)
  have "m' = m \<and> \<not> Allowed res'"
    using run(2) FixedWindow.fw_AllowN_spec [OF inv, where n = n and e = e and k = key] n v by (auto simp: p fw_result_def)
  then show ?thesis using res av FixedWindow.fw_GetAvailable_spec [OF inv, of e key] v by (simp add: p)
qed

definition demoUsed :: fw_mem where
  "demoUsed = storeCount FixedWindow.demo ''k'' 7 5"

lemma redis_denied_check_consumes_example:
  "case AllowN demoRedis 7 \<lparr>clock = 5, sys_now = 5\<rparr> demoFw [(redisKey demoFw ''k'' 5, 7)] ''k'' 5 of (R', Ret res) \<Rightarrow>
     (case FixedWindow.AllowN \<lparr>clock = 5, sys_now = 5\<rparr> demoUsed ''k'' 5 of (m', Ret res') \<Rightarrow>
        \<not> Allowed res \<and> GetAvailable demoRedis \<lparr>clock = 5, sys_now = 5\<rparr> demoFw R' ''k'' = Ret 0 \<and>
        \<not> Allowed res' \<and> FixedWindow.GetAvailable \<lparr>clock = 5, sys_now = 5\<rparr> m' ''k'' = Ret 3
      | _ \<Rightarrow> False) | _ \<Rightarrow> False"
proof -
  have inv: "fw_inv demoUsed" unfolding demoUsed_def by (rule fw_inv_store [OF FixedWindow.fw_demo_inv]) simp_all
  have pol: "rpolicy demoFw = FixedWindow.PerSecond 10" "fpolicy demoUsed = FixedWindow.PerSecond 10"
    by (simp_all add: demoFw_def NewRedisLimiter_def demoUsed_def FixedWindow.demo_def FixedWindow.NewMemoryLimiter_def)
  have cnt: "abs_count demoUsed k (WindowStart (FixedWindow.PerSecond 10) 5) = (if k = ''k'' then 7 else 0)" for k
    by (simp add: demoUsed_def FixedWindow.demo_def FixedWindow.NewMemoryLimiter_def abs_count_def storeCount_def)
  have ag: "agree map_of [(redisKey demoFw ''k'' 5, 7)] demoFw demoUsed 5"
    by (auto simp: agree_def pol cnt stored_def redisKey_inj)
  obtain R' res where r: "AllowN demoRedis 7 \<lparr>clock = 5, sys_now = 5\<rparr> demoFw [(redisKey demoFw ''k'' 5, 7)] ''k'' 5 = (R', Ret res)"
    by (simp add: AllowN_def demoRedis_def Let_def)
  obtain m' res' where m: "FixedWindow.AllowN \<lparr>clock = 5, sys_now = 5\<rparr> demoUsed ''k'' 5 = (m', Ret res')"
    by (simp add: FixedWindow.AllowN_def Let_def)
  show ?thesis
    using redis_denied_check_consumes [OF demoRedis_law inv, of _ demoFw "\<lparr>clock = 5, sys_now = 5\<rparr>" "''k''" 7 5, OF _ _ _ _ _ _ _ r m] ag
    by (simp add: pol cnt [unfolded FixedWindow.PerSecond_def] r m FixedWindow.PerSecond_def)
qed

text \<open>Closing a GCRA limiter closes a client that others share. A client is registered under its
  connection settings for the life of the process; after one GCRA limiter on it is closed, every
  later user of the same settings is given the closed client, and none is created anew.\<close>

lemma gcra_close_closes_shared_client:
  assumes "getOrCreateRedisClient sha256hex pe opts cs = (cs1, cl, made, err)" "\<not> gclosed_once r"
    and "gcra_Close cl r cs1 = (r', cs2)"
    and "getOrCreateRedisClient sha256hex pe' opts cs2 = (cs3, cl', made', err')"
  shows "cl' = cl \<and> \<not> made' \<and> cl' \<in> set (closedClients cs3)"
  using assms by (auto simp: getOrCreateRedisClient_def gcra_Close_def Let_def split: option.splits)

lemma gcra_close_closes_shared_client_example:
  "let opts = \<lparr>addr = ''redis:6379'', username = '''', passwordHash = '''', db = 0, dialTimeout = Second,
         readTimeout = Second, writeTimeout = Second, poolSize = 10\<rparr>;
       (cs1, cl, _) = getOrCreateRedisClient id None opts \<lparr>registered = [], created = 0, closedClients = []\<rparr>;
       (_, cs2) = gcra_Close cl (NewGcraRedisLimiter (Gcra.PerSecond 10) '''') cs1;
       (cs3, cl', made', _) = getOrCreateRedisClient id None opts cs2
   in cl' = cl \<and> \<not> made' \<and> cl' \<in> set (closedClients cs3)"
  using gcra_close_closes_shared_client [of id None _ _ _ _ _ _ "NewGcraRedisLimiter (Gcra.PerSecond 10) ''''"]
  by (simp add: Let_def NewGcraRedisLimiter_def split: prod.splits) blast

end
