(* ===== verification/GoValue.thy ===== *)
theory GoValue
  imports Limiter
begin

text \<open>
  Values of Go the policies read their configuration from (\<^verbatim>\<open>interface{}\<close>, decoded from JSON), and
  the functions of \<^verbatim>\<open>strings\<close> and \<^verbatim>\<open>time\<close> they call. Strings are lists of bytes; case mapping and
  white space are those of ASCII.
\<close>

section \<open>Interface values\<close>

datatype any = ANil | ABool bool | AInt int | AInt64 int | AFloat f64 | AFloat32 f64 | AStr string | ADur duration
  | AArr "any list" | AMap "(string \<times> any) list" | AOther

type_synonym params = "(string \<times> any) list"

text \<open>Indexing a map gives \<^verbatim>\<open>nil\<close> for a missing key; a type assertion gives an option.\<close>

definition index :: "params \<Rightarrow> string \<Rightarrow> any" where
  "index m k = (case map_of m k of None \<Rightarrow> ANil | Some v \<Rightarrow> v)"

fun as_str :: "any \<Rightarrow> string option" where
  "as_str (AStr s) = Some s" | "as_str _ = None"

fun as_bool :: "any \<Rightarrow> bool option" where
  "as_bool (ABool b) = Some b" | "as_bool _ = None"

fun as_float :: "any \<Rightarrow> f64 option" where
  "as_float (AFloat x) = Some x" | "as_float _ = None"

fun as_int :: "any \<Rightarrow> int option" where
  "as_int (AInt i) = Some i" | "as_int _ = None"

fun as_arr :: "any \<Rightarrow> any list option" where
  "as_arr (AArr xs) = Some xs" | "as_arr _ = None"

fun as_map :: "any \<Rightarrow> params option" where
  "as_map (AMap m) = Some m" | "as_map _ = None"

section \<open>Strings\<close>

text \<open>\<^verbatim>\<open>strings.Split\<close> at a one-byte separator.\<close>

fun split_on :: "char \<Rightarrow> string \<Rightarrow> string list" where
  "split_on c [] = [[]]"
| "split_on c (x # xs) =
     (if x = c then [] # split_on c xs
      else case split_on c xs of [] \<Rightarrow> [[x]] | w # ws \<Rightarrow> (x # w) # ws)"

fun join :: "string \<Rightarrow> string list \<Rightarrow> string" where
  "join sep [] = []"
| "join sep [s] = s"
| "join sep (s # t # ss) = s @ sep @ join sep (t # ss)"

definition HasPrefix :: "string \<Rightarrow> string \<Rightarrow> bool" where
  "HasPrefix s p \<longleftrightarrow> take (length p) s = p"

definition TrimPrefix :: "string \<Rightarrow> string \<Rightarrow> string" where
  "TrimPrefix s p = (if HasPrefix s p then drop (length p) s else s)"

text \<open>\<^verbatim>\<open>strings.TrimRight\<close> with a one-byte cut set.\<close>

definition TrimRight :: "char \<Rightarrow> string \<Rightarrow> string" where
  "TrimRight c s = rev (dropWhile (\<lambda>x. x = c) (rev s))"

definition is_space :: "char \<Rightarrow> bool" where
  "is_space c \<longleftrightarrow> (of_char c :: nat) \<in> {9, 10, 11, 12, 13, 32}"

definition TrimSpace :: "string \<Rightarrow> string" where
  "TrimSpace s = rev (dropWhile is_space (rev (dropWhile is_space s)))"

fun Contains :: "string \<Rightarrow> string \<Rightarrow> bool" where
  "Contains [] t = (t = [])"
| "Contains (c # cs) t = (HasPrefix (c # cs) t \<or> Contains cs t)"

definition ToLower :: "string \<Rightarrow> string" where
  "ToLower s = map to_lower s"

definition newline :: char where "newline = char_of (10 :: nat)"
definition carriage :: char where "carriage = char_of (13 :: nat)"

definition dquote :: string where "dquote = [CHR 0x22]"

definition inDquotes :: "string \<Rightarrow> string" where "inDquotes s = dquote @ s @ dquote"

definition quoted :: "string \<Rightarrow> string" where "quoted s = CHR 0x27 # s @ [CHR 0x27]"

lemma split_on_nonempty [simp]: "split_on c s \<noteq> []"
  by (cases s) (auto split: list.splits)

lemma split_on_append:
  "split_on c (s @ c # t) = split_on c s @ split_on c t"
  by (induction s) (auto split: list.splits)

lemma split_on_fragment: "c \<notin> set t \<Longrightarrow> split_on c t = [t]"
  by (induction t) auto

lemma split_join:
  "\<forall>s \<in> set ss. c \<notin> set s \<Longrightarrow> ss \<noteq> [] \<Longrightarrow> split_on c (join [c] ss) = ss"
  by (induction "[c]" ss rule: join.induct) (simp_all add: split_on_fragment split_on_append)

lemma join_split_on: "join [c] (split_on c s) = s"
proof (induction s)
  case (Cons x xs)
  obtain w ws where w: "split_on c xs = w # ws" by (cases "split_on c xs") auto
  show ?case using Cons by (cases ws) (auto simp: w)
qed simp

section \<open>Durations\<close>

text \<open>\<^verbatim>\<open>time.ParseDuration\<close>: the leading digits of a string, with the overflow checks of the library.\<close>

definition digit_val :: "char \<Rightarrow> int" where
  "digit_val c = int (of_char c) - 48"

fun leadingInt :: "int \<Rightarrow> string \<Rightarrow> (int \<times> string) option" where
  "leadingInt x [] = Some (x, [])"
| "leadingInt x (c # cs) =
     (if \<not> is_digit c then Some (x, c # cs)
      else if x > 2 ^ 63 div 10 then None
      else let y = x * 10 + digit_val c in if y > 2 ^ 63 then None else leadingInt y cs)"

fun leadingFraction :: "int \<Rightarrow> f64 \<Rightarrow> bool \<Rightarrow> string \<Rightarrow> int \<times> f64 \<times> string" where
  "leadingFraction x scale over [] = (x, scale, [])"
| "leadingFraction x scale over (c # cs) =
     (if \<not> is_digit c then (x, scale, c # cs)
      else if over \<or> x > (2 ^ 63 - 1) div 10 then leadingFraction x scale True cs
      else let y = x * 10 + digit_val c in
        if y > 2 ^ 63 then leadingFraction x scale True cs
        else leadingFraction y (f64_mul scale (f64_of_int 10)) False cs)"

definition unitMap :: "string \<Rightarrow> int option" where
  "unitMap u =
     (if u = ''ns'' then Some 1
      else if u = ''us'' \<or> u = [char_of (194 :: nat), char_of (181 :: nat), CHR ''s''] \<or>
        u = [char_of (206 :: nat), char_of (188 :: nat), CHR ''s''] then Some 1000
      else if u = ''ms'' then Some 1000000 else if u = ''s'' then Some 1000000000
      else if u = ''m'' then Some 60000000000 else if u = ''h'' then Some 3600000000000 else None)"

text \<open>One number with its unit: its nanoseconds and the rest.\<close>

definition parseTerm :: "string \<Rightarrow> (int \<times> string) option" where
  "parseTerm s =
     (if \<not> (s \<noteq> [] \<and> (hd s = CHR ''.'' \<or> is_digit (hd s))) then None
      else case leadingInt 0 s of
        None \<Rightarrow> None
      | Some (v, s1) \<Rightarrow>
          let pre = (length s1 \<noteq> length s);
              (f, scale, s2, post) =
                (if s1 \<noteq> [] \<and> hd s1 = CHR ''.'' then
                   let (f, scale, s2) = leadingFraction 0 (f64_of_int 1) False (tl s1)
                   in (f, scale, s2, length s2 \<noteq> length (tl s1))
                 else (0, f64_of_int 1, s1, False));
              u = takeWhile (\<lambda>c. \<not> (c = CHR ''.'' \<or> is_digit c)) s2;
              s3 = dropWhile (\<lambda>c. \<not> (c = CHR ''.'' \<or> is_digit c)) s2
          in if \<not> pre \<and> \<not> post then None
             else if u = [] then None
             else case unitMap u of
               None \<Rightarrow> None
             | Some unit \<Rightarrow>
                 if v > 2 ^ 63 div unit then None
                 else let w = v * unit;
                          w = (if 0 < f then w + f64_to_int64 (f64_mul (f64_of_int f) (f64_div (f64_of_int unit) scale)) else w)
                      in if w > 2 ^ 63 then None else Some (w, s3))"

text \<open>A term consumes at least one byte, so the fuel, the length of the string, is enough.\<close>

fun parseTerms :: "nat \<Rightarrow> int \<Rightarrow> string \<Rightarrow> int option" where
  "parseTerms fuel d [] = Some d"
| "parseTerms 0 d s = None"
| "parseTerms (Suc fuel) d s =
     (case parseTerm s of
        None \<Rightarrow> None
      | Some (v, s') \<Rightarrow> if d + v > 2 ^ 63 then None else parseTerms fuel (d + v) s')"

definition ParseDuration :: "string \<Rightarrow> duration option" where
  "ParseDuration s =
     (let neg = (s \<noteq> [] \<and> hd s = CHR ''-'');
          s = (if s \<noteq> [] \<and> (hd s = CHR ''-'' \<or> hd s = CHR ''+'') then tl s else s)
      in if s = ''0'' then Some 0
         else if s = [] then None
         else case parseTerms (length s) 0 s of
           None \<Rightarrow> None
         | Some d \<Rightarrow> if neg then Some (- d) else if d > 2 ^ 63 - 1 then None else Some d)"

section \<open>Lists of values\<close>

text \<open>A loop that parses the elements in order and stops at the first error.\<close>

fun parseAll :: "(nat \<Rightarrow> any \<Rightarrow> 'a outcome) \<Rightarrow> nat \<Rightarrow> any list \<Rightarrow> 'a list outcome" where
  "parseAll f i [] = Ret []"
| "parseAll f i (raw # raws) =
     (case f i raw of
        Fail err \<Rightarrow> Fail err
      | Panic \<Rightarrow> Panic
      | Ret v \<Rightarrow> (case parseAll f (Suc i) raws of Ret vs \<Rightarrow> Ret (v # vs) | Fail err \<Rightarrow> Fail err | Panic \<Rightarrow> Panic))"

lemma parseAll_elements:
  "parseAll f i raws = Ret vs \<Longrightarrow> v \<in> set vs \<Longrightarrow> \<exists>j raw. f j raw = Ret v"
proof (induction raws arbitrary: i vs)
  case (Cons raw raws)
  from Cons.prems(1) obtain w ws where p: "f i raw = Ret w" "parseAll f (Suc i) raws = Ret ws" "vs = w # ws"
    by (auto split: outcome.splits)
  show ?case using Cons.IH [OF p(2)] Cons.prems(2) p by auto
qed simp

lemma parseAll_length: "parseAll f i raws = Ret vs \<Longrightarrow> length vs = length raws"
  by (induction raws arbitrary: i vs) (auto split: outcome.splits)

end
