(* ===== verification/CostExtractor.thy ===== *)
theory CostExtractor
  imports GoValue
begin

text \<open>
  \<^verbatim>\<open>cost_extractor.go\<close>: the cost of a request or response from its configured sources. The JSONPath
  lookup of the SDK, the CEL evaluators and \<^verbatim>\<open>strconv.ParseFloat\<close> are the fields of \<open>extern\<close>;
  \<open>celReady\<close> says whether the shared CEL evaluator could be built (\<^verbatim>\<open>GetCELEvaluator\<close>).
  Headers are a function from a lower-case name to its values.
\<close>

section \<open>Contexts\<close>

type_synonym headers = "string \<Rightarrow> string list"

record body =
  Content :: string
  Present :: bool

record request =
  rqHeaders :: "headers option"
  rqMetadata :: params
  rqBody :: "body option"
  rqAPIName :: string
  rqAPIVersion :: string

record response =
  rsUpstream :: "headers option"
  rsMetadata :: params
  rsBody :: "body option"

record extern =
  jsonPathOf :: "string \<Rightarrow> string \<Rightarrow> string option"
  parseFloat :: "string \<Rightarrow> f64 option"
  celReady :: bool
  celKey :: "string \<Rightarrow> request \<Rightarrow> string \<Rightarrow> string option"
  celRequestCost :: "string \<Rightarrow> request \<Rightarrow> f64 option"
  celResponseCost :: "string \<Rightarrow> response \<Rightarrow> f64 option"

section \<open>Configuration\<close>

text \<open>A source type is a string in the code; an unknown one is kept.\<close>

datatype cost_source_type = RequestHeader | RequestMetadata | RequestBody | RequestCEL
  | ResponseHeader | ResponseMetadata | ResponseBody | ResponseCEL | OtherSource string

definition CostSourceType :: "string \<Rightarrow> cost_source_type" where
  "CostSourceType s =
     (if s = ''request_header'' then RequestHeader else if s = ''request_metadata'' then RequestMetadata
      else if s = ''request_body'' then RequestBody else if s = ''request_cel'' then RequestCEL
      else if s = ''response_header'' then ResponseHeader else if s = ''response_metadata'' then ResponseMetadata
      else if s = ''response_body'' then ResponseBody else if s = ''response_cel'' then ResponseCEL
      else OtherSource s)"

record CostSource =
  csType :: cost_source_type
  csKey :: string
  csJSONPath :: string
  csExpression :: string
  csMultiplier :: f64

record CostExtractionConfig =
  Enabled :: bool
  Sources :: "CostSource list"
  Default :: f64

fun isRequestPhaseSource :: "cost_source_type \<Rightarrow> bool" where
  "isRequestPhaseSource RequestHeader = True"
| "isRequestPhaseSource RequestMetadata = True"
| "isRequestPhaseSource RequestBody = True"
| "isRequestPhaseSource RequestCEL = True"
| "isRequestPhaseSource _ = False"

fun isResponsePhaseSource :: "cost_source_type \<Rightarrow> bool" where
  "isResponsePhaseSource ResponseHeader = True"
| "isResponsePhaseSource ResponseMetadata = True"
| "isResponsePhaseSource ResponseBody = True"
| "isResponsePhaseSource ResponseCEL = True"
| "isResponsePhaseSource _ = False"

section \<open>Bodies\<close>

definition sseDataPrefix :: string where "sseDataPrefix = ''data: ''"
definition sseDone :: string where "sseDone = ''[DONE]''"
definition sseEventPrefix :: string where "sseEventPrefix = ''event:''"

text \<open>The payload of a line of a server-sent event, if it has one.\<close>

definition sseValue :: "string \<Rightarrow> string option" where
  "sseValue line =
     (if HasPrefix line sseDataPrefix then Some (TrimPrefix line sseDataPrefix)
      else if HasPrefix line sseEventPrefix then Some (TrimSpace (TrimPrefix line sseEventPrefix))
      else None)"

definition sseLineCost :: "extern \<Rightarrow> string \<Rightarrow> string \<Rightarrow> f64 option" where
  "sseLineCost x jsonPath line =
     (case sseValue (TrimRight carriage line) of
        None \<Rightarrow> None
      | Some v \<Rightarrow>
          if v = sseDone \<or> v = '''' then None
          else case jsonPathOf x v jsonPath of None \<Rightarrow> None | Some s \<Rightarrow> parseFloat x s)"

definition lastMatch :: "f64 option \<Rightarrow> f64 option \<Rightarrow> f64 option" where
  "lastMatch found new = (case new of Some c \<Rightarrow> Some c | None \<Rightarrow> found)"

definition extractFromSSEBodyBytes :: "extern \<Rightarrow> string \<Rightarrow> string \<Rightarrow> f64 option" where
  "extractFromSSEBodyBytes x bodyBytes jsonPath =
     foldl (\<lambda>found line. lastMatch found (sseLineCost x jsonPath line)) None (split_on newline bodyBytes)"

definition extractFromBodyBytes :: "extern \<Rightarrow> string \<Rightarrow> string \<Rightarrow> f64 option" where
  "extractFromBodyBytes x bodyBytes jsonPath =
     (if bodyBytes = [] then None
      else case jsonPathOf x bodyBytes jsonPath of
        None \<Rightarrow> extractFromSSEBodyBytes x bodyBytes jsonPath
      | Some s \<Rightarrow> parseFloat x s)"

text \<open>The incremental parser: the last match over the complete lines and the incomplete rest. Its
  loop takes a line in each turn.\<close>

fun parseSSELoop :: "extern \<Rightarrow> string \<Rightarrow> f64 option \<Rightarrow> string \<Rightarrow> string \<Rightarrow> f64 option \<times> string" where
  "parseSSELoop x jsonPath found line [] = (found, rev line)"
| "parseSSELoop x jsonPath found line (c # cs) =
     (if c = newline then parseSSELoop x jsonPath (lastMatch found (sseLineCost x jsonPath (rev line))) [] cs
      else parseSSELoop x jsonPath found (c # line) cs)"

definition parseSSEChunk :: "extern \<Rightarrow> string \<Rightarrow> string \<Rightarrow> f64 option \<times> string" where
  "parseSSEChunk x buf jsonPath = parseSSELoop x jsonPath None [] buf"

section \<open>Sources\<close>

definition headerGet :: "headers option \<Rightarrow> string \<Rightarrow> string list" where
  "headerGet h name = (case h of None \<Rightarrow> [] | Some f \<Rightarrow> f name)"

definition extractCostFromHeaders :: "extern \<Rightarrow> headers option \<Rightarrow> string \<Rightarrow> f64 option" where
  "extractCostFromHeaders x h headerName =
     (case h of
        None \<Rightarrow> None
      | Some f \<Rightarrow>
          (case f (ToLower headerName) of
             [] \<Rightarrow> None
           | v # _ \<Rightarrow> if v = '''' then None else parseFloat x v))"

definition extractFromMetadataMap :: "extern \<Rightarrow> params \<Rightarrow> string \<Rightarrow> f64 option" where
  "extractFromMetadataMap x m key =
     (case map_of m key of
        None \<Rightarrow> None
      | Some (AInt64 v) \<Rightarrow> Some (f64_of_int v)
      | Some (AInt v) \<Rightarrow> Some (f64_of_int v)
      | Some (AFloat v) \<Rightarrow> Some v
      | Some (AFloat32 v) \<Rightarrow> Some v
      | Some (AStr s) \<Rightarrow> parseFloat x s
      | Some _ \<Rightarrow> None)"

definition bodyCost :: "extern \<Rightarrow> body option \<Rightarrow> string \<Rightarrow> f64 option" where
  "bodyCost x b jsonPath =
     (case b of None \<Rightarrow> None | Some b \<Rightarrow> if \<not> Present b then None else extractFromBodyBytes x (Content b) jsonPath)"

fun extractFromRequestSource :: "extern \<Rightarrow> request \<Rightarrow> CostSource \<Rightarrow> f64 option" where
  "extractFromRequestSource x rq s =
     (case csType s of
        RequestHeader \<Rightarrow> extractCostFromHeaders x (rqHeaders rq) (csKey s)
      | RequestMetadata \<Rightarrow> extractFromMetadataMap x (rqMetadata rq) (csKey s)
      | RequestBody \<Rightarrow> bodyCost x (rqBody rq) (csJSONPath s)
      | RequestCEL \<Rightarrow> if celReady x then celRequestCost x (csExpression s) rq else None
      | _ \<Rightarrow> None)"

fun extractFromResponseSource :: "extern \<Rightarrow> response \<Rightarrow> CostSource \<Rightarrow> f64 option" where
  "extractFromResponseSource x rs s =
     (case csType s of
        ResponseHeader \<Rightarrow> extractCostFromHeaders x (rsUpstream rs) (csKey s)
      | ResponseMetadata \<Rightarrow> extractFromMetadataMap x (rsMetadata rs) (csKey s)
      | ResponseBody \<Rightarrow> bodyCost x (rsBody rs) (csJSONPath s)
      | ResponseCEL \<Rightarrow> if celReady x then celResponseCost x (csExpression s) rs else None
      | _ \<Rightarrow> None)"

text \<open>The sum over the sources of a phase: the total and whether any source gave a value.\<close>

definition addSource :: "(CostSource \<Rightarrow> f64 option) \<Rightarrow> f64 \<times> bool \<Rightarrow> CostSource \<Rightarrow> f64 \<times> bool" where
  "addSource ext acc s =
     (case ext s of None \<Rightarrow> acc | Some v \<Rightarrow> (f64_add (fst acc) (f64_mul v (csMultiplier s)), True))"

definition sumSources :: "(cost_source_type \<Rightarrow> bool) \<Rightarrow> (CostSource \<Rightarrow> f64 option) \<Rightarrow> CostSource list \<Rightarrow> f64 \<times> bool" where
  "sumSources phase ext ss = foldl (\<lambda>acc s. if phase (csType s) then addSource ext acc s else acc) (f64_of_int 0, False) ss"

definition f64_neg_clamp :: "f64 \<Rightarrow> f64" where
  "f64_neg_clamp v = (if f64_lt v (f64_of_int 0) then f64_of_int 0 else v)"

definition ExtractRequestCost :: "extern \<Rightarrow> CostExtractionConfig \<Rightarrow> request \<Rightarrow> f64 \<times> bool" where
  "ExtractRequestCost x c rq =
     (if \<not> Enabled c then (Default c, False)
      else let (total, found) = sumSources isRequestPhaseSource (extractFromRequestSource x rq) (Sources c) in
        if \<not> found then (Default c, False) else (f64_neg_clamp total, True))"

definition ExtractResponseCost :: "extern \<Rightarrow> CostExtractionConfig \<Rightarrow> response \<Rightarrow> f64 \<times> bool" where
  "ExtractResponseCost x c rs =
     (if \<not> Enabled c then (Default c, False)
      else let (total, found) = sumSources isResponsePhaseSource (extractFromResponseSource x rs) (Sources c) in
        if \<not> found then (Default c, False) else (f64_neg_clamp total, True))"

definition ExtractRequestHeaderOnlyCost :: "extern \<Rightarrow> CostExtractionConfig \<Rightarrow> headers option \<Rightarrow> f64 \<times> bool" where
  "ExtractRequestHeaderOnlyCost x c h =
     (if \<not> Enabled c then (Default c, False)
      else let (total, found) = sumSources (\<lambda>t. t = RequestHeader) (\<lambda>s. extractCostFromHeaders x h (csKey s)) (Sources c) in
        if \<not> found then (Default c, False) else (total, True))"

section \<open>Phases\<close>

definition RequiresResponseBody :: "CostExtractionConfig \<Rightarrow> bool" where
  "RequiresResponseBody c \<longleftrightarrow> Enabled c \<and> list_ex (\<lambda>s. csType s = ResponseBody \<or> csType s = ResponseCEL) (Sources c)"

definition HasRequestBodyPhase :: "CostExtractionConfig \<Rightarrow> bool" where
  "HasRequestBodyPhase c \<longleftrightarrow>
     Enabled c \<and> list_ex (\<lambda>s. csType s = RequestBody \<or> csType s = RequestCEL \<or> csType s = RequestMetadata) (Sources c)"

text \<open>The loop over the sources: \<open>None\<close> is the early return of \<^verbatim>\<open>false\<close>.\<close>

definition headerOnlyLoop :: "cost_source_type \<Rightarrow> (cost_source_type \<Rightarrow> bool) \<Rightarrow> CostSource list \<Rightarrow> bool" where
  "headerOnlyLoop header phase ss =
     (case foldl (\<lambda>acc s. case acc of None \<Rightarrow> None
          | Some h \<Rightarrow> if csType s = header then Some True else if phase (csType s) then None else Some h) (Some False) ss of
        None \<Rightarrow> False | Some h \<Rightarrow> h)"

definition HasResponseHeaderOnlyCostSources :: "CostExtractionConfig \<Rightarrow> bool" where
  "HasResponseHeaderOnlyCostSources c =
     (if \<not> Enabled c \<or> RequiresResponseBody c then False else headerOnlyLoop ResponseHeader isResponsePhaseSource (Sources c))"

definition HasRequestHeaderOnlyCostSources :: "CostExtractionConfig \<Rightarrow> bool" where
  "HasRequestHeaderOnlyCostSources c =
     (if \<not> Enabled c \<or> HasRequestBodyPhase c then False else headerOnlyLoop RequestHeader isRequestPhaseSource (Sources c))"

definition HasRequestPhaseSources :: "CostExtractionConfig \<Rightarrow> bool" where
  "HasRequestPhaseSources c \<longleftrightarrow> Enabled c \<and> list_ex (\<lambda>s. isRequestPhaseSource (csType s)) (Sources c)"

definition HasResponsePhaseSources :: "CostExtractionConfig \<Rightarrow> bool" where
  "HasResponsePhaseSources c \<longleftrightarrow> Enabled c \<and> list_ex (\<lambda>s. isResponsePhaseSource (csType s)) (Sources c)"

section \<open>Parsing\<close>

definition strField :: "params \<Rightarrow> string \<Rightarrow> string" where
  "strField m k = (case as_str (index m k) of Some s \<Rightarrow> s | None \<Rightarrow> '''')"

text \<open>A float64 or an int, as a float.\<close>

definition numField :: "params \<Rightarrow> string \<Rightarrow> f64 option" where
  "numField m k = (case as_float (index m k) of Some v \<Rightarrow> Some v
     | None \<Rightarrow> (case as_int (index m k) of Some i \<Rightarrow> Some (f64_of_int i) | None \<Rightarrow> None))"

text \<open>One source: an error, nothing (a malformed entry is skipped), or the source. The message about a
  multiplier leaves out the printed number.\<close>

definition parseCostSource :: "nat \<Rightarrow> any \<Rightarrow> CostSource option outcome" where
  "parseCostSource i raw =
     (case as_map raw of
        None \<Rightarrow> Ret None
      | Some m \<Rightarrow>
          (case as_str (index m ''type'') of
             None \<Rightarrow> Ret None
           | Some t \<Rightarrow>
               let s = \<lparr>csType = CostSourceType t, csKey = strField m ''key'', csJSONPath = strField m ''jsonPath'',
                        csExpression = strField m ''expression'', csMultiplier = f64_of_int 1\<rparr>
               in if (t = ''request_cel'' \<or> t = ''response_cel'') \<and> csExpression s = '''' then
                    Fail (''sources['' @ itoa (int i) @ '']: type '' @ quoted t @ '' requires '' @ quoted ''expression'' @ '' field'')
                  else case numField m ''multiplier'' of
                    None \<Rightarrow> Ret (Some s)
                  | Some mult \<Rightarrow>
                      if f64_lt mult (f64_of_int 0) then Fail (''sources['' @ itoa (int i) @ ''].multiplier must be non-negative'')
                      else Ret (Some (s\<lparr>csMultiplier := mult\<rparr>))))"

fun parseCostSources :: "nat \<Rightarrow> any list \<Rightarrow> CostSource list outcome" where
  "parseCostSources i [] = Ret []"
| "parseCostSources i (raw # rest) =
     (case parseCostSource i raw of
        Fail m \<Rightarrow> Fail m
      | Panic \<Rightarrow> Panic
      | Ret s \<Rightarrow>
          (case parseCostSources (Suc i) rest of
             Ret ss \<Rightarrow> Ret (case s of None \<Rightarrow> ss | Some s \<Rightarrow> s # ss)
           | Fail m \<Rightarrow> Fail m
           | Panic \<Rightarrow> Panic))"

definition parseCostExtractionConfig :: "any \<Rightarrow> CostExtractionConfig option outcome" where
  "parseCostExtractionConfig raw =
     (case as_map raw of
        None \<Rightarrow> Ret None
      | Some m \<Rightarrow>
          let enabled = (as_bool (index m ''enabled'') = Some True);
              config = \<lparr>Enabled = enabled, Sources = [], Default = f64_of_int 1\<rparr>
          in if \<not> enabled then Ret (Some config)
             else let config = (case numField m ''default'' of None \<Rightarrow> config | Some d \<Rightarrow> config\<lparr>Default := f64_neg_clamp d\<rparr>)
               in case as_arr (index m ''sources'') of
                 None \<Rightarrow> Ret (Some (config\<lparr>Enabled := False\<rparr>))
               | Some [] \<Rightarrow> Ret (Some (config\<lparr>Enabled := False\<rparr>))
               | Some raws \<Rightarrow>
                   (case parseCostSources 0 raws of
                      Fail e \<Rightarrow> Fail e
                    | Panic \<Rightarrow> Panic
                    | Ret ss \<Rightarrow> Ret (Some (config\<lparr>Sources := ss, Enabled := (ss \<noteq> [])\<rparr>))))"

section \<open>Lemmas\<close>

lemma headerOnlyLoop_iff:
  "headerOnlyLoop h ph ss \<longleftrightarrow> (\<exists>s \<in> set ss. csType s = h) \<and> (\<forall>s \<in> set ss. ph (csType s) \<longrightarrow> csType s = h)"
proof -
  let ?f = "\<lambda>acc s. case acc of None \<Rightarrow> None
    | Some b \<Rightarrow> if csType s = h then Some True else if ph (csType s) then None else Some b"
  have none: "foldl ?f None ss = None" for ss by (induction ss) auto
  have "foldl ?f (Some b) ss =
      (if \<forall>s \<in> set ss. ph (csType s) \<longrightarrow> csType s = h then Some (b \<or> (\<exists>s \<in> set ss. csType s = h)) else None)" for b ss
    by (induction ss arbitrary: b) (auto simp: none)
  from this [of False ss] show ?thesis unfolding headerOnlyLoop_def by (auto split: if_splits)
qed

lemma sumSources_cong:
  assumes "\<forall>s \<in> set ss. ph (csType s) = ph' (csType s) \<and> (ph (csType s) \<longrightarrow> ext s = ext' s)"
  shows "sumSources ph ext ss = sumSources ph' ext' ss"
proof -
  have "foldl (\<lambda>acc s. if ph (csType s) then addSource ext acc s else acc) a ss =
      foldl (\<lambda>acc s. if ph' (csType s) then addSource ext' acc s else acc) a ss" for a
    using assms by (induction ss arbitrary: a) (auto simp: addSource_def)
  then show ?thesis by (simp add: sumSources_def)
qed

lemma lastMatch_assoc: "lastMatch (lastMatch a b) c = lastMatch a (lastMatch b c)"
  by (simp add: lastMatch_def split: option.splits)

lemma lastMatch_None [simp]: "lastMatch a None = a" "lastMatch None a = a"
  by (simp_all add: lastMatch_def split: option.splits)

lemma parseSSELoop_found:
  "parseSSELoop x jp found line s = (lastMatch found (fst (parseSSELoop x jp None line s)), snd (parseSSELoop x jp None line s))"
proof (induction s arbitrary: found line)
  case (Cons c cs)
  show ?case
  proof (cases "c = newline")
    case True
    let ?cost = "sseLineCost x jp (rev line)"
    have "parseSSELoop x jp found line (c # cs) = parseSSELoop x jp (lastMatch found ?cost) [] cs"
      "parseSSELoop x jp None line (c # cs) = parseSSELoop x jp ?cost [] cs"
      using True by simp_all
    then show ?thesis using Cons.IH [of "lastMatch found ?cost" "[]"] Cons.IH [of ?cost "[]"]
      by (metis fst_conv lastMatch_assoc snd_conv)
  qed (use Cons.IH [of found "c # line"] in simp)
qed simp

lemma parseSSELoop_append:
  "parseSSELoop x jp found line (a @ b) =
    (let (f, r) = parseSSELoop x jp found line a in parseSSELoop x jp f (rev r) b)"
  by (induction a arbitrary: found line) auto

lemma parseSSELoop_prefix:
  "newline \<notin> set r \<Longrightarrow> parseSSELoop x jp found line (r @ b) = parseSSELoop x jp found (rev r @ line) b"
  by (induction r arbitrary: line) auto

lemma parseSSELoop_rest_no_newline:
  "newline \<notin> set line \<Longrightarrow> newline \<notin> set (snd (parseSSELoop x jp found line s))"
  by (induction s arbitrary: found line) auto

text \<open>The state a stream keeps for a source: the last match and the incomplete line.\<close>

definition feedSSE :: "extern \<Rightarrow> string \<Rightarrow> f64 option \<times> string \<Rightarrow> string \<Rightarrow> f64 option \<times> string" where
  "feedSSE x jp st chunk =
     (let (f, r) = parseSSEChunk x (snd st @ chunk) jp in (lastMatch (fst st) f, r))"

lemma feedSSE_loop:
  "newline \<notin> set (snd st) \<Longrightarrow> feedSSE x jp st chunk = parseSSELoop x jp (fst st) (rev (snd st)) chunk"
  using parseSSELoop_found [of x jp "fst st" "rev (snd st)" chunk]
  by (simp add: feedSSE_def parseSSEChunk_def parseSSELoop_prefix split: prod.splits)

lemma feedSSE_chunks:
  "foldl (feedSSE x jp) (None, []) chunks = parseSSEChunk x (concat chunks) jp"
proof -
  have "newline \<notin> set (snd st) \<Longrightarrow>
      foldl (feedSSE x jp) st chunks = parseSSELoop x jp (fst st) (rev (snd st)) (concat chunks)" for st
  proof (induction chunks arbitrary: st)
    case (Cons c cs)
    have "newline \<notin> set (snd (feedSSE x jp st c))"
      using Cons.prems by (simp add: feedSSE_loop parseSSELoop_rest_no_newline)
    then show ?case using Cons by (simp add: feedSSE_loop parseSSELoop_append split: prod.splits)
  qed simp
  then show ?thesis by (simp add: parseSSEChunk_def)
qed

lemma parseSSELoop_split:
  assumes "newline \<notin> set line"
  shows "foldl (\<lambda>found line. lastMatch found (sseLineCost x jp line)) found (split_on newline (rev line @ s)) =
    (let (f, r) = parseSSELoop x jp found line s in lastMatch f (sseLineCost x jp r))"
  using assms
proof (induction s arbitrary: found line)
  case Nil
  then show ?case by (simp add: split_on_fragment)
next
  case (Cons c cs)
  show ?case
  proof (cases "c = newline")
    case True
    have "split_on newline (rev line @ newline # cs) = [rev line] @ split_on newline cs"
      using Cons.prems by (simp add: split_on_append split_on_fragment)
    then show ?thesis using Cons.IH [of "[]"] True by simp
  next
    case False
    then show ?thesis using Cons.IH [of "c # line" found] Cons.prems by simp
  qed
qed

lemma extractFromSSEBodyBytes_chunk:
  "extractFromSSEBodyBytes x s jp = (let (f, r) = parseSSEChunk x s jp in lastMatch f (sseLineCost x jp r))"
  using parseSSELoop_split [of "[]" x jp None s] by (simp add: extractFromSSEBodyBytes_def parseSSEChunk_def)

section \<open>Properties\<close>

lemma header_only_sources:
  assumes "HasRequestHeaderOnlyCostSources c"
  shows "Enabled c" "\<exists>s \<in> set (Sources c). csType s = RequestHeader"
    "\<forall>s \<in> set (Sources c). isRequestPhaseSource (csType s) \<longleftrightarrow> csType s = RequestHeader"
  using assms by (auto simp: HasRequestHeaderOnlyCostSources_def headerOnlyLoop_iff split: if_splits)

lemma header_only_sum:
  assumes "HasRequestHeaderOnlyCostSources c"
  shows "sumSources isRequestPhaseSource (extractFromRequestSource x rq) (Sources c) =
    sumSources (\<lambda>t. t = RequestHeader) (\<lambda>s. extractCostFromHeaders x (rqHeaders rq) (csKey s)) (Sources c)"
  by (rule sumSources_cong) (use header_only_sources(3) [OF assms] in auto)

text \<open>Adding a non-negative cost keeps a total non-negative; infinity times zero is no number.\<close>

definition nonneg :: "f64 \<Rightarrow> bool" where "nonneg v \<longleftrightarrow> \<not> f64_lt v (f64_of_int 0)"

lemma f64_zero: "f64_of_int 0 = Fin 0"
  by (simp add: f64_of_int_def f64_round_def)

lemma f64_one: "f64_of_int 1 = Fin 1"
  using f64_of_int_exact [of 1] by simp

lemma nonneg_clamp [simp]: "nonneg (f64_neg_clamp v)"
  by (simp add: nonneg_def f64_neg_clamp_def f64_zero)

text \<open>Where a quota takes its request cost from headers alone, the header phase and the body phase
  compute the same cost and find it in the same cases; the body phase only adds the clamp to zero.\<close>
lemma cost_header_phase_agrees:
  assumes "HasRequestHeaderOnlyCostSources c"
  shows "ExtractRequestCost x c rq =
    (let (cost, found) = ExtractRequestHeaderOnlyCost x c (rqHeaders rq) in (if found then f64_neg_clamp cost else cost, found))"
  using header_only_sources(1) [OF assms] header_only_sum [OF assms, of x rq]
  by (simp add: ExtractRequestCost_def ExtractRequestHeaderOnlyCost_def split: prod.splits)

text \<open>Concrete externals for the examples: every header and JSON payload is the cost 2.\<close>

definition demoExtern :: extern where
  "demoExtern = \<lparr>jsonPathOf = (\<lambda>b p. if b = p then Some b else None), parseFloat = (\<lambda>s. if s = ''2'' then Some (Fin 2) else None),
     celReady = False, celKey = (\<lambda>e rq d. None), celRequestCost = (\<lambda>e rq. None), celResponseCost = (\<lambda>e rs. None)\<rparr>"

definition demoHeaderCost :: CostExtractionConfig where
  "demoHeaderCost = \<lparr>Enabled = True, Sources = [\<lparr>csType = RequestHeader, csKey = ''x-cost'', csJSONPath = '''',
     csExpression = '''', csMultiplier = Fin 1\<rparr>], Default = Fin 1\<rparr>"

definition demoRequest :: request where
  "demoRequest = \<lparr>rqHeaders = Some (\<lambda>h. if h = ''x-cost'' then [''2''] else []), rqMetadata = [], rqBody = None,
     rqAPIName = ''a'', rqAPIVersion = ''v1''\<rparr>"

lemma cost_header_phase_agrees_example:
  "HasRequestHeaderOnlyCostSources demoHeaderCost \<and>
   ExtractRequestCost demoExtern demoHeaderCost demoRequest =
    (let (cost, found) = ExtractRequestHeaderOnlyCost demoExtern demoHeaderCost (rqHeaders demoRequest) in
      (if found then f64_neg_clamp cost else cost, found))"
proof
  show "HasRequestHeaderOnlyCostSources demoHeaderCost"
    by (simp add: demoHeaderCost_def HasRequestHeaderOnlyCostSources_def HasRequestBodyPhase_def headerOnlyLoop_def)
  then show "ExtractRequestCost demoExtern demoHeaderCost demoRequest =
    (let (cost, found) = ExtractRequestHeaderOnlyCost demoExtern demoHeaderCost (rqHeaders demoRequest) in
      (if found then f64_neg_clamp cost else cost, found))"
    by (rule cost_header_phase_agrees)
qed

text \<open>What parsing promises of a source and of a configuration.\<close>

definition sourceWf :: "CostSource \<Rightarrow> bool" where
  "sourceWf s \<longleftrightarrow> nonneg (csMultiplier s) \<and>
     (csType s = RequestCEL \<or> csType s = ResponseCEL \<longrightarrow> csExpression s \<noteq> '''')"

definition wellFormedCost :: "CostExtractionConfig \<Rightarrow> bool" where
  "wellFormedCost c \<longleftrightarrow> nonneg (Default c) \<and> (\<forall>s \<in> set (Sources c). sourceWf s)"

lemma CostSourceType_cel:
  "CostSourceType t = RequestCEL \<longleftrightarrow> t = ''request_cel''" "CostSourceType t = ResponseCEL \<longleftrightarrow> t = ''response_cel''"
  by (simp_all add: CostSourceType_def)

lemma parseCostSource_wf:
  "parseCostSource i raw = Ret (Some s) \<Longrightarrow> sourceWf s"
  by (auto simp: parseCostSource_def Let_def sourceWf_def nonneg_def f64_zero f64_one CostSourceType_cel
    split: option.splits if_splits)

lemma parseCostSources_wf:
  "parseCostSources i raws = Ret ss \<Longrightarrow> s \<in> set ss \<Longrightarrow> sourceWf s"
proof (induction i raws arbitrary: ss rule: parseCostSources.induct)
  case (2 i raw rest)
  then obtain r ss' where p: "parseCostSource i raw = Ret r" "parseCostSources (Suc i) rest = Ret ss'"
    "ss = (case r of None \<Rightarrow> ss' | Some s \<Rightarrow> s # ss')"
    by (auto split: outcome.splits)
  show ?case
  proof (cases "s \<in> set ss'")
    case True
    then show ?thesis using "2.IH" [OF p(1) p(2)] by blast
  next
    case False
    then have "r = Some s" using p(3) "2.prems"(2) by (auto split: option.splits)
    then show ?thesis using p(1) parseCostSource_wf by blast
  qed
qed simp

lemma parseCostExtractionConfig_wf:
  assumes "parseCostExtractionConfig raw = Ret (Some c)"
  shows "(Enabled c \<longleftrightarrow> Sources c \<noteq> []) \<and> wellFormedCost c"
proof -
  have one: "nonneg (f64_of_int 1)" by (simp add: nonneg_def f64_zero f64_one)
  have "(Enabled c \<longleftrightarrow> Sources c \<noteq> []) \<and> nonneg (Default c) \<and>
      (Sources c = [] \<or> (\<exists>raws. parseCostSources 0 raws = Ret (Sources c)))"
    using assms one
    by (auto simp del: parseCostSources.simps simp: parseCostExtractionConfig_def Let_def
      split: option.splits if_splits list.splits outcome.splits)
  then show ?thesis using parseCostSources_wf by (auto simp: wellFormedCost_def)
qed

text \<open>A configuration that parsing returns, whatever JSON value it was given, is enabled exactly if
  it has a source; its default and its multipliers are not negative and every CEL source has an
  expression.\<close>
lemma parse_cost_config_wf:
  assumes "parseCostExtractionConfig raw = Ret (Some c)"
  shows "(Enabled c \<longleftrightarrow> Sources c \<noteq> []) \<and> wellFormedCost c"
  by (rule parseCostExtractionConfig_wf [OF assms])

definition demoCostJSON :: any where
  "demoCostJSON = AMap [(''enabled'', ABool True), (''default'', AInt (-4)),
     (''sources'', AArr [AStr ''skipped'', AMap [(''type'', AStr ''response_cel''), (''expression'', AStr ''1'')]])]"

definition demoCostConfig :: CostExtractionConfig where
  "demoCostConfig = \<lparr>Enabled = True, Sources = [\<lparr>csType = ResponseCEL, csKey = '''', csJSONPath = '''',
     csExpression = ''1'', csMultiplier = f64_of_int 1\<rparr>], Default = f64_neg_clamp (f64_of_int (-4))\<rparr>"

end
