(* ===== verification/QuotaHeaders.thy ===== *)
theory QuotaHeaders
  imports CostExtractor
begin

text \<open>
  \<^verbatim>\<open>ratelimit.go\<close>, first part: the data of the policy (\<^verbatim>\<open>KeyComponent\<close>, \<^verbatim>\<open>QuotaRuntime\<close>,
  \<^verbatim>\<open>RateLimitPolicy\<close>, \<^verbatim>\<open>quotaResult\<close>) and the response headers built from the results of the
  quotas. A pointer to a result is an option; the limiter a quota points to is an index into the
  list of limiters, so that two quotas may share one. Header maps are association lists.
\<close>

section \<open>Data\<close>

record KeyComponent =
  kcType :: string
  kcKey :: string
  kcExpression :: string
  kcFallback :: string

record QuotaRuntime =
  qName :: string
  qLimits :: "limit_config list"
  qKeyExtraction :: "KeyComponent list"
  qLimiter :: nat
  qCostExtractor :: "CostExtractionConfig option"
  qCostExtractionEnabled :: bool

record RateLimitPolicy =
  quotas :: "QuotaRuntime list"
  routeName :: string
  instanceID :: string
  statusCode :: int
  responseBody :: string
  responseFormat :: string
  backend :: string
  redisFailOpen :: bool
  includeXRL :: bool
  includeIETF :: bool
  includeRetry :: bool

record quotaResult =
  qrName :: string
  qrResult :: "result option"
  qrKey :: string
  qrDuration :: duration

record ImmediateResponse =
  irStatus :: int
  irHeaders :: header
  irBody :: string

definition redisBacked :: "RateLimitPolicy \<Rightarrow> bool" where
  "redisBacked p \<longleftrightarrow> backend p = ''redis'' \<or> backend p = ''redis-local-async''"

definition metaKey :: "RateLimitPolicy \<Rightarrow> string \<Rightarrow> string" where
  "metaKey p base = (if instanceID p = '''' then base else base @ '':'' @ instanceID p)"

definition quotaNameFor :: "QuotaRuntime \<Rightarrow> nat \<Rightarrow> string" where
  "quotaNameFor q i = (if qName q \<noteq> '''' then qName q else ''quota-'' @ itoa (int i))"

definition getLimitFromQuota :: "QuotaRuntime \<Rightarrow> int" where
  "getLimitFromQuota q = (case qLimits q of [] \<Rightarrow> 0 | l # _ \<Rightarrow> lcLimit l)"

definition getDurationFromQuota :: "QuotaRuntime \<Rightarrow> duration" where
  "getDurationFromQuota q = (case qLimits q of [] \<Rightarrow> 0 | l # _ \<Rightarrow> lcDuration l)"

section \<open>Headers\<close>

text \<open>The first of the results with the least remaining quota; entries without a result are passed
  over.\<close>

definition restrict1 :: "result option \<Rightarrow> quotaResult \<Rightarrow> result option" where
  "restrict1 best qr =
     (case qrResult qr of
        None \<Rightarrow> best
      | Some r \<Rightarrow> (case best of None \<Rightarrow> Some r | Some b \<Rightarrow> if Remaining r < Remaining b then Some r else best))"

definition mostRestrictiveOf :: "quotaResult list \<Rightarrow> result option" where
  "mostRestrictiveOf rs = foldl restrict1 None rs"

definition displayName :: "quotaResult \<Rightarrow> string" where
  "displayName qr = (if qrName qr = '''' then ''default'' else qrName qr)"

definition windowSeconds :: "quotaResult \<Rightarrow> result \<Rightarrow> int" where
  "windowSeconds qr r =
     (let w = f64_to_int64 (dur_Seconds (qrDuration qr)) in
      if w \<le> 0 \<and> 0 < RDuration r then f64_to_int64 (dur_Seconds (RDuration r)) else w)"

definition policyPart :: "quotaResult \<Rightarrow> result \<Rightarrow> string" where
  "policyPart qr r = dquote @ displayName qr @ dquote @ '';q='' @ itoa (RLimit r) @ '';w='' @ itoa (windowSeconds qr r)"

definition limitPart :: "env \<Rightarrow> quotaResult \<Rightarrow> result \<Rightarrow> string" where
  "limitPart e qr r = dquote @ displayName qr @ dquote @ '';r='' @ itoa (Remaining r) @ '';t='' @ itoa (seconds_until e (Reset r))"

definition withResult :: "(quotaResult \<Rightarrow> result \<Rightarrow> 'a) \<Rightarrow> quotaResult list \<Rightarrow> 'a list" where
  "withResult f rs = List.map_filter (\<lambda>qr. map_option (f qr) (qrResult qr)) rs"

text \<open>The result whose \<^verbatim>\<open>RetryAfter\<close> is reported: the first of the violated quota that has one, else
  the most restrictive.\<close>

definition retryResult :: "quotaResult list \<Rightarrow> string \<Rightarrow> result option" where
  "retryResult rs violated =
     (case (if violated = '''' then None
            else List.find (\<lambda>qr. qrName qr = violated \<and> qrResult qr \<noteq> None) rs) of
        Some qr \<Rightarrow> qrResult qr
      | None \<Rightarrow> mostRestrictiveOf rs)"

definition xrlHeaders :: "result \<Rightarrow> header" where
  "xrlHeaders r = [(''x-ratelimit-limit'', itoa (RLimit r)), (''x-ratelimit-remaining'', itoa (Remaining r)),
     (''x-ratelimit-reset'', itoa (time_Unix (Reset r)))]"

definition retrySeconds :: "result \<Rightarrow> int" where
  "retrySeconds r = (let s = f64_to_int64 (dur_Seconds (RetryAfter r)) in if s < 1 then 1 else s)"

definition buildMultiQuotaHeaders :: "env \<Rightarrow> RateLimitPolicy \<Rightarrow> quotaResult list \<Rightarrow> bool \<Rightarrow> string \<Rightarrow> header" where
  "buildMultiQuotaHeaders e p rs rateLimited violated =
     (if rs = [] then []
      else
        (if includeXRL p then (case mostRestrictiveOf rs of None \<Rightarrow> [] | Some r \<Rightarrow> xrlHeaders r) else []) @
        (if includeIETF p \<and> withResult policyPart rs \<noteq> [] then
           [(''ratelimit-policy'', join '', '' (withResult policyPart rs)),
            (''ratelimit'', join '', '' (withResult (limitPart e) rs))] else []) @
        (if rateLimited \<and> includeRetry p then
           (case retryResult rs violated of
              None \<Rightarrow> []
            | Some r \<Rightarrow> if 0 < RetryAfter r then [(''retry-after'', itoa (retrySeconds r))] else [])
         else []))"

definition violatedEntry :: "string \<Rightarrow> result \<Rightarrow> quotaResult" where
  "violatedEntry name r = \<lparr>qrName = name, qrResult = Some r, qrKey = '''', qrDuration = RDuration r\<rparr>"

definition buildRateLimitResponse :: "env \<Rightarrow> RateLimitPolicy \<Rightarrow> result option \<Rightarrow> string \<Rightarrow> quotaResult list \<Rightarrow> ImmediateResponse" where
  "buildRateLimitResponse e p violatedResult name rs =
     (let headers =
            (if rs \<noteq> [] then
               buildMultiQuotaHeaders e p
                 (case violatedResult of
                    Some r \<Rightarrow> if list_ex (\<lambda>qr. qrName qr = name) rs then rs else rs @ [violatedEntry name r]
                  | None \<Rightarrow> rs) True name
             else (case violatedResult of
                 Some r \<Rightarrow> buildMultiQuotaHeaders e p [violatedEntry name r] True name
               | None \<Rightarrow> []));
          headers = AList.update ''content-type'' (if responseFormat p = ''json'' then ''application/json'' else ''text/plain'') headers;
          headers = (if name \<noteq> '''' then AList.update ''x-ratelimit-quota'' name headers else headers)
      in \<lparr>irStatus = statusCode p, irHeaders = headers, irBody = responseBody p\<rparr>)"

section \<open>Lemmas\<close>

lemma restrict1_fold_None:
  "foldl restrict1 best rs = None \<longleftrightarrow> best = None \<and> (\<forall>qr \<in> set rs. qrResult qr = None)"
  by (induction rs arbitrary: best) (auto simp: restrict1_def split: option.splits)

lemma restrict1_fold_le:
  "foldl restrict1 best rs = Some m \<Longrightarrow>
    (\<forall>b. best = Some b \<longrightarrow> Remaining m \<le> Remaining b) \<and> (\<forall>qr \<in> set rs. \<forall>r. qrResult qr = Some r \<longrightarrow> Remaining m \<le> Remaining r)"
proof (induction rs arbitrary: best)
  case (Cons qr rs)
  from Cons.IH [of "restrict1 best qr"] Cons.prems
  have ih: "\<forall>b. restrict1 best qr = Some b \<longrightarrow> Remaining m \<le> Remaining b"
    "\<forall>qr \<in> set rs. \<forall>r. qrResult qr = Some r \<longrightarrow> Remaining m \<le> Remaining r" by auto
  show ?case using ih by (fastforce simp: restrict1_def split: option.splits if_splits)
qed simp

lemma restrict1_fold_in:
  "foldl restrict1 best rs = Some m \<Longrightarrow> best = Some m \<or> (\<exists>qr \<in> set rs. qrResult qr = Some m)"
proof (induction rs arbitrary: best)
  case (Cons qr rs)
  from Cons.IH [of "restrict1 best qr"] Cons.prems
  have "restrict1 best qr = Some m \<or> (\<exists>qr \<in> set rs. qrResult qr = Some m)" by simp
  then show ?case by (auto simp: restrict1_def split: option.splits if_splits)
qed simp

lemma mostRestrictiveOf_least:
  assumes "mostRestrictiveOf rs = Some m"
  shows "\<exists>qr \<in> set rs. qrResult qr = Some m" "qr \<in> set rs \<Longrightarrow> qrResult qr = Some r \<Longrightarrow> Remaining m \<le> Remaining r"
  using restrict1_fold_in [of None rs m] restrict1_fold_le [of None rs m] assms by (auto simp: mostRestrictiveOf_def)

lemma mostRestrictiveOf_None: "mostRestrictiveOf rs = None \<longleftrightarrow> (\<forall>qr \<in> set rs. qrResult qr = None)"
  by (simp add: mostRestrictiveOf_def restrict1_fold_None)

lemma find_first: "List.find P xs = Some x \<Longrightarrow> x \<in> set xs \<and> P x"
  by (metis find_Some_iff nth_mem)

lemma find_append_None:
  "\<forall>x \<in> set xs. \<not> P x \<Longrightarrow> List.find P (xs @ ys) = List.find P ys"
  by (induction xs) auto

lemma xrlHeaders_lookup:
  "map_of (xrlHeaders r) ''retry-after'' = None" "map_of (xrlHeaders r) ''x-ratelimit-remaining'' = Some (itoa (Remaining r))"
  by (simp_all add: xrlHeaders_def)

lemma buildMultiQuotaHeaders_lookup:
  "rs \<noteq> [] \<Longrightarrow> map_of (buildMultiQuotaHeaders e p rs limited v) k =
    (map_of (if limited \<and> includeRetry p then
           (case retryResult rs v of
              None \<Rightarrow> []
            | Some r \<Rightarrow> if 0 < RetryAfter r then [(''retry-after'', itoa (retrySeconds r))] else [])
         else []) ++
      map_of (if includeIETF p \<and> withResult policyPart rs \<noteq> [] then
           [(''ratelimit-policy'', join '', '' (withResult policyPart rs)),
            (''ratelimit'', join '', '' (withResult (limitPart e) rs))] else []) ++
      map_of (if includeXRL p then (case mostRestrictiveOf rs of None \<Rightarrow> [] | Some r \<Rightarrow> xrlHeaders r) else [])) k"
  unfolding buildMultiQuotaHeaders_def map_of_append by (simp only: if_False map_add_assoc map_of_append)

lemma headers_lookup:
  assumes "rs \<noteq> []"
  shows "map_of (buildMultiQuotaHeaders e p rs limited v) ''retry-after'' =
      (if limited \<and> includeRetry p then
         (case retryResult rs v of None \<Rightarrow> None | Some r \<Rightarrow> if 0 < RetryAfter r then Some (itoa (retrySeconds r)) else None)
       else None)"
    and "map_of (buildMultiQuotaHeaders e p rs limited v) ''x-ratelimit-remaining'' =
      (if includeXRL p then map_option (\<lambda>r. itoa (Remaining r)) (mostRestrictiveOf rs) else None)"
  unfolding buildMultiQuotaHeaders_lookup [OF assms] map_add_def if_distrib [where f = map_of]
  by (cases "mostRestrictiveOf rs"; cases "retryResult rs v"; cases "includeXRL p"; cases "includeIETF p";
    cases "limited \<and> includeRetry p"; simp add: xrlHeaders_lookup)+

text \<open>What a denial tells the client. When a quota that gave no earlier result denies with a
  positive \<^verbatim>\<open>RetryAfter\<close>, the response has the configured status and names the quota; its
  Retry-After is that of the quota that denied, rounded down to seconds but at least one; and the
  remaining quota is the least over all quotas that were checked.\<close>
lemma denial_headers:
  assumes "includeRetry p" "includeXRL p" "0 < RetryAfter r" "name \<noteq> ''''" "\<forall>qr \<in> set rs. qrName qr \<noteq> name"
  shows "let resp = buildRateLimitResponse e p (Some r) name rs;
      least = Min (Remaining ` ({r} \<union> {r'. \<exists>qr \<in> set rs. qrResult qr = Some r'}))
    in irStatus resp = statusCode p \<and> map_of (irHeaders resp) ''x-ratelimit-quota'' = Some name \<and>
       map_of (irHeaders resp) ''retry-after'' = Some (itoa (retrySeconds r)) \<and> 1 \<le> retrySeconds r \<and>
       map_of (irHeaders resp) ''x-ratelimit-remaining'' = Some (itoa least)"
proof -
  let ?rs = "rs @ [violatedEntry name r]"
  let ?R = "{r} \<union> {r'. \<exists>qr \<in> set rs. qrResult qr = Some r'}"
  have h: "irHeaders (buildRateLimitResponse e p (Some r) name rs) = AList.update ''x-ratelimit-quota'' name
      (AList.update ''content-type'' (if responseFormat p = ''json'' then ''application/json'' else ''text/plain'')
        (buildMultiQuotaHeaders e p ?rs True name))"
    using assms(4,5) by (cases rs) (auto simp: buildRateLimitResponse_def list_ex_iff)
  have retry: "retryResult ?rs name = Some r"
    using assms(4,5) by (simp add: retryResult_def find_append_None violatedEntry_def)
  obtain m where m: "mostRestrictiveOf ?rs = Some m"
    using mostRestrictiveOf_None [of ?rs] by (cases "mostRestrictiveOf ?rs") (auto simp: violatedEntry_def)
  have R: "?R = (\<lambda>qr. the (qrResult qr)) ` {qr \<in> set ?rs. qrResult qr \<noteq> None}"
    by (force simp: violatedEntry_def image_iff)
  have "finite ?R" unfolding R by simp
  moreover have "m \<in> ?R" using mostRestrictiveOf_least(1) [OF m] by (auto simp: violatedEntry_def)
  moreover have "Remaining m \<le> Remaining r'" if "r' \<in> ?R" for r'
    using that mostRestrictiveOf_least(2) [OF m, of "violatedEntry name r" r'] mostRestrictiveOf_least(2) [OF m, of _ r']
    by (fastforce simp: violatedEntry_def)
  ultimately have "Min (Remaining ` ?R) = Remaining m"
    by (intro Min_eqI) auto
  then show ?thesis
    using assms(1-3) by (simp add: Let_def h headers_lookup retry m retrySeconds_def)
      (simp add: buildRateLimitResponse_def Let_def)
qed

definition demoPolicy :: RateLimitPolicy where
  "demoPolicy = \<lparr>quotas = [], routeName = ''r'', instanceID = ''id'', statusCode = 429, responseBody = ''no'',
     responseFormat = ''json'', backend = ''memory'', redisFailOpen = True, includeXRL = True, includeIETF = True,
     includeRetry = True\<rparr>"

definition demoDenied :: result where
  "demoDenied = result_zero\<lparr>RLimit := 5, RetryAfter := 1500000000\<rparr>"

lemma denial_headers_example:
  "let resp = buildRateLimitResponse \<lparr>clock = 0, sys_now = 0\<rparr> demoPolicy (Some demoDenied) ''q'' [];
      least = Min (Remaining ` ({demoDenied} \<union> {r'. \<exists>qr \<in> set ([] :: quotaResult list). qrResult qr = Some r'}))
    in irStatus resp = statusCode demoPolicy \<and> map_of (irHeaders resp) ''x-ratelimit-quota'' = Some ''q'' \<and>
       map_of (irHeaders resp) ''retry-after'' = Some (itoa (retrySeconds demoDenied)) \<and> 1 \<le> retrySeconds demoDenied \<and>
       map_of (irHeaders resp) ''x-ratelimit-remaining'' = Some (itoa least)"
  by (rule denial_headers) (simp_all add: demoPolicy_def demoDenied_def)

end
