(* ===== verification/QuotaKeys.thy ===== *)
theory QuotaKeys
  imports QuotaHeaders
begin

text \<open>
  \<^verbatim>\<open>ratelimit.go\<close>, second part: the rate limit key of a quota, built from its key components in
  the header phase (\<^verbatim>\<open>extractQuotaKeyFromHeaderCtx\<close>) and in the body phase
  (\<^verbatim>\<open>extractQuotaKey\<close>). The headers are those of the client's request.
\<close>

section \<open>Components\<close>

definition comma :: char where "comma = CHR '',''"

definition extractIPAddress :: "headers option \<Rightarrow> string" where
  "extractIPAddress h =
     (let xri = (case headerGet h ''x-real-ip'' of [] \<Rightarrow> ''unknown'' | v # _ \<Rightarrow> if v = '''' then ''unknown'' else v)
      in case headerGet h ''x-forwarded-for'' of
        [] \<Rightarrow> xri
      | v # _ \<Rightarrow>
          if v = '''' then xri
          else let ip = TrimSpace (hd (split_on comma v)) in if ip = '''' then xri else ip)"

definition headerComponent :: "request \<Rightarrow> KeyComponent \<Rightarrow> string" where
  "headerComponent rq c =
     (let missing = ''_missing_header_'' @ kcKey c @ ''_'' in
      case headerGet (rqHeaders rq) (ToLower (kcKey c)) of [] \<Rightarrow> missing | v # _ \<Rightarrow> if v = '''' then missing else v)"

definition metadataComponent :: "request \<Rightarrow> KeyComponent \<Rightarrow> string" where
  "metadataComponent rq c =
     (let missing = (if kcFallback c \<noteq> '''' then kcFallback c else ''_missing_metadata_'' @ kcKey c @ ''_'') in
      case as_str (index (rqMetadata rq) (kcKey c)) of None \<Rightarrow> missing | Some s \<Rightarrow> if s = '''' then missing else s)"

definition extractKeyComponentFromHeaderCtx :: "RateLimitPolicy \<Rightarrow> request \<Rightarrow> KeyComponent \<Rightarrow> string" where
  "extractKeyComponentFromHeaderCtx p rq c =
     (if kcType c = ''header'' then headerComponent rq c
      else if kcType c = ''constant'' then kcKey c
      else if kcType c = ''metadata'' then metadataComponent rq c
      else if kcType c = ''ip'' then extractIPAddress (rqHeaders rq)
      else if kcType c = ''apiname'' then rqAPIName rq
      else if kcType c = ''apiversion'' then rqAPIVersion rq
      else if kcType c = ''routename'' then routeName p
      else if kcType c = ''cel'' then ''_cel_not_supported_in_header_phase_''
      else '''')"

definition extractKeyComponent :: "extern \<Rightarrow> RateLimitPolicy \<Rightarrow> request \<Rightarrow> KeyComponent \<Rightarrow> string" where
  "extractKeyComponent x p rq c =
     (if kcType c = ''header'' then headerComponent rq c
      else if kcType c = ''constant'' then kcKey c
      else if kcType c = ''metadata'' then metadataComponent rq c
      else if kcType c = ''ip'' then extractIPAddress (rqHeaders rq)
      else if kcType c = ''apiname'' then rqAPIName rq
      else if kcType c = ''apiversion'' then rqAPIVersion rq
      else if kcType c = ''routename'' then routeName p
      else if kcType c = ''cel'' then
        (if \<not> celReady x then ''_cel_error_''
         else case celKey x (kcExpression c) rq (routeName p) of None \<Rightarrow> ''_cel_eval_error_'' | Some k \<Rightarrow> k)
      else '''')"

section \<open>Keys\<close>

definition quotaKey :: "(KeyComponent \<Rightarrow> string) \<Rightarrow> RateLimitPolicy \<Rightarrow> QuotaRuntime \<Rightarrow> string" where
  "quotaKey part p q =
     (case qKeyExtraction q of
        [] \<Rightarrow> routeName p
      | [c] \<Rightarrow> part c
      | cs \<Rightarrow> join '':'' (map part cs))"

definition extractQuotaKeyFromHeaderCtx :: "RateLimitPolicy \<Rightarrow> request \<Rightarrow> QuotaRuntime \<Rightarrow> string" where
  "extractQuotaKeyFromHeaderCtx p rq q = quotaKey (extractKeyComponentFromHeaderCtx p rq) p q"

definition extractQuotaKey :: "extern \<Rightarrow> RateLimitPolicy \<Rightarrow> request \<Rightarrow> QuotaRuntime \<Rightarrow> string" where
  "extractQuotaKey x p rq q = quotaKey (extractKeyComponent x p rq) p q"

definition hasCELKey :: "QuotaRuntime \<Rightarrow> bool" where
  "hasCELKey q \<longleftrightarrow> list_ex (\<lambda>c. kcType c = ''cel'') (qKeyExtraction q)"

section \<open>Lemmas\<close>

lemma component_phases_agree:
  "kcType c \<noteq> ''cel'' \<Longrightarrow> extractKeyComponentFromHeaderCtx p rq c = extractKeyComponent x p rq c"
  unfolding extractKeyComponentFromHeaderCtx_def extractKeyComponent_def by (simp only: if_False)

lemma quotaKey_cong:
  "(\<And>c. c \<in> set (qKeyExtraction q) \<Longrightarrow> f c = g c) \<Longrightarrow> quotaKey f p q = quotaKey g p q"
  by (auto simp: quotaKey_def split: list.splits intro!: arg_cong [where f = "join _"])

lemma key_phases_agree_aux:
  "\<not> hasCELKey q \<Longrightarrow> extractQuotaKeyFromHeaderCtx p rq q = extractQuotaKey x p rq q"
  unfolding extractQuotaKeyFromHeaderCtx_def extractQuotaKey_def
  by (rule quotaKey_cong) (auto simp: hasCELKey_def list_ex_iff intro: component_phases_agree)

section \<open>Properties\<close>

definition headerKeys :: "string \<Rightarrow> string \<Rightarrow> KeyComponent list" where
  "headerKeys h k = [\<lparr>kcType = ''header'', kcKey = h, kcExpression = '''', kcFallback = ''''\<rparr>,
     \<lparr>kcType = ''header'', kcKey = k, kcExpression = '''', kcFallback = ''''\<rparr>]"

text \<open>Keys of two requests can collide. The components of a key are joined with a colon and not
  escaped, so a client that controls two headers of the key can take the key of another client: the
  values \<open>a:b\<close> and \<open>c\<close> give the key of \<open>a\<close> and \<open>b:c\<close>.\<close>
lemma quota_key_collision:
  assumes "qKeyExtraction q = headerKeys h k" "a \<noteq> ''''" "c \<noteq> ''''"
    and "headerGet (rqHeaders r1) (ToLower h) = [a @ '':'' @ b]" "headerGet (rqHeaders r1) (ToLower k) = [c]"
    and "headerGet (rqHeaders r2) (ToLower h) = [a]" "headerGet (rqHeaders r2) (ToLower k) = [b @ '':'' @ c]"
  shows "extractQuotaKey x p r1 q = extractQuotaKey x p r2 q"
  using assms by (simp add: extractQuotaKey_def quotaKey_def headerKeys_def extractKeyComponent_def headerComponent_def)

definition twoHeaders :: "string \<Rightarrow> string \<Rightarrow> request" where
  "twoHeaders u v = demoRequest\<lparr>rqHeaders := Some (\<lambda>h. if h = ''x-tenant'' then [u] else if h = ''x-user'' then [v] else [])\<rparr>"

definition keyedQuota :: QuotaRuntime where
  "keyedQuota = \<lparr>qName = ''q'', qLimits = [], qKeyExtraction = headerKeys ''x-tenant'' ''x-user'', qLimiter = 0,
     qCostExtractor = None, qCostExtractionEnabled = False\<rparr>"

lemma quota_key_collision_example:
  "extractQuotaKey demoExtern demoPolicy (twoHeaders ''a:b'' ''c'') keyedQuota =
   extractQuotaKey demoExtern demoPolicy (twoHeaders ''a'' ''b:c'') keyedQuota"
proof -
  have lower: "ToLower ''x-tenant'' = ''x-tenant''" "ToLower ''x-user'' = ''x-user''"
    by (simp_all add: ToLower_def to_lower_def)
  show ?thesis
    by (rule quota_key_collision [of _ "''x-tenant''" "''x-user''" "''a''" "''c''" _ "''b''"])
      (simp_all add: keyedQuota_def twoHeaders_def headerGet_def lower)
qed

end
