(* ===== verification/QuotaPhases.thy ===== *)
theory QuotaPhases
  imports QuotaKeys
begin

text \<open>
  \<^verbatim>\<open>ratelimit.go\<close>, third part: the phases of a request over the quotas of a policy,
  \<^verbatim>\<open>OnRequestHeaders\<close>, \<^verbatim>\<open>OnRequestBody\<close>, \<^verbatim>\<open>OnResponseHeaders\<close>, \<^verbatim>\<open>OnResponseBody\<close> and
  \<^verbatim>\<open>OnResponseBodyChunk\<close>.

  The phases are written over the operations of any limiter (\<open>lim_ops\<close>); the state is the list of
  limiters the quotas point into and the metadata shared by the phases of a request. One turn of a
  loop over the quotas is a step that returns the limiter and what becomes of the quota: skipped,
  a result for the response headers, a refusal of the request, or a panic. \<open>es i\<close> is the
  environment of the turn of quota \<open>i\<close>; logging is left out, and the metadata map is not nil.
\<close>

section \<open>Limiters and metadata\<close>

record 's lim_ops =
  opAllowN :: "'s limiter_op"
  opGetAvailable :: "'s avail_op"
  opClampN :: "'s limiter_op"
  opConsumeN :: "'s limiter_op option"

text \<open>The limiter as a \<^verbatim>\<open>CostTracker\<close> if it is one, else the clamping fallback.\<close>

definition consumeOp :: "'s lim_ops \<Rightarrow> 's limiter_op" where
  "consumeOp ops = (case opConsumeN ops of Some f \<Rightarrow> f | None \<Rightarrow> opClampN ops)"

text \<open>Values in the metadata: those of other policies, and the four this policy stores.\<close>

datatype mval = MAny any | MResults "quotaResult list" | MKeys "(string, string) gomap" | MHandled "string list"
  | MStream "(string, string) gomap"

type_synonym meta = "(string, mval) gomap"

definition anyOf :: "mval \<Rightarrow> any" where
  "anyOf v = (case v of MAny a \<Rightarrow> a | _ \<Rightarrow> AOther)"

definition paramsOf :: "meta \<Rightarrow> params" where
  "paramsOf m = map (\<lambda>(k, v). (k, anyOf v)) m"

definition rateLimitResultKey :: string where "rateLimitResultKey = ''ratelimit:result''"
definition rateLimitKeysKey :: string where "rateLimitKeysKey = ''ratelimit:keys''"
definition rateLimitHeaderHandledKey :: string where "rateLimitHeaderHandledKey = ''ratelimit:header_handled''"
definition rateLimitStreamStateKey :: string where "rateLimitStreamStateKey = ''ratelimit:stream_state''"

definition getResults :: "RateLimitPolicy \<Rightarrow> meta \<Rightarrow> quotaResult list" where
  "getResults p m = (case map_of m (metaKey p rateLimitResultKey) of Some (MResults rs) \<Rightarrow> rs | _ \<Rightarrow> [])"

definition getKeys :: "RateLimitPolicy \<Rightarrow> meta \<Rightarrow> (string, string) gomap" where
  "getKeys p m = (case map_of m (metaKey p rateLimitKeysKey) of Some (MKeys ks) \<Rightarrow> ks | _ \<Rightarrow> [])"

definition getHandled :: "RateLimitPolicy \<Rightarrow> meta \<Rightarrow> string list" where
  "getHandled p m = (case map_of m (metaKey p rateLimitHeaderHandledKey) of Some (MHandled hs) \<Rightarrow> hs | _ \<Rightarrow> [])"

definition storedResultsMap :: "quotaResult list \<Rightarrow> (string, quotaResult) gomap" where
  "storedResultsMap rs = foldl (\<lambda>m r. AList.update (qrName r) r m) [] rs"

definition keyFor :: "(string, string) gomap \<Rightarrow> string \<Rightarrow> string" where
  "keyFor ks name = (case map_of ks name of Some k \<Rightarrow> k | None \<Rightarrow> '''')"

definition costOf :: "QuotaRuntime \<Rightarrow> CostExtractionConfig option" where
  "costOf q = (if qCostExtractionEnabled q then qCostExtractor q else None)"

section \<open>What a policy needs\<close>

definition requiresRequestBody :: "RateLimitPolicy \<Rightarrow> bool" where
  "requiresRequestBody p = list_ex (\<lambda>q. (case costOf q of Some c \<Rightarrow> HasRequestBodyPhase c | None \<Rightarrow> False) \<or> hasCELKey q) (quotas p)"

definition bodySources :: "CostExtractionConfig \<Rightarrow> bool" where
  "bodySources c = (if HasResponseHeaderOnlyCostSources c then False else HasResponsePhaseSources c)"

definition requiresAnyResponseBodyMode :: "RateLimitPolicy \<Rightarrow> bool" where
  "requiresAnyResponseBodyMode p = list_ex (\<lambda>q. case costOf q of Some c \<Rightarrow> bodySources c | None \<Rightarrow> False) (quotas p)"

definition hasStreamingResponseSourceForQuota :: "QuotaRuntime \<Rightarrow> bool" where
  "hasStreamingResponseSourceForQuota q = (case qCostExtractor q of None \<Rightarrow> False | Some c \<Rightarrow> bodySources c)"

datatype body_mode = BodyModeSkip | BodyModeBuffer | BodyModeStream

text \<open>The body modes of the request and of the response; the headers are always processed.\<close>

definition Mode :: "RateLimitPolicy \<Rightarrow> body_mode \<times> body_mode" where
  "Mode p = (if requiresRequestBody p then BodyModeBuffer else BodyModeSkip,
     if requiresAnyResponseBodyMode p then BodyModeStream else BodyModeSkip)"

definition isStreamingResponse :: "headers option \<Rightarrow> bool" where
  "isStreamingResponse h =
     (case h of
        None \<Rightarrow> False
      | Some f \<Rightarrow> (case f ''content-type'' of [] \<Rightarrow> False | v # _ \<Rightarrow> Contains v ''text/event-stream'') \<or>
          list_ex (\<lambda>v. Contains (ToLower v) ''chunked'') (f ''transfer-encoding''))"

section \<open>One quota\<close>

datatype qstep = Skip | Push quotaResult bool | Refuse "result option" | Crash

definition limiterError :: "RateLimitPolicy \<Rightarrow> qstep" where
  "limiterError p = (if redisBacked p \<and> redisFailOpen p then Skip else Refuse None)"

definition availableResult :: "env \<Rightarrow> QuotaRuntime \<Rightarrow> int \<Rightarrow> result" where
  "availableResult e q available =
     (let d = getDurationFromQuota q in
      result_zero\<lparr>Allowed := 0 < available, RLimit := getLimitFromQuota q, Remaining := available,
        Reset := time_Add (sys_now e) d, RDuration := d\<rparr>)"

definition availableEntry :: "env \<Rightarrow> QuotaRuntime \<Rightarrow> string \<Rightarrow> string \<Rightarrow> int \<Rightarrow> quotaResult" where
  "availableEntry e q name key available =
     \<lparr>qrName = name, qrResult = Some (availableResult e q available), qrKey = key, qrDuration = getDurationFromQuota q\<rparr>"

text \<open>A cost of zero: the state is looked up and reported.\<close>

definition lookupQuota :: "'s lim_ops \<Rightarrow> RateLimitPolicy \<Rightarrow> env \<Rightarrow> QuotaRuntime \<Rightarrow> string \<Rightarrow> string \<Rightarrow> bool \<Rightarrow> 's \<Rightarrow> qstep" where
  "lookupQuota ops p e q name key handled s =
     (case opGetAvailable ops e s key of
        Ret a \<Rightarrow> Push (availableEntry e q name key a) handled
      | Fail _ \<Rightarrow> limiterError p
      | Panic \<Rightarrow> Crash)"

text \<open>A cost that is only known later: the request is refused if nothing is left, and a placeholder is
  kept otherwise.\<close>

definition precheckQuota :: "'s lim_ops \<Rightarrow> RateLimitPolicy \<Rightarrow> env \<Rightarrow> QuotaRuntime \<Rightarrow> string \<Rightarrow> string \<Rightarrow> 's \<Rightarrow> qstep" where
  "precheckQuota ops p e q name key s =
     (case opGetAvailable ops e s key of
        Ret a \<Rightarrow>
          if a \<le> 0 then Refuse (Some (availableResult e q 0))
          else Push \<lparr>qrName = name, qrResult = None, qrKey = key, qrDuration = getDurationFromQuota q\<rparr> False
      | Fail _ \<Rightarrow> limiterError p
      | Panic \<Rightarrow> Crash)"

definition chargeQuota :: "'s lim_ops \<Rightarrow> RateLimitPolicy \<Rightarrow> env \<Rightarrow> string \<Rightarrow> string \<Rightarrow> int \<Rightarrow> bool \<Rightarrow> 's \<Rightarrow> 's \<times> qstep" where
  "chargeQuota ops p e name key n handled s =
     (case opAllowN ops e s key n of
        (s', Ret r) \<Rightarrow>
          (s', if Allowed r then Push \<lparr>qrName = name, qrResult = Some r, qrKey = key, qrDuration = RDuration r\<rparr> handled
               else Refuse (Some r))
      | (s', Fail _) \<Rightarrow> (s', limiterError p)
      | (s', Panic) \<Rightarrow> (s', Crash))"

text \<open>A cost extracted as a float: negative ones are zero, and zero is looked up.\<close>

definition chargeCost :: "'s lim_ops \<Rightarrow> RateLimitPolicy \<Rightarrow> env \<Rightarrow> QuotaRuntime \<Rightarrow> string \<Rightarrow> string \<Rightarrow> f64 \<Rightarrow> bool \<Rightarrow> 's \<Rightarrow> 's \<times> qstep" where
  "chargeCost ops p e q name key cost handled s =
     (let cost = f64_neg_clamp cost in
      if cost = Fin 0 then (s, lookupQuota ops p e q name key handled s)
      else chargeQuota ops p e name key (f64_to_int64 cost) handled s)"

definition headerStep :: "'s lim_ops \<Rightarrow> extern \<Rightarrow> RateLimitPolicy \<Rightarrow> request \<Rightarrow> env \<Rightarrow> QuotaRuntime \<Rightarrow> string \<Rightarrow> string \<Rightarrow> 's \<Rightarrow> 's \<times> qstep" where
  "headerStep ops x p rq e q name key s =
     (case costOf q of
        Some c \<Rightarrow>
          if HasRequestHeaderOnlyCostSources c then
            chargeCost ops p e q name key (fst (ExtractRequestHeaderOnlyCost x c (rqHeaders rq))) True s
          else (s, precheckQuota ops p e q name key s)
      | None \<Rightarrow> chargeQuota ops p e name key 1 True s)"

definition carryStored :: "(string, quotaResult) gomap \<Rightarrow> string \<Rightarrow> qstep" where
  "carryStored stored name = (case map_of stored name of Some qr \<Rightarrow> Push qr False | None \<Rightarrow> Skip)"

definition bodyStep :: "'s lim_ops \<Rightarrow> extern \<Rightarrow> RateLimitPolicy \<Rightarrow> request \<Rightarrow> (string, quotaResult) gomap \<Rightarrow> string list
    \<Rightarrow> env \<Rightarrow> QuotaRuntime \<Rightarrow> string \<Rightarrow> string \<Rightarrow> 's \<Rightarrow> 's \<times> qstep" where
  "bodyStep ops x p rq stored handled e q name key s =
     (case costOf q of
        Some c \<Rightarrow>
          if HasRequestHeaderOnlyCostSources c then (s, carryStored stored name)
          else if HasRequestPhaseSources c then
            chargeCost ops p e q name key (fst (ExtractRequestCost x c rq)) False s
          else (s, precheckQuota ops p e q name key s)
      | None \<Rightarrow>
          if name \<in> set handled then (s, carryStored stored name)
          else chargeQuota ops p e name key 1 False s)"

section \<open>The request phases\<close>

datatype 'a verdict = Proceed 'a | Stop ImmediateResponse | Crashed

record progress =
  pResults :: "quotaResult list"
  pKeys :: "(string, string) gomap"
  pHandled :: "string list"

definition noProgress :: progress where
  "noProgress = \<lparr>pResults = [], pKeys = [], pHandled = []\<rparr>"

text \<open>The loop over the quotas: \<open>defer\<close> are the quotas left to a later phase, \<open>keyOf\<close> extracts the
  key.\<close>

fun quotaLoop :: "(env \<Rightarrow> QuotaRuntime \<Rightarrow> string \<Rightarrow> string \<Rightarrow> 's \<Rightarrow> 's \<times> qstep) \<Rightarrow> (QuotaRuntime \<Rightarrow> string) \<Rightarrow> (QuotaRuntime \<Rightarrow> bool)
    \<Rightarrow> RateLimitPolicy \<Rightarrow> (nat \<Rightarrow> env) \<Rightarrow> nat \<Rightarrow> QuotaRuntime list \<Rightarrow> 's list \<Rightarrow> progress \<Rightarrow> 's list \<times> progress verdict" where
  "quotaLoop step keyOf defr p es i [] lims st = (lims, Proceed st)"
| "quotaLoop step keyOf defr p es i (q # qs) lims st =
     (if defr q then quotaLoop step keyOf defr p es (Suc i) qs lims st
      else
        let name = quotaNameFor q i; key = keyOf q; st = st\<lparr>pKeys := AList.update name key (pKeys st)\<rparr>;
            (s, out) = step (es i) q name key (lims ! qLimiter q);
            lims = lims[qLimiter q := s]
        in case out of
             Skip \<Rightarrow> quotaLoop step keyOf defr p es (Suc i) qs lims st
           | Push qr h \<Rightarrow> quotaLoop step keyOf defr p es (Suc i) qs lims
               (st\<lparr>pResults := pResults st @ [qr], pHandled := (if h then name # pHandled st else pHandled st)\<rparr>)
           | Refuse r \<Rightarrow> (lims, Stop (buildRateLimitResponse (es i) p r name (pResults st)))
           | Crash \<Rightarrow> (lims, Crashed))"

definition withMeta :: "request \<Rightarrow> meta \<Rightarrow> request" where
  "withMeta rq m = rq\<lparr>rqMetadata := paramsOf m\<rparr>"

definition OnRequestHeaders :: "'s lim_ops \<Rightarrow> extern \<Rightarrow> RateLimitPolicy \<Rightarrow> (nat \<Rightarrow> env) \<Rightarrow> request \<Rightarrow> meta \<Rightarrow> 's list
    \<Rightarrow> 's list \<times> meta \<times> unit verdict" where
  "OnRequestHeaders ops x p es rq m lims =
     (let rq = withMeta rq m in
      case quotaLoop (headerStep ops x p rq) (extractQuotaKeyFromHeaderCtx p rq) hasCELKey p es 0 (quotas p) lims noProgress of
        (lims, Proceed st) \<Rightarrow>
          (lims,
           AList.update (metaKey p rateLimitHeaderHandledKey) (MHandled (pHandled st))
             (AList.update (metaKey p rateLimitKeysKey) (MKeys (pKeys st))
               (AList.update (metaKey p rateLimitResultKey) (MResults (pResults st)) m)), Proceed ())
      | (lims, Stop r) \<Rightarrow> (lims, m, Stop r)
      | (lims, Crashed) \<Rightarrow> (lims, m, Crashed))"

definition OnRequestBody :: "'s lim_ops \<Rightarrow> extern \<Rightarrow> RateLimitPolicy \<Rightarrow> (nat \<Rightarrow> env) \<Rightarrow> request \<Rightarrow> meta \<Rightarrow> 's list
    \<Rightarrow> 's list \<times> meta \<times> unit verdict" where
  "OnRequestBody ops x p es rq m lims =
     (if \<not> requiresRequestBody p then (lims, m, Proceed ())
      else
        let rq = withMeta rq m; stored = storedResultsMap (getResults p m) in
        case quotaLoop (bodyStep ops x p rq stored (getHandled p m)) (extractQuotaKey x p rq) (\<lambda>_. False) p es 0
               (quotas p) lims noProgress of
          (lims, Proceed st) \<Rightarrow>
            (lims,
             AList.update (metaKey p rateLimitKeysKey) (MKeys (pKeys st))
               (AList.update (metaKey p rateLimitResultKey) (MResults (pResults st)) m), Proceed ())
        | (lims, Stop r) \<Rightarrow> (lims, m, Stop r)
        | (lims, Crashed) \<Rightarrow> (lims, m, Crashed))"

end
