(* ===== verification/QuotaResponse.thy ===== *)
theory QuotaResponse
  imports QuotaPhases
begin

text \<open>
  \<^verbatim>\<open>ratelimit.go\<close>, fourth part: the response phases. A response cost is charged once the response
  is known, in the header phase, with the buffered body, or at the end of a stream whose chunks were
  accumulated. The state and the steps are those of \<open>QuotaPhases\<close>; a response phase refuses nothing.
\<close>

section \<open>One quota\<close>

definition storedWithResult :: "(string, quotaResult) gomap \<Rightarrow> string \<Rightarrow> qstep" where
  "storedWithResult stored name =
     (case map_of stored name of Some qr \<Rightarrow> if qrResult qr \<noteq> None then Push qr False else Skip | None \<Rightarrow> Skip)"

text \<open>The current state for the headers; an error leaves the quota out.\<close>

definition snapshotQuota :: "'s lim_ops \<Rightarrow> env \<Rightarrow> QuotaRuntime \<Rightarrow> string \<Rightarrow> string \<Rightarrow> 's \<Rightarrow> qstep" where
  "snapshotQuota ops e q name key s =
     (case opGetAvailable ops e s key of
        Ret a \<Rightarrow> Push (availableEntry e q name key a) False
      | Fail _ \<Rightarrow> Skip
      | Panic \<Rightarrow> Crash)"

text \<open>Charging a response cost: an error, fail-open or not, leaves the quota out.\<close>

definition consumeQuota :: "'s lim_ops \<Rightarrow> env \<Rightarrow> string \<Rightarrow> string \<Rightarrow> int \<Rightarrow> 's \<Rightarrow> 's \<times> qstep" where
  "consumeQuota ops e name key n s =
     (case consumeOp ops e s key n of
        (s', Ret r) \<Rightarrow> (s', Push \<lparr>qrName = name, qrResult = Some r, qrKey = key, qrDuration = RDuration r\<rparr> False)
      | (s', Fail _) \<Rightarrow> (s', Skip)
      | (s', Panic) \<Rightarrow> (s', Crash))"

definition consumeResponseCost :: "'s lim_ops \<Rightarrow> extern \<Rightarrow> CostExtractionConfig \<Rightarrow> response \<Rightarrow> (string, quotaResult) gomap
    \<Rightarrow> env \<Rightarrow> QuotaRuntime \<Rightarrow> string \<Rightarrow> string \<Rightarrow> 's \<Rightarrow> 's \<times> qstep" where
  "consumeResponseCost ops x c rs stored e q name key s =
     (if key = '''' then (s, Skip)
      else let cost = f64_neg_clamp (fst (ExtractResponseCost x c rs)) in
        if cost = Fin 0 then
          (s, case storedWithResult stored name of Push qr h \<Rightarrow> Push qr h | _ \<Rightarrow> snapshotQuota ops e q name key s)
        else consumeQuota ops e name key (f64_to_int64 cost) s)"

definition responseHeaderStep :: "'s lim_ops \<Rightarrow> extern \<Rightarrow> response \<Rightarrow> bool \<Rightarrow> (string, string) gomap \<Rightarrow> (string, quotaResult) gomap
    \<Rightarrow> env \<Rightarrow> QuotaRuntime \<Rightarrow> string \<Rightarrow> 's \<Rightarrow> 's \<times> qstep" where
  "responseHeaderStep ops x rs streaming ks stored e q name s =
     (case (case costOf q of Some c \<Rightarrow> if HasResponsePhaseSources c \<and> HasResponseHeaderOnlyCostSources c then Some c else None
            | None \<Rightarrow> None) of
        Some c \<Rightarrow> consumeResponseCost ops x c (rs\<lparr>rsBody := None\<rparr>) stored e q name (keyFor ks name) s
      | None \<Rightarrow>
          (s, case storedWithResult stored name of
                Push qr h \<Rightarrow> Push qr h
              | _ \<Rightarrow> if streaming \<and> keyFor ks name \<noteq> '''' then snapshotQuota ops e q name (keyFor ks name) s else Skip))"

definition responseBodyStep :: "'s lim_ops \<Rightarrow> extern \<Rightarrow> response \<Rightarrow> (string, string) gomap \<Rightarrow> (string, quotaResult) gomap
    \<Rightarrow> env \<Rightarrow> QuotaRuntime \<Rightarrow> string \<Rightarrow> 's \<Rightarrow> 's \<times> qstep" where
  "responseBodyStep ops x rs ks stored e q name s =
     (case costOf q of
        Some c \<Rightarrow>
          if HasResponseHeaderOnlyCostSources c then (s, carryStored stored name)
          else if HasResponsePhaseSources c then consumeResponseCost ops x c rs stored e q name (keyFor ks name) s
          else (s, storedWithResult stored name)
      | None \<Rightarrow> (s, storedWithResult stored name))"

section \<open>The response phases\<close>

text \<open>The loop over the quotas: the results in order, or \<open>None\<close> for a panic.\<close>

fun responseLoop :: "(env \<Rightarrow> QuotaRuntime \<Rightarrow> string \<Rightarrow> 's \<Rightarrow> 's \<times> qstep) \<Rightarrow> (nat \<Rightarrow> env) \<Rightarrow> nat \<Rightarrow> QuotaRuntime list \<Rightarrow> 's list
    \<Rightarrow> quotaResult list \<Rightarrow> 's list \<times> quotaResult list option" where
  "responseLoop step es i [] lims acc = (lims, Some acc)"
| "responseLoop step es i (q # qs) lims acc =
     (let (s, out) = step (es i) q (quotaNameFor q i) (lims ! qLimiter q); lims = lims[qLimiter q := s]
      in case out of
           Push qr h \<Rightarrow> responseLoop step es (Suc i) qs lims (acc @ [qr])
         | Crash \<Rightarrow> (lims, None)
         | _ \<Rightarrow> responseLoop step es (Suc i) qs lims acc)"

datatype response_action = NoAction | ModifyHeaders header "string list" | ResponseCrash

definition upstreamRateLimitHeaders :: "string list" where
  "upstreamRateLimitHeaders = [''x-ratelimit-limit-requests'', ''x-ratelimit-limit-tokens'', ''x-ratelimit-remaining-requests'',
     ''x-ratelimit-remaining-tokens'', ''x-ratelimit-reset-requests'', ''x-ratelimit-reset-tokens'']"

definition headerAction :: "env \<Rightarrow> RateLimitPolicy \<Rightarrow> quotaResult list \<Rightarrow> response_action" where
  "headerAction e p rs =
     (if rs = [] then NoAction
      else let h = buildMultiQuotaHeaders e p rs False '''' in
        if h = [] then NoAction else ModifyHeaders h upstreamRateLimitHeaders)"

definition withMetaResponse :: "response \<Rightarrow> meta \<Rightarrow> response" where
  "withMetaResponse rs m = rs\<lparr>rsMetadata := paramsOf m\<rparr>"

definition OnResponseHeaders :: "'s lim_ops \<Rightarrow> extern \<Rightarrow> RateLimitPolicy \<Rightarrow> (nat \<Rightarrow> env) \<Rightarrow> response \<Rightarrow> meta \<Rightarrow> 's list
    \<Rightarrow> 's list \<times> meta \<times> response_action" where
  "OnResponseHeaders ops x p es rs m lims =
     (let rs = withMetaResponse rs m; streaming = isStreamingResponse (rsUpstream rs);
          stored = storedResultsMap (getResults p m)
      in case responseLoop (responseHeaderStep ops x rs streaming (getKeys p m) stored) es 0 (quotas p) lims [] of
           (lims, None) \<Rightarrow> (lims, m, ResponseCrash)
         | (lims, Some res) \<Rightarrow>
             (lims, AList.update (metaKey p rateLimitResultKey) (MResults res) m,
              if requiresAnyResponseBodyMode p \<and> \<not> streaming then NoAction
              else headerAction (es (length (quotas p))) p res))"

definition OnResponseBody :: "'s lim_ops \<Rightarrow> extern \<Rightarrow> RateLimitPolicy \<Rightarrow> (nat \<Rightarrow> env) \<Rightarrow> response \<Rightarrow> meta \<Rightarrow> 's list
    \<Rightarrow> 's list \<times> response_action" where
  "OnResponseBody ops x p es rs m lims =
     (if \<not> requiresAnyResponseBodyMode p then (lims, ModifyHeaders [] upstreamRateLimitHeaders)
      else case responseLoop (responseBodyStep ops x (withMetaResponse rs m) (getKeys p m) (storedResultsMap (getResults p m)))
              es 0 (quotas p) lims [] of
             (lims, None) \<Rightarrow> (lims, ResponseCrash)
           | (lims, Some res) \<Rightarrow> (lims, headerAction (es (length (quotas p))) p res))"

section \<open>Streaming\<close>

fun initStreamState :: "nat \<Rightarrow> QuotaRuntime list \<Rightarrow> (string, string) gomap \<Rightarrow> (string, string) gomap" where
  "initStreamState i [] st = st"
| "initStreamState i (q # qs) st = initStreamState (Suc i) qs (AList.update (quotaNameFor q i) [] st)"

definition getOrInitStreamState :: "RateLimitPolicy \<Rightarrow> meta \<Rightarrow> (string, string) gomap \<times> meta" where
  "getOrInitStreamState p m =
     (case map_of m (metaKey p rateLimitStreamStateKey) of
        Some (MStream st) \<Rightarrow> (st, m)
      | _ \<Rightarrow> let st = initStreamState 0 (quotas p) [] in (st, AList.update (metaKey p rateLimitStreamStateKey) (MStream st) m))"

text \<open>The chunk is appended once for each quota that needs the body; a missing state is a nil pointer.\<close>

fun accumulate :: "string \<Rightarrow> nat \<Rightarrow> QuotaRuntime list \<Rightarrow> (string, string) gomap \<Rightarrow> (string, string) gomap option" where
  "accumulate chunk i [] st = Some st"
| "accumulate chunk i (q # qs) st =
     (case costOf q of
        None \<Rightarrow> accumulate chunk (Suc i) qs st
      | Some c \<Rightarrow>
          if \<not> RequiresResponseBody c then accumulate chunk (Suc i) qs st
          else case map_of st (quotaNameFor q i) of
            None \<Rightarrow> None
          | Some acc \<Rightarrow> accumulate chunk (Suc i) qs (AList.update (quotaNameFor q i) (acc @ chunk) st))"

text \<open>The response a quota is charged for at the end of the stream, with the bytes it accumulated.\<close>

definition synthCtx :: "response \<Rightarrow> string \<Rightarrow> response" where
  "synthCtx rs bytes = rs\<lparr>rsBody := Some \<lparr>Content = bytes, Present = (bytes \<noteq> [])\<rparr>\<rparr>"

definition finalizeStep :: "'s lim_ops \<Rightarrow> extern \<Rightarrow> response \<Rightarrow> (string, string) gomap \<Rightarrow> (string, string) gomap
    \<Rightarrow> env \<Rightarrow> QuotaRuntime \<Rightarrow> string \<Rightarrow> 's \<Rightarrow> 's \<times> qstep" where
  "finalizeStep ops x rs ks st e q name s =
     (case costOf q of
        None \<Rightarrow> (s, Skip)
      | Some c \<Rightarrow>
          if \<not> hasStreamingResponseSourceForQuota q then (s, Skip)
          else let bytes = (case map_of st name of Some b \<Rightarrow> b | None \<Rightarrow> []);
                   cost = f64_neg_clamp (fst (ExtractResponseCost x c (synthCtx rs bytes)))
            in if cost = Fin 0 then (s, Skip) else consumeQuota ops e name (keyFor ks name) (f64_to_int64 cost) s)"

definition finalizeAndConsumeStreamingCosts :: "'s lim_ops \<Rightarrow> extern \<Rightarrow> RateLimitPolicy \<Rightarrow> (nat \<Rightarrow> env) \<Rightarrow> response \<Rightarrow> meta
    \<Rightarrow> (string, string) gomap \<Rightarrow> 's list \<Rightarrow> 's list \<times> quotaResult list option" where
  "finalizeAndConsumeStreamingCosts ops x p es rs m st lims =
     responseLoop (finalizeStep ops x (withMetaResponse rs m) (getKeys p m) st) es 0 (quotas p) lims []"

text \<open>A chunk: the limiters, the metadata, and whether the handler panicked. The chunk itself is
  forwarded unchanged.\<close>

definition OnResponseBodyChunk :: "'s lim_ops \<Rightarrow> extern \<Rightarrow> RateLimitPolicy \<Rightarrow> (nat \<Rightarrow> env) \<Rightarrow> response \<Rightarrow> string \<Rightarrow> bool \<Rightarrow> meta
    \<Rightarrow> 's list \<Rightarrow> 's list \<times> meta \<times> bool" where
  "OnResponseBodyChunk ops x p es rs chunk eos m lims =
     (let (st, m) = getOrInitStreamState p m in
      case accumulate chunk 0 (quotas p) st of
        None \<Rightarrow> (lims, m, True)
      | Some st \<Rightarrow>
          let m = AList.update (metaKey p rateLimitStreamStateKey) (MStream st) m in
          if eos then
            (let (lims, out) = finalizeAndConsumeStreamingCosts ops x p es rs m st lims in (lims, m, out = None))
          else (lims, m, False))"

definition NeedsMoreResponseData :: "string \<Rightarrow> bool" where
  "NeedsMoreResponseData accumulated = False"

text \<open>A policy of one quota without cost extraction and without a CEL key charges one in the header phase.\<close>

lemma single_quota_charge:
  assumes "quotas d = [q]" "costOf q = None" "\<not> hasCELKey q"
    and "opAllowN ops (es 0) (lims ! qLimiter q) (extractQuotaKeyFromHeaderCtx d (withMeta rq m) q) 1 = (s', out)"
  shows "fst (OnRequestHeaders ops ex d es rq m lims) = lims[qLimiter q := s'] \<and>
    (snd (snd (OnRequestHeaders ops ex d es rq m lims)) = Proceed () \<longleftrightarrow>
      (case out of Ret r \<Rightarrow> Allowed r | Fail _ \<Rightarrow> redisBacked d \<and> redisFailOpen d | Panic \<Rightarrow> False))"
  using assms by (cases out) (simp_all add: OnRequestHeaders_def Let_def headerStep_def chargeQuota_def limiterError_def)

end
