(* ===== verification/QuotaCharges.thy ===== *)
theory QuotaCharges
  imports QuotaResponse FixedWindow
begin

text \<open>
  What a request does to the limiters of a policy's quotas: the loops over the quotas step by step,
  the one charge of each quota over both request phases, the failure modes, and the in-memory fixed
  window limiter as a concrete instance of the operations.
\<close>

section \<open>The loop over the quotas\<close>

text \<open>One turn of a loop; a turn that lets the request pass.\<close>

definition stepAt :: "(env \<Rightarrow> QuotaRuntime \<Rightarrow> string \<Rightarrow> string \<Rightarrow> 's \<Rightarrow> 's \<times> qstep) \<Rightarrow> (QuotaRuntime \<Rightarrow> string) \<Rightarrow> (nat \<Rightarrow> env)
    \<Rightarrow> nat \<Rightarrow> QuotaRuntime \<Rightarrow> 's \<Rightarrow> 's \<times> qstep" where
  "stepAt step keyOf es i q s = step (es i) q (quotaNameFor q i) (keyOf q) s"

definition passes :: "qstep \<Rightarrow> bool" where
  "passes d \<longleftrightarrow> (case d of Skip \<Rightarrow> True | Push qr h \<Rightarrow> True | _ \<Rightarrow> False)"

definition handles :: "qstep \<Rightarrow> bool" where
  "handles d \<longleftrightarrow> (case d of Push qr h \<Rightarrow> h | _ \<Rightarrow> False)"

lemma quotaLoop_other:
  "quotaLoop step keyOf defr p es i qs lims st = (lims', out) \<Longrightarrow>
    length lims' = length lims \<and> (\<forall>l. l \<notin> qLimiter ` set qs \<longrightarrow> lims' ! l = lims ! l)"
proof (induction qs arbitrary: i lims st)
  case (Cons q qs)
  show ?case
  proof (cases "defr q")
    case True
    then show ?thesis using Cons.IH [of "Suc i" lims st] Cons.prems by auto
  next
    case False
    obtain s d where sd: "step (es i) q (quotaNameFor q i) (keyOf q) (lims ! qLimiter q) = (s, d)" by fastforce
    show ?thesis
      using False Cons.prems Cons.IH [of "Suc i" "lims[qLimiter q := s]"]
      by (auto simp: sd Let_def split: qstep.splits if_splits)
  qed
qed simp

lemma quotaLoop_turn:
  assumes "quotaLoop step keyOf defr p es i (q # qs) lims st = (lims', Proceed st')" "qLimiter q < length lims"
  obtains lims1 st1 where "quotaLoop step keyOf defr p es (Suc i) qs lims1 st1 = (lims', Proceed st')"
    "length lims1 = length lims" "\<And>l. l \<noteq> qLimiter q \<Longrightarrow> lims1 ! l = lims ! l"
    "lims1 ! qLimiter q = (if defr q then lims ! qLimiter q else fst (stepAt step keyOf es i q (lims ! qLimiter q)))"
    "\<not> defr q \<Longrightarrow> passes (snd (stepAt step keyOf es i q (lims ! qLimiter q)))"
    "set (pHandled st1) = set (pHandled st) \<union>
      (if \<not> defr q \<and> handles (snd (stepAt step keyOf es i q (lims ! qLimiter q))) then {quotaNameFor q i} else {})"
proof (cases "defr q")
  case True
  then show ?thesis using assms by (intro that [of lims st]) auto
next
  case False
  obtain s d where sd: "step (es i) q (quotaNameFor q i) (keyOf q) (lims ! qLimiter q) = (s, d)" by fastforce
  show ?thesis
    using assms False by (cases d) (auto simp: sd Let_def stepAt_def passes_def handles_def split: if_splits intro!: that [of "lims[qLimiter q := s]"])
qed

text \<open>After a loop that let the request pass each limiter has seen its own turn and nothing else.\<close>

lemma quotaLoop_proceed:
  assumes "quotaLoop step keyOf defr p es i qs lims st = (lims', Proceed st')"
    and "distinct (map qLimiter qs)" "\<forall>q \<in> set qs. qLimiter q < length lims" "j < length qs"
  shows "lims' ! qLimiter (qs ! j) =
      (if defr (qs ! j) then lims ! qLimiter (qs ! j) else fst (stepAt step keyOf es (i + j) (qs ! j) (lims ! qLimiter (qs ! j)))) \<and>
    (\<not> defr (qs ! j) \<longrightarrow> passes (snd (stepAt step keyOf es (i + j) (qs ! j) (lims ! qLimiter (qs ! j)))))"
  using assms
proof (induction qs arbitrary: i lims st j)
  case (Cons q qs)
  from Cons.prems have q: "qLimiter q < length lims" "qLimiter q \<notin> qLimiter ` set qs" by auto
  from quotaLoop_turn [OF Cons.prems(1) q(1)] obtain lims1 st1 where
    tail: "quotaLoop step keyOf defr p es (Suc i) qs lims1 st1 = (lims', Proceed st')"
    and l1: "length lims1 = length lims" "\<And>l. l \<noteq> qLimiter q \<Longrightarrow> lims1 ! l = lims ! l"
    "lims1 ! qLimiter q = (if defr q then lims ! qLimiter q else fst (stepAt step keyOf es i q (lims ! qLimiter q)))"
    and pass: "\<not> defr q \<Longrightarrow> passes (snd (stepAt step keyOf es i q (lims ! qLimiter q)))" by metis
  show ?case
  proof (cases j)
    case 0
    then show ?thesis using quotaLoop_other [OF tail] q(2) l1(3) pass by simp
  next
    case (Suc k)
    have "lims1 ! qLimiter (qs ! k) = lims ! qLimiter (qs ! k)"
      using Cons.prems(4) q(2) Suc by (intro l1(2)) (metis image_eqI length_Cons not_less_eq nth_mem)
    then show ?thesis using Cons.IH [OF tail, of k] Cons.prems(2-4) Suc l1(1) by simp
  qed
qed simp

lemma quotaLoop_handled:
  assumes "quotaLoop step keyOf defr p es i qs lims st = (lims', Proceed st')"
    and "distinct (map qLimiter qs)" "\<forall>q \<in> set qs. qLimiter q < length lims"
  shows "set (pHandled st') = set (pHandled st) \<union>
    {quotaNameFor (qs ! j) (i + j) | j. j < length qs \<and> \<not> defr (qs ! j) \<and>
      handles (snd (stepAt step keyOf es (i + j) (qs ! j) (lims ! qLimiter (qs ! j))))}"
  using assms
proof (induction qs arbitrary: i lims st)
  case (Cons q qs)
  from Cons.prems have q: "qLimiter q < length lims" "qLimiter q \<notin> qLimiter ` set qs" by auto
  from quotaLoop_turn [OF Cons.prems(1) q(1)] obtain lims1 st1 where
    tail: "quotaLoop step keyOf defr p es (Suc i) qs lims1 st1 = (lims', Proceed st')"
    and l1: "length lims1 = length lims" "\<And>l. l \<noteq> qLimiter q \<Longrightarrow> lims1 ! l = lims ! l"
    and h: "set (pHandled st1) = set (pHandled st) \<union>
      (if \<not> defr q \<and> handles (snd (stepAt step keyOf es i q (lims ! qLimiter q))) then {quotaNameFor q i} else {})"
    by metis
  have same: "lims1 ! qLimiter (qs ! k) = lims ! qLimiter (qs ! k)" if "k < length qs" for k
    using that q(2) by (intro l1(2)) (metis image_eqI nth_mem)
  have "set (pHandled st') = set (pHandled st1) \<union>
    {quotaNameFor (qs ! j) (Suc i + j) | j. j < length qs \<and> \<not> defr (qs ! j) \<and>
      handles (snd (stepAt step keyOf es (Suc i + j) (qs ! j) (lims ! qLimiter (qs ! j))))}"
    using Cons.IH [OF tail] Cons.prems(2,3) l1(1) same by auto
  moreover have "{f j | j. j < length (q # qs) \<and> P j} = (if P 0 then {f 0} else {}) \<union> {f (Suc j) | j. j < length qs \<and> P (Suc j)}"
    for f :: "nat \<Rightarrow> string" and P by (auto simp: less_Suc_eq_0_disj)
  note this [of "\<lambda>j. quotaNameFor ((q # qs) ! j) (i + j)" "\<lambda>j. \<not> defr ((q # qs) ! j) \<and>
      handles (snd (stepAt step keyOf es (i + j) ((q # qs) ! j) (lims ! qLimiter ((q # qs) ! j))))"]
  ultimately show ?case using h by auto
qed simp

text \<open>The limiter after a cost: unchanged by a cost of zero.\<close>

definition chargedCost :: "'s lim_ops \<Rightarrow> env \<Rightarrow> string \<Rightarrow> f64 \<Rightarrow> 's \<Rightarrow> 's" where
  "chargedCost ops e key cost s =
     (let cost = f64_neg_clamp cost in if cost = Fin 0 then s else fst (opAllowN ops e s key (f64_to_int64 cost)))"

text \<open>What a request should do to the limiter of a quota: nothing where the cost comes from the
  response, and otherwise one charge, with the headers (\<open>rq\<close>) or, where the key or the cost needs
  more, with the body (\<open>rq'\<close>).\<close>

definition chargedOnce :: "'s lim_ops \<Rightarrow> extern \<Rightarrow> RateLimitPolicy \<Rightarrow> env \<Rightarrow> env \<Rightarrow> request \<Rightarrow> request \<Rightarrow> QuotaRuntime \<Rightarrow> 's \<Rightarrow> 's" where
  "chargedOnce ops x p e e' rq rq' q s =
     (case costOf q of
        None \<Rightarrow>
          if hasCELKey q then fst (opAllowN ops e' s (extractQuotaKey x p rq' q) 1)
          else fst (opAllowN ops e s (extractQuotaKey x p rq q) 1)
      | Some c \<Rightarrow>
          if HasRequestHeaderOnlyCostSources c then
            (if hasCELKey q then chargedCost ops e' (extractQuotaKey x p rq' q) (fst (ExtractRequestHeaderOnlyCost x c (rqHeaders rq'))) s
             else chargedCost ops e (extractQuotaKey x p rq q) (fst (ExtractRequestHeaderOnlyCost x c (rqHeaders rq))) s)
          else if HasRequestPhaseSources c then
            chargedCost ops e' (extractQuotaKey x p rq' q) (fst (ExtractRequestCost x c rq')) s
          else s)"

lemma body_phase_sources:
  "HasRequestPhaseSources c \<Longrightarrow> \<not> HasRequestHeaderOnlyCostSources c \<Longrightarrow> HasRequestBodyPhase c"
  by (auto simp: HasRequestPhaseSources_def HasRequestHeaderOnlyCostSources_def headerOnlyLoop_iff HasRequestBodyPhase_def
      list_ex_iff elim!: isRequestPhaseSource.elims split: if_splits)

lemma chargeQuota_state:
  "fst (chargeQuota ops p e name key n h s) = fst (opAllowN ops e s key n)"
  by (auto simp: chargeQuota_def split: prod.splits outcome.splits)

text \<open>What the request phases ask of a limiter: it answers every check and every lookup.\<close>

locale answers =
  fixes ops :: "'s lim_ops"
  assumes allow_answers: "\<exists>s' r. opAllowN ops e s k n = (s', Ret r)"
    and available_answers: "\<exists>a. opGetAvailable ops e s k = Ret a"
begin

lemma chargeCost_state: "fst (chargeCost ops p e q name key cost h s) = chargedCost ops e key cost s"
  using available_answers [of e s key]
  by (auto simp: chargeCost_def chargedCost_def chargeQuota_def lookupQuota_def Let_def split: prod.splits outcome.splits)

lemma chargeQuota_handles:
  assumes "passes (snd (chargeQuota ops p e name key n h s))"
  shows "handles (snd (chargeQuota ops p e name key n h s)) = h"
proof -
  obtain s' r where "opAllowN ops e s key n = (s', Ret r)" using allow_answers by blast
  then show ?thesis using assms by (simp add: chargeQuota_def passes_def handles_def split: if_splits)
qed

end

definition quotaNames :: "RateLimitPolicy \<Rightarrow> string list" where
  "quotaNames p = map (\<lambda>i. quotaNameFor (quotas p ! i) i) [0..<length (quotas p)]"

text \<open>Quotas with names and limiters of their own.\<close>

definition separate :: "RateLimitPolicy \<Rightarrow> 's list \<Rightarrow> bool" where
  "separate p lims \<longleftrightarrow> distinct (quotaNames p) \<and> distinct (map qLimiter (quotas p)) \<and>
     (\<forall>q \<in> set (quotas p). qLimiter q < length lims)"

lemma separate_names:
  "separate p lims \<Longrightarrow> i < length (quotas p) \<Longrightarrow> j < length (quotas p) \<Longrightarrow>
    quotaNameFor (quotas p ! i) i = quotaNameFor (quotas p ! j) j \<longleftrightarrow> i = j"
  unfolding separate_def quotaNames_def distinct_conv_nth by auto

lemma header_phase:
  assumes "separate p lims" "OnRequestHeaders ops x p es rq m lims = (lims1, m1, Proceed ())" "i < length (quotas p)"
  defines "q \<equiv> quotas p ! i" and "rq1 \<equiv> withMeta rq m"
  defines "turn \<equiv> headerStep ops x p rq1 (es i) q (quotaNameFor q i) (extractQuotaKeyFromHeaderCtx p rq1 q) (lims ! qLimiter q)"
  shows "length lims1 = length lims"
    and "lims1 ! qLimiter q = (if hasCELKey q then lims ! qLimiter q else fst turn)"
    and "\<not> hasCELKey q \<Longrightarrow> passes (snd turn)"
    and "quotaNameFor q i \<in> set (getHandled p m1) \<longleftrightarrow> \<not> hasCELKey q \<and> handles (snd turn)"
proof -
  let ?step = "headerStep ops x p rq1" let ?key = "extractQuotaKeyFromHeaderCtx p rq1"
  obtain st where run: "quotaLoop ?step ?key hasCELKey p es 0 (quotas p) lims noProgress = (lims1, Proceed st)"
    and m1: "m1 = AList.update (metaKey p rateLimitHeaderHandledKey) (MHandled (pHandled st))
             (AList.update (metaKey p rateLimitKeysKey) (MKeys (pKeys st))
               (AList.update (metaKey p rateLimitResultKey) (MResults (pResults st)) m))"
    using assms(2) unfolding OnRequestHeaders_def rq1_def by (auto simp: Let_def split: prod.splits verdict.splits)
  have d: "distinct (map qLimiter (quotas p))" "\<forall>q \<in> set (quotas p). qLimiter q < length lims"
    using assms(1) by (simp_all add: separate_def)
  show "length lims1 = length lims" using quotaLoop_other [OF run] by simp
  show "lims1 ! qLimiter q = (if hasCELKey q then lims ! qLimiter q else fst turn)"
    and "\<not> hasCELKey q \<Longrightarrow> passes (snd turn)"
    using quotaLoop_proceed [OF run d assms(3)] by (simp_all add: stepAt_def q_def turn_def)
  have "set (getHandled p m1) = {quotaNameFor (quotas p ! j) j | j. j < length (quotas p) \<and> \<not> hasCELKey (quotas p ! j) \<and>
      handles (snd (stepAt ?step ?key es j (quotas p ! j) (lims ! qLimiter (quotas p ! j))))}"
    using quotaLoop_handled [OF run d] by (simp add: getHandled_def m1 noProgress_def)
  then show "quotaNameFor q i \<in> set (getHandled p m1) \<longleftrightarrow> \<not> hasCELKey q \<and> handles (snd turn)"
    using assms(3) separate_names [OF assms(1) assms(3)] by (auto simp: stepAt_def q_def turn_def)
qed

lemma body_phase:
  assumes "separate p lims" "requiresRequestBody p" "OnRequestBody ops x p es rq m lims = (lims1, m1, Proceed ())"
    and "i < length (quotas p)"
  defines "q \<equiv> quotas p ! i" and "rq1 \<equiv> withMeta rq m"
  shows "lims1 ! qLimiter q = fst (bodyStep ops x p rq1 (storedResultsMap (getResults p m)) (getHandled p m)
    (es i) q (quotaNameFor q i) (extractQuotaKey x p rq1 q) (lims ! qLimiter q))"
proof -
  let ?step = "bodyStep ops x p rq1 (storedResultsMap (getResults p m)) (getHandled p m)"
  obtain st where run: "quotaLoop ?step (extractQuotaKey x p rq1) (\<lambda>_. False) p es 0 (quotas p) lims noProgress = (lims1, Proceed st)"
    using assms(2,3) unfolding OnRequestBody_def rq1_def by (auto simp: Let_def split: prod.splits verdict.splits)
  show ?thesis
    using quotaLoop_proceed [OF run _ _ assms(4)] assms(1) by (simp add: separate_def stepAt_def q_def)
qed

section \<open>Properties\<close>


text \<open>The in-memory fixed window limiter, which is a \<^verbatim>\<open>CostTracker\<close>.\<close>

definition fwOps :: "fw_mem lim_ops" where
  "fwOps = \<lparr>opAllowN = FixedWindow.AllowN, opGetAvailable = FixedWindow.GetAvailable,
     opClampN = FixedWindow.ConsumeOrClampN, opConsumeN = Some FixedWindow.ConsumeN\<rparr>"

interpretation fw_ops: answers fwOps
  by unfold_locales (simp_all add: fwOps_def FixedWindow.AllowN_def FixedWindow.GetAvailable_def Let_def)

definition standardQuota :: QuotaRuntime where
  "standardQuota = \<lparr>qName = ''q'', qLimits = [], qKeyExtraction = [], qLimiter = 0, qCostExtractor = None,
     qCostExtractionEnabled = False\<rparr>"

definition celQuota :: QuotaRuntime where
  "celQuota = \<lparr>qName = ''c'', qLimits = [], qKeyExtraction =
     [\<lparr>kcType = ''cel'', kcKey = '''', kcExpression = ''1'', kcFallback = ''''\<rparr>], qLimiter = 1, qCostExtractor = None,
     qCostExtractionEnabled = False\<rparr>"

definition twoQuotas :: RateLimitPolicy where
  "twoQuotas = demoPolicy\<lparr>quotas := [standardQuota, celQuota]\<rparr>"

abbreviation atStart :: "nat \<Rightarrow> env" where
  "atStart \<equiv> \<lambda>_. \<lparr>clock = 0, sys_now = 0\<rparr>"

definition celRun :: "fw_mem list \<times> meta \<times> unit verdict" where
  "celRun = OnRequestHeaders fwOps demoExtern twoQuotas atStart demoRequest [] [demo, demo]"

lemma twoQuotas_separate: "separate twoQuotas [demo, demo]"
  by (simp add: separate_def quotaNames_def twoQuotas_def standardQuota_def celQuota_def quotaNameFor_def upt_rec)

lemma currentCount_demo: "currentCount demo k t = 0"
  by (simp add: demo_def currentCount_def NewMemoryLimiter_def)

lemma fresh_allows:
  "\<exists>s' r. FixedWindow.AllowN e demo k 1 = (s', Ret r) \<and> Allowed r"
  by (simp add: FixedWindow.AllowN_def Let_def currentCount_demo fw_result_def)
    (simp add: demo_def NewMemoryLimiter_def PerSecond_def wrap64_def)

lemmas twoQuotas_eval = twoQuotas_def standardQuota_def celQuota_def demoPolicy_def fwOps_def costOf_def hasCELKey_def
  quotaNameFor_def chargeQuota_def headerStep_def bodyStep_def requiresRequestBody_def

lemma celRun_proceeds: "snd (snd celRun) = Proceed ()"
proof -
  obtain s r where "FixedWindow.AllowN \<lparr>clock = 0, sys_now = 0\<rparr> demo ''r'' 1 = (s, Ret r)" "Allowed r"
    using fresh_allows by blast
  then show ?thesis
    unfolding celRun_def OnRequestHeaders_def
    by (simp add: twoQuotas_eval extractQuotaKeyFromHeaderCtx_def quotaKey_def noProgress_def Let_def)
qed

lemma celRun_body:
  "snd (snd (OnRequestBody fwOps demoExtern twoQuotas atStart demoRequest (fst (snd celRun)) (fst celRun))) = Proceed ()"
proof -
  obtain s r where a: "FixedWindow.AllowN \<lparr>clock = 0, sys_now = 0\<rparr> demo ''r'' 1 = (s, Ret r)" "Allowed r"
    using fresh_allows by blast
  obtain s' r' where b: "FixedWindow.AllowN \<lparr>clock = 0, sys_now = 0\<rparr> demo ''_cel_error_'' 1 = (s', Ret r')" "Allowed r'"
    using fresh_allows by blast
  show ?thesis
    using a b unfolding celRun_def OnRequestHeaders_def OnRequestBody_def
    by (simp add: twoQuotas_eval extractQuotaKeyFromHeaderCtx_def extractQuotaKey_def quotaKey_def getHandled_def noProgress_def
      extractKeyComponent_def demoExtern_def carryStored_def storedResultsMap_def getResults_def metaKey_def
      rateLimitResultKey_def rateLimitKeysKey_def rateLimitHeaderHandledKey_def Let_def)
qed

lemma twoQuotas_std: "costOf (quotas twoQuotas ! 1) = None"
  by (simp add: twoQuotas_eval)


text \<open>A quota with a CEL key and a cost from request headers is never enforced. The header phase
  leaves it to the body phase because of the key, and the body phase takes it for one the header
  phase has charged: whatever the limiter, its state and the request, both phases let the request
  pass and leave the limiter as it was.\<close>
lemma cel_key_header_cost_unenforced:
  assumes "quotas p = [q]" "hasCELKey q" "costOf q = Some c" "HasRequestHeaderOnlyCostSources c" "map_of m (metaKey p rateLimitResultKey) = None"
  shows "(\<exists>m1. OnRequestHeaders ops x p es rq m lims = (lims, m1, Proceed ()) \<and>
    (\<exists>m2. OnRequestBody ops x p es' rq m1 lims = (lims, m2, Proceed ())))"
proof -
  have header: "OnRequestHeaders ops x p es rq m lims =
      (lims, AList.update (metaKey p rateLimitHeaderHandledKey) (MHandled [])
        (AList.update (metaKey p rateLimitKeysKey) (MKeys []) (AList.update (metaKey p rateLimitResultKey) (MResults []) m)), Proceed ())"
    using assms(1,2) by (simp add: OnRequestHeaders_def noProgress_def Let_def)
  have keys: "metaKey p rateLimitResultKey \<noteq> metaKey p rateLimitKeysKey" "metaKey p rateLimitResultKey \<noteq> metaKey p rateLimitHeaderHandledKey"
    by (simp_all add: metaKey_def rateLimitResultKey_def rateLimitKeysKey_def rateLimitHeaderHandledKey_def)
  have "\<exists>m2. OnRequestBody ops x p es' rq m1 lims = (lims, m2, Proceed ())" if "getResults p m1 = []" for m1
    using assms(1-4) that by (auto simp: OnRequestBody_def bodyStep_def carryStored_def storedResultsMap_def Let_def list_update_same_conv)
  then show ?thesis unfolding header using keys by (auto simp: getResults_def)
qed

definition refuses :: "'s lim_ops \<Rightarrow> env \<Rightarrow> string \<Rightarrow> 's \<Rightarrow> bool" where
  "refuses ops e key s \<longleftrightarrow> (\<exists>n s' r. opAllowN ops e s key n = (s', Ret r) \<and> \<not> Allowed r) \<or>
     (\<exists>a. opGetAvailable ops e s key = Ret a \<and> a \<le> 0)"

lemma limiterError_open: "redisBacked p \<Longrightarrow> redisFailOpen p \<Longrightarrow> limiterError p = Skip"
  by (simp add: limiterError_def)

lemma step_refuses:
  assumes "redisBacked p" "redisFailOpen p"
  shows "snd (chargeQuota ops p e name key n h s) = Refuse r \<Longrightarrow> refuses ops e key s"
    and "lookupQuota ops p e q name key h s = Refuse r \<Longrightarrow> refuses ops e key s"
    and "precheckQuota ops p e q name key s = Refuse r \<Longrightarrow> refuses ops e key s"
    and "snd (chargeCost ops p e q name key cost h s) = Refuse r \<Longrightarrow> refuses ops e key s"
proof -
  note simps = limiterError_open [OF assms] refuses_def
  show c: "snd (chargeQuota ops p e name key n h s) = Refuse r \<Longrightarrow> refuses ops e key s" for n
    by (auto simp: chargeQuota_def simps split: prod.splits outcome.splits if_splits)
  show l: "lookupQuota ops p e q name key h s = Refuse r \<Longrightarrow> refuses ops e key s"
    by (auto simp: lookupQuota_def simps split: outcome.splits)
  show "precheckQuota ops p e q name key s = Refuse r \<Longrightarrow> refuses ops e key s"
    by (auto simp: precheckQuota_def simps split: outcome.splits if_splits)
  show "snd (chargeCost ops p e q name key cost h s) = Refuse r \<Longrightarrow> refuses ops e key s"
    using c l by (auto simp: chargeCost_def Let_def split: if_splits)
qed

lemma quotaLoop_stop:
  assumes "quotaLoop step keyOf defr p es i qs lims st = (lims', Stop resp)"
  shows "\<exists>j lims1 st1 r. j < length qs \<and> quotaLoop step keyOf defr p es i (take j qs) lims st = (lims1, Proceed st1) \<and> \<not> defr (qs ! j) \<and>
    snd (step (es (i + j)) (qs ! j) (quotaNameFor (qs ! j) (i + j)) (keyOf (qs ! j)) (lims1 ! qLimiter (qs ! j))) = Refuse r"
  using assms
proof (induction qs arbitrary: i lims st)
  case (Cons q qs)
  obtain s d where sd: "step (es i) q (quotaNameFor q i) (keyOf q) (lims ! qLimiter q) = (s, d)" by fastforce
  show ?case
  proof (cases "\<not> defr q \<and> (\<exists>r. d = Refuse r)")
    case True
    then show ?thesis using sd by (intro exI [of _ 0] exI [of _ lims] exI [of _ st]) auto
  next
    case False
    obtain lims1 st1 where t: "quotaLoop step keyOf defr p es (Suc i) qs lims1 st1 = (lims', Stop resp)"
      "\<And>ts. quotaLoop step keyOf defr p es i (q # ts) lims st = quotaLoop step keyOf defr p es (Suc i) ts lims1 st1"
      using Cons.prems False by (auto simp: sd Let_def split: qstep.splits if_splits)
    from Cons.IH [OF t(1)] obtain j lims2 st2 r where "j < length qs"
      "quotaLoop step keyOf defr p es (Suc i) (take j qs) lims1 st1 = (lims2, Proceed st2)" "\<not> defr (qs ! j)"
      "snd (step (es (Suc i + j)) (qs ! j) (quotaNameFor (qs ! j) (Suc i + j)) (keyOf (qs ! j)) (lims2 ! qLimiter (qs ! j))) = Refuse r" by blast
    then show ?thesis using t(2) by (intro exI [of _ "Suc j"] exI [of _ lims2] exI [of _ st2] exI [of _ r]) simp
  qed
qed simp

lemma quotaLoop_policy:
  "quotaLoop step keyOf defr p es i qs lims st = (lims', Proceed st') \<Longrightarrow>
    quotaLoop step keyOf defr p' es i qs lims st = (lims', Proceed st')"
  by (induction qs arbitrary: i lims st) (auto simp: Let_def split: prod.splits qstep.splits if_splits)

definition firstQuotas :: "nat \<Rightarrow> RateLimitPolicy \<Rightarrow> RateLimitPolicy" where
  "firstQuotas i p = p\<lparr>quotas := take i (quotas p)\<rparr>"

lemma firstQuotas_fields [simp]:
  "routeName (firstQuotas i p) = routeName p" "redisBacked (firstQuotas i p) = redisBacked p"
  "redisFailOpen (firstQuotas i p) = redisFailOpen p" "metaKey (firstQuotas i p) = metaKey p"
  by (auto simp: firstQuotas_def redisBacked_def metaKey_def fun_eq_iff)

lemma firstQuotas_steps:
  "headerStep ops x (firstQuotas i p) = headerStep ops x p"
  "extractQuotaKeyFromHeaderCtx (firstQuotas i p) = extractQuotaKeyFromHeaderCtx p"
proof -
  have "chargeQuota ops (firstQuotas i p) = chargeQuota ops p" "lookupQuota ops (firstQuotas i p) = lookupQuota ops p"
    "precheckQuota ops (firstQuotas i p) = precheckQuota ops p"
    unfolding fun_eq_iff chargeQuota_def lookupQuota_def precheckQuota_def limiterError_def firstQuotas_fields by simp_all
  note ops = this
  show "headerStep ops x (firstQuotas i p) = headerStep ops x p"
    unfolding fun_eq_iff headerStep_def chargeCost_def ops by simp
  have "extractKeyComponentFromHeaderCtx (firstQuotas i p) = extractKeyComponentFromHeaderCtx p"
    by (simp only: fun_eq_iff extractKeyComponentFromHeaderCtx_def firstQuotas_fields) simp
  note part = this
  show "extractQuotaKeyFromHeaderCtx (firstQuotas i p) = extractQuotaKeyFromHeaderCtx p"
    unfolding fun_eq_iff extractQuotaKeyFromHeaderCtx_def quotaKey_def part firstQuotas_fields by simp
qed

text \<open>Fail-open. With a Redis backend and \<^verbatim>\<open>failureMode=open\<close> an error of a limiter never refuses a
  request. When the header phase refuses one, it is because of a quota whose limiter, in the state
  in which the quotas before it left it, answers the check of the key with a denial or reports
  that no quota is left.\<close>
lemma fail_open_refuses_only_on_answer:
  assumes "redisBacked p" "redisFailOpen p" "OnRequestHeaders ops x p es rq m lims = (lims', m', Stop resp)"
  shows "\<exists>i lims1 m1. i < length (quotas p) \<and>
    OnRequestHeaders ops x (firstQuotas i p) es rq m lims = (lims1, m1, Proceed ()) \<and>
    refuses ops (es i) (extractQuotaKey x p (withMeta rq m) (quotas p ! i)) (lims1 ! qLimiter (quotas p ! i))"
proof -
  let ?step = "headerStep ops x p (withMeta rq m)" let ?key = "extractQuotaKeyFromHeaderCtx p (withMeta rq m)"
  obtain l where "quotaLoop ?step ?key hasCELKey p es 0 (quotas p) lims noProgress = (l, Stop resp)"
    using assms(3) by (auto simp: OnRequestHeaders_def Let_def split: prod.splits verdict.splits)
  from quotaLoop_stop [OF this] obtain i lims1 st1 r where i: "i < length (quotas p)" "\<not> hasCELKey (quotas p ! i)"
    and run: "quotaLoop ?step ?key hasCELKey p es 0 (take i (quotas p)) lims noProgress = (lims1, Proceed st1)"
    and ref: "snd (?step (es i) (quotas p ! i) (quotaNameFor (quotas p ! i) i) (?key (quotas p ! i)) (lims1 ! qLimiter (quotas p ! i))) = Refuse r"
    by auto
  have "refuses ops (es i) (?key (quotas p ! i)) (lims1 ! qLimiter (quotas p ! i))"
    using ref step_refuses [OF assms(1,2)] by (auto simp: headerStep_def split: option.splits if_splits)
  moreover have "fst (OnRequestHeaders ops x (firstQuotas i p) es rq m lims) = lims1 \<and>
      snd (snd (OnRequestHeaders ops x (firstQuotas i p) es rq m lims)) = Proceed ()"
    using quotaLoop_policy [OF run, of "firstQuotas i p"] unfolding OnRequestHeaders_def firstQuotas_steps
    by (simp add: firstQuotas_def [of i p] Let_def)
  ultimately show ?thesis using i key_phases_agree_aux by (metis prod.collapse)
qed

text \<open>A limiter that denies every check and cannot tell its quota.\<close>

definition denyOps :: "unit lim_ops" where
  "denyOps = \<lparr>opAllowN = (\<lambda>e s k n. (s, Ret result_zero)), opGetAvailable = (\<lambda>e s k. Fail ''down''),
     opClampN = (\<lambda>e s k n. (s, Fail ''down'')), opConsumeN = None\<rparr>"

definition openPolicy :: RateLimitPolicy where
  "openPolicy = demoPolicy\<lparr>quotas := [standardQuota], backend := ''redis''\<rparr>"

lemma fail_open_refuses_only_on_answer_example:
  "\<exists>i lims1 m1. i < length (quotas openPolicy) \<and>
    OnRequestHeaders denyOps demoExtern (firstQuotas i openPolicy) atStart demoRequest [] [()] = (lims1, m1, Proceed ()) \<and>
    refuses denyOps \<lparr>clock = 0, sys_now = 0\<rparr> (extractQuotaKey demoExtern openPolicy (withMeta demoRequest []) (quotas openPolicy ! i))
      (lims1 ! qLimiter (quotas openPolicy ! i))"
proof (rule fail_open_refuses_only_on_answer)
  show "redisBacked openPolicy" "redisFailOpen openPolicy"
    by (simp_all add: openPolicy_def demoPolicy_def redisBacked_def)
  show "OnRequestHeaders denyOps demoExtern openPolicy atStart demoRequest [] [()] =
      ([()], [], Stop (buildRateLimitResponse \<lparr>clock = 0, sys_now = 0\<rparr> openPolicy (Some result_zero) ''q'' []))"
    by (simp add: OnRequestHeaders_def openPolicy_def standardQuota_def demoPolicy_def hasCELKey_def headerStep_def costOf_def
      chargeQuota_def denyOps_def extractQuotaKeyFromHeaderCtx_def quotaKey_def quotaNameFor_def noProgress_def Let_def
      result_zero_def)
qed

text \<open>A client can switch a header-cost quota off. The cost of such a quota is parsed from a header
  of the client's request, and the parser accepts NaN. A cost of NaN is neither negative nor zero and
  becomes the least int64; the in-memory fixed window limiter admits a request of that many tokens and
  counts nothing, even when the quota is exhausted.\<close>
lemma nan_cost_bypasses_quota:
  assumes "quotas p = [q]" "\<not> hasCELKey q" "qLimiter q = 0"
    and "costOf q = Some c" "Enabled c" "Sources c = [src]" "csType src = RequestHeader"
    and "extractCostFromHeaders x (rqHeaders rq) (csKey src) = Some NaN" "fw_inv s"
  shows "\<exists>m'. OnRequestHeaders fwOps x p es rq m [s] = ([s], m', Proceed ())"
proof -
  have cost: "ExtractRequestHeaderOnlyCost x c (rqHeaders rq) = (NaN, True)"
    using assms(5-8) by (simp add: ExtractRequestHeaderOnlyCost_def sumSources_def addSource_def f64_zero)
  have only: "HasRequestHeaderOnlyCostSources c"
    using assms(5-7) by (simp add: HasRequestHeaderOnlyCostSources_def HasRequestBodyPhase_def headerOnlyLoop_def)
  have "\<exists>r. FixedWindow.AllowN (es 0) s k (- (2 ^ 63)) = (s, Ret r) \<and> Allowed r" for k
  proof -
    define c where "c = currentCount s k (clock (es 0))"
    have "0 \<le> c" "c < 2 ^ 62" using abs_count_bounds [OF assms(9)] by (simp_all add: c_def currentCount_abs [OF assms(9)])
    then have "wrap64 (c + - (2 ^ 63)) = c - 2 ^ 63" by (simp add: wrap64_def)
    then show ?thesis using \<open>c < 2 ^ 62\<close> assms(9)
      by (simp add: FixedWindow.AllowN_def Let_def fw_result_def fw_inv_def flip: c_def)
  qed
  then obtain r where r: "FixedWindow.AllowN (es 0) s (extractQuotaKeyFromHeaderCtx p (withMeta rq m) q) (- (2 ^ 63)) = (s, Ret r)" "Allowed r"
    by blast
  show ?thesis
    using assms(1-4) only cost r
    by (simp add: OnRequestHeaders_def headerStep_def chargeCost_def chargeQuota_def fwOps_def withMeta_def f64_neg_clamp_def Let_def)
qed

definition nanExtern :: extern where
  "nanExtern = demoExtern\<lparr>parseFloat := (\<lambda>s. if s = ''2'' then Some NaN else None)\<rparr>"

definition headerCostQuota :: QuotaRuntime where
  "headerCostQuota = standardQuota\<lparr>qCostExtractor := Some demoHeaderCost, qCostExtractionEnabled := True\<rparr>"

definition headerCostPolicy :: RateLimitPolicy where
  "headerCostPolicy = demoPolicy\<lparr>quotas := [headerCostQuota]\<rparr>"

lemma nan_cost_bypasses_quota_example:
  "\<exists>m'. OnRequestHeaders fwOps nanExtern headerCostPolicy atStart demoRequest [] [demo] = ([demo], m', Proceed ())"
  by (rule nan_cost_bypasses_quota [where q = headerCostQuota and c = demoHeaderCost and src = "hd (Sources demoHeaderCost)"])
    (simp_all add: headerCostPolicy_def headerCostQuota_def standardQuota_def hasCELKey_def costOf_def demoHeaderCost_def fw_demo_inv
      nanExtern_def extractCostFromHeaders_def demoRequest_def ToLower_def to_lower_def)

definition celHeaderQuota :: QuotaRuntime where
  "celHeaderQuota = celQuota\<lparr>qCostExtractor := Some demoHeaderCost, qCostExtractionEnabled := True\<rparr>"

lemma cel_key_header_cost_unenforced_example:
  "\<exists>m1. OnRequestHeaders denyOps demoExtern (demoPolicy\<lparr>quotas := [celHeaderQuota]\<rparr>) atStart demoRequest [] [(), ()] =
     ([(), ()], m1, Proceed ()) \<and>
    (\<exists>m2. OnRequestBody denyOps demoExtern (demoPolicy\<lparr>quotas := [celHeaderQuota]\<rparr>) atStart demoRequest m1 [(), ()] =
     ([(), ()], m2, Proceed ()))"
  by (rule cel_key_header_cost_unenforced [of _ celHeaderQuota demoHeaderCost])
    (simp_all add: celHeaderQuota_def celQuota_def hasCELKey_def costOf_def demoHeaderCost_def
      HasRequestHeaderOnlyCostSources_def HasRequestBodyPhase_def headerOnlyLoop_def)

end
