(* ===== verification/QuotaStream.thy ===== *)
theory QuotaStream
  imports QuotaCharges
begin

text \<open>
  The response stream of the rate limit policy: the chunks of a response accumulate in the metadata of
  the request, and the end of the stream charges the quotas; compared with the buffered body phase.
\<close>

section \<open>Accumulating chunks\<close>

text \<open>The chunks of a stream, the last with the end of stream.\<close>

fun stream :: "'s lim_ops \<Rightarrow> extern \<Rightarrow> RateLimitPolicy \<Rightarrow> (nat \<Rightarrow> env) \<Rightarrow> response \<Rightarrow> string list \<Rightarrow> meta \<Rightarrow> 's list
    \<Rightarrow> 's list \<times> meta \<times> bool" where
  "stream ops x p es rs [] m lims = (lims, m, False)"
| "stream ops x p es rs (c # cs) m lims =
     (let (lims, m, crash) = OnResponseBodyChunk ops x p es rs c (cs = []) m lims
      in if crash then (lims, m, True) else stream ops x p es rs cs m lims)"

text \<open>What a stream has accumulated: the bytes so far for the quotas that need the body, nothing for
  the others.\<close>

definition needsBody :: "QuotaRuntime \<Rightarrow> bool" where
  "needsBody q \<longleftrightarrow> (\<exists>c. costOf q = Some c \<and> RequiresResponseBody c)"

definition gathered :: "RateLimitPolicy \<Rightarrow> string \<Rightarrow> (string, string) gomap \<Rightarrow> bool" where
  "gathered p bytes st \<longleftrightarrow> (\<forall>i < length (quotas p).
     map_of st (quotaNameFor (quotas p ! i) i) = Some (if needsBody (quotas p ! i) then bytes else []))"

lemma initStreamState_other:
  "(\<forall>j < length qs. quotaNameFor (qs ! j) (i + j) \<noteq> n) \<Longrightarrow> map_of (initStreamState i qs st) n = map_of st n"
proof (induction qs arbitrary: i st)
  case (Cons q qs)
  have "\<forall>j < length qs. quotaNameFor (qs ! j) (Suc i + j) \<noteq> n" using Cons.prems by auto
  moreover have "quotaNameFor q i \<noteq> n" using Cons.prems by force
  ultimately show ?case using Cons.IH [of "Suc i"] by simp
qed simp

lemma initStreamState_all:
  "j < length qs \<Longrightarrow> map_of (initStreamState i qs st) (quotaNameFor (qs ! j) (i + j)) = Some []"
proof (induction qs arbitrary: i j st)
  case (Cons q qs)
  show ?case
  proof (cases "\<exists>k < length qs. quotaNameFor (qs ! k) (Suc i + k) = quotaNameFor ((q # qs) ! j) (i + j)")
    case True
    then show ?thesis using Cons.IH [of _ "Suc i"] by (metis initStreamState.simps(2))
  next
    case False
    then have "j = 0" using Cons.prems by (cases j) auto
    then show ?thesis using False initStreamState_other [of qs "Suc i"] by simp
  qed
qed simp

lemma accumulate_spec:
  assumes "inj_on (\<lambda>j. quotaNameFor (qs ! j) (i + j)) {..<length qs}"
    and "\<forall>j < length qs. map_of st (quotaNameFor (qs ! j) (i + j)) \<noteq> None"
  shows "\<exists>st'. accumulate chunk i qs st = Some st' \<and>
    (\<forall>n. (\<forall>j < length qs. quotaNameFor (qs ! j) (i + j) \<noteq> n) \<longrightarrow> map_of st' n = map_of st n) \<and>
    (\<forall>j < length qs. map_of st' (quotaNameFor (qs ! j) (i + j)) =
      map_option (\<lambda>b. if needsBody (qs ! j) then b @ chunk else b) (map_of st (quotaNameFor (qs ! j) (i + j))))"
  using assms
proof (induction qs arbitrary: i st)
  case (Cons q qs)
  let ?n = "quotaNameFor q i"
  obtain b where b: "map_of st ?n = Some b" using Cons.prems(2) by fastforce
  define st1 where "st1 = (if needsBody q then AList.update ?n (b @ chunk) st else st)"
  have acc: "accumulate chunk i (q # qs) st = accumulate chunk (Suc i) qs st1"
    using b by (auto simp: st1_def needsBody_def split: option.splits)
  have fresh: "quotaNameFor (qs ! j) (Suc i + j) \<noteq> ?n" if "j < length qs" for j
    using inj_onD [OF Cons.prems(1), of "Suc j" 0] that by auto
  have names: "inj_on (\<lambda>j. quotaNameFor (qs ! j) (Suc i + j)) {..<length qs}"
    using inj_onD [OF Cons.prems(1), of "Suc j" "Suc k" for j k] by (fastforce intro: inj_onI)
  have "\<forall>j < length qs. map_of st1 (quotaNameFor (qs ! j) (Suc i + j)) \<noteq> None"
    using Cons.prems(2) by (auto simp: st1_def)
  from Cons.IH [OF names this] obtain st' where st': "accumulate chunk (Suc i) qs st1 = Some st'"
    "\<forall>n. (\<forall>j < length qs. quotaNameFor (qs ! j) (Suc i + j) \<noteq> n) \<longrightarrow> map_of st' n = map_of st1 n"
    "\<forall>j < length qs. map_of st' (quotaNameFor (qs ! j) (Suc i + j)) =
      map_option (\<lambda>b. if needsBody (qs ! j) then b @ chunk else b) (map_of st1 (quotaNameFor (qs ! j) (Suc i + j)))"
    by blast
  show ?case
  proof (intro exI [of _ st'] conjI allI impI)
    show "accumulate chunk i (q # qs) st = Some st'" using acc st'(1) by simp
  next
    fix n assume n: "\<forall>j < length (q # qs). quotaNameFor ((q # qs) ! j) (i + j) \<noteq> n"
    then have "\<forall>j < length qs. quotaNameFor (qs ! j) (Suc i + j) \<noteq> n" "?n \<noteq> n" by force+
    then show "map_of st' n = map_of st n" using st'(2) by (simp add: st1_def)
  next
    fix j assume j: "j < length (q # qs)"
    show "map_of st' (quotaNameFor ((q # qs) ! j) (i + j)) =
      map_option (\<lambda>b. if needsBody ((q # qs) ! j) then b @ chunk else b) (map_of st (quotaNameFor ((q # qs) ! j) (i + j)))"
    proof (cases j)
      case 0
      then show ?thesis using st'(2) fresh b by (simp add: st1_def)
    next
      case (Suc k)
      then have "map_of st1 (quotaNameFor (qs ! k) (Suc i + k)) = map_of st (quotaNameFor (qs ! k) (Suc i + k))"
        using fresh [of k] j by (simp add: st1_def)
      then show ?thesis using st'(3) Suc j by simp
    qed
  qed
qed simp
text \<open>The metadata during a stream: those before it, with the bytes gathered so far.\<close>

definition streaming :: "RateLimitPolicy \<Rightarrow> meta \<Rightarrow> string \<Rightarrow> meta \<Rightarrow> bool" where
  "streaming p m bytes m' \<longleftrightarrow>
     (\<forall>k. k \<noteq> metaKey p rateLimitStreamStateKey \<longrightarrow> map_of m' k = map_of m k) \<and>
     (\<exists>st. map_of m' (metaKey p rateLimitStreamStateKey) = Some (MStream st) \<and> gathered p bytes st)"

lemma separate_inj: "separate p lims \<Longrightarrow> inj_on (\<lambda>j. quotaNameFor (quotas p ! j) (0 + j)) {..<length (quotas p)}"
  using separate_names by (fastforce intro: inj_onI)

lemma accumulate_gathered:
  assumes "separate p lims" "gathered p bytes st"
  shows "\<exists>st'. accumulate chunk 0 (quotas p) st = Some st' \<and> gathered p (bytes @ chunk) st'"
  using accumulate_spec [OF separate_inj [OF assms(1)], of st chunk] assms(2) by (fastforce simp: gathered_def)

lemma chunk_turn:
  assumes "separate p lims" "map_of m (metaKey p rateLimitStreamStateKey) = None \<and> m' = m \<and> bytes = [] \<or> streaming p m bytes m'"
  obtains st m1 where "gathered p (bytes @ chunk) st" "streaming p m (bytes @ chunk) m1"
    "OnResponseBodyChunk ops x p es rs chunk eos m' lims =
      (if eos then let (lims, out) = finalizeAndConsumeStreamingCosts ops x p es rs m1 st lims in (lims, m1, out = None)
       else (lims, m1, False))"
proof -
  define k where "k = metaKey p rateLimitStreamStateKey"
  obtain st0 m0 where g: "getOrInitStreamState p m' = (st0, m0)" "gathered p bytes st0"
    "\<forall>j. j \<noteq> k \<longrightarrow> map_of m0 j = map_of m j"
  proof (cases "streaming p m bytes m'")
    case True
    then show ?thesis using that by (auto simp: streaming_def getOrInitStreamState_def k_def)
  next
    case False
    with assms(2) show ?thesis
      using that initStreamState_all [of _ "quotas p" 0] by (auto simp: getOrInitStreamState_def k_def gathered_def Let_def)
  qed
  obtain st where st: "accumulate chunk 0 (quotas p) st0 = Some st" "gathered p (bytes @ chunk) st"
    using accumulate_gathered [OF assms(1) g(2)] by blast
  define m1 where "m1 = AList.update k (MStream st) m0"
  have "streaming p m (bytes @ chunk) m1" using st(2) g(3) by (auto simp: streaming_def m1_def simp flip: k_def)
  then show ?thesis using that st g(1) by (auto simp: OnResponseBodyChunk_def m1_def k_def Let_def)
qed

lemma stream_finalizes:
  assumes "separate p lims" "chunks \<noteq> []"
    and "map_of m (metaKey p rateLimitStreamStateKey) = None \<and> m' = m \<and> bytes = [] \<or> streaming p m bytes m'"
  shows "\<exists>st m1. gathered p (bytes @ concat chunks) st \<and> streaming p m (bytes @ concat chunks) m1 \<and>
    fst (stream ops x p es rs chunks m' lims) = fst (finalizeAndConsumeStreamingCosts ops x p es rs m1 st lims)"
  using assms(2,3)
proof (induction chunks arbitrary: bytes m')
  case (Cons c cs)
  from chunk_turn [OF assms(1) Cons.prems(2), of c ops x es rs "cs = []"] obtain st m1 where
    t: "gathered p (bytes @ c) st" "streaming p m (bytes @ c) m1"
    "OnResponseBodyChunk ops x p es rs c (cs = []) m' lims =
      (if cs = [] then let (lims, out) = finalizeAndConsumeStreamingCosts ops x p es rs m1 st lims in (lims, m1, out = None)
       else (lims, m1, False))" by blast
  show ?case
  proof (cases "cs = []")
    case True
    then show ?thesis using t by (intro exI [of _ st] exI [of _ m1]) (auto simp: Let_def split: prod.splits)
  next
    case False
    then show ?thesis using Cons.IH [OF False, of m1 "bytes @ c"] t by simp
  qed
qed simp
lemma map_of_paramsOf: "map_of (paramsOf m) k = map_option anyOf (map_of m k)"
  by (induction m) (auto simp: paramsOf_def)

lemma metadata_streaming:
  assumes "streaming p m bytes m'" "map_of m (metaKey p rateLimitStreamStateKey) = None"
  shows "extractFromMetadataMap x (paramsOf m') k = extractFromMetadataMap x (paramsOf m) k"
proof (cases "k = metaKey p rateLimitStreamStateKey")
  case True
  then show ?thesis using assms by (auto simp: extractFromMetadataMap_def map_of_paramsOf streaming_def anyOf_def)
next
  case False
  then show ?thesis using assms(1) by (auto simp: extractFromMetadataMap_def map_of_paramsOf streaming_def)
qed

lemma getKeys_streaming: "streaming p m bytes m' \<Longrightarrow> getKeys p m' = getKeys p m"
  by (auto simp: streaming_def getKeys_def metaKey_def rateLimitKeysKey_def rateLimitStreamStateKey_def)

definition bufferedBody :: "response \<Rightarrow> string \<Rightarrow> response" where
  "bufferedBody rs bytes = rs\<lparr>rsBody := Some \<lparr>Content = bytes, Present = (bytes \<noteq> [])\<rparr>\<rparr>"

lemma cost_streaming:
  assumes "streaming p m bytes m'" "map_of m (metaKey p rateLimitStreamStateKey) = None"
    and "\<forall>s \<in> set (Sources c). csType s \<noteq> ResponseCEL" "RequiresResponseBody c \<longrightarrow> got = bytes"
  shows "ExtractResponseCost x c (synthCtx (withMetaResponse rs m') got) = ExtractResponseCost x c (withMetaResponse (bufferedBody rs bytes) m)"
proof (cases "Enabled c")
  case True
  have "extractFromResponseSource x (synthCtx (withMetaResponse rs m') got) s =
      extractFromResponseSource x (withMetaResponse (bufferedBody rs bytes) m) s" if "s \<in> set (Sources c)" for s
    using that assms True metadata_streaming [OF assms(1,2)]
    by (cases "csType s") (auto simp: synthCtx_def withMetaResponse_def bufferedBody_def RequiresResponseBody_def list_ex_iff)
  then have "sumSources isResponsePhaseSource (extractFromResponseSource x (synthCtx (withMetaResponse rs m') got)) (Sources c) =
      sumSources isResponsePhaseSource (extractFromResponseSource x (withMetaResponse (bufferedBody rs bytes) m)) (Sources c)"
    by (intro sumSources_cong) auto
  then show ?thesis by (simp add: ExtractResponseCost_def)
qed (simp add: ExtractResponseCost_def)

lemma responseLoop_states:
  assumes "\<And>j s. j < length qs \<Longrightarrow> fst (f (es (i + j)) (qs ! j) (quotaNameFor (qs ! j) (i + j)) s) =
      fst (g (es (i + j)) (qs ! j) (quotaNameFor (qs ! j) (i + j)) s)"
    and "\<And>j s. j < length qs \<Longrightarrow> snd (f (es (i + j)) (qs ! j) (quotaNameFor (qs ! j) (i + j)) s) \<noteq> Crash"
    and "\<And>j s. j < length qs \<Longrightarrow> snd (g (es (i + j)) (qs ! j) (quotaNameFor (qs ! j) (i + j)) s) \<noteq> Crash"
  shows "fst (responseLoop f es i qs lims acc) = fst (responseLoop g es i qs lims acc')"
  using assms
proof (induction qs arbitrary: i lims acc acc')
  case (Cons q qs)
  obtain s d where f: "f (es i) q (quotaNameFor q i) (lims ! qLimiter q) = (s, d)" by fastforce
  obtain s' d' where g: "g (es i) q (quotaNameFor q i) (lims ! qLimiter q) = (s', d')" by fastforce
  have "s' = s" "d \<noteq> Crash" "d' \<noteq> Crash"
    using Cons.prems(1) [of 0 "lims ! qLimiter q"] Cons.prems(2) [of 0 "lims ! qLimiter q"]
      Cons.prems(3) [of 0 "lims ! qLimiter q"] f g by auto
  moreover have "fst (responseLoop f es (Suc i) qs l a) = fst (responseLoop g es (Suc i) qs l a')" for l a a'
    using Cons.prems(1) [of "Suc j" for j] Cons.prems(2) [of "Suc j" for j] Cons.prems(3) [of "Suc j" for j]
    by (intro Cons.IH) auto
  ultimately show ?case using f g by (auto simp: Let_def split: qstep.splits)
qed simp

lemma responseLoop_idle: "fst (responseLoop (\<lambda>e q n s. (s, Skip)) es i qs lims acc) = lims"
  by (induction qs arbitrary: i) simp_all

text \<open>What the response phases ask of a limiter: no panic on a consumption or a lookup.\<close>

locale calm =
  fixes ops :: "'s lim_ops"
  assumes consume_calm: "snd (consumeOp ops e s k n) \<noteq> Panic"
    and available_calm: "opGetAvailable ops e s k \<noteq> Panic"
begin

lemma consumeQuota_calm: "snd (consumeQuota ops e name key n s) \<noteq> Crash"
  using consume_calm [of e s key n] by (auto simp: consumeQuota_def split: prod.splits outcome.splits)

lemma responseBodyStep_calm: "snd (responseBodyStep ops x rs ks stored e q name s) \<noteq> Crash"
  using consumeQuota_calm available_calm
  by (auto simp: responseBodyStep_def consumeResponseCost_def carryStored_def storedWithResult_def snapshotQuota_def Let_def
    split: option.splits if_splits outcome.splits qstep.splits)

lemma finalizeStep_calm: "snd (finalizeStep ops x rs ks st e q name s) \<noteq> Crash"
  using consumeQuota_calm by (auto simp: finalizeStep_def Let_def split: option.splits if_splits)

end

section \<open>Properties\<close>

interpretation fw_calm: calm fwOps
  by unfold_locales (simp_all add: fwOps_def consumeOp_def FixedWindow.ConsumeN_def FixedWindow.GetAvailable_def Let_def)

definition bodyCostConfig :: CostExtractionConfig where
  "bodyCostConfig = \<lparr>Enabled = True, Sources = [\<lparr>csType = ResponseBody, csKey = '''', csJSONPath = ''2'', csExpression = '''',
     csMultiplier = Fin 1\<rparr>], Default = Fin 1\<rparr>"

definition bodyQuota :: QuotaRuntime where
  "bodyQuota = standardQuota\<lparr>qCostExtractor := Some bodyCostConfig, qCostExtractionEnabled := True\<rparr>"

definition bodyPolicy :: RateLimitPolicy where
  "bodyPolicy = demoPolicy\<lparr>quotas := [bodyQuota]\<rparr>"

definition demoResponse :: response where
  "demoResponse = \<lparr>rsUpstream = None, rsMetadata = [], rsBody = None\<rparr>"

definition keyedMeta :: meta where
  "keyedMeta = [(metaKey bodyPolicy rateLimitKeysKey, MKeys [(''q'', ''k'')])]"

lemma streamKey_distinct: "metaKey p rateLimitKeysKey \<noteq> metaKey p rateLimitStreamStateKey"
  by (simp add: metaKey_def rateLimitKeysKey_def rateLimitStreamStateKey_def)


text \<open>Two policies can mix up their streams. The accumulated body is kept in the metadata of the request
  under the instance identifier of the policy and the name of the quota. Two instances on a route with
  the same identifier and quota name append each chunk to the same buffer, so that it holds every chunk
  twice and the cost is read from a body the upstream never sent.\<close>
lemma same_instance_doubles_stream:
  assumes "instanceID p1 = instanceID p2" "quotas p1 = [q1]" "quotas p2 = [q2]" "quotaNameFor q1 0 = quotaNameFor q2 0"
    and "needsBody q1" "needsBody q2" "map_of m (metaKey p1 rateLimitStreamStateKey) = None"
  shows "let (lims1, m1, crash1) = OnResponseBodyChunk ops x p1 es rs chunk False m lims;
      (lims2, m2, crash2) = OnResponseBodyChunk ops x p2 es rs chunk False m1 lims1
    in map_of m2 (metaKey p1 rateLimitStreamStateKey) = Some (MStream [(quotaNameFor q1 0, chunk @ chunk)])"
proof -
  have "metaKey p2 = metaKey p1" using assms(1) by (simp add: fun_eq_iff metaKey_def)
  then show ?thesis
    using assms(2-7) by (auto simp: OnResponseBodyChunk_def getOrInitStreamState_def needsBody_def Let_def)
qed

lemma same_instance_doubles_stream_example:
  "let (lims1, m1, crash1) = OnResponseBodyChunk fwOps demoExtern bodyPolicy atStart demoResponse ''ab'' False [] [demo];
      (lims2, m2, crash2) = OnResponseBodyChunk fwOps demoExtern (bodyPolicy\<lparr>statusCode := 503\<rparr>) atStart demoResponse ''ab'' False m1 lims1
    in map_of m2 (metaKey bodyPolicy rateLimitStreamStateKey) = Some (MStream [(quotaNameFor bodyQuota 0, ''ab'' @ ''ab'')])"
proof (rule same_instance_doubles_stream)
  show "quotas bodyPolicy = [bodyQuota]" "quotas (bodyPolicy\<lparr>statusCode := 503\<rparr>) = [bodyQuota]" by (simp_all add: bodyPolicy_def)
  show "needsBody bodyQuota" "needsBody bodyQuota"
    by (simp_all add: needsBody_def bodyQuota_def costOf_def RequiresResponseBody_def bodyCostConfig_def)
qed simp_all

end
