(* ===== verification/QuotaConfig.thy ===== *)
theory QuotaConfig
  imports QuotaHeaders
begin

text \<open>
  \<^verbatim>\<open>ratelimit.go\<close>, configuration: parameters looked up by a dotted path, and the parsing of quotas,
  limits and key extraction from the decoded JSON. An error is a message; a wrapped error is appended to
  its context, except the text of an error of \<^verbatim>\<open>time.ParseDuration\<close>, which is left out.
\<close>

section \<open>Parameters\<close>

text \<open>The loop over the parts of the path; \<^verbatim>\<open>nil\<close> where a level is not an object.\<close>

fun lookupPath :: "params \<Rightarrow> string list \<Rightarrow> any" where
  "lookupPath m [] = ANil"
| "lookupPath m [k] = index m k"
| "lookupPath m (k # ks) = (case as_map (index m k) of Some next \<Rightarrow> lookupPath next ks | None \<Rightarrow> ANil)"

definition dotted :: "string \<Rightarrow> string list" where "dotted key = split_on (CHR ''.'') key"

definition getStringParam :: "params \<Rightarrow> string \<Rightarrow> string \<Rightarrow> string" where
  "getStringParam m key d = (case as_str (lookupPath m (dotted key)) of Some s \<Rightarrow> s | None \<Rightarrow> d)"

definition getIntParam :: "params \<Rightarrow> string \<Rightarrow> int \<Rightarrow> int" where
  "getIntParam m key d =
     (case lookupPath m (dotted key) of AFloat v \<Rightarrow> f64_to_int64 v | AInt i \<Rightarrow> i | _ \<Rightarrow> d)"

definition getBoolParam :: "params \<Rightarrow> string \<Rightarrow> bool \<Rightarrow> bool" where
  "getBoolParam m key d = (case as_bool (lookupPath m (dotted key)) of Some b \<Rightarrow> b | None \<Rightarrow> d)"

definition getDurationParam :: "params \<Rightarrow> string \<Rightarrow> duration \<Rightarrow> duration" where
  "getDurationParam m key d =
     (case as_str (lookupPath m (dotted key)) of
        Some s \<Rightarrow> (case ParseDuration s of Some v \<Rightarrow> v | None \<Rightarrow> d)
      | None \<Rightarrow> d)"

section \<open>Limits\<close>

definition parseSingleLimit :: "any \<Rightarrow> any \<Rightarrow> any \<Rightarrow> limit_config outcome" where
  "parseSingleLimit limitVal durationVal burstVal =
     (case as_float limitVal of
        None \<Rightarrow> Fail ''limit must be a number''
      | Some limitFloat \<Rightarrow>
          let lim = f64_to_int64 limitFloat in
          case as_str durationVal of
            None \<Rightarrow> Fail ''duration must be a string''
          | Some durationStr \<Rightarrow>
              (case ParseDuration durationStr of
                 None \<Rightarrow> Fail ''invalid duration''
               | Some d \<Rightarrow>
                   if burstVal = ANil then Ret \<lparr>lcLimit = lim, lcDuration = d, lcBurst = lim\<rparr>
                   else case as_float burstVal of
                     None \<Rightarrow> Fail ''burst must be a number''
                   | Some burstFloat \<Rightarrow> Ret \<lparr>lcLimit = lim, lcDuration = d, lcBurst = f64_to_int64 burstFloat\<rparr>))"

definition parseLimit :: "nat \<Rightarrow> any \<Rightarrow> limit_config outcome" where
  "parseLimit i raw =
     (case as_map raw of
        None \<Rightarrow> Fail (''limits['' @ itoa (int i) @ ''] must be an object'')
      | Some m \<Rightarrow>
          (case map_of m ''limit'' of
             None \<Rightarrow> Fail (''limits['' @ itoa (int i) @ ''].limit is required'')
           | Some limitVal \<Rightarrow>
               (case parseSingleLimit limitVal (index m ''duration'') (index m ''burst'') of
                  Fail err \<Rightarrow> Fail (''invalid limits['' @ itoa (int i) @ '']: '' @ err)
                | out \<Rightarrow> out)))"

definition parseLimits :: "any \<Rightarrow> limit_config list outcome" where
  "parseLimits raw =
     (if raw = ANil then Ret []
      else case as_arr raw of
        None \<Rightarrow> Fail ''limits must be an array''
      | Some raws \<Rightarrow> parseAll parseLimit 0 raws)"

section \<open>Keys\<close>

text \<open>An optional string field: present with another type is an error.\<close>

definition optField :: "nat \<Rightarrow> params \<Rightarrow> string \<Rightarrow> string outcome" where
  "optField i m k =
     (case map_of m k of
        None \<Rightarrow> Ret ''''
      | Some v \<Rightarrow> (case as_str v of Some s \<Rightarrow> Ret s | None \<Rightarrow> Fail (''keyExtraction['' @ itoa (int i) @ ''].'' @ k @ '' must be a string'')))"

definition parseKeyComponent :: "nat \<Rightarrow> any \<Rightarrow> KeyComponent outcome" where
  "parseKeyComponent i raw =
     (case as_map raw of
        None \<Rightarrow> Fail (''keyExtraction['' @ itoa (int i) @ ''] must be an object'')
      | Some m \<Rightarrow>
          (case as_str (index m ''type'') of
             None \<Rightarrow> Fail (''keyExtraction['' @ itoa (int i) @ ''].type is required'')
           | Some t \<Rightarrow>
               (case (optField i m ''key'', optField i m ''expression'', optField i m ''fallback'') of
                  (Ret k, Ret ex, Ret fb) \<Rightarrow>
                    if t = ''cel'' \<and> ex = '''' then
                      Fail (''keyExtraction['' @ itoa (int i) @ '']: type '' @ quoted ''cel'' @ '' requires '' @ quoted ''expression'' @ '' field'')
                    else Ret \<lparr>kcType = t, kcKey = k, kcExpression = ex, kcFallback = fb\<rparr>
                | (Ret k, Ret ex, Fail err) \<Rightarrow> Fail err
                | (Ret k, Fail err, _) \<Rightarrow> Fail err
                | (Fail err, _, _) \<Rightarrow> Fail err
                | _ \<Rightarrow> Panic)))"

definition parseKeyExtraction :: "any \<Rightarrow> KeyComponent list outcome" where
  "parseKeyExtraction raw =
     (if raw = ANil then Ret []
      else case as_arr raw of
        None \<Rightarrow> Fail ''keyExtraction must be an array''
      | Some raws \<Rightarrow> parseAll parseKeyComponent 0 raws)"

section \<open>Quotas\<close>

definition inQuota :: "nat \<Rightarrow> string \<Rightarrow> string \<Rightarrow> string" where
  "inQuota i field err = ''invalid quotas['' @ itoa (int i) @ ''].'' @ field @ '': '' @ err"

text \<open>A quota before it is given its limiter.\<close>

definition parseQuota :: "nat \<Rightarrow> any \<Rightarrow> QuotaRuntime outcome" where
  "parseQuota i raw =
     (case as_map raw of
        None \<Rightarrow> Fail (''quotas['' @ itoa (int i) @ ''] must be an object'')
      | Some m \<Rightarrow>
          (case map_of m ''limits'' of
             None \<Rightarrow> Fail (''quotas['' @ itoa (int i) @ ''].limits is required'')
           | Some limitsRaw \<Rightarrow>
               (case parseLimits limitsRaw of
                  Fail err \<Rightarrow> Fail (inQuota i ''limits'' err)
                | Panic \<Rightarrow> Panic
                | Ret [] \<Rightarrow> Fail (''quotas['' @ itoa (int i) @ ''].limits must not be empty'')
                | Ret limits \<Rightarrow>
                    (case parseKeyExtraction (index m ''keyExtraction'') of
                       Fail err \<Rightarrow> Fail (inQuota i ''keyExtraction'' err)
                     | Panic \<Rightarrow> Panic
                     | Ret ks \<Rightarrow>
                         (case parseCostExtractionConfig (index m ''costExtraction'') of
                            Fail err \<Rightarrow> Fail (inQuota i ''costExtraction'' err)
                          | Panic \<Rightarrow> Panic
                          | Ret ce \<Rightarrow>
                              let ce = (case ce of Some c \<Rightarrow> if Enabled c then Some c else None | None \<Rightarrow> None) in
                              Ret \<lparr>qName = strField m ''name'', qLimits = limits, qKeyExtraction = ks, qLimiter = 0,
                                   qCostExtractor = ce, qCostExtractionEnabled = (ce \<noteq> None)\<rparr>)))))"

definition parseQuotas :: "params \<Rightarrow> QuotaRuntime list outcome" where
  "parseQuotas m =
     (case map_of m ''quotas'' of
        None \<Rightarrow> Ret []
      | Some ANil \<Rightarrow> Ret []
      | Some raw \<Rightarrow> (case as_arr raw of None \<Rightarrow> Fail ''quotas must be an array'' | Some items \<Rightarrow> parseAll parseQuota 0 items))"

section \<open>Properties\<close>

definition keyWf :: "KeyComponent \<Rightarrow> bool" where
  "keyWf c \<longleftrightarrow> (kcType c = ''cel'' \<longrightarrow> kcExpression c \<noteq> '''')"

text \<open>What the phases rely on in a parsed quota.\<close>

definition quotaWf :: "QuotaRuntime \<Rightarrow> bool" where
  "quotaWf q \<longleftrightarrow> qLimits q \<noteq> [] \<and> (\<forall>c \<in> set (qKeyExtraction q). keyWf c) \<and>
     (qCostExtractionEnabled q \<longleftrightarrow> qCostExtractor q \<noteq> None) \<and>
     (\<forall>c. qCostExtractor q = Some c \<longrightarrow> Sources c \<noteq> [] \<and> wellFormedCost c)"

lemma parseKeyComponent_wf: "parseKeyComponent i raw = Ret c \<Longrightarrow> keyWf c"
  by (auto simp: parseKeyComponent_def keyWf_def split: option.splits outcome.splits if_splits)

lemma parseKeyExtraction_wf: "parseKeyExtraction raw = Ret cs \<Longrightarrow> c \<in> set cs \<Longrightarrow> keyWf c"
  using parseKeyComponent_wf parseAll_elements
  by (fastforce simp: parseKeyExtraction_def split: if_splits option.splits)

lemma parseQuota_wf:
  assumes "parseQuota i raw = Ret q"
  shows "quotaWf q"
proof -
  from assms obtain m limits ce where p: "qLimits q = limits" "limits \<noteq> []" "parseKeyExtraction (index m ''keyExtraction'') = Ret (qKeyExtraction q)"
    "parseCostExtractionConfig (index m ''costExtraction'') = Ret ce"
    "qCostExtractor q = (case ce of Some c \<Rightarrow> if Enabled c then Some c else None | None \<Rightarrow> None)"
    "qCostExtractionEnabled q \<longleftrightarrow> qCostExtractor q \<noteq> None"
    by (auto simp: parseQuota_def Let_def split: option.splits outcome.splits list.splits)
  then show ?thesis
    using parseKeyExtraction_wf parseCostExtractionConfig_wf
    by (auto simp: quotaWf_def split: option.splits if_splits)
qed

text \<open>C26: parsing promises what the phases rely on. Every quota of a parsed configuration has a limit; its
  CEL key components have an expression; cost extraction is enabled exactly if there is an extractor,
  which then has a source, no negative default and no negative multiplier.\<close>
theorem parse_quotas_wf:
  assumes "parseQuotas m = Ret qs" "q \<in> set qs"
  shows "quotaWf q"
proof -
  from assms obtain items where "parseAll parseQuota 0 items = Ret qs"
    by (auto simp: parseQuotas_def split: option.splits any.splits)
  then show ?thesis using parseAll_elements [of parseQuota 0 items qs q] assms(2) parseQuota_wf by blast
qed

definition demoQuotasJSON :: params where
  "demoQuotasJSON = [(''quotas'', AArr [AMap [(''limits'', AArr [AMap [(''limit'', AFloat (Fin 5)), (''duration'', AStr ''0'')]]),
     (''keyExtraction'', AArr [AMap [(''type'', AStr ''cel''), (''expression'', AStr ''e'')]])]])]"

definition demoParsed :: QuotaRuntime where
  "demoParsed = \<lparr>qName = '''', qLimits = [\<lparr>lcLimit = 5, lcDuration = 0, lcBurst = 5\<rparr>],
     qKeyExtraction = [\<lparr>kcType = ''cel'', kcKey = '''', kcExpression = ''e'', kcFallback = ''''\<rparr>], qLimiter = 0,
     qCostExtractor = None, qCostExtractionEnabled = False\<rparr>"

theorem parse_quotas_wf_witness: "parseQuotas demoQuotasJSON = Ret [demoParsed] \<and> quotaWf demoParsed"
proof -
  have "parseQuotas demoQuotasJSON = Ret [demoParsed]"
    by (simp add: demoQuotasJSON_def demoParsed_def parseQuotas_def parseQuota_def parseLimits_def parseLimit_def
      parseSingleLimit_def ParseDuration_def index_def parseKeyExtraction_def parseKeyComponent_def optField_def
      parseCostExtractionConfig_def strField_def rat_trunc_def int64_def)
  then show ?thesis using parse_quotas_wf [of demoQuotasJSON "[demoParsed]" demoParsed] by simp
qed

end
