(* ===== verification/Factory.thy ===== *)
theory Factory
  imports RedisLimiter LocalAsync GoValue
begin

text \<open>
  The factories: \<^verbatim>\<open>gcra/gcra.go\<close> and \<^verbatim>\<open>fixedwindow/factory.go\<close> build a limiter from the generic
  configuration (\<^verbatim>\<open>limiter.Config\<close>), one per limit, and register themselves with
  \<^verbatim>\<open>limiter/factory.go\<close>. What they build is a value of \<open>built\<close>. A Redis client is its index in the
  registry of clients. Building a local-first limiter also registers it with the flush coordinator
  (\<open>Coordinator.register\<close>), whose clock reading is an argument here.
\<close>

section \<open>Configuration\<close>

record lim_cfg =
  cAlgorithm :: string
  cLimits :: "limit_config list"
  cBackend :: string
  cRedisClient :: "nat option"
  cKeyPrefix :: string
  cCleanupInterval :: duration
  cAlgorithmConfig :: "params option"

datatype built = FwMemory fw_mem | FwRedis nat fw_redis | FwAsync nat async | FwMulti "built list"
  | GcraMemory gcra_mem | GcraRedis nat gcra_redis | GcraMulti "built list"

text \<open>One limiter, or a multi-limiter over several; \<open>mk prefix p\<close> builds the limiter of a policy.\<close>

definition policyPrefix :: "string \<Rightarrow> nat \<Rightarrow> string" where
  "policyPrefix pre i = pre @ ''p'' @ itoa (int i) @ '':''"

definition oneOrMulti :: "(built list \<Rightarrow> built) \<Rightarrow> (string \<Rightarrow> 'p \<Rightarrow> built) \<Rightarrow> string \<Rightarrow> 'p list \<Rightarrow> built" where
  "oneOrMulti multi mk pre ps =
     (case ps of
        [p] \<Rightarrow> mk pre p
      | _ \<Rightarrow> multi (map (\<lambda>i. mk (policyPrefix pre i) (ps ! i)) [0..<length ps]))"

section \<open>GCRA\<close>

definition gcra_convertLimits :: "limit_config list \<Rightarrow> gcra_policy list" where
  "gcra_convertLimits ls = map (\<lambda>l. Gcra.NewPolicy (lcLimit l) (lcDuration l) (if lcBurst l = 0 then lcLimit l else lcBurst l)) ls"

definition gcra_NewLimiter :: "lim_cfg \<Rightarrow> built outcome" where
  "gcra_NewLimiter c =
     (let ps = gcra_convertLimits (cLimits c) in
      if ps = [] then Fail ''at least one limit must be specified''
      else if cBackend c = ''redis'' then
        (case cRedisClient c of
           None \<Rightarrow> Fail ''redis client is required for redis backend''
         | Some cl \<Rightarrow> Ret (oneOrMulti GcraMulti (\<lambda>pre p. GcraRedis cl (NewGcraRedisLimiter p pre)) (cKeyPrefix c) ps))
      else Ret (oneOrMulti GcraMulti (\<lambda>_ p. GcraMemory (Gcra.NewMemoryLimiter p (cCleanupInterval c))) (cKeyPrefix c) ps))"

section \<open>Fixed window\<close>

definition fw_convertLimits :: "limit_config list \<Rightarrow> fw_policy list" where
  "fw_convertLimits ls = map (\<lambda>l. FixedWindow.NewPolicy (lcLimit l) (lcDuration l)) ls"

definition intFromAny :: "any \<Rightarrow> int" where
  "intFromAny v = (case v of AInt i \<Rightarrow> i | AInt64 i \<Rightarrow> i | AFloat x \<Rightarrow> f64_to_int64 x | _ \<Rightarrow> 0)"

definition localAsyncConfig :: "params option \<Rightarrow> async_config" where
  "localAsyncConfig raw =
     (case raw of
        None \<Rightarrow> \<lparr>SyncInterval = DefaultSyncInterval, FailOpen = True, MaxLocalEntries = 0, FlushWorkers = 0, MaxPipelineCommands = 0\<rparr>
      | Some m \<Rightarrow>
          \<lparr>SyncInterval =
             (case index m ''syncInterval'' of
                ADur d \<Rightarrow> if 0 < d then d else DefaultSyncInterval
              | AStr s \<Rightarrow> (case ParseDuration s of Some d \<Rightarrow> if 0 < d then d else DefaultSyncInterval | None \<Rightarrow> DefaultSyncInterval)
              | _ \<Rightarrow> DefaultSyncInterval),
           FailOpen = (case as_bool (index m ''failOpen'') of Some b \<Rightarrow> b | None \<Rightarrow> True),
           MaxLocalEntries = intFromAny (index m ''maxLocalEntries''),
           FlushWorkers = intFromAny (index m ''flushWorkers''),
           MaxPipelineCommands = intFromAny (index m ''maxPipelineCommands'')\<rparr>)"

definition newAsync :: "nat \<Rightarrow> instant \<Rightarrow> async_config \<Rightarrow> string \<Rightarrow> fw_policy \<Rightarrow> built" where
  "newAsync cl coordNow lac pre p =
     (let backing = RedisLimiter.NewRedisLimiter p pre
      in FwAsync cl (newRedisLocalAsyncLimiterWith (rpolicy backing) (rprefix backing) lac coordNow))"

definition fw_NewLimiter :: "instant \<Rightarrow> lim_cfg \<Rightarrow> built outcome" where
  "fw_NewLimiter coordNow c =
     (let ps = fw_convertLimits (cLimits c) in
      if ps = [] then Fail ''at least one limit must be specified''
      else if cBackend c = ''redis'' then
        (case cRedisClient c of
           None \<Rightarrow> Fail ''redis client is required for redis backend''
         | Some cl \<Rightarrow> Ret (oneOrMulti FwMulti (\<lambda>pre p. FwRedis cl (RedisLimiter.NewRedisLimiter p pre)) (cKeyPrefix c) ps))
      else if cBackend c = ''redis-local-async'' then
        (case cRedisClient c of
           None \<Rightarrow> Fail ''redis client is required for redis-local-async backend''
         | Some cl \<Rightarrow> Ret (oneOrMulti FwMulti (newAsync cl coordNow (localAsyncConfig (cAlgorithmConfig c))) (cKeyPrefix c) ps))
      else Ret (oneOrMulti FwMulti (\<lambda>_ p. FwMemory (FixedWindow.NewMemoryLimiter p (cCleanupInterval c))) (cKeyPrefix c) ps))"

text \<open>The registry after the packages' \<^verbatim>\<open>init\<close> functions, which the policy imports.\<close>

definition algorithms :: "instant \<Rightarrow> (lim_cfg, built) registry" where
  "algorithms coordNow = RegisterAlgorithm ''gcra'' gcra_NewLimiter (RegisterAlgorithm ''fixed-window'' (fw_NewLimiter coordNow) [])"

definition createLimiter :: "instant \<Rightarrow> lim_cfg \<Rightarrow> built outcome" where
  "createLimiter coordNow c = CreateLimiter (algorithms coordNow) (cAlgorithm c) c"

section \<open>Lemmas\<close>

lemma oneOrMulti_single: "oneOrMulti multi mk pre [p] = mk pre p"
  by (simp add: oneOrMulti_def)

lemma oneOrMulti_several:
  "length ps \<noteq> 1 \<Longrightarrow> oneOrMulti multi mk pre ps = multi (map (\<lambda>i. mk (policyPrefix pre i) (ps ! i)) [0..<length ps])"
  by (auto simp: oneOrMulti_def split: list.splits)

lemma colon_no_digit: "\<not> is_digit (CHR '':'')"
  by (simp add: is_digit_def)

lemma policyPrefix_inj:
  assumes "policyPrefix pre i @ u = policyPrefix pre j @ v"
  shows "i = j"
proof -
  have w: "takeWhile is_digit (itoa (int n) @ '':'' @ w) = itoa (int n)" for n w
    using itoa_digits [of "int n"] colon_no_digit by (simp add: takeWhile_append2)
  from assms have "itoa (int i) @ '':'' @ u = itoa (int j) @ '':'' @ v" by (simp add: policyPrefix_def)
  then have "itoa (int i) = itoa (int j)" using w by metis
  then show ?thesis using itoa_inj [of "int i" "int j"] by simp
qed

lemma rprefix_policyPrefix: "rprefix (RedisLimiter.NewRedisLimiter p (policyPrefix pre i)) = policyPrefix pre i"
  by (simp add: RedisLimiter.NewRedisLimiter_def policyPrefix_def)

lemma fw_NewLimiter_redis:
  assumes "fw_NewLimiter now c = Ret b" "cBackend c = ''redis''"
  obtains cl where "cRedisClient c = Some cl" "cLimits c \<noteq> []"
    "b = oneOrMulti FwMulti (\<lambda>pre p. FwRedis cl (RedisLimiter.NewRedisLimiter p pre)) (cKeyPrefix c) (fw_convertLimits (cLimits c))"
  using assms by (auto simp: fw_NewLimiter_def fw_convertLimits_def Let_def split: if_splits option.splits)

section \<open>Properties\<close>

text \<open>The limits of one quota never share a Redis key. A fixed window quota with several limits on the Redis
  backend gets one limiter per limit, and whatever keys and times they are asked for, the Redis keys of two
  of them differ.\<close>
lemma redis_limits_disjoint:
  assumes "fw_NewLimiter now c = Ret (FwMulti ls)" "cBackend c = ''redis''"
    and "i < length ls" "j < length ls" "i \<noteq> j" "ls ! i = FwRedis cl r" "ls ! j = FwRedis cl' r'"
  shows "RedisLimiter.redisKey r k t \<noteq> RedisLimiter.redisKey r' k' t'"
proof -
  let ?ps = "fw_convertLimits (cLimits c)"
  obtain cl0 where b: "FwMulti ls = oneOrMulti FwMulti (\<lambda>pre p. FwRedis cl0 (RedisLimiter.NewRedisLimiter p pre)) (cKeyPrefix c) ?ps"
    using fw_NewLimiter_redis [OF assms(1,2)] by metis
  have "length ?ps \<noteq> 1"
  proof
    assume "length ?ps = 1"
    then obtain p where "?ps = [p]" by (metis length_0_conv length_Suc_conv One_nat_def)
    then show False using b by (simp add: oneOrMulti_single)
  qed
  then have ls: "ls = map (\<lambda>i. FwRedis cl0 (RedisLimiter.NewRedisLimiter (?ps ! i) (policyPrefix (cKeyPrefix c) i))) [0..<length ?ps]"
    using b by (simp add: oneOrMulti_several)
  have "rprefix r = policyPrefix (cKeyPrefix c) i" "rprefix r' = policyPrefix (cKeyPrefix c) j"
    using assms(3,4,6,7) rprefix_policyPrefix by (auto simp: ls)
  then show ?thesis using policyPrefix_inj assms(5) unfolding RedisLimiter.redisKey_def by metis
qed

definition redisCfg :: "limit_config list \<Rightarrow> lim_cfg" where
  "redisCfg ls = \<lparr>cAlgorithm = ''fixed-window'', cLimits = ls, cBackend = ''redis'', cRedisClient = Some 0,
     cKeyPrefix = ''ratelimit:v1:'', cCleanupInterval = 0, cAlgorithmConfig = None\<rparr>"

definition perSecond :: "int \<Rightarrow> limit_config" where
  "perSecond n = \<lparr>lcLimit = n, lcDuration = Second, lcBurst = n\<rparr>"

abbreviation redisPart :: "int \<Rightarrow> nat \<Rightarrow> fw_redis" where
  "redisPart n i \<equiv> RedisLimiter.NewRedisLimiter (FixedWindow.NewPolicy n Second) (policyPrefix ''ratelimit:v1:'' i)"

lemma redis_limits_disjoint_example:
  "RedisLimiter.redisKey (redisPart 5 0) ''k'' 7 \<noteq> RedisLimiter.redisKey (redisPart 9 1) ''k'' 7"
  by (rule redis_limits_disjoint [where now = 0 and c = "redisCfg [perSecond 5, perSecond 9]" and i = 0 and j = 1 and cl = 0 and cl' = 0
      and ls = "[FwRedis 0 (redisPart 5 0), FwRedis 0 (redisPart 9 1)]"])
    (simp_all add: redisCfg_def fw_NewLimiter_def fw_convertLimits_def perSecond_def oneOrMulti_def)

text \<open>Quotas share Redis counters. The Redis key of a quota with one limit has the configured prefix, the
  rate limit key and the window, but nothing of the quota, the API or the route. Two quotas with the same
  window length count into the same Redis key whenever their rate limit keys agree, whatever their limits
  and wherever they are configured; each request of the one uses up the other.\<close>
lemma redis_quotas_share_counter:
  assumes "createLimiter now c = Ret (FwRedis cl r)" "createLimiter now' c' = Ret (FwRedis cl' r')"
    and "cLimits c = [l]" "cLimits c' = [l']" "cAlgorithm c = ''fixed-window''" "cAlgorithm c' = ''fixed-window''"
    and "cBackend c = ''redis''" "cBackend c' = ''redis''" "cKeyPrefix c = cKeyPrefix c'" "lcDuration l = lcDuration l'"
  shows "RedisLimiter.redisKey r k t = RedisLimiter.redisKey r' k t"
proof -
  have create: "createLimiter n d = fw_NewLimiter n d" if "cAlgorithm d = ''fixed-window''" for n d
    using that by (simp add: createLimiter_def CreateLimiter_def algorithms_def RegisterAlgorithm_def)
  have "r = RedisLimiter.NewRedisLimiter (FixedWindow.NewPolicy (lcLimit l) (lcDuration l)) (cKeyPrefix c)"
    using fw_NewLimiter_redis [OF assms(1) [unfolded create [OF assms(5)]] assms(7)] assms(3)
    by (auto simp: fw_convertLimits_def oneOrMulti_def)
  moreover have "r' = RedisLimiter.NewRedisLimiter (FixedWindow.NewPolicy (lcLimit l') (lcDuration l')) (cKeyPrefix c')"
    using fw_NewLimiter_redis [OF assms(2) [unfolded create [OF assms(6)]] assms(8)] assms(4)
    by (auto simp: fw_convertLimits_def oneOrMulti_def)
  ultimately show ?thesis using assms(9,10)
    by (simp add: RedisLimiter.redisKey_def RedisLimiter.NewRedisLimiter_def FixedWindow.NewPolicy_def FixedWindow.WindowStart_def)
qed

abbreviation redisWhole :: "int \<Rightarrow> fw_redis" where
  "redisWhole n \<equiv> RedisLimiter.NewRedisLimiter (FixedWindow.NewPolicy n Second) ''ratelimit:v1:''"

lemma redis_quotas_share_counter_example:
  "RedisLimiter.redisKey (redisWhole 5) ''alice'' 7 = RedisLimiter.redisKey (redisWhole 100) ''alice'' 7"
  by (rule redis_quotas_share_counter [where now = 0 and now' = 0 and c = "redisCfg [perSecond 5]" and c' = "redisCfg [perSecond 100]"
      and cl = 0 and cl' = 0 and l = "perSecond 5" and l' = "perSecond 100"])
    (simp_all add: redisCfg_def createLimiter_def CreateLimiter_def algorithms_def RegisterAlgorithm_def fw_NewLimiter_def
      fw_convertLimits_def perSecond_def oneOrMulti_def)

text \<open>GCRA ignores the local-first backend. With the algorithm \<^verbatim>\<open>gcra\<close> and the backend
  \<^verbatim>\<open>redis-local-async\<close>, which the configuration schema both offers, every limit gets a purely in-memory
  limiter: no count reaches Redis or another replica, and no client is asked for.\<close>
lemma gcra_local_async_is_memory:
  assumes "cAlgorithm c = ''gcra''" "cBackend c = ''redis-local-async''" "cLimits c \<noteq> []"
  shows "createLimiter now c = Ret (oneOrMulti GcraMulti (\<lambda>_ p. GcraMemory (Gcra.NewMemoryLimiter p (cCleanupInterval c)))
    (cKeyPrefix c) (gcra_convertLimits (cLimits c)))"
  using assms by (simp add: createLimiter_def CreateLimiter_def algorithms_def RegisterAlgorithm_def gcra_NewLimiter_def
    gcra_convertLimits_def)

text \<open>The tuning of a local-first limiter is usable whatever was configured: after the defaults, the sync
  interval, the entry bound and the pipeline bound are positive, so the limiter is flushed, keeps at least
  one entry per stripe and sends at least one command per pipeline.\<close>
lemma local_async_config_positive:
  "let c = withDefaults (localAsyncConfig raw) in
    0 < SyncInterval c \<and> 0 < MaxLocalEntries c \<and> 0 < MaxPipelineCommands c \<and>
    1 \<le> stripeCap (newRedisLocalAsyncLimiterWith p pre (localAsyncConfig raw) now)"
  by (auto simp: withDefaults_def newRedisLocalAsyncLimiterWith_def Let_def DefaultSyncInterval_def DefaultMaxLocalEntries_def
    DefaultMaxPipelineCommands_def Millisecond_def)

end
