(* ===== verification/LimiterCache.thy ===== *)
theory LimiterCache
  imports QuotaConfig Factory "HOL-Library.List_Lexorder" "HOL-Library.Char_ord" "HOL-Library.Multiset"
begin

text \<open>
  \<^verbatim>\<open>ratelimit.go\<close>, the factory of the policy: \<^verbatim>\<open>GetPolicy\<close> with the process-wide cache of limiters, which are
  shared by cache key and reference counted. The state is the cache, the limiters built so far (a limiter
  is its index), which of them were closed, and the registry of Redis clients. SHA-256 (\<open>sha\<close>, as hex
  digits), the printed form of a JSON value (\<open>fmtV\<close>, \<^verbatim>\<open>%v\<close>), \<^verbatim>\<open>limiter.CreateLimiter\<close>
  (\<open>create\<close>, of which \<open>Factory.createLimiter\<close> is the instance) and the order in which Go iterates
  over a map are arguments. A quota name is quoted in an error without the escapes of
  \<^verbatim>\<open>%q\<close>. Fields of the policy that are only logged are left out.
\<close>

section \<open>Durations as strings\<close>

text \<open>\<^verbatim>\<open>Duration.String\<close>: the fraction of \<open>u\<close> in units of \<open>10 ^ prec\<close>, without trailing zeros.\<close>

definition fmtFrac :: "int \<Rightarrow> nat \<Rightarrow> string" where
  "fmtFrac u prec =
     (let d = itoa (u mod 10 ^ prec); padded = replicate (prec - length d) (CHR ''0'') @ d;
          frac = rev (dropWhile (\<lambda>c. c = CHR ''0'') (rev padded))
      in if frac = [] then [] else CHR ''.'' # frac)"

definition durString :: "duration \<Rightarrow> string" where
  "durString d =
     (let u = \<bar>d\<bar> in
      (if d < 0 then ''-'' else '''') @
      (if u = 0 then ''0s''
       else if u < 1000 then itoa u @ ''ns''
       else if u < 1000000 then itoa (u div 1000) @ fmtFrac u 3 @ [char_of (194 :: nat), char_of (181 :: nat), CHR ''s'']
       else if u < Second then itoa (u div 1000000) @ fmtFrac u 6 @ ''ms''
       else let s = u div Second; m = s div 60; h = m div 60 in
         (if 0 < h then itoa h @ ''h'' else '''') @ (if 0 < m then itoa (m mod 60) @ ''m'' else '''') @
         itoa (s mod 60) @ fmtFrac u 9 @ ''s''))"

definition fmtBool :: "bool \<Rightarrow> string" where "fmtBool b = (if b then ''true'' else ''false'')"

section \<open>Cache keys\<close>

definition getBaseCacheKey :: "(string \<Rightarrow> string) \<Rightarrow> (any \<Rightarrow> string) \<Rightarrow> string \<Rightarrow> string \<Rightarrow> string \<Rightarrow> string \<Rightarrow> params \<Rightarrow> string" where
  "getBaseCacheKey sha fmtV route api algorithm backnd m =
     sha (''route:'' @ route @ ''|api:'' @ api @ ''|algo:'' @ algorithm @ ''|backend:'' @ backnd @ ''|'' @
       (if backnd = ''redis-local-async'' then
          ''redis:'' @ getStringParam m ''redis.host'' ''localhost'' @ ''/'' @ itoa (getIntParam m ''redis.db'' 0) @
          ''|local:'' @ durString (getDurationParam m ''local.syncInterval'' (50 * Millisecond)) @
          '',w='' @ itoa (getIntParam m ''local.flushWorkers'' 0) @
          '',pipe='' @ itoa (getIntParam m ''local.maxPipelineCommands'' 0) @
          '',max='' @ itoa (getIntParam m ''local.maxLocalEntries'' 0) @ ''|''
        else '''') @
       ''cleanup:'' @ durString (getDurationParam m ''memory.cleanupInterval'' (5 * Minute)) @ ''|'' @
       ''headers:xrl='' @ fmtBool (getBoolParam m ''headers.includeXRateLimit'' True) @
       '',ietf='' @ fmtBool (getBoolParam m ''headers.includeIETF'' True) @
       '',retry='' @ fmtBool (getBoolParam m ''headers.includeRetryAfter'' True) @ ''|'' @
       (case as_map (index m ''onRateLimitExceeded'') of
          None \<Rightarrow> ''''
        | Some ex \<Rightarrow> ''exceeded:'' @ concat (map (\<lambda>k. k @ ''='' @ fmtV (index ex k) @ '','') (sort (map fst ex))) @ ''|''))"

definition reconcileKeyFor :: "string \<Rightarrow> string \<Rightarrow> string" where
  "reconcileKeyFor base attachedTo = base @ ''|attachedTo:'' @ attachedTo"

definition limitPrint :: "nat \<Rightarrow> limit_config \<Rightarrow> string" where
  "limitPrint i l = ''['' @ itoa (int i) @ '':l='' @ itoa (lcLimit l) @ '',d='' @ durString (lcDuration l) @ '',b='' @ itoa (lcBurst l) @ '']''"

definition componentPrint :: "nat \<Rightarrow> KeyComponent \<Rightarrow> string" where
  "componentPrint i c = ''['' @ itoa (int i) @ '':t='' @ kcType c @ '',k='' @ kcKey c @ '']''"

definition printAll :: "(nat \<Rightarrow> 'a \<Rightarrow> string) \<Rightarrow> 'a list \<Rightarrow> string" where
  "printAll f xs = concat (map (\<lambda>i. f i (xs ! i)) [0..<length xs])"

definition hasKeyType :: "string \<Rightarrow> QuotaRuntime \<Rightarrow> bool" where
  "hasKeyType t q = list_ex (\<lambda>c. kcType c = t) (qKeyExtraction q)"

definition getQuotaCacheKey :: "(string \<Rightarrow> string) \<Rightarrow> string \<Rightarrow> string \<Rightarrow> QuotaRuntime \<Rightarrow> nat \<Rightarrow> string" where
  "getQuotaCacheKey sha base api q i =
     sha ((if hasKeyType ''apiname'' q \<and> \<not> hasKeyType ''routename'' q then ''apiScope:'' @ api @ ''|'' else base) @
       ''|quota:'' @ (if qName q \<noteq> '''' then qName q else ''idx-'' @ itoa (int i)) @ ''|limits:'' @ printAll limitPrint (qLimits q) @
       ''|keyExtraction:'' @ printAll componentPrint (qKeyExtraction q) @ ''|'')"

section \<open>The cache\<close>

record limiterEntry =
  entryLim :: nat
  refCount :: int

record 'l world =
  byQuotaKey :: "(string, limiterEntry) gomap"
  quotaKeysByBaseKey :: "(string, string list) gomap"
  limObjs :: "'l list"
  closedLims :: "nat list"
  redisClients :: clients

definition trackedBy :: "'l world \<Rightarrow> string \<Rightarrow> string list" where
  "trackedBy w rk = (case map_of (quotaKeysByBaseKey w) rk of Some ks \<Rightarrow> ks | None \<Rightarrow> [])"

definition addLimiter :: "'l \<Rightarrow> 'l world \<Rightarrow> 'l world \<times> nat" where
  "addLimiter l w = (w\<lparr>limObjs := limObjs w @ [l]\<rparr>, length (limObjs w))"

definition createFailed :: "string \<Rightarrow> string \<Rightarrow> string \<Rightarrow> string" where
  "createFailed kind name err = ''failed to create '' @ kind @ '' limiter for quota '' @ dquote @ name @ dquote @ '': '' @ err"

text \<open>The loop over the quotas: a cached limiter is reused, and counted unless this instance held it
  already; else one is built. An error returns at once and leaves the cache as it is by then.\<close>

definition shareEntry :: "string list \<Rightarrow> string \<Rightarrow> limiterEntry \<Rightarrow> 'l world \<Rightarrow> 'l world" where
  "shareEntry old key en w =
     (if key \<in> set old then w
      else w\<lparr>byQuotaKey := AList.update key (en\<lparr>refCount := refCount en + 1\<rparr>) (byQuotaKey w)\<rparr>)"

definition newEntry :: "string \<Rightarrow> 'l \<Rightarrow> 'l world \<Rightarrow> 'l world" where
  "newEntry key l w =
     (let (w, n) = addLimiter l w in w\<lparr>byQuotaKey := AList.update key \<lparr>entryLim = n, refCount = 1\<rparr> (byQuotaKey w)\<rparr>)"

fun acquire :: "(lim_cfg \<Rightarrow> 'l outcome) \<Rightarrow> string list \<Rightarrow> (string \<times> string \<times> lim_cfg) list \<Rightarrow> 'l world \<Rightarrow> 'l world \<times> nat list outcome" where
  "acquire create old [] w = (w, Ret [])"
| "acquire create old ((key, name, conf) # infos) w =
     (case map_of (byQuotaKey w) key of
        Some en \<Rightarrow>
          (case acquire create old infos (shareEntry old key en w) of
             (w', Ret ls) \<Rightarrow> (w', Ret (entryLim en # ls))
           | (w', out) \<Rightarrow> (w', out))
      | None \<Rightarrow>
          (case create conf of
             Fail err \<Rightarrow> (w, Fail (createFailed ''memory'' name err))
           | Panic \<Rightarrow> (w, Panic)
           | Ret l \<Rightarrow>
               (case acquire create old infos (newEntry key l w) of
                  (w', Ret ls) \<Rightarrow> (w', Ret (length (limObjs w) # ls))
                | (w', out) \<Rightarrow> (w', out))))"

text \<open>The keys the instance held and no longer needs, in iteration order: the last holder closes the
  limiter.\<close>

definition dropEntry :: "string \<Rightarrow> 'l world \<Rightarrow> 'l world" where
  "dropEntry key w =
     (case map_of (byQuotaKey w) key of
        None \<Rightarrow> w
      | Some en \<Rightarrow>
          if refCount en - 1 \<le> 0 then
            w\<lparr>byQuotaKey := AList.delete key (byQuotaKey w), closedLims := entryLim en # closedLims w\<rparr>
          else w\<lparr>byQuotaKey := AList.update key (en\<lparr>refCount := refCount en - 1\<rparr>) (byQuotaKey w)\<rparr>)"

fun release :: "string list \<Rightarrow> string list \<Rightarrow> 'l world \<Rightarrow> 'l world" where
  "release desired [] w = w"
| "release desired (k # ks) w = release desired ks (if k \<in> set desired then w else dropEntry k w)"

definition reconcile :: "(lim_cfg \<Rightarrow> 'l outcome) \<Rightarrow> string \<Rightarrow> string list \<Rightarrow> (string \<times> string \<times> lim_cfg) list \<Rightarrow> 'l world
    \<Rightarrow> 'l world \<times> nat list outcome" where
  "reconcile create rk order infos w =
     (case acquire create (trackedBy w rk) infos w of
        (w, Ret ls) \<Rightarrow>
          (let w = release (map fst infos) order w
           in (w\<lparr>quotaKeysByBaseKey := AList.update rk (remdups (map fst infos)) (quotaKeysByBaseKey w)\<rparr>, Ret ls))
      | (w, out) \<Rightarrow> (w, out))"

section \<open>Reference counts\<close>

definition refs :: "'l world \<Rightarrow> string \<Rightarrow> int" where
  "refs w k = (case map_of (byQuotaKey w) k of None \<Rightarrow> 0 | Some en \<Rightarrow> refCount en)"

definition limOf :: "'l world \<Rightarrow> string \<Rightarrow> nat option" where
  "limOf w k = map_option entryLim (map_of (byQuotaKey w) k)"

definition holders :: "'l world \<Rightarrow> string \<Rightarrow> string set" where
  "holders w k = {rk. k \<in> set (trackedBy w rk)}"

text \<open>A cached limiter exists, is open and belongs to one key; an entry is counted at least once.\<close>

definition liveOk :: "'l world \<Rightarrow> bool" where
  "liveOk w \<longleftrightarrow> (\<forall>k l. limOf w k = Some l \<longrightarrow> l < length (limObjs w) \<and> l \<notin> set (closedLims w)) \<and>
     (\<forall>k k' l. limOf w k = Some l \<and> limOf w k' = Some l \<longrightarrow> k = k') \<and>
     (\<forall>l \<in> set (closedLims w). l < length (limObjs w))"

definition countedOk :: "'l world \<Rightarrow> bool" where
  "countedOk w \<longleftrightarrow> (\<forall>k. 0 \<le> refs w k \<and> (limOf w k = None \<longleftrightarrow> refs w k = 0))"

text \<open>The invariant of the cache. A holder of a key is a reconcile key that tracks it, which stands for the policy
  instance built last for a route, an attachment level and shared parameters. The count of a key is never less than the
  number of its holders; where no build failed and none had two quotas with one cache key, it is that number.\<close>

definition cacheSafe :: "'l world \<Rightarrow> bool" where
  "cacheSafe w \<longleftrightarrow> liveOk w \<and> countedOk w \<and> (\<forall>k. int (card (holders w k)) \<le> refs w k)"

definition cacheOk :: "'l world \<Rightarrow> bool" where
  "cacheOk w \<longleftrightarrow> liveOk w \<and> countedOk w \<and> (\<forall>k. refs w k = int (card (holders w k)))"

lemma cacheOk_safe: "cacheOk w \<Longrightarrow> cacheSafe w"
  by (simp add: cacheOk_def cacheSafe_def)

text \<open>Every limiter that was built is cached or closed.\<close>

definition accounted :: "'l world \<Rightarrow> bool" where
  "accounted w \<longleftrightarrow> (\<forall>l < length (limObjs w). l \<in> set (closedLims w) \<or> (\<exists>k. limOf w k = Some l))"

lemma refs_share: "map_of (byQuotaKey w) key = Some en \<Longrightarrow>
    refs (shareEntry old key en w) k = refs w k + (if k = key \<and> key \<notin> set old then 1 else 0)"
  by (auto simp: shareEntry_def refs_def)

lemma limOf_share: "map_of (byQuotaKey w) key = Some en \<Longrightarrow> limOf (shareEntry old key en w) k = limOf w k"
  by (auto simp: shareEntry_def limOf_def)

lemma refs_new: "refs (newEntry key l w) k = (if k = key then 1 else refs w k)"
  by (auto simp: newEntry_def addLimiter_def refs_def)

lemma limOf_new: "limOf (newEntry key l w) k = (if k = key then Some (length (limObjs w)) else limOf w k)"
  by (auto simp: newEntry_def addLimiter_def limOf_def)

lemma frame_share [simp]:
  "closedLims (shareEntry old key en w) = closedLims w" "limObjs (shareEntry old key en w) = limObjs w"
  "quotaKeysByBaseKey (shareEntry old key en w) = quotaKeysByBaseKey w"
  by (simp_all add: shareEntry_def)

lemma frame_new [simp]:
  "closedLims (newEntry key l w) = closedLims w" "limObjs (newEntry key l w) = limObjs w @ [l]"
  "quotaKeysByBaseKey (newEntry key l w) = quotaKeysByBaseKey w"
  by (simp_all add: newEntry_def addLimiter_def)

lemma liveOk_share: "map_of (byQuotaKey w) key = Some en \<Longrightarrow> liveOk w \<Longrightarrow> liveOk (shareEntry old key en w)"
  by (simp add: liveOk_def limOf_share)

lemma liveOk_new: "liveOk w \<Longrightarrow> liveOk (newEntry key l w)"
  unfolding liveOk_def limOf_new by (auto simp: less_Suc_eq split: if_splits)

lemma countedOk_share: "map_of (byQuotaKey w) key = Some en \<Longrightarrow> countedOk w \<Longrightarrow> countedOk (shareEntry old key en w)"
proof -
  assume en: "map_of (byQuotaKey w) key = Some en" and ok: "countedOk w"
  have "limOf w key \<noteq> None" by (simp add: limOf_def en)
  then have "0 < refs w key" using ok unfolding countedOk_def by (metis order_le_less)
  then show ?thesis using ok unfolding countedOk_def limOf_share [OF en] refs_share [OF en] by auto
qed

lemma countedOk_new: "countedOk w \<Longrightarrow> countedOk (newEntry key l w)"
  unfolding countedOk_def by (auto simp: limOf_new refs_new)

lemma accounted_share: "map_of (byQuotaKey w) key = Some en \<Longrightarrow> accounted w \<Longrightarrow> accounted (shareEntry old key en w)"
  by (simp add: accounted_def limOf_share)

lemma accounted_new:
  assumes "limOf w key = None" "accounted w"
  shows "accounted (newEntry key l w)"
  unfolding accounted_def
proof (intro allI impI)
  fix n assume n: "n < length (limObjs (newEntry key l w))"
  show "n \<in> set (closedLims (newEntry key l w)) \<or> (\<exists>k. limOf (newEntry key l w) k = Some n)"
  proof (cases "n < length (limObjs w)")
    case True
    then consider "n \<in> set (closedLims w)" | k where "limOf w k = Some n" using assms(2) unfolding accounted_def by blast
    then show ?thesis
    proof cases
      case 2
      then have "k \<noteq> key" using assms(1) by auto
      then show ?thesis using 2 by (auto simp: limOf_new)
    qed simp
  next
    case False
    then have "limOf (newEntry key l w) key = Some n" using n by (simp add: limOf_new)
    then show ?thesis by blast
  qed
qed

lemma acquire_inv:
  assumes "acquire create old infos w = (w', out)" "liveOk w" "countedOk w" "\<forall>k \<in> set old. limOf w k \<noteq> None"
  shows "liveOk w' \<and> countedOk w' \<and> (accounted w \<longrightarrow> accounted w') \<and> (\<forall>k. refs w k \<le> refs w' k) \<and>
    (\<forall>k l. limOf w k = Some l \<longrightarrow> limOf w' k = Some l) \<and> closedLims w' = closedLims w \<and> quotaKeysByBaseKey w' = quotaKeysByBaseKey w \<and>
    (\<forall>ls. out = Ret ls \<longrightarrow> map (limOf w') (map fst infos) = map Some ls \<and>
      (\<forall>k. refs w' k = refs w k + (if k \<in> set old then 0 else int (count_list (map fst infos) k))))"
  using assms
proof (induction create old infos w arbitrary: w' out rule: acquire.induct)
  case (2 create old key name conf infos w)
  show ?case
  proof (cases "map_of (byQuotaKey w) key")
    case (Some en)
    let ?w = "shareEntry old key en w"
    obtain out1 where r: "acquire create old infos ?w = (w', out1)" "out = (case out1 of Ret ls \<Rightarrow> Ret (entryLim en # ls) | _ \<Rightarrow> out1)"
      using "2.prems"(1) Some by (auto split: prod.splits outcome.splits)
    have lim: "limOf ?w k = limOf w k" for k by (rule limOf_share [OF Some])
    note ih = "2.IH"(2) [OF Some r(1) liveOk_share [OF Some "2.prems"(2)] countedOk_share [OF Some "2.prems"(3)]]
    have ih': "liveOk w' \<and> countedOk w' \<and> (accounted ?w \<longrightarrow> accounted w') \<and> (\<forall>k. refs ?w k \<le> refs w' k) \<and>
        (\<forall>k l. limOf ?w k = Some l \<longrightarrow> limOf w' k = Some l) \<and> closedLims w' = closedLims ?w \<and> quotaKeysByBaseKey w' = quotaKeysByBaseKey ?w \<and>
        (\<forall>ls. out1 = Ret ls \<longrightarrow> map (limOf w') (map fst infos) = map Some ls \<and>
          (\<forall>k. refs w' k = refs ?w k + (if k \<in> set old then 0 else int (count_list (map fst infos) k))))"
      using ih "2.prems"(4) lim by simp
    have "refs w k \<le> refs ?w k" for k by (simp add: refs_share [OF Some])
    then have le: "refs w k \<le> refs w' k" for k using ih' order_trans by blast
    have "limOf w key = Some (entryLim en)" using Some by (simp add: limOf_def)
    then have "limOf w' key = Some (entryLim en)" using ih' lim by metis
    then show ?thesis using ih' lim le r(2) accounted_share [OF Some, of old]
      by (cases out1) (auto simp: refs_share [OF Some])
  next
    case None
    have n: "limOf w key = None" "refs w key = 0" "key \<notin> set old"
      using None "2.prems"(4) by (auto simp: limOf_def refs_def)
    show ?thesis
    proof (cases "create conf")
      case (Ret l)
      let ?w = "newEntry key l w"
      obtain out1 where r: "acquire create old infos ?w = (w', out1)" "out = (case out1 of Ret ls \<Rightarrow> Ret (length (limObjs w) # ls) | _ \<Rightarrow> out1)"
        using "2.prems"(1) None Ret by (auto split: prod.splits outcome.splits)
      note ih = "2.IH"(1) [OF None Ret r(1) liveOk_new [OF "2.prems"(2)] countedOk_new [OF "2.prems"(3)]]
      have ih': "liveOk w' \<and> countedOk w' \<and> (accounted ?w \<longrightarrow> accounted w') \<and> (\<forall>k. refs ?w k \<le> refs w' k) \<and>
          (\<forall>k l. limOf ?w k = Some l \<longrightarrow> limOf w' k = Some l) \<and> closedLims w' = closedLims ?w \<and> quotaKeysByBaseKey w' = quotaKeysByBaseKey ?w \<and>
          (\<forall>ls. out1 = Ret ls \<longrightarrow> map (limOf w') (map fst infos) = map Some ls \<and>
            (\<forall>k. refs w' k = refs ?w k + (if k \<in> set old then 0 else int (count_list (map fst infos) k))))"
        using ih "2.prems"(4) by (simp add: limOf_new)
      have "refs w k \<le> refs ?w k" for k using n(2) by (simp add: refs_new)
      then have le: "refs w k \<le> refs w' k" for k using ih' order_trans by blast
      have "limOf w' key = Some (length (limObjs w))" using ih' by (simp add: limOf_new)
      moreover have keep: "limOf w' k = Some j" if "limOf w k = Some j" for k j
      proof -
        have "k \<noteq> key" using that n(1) by auto
        then show ?thesis using that ih' by (simp add: limOf_new)
      qed
      ultimately show ?thesis using ih' le n r(2) accounted_new [OF n(1)] by (cases out1) (auto simp: refs_new)
    qed (use "2.prems" None in auto)
  qed
qed simp

lemma acquire_spec:
  assumes "acquire create old infos w = (w', Ret ls)" "distinct (map fst infos)" "liveOk w" "countedOk w"
    and "\<forall>k \<in> set old. limOf w k \<noteq> None"
  shows "liveOk w' \<and> countedOk w' \<and> (\<forall>k. refs w' k = refs w k + (if k \<in> set (map fst infos) \<and> k \<notin> set old then 1 else 0)) \<and>
    (\<forall>k l. limOf w k = Some l \<longrightarrow> limOf w' k = Some l) \<and> map (limOf w') (map fst infos) = map Some ls \<and>
    closedLims w' = closedLims w \<and> quotaKeysByBaseKey w' = quotaKeysByBaseKey w"
proof -
  have "count_list (map fst infos) k = (if k \<in> set (map fst infos) then 1 else 0)" for k
    using assms(2) by (induction infos) auto
  then show ?thesis using acquire_inv [OF assms(1,3,4,5)] by auto
qed

lemma frame_drop [simp]:
  "limObjs (dropEntry k w) = limObjs w" "quotaKeysByBaseKey (dropEntry k w) = quotaKeysByBaseKey w"
  by (simp_all add: dropEntry_def split: option.splits)

lemma drop_spec:
  assumes "liveOk w" "countedOk w" "limOf w key \<noteq> None"
  shows "liveOk (dropEntry key w) \<and> countedOk (dropEntry key w) \<and>
    (\<forall>k. refs (dropEntry key w) k = refs w k - (if k = key then 1 else 0)) \<and>
    (\<forall>k. k \<noteq> key \<longrightarrow> limOf (dropEntry key w) k = limOf w k) \<and> set (closedLims (dropEntry key w)) \<subseteq> insert (the (limOf w key)) (set (closedLims w))"
proof -
  obtain en where en: "map_of (byQuotaKey w) key = Some en" using assms(3) by (auto simp: limOf_def)
  have l: "limOf w key = Some (entryLim en)" "refs w key = refCount en" using en by (simp_all add: limOf_def refs_def)
  have pos: "0 < refCount en" using assms(2,3) l(2) unfolding countedOk_def by (metis order_le_less)
  have r: "refs (dropEntry key w) k = refs w k - (if k = key then 1 else 0)" for k
    using en pos by (auto simp: dropEntry_def refs_def)
  have lim: "limOf (dropEntry key w) k = (if k = key \<and> refCount en = 1 then None else limOf w k)" for k
    using en pos by (auto simp: dropEntry_def limOf_def)
  have cl: "closedLims (dropEntry key w) = (if refCount en = 1 then entryLim en # closedLims w else closedLims w)"
    using en pos by (auto simp: dropEntry_def)
  have "liveOk (dropEntry key w)"
    using assms(1) l(1) unfolding liveOk_def lim cl by (auto split: if_splits)
  moreover have "countedOk (dropEntry key w)"
    using assms(2) l pos unfolding countedOk_def lim r by auto
  ultimately show ?thesis using r lim cl l(1) by auto
qed

lemma release_spec:
  assumes "liveOk w" "countedOk w" "distinct order" "\<forall>k \<in> set order. k \<notin> set desired \<longrightarrow> limOf w k \<noteq> None"
  shows "liveOk (release desired order w) \<and> countedOk (release desired order w) \<and>
    (\<forall>k. refs (release desired order w) k = refs w k - (if k \<in> set order \<and> k \<notin> set desired then 1 else 0)) \<and>
    (\<forall>k \<in> set desired. limOf (release desired order w) k = limOf w k) \<and>
    quotaKeysByBaseKey (release desired order w) = quotaKeysByBaseKey w"
  using assms
proof (induction desired order w rule: release.induct)
  case (2 desired k ks w)
  let ?w = "if k \<in> set desired then w else dropEntry k w"
  have d: "liveOk ?w \<and> countedOk ?w \<and> (\<forall>j. refs ?w j = refs w j - (if j = k \<and> k \<notin> set desired then 1 else 0)) \<and>
      (\<forall>j. j \<noteq> k \<or> k \<in> set desired \<longrightarrow> limOf ?w j = limOf w j) \<and> quotaKeysByBaseKey ?w = quotaKeysByBaseKey w"
    using drop_spec [of w k] "2.prems" by auto
  have "\<forall>j \<in> set ks. j \<notin> set desired \<longrightarrow> limOf ?w j \<noteq> None"
    using d "2.prems"(3,4) by (metis distinct.simps(2) list.set_intros(2))
  with "2.IH" d "2.prems"(3) have ih: "liveOk (release desired ks ?w) \<and> countedOk (release desired ks ?w) \<and>
    (\<forall>j. refs (release desired ks ?w) j = refs ?w j - (if j \<in> set ks \<and> j \<notin> set desired then 1 else 0)) \<and>
    (\<forall>j \<in> set desired. limOf (release desired ks ?w) j = limOf ?w j) \<and>
    quotaKeysByBaseKey (release desired ks ?w) = quotaKeysByBaseKey ?w" by auto
  have "limOf ?w j = limOf w j" if "j \<in> set desired" for j using d that by metis
  then show ?case using ih d "2.prems"(3) by auto
qed simp

lemma accounted_drop:
  assumes "accounted w"
  shows "accounted (dropEntry key w)"
proof -
  show ?thesis
  proof (cases "map_of (byQuotaKey w) key")
    case None
    then show ?thesis using assms by (simp add: dropEntry_def)
  next
    case (Some en)
    show ?thesis
    proof (cases "refCount en - 1 \<le> 0")
      case True
      have d: "dropEntry key w = w\<lparr>byQuotaKey := AList.delete key (byQuotaKey w), closedLims := entryLim en # closedLims w\<rparr>"
        using Some True by (simp add: dropEntry_def)
      have lim: "limOf (dropEntry key w) k = (if k = key then None else limOf w k)" for k by (simp add: d limOf_def)
      have l: "limOf w key = Some (entryLim en)" using Some by (simp add: limOf_def)
      show ?thesis unfolding accounted_def
      proof (intro allI impI)
        fix n assume "n < length (limObjs (dropEntry key w))"
        then have "n \<in> set (closedLims w) \<or> (\<exists>k. limOf w k = Some n)" using assms by (simp add: accounted_def)
        then show "n \<in> set (closedLims (dropEntry key w)) \<or> (\<exists>k. limOf (dropEntry key w) k = Some n)"
          using l unfolding lim by (cases "n = entryLim en") (simp add: d, metis option.inject d set_subset_Cons subsetD select_convs(4) surjective update_convs(4))
      qed
    next
      case False
      then have d: "dropEntry key w = w\<lparr>byQuotaKey := AList.update key (en\<lparr>refCount := refCount en - 1\<rparr>) (byQuotaKey w)\<rparr>"
        using Some by (simp add: dropEntry_def)
      have "limOf (dropEntry key w) k = limOf w k" for k using Some by (cases "k = key") (simp_all add: d limOf_def)
      then show ?thesis using assms by (simp add: accounted_def d)
    qed
  qed
qed

lemma accounted_release: "accounted w \<Longrightarrow> accounted (release desired order w)"
  by (induction desired order w rule: release.induct) (simp_all add: accounted_drop)

lemma finite_holders: "finite (holders w k)"
proof -
  have "holders w k \<subseteq> dom (map_of (quotaKeysByBaseKey w))"
    by (auto simp: holders_def trackedBy_def split: option.splits intro: sym)
  then show ?thesis by (rule finite_subset) (rule finite_dom_map_of)
qed

lemma reconcile_tracked: "reconcile create rk order infos w = (w', Ret ls) \<Longrightarrow> trackedBy w' rk = remdups (map fst infos)"
  by (auto simp: reconcile_def Let_def trackedBy_def split: prod.splits outcome.splits)

lemma tracked_cached:
  assumes "cacheSafe w" "k \<in> set (trackedBy w rk)"
  shows "limOf w k \<noteq> None"
proof -
  have "rk \<in> holders w k" using assms(2) by (simp add: holders_def)
  then have "card (holders w k) \<noteq> 0" using finite_holders by (metis card_0_eq empty_iff)
  moreover have "int (card (holders w k)) \<le> refs w k" using assms(1) by (simp add: cacheSafe_def)
  ultimately have "refs w k \<noteq> 0" by linarith
  then show ?thesis using assms(1) unfolding cacheSafe_def countedOk_def by blast
qed

lemma reconcile_safe:
  assumes ok: "cacheSafe w" and order: "distinct order" "set order = set (trackedBy w rk)"
    and run: "reconcile create rk order infos w = (w', out)"
  shows "cacheSafe w' \<and> (accounted w \<longrightarrow> accounted w') \<and>
    (\<forall>ls. out = Ret ls \<longrightarrow> map (limOf w') (map fst infos) = map Some ls \<and> trackedBy w' rk = remdups (map fst infos))"
proof -
  let ?keys = "map fst infos" let ?old = "trackedBy w rk"
  obtain w1 where a: "acquire create ?old infos w = (w1, out)"
    using run by (auto simp: reconcile_def Let_def split: prod.splits outcome.splits)
  have held: "limOf w k \<noteq> None" if "k \<in> set ?old" for k using tracked_cached [OF ok that] .
  note inv = acquire_inv [OF a]
  have a1: "liveOk w1" "countedOk w1" "accounted w \<Longrightarrow> accounted w1" "\<And>k. refs w k \<le> refs w1 k"
    "\<And>k l. limOf w k = Some l \<Longrightarrow> limOf w1 k = Some l" "quotaKeysByBaseKey w1 = quotaKeysByBaseKey w"
    using inv ok held by (auto simp: cacheSafe_def)
  have h1: "holders w1 k = holders w k" for k by (simp add: holders_def trackedBy_def a1(6))
  show ?thesis
  proof (cases "\<exists>ls. out = Ret ls")
    case False
    then have "w' = w1" using run a by (cases out) (auto simp: reconcile_def)
    then show ?thesis using a1 h1 ok False order_trans unfolding cacheSafe_def by metis
  next
    case True
    then obtain ls where out: "out = Ret ls" by blast
    have w': "w' = (release ?keys order w1)\<lparr>quotaKeysByBaseKey := AList.update rk (remdups ?keys) (quotaKeysByBaseKey (release ?keys order w1))\<rparr>"
      using run a out by (simp add: reconcile_def Let_def)
    have b: "map (limOf w1) ?keys = map Some ls" "\<And>k. refs w1 k = refs w k + (if k \<in> set ?old then 0 else int (count_list ?keys k))"
      using inv ok held out by (auto simp: cacheSafe_def)
    define w2 where "w2 = release ?keys order w1"
    have "\<forall>k \<in> set order. k \<notin> set ?keys \<longrightarrow> limOf w1 k \<noteq> None" using held a1(5) order(2) by (metis not_None_eq)
    from release_spec [OF a1(1,2) order(1) this] have r2: "liveOk w2" "countedOk w2"
      "\<And>k. refs w2 k = refs w1 k - (if k \<in> set order \<and> k \<notin> set ?keys then 1 else 0)"
      "\<And>k. k \<in> set ?keys \<Longrightarrow> limOf w2 k = limOf w1 k" "quotaKeysByBaseKey w2 = quotaKeysByBaseKey w"
      using a1(6) unfolding w2_def by metis+
    have w'2: "refs w' k = refs w2 k" "limOf w' k = limOf w2 k" "closedLims w' = closedLims w2" "limObjs w' = limObjs w2" for k
      by (simp_all add: w' w2_def refs_def limOf_def)
    have track: "trackedBy w' r = (if r = rk then remdups ?keys else trackedBy w r)" for r
      using r2(5) by (simp add: w' trackedBy_def w2_def [symmetric])
    have h: "holders w' k = (holders w k - {rk}) \<union> (if k \<in> set ?keys then {rk} else {})" for k
      by (auto simp: holders_def track)
    have "int (card (holders w' k)) \<le> refs w' k" for k
    proof -
      have in_old: "rk \<in> holders w k \<longleftrightarrow> k \<in> set ?old" by (simp add: holders_def)
      have c: "card (holders w k - {rk}) = card (holders w k) - (if k \<in> set ?old then 1 else 0)"
        using in_old by (simp add: card_Diff_singleton_if)
      have pos: "k \<in> set ?old \<Longrightarrow> 0 < card (holders w k)" using in_old finite_holders card_gt_0_iff by blast
      have c': "card (holders w' k) = card (holders w k - {rk}) + (if k \<in> set ?keys then 1 else 0)"
        unfolding h using finite_holders [of w k] by (simp add: card.insert_remove)
      have one: "k \<in> set ?keys \<Longrightarrow> 1 \<le> count_list ?keys k" by (metis count_list_0_iff not_less_eq_eq One_nat_def le0 le_antisym not_gr0 Suc_leI)
      have old: "int (card (holders w k)) \<le> refs w k" using ok by (simp add: cacheSafe_def)
      show ?thesis using c c' pos one old order(2) unfolding w'2 r2(3) b(2)
        by (cases "k \<in> set ?keys"; cases "k \<in> set ?old") (simp_all del: set_map add: of_nat_diff)
    qed
    moreover have "liveOk w'" "countedOk w'" using r2(1,2) unfolding liveOk_def countedOk_def w'2 by blast+
    moreover have "map (limOf w') ?keys = map Some ls" using b(1) r2(4) by (simp add: w'2 cong: map_cong)
    moreover have "accounted w'" if "accounted w"
      using accounted_release [OF a1(3) [OF that]] unfolding accounted_def w'2 w2_def .
    ultimately show ?thesis using out track by (simp add: cacheSafe_def)
  qed
qed

lemma reconcile_cacheOk:
  assumes ok: "cacheOk w" and keys: "distinct (map fst infos)"
    and order: "distinct order" "set order = set (trackedBy w rk)"
    and run: "reconcile create rk order infos w = (w', Ret ls)"
  shows "cacheOk w' \<and> map (limOf w') (map fst infos) = map Some ls \<and> (\<forall>l \<in> set ls. l \<notin> set (closedLims w'))"
proof -
  let ?keys = "map fst infos" let ?old = "trackedBy w rk"
  obtain w1 where a: "acquire create ?old infos w = (w1, Ret ls)"
    and w': "w' = (release ?keys order w1)\<lparr>quotaKeysByBaseKey := AList.update rk (remdups ?keys) (quotaKeysByBaseKey (release ?keys order w1))\<rparr>"
    using run by (auto simp: reconcile_def Let_def split: prod.splits outcome.splits)
  have held: "limOf w k \<noteq> None" if "k \<in> set ?old" for k
    using tracked_cached [OF cacheOk_safe [OF ok] that] .
  have a1: "liveOk w1" "countedOk w1" "\<And>k. refs w1 k = refs w k + (if k \<in> set ?keys \<and> k \<notin> set ?old then 1 else 0)"
    "\<And>k l. limOf w k = Some l \<Longrightarrow> limOf w1 k = Some l" "map (limOf w1) ?keys = map Some ls" "quotaKeysByBaseKey w1 = quotaKeysByBaseKey w"
    using acquire_spec [OF a keys] ok held by (auto simp: cacheOk_def)
  define w2 where "w2 = release ?keys order w1"
  have "\<forall>k \<in> set order. k \<notin> set ?keys \<longrightarrow> limOf w1 k \<noteq> None" using held a1(4) order(2) by (metis not_None_eq)
  from release_spec [OF a1(1,2) order(1) this] have r2: "liveOk w2" "countedOk w2"
    "\<And>k. refs w2 k = refs w1 k - (if k \<in> set order \<and> k \<notin> set ?keys then 1 else 0)"
    "\<And>k. k \<in> set ?keys \<Longrightarrow> limOf w2 k = limOf w1 k" "quotaKeysByBaseKey w2 = quotaKeysByBaseKey w"
    using a1(6) unfolding w2_def by metis+
  have w'2: "refs w' k = refs w2 k" "limOf w' k = limOf w2 k" "closedLims w' = closedLims w2" "limObjs w' = limObjs w2" for k
    by (simp_all add: w' w2_def refs_def limOf_def)
  have track: "trackedBy w' r = (if r = rk then remdups ?keys else trackedBy w r)" for r
    using r2(5) by (simp add: w' trackedBy_def w2_def [symmetric])
  have h: "holders w' k = (holders w k - {rk}) \<union> (if k \<in> set ?keys then {rk} else {})" for k
    by (auto simp: holders_def track)
  have "int (card (holders w' k)) = int (card (holders w k)) - (if k \<in> set ?old then 1 else 0) + (if k \<in> set ?keys then 1 else 0)" for k
  proof -
    have in_old: "rk \<in> holders w k \<longleftrightarrow> k \<in> set ?old" by (simp add: holders_def)
    have c: "card (holders w k - {rk}) = card (holders w k) - (if k \<in> set ?old then 1 else 0)"
      using in_old by (simp add: card_Diff_singleton_if)
    have pos: "k \<in> set ?old \<Longrightarrow> 0 < card (holders w k)" using in_old finite_holders card_gt_0_iff by blast
    have "card (holders w' k) = card (holders w k - {rk}) + (if k \<in> set ?keys then 1 else 0)"
      unfolding h using finite_holders [of w k] by (simp add: card.insert_remove)
    then show ?thesis using c pos by (auto simp: of_nat_diff)
  qed
  then have "refs w' k = int (card (holders w' k))" for k
    using ok order(2) by (simp add: w'2 r2(3) a1(3) cacheOk_def)
  moreover have "liveOk w'" "countedOk w'" using r2(1,2) unfolding liveOk_def countedOk_def w'2 by blast+
  moreover have lims: "map (limOf w') ?keys = map Some ls" using a1(5) r2(4) by (simp add: w'2 cong: map_cong)
  moreover have "l \<notin> set (closedLims w')" if "l \<in> set ls" for l
  proof -
    have "Some l \<in> set (map (limOf w') ?keys)" using that lims by simp
    then show ?thesis using \<open>liveOk w'\<close> unfolding liveOk_def by fastforce
  qed
  ultimately show ?thesis by (simp add: cacheOk_def)
qed

lemma release_closed_mono: "set (closedLims w) \<subseteq> set (closedLims (release desired order w))"
proof (induction desired order w rule: release.induct)
  case (2 desired k ks w)
  have "set (closedLims w) \<subseteq> set (closedLims (if k \<in> set desired then w else dropEntry k w))"
    by (auto simp: dropEntry_def split: option.splits)
  then show ?case using "2.IH" by auto
qed simp

lemma release_closes:
  assumes "k \<in> set order" "k \<notin> set desired" "distinct order" "limOf w k = Some l" "refs w k = 1"
  shows "l \<in> set (closedLims (release desired order w))"
  using assms
proof (induction desired order w rule: release.induct)
  case (2 desired j ks w)
  let ?w = "if j \<in> set desired then w else dropEntry j w"
  show ?case
  proof (cases "j = k")
    case True
    then have "l \<in> set (closedLims ?w)"
      using "2.prems" by (auto simp: dropEntry_def limOf_def refs_def split: option.splits)
    then show ?thesis using release_closed_mono [of ?w desired ks] by auto
  next
    case False
    then have "limOf ?w k = Some l" "refs ?w k = 1"
      using "2.prems"(4,5) by (auto simp: dropEntry_def limOf_def refs_def split: option.splits)
    then show ?thesis using "2.IH" "2.prems" False by simp
  qed
qed simp

lemma reconcile_closes:
  assumes "cacheOk w" "distinct (map fst infos)" "distinct order" "set order = set (trackedBy w rk)"
    and run: "reconcile create rk order infos w = (w', Ret ls)"
    and k: "k \<in> set (trackedBy w rk)" "k \<notin> set (map fst infos)" "limOf w k = Some l" "refs w k = 1"
  shows "l \<in> set (closedLims w')"
proof -
  obtain w1 where a: "acquire create (trackedBy w rk) infos w = (w1, Ret ls)"
    and w': "closedLims w' = closedLims (release (map fst infos) order w1)"
    using run by (auto simp: reconcile_def Let_def split: prod.splits outcome.splits)
  have "refs w1 k = 1 \<and> limOf w1 k = Some l"
    using acquire_spec [OF a assms(2)] assms(1) tracked_cached [OF cacheOk_safe [OF assms(1)]] k by (auto simp: cacheOk_def)
  then show ?thesis using release_closes [of k order "map fst infos" w1 l] assms(3,4) k w' by simp
qed

text \<open>The cache at the start of the process.\<close>

definition emptyWorld :: "'l world" where
  "emptyWorld = \<lparr>byQuotaKey = [], quotaKeysByBaseKey = [], limObjs = [], closedLims = [],
     redisClients = \<lparr>registered = [], created = 0, closedClients = []\<rparr>\<rparr>"

lemma emptyWorld_ok: "cacheOk emptyWorld"
  by (simp add: emptyWorld_def cacheOk_def liveOk_def countedOk_def limOf_def refs_def holders_def trackedBy_def)

section \<open>Properties\<close>

text \<open>The states of the cache: any builds of policy instances, one after another (the cache has one lock), with
  whatever limiters, outcome and iteration order. The flag says that every build succeeded and none had two quotas
  with one cache key.\<close>

inductive cache_run :: "bool \<Rightarrow> 'l world \<Rightarrow> bool" where
  start: "cache_run True emptyWorld"
| build: "cache_run b w \<Longrightarrow> distinct order \<Longrightarrow> set order = set (trackedBy w rk) \<Longrightarrow> reconcile create rk order infos w = (w', out) \<Longrightarrow>
    cache_run (b \<and> distinct (map fst infos) \<and> (\<exists>ls. out = Ret ls)) w'"

lemma cache_run_inv: "cache_run b w \<Longrightarrow> cacheSafe w \<and> accounted w \<and> (b \<longrightarrow> cacheOk w)"
proof (induction rule: cache_run.induct)
  case start
  show ?case using emptyWorld_ok cacheOk_safe by (auto simp: accounted_def emptyWorld_def)
next
  case (build b w order rk create infos w' out)
  have "cacheSafe w' \<and> accounted w'"
    using reconcile_safe [OF _ build.hyps(2-4)] build.IH by blast
  moreover have "cacheOk w'" if "b" "distinct (map fst infos)" "out = Ret ls" for ls
    using reconcile_cacheOk [OF _ that(2) build.hyps(2,3) build.hyps(4) [unfolded that(3)]] build.IH that(1) by blast
  ultimately show ?case by blast
qed


definition demoConf :: lim_cfg where
  "demoConf = \<lparr>cAlgorithm = '''', cLimits = [], cBackend = '''', cRedisClient = None, cKeyPrefix = '''', cCleanupInterval = 0, cAlgorithmConfig = None\<rparr>"

definition demoFirst :: "unit world" where
  "demoFirst = fst (reconcile (\<lambda>_. Ret ()) ''a'' [] [(''k'', ''q'', demoConf)] emptyWorld)"

lemma demoFirst_run: "cache_run True demoFirst"
proof -
  have "reconcile (\<lambda>_. Ret ()) ''a'' [] [(''k'', ''q'', demoConf)] emptyWorld = (demoFirst, Ret [0])"
    by (simp add: demoFirst_def reconcile_def emptyWorld_def trackedBy_def newEntry_def addLimiter_def)
  then show ?thesis using build [OF start, of "[]" "''a''"] by (force simp: emptyWorld_def trackedBy_def)
qed


end
