(* ===== verification/RatePolicy.thy ===== *)
theory RatePolicy
  imports LimiterCache
begin

text \<open>
  \<^verbatim>\<open>ratelimit.go\<close>: \<^verbatim>\<open>GetPolicy\<close>, which builds an instance of the policy from its parameters. Arguments
  besides those of \<open>LimiterCache\<close>: the outcome of the PING of a Redis client that is created
  (\<open>pingErr\<close>) and the order of iteration over a map with given keys (\<open>iter\<close>). The API identifier and
  version, which the policy only stores, and the logging are left out.
\<close>

record PolicyMetadata =
  mdRouteName :: string
  mdAPIName :: string
  mdAttachedTo :: string

record 'l externs =
  sha256 :: "string \<Rightarrow> string"
  sprintV :: "any \<Rightarrow> string"
  pingResult :: "string option"
  iterOrder :: "string list \<Rightarrow> string list"
  mkLimiter :: "lim_cfg \<Rightarrow> 'l outcome"

section \<open>Parameters\<close>

definition defaultBody :: string where
  "defaultBody = ''{'' @ inDquotes ''error'' @ '': '' @ inDquotes ''Too Many Requests'' @ '', '' @ inDquotes ''message'' @ '': '' @
     inDquotes ''Rate limit exceeded. Please try again later.'' @ ''}''"

definition exceededConfig :: "params \<Rightarrow> int \<times> string \<times> string" where
  "exceededConfig m =
     (case as_map (index m ''onRateLimitExceeded'') of
        None \<Rightarrow> (429, defaultBody, ''json'')
      | Some ex \<Rightarrow>
          (case as_float (index ex ''statusCode'') of Some sc \<Rightarrow> f64_to_int64 sc | None \<Rightarrow> 429,
           case as_str (index ex ''body'') of Some b \<Rightarrow> b | None \<Rightarrow> defaultBody,
           case as_str (index ex ''bodyFormat'') of Some f \<Rightarrow> f | None \<Rightarrow> ''json''))"

definition fillKeyExtraction :: "KeyComponent list \<Rightarrow> QuotaRuntime \<Rightarrow> QuotaRuntime" where
  "fillKeyExtraction global q =
     (if qKeyExtraction q \<noteq> [] then q
      else q\<lparr>qKeyExtraction := if global \<noteq> [] then global
        else [\<lparr>kcType = ''routename'', kcKey = '''', kcExpression = '''', kcFallback = ''''\<rparr>]\<rparr>)"

definition parsePolicyQuotas :: "params \<Rightarrow> QuotaRuntime list outcome" where
  "parsePolicyQuotas m =
     (case parseKeyExtraction (index m ''keyExtraction'') of
        Fail err \<Rightarrow> Fail (''invalid keyExtraction: '' @ err)
      | Panic \<Rightarrow> Panic
      | Ret global \<Rightarrow>
          (case parseQuotas m of
             Fail err \<Rightarrow> Fail err
           | Panic \<Rightarrow> Panic
           | Ret [] \<Rightarrow> Fail ''quotas configuration is required''
           | Ret qs \<Rightarrow> Ret (map (fillKeyExtraction global) qs)))"

section \<open>Backends\<close>

definition redisOptions :: "params \<Rightarrow> redisConnKey" where
  "redisOptions m =
     \<lparr>addr = getStringParam m ''redis.host'' ''localhost'' @ '':'' @ itoa (getIntParam m ''redis.port'' 6379),
      username = getStringParam m ''redis.username'' '''', passwordHash = getStringParam m ''redis.password'' '''',
      db = getIntParam m ''redis.db'' 0, dialTimeout = getDurationParam m ''redis.connectionTimeout'' (5 * Second),
      readTimeout = getDurationParam m ''redis.readTimeout'' (3 * Second),
      writeTimeout = getDurationParam m ''redis.writeTimeout'' (3 * Second), poolSize = getIntParam m ''redis.poolSize'' 0\<rparr>"

definition failOpen :: "params \<Rightarrow> string \<Rightarrow> bool" where
  "failOpen m backnd \<longleftrightarrow> backnd \<notin> {''redis'', ''redis-local-async''} \<or> getStringParam m ''redis.failureMode'' ''open'' = ''open''"

text \<open>The client of a Redis backend. A new client that does not answer is an error only when failing
  closed; it stays registered.\<close>

definition connect :: "'l externs \<Rightarrow> string \<Rightarrow> params \<Rightarrow> 'l world \<Rightarrow> 'l world \<times> nat option outcome" where
  "connect x backnd m w =
     (if backnd \<noteq> ''redis'' \<and> backnd \<noteq> ''redis-local-async'' then (w, Ret None)
      else let (cs, cl, made, err) = getOrCreateRedisClient (sha256 x) (pingResult x) (redisOptions m) (redisClients w);
               w = w\<lparr>redisClients := cs\<rparr>
        in case (made, err) of
             (True, Some e) \<Rightarrow>
               if failOpen m backnd then (w, Ret (Some cl))
               else (w, Fail (''redis connection failed and failureMode=closed: '' @ e))
           | _ \<Rightarrow> (w, Ret (Some cl)))"

definition redisConfig :: "string \<Rightarrow> nat option \<Rightarrow> params \<Rightarrow> QuotaRuntime \<Rightarrow> lim_cfg" where
  "redisConfig algorithm client m q =
     \<lparr>cAlgorithm = algorithm, cLimits = qLimits q, cBackend = ''redis'', cRedisClient = client,
      cKeyPrefix = getStringParam m ''redis.keyPrefix'' ''ratelimit:v1:'', cCleanupInterval = 0, cAlgorithmConfig = None\<rparr>"

definition cachedConfig :: "string \<Rightarrow> string \<Rightarrow> nat option \<Rightarrow> params \<Rightarrow> QuotaRuntime \<Rightarrow> lim_cfg" where
  "cachedConfig algorithm backnd client m q =
     (let conf = \<lparr>cAlgorithm = algorithm, cLimits = qLimits q, cBackend = backnd, cRedisClient = None, cKeyPrefix = '''',
        cCleanupInterval = getDurationParam m ''memory.cleanupInterval'' (5 * Minute), cAlgorithmConfig = None\<rparr> in
      if backnd \<noteq> ''redis-local-async'' then conf
      else conf\<lparr>cRedisClient := client, cKeyPrefix := getStringParam m ''redis.keyPrefix'' ''ratelimit:v1:'',
        cAlgorithmConfig := Some
          [(''syncInterval'', ADur (getDurationParam m ''local.syncInterval'' (50 * Millisecond))),
           (''failOpen'', ABool (failOpen m backnd)),
           (''flushWorkers'', AInt (getIntParam m ''local.flushWorkers'' 0)),
           (''maxPipelineCommands'', AInt (getIntParam m ''local.maxPipelineCommands'' 0)),
           (''maxLocalEntries'', AInt (getIntParam m ''local.maxLocalEntries'' 0))]\<rparr>)"

text \<open>The loop of the Redis backend: one limiter per quota, none of them cached.\<close>

fun createEach :: "(lim_cfg \<Rightarrow> 'l outcome) \<Rightarrow> (string \<times> lim_cfg) list \<Rightarrow> 'l world \<Rightarrow> 'l world \<times> nat list outcome" where
  "createEach create [] w = (w, Ret [])"
| "createEach create ((name, conf) # infos) w =
     (case create conf of
        Fail err \<Rightarrow> (w, Fail (createFailed ''Redis'' name err))
      | Panic \<Rightarrow> (w, Panic)
      | Ret l \<Rightarrow>
          (let (w, n) = addLimiter l w
           in case createEach create infos w of
                (w', Ret ls) \<Rightarrow> (w', Ret (n # ls))
              | (w', out) \<Rightarrow> (w', out)))"

definition indexed :: "(nat \<Rightarrow> 'a \<Rightarrow> 'b) \<Rightarrow> 'a list \<Rightarrow> 'b list" where
  "indexed f xs = map (\<lambda>i. f i (xs ! i)) [0..<length xs]"

definition quotaInfos :: "'l externs \<Rightarrow> string \<Rightarrow> string \<Rightarrow> string \<Rightarrow> string \<Rightarrow> nat option \<Rightarrow> params \<Rightarrow> QuotaRuntime list
    \<Rightarrow> (string \<times> string \<times> lim_cfg) list" where
  "quotaInfos x base api algorithm backnd client m qs =
     indexed (\<lambda>i q. (getQuotaCacheKey (sha256 x) base api q i, quotaNameFor q i, cachedConfig algorithm backnd client m q)) qs"

definition acquireLimiters :: "'l externs \<Rightarrow> PolicyMetadata \<Rightarrow> string \<Rightarrow> string \<Rightarrow> string \<Rightarrow> nat option \<Rightarrow> params \<Rightarrow> QuotaRuntime list \<Rightarrow> 'l world
    \<Rightarrow> 'l world \<times> nat list outcome" where
  "acquireLimiters x md route algorithm backnd client m qs w =
     (if backnd = ''redis'' then
        createEach (mkLimiter x) (indexed (\<lambda>i q. (quotaNameFor q i, redisConfig algorithm client m q)) qs) w
      else
        let base = getBaseCacheKey (sha256 x) (sprintV x) route (mdAPIName md) algorithm backnd m;
            rk = reconcileKeyFor base (mdAttachedTo md)
        in reconcile (mkLimiter x) rk (iterOrder x (trackedBy w rk))
             (quotaInfos x base (mdAPIName md) algorithm backnd client m qs) w)"

section \<open>The factory\<close>

definition componentId :: "KeyComponent \<Rightarrow> string" where
  "componentId c = kcType c @ kcKey c"

fun instanceText :: "QuotaRuntime list \<Rightarrow> string" where
  "instanceText [] = ''''"
| "instanceText [q] = qName q @ '':'' @ concat (map componentId (qKeyExtraction q))"
| "instanceText (q # qs) = qName q @ '':'' @ concat (map componentId (qKeyExtraction q)) @ ''|'' @ instanceText qs"

definition routeOrDefault :: "PolicyMetadata \<Rightarrow> string" where
  "routeOrDefault md = (if mdRouteName md = '''' then ''unknown-route'' else mdRouteName md)"

definition mkPolicy :: "'l externs \<Rightarrow> PolicyMetadata \<Rightarrow> string \<Rightarrow> params \<Rightarrow> QuotaRuntime list \<Rightarrow> RateLimitPolicy" where
  "mkPolicy x md backnd m qs =
     (let (status, body, format) = exceededConfig m in
      \<lparr>quotas = qs, routeName = routeOrDefault md, instanceID = take 8 (sha256 x (instanceText qs)),
       statusCode = status, responseBody = body, responseFormat = format, backend = backnd,
       redisFailOpen = failOpen m backnd, includeXRL = getBoolParam m ''headers.includeXRateLimit'' True,
       includeIETF = getBoolParam m ''headers.includeIETF'' True, includeRetry = getBoolParam m ''headers.includeRetryAfter'' True\<rparr>)"

definition GetPolicy :: "'l externs \<Rightarrow> PolicyMetadata \<Rightarrow> params \<Rightarrow> 'l world \<Rightarrow> 'l world \<times> RateLimitPolicy outcome" where
  "GetPolicy x md m w =
     (let algorithm = getStringParam m ''algorithm'' ''fixed-window''; backnd = getStringParam m ''backend'' ''memory'' in
      case parsePolicyQuotas m of
        Fail err \<Rightarrow> (w, Fail err)
      | Panic \<Rightarrow> (w, Panic)
      | Ret qs \<Rightarrow>
          (case connect x backnd m w of
             (w, Fail err) \<Rightarrow> (w, Fail err)
           | (w, Panic) \<Rightarrow> (w, Panic)
           | (w, Ret client) \<Rightarrow>
               (case acquireLimiters x md (routeOrDefault md) algorithm backnd client m qs w of
                  (w, Fail err) \<Rightarrow> (w, Fail err)
                | (w, Panic) \<Rightarrow> (w, Panic)
                | (w, Ret ls) \<Rightarrow> (w, Ret (mkPolicy x md backnd m (map2 (\<lambda>q l. q\<lparr>qLimiter := l\<rparr>) qs ls))))))"

section \<open>Lemmas\<close>

lemma fillKeyExtraction_wf:
  "quotaWf q \<Longrightarrow> \<forall>c \<in> set g. keyWf c \<Longrightarrow> quotaWf (fillKeyExtraction g q) \<and> qKeyExtraction (fillKeyExtraction g q) \<noteq> []"
  by (auto simp: fillKeyExtraction_def quotaWf_def keyWf_def)

lemma parsePolicyQuotas_wf:
  assumes "parsePolicyQuotas m = Ret qs"
  shows "qs \<noteq> [] \<and> (\<forall>q \<in> set qs. quotaWf q \<and> qKeyExtraction q \<noteq> [])"
proof -
  from assms obtain g ps where p: "parseKeyExtraction (index m ''keyExtraction'') = Ret g" "parseQuotas m = Ret ps" "ps \<noteq> []"
    "qs = map (fillKeyExtraction g) ps"
    by (auto simp: parsePolicyQuotas_def split: outcome.splits list.splits)
  have "\<forall>c \<in> set g. keyWf c" using parseKeyExtraction_wf [OF p(1)] by blast
  moreover have "quotaWf q" if "q \<in> set ps" for q
  proof -
    obtain items where "parseAll parseQuota 0 items = Ret ps"
      using p(2,3) that by (auto simp: parseQuotas_def split: option.splits any.splits)
    then show ?thesis using parseAll_elements [of parseQuota 0 items ps q] that parseQuota_wf by blast
  qed
  ultimately show ?thesis using fillKeyExtraction_wf p(3,4) by auto
qed

lemma connect_frame:
  "connect x backnd m w = (w', out) \<Longrightarrow> byQuotaKey w' = byQuotaKey w \<and> quotaKeysByBaseKey w' = quotaKeysByBaseKey w \<and>
     limObjs w' = limObjs w \<and> closedLims w' = closedLims w"
  by (auto simp: connect_def Let_def split: prod.splits if_splits bool.splits option.splits)

lemma cacheOk_cong:
  "byQuotaKey w' = byQuotaKey w \<Longrightarrow> quotaKeysByBaseKey w' = quotaKeysByBaseKey w \<Longrightarrow> closedLims w' = closedLims w \<Longrightarrow>
   length (limObjs w) \<le> length (limObjs w') \<Longrightarrow> cacheOk w \<Longrightarrow> cacheOk w'"
  unfolding cacheOk_def liveOk_def countedOk_def limOf_def refs_def holders_def trackedBy_def
  by (auto intro: less_le_trans)

lemma cacheSafe_cong:
  "byQuotaKey w' = byQuotaKey w \<Longrightarrow> quotaKeysByBaseKey w' = quotaKeysByBaseKey w \<Longrightarrow> closedLims w' = closedLims w \<Longrightarrow>
   length (limObjs w) \<le> length (limObjs w') \<Longrightarrow> cacheSafe w \<Longrightarrow> cacheSafe w'"
  unfolding cacheSafe_def liveOk_def countedOk_def limOf_def refs_def holders_def trackedBy_def
  by (auto intro: less_le_trans)

lemma createEach_frame:
  "createEach create infos w = (w', Ret ls) \<Longrightarrow>
   byQuotaKey w' = byQuotaKey w \<and> quotaKeysByBaseKey w' = quotaKeysByBaseKey w \<and> closedLims w' = closedLims w \<and>
   length (limObjs w') = length (limObjs w) + length infos \<and> ls = [length (limObjs w)..<length (limObjs w) + length infos]"
proof (induction create infos w arbitrary: w' ls rule: createEach.induct)
  case (2 create name conf infos w)
  obtain l ls1 where c: "create conf = Ret l" and r: "createEach create infos (fst (addLimiter l w)) = (w', Ret ls1)"
    "ls = length (limObjs w) # ls1"
    using "2.prems" by (auto simp: addLimiter_def split: outcome.splits prod.splits)
  have up: "[n..<n + length ((name, conf) # infos)] = n # [Suc n..<Suc n + length infos]" for n
    by (simp add: upt_conv_Cons del: upt_Suc)
  from "2.IH" [OF c, of "addLimiter l w" "fst (addLimiter l w)" "length (limObjs w)"] r(1)
  have "byQuotaKey w' = byQuotaKey w \<and> quotaKeysByBaseKey w' = quotaKeysByBaseKey w \<and> closedLims w' = closedLims w \<and>
    length (limObjs w') = Suc (length (limObjs w)) + length infos \<and> ls1 = [Suc (length (limObjs w))..<Suc (length (limObjs w)) + length infos]"
    by (simp add: addLimiter_def)
  then show ?case unfolding r(2) up by simp
qed simp

lemma indexed_length [simp]: "length (indexed f xs) = length xs"
  by (simp add: indexed_def)

definition isPermOf :: "(string list \<Rightarrow> string list) \<Rightarrow> bool" where
  "isPermOf f \<longleftrightarrow> (\<forall>ks. distinct (f ks) \<and> set (f ks) = set ks)"

abbreviation algoOf :: "params \<Rightarrow> string" where "algoOf m \<equiv> getStringParam m ''algorithm'' ''fixed-window''"
abbreviation backendOf :: "params \<Rightarrow> string" where "backendOf m \<equiv> getStringParam m ''backend'' ''memory''"

definition baseKeyOf :: "'l externs \<Rightarrow> PolicyMetadata \<Rightarrow> params \<Rightarrow> string" where
  "baseKeyOf x md m = getBaseCacheKey (sha256 x) (sprintV x) (routeOrDefault md) (mdAPIName md) (algoOf m) (backendOf m) m"

definition cacheKeys :: "'l externs \<Rightarrow> PolicyMetadata \<Rightarrow> params \<Rightarrow> QuotaRuntime list \<Rightarrow> string list" where
  "cacheKeys x md m qs = indexed (\<lambda>i q. getQuotaCacheKey (sha256 x) (baseKeyOf x md m) (mdAPIName md) q i) qs"

lemma GetPolicy_cases:
  assumes "GetPolicy x md m w = (w', Ret p)"
  obtains qs w1 client ls where "parsePolicyQuotas m = Ret qs" "connect x (backendOf m) m w = (w1, Ret client)"
    "acquireLimiters x md (routeOrDefault md) (algoOf m) (backendOf m) client m qs w1 = (w', Ret ls)"
    "p = mkPolicy x md (backendOf m) m (map2 (\<lambda>q l. q\<lparr>qLimiter := l\<rparr>) qs ls)"
  using assms by (auto simp: GetPolicy_def Let_def split: outcome.splits prod.splits)

lemma acquireLimiters_cached:
  assumes "acquireLimiters x md (routeOrDefault md) (algoOf m) (backendOf m) client m qs w = (w', Ret ls)" "backendOf m \<noteq> ''redis''"
  shows "\<exists>infos. map fst infos = cacheKeys x md m qs \<and>
    (let rk = reconcileKeyFor (baseKeyOf x md m) (mdAttachedTo md)
     in reconcile (mkLimiter x) rk (iterOrder x (trackedBy w rk)) infos w = (w', Ret ls))"
  using assms by (auto simp: acquireLimiters_def Let_def quotaInfos_def cacheKeys_def indexed_def baseKeyOf_def comp_def intro!: exI)

lemma quotas_mkPolicy [simp]: "quotas (mkPolicy x md backnd m qs) = qs"
  by (simp add: mkPolicy_def split: prod.splits)

lemma acquireLimiters_sound:
  assumes ok: "cacheSafe w" and iter: "isPermOf (iterOrder x)"
    and run: "acquireLimiters x md (routeOrDefault md) (algoOf m) (backendOf m) client m qs w = (w', Ret ls)"
  shows "cacheSafe w' \<and> (\<forall>l \<in> set ls. l < length (limObjs w') \<and> l \<notin> set (closedLims w')) \<and> length ls = length qs \<and>
    (cacheOk w \<and> (backendOf m = ''redis'' \<or> distinct (cacheKeys x md m qs)) \<longrightarrow> cacheOk w')"
proof (cases "backendOf m = ''redis''")
  case True
  then have "createEach (mkLimiter x) (indexed (\<lambda>i q. (quotaNameFor q i, redisConfig (algoOf m) client m q)) qs) w = (w', Ret ls)"
    using run by (simp add: acquireLimiters_def)
  from createEach_frame [OF this] have f: "byQuotaKey w' = byQuotaKey w" "quotaKeysByBaseKey w' = quotaKeysByBaseKey w"
    "closedLims w' = closedLims w" "length (limObjs w') = length (limObjs w) + length qs"
    "ls = [length (limObjs w)..<length (limObjs w) + length qs]" by simp_all
  have "cacheSafe w'" "cacheOk w \<Longrightarrow> cacheOk w'" using cacheSafe_cong [OF f(1,2,3) _ ok] cacheOk_cong [OF f(1,2,3)] f(4) by simp_all
  moreover have "l < length (limObjs w)" if "l \<in> set (closedLims w)" for l
    using ok that unfolding cacheSafe_def liveOk_def by blast
  ultimately show ?thesis using f by fastforce
next
  case False
  define rk where "rk = reconcileKeyFor (baseKeyOf x md m) (mdAttachedTo md)"
  obtain infos where i: "map fst infos = cacheKeys x md m qs"
    and r: "reconcile (mkLimiter x) rk (iterOrder x (trackedBy w rk)) infos w = (w', Ret ls)"
    using acquireLimiters_cached [OF run False] unfolding rk_def Let_def by blast
  have o: "distinct (iterOrder x (trackedBy w rk))" "set (iterOrder x (trackedBy w rk)) = set (trackedBy w rk)"
    using iter unfolding isPermOf_def by auto
  have c: "cacheSafe w'" "map (limOf w') (map fst infos) = map Some ls" using reconcile_safe [OF ok o r] by blast+
  have exact: "cacheOk w'" if "cacheOk w" "distinct (cacheKeys x md m qs)"
    using reconcile_cacheOk [OF that(1) _ o r] that(2) i by simp
  have "l < length (limObjs w') \<and> l \<notin> set (closedLims w')" if "l \<in> set ls" for l
  proof -
    have "Some l \<in> set (map (limOf w') (map fst infos))" using that c(2) by simp
    then obtain k where "limOf w' k = Some l" by auto
    then show ?thesis using c(1) unfolding cacheSafe_def liveOk_def by blast
  qed
  moreover have "length ls = length qs"
    using arg_cong [OF c(2), of length] arg_cong [OF i, of length] by (simp add: cacheKeys_def)
  ultimately show ?thesis using c exact False by blast
qed

section \<open>Any outcome\<close>

text \<open>Whatever the outcome of a build, the cache stays sound and keeps the limiters there are.\<close>

lemma createEach_any:
  "createEach create infos w = (w', out) \<Longrightarrow> byQuotaKey w' = byQuotaKey w \<and> quotaKeysByBaseKey w' = quotaKeysByBaseKey w \<and>
     closedLims w' = closedLims w \<and> length (limObjs w) \<le> length (limObjs w')"
proof (induction create infos w arbitrary: w' out rule: createEach.induct)
  case (2 create name conf infos w)
  show ?case
  proof (cases "create conf")
    case (Ret l)
    obtain v o1 where v: "createEach create infos (w\<lparr>limObjs := limObjs w @ [l]\<rparr>) = (v, o1)" by (metis prod.collapse)
    then have "w' = v" using "2.prems" Ret by (auto simp: addLimiter_def split: outcome.splits)
    moreover have "byQuotaKey v = byQuotaKey w \<and> quotaKeysByBaseKey v = quotaKeysByBaseKey w \<and> closedLims v = closedLims w \<and>
        Suc (length (limObjs w)) \<le> length (limObjs v)"
      using "2.IH" [OF Ret _ _ v, of "(w\<lparr>limObjs := limObjs w @ [l]\<rparr>, length (limObjs w))" "length (limObjs w)"] by (simp add: addLimiter_def)
    ultimately show ?thesis by simp
  qed (use "2.prems" in auto)
qed simp

lemma GetPolicy_safe:
  assumes "cacheSafe w" "isPermOf (iterOrder x)" "GetPolicy x md m w = (w', out)"
  shows "cacheSafe w'"
proof (cases "parsePolicyQuotas m")
  case (Ret qs)
  obtain v cl where v: "connect x (backendOf m) m w = (v, cl)" by (metis prod.collapse)
  have safe: "cacheSafe v" using connect_frame [OF v] cacheSafe_cong [of v w] assms(1) by simp
  show ?thesis
  proof (cases cl)
    case (Ret client)
    obtain u ls where u: "acquireLimiters x md (routeOrDefault md) (algoOf m) (backendOf m) client m qs v = (u, ls)" by (metis prod.collapse)
    have w': "w' = u" using assms(3) \<open>parsePolicyQuotas m = Ret qs\<close> v Ret u by (cases ls) (simp_all add: GetPolicy_def Let_def)
    show ?thesis
    proof (cases "backendOf m = ''redis''")
      case True
      then show ?thesis using u createEach_any cacheSafe_cong [of u v] safe w' by (fastforce simp: acquireLimiters_def)
    next
      case False
      obtain rk infos where "reconcile (mkLimiter x) rk (iterOrder x (trackedBy v rk)) infos v = (u, ls)"
        using u False by (auto simp: acquireLimiters_def Let_def)
      then show ?thesis using reconcile_safe [OF safe] assms(2) w' unfolding isPermOf_def by blast
    qed
  qed (use assms(3) Ret v safe in \<open>simp_all add: GetPolicy_def Let_def\<close>)
qed (use assms in \<open>simp_all add: GetPolicy_def Let_def\<close>)

lemma lookupPath_cong:
  "index m' (hd ks) = index m (hd ks) \<Longrightarrow> lookupPath m' ks = lookupPath m ks"
  by (cases "(m, ks)" rule: lookupPath.cases) auto

text \<open>The base cache key has nothing of the quotas.\<close>

lemma param_cong:
  assumes "\<And>k. k \<noteq> ''quotas'' \<Longrightarrow> index m' k = index m k" "hd (dotted key) \<noteq> ''quotas''"
  shows "getStringParam m' key s = getStringParam m key s" "getIntParam m' key i = getIntParam m key i"
    "getBoolParam m' key b = getBoolParam m key b" "getDurationParam m' key d = getDurationParam m key d"
  using lookupPath_cong [OF assms(1) [OF assms(2)]]
  by (simp_all add: getStringParam_def getIntParam_def getBoolParam_def getDurationParam_def)

lemma baseKeyOf_cong:
  assumes "\<And>k. k \<noteq> ''quotas'' \<Longrightarrow> index m' k = index m k"
  shows "baseKeyOf x md m' = baseKeyOf x md m" "backendOf m' = backendOf m"
proof -
  show "backendOf m' = backendOf m" using param_cong [OF assms, of "''backend''"] by (simp add: dotted_def split_on.simps)
  then show "baseKeyOf x md m' = baseKeyOf x md m"
    unfolding baseKeyOf_def getBaseCacheKey_def
    using assms [of "''onRateLimitExceeded''"] by (simp add: param_cong [OF assms] dotted_def split_on.simps)
qed

section \<open>Properties\<close>

text \<open>C8: the factory builds a policy its phases can run. When \<^verbatim>\<open>GetPolicy\<close> succeeds, on any backend and
  from any state of the cache that builds reach, the policy has quotas, each well formed and with a key to
  extract, and each with a limiter that exists and is open; and the cache stays sound: cached limiters are open, and
  no count is below the number of reconcile keys that track the cache key. If two quotas do not share a cache key,
  exact counts stay exact.\<close>
theorem get_policy_sound:
  assumes "cacheSafe w" "isPermOf (iterOrder x)" "GetPolicy x md m w = (w', Ret p)"
  shows "cacheSafe w' \<and> quotas p \<noteq> [] \<and>
    (\<forall>q \<in> set (quotas p). quotaWf q \<and> qKeyExtraction q \<noteq> [] \<and> qLimiter q < length (limObjs w') \<and> qLimiter q \<notin> set (closedLims w')) \<and>
    (cacheOk w \<and> (backendOf m = ''redis'' \<or> distinct (cacheKeys x md m (quotas p))) \<longrightarrow> cacheOk w')"
proof -
  obtain qs w1 client ls where g: "parsePolicyQuotas m = Ret qs" "connect x (backendOf m) m w = (w1, Ret client)"
    "acquireLimiters x md (routeOrDefault md) (algoOf m) (backendOf m) client m qs w1 = (w', Ret ls)"
    "p = mkPolicy x md (backendOf m) m (map2 (\<lambda>q l. q\<lparr>qLimiter := l\<rparr>) qs ls)"
    using GetPolicy_cases [OF assms(3)] by metis
  have w1: "cacheSafe w1" "cacheOk w \<Longrightarrow> cacheOk w1"
    using connect_frame [OF g(2)] cacheSafe_cong [of w1 w] cacheOk_cong [of w1 w] assms(1) by simp_all
  note sound = acquireLimiters_sound [OF w1(1) assms(2) g(3)]
  have a: "cacheSafe w'" "\<forall>l \<in> set ls. l < length (limObjs w') \<and> l \<notin> set (closedLims w')" "length ls = length qs"
    using sound by blast+
  have "cacheKeys x md m (quotas p) = cacheKeys x md m qs"
    using a(3) g(4) by (simp add: cacheKeys_def indexed_def getQuotaCacheKey_def hasKeyType_def)
  then have exact: "cacheOk w \<and> (backendOf m = ''redis'' \<or> distinct (cacheKeys x md m (quotas p))) \<longrightarrow> cacheOk w'"
    using sound w1(2) by auto
  have "quotaWf (q\<lparr>qLimiter := l\<rparr>) \<longleftrightarrow> quotaWf q" for q l by (simp add: quotaWf_def)
  then have "quotaWf q \<and> qKeyExtraction q \<noteq> [] \<and> qLimiter q \<in> set ls" if "q \<in> set (quotas p)" for q
    using that parsePolicyQuotas_wf [OF g(1)] g(4) by (auto dest: set_zip_leftD set_zip_rightD)
  moreover have "quotas p \<noteq> []" using parsePolicyQuotas_wf [OF g(1)] g(4) a(3) by (cases qs; cases ls) auto
  ultimately show ?thesis using a(1,2) exact by blast
qed

definition demoExterns :: "unit externs" where
  "demoExterns = \<lparr>sha256 = (\<lambda>s. s), sprintV = (\<lambda>_. ''''), pingResult = None, iterOrder = remdups, mkLimiter = (\<lambda>_. Ret ())\<rparr>"

definition demoMd :: PolicyMetadata where
  "demoMd = \<lparr>mdRouteName = ''r'', mdAPIName = ''api'', mdAttachedTo = ''route''\<rparr>"

definition demoParams :: "string \<Rightarrow> params" where
  "demoParams name = [(''quotas'', AArr [AMap [(''name'', AStr name), (''limits'', AArr [AMap [(''limit'', AFloat (Fin 5)), (''duration'', AStr ''0'')]])]])]"

definition demoQuota :: "string \<Rightarrow> QuotaRuntime" where
  "demoQuota name = \<lparr>qName = name, qLimits = [\<lparr>lcLimit = 5, lcDuration = 0, lcBurst = 5\<rparr>],
     qKeyExtraction = [\<lparr>kcType = ''routename'', kcKey = '''', kcExpression = '''', kcFallback = ''''\<rparr>], qLimiter = 0,
     qCostExtractor = None, qCostExtractionEnabled = False\<rparr>"

lemma demo_quotas: "parsePolicyQuotas (demoParams name) = Ret [demoQuota name]"
  by (simp add: demoParams_def demoQuota_def parsePolicyQuotas_def parseQuotas_def parseQuota_def parseLimits_def parseLimit_def
      parseSingleLimit_def ParseDuration_def index_def parseKeyExtraction_def fillKeyExtraction_def
      parseCostExtractionConfig_def strField_def rat_trunc_def int64_def)

lemma demo_backend: "backendOf (demoParams name) = ''memory''"
  by (simp add: getStringParam_def dotted_def split_on.simps demoParams_def index_def)

lemma demo_iter: "isPermOf (iterOrder demoExterns)"
  by (simp add: demoExterns_def isPermOf_def)

definition demoBuilt :: "unit world" where
  "demoBuilt = fst (GetPolicy demoExterns demoMd (demoParams ''a'') emptyWorld)"

definition builtPolicy :: RateLimitPolicy where
  "builtPolicy = mkPolicy demoExterns demoMd ''memory'' (demoParams ''a'') [demoQuota ''a'']"

lemma demo_built: "GetPolicy demoExterns demoMd (demoParams ''a'') emptyWorld = (demoBuilt, Ret builtPolicy)"
proof -
  have "\<exists>w. GetPolicy demoExterns demoMd (demoParams ''a'') emptyWorld = (w, Ret builtPolicy)"
    unfolding GetPolicy_def demo_quotas demo_backend Let_def connect_def acquireLimiters_def quotaInfos_def indexed_def builtPolicy_def
    by (simp add: reconcile_def emptyWorld_def trackedBy_def newEntry_def addLimiter_def demoExterns_def demoQuota_def)
  then show ?thesis unfolding demoBuilt_def by auto
qed

theorem get_policy_sound_witness:
  "GetPolicy demoExterns demoMd (demoParams ''a'') emptyWorld = (demoBuilt, Ret builtPolicy) \<and> cacheOk demoBuilt \<and>
   quotas builtPolicy = [demoQuota ''a''] \<and> quotaWf (demoQuota ''a'') \<and> qLimiter (demoQuota ''a'') \<notin> set (closedLims demoBuilt)"
proof -
  have "quotas builtPolicy = [demoQuota ''a'']" by (simp add: builtPolicy_def)
  moreover have "cacheOk (emptyWorld :: unit world)" by (rule emptyWorld_ok)
  ultimately show ?thesis
    using get_policy_sound [OF cacheOk_safe [OF emptyWorld_ok] demo_iter demo_built] demo_built by (simp add: cacheKeys_def indexed_def)
qed

lemma GetPolicy_reconciles:
  assumes "cacheOk w" "GetPolicy x md m w = (w', Ret p)" "parsePolicyQuotas m = Ret qs" "backendOf m \<noteq> ''redis''"
  defines "rk \<equiv> reconcileKeyFor (baseKeyOf x md m) (mdAttachedTo md)"
  obtains infos ls wc where "map fst infos = cacheKeys x md m qs" "cacheOk wc" "closedLims wc = closedLims w"
    "byQuotaKey wc = byQuotaKey w" "quotaKeysByBaseKey wc = quotaKeysByBaseKey w"
    "reconcile (mkLimiter x) rk (iterOrder x (trackedBy wc rk)) infos wc = (w', Ret ls)"
    "quotas p = map2 (\<lambda>q l. q\<lparr>qLimiter := l\<rparr>) qs ls"
proof -
  obtain wc client ls where g: "connect x (backendOf m) m w = (wc, Ret client)"
    "acquireLimiters x md (routeOrDefault md) (algoOf m) (backendOf m) client m qs wc = (w', Ret ls)"
    "p = mkPolicy x md (backendOf m) m (map2 (\<lambda>q l. q\<lparr>qLimiter := l\<rparr>) qs ls)"
    using GetPolicy_cases [OF assms(2)] assms(3) by (metis outcome.inject(1))
  have f: "byQuotaKey wc = byQuotaKey w" "quotaKeysByBaseKey wc = quotaKeysByBaseKey w" "limObjs wc = limObjs w" "closedLims wc = closedLims w"
    using connect_frame [OF g(1)] by auto
  have "cacheOk wc" using f cacheOk_cong [of wc w] assms(1) by simp
  then show thesis using acquireLimiters_cached [OF g(2) assms(4)] that f g(3) unfolding rk_def Let_def by auto
qed

lemma GetPolicy_cached:
  assumes "cacheOk w" "isPermOf (iterOrder x)" "GetPolicy x md m w = (w', Ret p)" "backendOf m \<noteq> ''redis''"
    and "parsePolicyQuotas m = Ret qs" "distinct (cacheKeys x md m qs)"
  shows "cacheOk w'" "set (trackedBy w' (reconcileKeyFor (baseKeyOf x md m) (mdAttachedTo md))) = set (cacheKeys x md m qs)"
    "i < length qs \<Longrightarrow> limOf w' (cacheKeys x md m qs ! i) = Some (qLimiter (quotas p ! i))"
proof -
  define rk where "rk = reconcileKeyFor (baseKeyOf x md m) (mdAttachedTo md)"
  obtain infos ls wc where r: "map fst infos = cacheKeys x md m qs" "cacheOk wc"
    "reconcile (mkLimiter x) rk (iterOrder x (trackedBy wc rk)) infos wc = (w', Ret ls)"
    "quotas p = map2 (\<lambda>q l. q\<lparr>qLimiter := l\<rparr>) qs ls"
    using GetPolicy_reconciles [OF assms(1,3,5,4)] unfolding rk_def by metis
  have o: "distinct (iterOrder x (trackedBy wc rk))" "set (iterOrder x (trackedBy wc rk)) = set (trackedBy wc rk)"
    using assms(2) unfolding isPermOf_def by auto
  have c: "cacheOk w' \<and> map (limOf w') (cacheKeys x md m qs) = map Some ls"
    using reconcile_cacheOk [OF r(2) _ o r(3)] r(1) assms(6) by simp
  then show "cacheOk w'" by blast
  show "set (trackedBy w' (reconcileKeyFor (baseKeyOf x md m) (mdAttachedTo md))) = set (cacheKeys x md m qs)"
    using reconcile_tracked [OF r(3)] r(1) unfolding rk_def by (metis set_remdups)
  assume i: "i < length qs"
  have len: "length ls = length qs" using c by (metis cacheKeys_def indexed_length length_map)
  then show "limOf w' (cacheKeys x md m qs ! i) = Some (qLimiter (quotas p ! i))"
    using i c r(4) nth_map [of i "cacheKeys x md m qs" "limOf w'"] by (simp add: cacheKeys_def)
qed

text \<open>An instance is known by its route, its level and its shared parameters only. When a second policy
  is built with other quotas but the same metadata and otherwise the same parameters, it is taken for a new
  version of the first: a limiter of the first that nothing else holds is closed, although the first policy
  may still be in use.\<close>
lemma GetPolicy_evicts:
  assumes "cacheOk w" "isPermOf (iterOrder x)" "GetPolicy x md m w = (w1, Ret p)" "GetPolicy x md m' w1 = (w2, Ret p')"
    and "\<forall>k. k \<noteq> ''quotas'' \<longrightarrow> index m' k = index m k" "backendOf m \<noteq> ''redis''"
    and "parsePolicyQuotas m = Ret qs" "parsePolicyQuotas m' = Ret qs'"
    and "distinct (cacheKeys x md m qs)" "distinct (cacheKeys x md m' qs')"
    and "i < length qs" "cacheKeys x md m qs ! i \<notin> set (cacheKeys x md m' qs')" "refs w1 (cacheKeys x md m qs ! i) = 1"
  shows "qLimiter (quotas p ! i) \<in> set (closedLims w2)"
proof -
  define rk where "rk = reconcileKeyFor (baseKeyOf x md m) (mdAttachedTo md)"
  define key where "key = cacheKeys x md m qs ! i"
  note built = GetPolicy_cached [OF assms(1,2,3,6,7,9), folded rk_def]
  have backnd: "backendOf m' \<noteq> ''redis''" and base: "baseKeyOf x md m' = baseKeyOf x md m"
    using baseKeyOf_cong(1) [of m' m x md] baseKeyOf_cong(2) [of m' m] assms(5,6) by simp_all
  obtain infos ls wc where r: "map fst infos = cacheKeys x md m' qs'" "cacheOk wc" "closedLims wc = closedLims w1"
    "byQuotaKey wc = byQuotaKey w1" "quotaKeysByBaseKey wc = quotaKeysByBaseKey w1"
    "reconcile (mkLimiter x) rk (iterOrder x (trackedBy wc rk)) infos wc = (w2, Ret ls)"
    using GetPolicy_reconciles [OF _ assms(4,8) backnd] built(1) unfolding rk_def base by metis
  have t: "trackedBy wc rk = trackedBy w1 rk" "limOf wc key = limOf w1 key" "refs wc key = refs w1 key"
    using r(4,5) by (simp_all add: trackedBy_def limOf_def refs_def)
  have "key \<in> set (trackedBy w1 rk)" "limOf w1 key = Some (qLimiter (quotas p ! i))"
    using built(2,3) assms(11) by (simp_all add: key_def cacheKeys_def)
  then show ?thesis
    using reconcile_closes [OF r(2) _ _ _ r(6), of key] assms(2,10,12,13) r(1) t unfolding isPermOf_def key_def by auto
qed

text \<open>A quota whose key nothing held before is held by its instance only.\<close>

lemma acquire_tracked: "acquire create old infos w = (w', out) \<Longrightarrow> quotaKeysByBaseKey w' = quotaKeysByBaseKey w"
proof (induction create old infos w arbitrary: w' out rule: acquire.induct)
  case (2 create old key name conf infos w)
  show ?case
  proof (cases "map_of (byQuotaKey w) key")
    case (Some en)
    obtain v o1 where v: "acquire create old infos (shareEntry old key en w) = (v, o1)" by (metis prod.collapse)
    then show ?thesis using "2.IH"(2) [OF Some v] "2.prems" Some by (auto split: outcome.splits)
  next
    case None
    show ?thesis
    proof (cases "create conf")
      case (Ret l)
      obtain v o1 where v: "acquire create old infos (newEntry key l w) = (v, o1)" by (metis prod.collapse)
      then show ?thesis using "2.IH"(1) [OF None Ret v] "2.prems" None Ret by (auto split: outcome.splits)
    qed (use "2.prems" None in auto)
  qed
qed simp

lemma release_tracked: "quotaKeysByBaseKey (release desired ks w) = quotaKeysByBaseKey w"
  by (induction desired ks w rule: release.induct) (simp_all add: dropEntry_def split: option.splits)

lemma reconcile_tracked_other:
  assumes "reconcile create rk order infos w = (w', Ret ls)" "rk' \<noteq> rk"
  shows "trackedBy w' rk' = trackedBy w rk'"
proof -
  obtain w1 where a: "acquire create (trackedBy w rk) infos w = (w1, Ret ls)"
    "quotaKeysByBaseKey w' = AList.update rk (remdups (map fst infos)) (quotaKeysByBaseKey (release (map fst infos) order w1))"
    using assms(1) by (auto simp: reconcile_def Let_def split: prod.splits outcome.splits)
  show ?thesis using a(2) assms(2) acquire_tracked [OF a(1)] by (simp add: trackedBy_def release_tracked)
qed

lemma GetPolicy_fresh:
  assumes "cacheOk w" "isPermOf (iterOrder x)" "GetPolicy x md m w = (w', Ret p)" "backendOf m \<noteq> ''redis''"
    and "parsePolicyQuotas m = Ret qs" "distinct (cacheKeys x md m qs)" "k \<in> set (cacheKeys x md m qs)" "limOf w k = None"
  shows "refs w' k = 1"
proof -
  define rk where "rk = reconcileKeyFor (baseKeyOf x md m) (mdAttachedTo md)"
  note built = GetPolicy_cached [OF assms(1-6), folded rk_def]
  obtain infos ls wc where r: "quotaKeysByBaseKey wc = quotaKeysByBaseKey w"
    "reconcile (mkLimiter x) rk (iterOrder x (trackedBy wc rk)) infos wc = (w', Ret ls)"
    using GetPolicy_reconciles [OF assms(1,3,5,4)] unfolding rk_def by metis
  have "k \<notin> set (trackedBy w rk')" for rk' using tracked_cached [OF cacheOk_safe [OF assms(1)]] assms(8) by blast
  then have "k \<notin> set (trackedBy w' rk')" if "rk' \<noteq> rk" for rk'
    using reconcile_tracked_other [OF r(2) that] r(1) by (simp add: trackedBy_def)
  then have "holders w' k = {rk}" using built(2) assms(7) by (auto simp: holders_def)
  then show ?thesis using built(1) by (simp add: cacheOk_def)
qed

text \<open>In memory, a policy whose quotas parse is built.\<close>

lemma acquire_total: "\<exists>w' ls. acquire (\<lambda>_. Ret l) old infos w = (w', Ret ls)"
proof (induction infos arbitrary: w)
  case (Cons info infos)
  obtain key name conf where i: "info = (key, name, conf)" by (cases info)
  show ?case
  proof (cases "map_of (byQuotaKey w) key")
    case (Some en)
    obtain w' ls where "acquire (\<lambda>_. Ret l) old infos (shareEntry old key en w) = (w', Ret ls)" using Cons.IH by blast
    then show ?thesis using i Some by simp
  next
    case None
    obtain w' ls where "acquire (\<lambda>_. Ret l) old infos (newEntry key l w) = (w', Ret ls)" using Cons.IH by blast
    then show ?thesis using i None by simp
  qed
qed simp

lemma GetPolicy_total:
  assumes "parsePolicyQuotas m = Ret qs" "backendOf m = ''memory''"
  shows "\<exists>w' p. GetPolicy demoExterns md m w = (w', Ret p)"
proof -
  have "\<exists>w' ls. reconcile (\<lambda>_. Ret ()) rk order infos w = (w', Ret ls)" for rk order infos
    using acquire_total [of "()" "trackedBy w rk" infos w] by (auto simp: reconcile_def Let_def)
  then have "\<exists>w' ls. acquireLimiters demoExterns md (routeOrDefault md) (algoOf m) (backendOf m) None m qs w = (w', Ret ls)"
    using assms(2) by (simp add: acquireLimiters_def Let_def demoExterns_def)
  moreover have "connect demoExterns (backendOf m) m w = (w, Ret None)" using assms(2) by (simp add: connect_def)
  ultimately show ?thesis using assms(1) by (auto simp: GetPolicy_def Let_def)
qed

end
