(* ===== verification/BasicRateLimit.thy ===== *)
theory BasicRateLimit
  imports RatePolicy QuotaResponse
begin

text \<open>
  The policy \<^verbatim>\<open>basic-ratelimit\<close>: one quota with the configured limits, built by the rate limiter's
  \<^verbatim>\<open>GetPolicy\<close> and kept as a delegate, to which the two header hooks are forwarded. The facts about quotas
  built from parameters serve the other policies that delegate too. The attachment level is compared with
  a constant of the SDK, the parameter \<open>levelAPI\<close>.
\<close>

section \<open>Parameters\<close>

definition copied :: "string list \<Rightarrow> params \<Rightarrow> params" where
  "copied ks m = List.map_filter (\<lambda>k. map_option (Pair k) (map_of m k)) ks"

definition passedThrough :: "params \<Rightarrow> params" where
  "passedThrough m = copied [''algorithm'', ''backend'', ''redis'', ''memory'', ''local''] m"

definition keyTypeFor :: "string \<Rightarrow> string \<Rightarrow> string" where
  "keyTypeFor levelAPI attachedTo = (if attachedTo = levelAPI then ''apiname'' else ''routename'')"

definition translateLimit :: "any \<Rightarrow> any" where
  "translateLimit entry =
     (case as_map entry of
        None \<Rightarrow> entry
      | Some m \<Rightarrow>
          (case map_of m ''requests'' of
             None \<Rightarrow> entry
           | Some requests \<Rightarrow> AMap (AList.delete ''requests'' (AList.update ''limit'' requests m))))"

definition basic_transformToRatelimitParams :: "string \<Rightarrow> params \<Rightarrow> PolicyMetadata \<Rightarrow> params" where
  "basic_transformToRatelimitParams levelAPI m md =
     (let limits = (case as_arr (index m ''limits'') of Some l \<Rightarrow> l | None \<Rightarrow> []) in
      (''quotas'', AArr [AMap [(''name'', AStr ''default''), (''limits'', AArr (map translateLimit limits)),
         (''keyExtraction'', AArr [AMap [(''type'', AStr (keyTypeFor levelAPI (mdAttachedTo md)))]])]]) # passedThrough m)"

section \<open>Operations\<close>

definition basic_GetPolicy :: "'l externs \<Rightarrow> string \<Rightarrow> PolicyMetadata \<Rightarrow> params \<Rightarrow> 'l world \<Rightarrow> 'l world \<times> RateLimitPolicy outcome" where
  "basic_GetPolicy x levelAPI md m w = GetPolicy x md (basic_transformToRatelimitParams levelAPI m md) w"

text \<open>The body modes of the request and of the response.\<close>

definition basic_Mode :: "body_mode \<times> body_mode" where
  "basic_Mode = (BodyModeSkip, BodyModeSkip)"

definition basic_OnRequestHeaders :: "'l lim_ops \<Rightarrow> extern \<Rightarrow> RateLimitPolicy \<Rightarrow> (nat \<Rightarrow> env) \<Rightarrow> request \<Rightarrow> meta \<Rightarrow> 'l list
    \<Rightarrow> 'l list \<times> meta \<times> unit verdict" where
  "basic_OnRequestHeaders ops ex delegate es rq m lims = OnRequestHeaders ops ex delegate es rq m lims"

definition basic_OnResponseHeaders :: "'l lim_ops \<Rightarrow> extern \<Rightarrow> RateLimitPolicy \<Rightarrow> (nat \<Rightarrow> env) \<Rightarrow> response \<Rightarrow> meta \<Rightarrow> 'l list
    \<Rightarrow> 'l list \<times> meta \<times> response_action" where
  "basic_OnResponseHeaders ops ex delegate es rs m lims = OnResponseHeaders ops ex delegate es rs m lims"

section \<open>Quotas built from parameters\<close>

lemma parseQuota_fields:
  assumes "parseQuota i (AMap m) = Ret q"
  shows "qName q = strField m ''name'' \<and> parseLimits (index m ''limits'') = Ret (qLimits q) \<and>
    parseKeyExtraction (index m ''keyExtraction'') = Ret (qKeyExtraction q) \<and>
    (\<exists>ce. parseCostExtractionConfig (index m ''costExtraction'') = Ret ce \<and>
      qCostExtractor q = (case ce of Some c \<Rightarrow> if Enabled c then Some c else None | None \<Rightarrow> None)) \<and>
    (qCostExtractionEnabled q \<longleftrightarrow> qCostExtractor q \<noteq> None)"
  using assms by (auto simp: parseQuota_def Let_def index_def split: option.splits outcome.splits list.splits)

lemma costOf_extractor: "qCostExtractionEnabled q \<longleftrightarrow> qCostExtractor q \<noteq> None \<Longrightarrow> costOf q = qCostExtractor q"
  by (auto simp: costOf_def)

text \<open>The key components of a delegate: an attachment level, then perhaps the application.\<close>

definition component :: "string \<Rightarrow> string \<Rightarrow> string \<Rightarrow> KeyComponent" where
  "component t k fb = \<lparr>kcType = t, kcKey = k, kcExpression = '''', kcFallback = fb\<rparr>"

lemma parse_level:
  "parseKeyExtraction (AArr [AMap [(''type'', AStr (keyTypeFor l a))]]) = Ret [component (keyTypeFor l a) '''' '''']"
  by (simp add: parseKeyExtraction_def parseKeyComponent_def index_def optField_def keyTypeFor_def component_def)

lemma fill_nonempty: "qKeyExtraction q \<noteq> [] \<Longrightarrow> fillKeyExtraction g q = q"
  by (simp add: fillKeyExtraction_def)

lemma acquire_length: "acquire create old infos w = (w', Ret ls) \<Longrightarrow> length ls = length infos"
  by (induction create old infos w arbitrary: w' ls rule: acquire.induct) (auto split: option.splits outcome.splits prod.splits)

lemma createEach_length: "createEach create infos w = (w', Ret ls) \<Longrightarrow> length ls = length infos"
  using createEach_frame by fastforce

lemma GetPolicy_quotas:
  assumes "GetPolicy x md m w = (w', Ret d)" "index m ''keyExtraction'' = ANil" "map_of m ''quotas'' = Some (AArr raws)"
  obtains ps ls where "parseAll parseQuota 0 raws = Ret ps" "length ls = length ps"
    "quotas d = map2 (\<lambda>q l. (fillKeyExtraction [] q)\<lparr>qLimiter := l\<rparr>) ps ls" "routeName d = routeOrDefault md"
    "backend d = backendOf m" "redisFailOpen d = failOpen m (backendOf m)"
proof -
  obtain qs w1 client ls where g: "parsePolicyQuotas m = Ret qs"
    "acquireLimiters x md (routeOrDefault md) (algoOf m) (backendOf m) client m qs w1 = (w', Ret ls)"
    "d = mkPolicy x md (backendOf m) m (map2 (\<lambda>q l. q\<lparr>qLimiter := l\<rparr>) qs ls)"
    using GetPolicy_cases [OF assms(1)] by metis
  obtain ps where p: "parseAll parseQuota 0 raws = Ret ps" "qs = map (fillKeyExtraction []) ps"
    using g(1) assms(2,3)
    by (auto simp: parsePolicyQuotas_def parseKeyExtraction_def parseQuotas_def split: outcome.splits list.splits)
  have "length ls = length qs"
    using g(2) by (auto simp: acquireLimiters_def Let_def quotaInfos_def reconcile_def split: if_splits prod.splits outcome.splits
      dest!: acquire_length createEach_length)
  then show thesis using that [of ps ls] p g(3) by (simp add: mkPolicy_def Let_def zip_map1 comp_def case_prod_unfold)
qed

lemma copied_lookup: "map_of (copied ks m) k = (if k \<in> set ks then map_of m k else None)"
  by (induction ks) (auto simp: copied_def List.map_filter_simps split: option.splits)

lemma passedThrough_other: "map_of (passedThrough m) ''keyExtraction'' = None"
  by (simp add: passedThrough_def copied_lookup)

lemma translated_limit:
  assumes "parseLimit i (translateLimit (AMap e)) = Ret l" "map_of e ''requests'' = Some (AFloat n)"
  shows "lcLimit l = f64_to_int64 n"
  using assms by (auto simp: parseLimit_def translateLimit_def AList.delete_conv' AList.update_conv' parseSingleLimit_def Let_def
    split: option.splits outcome.splits if_splits)

lemma parseAll_nth: "parseAll f i raws = Ret vs \<Longrightarrow> j < length raws \<Longrightarrow> f (i + j) (raws ! j) = Ret (vs ! j)"
proof (induction raws arbitrary: i j vs)
  case (Cons r raws)
  from Cons.prems(1) obtain w ws where p: "f i r = Ret w" "parseAll f (Suc i) raws = Ret ws" "vs = w # ws"
    by (auto split: outcome.splits)
  show ?case using Cons.IH [OF p(2)] Cons.prems(2) p by (cases j) auto
qed simp

lemma parseAll_from:
  assumes "parseAll f i raws = Ret vs" "v \<in> set vs"
  shows "\<exists>j raw. raw \<in> set raws \<and> f j raw = Ret v"
proof -
  obtain j where j: "j < length vs" "v = vs ! j" using assms(2) by (auto simp: in_set_conv_nth)
  then have "j < length raws" using parseAll_length [OF assms(1)] by simp
  then show ?thesis using parseAll_nth [OF assms(1), of j] j(2) nth_mem by metis
qed

lemma basic_quota:
  assumes "basic_GetPolicy x levelAPI md m w = (w', Ret d)" "as_arr (index m ''limits'') = Some limits"
  shows "\<exists>q. quotas d = [q] \<and> qName q = ''default'' \<and> costOf q = None \<and>
    qKeyExtraction q = [component (keyTypeFor levelAPI (mdAttachedTo md)) '''' ''''] \<and>
    parseAll parseLimit 0 (map translateLimit limits) = Ret (qLimits q) \<and> routeName d = routeOrDefault md"
proof -
  let ?m = "basic_transformToRatelimitParams levelAPI m md"
  let ?q = "[(''name'', AStr ''default''), (''limits'', AArr (map translateLimit limits)),
         (''keyExtraction'', AArr [AMap [(''type'', AStr (keyTypeFor levelAPI (mdAttachedTo md)))]])]"
  have m: "index ?m ''keyExtraction'' = ANil" "map_of ?m ''quotas'' = Some (AArr [AMap ?q])"
    using assms(2) by (simp_all add: basic_transformToRatelimitParams_def index_def passedThrough_other)
  obtain ps ls where g: "parseAll parseQuota 0 [AMap ?q] = Ret ps" "length ls = length ps"
    "quotas d = map2 (\<lambda>q l. (fillKeyExtraction [] q)\<lparr>qLimiter := l\<rparr>) ps ls" "routeName d = routeOrDefault md"
    using GetPolicy_quotas [OF assms(1) [unfolded basic_GetPolicy_def] m] by metis
  obtain q where q: "ps = [q]" "parseQuota 0 (AMap ?q) = Ret q" using g(1) by (auto split: outcome.splits)
  note f = parseQuota_fields [OF q(2)]
  have k: "qKeyExtraction q = [component (keyTypeFor levelAPI (mdAttachedTo md)) '''' '''']"
    using f by (simp add: index_def parse_level)
  moreover have "costOf q = None" using f by (auto simp: index_def costOf_def parseCostExtractionConfig_def)
  moreover have "parseAll parseLimit 0 (map translateLimit limits) = Ret (qLimits q)" "qName q = ''default''"
    using f by (simp_all add: index_def parseLimits_def strField_def)
  ultimately show ?thesis using g q(1) by (cases ls) (auto simp: fill_nonempty costOf_def)
qed

section \<open>Properties\<close>

text \<open>A request to a route with \<^verbatim>\<open>basic-ratelimit\<close> is charged one, once. A policy that is built has one
  quota, whose limits are the configured numbers of requests; it needs no body, as the mode it declares;
  and its request hook charges one to the key of the API or of the route, according to the level the
  policy is attached to, and lets the request pass exactly if the limiter grants it, or if Redis fails and
  the policy fails open.\<close>
lemma basic_charges_one:
  assumes "basic_GetPolicy x levelAPI md m w = (w', Ret d)" "as_arr (index m ''limits'') = Some limits"
    and "opAllowN ops (es 0) (lims ! qLimiter (hd (quotas d))) (if mdAttachedTo md = levelAPI then rqAPIName rq else routeOrDefault md) 1 = (s', out)"
    and "j < length limits" "limits ! j = AMap e" "map_of e ''requests'' = Some (AFloat n)"
  shows "length (quotas d) = 1 \<and> length (qLimits (hd (quotas d))) = length limits \<and> lcLimit (qLimits (hd (quotas d)) ! j) = f64_to_int64 n \<and>
    Mode d = basic_Mode \<and>
    fst (basic_OnRequestHeaders ops ex d es rq md' lims) = lims[qLimiter (hd (quotas d)) := s'] \<and>
    (snd (snd (basic_OnRequestHeaders ops ex d es rq md' lims)) = Proceed () \<longleftrightarrow>
      (case out of Ret r \<Rightarrow> Allowed r | Fail _ \<Rightarrow> redisBacked d \<and> redisFailOpen d | Panic \<Rightarrow> False))"
proof -
  obtain q where q: "quotas d = [q]" "costOf q = None" "qKeyExtraction q = [component (keyTypeFor levelAPI (mdAttachedTo md)) '''' '''']"
    "parseAll parseLimit 0 (map translateLimit limits) = Ret (qLimits q)" "routeName d = routeOrDefault md"
    using basic_quota [OF assms(1,2)] by metis
  have cel: "\<not> hasCELKey q" by (simp add: hasCELKey_def q(3) component_def keyTypeFor_def)
  have "extractQuotaKeyFromHeaderCtx d (withMeta rq md') q = (if mdAttachedTo md = levelAPI then rqAPIName rq else routeOrDefault md)"
    by (simp add: extractQuotaKeyFromHeaderCtx_def quotaKey_def q(3,5) component_def keyTypeFor_def extractKeyComponentFromHeaderCtx_def withMeta_def)
  then have "opAllowN ops (es 0) (lims ! qLimiter q) (extractQuotaKeyFromHeaderCtx d (withMeta rq md') q) 1 = (s', out)"
    using assms(3) q(1) by simp
  note hook = single_quota_charge [where es = es, OF q(1,2) cel this]
  have "parseLimit j (translateLimit (AMap e)) = Ret (qLimits q ! j)" using parseAll_nth [OF q(4), of j] assms(4,5) by simp
  then have "lcLimit (qLimits q ! j) = f64_to_int64 n" by (rule translated_limit [OF _ assms(6)])
  moreover have "Mode d = basic_Mode"
    by (simp add: Mode_def basic_Mode_def requiresRequestBody_def requiresAnyResponseBodyMode_def q(1,2) cel)
  moreover have "length (qLimits q) = length limits" using parseAll_length [OF q(4)] by simp
  ultimately show ?thesis using hook q(1) unfolding basic_OnRequestHeaders_def by simp
qed

definition basicParams :: params where
  "basicParams = [(''limits'', AArr [AMap [(''requests'', AFloat (Fin 5)), (''duration'', AStr ''0'')]])]"

definition grantOps :: "unit lim_ops" where
  "grantOps = \<lparr>opAllowN = (\<lambda>e s key n. (s, Ret (result_zero\<lparr>Allowed := True\<rparr>))), opGetAvailable = (\<lambda>e s key. Ret 1),
     opClampN = (\<lambda>e s key n. (s, Ret result_zero)), opConsumeN = None\<rparr>"

lemma basicParams_parsed:
  "parsePolicyQuotas (basic_transformToRatelimitParams ''api'' basicParams demoMd) = Ret [demoQuota ''default'']"
  "backendOf (basic_transformToRatelimitParams ''api'' basicParams demoMd) = ''memory''"
  by (simp_all add: basic_transformToRatelimitParams_def basicParams_def passedThrough_def copied_def List.map_filter_simps translateLimit_def
    demoMd_def keyTypeFor_def demoQuota_def parsePolicyQuotas_def parseQuotas_def parseQuota_def parseLimits_def parseLimit_def
    parseSingleLimit_def ParseDuration_def index_def parseKeyExtraction_def parseKeyComponent_def optField_def fillKeyExtraction_def
    parseCostExtractionConfig_def strField_def rat_trunc_def int64_def getStringParam_def dotted_def split_on.simps)

text \<open>\<open>basic_charges_one\<close> for five requests, on a limiter that grants.\<close>
lemma basic_charges_one_example:
  "\<exists>w' d. basic_GetPolicy demoExterns ''api'' demoMd basicParams emptyWorld = (w', Ret d) \<and> lcLimit (qLimits (hd (quotas d)) ! 0) = 5 \<and>
     snd (snd (basic_OnRequestHeaders grantOps demoExtern d (\<lambda>_. \<lparr>clock = 0, sys_now = 0\<rparr>) demoRequest [] [()])) = Proceed ()"
proof -
  obtain w' d where g: "basic_GetPolicy demoExterns ''api'' demoMd basicParams emptyWorld = (w', Ret d)"
    unfolding basic_GetPolicy_def using GetPolicy_total [OF basicParams_parsed] by blast
  have "as_arr (index basicParams ''limits'') = Some [AMap [(''requests'', AFloat (Fin 5)), (''duration'', AStr ''0'')]]"
    by (simp add: basicParams_def index_def)
  from basic_charges_one [OF g this, where ops = grantOps and es = "\<lambda>_. \<lparr>clock = 0, sys_now = 0\<rparr>" and lims = "[()]" and j = 0]
  show ?thesis using g by (simp add: grantOps_def int64_def rat_trunc_def)
qed

end
