(* ===== verification/TokenRateLimit.thy ===== *)
theory TokenRateLimit
  imports BasicRateLimit
begin

text \<open>
  The policy \<^verbatim>\<open>token-based-ratelimit\<close>: limits on the tokens a language model reports. The template of the
  provider says where the numbers are; the policy turns limits and template into the parameters of the
  rate limiter, builds a delegate for each provider, rebuilds it when the template changes, and forwards
  the hooks to it. The resource store is a parameter that gives a resource, none, or an error; so are
  \<^verbatim>\<open>json.Marshal\<close>, SHA-256 and the clock readings of the random string. A rebuild of a delegate runs without
  another in between; what two at a time can do is shown below.
\<close>

section \<open>Parameters\<close>

definition sourceConfig :: "string \<Rightarrow> string \<Rightarrow> any" where
  "sourceConfig location path =
     (if location = ''header'' then AMap [(''type'', AStr ''request_header''), (''key'', AStr path)]
      else if location = ''metadata'' then AMap [(''type'', AStr ''metadata''), (''key'', AStr path)]
      else AMap [(''type'', AStr ''response_body''), (''jsonPath'', AStr path)])"

definition resolveCostSource :: "params \<Rightarrow> string \<Rightarrow> any option" where
  "resolveCostSource spec templateKey =
     (case as_map (index spec templateKey) of
        None \<Rightarrow> None
      | Some usage \<Rightarrow>
          (case as_str (index usage ''identifier'') of
             None \<Rightarrow> None
           | Some path \<Rightarrow> if path = '''' then None else Some (sourceConfig (strField usage ''location'') path)))"

text \<open>The sources of the first group of template fields that has any.\<close>

fun groupSources :: "params \<Rightarrow> string list list \<Rightarrow> any list" where
  "groupSources spec [] = []"
| "groupSources spec (g # gs) =
     (case List.map_filter (resolveCostSource spec) g of [] \<Rightarrow> groupSources spec gs | srcs \<Rightarrow> srcs)"

definition convertLimits :: "any \<Rightarrow> any list" where
  "convertLimits raw =
     (case as_arr raw of
        None \<Rightarrow> []
      | Some items \<Rightarrow>
          List.map_filter (\<lambda>item. map_option (\<lambda>m. AMap [(''limit'', index m ''count''), (''duration'', index m ''duration'')]) (as_map item)) items)"

definition consumerKeys :: "string \<Rightarrow> params \<Rightarrow> any list" where
  "consumerKeys keyType m =
     AMap [(''type'', AStr keyType)] #
     (if as_bool (index m ''consumerBased'') = Some True
      then [AMap [(''type'', AStr ''metadata''), (''key'', AStr ''x-wso2-application-id''), (''fallback'', AStr ''default'')]] else [])"

definition addQuota :: "params \<Rightarrow> params \<Rightarrow> any list \<Rightarrow> string \<Rightarrow> string \<Rightarrow> string list list \<Rightarrow> any list" where
  "addQuota m template keys name limitsKey groups =
     (case convertLimits (index m limitsKey) of
        [] \<Rightarrow> []
      | limits \<Rightarrow>
          let srcs = (case as_map (index template ''spec'') of None \<Rightarrow> [] | Some spec \<Rightarrow> groupSources spec groups) in
          [AMap ([(''name'', AStr name), (''limits'', AArr limits), (''keyExtraction'', AArr keys)] @
            (if srcs = [] then [] else [(''costExtraction'', AMap [(''enabled'', ABool True), (''sources'', AArr srcs)])]))])"

definition tokenQuotas :: "params \<Rightarrow> params \<Rightarrow> any list \<Rightarrow> any list" where
  "tokenQuotas m template keys =
     addQuota m template keys ''prompt_tokens'' ''promptTokenLimits'' [[''promptTokens'']] @
     addQuota m template keys ''completion_tokens'' ''completionTokenLimits'' [[''completionTokens'']] @
     addQuota m template keys ''total_tokens'' ''totalTokenLimits'' [[''totalTokens''], [''promptTokens'', ''completionTokens'']]"

definition token_transformToRatelimitParams :: "string \<Rightarrow> params \<Rightarrow> params \<Rightarrow> string \<Rightarrow> params" where
  "token_transformToRatelimitParams levelAPI m template attachedTo =
     (''quotas'', AArr (tokenQuotas m template (consumerKeys (keyTypeFor levelAPI attachedTo) m))) # passedThrough m"

section \<open>Delegates\<close>

record token_policy =
  tkMetadata :: PolicyMetadata
  tkDelegates :: "(string, RateLimitPolicy) gomap"
  tkCacheKeys :: "(string, string) gomap"

definition token_GetPolicy :: "PolicyMetadata \<Rightarrow> token_policy" where
  "token_GetPolicy md = \<lparr>tkMetadata = md, tkDelegates = [], tkCacheKeys = []\<rparr>"

definition charset :: string where "charset = ''abcdefghijklmnopqrstuvwxyz0123456789''"

text \<open>A random string, from a reading of the clock (nanoseconds) for each character.\<close>

definition randomString :: "(nat \<Rightarrow> int) \<Rightarrow> nat \<Rightarrow> string" where
  "randomString nanos n = map (\<lambda>i. charset ! nat (nanos i mod 36)) [0..<n]"

definition computeResourceHash :: "(any \<Rightarrow> string option) \<Rightarrow> (string \<Rightarrow> string) \<Rightarrow> (nat \<Rightarrow> int) \<Rightarrow> any \<Rightarrow> string" where
  "computeResourceHash marshal sha nanos resource =
     (case marshal resource of None \<Rightarrow> ''error-'' @ randomString nanos 8 | Some data \<Rightarrow> take 16 (sha data))"

text \<open>The template of a provider: the mapping of the provider names it.\<close>

definition templateOf :: "(string \<Rightarrow> string \<Rightarrow> params option outcome) \<Rightarrow> string \<Rightarrow> params option outcome" where
  "templateOf getResource provider =
     (case getResource provider ''ProviderTemplateMapping'' of
        Fail err \<Rightarrow> Fail err
      | Panic \<Rightarrow> Panic
      | Ret None \<Rightarrow> Ret None
      | Ret (Some mapping) \<Rightarrow>
          (case as_str (index mapping ''template_handle'') of
             None \<Rightarrow> Ret None
           | Some handle \<Rightarrow> if handle = '''' then Ret None else getResource handle ''LlmProviderTemplate''))"

record 'l token_state =
  tsPolicy :: token_policy
  tsWorld :: "'l world"
  tsMeta :: meta

text \<open>A delegate and the cache key it was built for are stored one after the other, in two maps.\<close>

definition storeDelegate :: "string \<Rightarrow> RateLimitPolicy \<Rightarrow> token_policy \<Rightarrow> token_policy" where
  "storeDelegate provider d p = p\<lparr>tkDelegates := AList.update provider d (tkDelegates p)\<rparr>"

definition storeCacheKey :: "string \<Rightarrow> string \<Rightarrow> token_policy \<Rightarrow> token_policy" where
  "storeCacheKey provider cacheKey p = p\<lparr>tkCacheKeys := AList.update provider cacheKey (tkCacheKeys p)\<rparr>"

text \<open>The delegate of a provider; none when it has no template.\<close>

definition token_resolveDelegate :: "'l externs \<Rightarrow> string \<Rightarrow> (string \<Rightarrow> string \<Rightarrow> params option outcome) \<Rightarrow> (any \<Rightarrow> string) \<Rightarrow> string \<Rightarrow> params
    \<Rightarrow> 'l token_state \<Rightarrow> 'l token_state \<times> RateLimitPolicy option outcome" where
  "token_resolveDelegate x levelAPI getResource hash provider m s =
     (case templateOf getResource provider of
        Fail err \<Rightarrow> (s, Fail err)
      | Panic \<Rightarrow> (s, Panic)
      | Ret None \<Rightarrow> (s, Ret None)
      | Ret (Some template) \<Rightarrow>
          let p = tsPolicy s; cacheKey = provider @ '':'' @ hash (AMap template) in
          case (map_of (tkDelegates p) provider, map_of (tkCacheKeys p) provider = Some cacheKey) of
            (Some d, True) \<Rightarrow> (s, Ret (Some d))
          | _ \<Rightarrow>
              (case GetPolicy x (tkMetadata p) (token_transformToRatelimitParams levelAPI m template (mdAttachedTo (tkMetadata p))) (tsWorld s) of
                 (w, Ret d) \<Rightarrow>
                   (s\<lparr>tsPolicy := storeCacheKey provider cacheKey (storeDelegate provider d p), tsWorld := w\<rparr>, Ret (Some d))
               | (w, Fail err) \<Rightarrow> (s\<lparr>tsWorld := w\<rparr>, Fail err)
               | (w, Panic) \<Rightarrow> (s\<lparr>tsWorld := w\<rparr>, Panic)))"

section \<open>Hooks\<close>

definition token_Mode :: "body_mode \<times> body_mode" where
  "token_Mode = (BodyModeSkip, BodyModeStream)"

definition providerName :: "meta \<Rightarrow> string" where
  "providerName md = (case as_str (index (paramsOf md) ''provider_name'') of Some p \<Rightarrow> p | None \<Rightarrow> '''')"

text \<open>An action that does not block and no action are both \<open>Proceed\<close>.\<close>

definition token_OnRequestHeaders :: "'l externs \<Rightarrow> 'l lim_ops \<Rightarrow> extern \<Rightarrow> string \<Rightarrow> (string \<Rightarrow> string \<Rightarrow> params option outcome) \<Rightarrow> (any \<Rightarrow> string)
    \<Rightarrow> (nat \<Rightarrow> env) \<Rightarrow> request \<Rightarrow> params \<Rightarrow> 'l token_state \<Rightarrow> 'l token_state \<times> unit verdict" where
  "token_OnRequestHeaders x ops ex levelAPI getResource hash es rq m s =
     (if providerName (tsMeta s) = '''' then (s, Proceed ())
      else case token_resolveDelegate x levelAPI getResource hash (providerName (tsMeta s)) m s of
        (s, Panic) \<Rightarrow> (s, Crashed)
      | (s, Fail _) \<Rightarrow> (s, Proceed ())
      | (s, Ret None) \<Rightarrow> (s, Proceed ())
      | (s, Ret (Some d)) \<Rightarrow>
          (let (lims, md, out) = OnRequestHeaders ops ex d es rq (tsMeta s) (limObjs (tsWorld s))
           in (s\<lparr>tsWorld := (tsWorld s)\<lparr>limObjs := lims\<rparr>, tsMeta := md\<rparr>, out)))"

definition delegateOf :: "'l token_state \<Rightarrow> RateLimitPolicy option" where
  "delegateOf s = (if providerName (tsMeta s) = '''' then None else map_of (tkDelegates (tsPolicy s)) (providerName (tsMeta s)))"

definition token_OnResponseHeaders :: "'l lim_ops \<Rightarrow> extern \<Rightarrow> (nat \<Rightarrow> env) \<Rightarrow> response \<Rightarrow> 'l token_state \<Rightarrow> 'l token_state \<times> response_action" where
  "token_OnResponseHeaders ops ex es rs s =
     (case delegateOf s of
        None \<Rightarrow> (s, ModifyHeaders [] [])
      | Some d \<Rightarrow>
          let (lims, md, act) = OnResponseHeaders ops ex d es rs (tsMeta s) (limObjs (tsWorld s))
          in (s\<lparr>tsWorld := (tsWorld s)\<lparr>limObjs := lims\<rparr>, tsMeta := md\<rparr>, act))"

text \<open>The chunk is forwarded unchanged; the flag is a panic.\<close>

definition token_OnResponseBodyChunk :: "'l lim_ops \<Rightarrow> extern \<Rightarrow> (nat \<Rightarrow> env) \<Rightarrow> response \<Rightarrow> string \<Rightarrow> bool \<Rightarrow> 'l token_state \<Rightarrow> 'l token_state \<times> bool" where
  "token_OnResponseBodyChunk ops ex es rs chunk eos s =
     (case delegateOf s of
        None \<Rightarrow> (s, False)
      | Some d \<Rightarrow>
          let (lims, md, crashed) = OnResponseBodyChunk ops ex d es rs chunk eos (tsMeta s) (limObjs (tsWorld s))
          in (s\<lparr>tsWorld := (tsWorld s)\<lparr>limObjs := lims\<rparr>, tsMeta := md\<rparr>, crashed))"

definition token_NeedsMoreResponseData :: "string \<Rightarrow> bool" where
  "token_NeedsMoreResponseData accumulated = False"

definition token_OnResponseBody :: "'l lim_ops \<Rightarrow> extern \<Rightarrow> (nat \<Rightarrow> env) \<Rightarrow> response \<Rightarrow> 'l token_state \<Rightarrow> 'l token_state \<times> response_action" where
  "token_OnResponseBody ops ex es rs s =
     (case delegateOf s of
        None \<Rightarrow> (s, NoAction)
      | Some d \<Rightarrow>
          let (lims, act) = OnResponseBody ops ex d es rs (tsMeta s) (limObjs (tsWorld s))
          in (s\<lparr>tsWorld := (tsWorld s)\<lparr>limObjs := lims\<rparr>\<rparr>, act))"

section \<open>What a template asks for\<close>

text \<open>The place a template gives for a number, and the cost of a quota whose numbers are all in the payload.\<close>

definition usagePath :: "params \<Rightarrow> string \<Rightarrow> string option" where
  "usagePath spec field =
     (case as_map (index spec field) of
        None \<Rightarrow> None
      | Some u \<Rightarrow> (case as_str (index u ''identifier'') of None \<Rightarrow> None | Some p \<Rightarrow> if p = '''' then None else Some p))"

definition inPayload :: "params \<Rightarrow> string \<Rightarrow> bool" where
  "inPayload spec field \<longleftrightarrow>
     (case as_map (index spec field) of None \<Rightarrow> True | Some u \<Rightarrow> strField u ''location'' \<notin> {''header'', ''metadata''})"

definition payloadSource :: "string \<Rightarrow> CostSource" where
  "payloadSource path = \<lparr>csType = ResponseBody, csKey = '''', csJSONPath = path, csExpression = '''', csMultiplier = f64_of_int 1\<rparr>"

definition payloadCost :: "params \<Rightarrow> string list \<Rightarrow> CostExtractionConfig option" where
  "payloadCost spec flds =
     (case List.map_filter (usagePath spec) flds of
        [] \<Rightarrow> None
      | paths \<Rightarrow> Some \<lparr>Enabled = True, Sources = map payloadSource paths, Default = f64_of_int 1\<rparr>)"

definition tokenFields :: "params \<Rightarrow> string \<Rightarrow> string list" where
  "tokenFields spec name =
     (if name = ''prompt_tokens'' then [''promptTokens''] else if name = ''completion_tokens'' then [''completionTokens'']
      else if usagePath spec ''totalTokens'' \<noteq> None then [''totalTokens''] else [''promptTokens'', ''completionTokens''])"

definition tokenKeys :: "string \<Rightarrow> params \<Rightarrow> KeyComponent list" where
  "tokenKeys keyType m =
     component keyType '''' '''' # (if as_bool (index m ''consumerBased'') = Some True then [component ''metadata'' ''x-wso2-application-id'' ''default''] else [])"

section \<open>Lemmas\<close>

lemma parse_consumerKeys:
  "parseKeyExtraction (AArr (consumerKeys (keyTypeFor l a) m)) = Ret (tokenKeys (keyTypeFor l a) m)"
  by (simp add: parseKeyExtraction_def consumerKeys_def tokenKeys_def parseKeyComponent_def index_def optField_def keyTypeFor_def component_def)

definition payloadAny :: "string \<Rightarrow> any" where
  "payloadAny path = AMap [(''type'', AStr ''response_body''), (''jsonPath'', AStr path)]"

lemma resolve_payload: "inPayload spec k \<Longrightarrow> resolveCostSource spec k = map_option payloadAny (usagePath spec k)"
  by (auto simp: inPayload_def resolveCostSource_def usagePath_def sourceConfig_def payloadAny_def split: option.splits)

lemma resolve_group:
  "\<forall>k \<in> set ks. inPayload spec k \<Longrightarrow> List.map_filter (resolveCostSource spec) ks = map payloadAny (List.map_filter (usagePath spec) ks)"
  by (induction ks) (auto simp: List.map_filter_simps resolve_payload split: option.splits)

lemma parse_payload: "parseCostSource i (payloadAny path) = Ret (Some (payloadSource path))"
  by (simp add: parseCostSource_def payloadAny_def payloadSource_def index_def strField_def CostSourceType_def numField_def Let_def)

lemma parse_payloads: "parseCostSources i (map payloadAny paths) = Ret (map payloadSource paths)"
  by (induction paths arbitrary: i) (simp_all add: parse_payload)

lemma addQuota_elem:
  "raw \<in> set (addQuota m template keys name limitsKey groups) \<Longrightarrow> as_map (index template ''spec'') = Some spec \<Longrightarrow>
   \<exists>limits. raw = AMap ([(''name'', AStr name), (''limits'', AArr limits), (''keyExtraction'', AArr keys)] @
     (if groupSources spec groups = [] then [] else [(''costExtraction'', AMap [(''enabled'', ABool True), (''sources'', AArr (groupSources spec groups))])]))"
  by (auto simp: addQuota_def Let_def split: list.splits)

text \<open>What the rate limiter makes of a quota of this policy.\<close>

lemma parse_tokenQuota:
  assumes "parseQuota i (AMap ([(''name'', AStr name), (''limits'', AArr limits), (''keyExtraction'', AArr (consumerKeys (keyTypeFor l a) m))] @
     (if srcs = [] then [] else [(''costExtraction'', AMap [(''enabled'', ABool True), (''sources'', AArr srcs)])]))) = Ret q"
  shows "qName q = name \<and> qKeyExtraction q = tokenKeys (keyTypeFor l a) m \<and>
    (if srcs = [] then costOf q = None
     else \<exists>ss. parseCostSources 0 srcs = Ret ss \<and>
       costOf q = (if ss = [] then None else Some \<lparr>Enabled = True, Sources = ss, Default = f64_of_int 1\<rparr>))"
proof (cases "srcs = []")
  case True
  then show ?thesis using parseQuota_fields [OF assms] by (auto simp: index_def strField_def parse_consumerKeys costOf_def parseCostExtractionConfig_def)
next
  case False
  then obtain s ss where srcs: "srcs = s # ss" by (cases srcs) auto
  show ?thesis using parseQuota_fields [OF assms] unfolding srcs
    by (auto simp: index_def strField_def parse_consumerKeys costOf_def parseCostExtractionConfig_def numField_def Let_def
      split: outcome.splits option.splits if_splits)
qed

text \<open>A delegate built from a template.\<close>

definition builtFrom :: "'l externs \<Rightarrow> string \<Rightarrow> PolicyMetadata \<Rightarrow> params \<Rightarrow> params \<Rightarrow> RateLimitPolicy \<Rightarrow> bool" where
  "builtFrom x levelAPI md m template d \<longleftrightarrow>
     (\<exists>w w'. GetPolicy x md (token_transformToRatelimitParams levelAPI m template (mdAttachedTo md)) w = (w', Ret d))"

lemma built_raw:
  assumes "builtFrom x levelAPI md m template d" "q \<in> set (quotas d)"
  obtains i raw q' where "raw \<in> set (tokenQuotas m template (consumerKeys (keyTypeFor levelAPI (mdAttachedTo md)) m))"
    "parseQuota i raw = Ret q'" "qName q = qName q'" "costOf q = costOf q'" "qKeyExtraction q = qKeyExtraction (fillKeyExtraction [] q')"
proof -
  let ?m = "token_transformToRatelimitParams levelAPI m template (mdAttachedTo md)"
  let ?raws = "tokenQuotas m template (consumerKeys (keyTypeFor levelAPI (mdAttachedTo md)) m)"
  obtain w w' where g: "GetPolicy x md ?m w = (w', Ret d)" using assms(1) by (auto simp: builtFrom_def)
  have m: "index ?m ''keyExtraction'' = ANil" "map_of ?m ''quotas'' = Some (AArr ?raws)"
    by (simp_all add: token_transformToRatelimitParams_def index_def passedThrough_other)
  obtain ps ls where p: "parseAll parseQuota 0 ?raws = Ret ps" "length ls = length ps"
    "quotas d = map2 (\<lambda>q l. (fillKeyExtraction [] q)\<lparr>qLimiter := l\<rparr>) ps ls"
    using GetPolicy_quotas [OF g m] by metis
  then obtain q' l where q: "q' \<in> set ps" "q = (fillKeyExtraction [] q')\<lparr>qLimiter := l\<rparr>"
    using assms(2) by (auto dest: set_zip_leftD)
  obtain i raw where "raw \<in> set ?raws" "parseQuota i raw = Ret q'" using parseAll_from [OF p(1) q(1)] by blast
  then show thesis using that q(2) by (auto simp: fillKeyExtraction_def costOf_def)
qed

lemma groupSources_payload:
  assumes "inPayload spec ''promptTokens''" "inPayload spec ''completionTokens''" "inPayload spec ''totalTokens''"
  shows "groupSources spec [[''promptTokens'']] = map payloadAny (List.map_filter (usagePath spec) (tokenFields spec ''prompt_tokens''))"
    "groupSources spec [[''completionTokens'']] = map payloadAny (List.map_filter (usagePath spec) (tokenFields spec ''completion_tokens''))"
    "groupSources spec [[''totalTokens''], [''promptTokens'', ''completionTokens'']] =
      map payloadAny (List.map_filter (usagePath spec) (tokenFields spec ''total_tokens''))"
  by (auto simp: tokenFields_def List.map_filter_simps resolve_payload [OF assms(1)] resolve_payload [OF assms(2)] resolve_payload [OF assms(3)] split: list.splits option.splits)

lemma built_costs:
  assumes "builtFrom x levelAPI md m template d" "q \<in> set (quotas d)" "as_map (index template ''spec'') = Some spec"
    and "inPayload spec ''promptTokens''" "inPayload spec ''completionTokens''" "inPayload spec ''totalTokens''"
  shows "costOf q = payloadCost spec (tokenFields spec (qName q)) \<and> qKeyExtraction q = tokenKeys (keyTypeFor levelAPI (mdAttachedTo md)) m"
proof -
  let ?keys = "consumerKeys (keyTypeFor levelAPI (mdAttachedTo md)) m"
  obtain i raw q' where r: "raw \<in> set (tokenQuotas m template ?keys)"
    "parseQuota i raw = Ret q'" "qName q = qName q'" "costOf q = costOf q'" "qKeyExtraction q = qKeyExtraction (fillKeyExtraction [] q')"
    using built_raw [OF assms(1,2)] by metis
  obtain name limitsKey groups where n: "raw \<in> set (addQuota m template ?keys name limitsKey groups)"
    "groupSources spec groups = map payloadAny (List.map_filter (usagePath spec) (tokenFields spec name))"
    using r(1) groupSources_payload [OF assms(4-6)] unfolding tokenQuotas_def by auto
  obtain limits where raw: "raw = AMap ([(''name'', AStr name), (''limits'', AArr limits), (''keyExtraction'', AArr ?keys)] @
     (if groupSources spec groups = [] then [] else [(''costExtraction'', AMap [(''enabled'', ABool True), (''sources'', AArr (groupSources spec groups))])]))"
    using addQuota_elem [OF n(1) assms(3)] by blast
  note q' = parse_tokenQuota [OF r(2) [unfolded raw]]
  have "qKeyExtraction q' \<noteq> []" using q' by (simp add: tokenKeys_def)
  then show ?thesis using q' r(3-5) unfolding n(2)
    by (auto simp: payloadCost_def parse_payloads fill_nonempty split: if_splits list.splits)
qed

lemma payload_no_request_body:
  assumes "\<forall>q \<in> set (quotas d). (\<exists>fs. costOf q = payloadCost spec fs) \<and> qKeyExtraction q = tokenKeys (keyTypeFor l a) m"
  shows "\<not> requiresRequestBody d"
proof -
  have "\<not> HasRequestBodyPhase c" if "payloadCost spec fs = Some c" for fs c
    using that by (auto simp: payloadCost_def HasRequestBodyPhase_def payloadSource_def list_ex_iff split: list.splits)
  then show ?thesis using assms
    by (auto simp: requiresRequestBody_def list_ex_iff hasCELKey_def tokenKeys_def component_def keyTypeFor_def split: option.splits if_splits)
qed

text \<open>The requests a policy serves: the resource store at the time, the environment, the request and its
  metadata.\<close>

type_synonym token_event = "(string \<Rightarrow> string \<Rightarrow> params option outcome) \<times> (nat \<Rightarrow> env) \<times> request \<times> meta"

fun tokenRun :: "'l externs \<Rightarrow> 'l lim_ops \<Rightarrow> extern \<Rightarrow> string \<Rightarrow> (any \<Rightarrow> string) \<Rightarrow> params \<Rightarrow> token_event list \<Rightarrow> 'l token_state \<Rightarrow> 'l token_state" where
  "tokenRun x ops ex levelAPI hash m [] s = s"
| "tokenRun x ops ex levelAPI hash m ((store, es, rq, md) # evs) s =
     tokenRun x ops ex levelAPI hash m evs (fst (token_OnRequestHeaders x ops ex levelAPI store hash es rq m (s\<lparr>tsMeta := md\<rparr>)))"

definition storeIn :: "params set \<Rightarrow> (string \<Rightarrow> string \<Rightarrow> params option outcome) \<Rightarrow> bool" where
  "storeIn T store \<longleftrightarrow> (\<forall>prov t. templateOf store prov = Ret (Some t) \<longrightarrow> t \<in> T)"

text \<open>Every delegate was built from a template with the hash it is kept under.\<close>

definition tokenInv :: "'l externs \<Rightarrow> string \<Rightarrow> (any \<Rightarrow> string) \<Rightarrow> PolicyMetadata \<Rightarrow> params \<Rightarrow> params set \<Rightarrow> token_policy \<Rightarrow> bool" where
  "tokenInv x levelAPI hash md m T p \<longleftrightarrow> tkMetadata p = md \<and>
     (\<forall>prov d. map_of (tkDelegates p) prov = Some d \<longrightarrow>
       (\<exists>t \<in> T. builtFrom x levelAPI md m t d \<and> map_of (tkCacheKeys p) prov = Some (prov @ '':'' @ hash (AMap t))))"

lemma token_resolve_cases:
  assumes "token_resolveDelegate x levelAPI store hash prov m s = (s', out)"
  obtains (kept) "tsPolicy s' = tsPolicy s" "\<And>d. out \<noteq> Ret (Some d)"
  | (cached) d t where "tsPolicy s' = tsPolicy s" "out = Ret (Some d)" "templateOf store prov = Ret (Some t)"
      "map_of (tkDelegates (tsPolicy s)) prov = Some d" "map_of (tkCacheKeys (tsPolicy s)) prov = Some (prov @ '':'' @ hash (AMap t))"
  | (built) d t where "out = Ret (Some d)" "templateOf store prov = Ret (Some t)"
      "builtFrom x levelAPI (tkMetadata (tsPolicy s)) m t d"
      "tsPolicy s' = (tsPolicy s)\<lparr>tkDelegates := AList.update prov d (tkDelegates (tsPolicy s)),
         tkCacheKeys := AList.update prov (prov @ '':'' @ hash (AMap t)) (tkCacheKeys (tsPolicy s))\<rparr>"
proof (cases "templateOf store prov")
  case (Ret ot)
  show thesis
  proof (cases ot)
    case None
    then show ?thesis using assms Ret by (intro kept) (auto simp: token_resolveDelegate_def)
  next
    case (Some t)
    let ?key = "prov @ '':'' @ hash (AMap t)"
    show ?thesis
    proof (cases "\<exists>d. map_of (tkDelegates (tsPolicy s)) prov = Some d \<and> map_of (tkCacheKeys (tsPolicy s)) prov = Some ?key")
      case True
      then show ?thesis using assms Ret Some cached by (auto simp: token_resolveDelegate_def Let_def)
    next
      case False
      obtain w o1 where g: "GetPolicy x (tkMetadata (tsPolicy s)) (token_transformToRatelimitParams levelAPI m t (mdAttachedTo (tkMetadata (tsPolicy s)))) (tsWorld s) = (w, o1)"
        by (metis prod.collapse)
      have o: "token_resolveDelegate x levelAPI store hash prov m s =
        (case o1 of
           Ret d \<Rightarrow> (s\<lparr>tsPolicy := (tsPolicy s)\<lparr>tkDelegates := AList.update prov d (tkDelegates (tsPolicy s)),
             tkCacheKeys := AList.update prov ?key (tkCacheKeys (tsPolicy s))\<rparr>, tsWorld := w\<rparr>, Ret (Some d))
         | Fail err \<Rightarrow> (s\<lparr>tsWorld := w\<rparr>, Fail err) | Panic \<Rightarrow> (s\<lparr>tsWorld := w\<rparr>, Panic))"
        using Ret Some False g by (auto simp: token_resolveDelegate_def storeCacheKey_def storeDelegate_def Let_def split: option.splits bool.splits outcome.splits)
      show ?thesis
      proof (cases o1)
        case r: (Ret d)
        have "builtFrom x levelAPI (tkMetadata (tsPolicy s)) m t d" using g r unfolding builtFrom_def by blast
        then show ?thesis using built [of d t] assms o r Ret Some by auto
      qed (use assms o kept in auto)
    qed
  qed
qed (use assms kept in \<open>auto simp: token_resolveDelegate_def\<close>)

text \<open>Two requests that rebuild at the same time, one that read an old template and one that read the new one, are
  not held apart: the flights have the cache keys as their names. If the stores of the first fall between the
  two of the second, the old delegate stays under the new key and serves the requests that follow.\<close>

lemma token_concurrent_rebuild_stale:
  assumes "templateOf store prov = Ret (Some t)"
    and "tsPolicy s = storeCacheKey prov (prov @ '':'' @ hash (AMap t)) (storeCacheKey prov oldKey (storeDelegate prov old (storeDelegate prov new p)))"
  shows "token_resolveDelegate x levelAPI store hash prov m s = (s, Ret (Some old))"
  using assms by (simp add: token_resolveDelegate_def storeCacheKey_def storeDelegate_def AList.update_conv' Let_def)

lemma token_resolve_inv:
  assumes "token_resolveDelegate x levelAPI store hash prov m s = (s', out)" "tokenInv x levelAPI hash md m T (tsPolicy s)"
    and "storeIn T store" "inj_on (\<lambda>t. hash (AMap t)) T"
  shows "tokenInv x levelAPI hash md m T (tsPolicy s') \<and>
    (\<forall>d t. out = Ret (Some d) \<longrightarrow> templateOf store prov = Ret (Some t) \<longrightarrow> builtFrom x levelAPI md m t d)"
  using assms(1)
proof (cases rule: token_resolve_cases)
  case kept
  then show ?thesis using assms(2) by simp
next
  case (cached d t)
  obtain t' where "t' \<in> T" "builtFrom x levelAPI md m t' d" "map_of (tkCacheKeys (tsPolicy s)) prov = Some (prov @ '':'' @ hash (AMap t'))"
    using assms(2) cached(4) unfolding tokenInv_def by blast
  moreover have "t \<in> T" using assms(3) cached(3) by (auto simp: storeIn_def)
  ultimately have "builtFrom x levelAPI md m t d" using inj_onD [OF assms(4), of t t'] cached(5) by simp
  then show ?thesis using assms(2) cached by simp
next
  case (built d t)
  have "t \<in> T" "tkMetadata (tsPolicy s) = md" using assms(2,3) built(2) by (auto simp: storeIn_def tokenInv_def)
  then show ?thesis using assms(2) built by (auto simp: tokenInv_def AList.update_conv')
qed

lemma tokenRun_inv:
  assumes "inj_on (\<lambda>t. hash (AMap t)) T"
  shows "tokenInv x levelAPI hash md m T (tsPolicy s) \<Longrightarrow> list_all (\<lambda>ev. storeIn T (fst ev)) evs \<Longrightarrow>
    tokenInv x levelAPI hash md m T (tsPolicy (tokenRun x ops ex levelAPI hash m evs s))"
proof (induction evs arbitrary: s)
  case (Cons ev evs)
  obtain store es rq md' where ev: "ev = (store, es, rq, md')" by (cases ev)
  obtain s' out where r: "token_resolveDelegate x levelAPI store hash (providerName md') m (s\<lparr>tsMeta := md'\<rparr>) = (s', out)"
    by (metis prod.collapse)
  have "tokenInv x levelAPI hash md m T (tsPolicy s')" using token_resolve_inv [OF r, of md T] assms Cons.prems ev by simp
  then have "tokenInv x levelAPI hash md m T (tsPolicy (fst (token_OnRequestHeaders x ops ex levelAPI store hash es rq m (s\<lparr>tsMeta := md'\<rparr>))))"
    using Cons.prems r by (auto simp: token_OnRequestHeaders_def Let_def split: outcome.splits option.splits prod.splits)
  then show ?case using Cons ev by simp
qed simp

section \<open>Properties\<close>


text \<open>The template of a provider that reports no total.\<close>

definition splitTemplate :: params where
  "splitTemplate = [(''spec'', AMap [(''promptTokens'', AMap [(''identifier'', AStr ''$.in'')]), (''completionTokens'', AMap [(''identifier'', AStr ''$.out'')])])]"

definition oneStore :: "params \<Rightarrow> string \<Rightarrow> string \<Rightarrow> params option outcome" where
  "oneStore template name kind = Ret (Some (if kind = ''ProviderTemplateMapping'' then [(''template_handle'', AStr ''t'')] else template))"

definition totalLimit :: params where
  "totalLimit = [(''totalTokenLimits'', AArr [AMap [(''count'', AFloat (Fin 5)), (''duration'', AStr ''0'')]])]"

definition tokenStart :: "unit token_state" where
  "tokenStart = \<lparr>tsPolicy = token_GetPolicy demoMd, tsWorld = emptyWorld, tsMeta = []\<rparr>"


lemmas token_eval = token_transformToRatelimitParams_def tokenQuotas_def addQuota_def convertLimits_def consumerKeys_def passedThrough_def copied_def
  resolveCostSource_def sourceConfig_def keyTypeFor_def parsePolicyQuotas_def parseQuotas_def parseQuota_def parseLimits_def parseLimit_def
  parseSingleLimit_def ParseDuration_def index_def parseKeyExtraction_def parseKeyComponent_def optField_def strField_def numField_def
  parseCostExtractionConfig_def parseCostSource_def CostSourceType_def rat_trunc_def int64_def

lemma splitTemplate_parsed:
  "\<exists>q. parsePolicyQuotas (token_transformToRatelimitParams ''api'' totalLimit splitTemplate ''route'') = Ret [q]"
  by (simp add: totalLimit_def splitTemplate_def token_eval List.map_filter_simps)

lemma token_backend: "backendOf (token_transformToRatelimitParams ''api'' totalLimit template ''route'') = ''memory''"
  by (simp add: totalLimit_def token_eval getStringParam_def dotted_def split_on.simps List.map_filter_simps)

lemma oneStore_template: "templateOf (oneStore template) prov = Ret (Some template)"
  by (simp add: templateOf_def oneStore_def index_def)

lemma oneStore_resolves:
  assumes "parsePolicyQuotas (token_transformToRatelimitParams ''api'' totalLimit template ''route'') = Ret qs" "tkMetadata (tsPolicy s) = demoMd"
  shows "\<exists>s' d. token_resolveDelegate demoExterns ''api'' (oneStore template) hash prov totalLimit s = (s', Ret (Some d))"
proof -
  obtain w d where g: "GetPolicy demoExterns demoMd (token_transformToRatelimitParams ''api'' totalLimit template ''route'') (tsWorld s) = (w, Ret d)"
    using GetPolicy_total [OF assms(1) token_backend] by blast
  show ?thesis
    using g assms(2)
    by (auto simp: token_resolveDelegate_def oneStore_template Let_def demoMd_def split: option.splits bool.splits)
qed

definition splitSpec :: params where
  "splitSpec = [(''promptTokens'', AMap [(''identifier'', AStr ''$.in'')]), (''completionTokens'', AMap [(''identifier'', AStr ''$.out'')])]"

definition tokenEvent :: token_event where
  "tokenEvent = (oneStore splitTemplate, \<lambda>_. \<lparr>clock = 0, sys_now = 0\<rparr>, demoRequest, [(''provider_name'', MAny (AStr ''p''))])"


section \<open>Numbers in the metadata\<close>

text \<open>A source no phase reads.\<close>

definition unread :: "CostExtractionConfig \<Rightarrow> bool" where
  "unread c = list_all (\<lambda>s. csType s = OtherSource ''metadata'') (Sources c)"

definition idleQuota :: "QuotaRuntime \<Rightarrow> bool" where
  "idleQuota q = (case costOf q of Some c \<Rightarrow> unread c | None \<Rightarrow> False)"

lemma unread_phases:
  "unread c \<Longrightarrow> \<not> HasRequestHeaderOnlyCostSources c" "unread c \<Longrightarrow> \<not> HasResponseHeaderOnlyCostSources c"
  "unread c \<Longrightarrow> \<not> HasResponsePhaseSources c" "unread c \<Longrightarrow> \<not> RequiresResponseBody c"
  by (auto simp: unread_def HasRequestHeaderOnlyCostSources_def HasResponseHeaderOnlyCostSources_def HasResponsePhaseSources_def
    RequiresResponseBody_def headerOnlyLoop_iff list_ex_iff list_all_iff)

lemma idle_header_loop:
  "list_all idleQuota qs \<Longrightarrow> fst (quotaLoop (headerStep ops x p rq) keyOf defr p es i qs lims st) = lims"
proof (induction qs arbitrary: i st)
  case (Cons q qs)
  then obtain c where c: "costOf q = Some c" "unread c" by (auto simp: idleQuota_def split: option.splits)
  then have "fst (headerStep ops x p rq e q name key s) = s" for e name key s by (simp add: headerStep_def unread_phases)
  then show ?case using Cons by (auto simp: Let_def split: prod.splits qstep.splits) (metis fst_conv list_update_id)+
qed simp

lemma idle_response_loop:
  assumes "\<And>e q name s. idleQuota q \<Longrightarrow> fst (step e q name s) = s"
  shows "list_all idleQuota qs \<Longrightarrow> fst (responseLoop step es i qs lims acc) = lims"
proof (induction qs arbitrary: i acc)
  case (Cons q qs)
  have s: "fst (step (es i) q (quotaNameFor q i) (lims ! qLimiter q)) = lims ! qLimiter q" using assms Cons.prems by simp
  show ?case using Cons s by (cases "step (es i) q (quotaNameFor q i) (lims ! qLimiter q)") (auto split: qstep.splits)
qed simp

lemma idle_steps:
  assumes "idleQuota q"
  shows "fst (responseHeaderStep ops x rs streaming ks sto e q name s) = s" "fst (responseBodyStep ops x rs ks sto e q name s) = s"
    "fst (finalizeStep ops x rs ks st e q name s) = s"
proof -
  obtain c where c: "costOf q = Some c" "unread c" using assms by (auto simp: idleQuota_def split: option.splits)
  then have "qCostExtractor q = Some c" by (simp add: costOf_def split: if_splits)
  then show "fst (responseHeaderStep ops x rs streaming ks sto e q name s) = s" "fst (responseBodyStep ops x rs ks sto e q name s) = s"
    "fst (finalizeStep ops x rs ks st e q name s) = s"
    using c by (simp_all add: responseHeaderStep_def responseBodyStep_def finalizeStep_def hasStreamingResponseSourceForQuota_def bodySources_def unread_phases)
qed

lemma idle_hooks:
  assumes "list_all idleQuota (quotas d)"
  shows "fst (OnRequestHeaders ops ex d es rq m lims) = lims" "fst (OnResponseHeaders ops ex d es rs m lims) = lims"
    "fst (OnResponseBodyChunk ops ex d es rs chunk eos m lims) = lims" "fst (OnResponseBody ops ex d es rs m lims) = lims"
proof -
  have r1: "fst (responseLoop (responseHeaderStep ops ex rs' streaming ks sto) es 0 (quotas d) lims []) = lims" for rs' streaming ks sto
    by (rule idle_response_loop [OF _ assms]) (rule idle_steps)
  have r2: "fst (responseLoop (responseBodyStep ops ex rs' ks sto) es 0 (quotas d) lims []) = lims" for rs' ks sto
    by (rule idle_response_loop [OF _ assms]) (rule idle_steps)
  have r3: "fst (responseLoop (finalizeStep ops ex rs' ks st) es 0 (quotas d) lims []) = lims" for rs' ks st
    by (rule idle_response_loop [OF _ assms]) (rule idle_steps)
  show "fst (OnRequestHeaders ops ex d es rq m lims) = lims"
    using idle_header_loop [OF assms, of ops ex d "withMeta rq m" "extractQuotaKeyFromHeaderCtx d (withMeta rq m)" hasCELKey es 0 lims noProgress]
    by (auto simp: OnRequestHeaders_def Let_def split: prod.splits verdict.splits)
  show "fst (OnResponseHeaders ops ex d es rs m lims) = lims"
    using r1 [of "withMetaResponse rs m" "isStreamingResponse (rsUpstream (withMetaResponse rs m))" "getKeys d m" "storedResultsMap (getResults d m)"]
    by (auto simp: OnResponseHeaders_def Let_def split: prod.splits option.splits)
  show "fst (OnResponseBodyChunk ops ex d es rs chunk eos m lims) = lims"
    using r3 by (auto simp: OnResponseBodyChunk_def finalizeAndConsumeStreamingCosts_def Let_def split: prod.splits option.splits) (metis fst_conv)
  show "fst (OnResponseBody ops ex d es rs m lims) = lims"
    using r2 [of "withMetaResponse rs m" "getKeys d m" "storedResultsMap (getResults d m)"]
    by (auto simp: OnResponseBody_def split: prod.splits option.splits)
qed

text \<open>A field whose number the template places in the metadata of the request.\<close>

definition inMetadata :: "params \<Rightarrow> string \<Rightarrow> bool" where
  "inMetadata spec field \<longleftrightarrow> usagePath spec field \<noteq> None \<and>
     (case as_map (index spec field) of None \<Rightarrow> False | Some u \<Rightarrow> strField u ''location'' = ''metadata'')"

definition metadataAny :: "string \<Rightarrow> any" where
  "metadataAny path = AMap [(''type'', AStr ''metadata''), (''key'', AStr path)]"

lemma resolve_metadata: "inMetadata spec k \<Longrightarrow> \<exists>path. resolveCostSource spec k = Some (metadataAny path)"
  by (auto simp: inMetadata_def usagePath_def resolveCostSource_def sourceConfig_def metadataAny_def split: option.splits if_splits)

lemma parse_metadata:
  "parseCostSource i (metadataAny path) = Ret (Some \<lparr>csType = OtherSource ''metadata'', csKey = path, csJSONPath = '''', csExpression = '''', csMultiplier = f64_of_int 1\<rparr>)"
  by (simp add: parseCostSource_def metadataAny_def index_def strField_def CostSourceType_def numField_def Let_def)

lemma built_idle:
  assumes "builtFrom x levelAPI md m template d" "as_map (index template ''spec'') = Some spec"
    and "inMetadata spec ''promptTokens''" "inMetadata spec ''completionTokens''" "inMetadata spec ''totalTokens''"
  shows "list_all idleQuota (quotas d)"
proof -
  have "idleQuota q" if mem: "q \<in> set (quotas d)" for q
  proof -
    let ?keys = "consumerKeys (keyTypeFor levelAPI (mdAttachedTo md)) m"
    obtain i raw q' where r: "raw \<in> set (tokenQuotas m template ?keys)" "parseQuota i raw = Ret q'" "costOf q = costOf q'"
      using built_raw [OF assms(1) mem] by metis
    obtain name limitsKey groups path where n: "raw \<in> set (addQuota m template ?keys name limitsKey groups)" "groupSources spec groups = [metadataAny path]"
      using r(1) resolve_metadata [OF assms(3)] resolve_metadata [OF assms(4)] resolve_metadata [OF assms(5)]
      unfolding tokenQuotas_def by (fastforce simp: List.map_filter_simps)
    obtain limits where raw: "raw = AMap ([(''name'', AStr name), (''limits'', AArr limits), (''keyExtraction'', AArr ?keys)] @
     (if groupSources spec groups = [] then [] else [(''costExtraction'', AMap [(''enabled'', ABool True), (''sources'', AArr (groupSources spec groups))])]))"
      using addQuota_elem [OF n(1) assms(2)] by blast
    show ?thesis using parse_tokenQuota [OF r(2) [unfolded raw]] r(3) unfolding n(2)
      by (auto simp: parse_metadata idleQuota_def unread_def)
  qed
  then show ?thesis by (simp add: list_all_iff)
qed

text \<open>A token quota whose number the template places in the metadata is never charged. The source type
  it is given, \<^verbatim>\<open>metadata\<close>, is none of the types the rate limiter knows, and no phase reads it: whatever the
  request and the response carry, no hook changes any limiter, so a client that has not used up its
  tokens never will.\<close>
lemma token_metadata_never_charged:
  assumes "builtFrom x levelAPI md m template d" "as_map (index template ''spec'') = Some spec"
    and "inMetadata spec ''promptTokens''" "inMetadata spec ''completionTokens''" "inMetadata spec ''totalTokens''"
    and "token_resolveDelegate x levelAPI store hash (providerName (tsMeta s)) m s = (s, Ret (Some d))" "delegateOf s = Some d"
  shows "limObjs (tsWorld (fst (token_OnRequestHeaders x ops ex levelAPI store hash es rq m s))) = limObjs (tsWorld s) \<and>
    limObjs (tsWorld (fst (token_OnResponseHeaders ops ex es rs s))) = limObjs (tsWorld s) \<and>
    limObjs (tsWorld (fst (token_OnResponseBodyChunk ops ex es rs chunk eos s))) = limObjs (tsWorld s) \<and>
    limObjs (tsWorld (fst (token_OnResponseBody ops ex es rs s))) = limObjs (tsWorld s)"
proof -
  note idle = idle_hooks [OF built_idle [OF assms(1-5)]]
  show ?thesis
    using assms(6,7) idle(1) [of ops ex es rq "tsMeta s" "limObjs (tsWorld s)"] idle(2) [of ops ex es rs "tsMeta s" "limObjs (tsWorld s)"]
      idle(3) [of ops ex es rs chunk eos "tsMeta s" "limObjs (tsWorld s)"] idle(4) [of ops ex es rs "tsMeta s" "limObjs (tsWorld s)"]
    by (auto simp: token_OnRequestHeaders_def token_OnResponseHeaders_def token_OnResponseBodyChunk_def token_OnResponseBody_def split: prod.splits)
qed

definition metadataField :: any where
  "metadataField = AMap [(''identifier'', AStr ''usage''), (''location'', AStr ''metadata'')]"

definition metadataTemplate :: params where
  "metadataTemplate = [(''spec'', AMap [(''promptTokens'', metadataField), (''completionTokens'', metadataField), (''totalTokens'', metadataField)])]"

text \<open>\<open>token_metadata_never_charged\<close> for a limit on the total.\<close>
lemma token_metadata_never_charged_example:
  "\<exists>d s. delegateOf s = Some d \<and> tsMeta s = [(''provider_name'', MAny (AStr ''p''))] \<and>
     limObjs (tsWorld (fst (token_OnResponseBody grantOps demoExtern (\<lambda>_. \<lparr>clock = 0, sys_now = 0\<rparr>) \<lparr>rsUpstream = None, rsMetadata = [], rsBody = None\<rparr> s))) = limObjs (tsWorld s)"
proof -
  have "\<exists>q. parsePolicyQuotas (token_transformToRatelimitParams ''api'' totalLimit metadataTemplate ''route'') = Ret [q]"
    by (simp add: totalLimit_def metadataTemplate_def metadataField_def token_eval List.map_filter_simps)
  then obtain w d where g: "GetPolicy demoExterns demoMd (token_transformToRatelimitParams ''api'' totalLimit metadataTemplate ''route'') emptyWorld = (w, Ret d)"
    using GetPolicy_total [OF _ token_backend] by blast
  let ?s = "\<lparr>tsPolicy = \<lparr>tkMetadata = demoMd, tkDelegates = [(''p'', d)], tkCacheKeys = [(''p'', ''p:h'')]\<rparr>, tsWorld = w,
    tsMeta = [(''provider_name'', MAny (AStr ''p''))]\<rparr>"
  let ?spec = "[(''promptTokens'', metadataField), (''completionTokens'', metadataField), (''totalTokens'', metadataField)]"
  have "builtFrom demoExterns ''api'' demoMd totalLimit metadataTemplate d" using g by (auto simp: builtFrom_def demoMd_def)
  moreover have "as_map (index metadataTemplate ''spec'') = Some ?spec" by (simp add: metadataTemplate_def index_def)
  moreover have "inMetadata ?spec ''promptTokens''" "inMetadata ?spec ''completionTokens''" "inMetadata ?spec ''totalTokens''"
    by (simp_all add: inMetadata_def usagePath_def index_def strField_def metadataField_def)
  moreover have prov: "providerName (tsMeta ?s) = ''p''" by (simp add: providerName_def paramsOf_def anyOf_def index_def)
  moreover have "token_resolveDelegate demoExterns ''api'' (oneStore metadataTemplate) (\<lambda>_. ''h'') (providerName (tsMeta ?s)) totalLimit ?s = (?s, Ret (Some d))"
    unfolding prov by (simp add: token_resolveDelegate_def oneStore_template)
  moreover have del: "delegateOf ?s = Some d" using prov by (simp add: delegateOf_def)
  ultimately show ?thesis using token_metadata_never_charged [where s = ?s and d = d] by fastforce
qed

end
