(* ===== verification/CostRateLimit.thy ===== *)
theory CostRateLimit
  imports TokenRateLimit QuotaStream
begin

text \<open>
  The policy \<^verbatim>\<open>llm-cost-based-ratelimit\<close>: budgets in dollars. The amounts are scaled to integers and become the
  limits of one quota of the rate limiter, which charges the cost another policy leaves in the metadata. A
  delegate is built for each provider, pinned in the metadata of the request and used again for its
  response. A pinned delegate is a value of the metadata that only this policy reads; it is kept in a map of
  its own, with an opaque entry in the metadata. \<^verbatim>\<open>fmt.Sprintf("%.6f")\<close> is a parameter.
\<close>

section \<open>Parameters\<close>

definition consumerBased :: "params \<Rightarrow> bool" where
  "consumerBased m \<longleftrightarrow> as_bool (index m ''consumerBased'') = Some True"

definition delegateMetadataKey :: "params \<Rightarrow> string" where
  "delegateMetadataKey m = (if consumerBased m then ''llm_cost_delegate_consumer'' else ''llm_cost_delegate'')"

definition costScaleFactorMetadataKey :: "params \<Rightarrow> string" where
  "costScaleFactorMetadataKey m = (if consumerBased m then ''llm_cost_scale_factor_consumer'' else ''llm_cost_scale_factor'')"

definition DefaultCostScaleFactor :: int where "DefaultCostScaleFactor = 1000000000"

fun extractIntValue :: "any \<Rightarrow> int \<Rightarrow> int" where
  "extractIntValue (AInt v) d = v"
| "extractIntValue (AInt64 v) d = v"
| "extractIntValue (AFloat v) d = f64_to_int64 v"
| "extractIntValue (AFloat32 v) d = f64_to_int64 v"
| "extractIntValue _ d = d"

definition extractCostScaleFactor :: "params \<Rightarrow> int" where
  "extractCostScaleFactor m =
     (let sys = (case as_map (index m ''systemParameters'') of Some sp \<Rightarrow> extractIntValue (index sp ''costScaleFactor'') 0 | None \<Rightarrow> 0);
          root = extractIntValue (index m ''costScaleFactor'') 0
      in if 0 < sys then sys else if 0 < root then root else DefaultCostScaleFactor)"

text \<open>An amount in scaled units; other types of amount are skipped.\<close>

fun scaledAmount :: "int \<Rightarrow> any \<Rightarrow> f64 option" where
  "scaledAmount scale (AFloat v) = Some (f64_mul v (f64_of_int scale))"
| "scaledAmount scale (AInt v) = Some (f64_mul (f64_of_int v) (f64_of_int scale))"
| "scaledAmount scale (AInt64 v) = Some (f64_mul (f64_of_int v) (f64_of_int scale))"
| "scaledAmount scale _ = None"

definition budgetLimit :: "int \<Rightarrow> any \<Rightarrow> any option" where
  "budgetLimit scale item =
     (case as_map item of
        None \<Rightarrow> None
      | Some m \<Rightarrow> map_option (\<lambda>v. AMap [(''limit'', AFloat v), (''duration'', index m ''duration'')]) (scaledAmount scale (index m ''amount'')))"

definition costQuota :: "int \<Rightarrow> params \<Rightarrow> any list \<Rightarrow> any" where
  "costQuota scale m limits =
     AMap [(''name'', AStr ''llm_cost_quota''), (''limits'', AArr limits), (''keyExtraction'', AArr (consumerKeys ''routename'' m)),
       (''costExtraction'', AMap [(''enabled'', ABool True),
          (''sources'', AArr [AMap [(''type'', AStr ''response_metadata''), (''key'', AStr ''x-llm-cost''), (''multiplier'', AFloat (f64_of_int scale))]]),
          (''default'', AInt 0)])]"

definition cost_transformToRatelimitParams :: "params \<Rightarrow> params" where
  "cost_transformToRatelimitParams m =
     (let scale = extractCostScaleFactor m in
      case as_arr (index m ''budgetLimits'') of
        None \<Rightarrow> [(''quotas'', AArr [])]
      | Some items \<Rightarrow>
          (case List.map_filter (budgetLimit scale) items of
             [] \<Rightarrow> [(''quotas'', AArr [])]
           | limits \<Rightarrow> (''quotas'', AArr [costQuota scale m limits]) # passedThrough m))"

section \<open>Delegates\<close>

record delegateEntry =
  deCacheKey :: string
  deDelegate :: RateLimitPolicy

record cost_policy =
  clMetadata :: PolicyMetadata
  clDelegates :: "(string, delegateEntry) gomap"

definition cost_GetPolicy :: "PolicyMetadata \<Rightarrow> cost_policy" where
  "cost_GetPolicy md = \<lparr>clMetadata = md, clDelegates = []\<rparr>"

text \<open>The random string: the bytes of \<^verbatim>\<open>crypto/rand\<close>, or on an error the bits of the clock.\<close>

definition cost_randomString :: "nat list option \<Rightarrow> int \<Rightarrow> nat \<Rightarrow> string" where
  "cost_randomString bytes ns n =
     (case bytes of
        Some bs \<Rightarrow> map (\<lambda>v. charset ! (v mod 36)) bs
      | None \<Rightarrow> map (\<lambda>i. charset ! nat ((ns div 2 ^ i) mod 36)) [0..<n])"

definition cost_computeResourceHash :: "(any \<Rightarrow> string option) \<Rightarrow> (string \<Rightarrow> string) \<Rightarrow> nat list option \<Rightarrow> int \<Rightarrow> any \<Rightarrow> string" where
  "cost_computeResourceHash marshal sha bytes ns resource =
     (case marshal resource of None \<Rightarrow> ''error-'' @ cost_randomString bytes ns 8 | Some data \<Rightarrow> take 16 (sha data))"

definition cost_cacheKey :: "(any \<Rightarrow> string) \<Rightarrow> string \<Rightarrow> params \<Rightarrow> string" where
  "cost_cacheKey hash provider m =
     provider @ '':'' @ hash (AMap [(''budgetLimits'', index m ''budgetLimits''), (''costScaleFactor'', AInt (extractCostScaleFactor m)),
       (''algorithm'', index m ''algorithm''), (''backend'', index m ''backend''), (''redis'', index m ''redis''),
       (''memory'', index m ''memory''), (''local'', index m ''local'')])"

text \<open>The state: the policy, the limiters, the metadata of the request and the delegates pinned in it.\<close>

record 'l cost_state =
  clPolicy :: cost_policy
  clWorld :: "'l world"
  clMeta :: meta
  clPinned :: "(string, RateLimitPolicy) gomap"

definition cost_buildDelegate :: "'l externs \<Rightarrow> string \<Rightarrow> string \<Rightarrow> params \<Rightarrow> 'l cost_state \<Rightarrow> 'l cost_state \<times> RateLimitPolicy option outcome" where
  "cost_buildDelegate x cacheKey provider m s =
     (let p = clPolicy s; rl = cost_transformToRatelimitParams m in
      if index rl ''quotas'' = AArr [] then (s, Ret None)
      else case GetPolicy x (clMetadata p) rl (clWorld s) of
        (w, Ret d) \<Rightarrow>
          (s\<lparr>clPolicy := p\<lparr>clDelegates := AList.update provider \<lparr>deCacheKey = cacheKey, deDelegate = d\<rparr> (clDelegates p)\<rparr>, clWorld := w\<rparr>, Ret (Some d))
      | (w, Fail err) \<Rightarrow> (s\<lparr>clWorld := w\<rparr>, Fail err)
      | (w, Panic) \<Rightarrow> (s\<lparr>clWorld := w\<rparr>, Panic))"

definition cost_resolveDelegate :: "'l externs \<Rightarrow> (any \<Rightarrow> string) \<Rightarrow> string \<Rightarrow> params \<Rightarrow> 'l cost_state
    \<Rightarrow> 'l cost_state \<times> RateLimitPolicy option outcome" where
  "cost_resolveDelegate x hash provider m s =
     (let cacheKey = cost_cacheKey hash provider m in
      case map_of (clDelegates (clPolicy s)) provider of
        Some en \<Rightarrow> if deCacheKey en = cacheKey then (s, Ret (Some (deDelegate en))) else cost_buildDelegate x cacheKey provider m s
      | None \<Rightarrow> cost_buildDelegate x cacheKey provider m s)"

section \<open>Hooks\<close>

definition cost_Mode :: "body_mode \<times> body_mode" where
  "cost_Mode = (BodyModeSkip, BodyModeStream)"

definition cost_OnRequestHeaders :: "'l externs \<Rightarrow> 'l lim_ops \<Rightarrow> extern \<Rightarrow> (any \<Rightarrow> string) \<Rightarrow> (nat \<Rightarrow> env) \<Rightarrow> request \<Rightarrow> params \<Rightarrow> 'l cost_state
    \<Rightarrow> 'l cost_state \<times> unit verdict" where
  "cost_OnRequestHeaders x ops ex hash es rq m s =
     (if providerName (clMeta s) = '''' then (s, Proceed ())
      else case cost_resolveDelegate x hash (providerName (clMeta s)) m s of
        (s, Panic) \<Rightarrow> (s, Crashed)
      | (s, Fail _) \<Rightarrow> (s, Proceed ())
      | (s, Ret None) \<Rightarrow> (s, Proceed ())
      | (s, Ret (Some d)) \<Rightarrow>
          (let md = AList.update (costScaleFactorMetadataKey m) (MAny (AInt (extractCostScaleFactor m)))
                 (AList.update (delegateMetadataKey m) (MAny AOther) (clMeta s));
               (lims, md, out) = OnRequestHeaders ops ex d es rq md (limObjs (clWorld s))
           in (s\<lparr>clPinned := AList.update (delegateMetadataKey m) d (clPinned s), clWorld := (clWorld s)\<lparr>limObjs := lims\<rparr>, clMeta := md\<rparr>, out)))"

text \<open>The delegate of a response: the one pinned, else the one of the provider.\<close>

definition responseDelegate :: "params \<Rightarrow> 'l cost_state \<Rightarrow> RateLimitPolicy option" where
  "responseDelegate m s =
     (case map_of (clPinned s) (delegateMetadataKey m) of
        Some d \<Rightarrow> Some d
      | None \<Rightarrow>
          if providerName (clMeta s) = '''' then None
          else map_option deDelegate (map_of (clDelegates (clPolicy s)) (providerName (clMeta s))))"

definition responseScale :: "params \<Rightarrow> 'l cost_state \<Rightarrow> int" where
  "responseScale m s =
     (case as_int (index (paramsOf (clMeta s)) (costScaleFactorMetadataKey m)) of
        Some v \<Rightarrow> if 0 < v then v else extractCostScaleFactor m
      | None \<Rightarrow> extractCostScaleFactor m)"

text \<open>\<^verbatim>\<open>strconv.ParseInt\<close> in base 10 at 64 bits.\<close>

definition ParseInt :: "string \<Rightarrow> int option" where
  "ParseInt s =
     (let ds = (if s \<noteq> [] \<and> (hd s = CHR ''-'' \<or> hd s = CHR ''+'') then tl s else s);
          n = foldl (\<lambda>a c. 10 * a + digit_val c) 0 ds;
          v = (if s \<noteq> [] \<and> hd s = CHR ''-'' then - n else n)
      in if ds = [] \<or> \<not> list_all is_digit ds \<or> \<not> int64 v then None else Some v)"

definition addScaledHeader :: "(f64 \<Rightarrow> string) \<Rightarrow> int \<Rightarrow> string \<Rightarrow> string \<Rightarrow> header \<Rightarrow> header" where
  "addScaledHeader fmt6 scale sourceKey targetKey h =
     (case (map_of h targetKey, map_of h sourceKey) of
        (None, Some v) \<Rightarrow>
          (case ParseInt v of
             Some n \<Rightarrow> AList.update targetKey (fmt6 (f64_div (f64_of_int n) (f64_of_int scale))) h
           | None \<Rightarrow> h)
      | _ \<Rightarrow> h)"

definition addDollarHeaders :: "(f64 \<Rightarrow> string) \<Rightarrow> int \<Rightarrow> response_action \<Rightarrow> response_action" where
  "addDollarHeaders fmt6 scale act =
     (case act of
        NoAction \<Rightarrow> ModifyHeaders [] []
      | ModifyHeaders h rm \<Rightarrow>
          ModifyHeaders
            (addScaledHeader fmt6 scale ''x-ratelimit-remaining'' ''x-ratelimit-cost-remaining-dollars''
              (addScaledHeader fmt6 scale ''x-ratelimit-limit'' ''x-ratelimit-cost-limit-dollars''
                (addScaledHeader fmt6 scale ''ratelimit-remaining'' ''x-ratelimit-cost-remaining-dollars''
                  (addScaledHeader fmt6 scale ''ratelimit-limit'' ''x-ratelimit-cost-limit-dollars'' h)))) rm
      | ResponseCrash \<Rightarrow> ResponseCrash)"

definition cost_OnResponseHeaders :: "'l lim_ops \<Rightarrow> extern \<Rightarrow> (f64 \<Rightarrow> string) \<Rightarrow> (nat \<Rightarrow> env) \<Rightarrow> response \<Rightarrow> params \<Rightarrow> 'l cost_state
    \<Rightarrow> 'l cost_state \<times> response_action" where
  "cost_OnResponseHeaders ops ex fmt6 es rs m s =
     (case responseDelegate m s of
        None \<Rightarrow> (s, ModifyHeaders [] [])
      | Some d \<Rightarrow>
          let (lims, md, act) = OnResponseHeaders ops ex d es rs (clMeta s) (limObjs (clWorld s))
          in (s\<lparr>clWorld := (clWorld s)\<lparr>limObjs := lims\<rparr>, clMeta := md\<rparr>, addDollarHeaders fmt6 (responseScale m s) act))"

text \<open>The chunk is forwarded unchanged; the flag is a panic.\<close>

definition cost_OnResponseBodyChunk :: "'l lim_ops \<Rightarrow> extern \<Rightarrow> (nat \<Rightarrow> env) \<Rightarrow> response \<Rightarrow> string \<Rightarrow> bool \<Rightarrow> params \<Rightarrow> 'l cost_state
    \<Rightarrow> 'l cost_state \<times> bool" where
  "cost_OnResponseBodyChunk ops ex es rs chunk eos m s =
     (case responseDelegate m s of
        None \<Rightarrow> (s, False)
      | Some d \<Rightarrow>
          let (lims, md, crashed) = OnResponseBodyChunk ops ex d es rs chunk eos (clMeta s) (limObjs (clWorld s))
          in (s\<lparr>clWorld := (clWorld s)\<lparr>limObjs := lims\<rparr>, clMeta := md\<rparr>, crashed))"

definition cost_NeedsMoreResponseData :: "string \<Rightarrow> bool" where
  "cost_NeedsMoreResponseData accumulated = False"

definition cost_OnResponseBody :: "'l lim_ops \<Rightarrow> extern \<Rightarrow> (f64 \<Rightarrow> string) \<Rightarrow> (nat \<Rightarrow> env) \<Rightarrow> response \<Rightarrow> params \<Rightarrow> 'l cost_state
    \<Rightarrow> 'l cost_state \<times> response_action" where
  "cost_OnResponseBody ops ex fmt6 es rs m s =
     (case responseDelegate m s of
        None \<Rightarrow> (s, ModifyHeaders [] [])
      | Some d \<Rightarrow>
          let (lims, act) = OnResponseBody ops ex d es rs (clMeta s) (limObjs (clWorld s))
          in (s\<lparr>clWorld := (clWorld s)\<lparr>limObjs := lims\<rparr>\<rparr>, addDollarHeaders fmt6 (responseScale m s) act))"

section \<open>Lemmas\<close>

definition costConfig :: "int \<Rightarrow> CostExtractionConfig" where
  "costConfig scale = \<lparr>Enabled = True, Sources = [\<lparr>csType = ResponseMetadata, csKey = ''x-llm-cost'', csJSONPath = '''', csExpression = '''',
     csMultiplier = f64_of_int scale\<rparr>], Default = f64_of_int 0\<rparr>"

lemma parse_routeKeys: "parseKeyExtraction (AArr (consumerKeys ''routename'' m)) = Ret (tokenKeys ''routename'' m)"
  using parse_consumerKeys [of "''api''" "''route''" m] by (simp add: keyTypeFor_def)

lemma parse_costExtraction:
  assumes "parseCostExtractionConfig (AMap [(''enabled'', ABool True),
          (''sources'', AArr [AMap [(''type'', AStr ''response_metadata''), (''key'', AStr ''x-llm-cost''), (''multiplier'', AFloat (f64_of_int scale))]]),
          (''default'', AInt 0)]) = Ret ce"
  shows "ce = Some (costConfig scale)"
  using assms by (auto simp: parseCostExtractionConfig_def parseCostSource_def costConfig_def index_def strField_def numField_def CostSourceType_def
    f64_neg_clamp_def f64_zero Let_def split: if_splits outcome.splits)

lemma cost_built:
  assumes "GetPolicy x md (cost_transformToRatelimitParams m) w = (w', Ret d)" "as_arr (index m ''budgetLimits'') = Some items"
  shows "\<exists>q. quotas d = [q] \<and> qName q = ''llm_cost_quota'' \<and> costOf q = Some (costConfig (extractCostScaleFactor m)) \<and>
    qKeyExtraction q = tokenKeys ''routename'' m \<and>
    parseAll parseLimit 0 (List.map_filter (budgetLimit (extractCostScaleFactor m)) items) = Ret (qLimits q)"
proof -
  let ?scale = "extractCostScaleFactor m" and ?limits = "List.map_filter (budgetLimit (extractCostScaleFactor m)) items"
  let ?m = "cost_transformToRatelimitParams m"
  show ?thesis
  proof (cases "?limits = []")
    case True
    then have "?m = [(''quotas'', AArr [])]" using assms(2) by (simp add: cost_transformToRatelimitParams_def Let_def)
    then have "parsePolicyQuotas ?m = Fail ''quotas configuration is required''"
      by (simp add: parsePolicyQuotas_def parseQuotas_def parseKeyExtraction_def index_def)
    then show ?thesis using assms(1) by (simp add: GetPolicy_def Let_def)
  next
    case False
    then have m: "?m = (''quotas'', AArr [costQuota ?scale m ?limits]) # passedThrough m"
      using assms(2) by (simp add: cost_transformToRatelimitParams_def Let_def split: list.splits)
    then have i: "index ?m ''keyExtraction'' = ANil" "map_of ?m ''quotas'' = Some (AArr [costQuota ?scale m ?limits])"
      by (simp_all add: index_def passedThrough_other)
    obtain ps ls where g: "parseAll parseQuota 0 [costQuota ?scale m ?limits] = Ret ps" "length ls = length ps"
      "quotas d = map2 (\<lambda>q l. (fillKeyExtraction [] q)\<lparr>qLimiter := l\<rparr>) ps ls"
      using GetPolicy_quotas [OF assms(1) i] by metis
    obtain q where q: "ps = [q]" "parseQuota 0 (costQuota ?scale m ?limits) = Ret q" using g(1) by (auto split: outcome.splits)
    note f = parseQuota_fields [OF q(2) [unfolded costQuota_def]]
    have k: "qKeyExtraction q = tokenKeys ''routename'' m" using f by (simp add: index_def parse_routeKeys)
    have c: "costOf q = Some (costConfig ?scale)"
    proof -
      obtain ce where ce: "parseCostExtractionConfig (AMap [(''enabled'', ABool True),
          (''sources'', AArr [AMap [(''type'', AStr ''response_metadata''), (''key'', AStr ''x-llm-cost''), (''multiplier'', AFloat (f64_of_int ?scale))]]),
          (''default'', AInt 0)]) = Ret ce" "qCostExtractor q = (case ce of Some c \<Rightarrow> if Enabled c then Some c else None | None \<Rightarrow> None)"
        using f by (auto simp: index_def)
      then show ?thesis using f parse_costExtraction [OF ce(1)] by (simp add: costOf_def costConfig_def)
    qed
    have "parseAll parseLimit 0 ?limits = Ret (qLimits q)" "qName q = ''llm_cost_quota''"
      using f by (simp_all add: index_def parseLimits_def strField_def)
    then show ?thesis using g q(1) k c by (cases ls) (auto simp: fill_nonempty costOf_def tokenKeys_def split: if_splits)
  qed
qed

lemma map_filter_total: "list_all (\<lambda>x. f x \<noteq> None) xs \<Longrightarrow> List.map_filter f xs = map (\<lambda>x. the (f x)) xs"
  by (induction xs) (auto simp: List.map_filter_simps)

lemma scaled_limit:
  assumes "parseLimit i (the (budgetLimit scale (AMap b))) = Ret l" "budgetLimit scale (AMap b) \<noteq> None"
    and "scaledAmount scale (index b ''amount'') = Some v"
  shows "lcLimit l = f64_to_int64 v"
  using assms by (auto simp: budgetLimit_def parseLimit_def parseSingleLimit_def Let_def index_def
    split: option.splits outcome.splits if_splits)

text \<open>The cost of a response, in scaled units.\<close>

definition scaledCost :: "int \<Rightarrow> f64 \<Rightarrow> f64" where
  "scaledCost scale c = f64_neg_clamp (f64_add (f64_of_int 0) (f64_mul c (f64_of_int scale)))"

lemma clamp_clamp: "f64_neg_clamp (f64_neg_clamp v) = f64_neg_clamp v"
  by (simp add: f64_neg_clamp_def f64_zero)

lemma cost_extracted:
  "extractFromMetadataMap x (rsMetadata rs) ''x-llm-cost'' = Some c \<Longrightarrow> fst (ExtractResponseCost x (costConfig scale) rs) = scaledCost scale c"
  by (simp add: ExtractResponseCost_def costConfig_def sumSources_def addSource_def scaledCost_def)

lemma cost_phases: "HasResponsePhaseSources (costConfig scale)" "\<not> HasResponseHeaderOnlyCostSources (costConfig scale)"
  "\<not> RequiresResponseBody (costConfig scale)" "\<not> HasRequestBodyPhase (costConfig scale)"
  by (simp_all add: costConfig_def HasResponsePhaseSources_def HasResponseHeaderOnlyCostSources_def RequiresResponseBody_def
    HasRequestBodyPhase_def headerOnlyLoop_iff)

lemma consume_state: "fst (consumeQuota ops e name key n s) = fst (consumeOp ops e s key n)"
  by (simp add: consumeQuota_def split: prod.splits outcome.splits)

lemma stream_end_meta:
  assumes "map_of m' (metaKey d rateLimitStreamStateKey) \<noteq> None" "\<And>k. k \<noteq> metaKey d rateLimitStreamStateKey \<Longrightarrow> map_of m' k = map_of m k"
  shows "getKeys d m' = getKeys d m" "extractFromMetadataMap x (paramsOf m') ''x-llm-cost'' = extractFromMetadataMap x (paramsOf m) ''x-llm-cost''"
proof -
  have "metaKey d rateLimitStreamStateKey \<noteq> ''x-llm-cost''" by (simp add: metaKey_def rateLimitStreamStateKey_def)
  then show "getKeys d m' = getKeys d m" "extractFromMetadataMap x (paramsOf m') ''x-llm-cost'' = extractFromMetadataMap x (paramsOf m) ''x-llm-cost''"
    using assms(2) [of "metaKey d rateLimitKeysKey"] assms(2) [of "''x-llm-cost''"] streamKey_distinct [of d]
    by (simp_all add: getKeys_def extractFromMetadataMap_def map_of_paramsOf)
qed

lemma single_loop: "fst (responseLoop step es 0 [q] lims acc) = lims[qLimiter q := fst (step (es 0) q (quotaNameFor q 0) (lims ! qLimiter q))]"
  by (auto simp: Let_def split: prod.splits qstep.splits)

lemma cost_stream_end:
  assumes "quotas d = [q]" "costOf q = Some (costConfig scale)" "qName q = ''llm_cost_quota''"
    and "extractFromMetadataMap ex (paramsOf m) ''x-llm-cost'' = Some c" "scaledCost scale c \<noteq> Fin 0"
  shows "fst (OnResponseBodyChunk ops ex d es rs chunk True m lims) =
    lims[qLimiter q := fst (consumeOp ops (es 0) (lims ! qLimiter q) (keyFor (getKeys d m) ''llm_cost_quota'') (f64_to_int64 (scaledCost scale c)))]"
proof -
  obtain st m1 where i: "getOrInitStreamState d m = (st, m1)" by (metis prod.collapse)
  let ?m2 = "AList.update (metaKey d rateLimitStreamStateKey) (MStream st) m1"
  have m: "map_of ?m2 k = map_of m k" if "k \<noteq> metaKey d rateLimitStreamStateKey" for k
    using i that by (auto simp: getOrInitStreamState_def Let_def AList.update_conv' split: option.splits mval.splits)
  note keys = stream_end_meta [of ?m2 d m, OF _ m]
  have acc: "accumulate chunk 0 (quotas d) st = Some st" using assms(1,2) by (simp add: cost_phases)
  have ext: "qCostExtractor q = Some (costConfig scale)" using assms(2) by (simp add: costOf_def split: if_splits)
  have name: "quotaNameFor q 0 = ''llm_cost_quota''" using assms(3) by (simp add: quotaNameFor_def)
  have "fst (ExtractResponseCost ex (costConfig scale) (synthCtx (withMetaResponse rs ?m2) bytes)) = scaledCost scale c" for bytes
    by (rule cost_extracted) (simp add: synthCtx_def withMetaResponse_def keys AList.update_conv' assms(4))
  then have fin: "fst (finalizeStep ops ex (withMetaResponse rs ?m2) (getKeys d ?m2) st (es 0) q ''llm_cost_quota'' s) =
      fst (consumeOp ops (es 0) s (keyFor (getKeys d m) ''llm_cost_quota'') (f64_to_int64 (scaledCost scale c)))" for s
    using assms(2,5) ext by (simp add: finalizeStep_def hasStreamingResponseSourceForQuota_def bodySources_def cost_phases
      consume_state keys AList.update_conv' scaledCost_def clamp_clamp Let_def)
  have "fst (OnResponseBodyChunk ops ex d es rs chunk True m lims) = fst (finalizeAndConsumeStreamingCosts ops ex d es rs ?m2 st lims)"
    by (simp add: OnResponseBodyChunk_def i acc Let_def split: prod.splits)
  then show ?thesis by (simp only: finalizeAndConsumeStreamingCosts_def assms(1) single_loop name fin)
qed

section \<open>Properties\<close>


text \<open>Two instances in one chain. The instance that runs second pins its delegate too; the response of the
  first still goes to the delegate of the first if one of the two limits by consumer and the other does not.
  If both do, or neither, the second has overwritten the entry: both charge the delegate of the second, and the
  budget of the first is not charged.\<close>
lemma cost_pins:
  assumes "providerName (clMeta s) \<noteq> ''''" "cost_resolveDelegate x hash (providerName (clMeta s)) m1 s = (r1, Ret (Some d1))"
    and "cost_OnRequestHeaders x ops ex hash es rq m1 s = (s1, Proceed ())"
    and "providerName (clMeta s1) \<noteq> ''''" "cost_resolveDelegate x hash (providerName (clMeta s1)) m2 (s1\<lparr>clPolicy := p2\<rparr>) = (r2, Ret (Some d2))"
    and "cost_OnRequestHeaders x ops ex hash es2 rq m2 (s1\<lparr>clPolicy := p2\<rparr>) = (s2, Proceed ())"
  shows "responseDelegate m2 s2 = Some d2 \<and>
    responseDelegate m1 (s2\<lparr>clPolicy := clPolicy s1\<rparr>) = Some (if consumerBased m1 = consumerBased m2 then d2 else d1)"
proof -
  have pin: "clPinned t = AList.update (delegateMetadataKey m) d (clPinned s0)"
    if "providerName (clMeta s0) \<noteq> ''''" "cost_resolveDelegate x hash (providerName (clMeta s0)) m s0 = (r, Ret (Some d))"
      "cost_OnRequestHeaders x ops ex hash es0 rq m s0 = (t, out)" for s0 r m d es0 t out
  proof -
    have "clPinned r = clPinned s0"
      using that(2) by (auto simp: cost_resolveDelegate_def cost_buildDelegate_def Let_def split: option.splits if_splits prod.splits outcome.splits)
    then show ?thesis using that by (auto simp: cost_OnRequestHeaders_def Let_def split: prod.splits)
  qed
  have "clPinned s1 = AList.update (delegateMetadataKey m1) d1 (clPinned s)" using pin [OF assms(1-3)] .
  moreover have "clPinned s2 = AList.update (delegateMetadataKey m2) d2 (clPinned s1)" using pin [where ?s0.0 = "s1\<lparr>clPolicy := p2\<rparr>" and m = m2 and r = r2 and d = d2 and t = s2 and ?es0.0 = es2] assms(4-6) by simp
  ultimately show ?thesis by (simp add: responseDelegate_def AList.update_conv' delegateMetadataKey_def)
qed

definition budget :: "int \<Rightarrow> params" where
  "budget n = [(''budgetLimits'', AArr [AMap [(''amount'', AInt n), (''duration'', AStr ''0'')]]), (''costScaleFactor'', AInt 1)]"

lemma budget_scale: "extractCostScaleFactor (budget n) = 1"
  by (simp add: extractCostScaleFactor_def budget_def index_def)

lemma f64_small: "f64_of_int 5 = Fin 5" "f64_of_int 2 = Fin 2" "f64_round 5 = Fin 5" "f64_round 2 = Fin 2"
  using f64_of_int_exact [of 5] f64_of_int_exact [of 2] by (simp_all add: f64_of_int_def)

lemma budget_parsed:
  assumes "f64_of_int n = Fin (of_int n)" "f64_round (of_int n) = Fin (of_int n)"
  shows "\<exists>q. parsePolicyQuotas (cost_transformToRatelimitParams (budget n)) = Ret [q]" "backendOf (cost_transformToRatelimitParams (budget n)) = ''memory''"
  by (simp_all add: cost_transformToRatelimitParams_def budget_scale, simp_all add: budget_def index_def budgetLimit_def f64_one assms costQuota_def
    token_eval f64_zero List.map_filter_simps getStringParam_def dotted_def split_on.simps f64_neg_clamp_def)

lemmas budget_five = budget_parsed [of 5, unfolded of_int_numeral, OF f64_small(1,3)]
lemmas budget_two = budget_parsed [of 2, unfolded of_int_numeral, OF f64_small(2,4)]

definition countOps :: "int lim_ops" where
  "countOps = \<lparr>opAllowN = (\<lambda>e s key n. (s + n, Ret (result_zero\<lparr>Allowed := True\<rparr>))), opGetAvailable = (\<lambda>e s key. Ret 1),
     opClampN = (\<lambda>e s key n. (s + n, Ret result_zero)), opConsumeN = None\<rparr>"

definition pinnedState :: "RateLimitPolicy \<Rightarrow> int cost_state" where
  "pinnedState d = \<lparr>clPolicy = cost_GetPolicy demoMd, clWorld = emptyWorld\<lparr>limObjs := [0]\<rparr>,
     clMeta = [(''x-llm-cost'', MAny (AInt 2))], clPinned = [(''llm_cost_delegate'', d)]\<rparr>"


lemma metaKey_provider: "metaKey d rateLimitResultKey \<noteq> ''provider_name''" "metaKey d rateLimitKeysKey \<noteq> ''provider_name''"
  "metaKey d rateLimitHeaderHandledKey \<noteq> ''provider_name''"
  by (simp_all add: metaKey_def rateLimitResultKey_def rateLimitKeysKey_def rateLimitHeaderHandledKey_def)

lemma unit_update: "lims[i := ()] = (lims :: unit list)"
  by (rule nth_equalityI) simp_all

lemma precheck_passes:
  assumes "quotas d = [q]" "costOf q = Some (costConfig scale)"
  shows "\<exists>md'. OnRequestHeaders grantOps ex d es rq md lims = (lims, md', Proceed ()) \<and> providerName md' = providerName md"
proof -
  have "\<not> HasRequestHeaderOnlyCostSources (costConfig scale)"
    by (simp add: costConfig_def HasRequestHeaderOnlyCostSources_def HasRequestBodyPhase_def headerOnlyLoop_iff)
  then obtain st where "quotaLoop (headerStep grantOps ex d (withMeta rq md)) (extractQuotaKeyFromHeaderCtx d (withMeta rq md)) hasCELKey d es 0 (quotas d) lims noProgress =
      (lims, Proceed st)"
    using assms unit_update [of lims] by (cases "hasCELKey q") (simp_all add: headerStep_def precheckQuota_def grantOps_def Let_def)
  then show ?thesis
    by (simp add: OnRequestHeaders_def Let_def providerName_def index_def map_of_paramsOf AList.update_conv' metaKey_provider [symmetric])
qed

text \<open>An instance with a budget passes a request it sees first.\<close>

lemma cost_first_request:
  assumes "\<exists>q. parsePolicyQuotas (cost_transformToRatelimitParams (budget n)) = Ret [q]" "backendOf (cost_transformToRatelimitParams (budget n)) = ''memory''"
    and "providerName (clMeta s) = ''p''" "clPolicy s = cost_GetPolicy demoMd"
  shows "\<exists>r d s'. cost_resolveDelegate demoExterns hash ''p'' (budget n) s = (r, Ret (Some d)) \<and>
    cost_OnRequestHeaders demoExterns grantOps ex hash es rq (budget n) s = (s', Proceed ()) \<and> providerName (clMeta s') = ''p''"
proof -
  obtain w d where g: "GetPolicy demoExterns demoMd (cost_transformToRatelimitParams (budget n)) (clWorld s) = (w, Ret d)"
    using assms(1,2) GetPolicy_total by blast
  have b: "as_arr (index (budget n) ''budgetLimits'') = Some [AMap [(''amount'', AInt n), (''duration'', AStr ''0'')]]"
    by (simp add: budget_def index_def)
  obtain q where q: "quotas d = [q]" "costOf q = Some (costConfig (extractCostScaleFactor (budget n)))"
    using cost_built [OF g b] by blast
  have nonempty: "index (cost_transformToRatelimitParams (budget n)) ''quotas'' \<noteq> AArr []"
    using assms(1) by (auto simp: parsePolicyQuotas_def parseQuotas_def index_def split: option.splits outcome.splits list.splits any.splits)
  obtain r where r: "cost_resolveDelegate demoExterns hash ''p'' (budget n) s = (r, Ret (Some d))" "clMeta r = clMeta s"
    using assms(4) g nonempty by (auto simp: cost_resolveDelegate_def cost_buildDelegate_def cost_GetPolicy_def Let_def)
  let ?md = "AList.update (costScaleFactorMetadataKey (budget n)) (MAny (AInt (extractCostScaleFactor (budget n))))
                 (AList.update (delegateMetadataKey (budget n)) (MAny AOther) (clMeta r))"
  have "providerName ?md = ''p''"
    using r(2) assms(3) by (simp add: providerName_def index_def map_of_paramsOf AList.update_conv' costScaleFactorMetadataKey_def delegateMetadataKey_def)
  moreover obtain md' where "OnRequestHeaders grantOps ex d es rq ?md (limObjs (clWorld r)) = (limObjs (clWorld r), md', Proceed ())"
    "providerName md' = providerName ?md"
    using precheck_passes [OF q] by blast
  ultimately show ?thesis using r assms(3) by (auto simp: cost_OnRequestHeaders_def Let_def)
qed

definition freshCost :: "unit cost_state" where
  "freshCost = \<lparr>clPolicy = cost_GetPolicy demoMd, clWorld = emptyWorld, clMeta = [(''provider_name'', MAny (AStr ''p''))], clPinned = []\<rparr>"

text \<open>\<open>cost_pins\<close> with a budget of five dollars, then one of two.\<close>
lemma cost_pins_example:
  "\<exists>s1 s2 d2. cost_OnRequestHeaders demoExterns grantOps demoExtern (\<lambda>_. ''h'') (\<lambda>_. \<lparr>clock = 0, sys_now = 0\<rparr>) demoRequest (budget 5) freshCost = (s1, Proceed ()) \<and>
     cost_OnRequestHeaders demoExterns grantOps demoExtern (\<lambda>_. ''h'') (\<lambda>_. \<lparr>clock = 0, sys_now = 0\<rparr>) demoRequest (budget 2)
       (s1\<lparr>clPolicy := cost_GetPolicy demoMd\<rparr>) = (s2, Proceed ()) \<and>
     responseDelegate (budget 2) s2 = Some d2 \<and> responseDelegate (budget 5) (s2\<lparr>clPolicy := clPolicy s1\<rparr>) = Some d2"
proof -
  let ?es = "\<lambda>_ :: nat. \<lparr>clock = 0, sys_now = 0\<rparr>"
  have p: "providerName (clMeta freshCost) = ''p''" by (simp add: freshCost_def providerName_def paramsOf_def anyOf_def index_def)
  obtain r1 d1 s1 where s1: "cost_resolveDelegate demoExterns (\<lambda>_. ''h'') ''p'' (budget 5) freshCost = (r1, Ret (Some d1))"
    "cost_OnRequestHeaders demoExterns grantOps demoExtern (\<lambda>_. ''h'') ?es demoRequest (budget 5) freshCost = (s1, Proceed ())" "providerName (clMeta s1) = ''p''"
    using cost_first_request [OF budget_five p, of "\<lambda>_. ''h''" demoExtern ?es demoRequest] by (auto simp: freshCost_def)
  have p1: "providerName (clMeta (s1\<lparr>clPolicy := cost_GetPolicy demoMd\<rparr>)) = ''p''" using s1(3) by simp
  obtain r2 d2 s2 where s2: "cost_resolveDelegate demoExterns (\<lambda>_. ''h'') ''p'' (budget 2) (s1\<lparr>clPolicy := cost_GetPolicy demoMd\<rparr>) = (r2, Ret (Some d2))"
    "cost_OnRequestHeaders demoExterns grantOps demoExtern (\<lambda>_. ''h'') ?es demoRequest (budget 2) (s1\<lparr>clPolicy := cost_GetPolicy demoMd\<rparr>) = (s2, Proceed ())"
    using cost_first_request [OF budget_two p1, of "\<lambda>_. ''h''" demoExtern ?es demoRequest] by auto
  have "consumerBased (budget 5) = consumerBased (budget 2)" by (simp add: consumerBased_def budget_def index_def)
  then show ?thesis
    using cost_pins [where s = freshCost and ?m1.0 = "budget 5" and ?m2.0 = "budget 2" and ?d1.0 = d1 and ?d2.0 = d2 and ?s1.0 = s1 and ?s2.0 = s2]
      p s1 s2 by fastforce
qed

end
