(* ===== verification/UrlQuery.thy ===== *)
theory UrlQuery
  imports GoValue "HOL-Library.List_Lexorder" "HOL-Library.Char_ord"
begin

text \<open>
  What the routing policies use of Go's \<^verbatim>\<open>net/url\<close>: percent decoding and encoding and the query of a
  URL as \<^verbatim>\<open>url.Values\<close>, a map from names to lists of values. A string is a list of bytes. An error is
  \<open>None\<close>: the callers only ask whether there was one.
\<close>

section \<open>Percent encoding\<close>

definition upperHex :: string where "upperHex = ''0123456789ABCDEF''"

definition unhex :: "char \<Rightarrow> nat option" where
  "unhex c =
     (let n = of_char c :: nat in
      if 48 \<le> n \<and> n \<le> 57 then Some (n - 48)
      else if 97 \<le> n \<and> n \<le> 102 then Some (n - 97 + 10)
      else if 65 \<le> n \<and> n \<le> 70 then Some (n - 65 + 10)
      else None)"

text \<open>\<open>inQuery\<close> tells the two modes apart: in a query component a plus sign is a space.\<close>

fun unescape :: "bool \<Rightarrow> string \<Rightarrow> string option" where
  "unescape inQuery [] = Some []"
| "unescape inQuery (c # s) =
     (if c = CHR ''%'' then
        (case s of
           a # b # rest \<Rightarrow>
             (case (unhex a, unhex b) of
                (Some x, Some y) \<Rightarrow> map_option (\<lambda>t. char_of (16 * x + y) # t) (unescape inQuery rest)
              | _ \<Rightarrow> None)
         | _ \<Rightarrow> None)
      else map_option (\<lambda>t. (if inQuery \<and> c = CHR ''+'' then CHR '' '' else c) # t) (unescape inQuery s))"

abbreviation PathUnescape :: "string \<Rightarrow> string option" where "PathUnescape \<equiv> unescape False"
abbreviation QueryUnescape :: "string \<Rightarrow> string option" where "QueryUnescape \<equiv> unescape True"

definition unreserved :: "char \<Rightarrow> bool" where
  "unreserved c \<longleftrightarrow>
     (let n = of_char c :: nat in 48 \<le> n \<and> n \<le> 57 \<or> 65 \<le> n \<and> n \<le> 90 \<or> 97 \<le> n \<and> n \<le> 122) \<or> c \<in> set ''-_.~''"

definition QueryEscape :: "string \<Rightarrow> string" where
  "QueryEscape s =
     concat (map (\<lambda>c. if c = CHR '' '' then ''+'' else if unreserved c then [c]
       else let n = of_char c :: nat in [CHR ''%'', upperHex ! (n div 16), upperHex ! (n mod 16)]) s)"

section \<open>Queries\<close>

type_synonym url_values = "(string, string list) gomap"

text \<open>\<^verbatim>\<open>strings.Cut\<close> at a byte.\<close>

definition cut :: "char \<Rightarrow> string \<Rightarrow> string \<times> string" where
  "cut c s = (takeWhile (\<lambda>x. x \<noteq> c) s, drop 1 (dropWhile (\<lambda>x. x \<noteq> c) s))"

definition values_Add :: "string \<Rightarrow> string \<Rightarrow> url_values \<Rightarrow> url_values" where
  "values_Add k v m = AList.update k ((case map_of m k of Some vs \<Rightarrow> vs | None \<Rightarrow> []) @ [v]) m"

definition values_Set :: "string \<Rightarrow> string \<Rightarrow> url_values \<Rightarrow> url_values" where
  "values_Set k v m = AList.update k [v] m"

text \<open>One setting of a query: skipped if empty, an error if it has a semicolon or a bad escape.\<close>

definition parsePart :: "string \<Rightarrow> (string \<times> string) option option" where
  "parsePart part =
     (if CHR '';'' \<in> set part then None
      else if part = [] then Some None
      else let (k, v) = cut (CHR ''='') part in
        case (QueryUnescape k, QueryUnescape v) of (Some k, Some v) \<Rightarrow> Some (Some (k, v)) | _ \<Rightarrow> None)"

fun parseParts :: "string list \<Rightarrow> url_values \<Rightarrow> url_values option" where
  "parseParts [] m = Some m"
| "parseParts (part # parts) m =
     (case parsePart part of
        None \<Rightarrow> None
      | Some None \<Rightarrow> parseParts parts m
      | Some (Some (k, v)) \<Rightarrow> parseParts parts (values_Add k v m))"

definition ParseQuery :: "string \<Rightarrow> url_values option" where
  "ParseQuery query = parseParts (split_on (CHR ''&'') query) []"

definition valuePairs :: "url_values \<Rightarrow> (string \<times> string) list" where
  "valuePairs m = concat (map (\<lambda>k. map (Pair k) (case map_of m k of Some vs \<Rightarrow> vs | None \<Rightarrow> [])) (sort (map fst m)))"

definition values_Encode :: "url_values \<Rightarrow> string" where
  "values_Encode m = join ''&'' (map (\<lambda>(k, v). QueryEscape k @ ''='' @ QueryEscape v) (valuePairs m))"

section \<open>Round trip\<close>

lemma hex_digits: "list_all (\<lambda>n. unhex (upperHex ! n) = Some n \<and> upperHex ! n \<notin> set ''&=;'') [0..<16]"
  by code_simp

lemma unhex_upperHex: "n < 16 \<Longrightarrow> unhex (upperHex ! n) = Some n"
  and escape_digit_plain: "n < 16 \<Longrightarrow> upperHex ! n \<notin> set ''&=;''"
  using hex_digits by (auto simp: list_all_iff)

lemma QueryEscape_Cons: "QueryEscape (c # s) = QueryEscape [c] @ QueryEscape s"
  by (simp add: QueryEscape_def)

lemma char_nibbles: "char_of (16 * (of_char c div 16) + of_char c mod 16 :: nat) = (c :: char)"
  by (simp add: mult.commute [of 16])

lemma of_char_nibble: "(of_char c :: nat) div 16 < 16"
  using nat_of_char_less_256 [of c] by (simp add: less_mult_imp_div_less)

lemma QueryUnescape_char: "QueryUnescape (QueryEscape [c] @ s) = map_option ((#) c) (QueryUnescape s)"
proof -
  have "c \<noteq> CHR ''%''" "c \<noteq> CHR ''+''" if "unreserved c" using that by (auto simp: unreserved_def)
  then show ?thesis
    using unhex_upperHex [OF of_char_nibble, of c] unhex_upperHex [of "of_char c mod 16"] char_nibbles [of c]
    by (auto simp: QueryEscape_def Let_def)
qed

lemma QueryUnescape_QueryEscape [simp]: "QueryUnescape (QueryEscape s) = Some s"
proof (induction s)
  case (Cons c s)
  then show ?case by (subst QueryEscape_Cons) (simp add: QueryUnescape_char)
qed (simp add: QueryEscape_def)

lemma QueryEscape_plain: "x \<in> set ''&=;'' \<Longrightarrow> x \<notin> set (QueryEscape s)"
proof (induction s)
  case (Cons c s)
  have "x \<notin> set (QueryEscape [c])"
  proof (cases "c = CHR '' '' \<or> unreserved c")
    case True
    then show ?thesis using Cons.prems by (auto simp: QueryEscape_def unreserved_def)
  next
    case False
    then show ?thesis
      using Cons.prems escape_digit_plain [OF of_char_nibble, of c] escape_digit_plain [of "of_char c mod 16"]
      by (auto simp: QueryEscape_def Let_def)
  qed
  then show ?case using Cons by (subst QueryEscape_Cons) simp
qed (simp add: QueryEscape_def)

definition queryPart :: "string \<times> string \<Rightarrow> string" where
  "queryPart p = QueryEscape (fst p) @ ''='' @ QueryEscape (snd p)"

lemma values_Encode_parts: "values_Encode m = join ''&'' (map queryPart (valuePairs m))"
  by (simp add: values_Encode_def queryPart_def [abs_def] case_prod_unfold)

lemma queryPart_plain: "CHR ''&'' \<notin> set (queryPart p)" "CHR '';'' \<notin> set (queryPart p)"
  using QueryEscape_plain [of "CHR ''&''"] QueryEscape_plain [of "CHR '';''"] by (auto simp: queryPart_def)

lemma cut_queryPart: "cut (CHR ''='') (queryPart p) = (QueryEscape (fst p), QueryEscape (snd p))"
proof -
  have "\<forall>x \<in> set (QueryEscape (fst p)). x \<noteq> CHR ''=''" using QueryEscape_plain [of "CHR ''=''"] by auto
  then show ?thesis by (simp add: cut_def queryPart_def takeWhile_append2 dropWhile_append2)
qed

lemma parsePart_queryPart: "parsePart (queryPart p) = Some (Some p)"
  using queryPart_plain [of p] by (simp add: parsePart_def cut_queryPart) (simp add: queryPart_def)

lemma parseParts_pairs: "parseParts (map queryPart ps) m = Some (foldl (\<lambda>m p. values_Add (fst p) (snd p) m) m ps)"
  by (induction ps arbitrary: m) (simp_all add: parsePart_queryPart split: prod.splits)

lemma ParseQuery_Encode:
  "ParseQuery (values_Encode m) = Some (foldl (\<lambda>m p. values_Add (fst p) (snd p) m) [] (valuePairs m))"
proof (cases "valuePairs m = []")
  case True
  then show ?thesis by (simp add: ParseQuery_def values_Encode_parts parsePart_def)
next
  case False
  then have "split_on (CHR ''&'') (join ''&'' (map queryPart (valuePairs m))) = map queryPart (valuePairs m)"
    using queryPart_plain(1) by (intro split_join) auto
  then show ?thesis by (simp add: ParseQuery_def values_Encode_parts parseParts_pairs)
qed

text \<open>A map of values has a value for each of its names.\<close>

definition values_ok :: "url_values \<Rightarrow> bool" where
  "values_ok m \<longleftrightarrow> (\<forall>k vs. map_of m k = Some vs \<longrightarrow> vs \<noteq> [])"

lemma map_of_adds:
  "map_of (foldl (\<lambda>m p. values_Add (fst p) (snd p) m) m ps) k =
     (case map snd (filter (\<lambda>p. fst p = k) ps) of
        [] \<Rightarrow> map_of m k
      | vs \<Rightarrow> Some ((case map_of m k of Some us \<Rightarrow> us | None \<Rightarrow> []) @ vs))"
  by (induction ps arbitrary: m) (auto simp: values_Add_def split: list.splits option.splits)

lemma filter_pairs:
  assumes "distinct ks"
  shows "map snd (filter (\<lambda>p. fst p = k) (concat (map (\<lambda>k. map (Pair k) (f k)) ks))) = (if k \<in> set ks then f k else [])"
  using assms by (induction ks) (auto simp: filter_map comp_def filter_empty_conv)

lemma ParseQuery_roundtrip:
  assumes "map_ok m" "values_ok m"
  obtains m' where "ParseQuery (values_Encode m) = Some m'" "map_of m' = map_of m"
proof -
  let ?f = "\<lambda>k. case map_of m k of Some vs \<Rightarrow> vs | None \<Rightarrow> []"
  let ?m' = "foldl (\<lambda>m p. values_Add (fst p) (snd p) m) [] (valuePairs m)"
  have d: "distinct (sort (map fst m))" using assms(1) by (simp add: map_ok_def)
  have "map_of ?m' k = map_of m k" for k
  proof (cases "map_of m k")
    case None
    then have "k \<notin> fst ` set m" by (simp add: map_of_eq_None_iff)
    then have "map snd (filter (\<lambda>p. fst p = k) (valuePairs m)) = []"
      using filter_pairs [OF d, of k ?f] by (simp add: valuePairs_def)
    then show ?thesis using None unfolding map_of_adds by (simp del: map_is_Nil_conv)
  next
    case (Some vs)
    then have "k \<in> fst ` set m" "vs \<noteq> []" using assms(2) by (force dest: map_of_SomeD, simp add: values_ok_def)
    then have "map snd (filter (\<lambda>p. fst p = k) (valuePairs m)) = vs"
      using Some filter_pairs [OF d, of k ?f] by (simp add: valuePairs_def)
    then show ?thesis using Some \<open>vs \<noteq> []\<close> unfolding map_of_adds by (cases vs) simp_all
  qed
  then have "map_of ?m' = map_of m" by (rule ext)
  then show thesis using that [OF ParseQuery_Encode] by blast
qed

lemma values_ok_Set: "values_ok m \<Longrightarrow> values_ok (values_Set k v m)"
  by (auto simp: values_ok_def values_Set_def)

lemma parseParts_ok:
  "parseParts parts m = Some m' \<Longrightarrow> map_ok m \<Longrightarrow> values_ok m \<Longrightarrow> map_ok m' \<and> values_ok m'"
proof (induction parts arbitrary: m)
  case (Cons part parts)
  have "map_ok (values_Add k v m) \<and> values_ok (values_Add k v m)" for k v
    using Cons.prems(2,3) by (auto simp: values_Add_def values_ok_def)
  then show ?case using Cons by (auto split: option.splits)
qed simp

lemma ParseQuery_ok: "ParseQuery q = Some m \<Longrightarrow> map_ok m \<and> values_ok m"
  using parseParts_ok [of _ "[]" m] by (simp add: ParseQuery_def values_ok_def)

end
