(* ===== verification/ModelRouting.thy ===== *)
theory ModelRouting
  imports CostExtractor UrlQuery "HOL-Library.Multiset"
begin

text \<open>
  The policies \<^verbatim>\<open>model-round-robin\<close> and \<^verbatim>\<open>model-weighted-round-robin\<close>: each request is given the next model
  of a list, or of a list in which a model is repeated as its weight says; a model whose response is an
  error is left out for a while. The two sources differ in the list and the index; the rest of the code
  is the same and is written once here, with the names of the metadata keys as an argument. An operation
  holds the lock of the policy and is a step. Arguments stand for the JSON functions, the JSONPath
  function of the SDK and the regular expression matcher; the text of a wrapped error of
  \<^verbatim>\<open>extractInt\<close>, which is only logged, is left out.
\<close>

section \<open>Data\<close>

record WeightedModel =
  wmModel :: string
  wmWeight :: int
  wmProvider :: string

record ModelConfig =
  mcModel :: string
  mcProvider :: string

record RequestModelConfig =
  rmLocation :: string
  rmIdentifier :: string

record 'm routing_params =
  rpModels :: "'m list"
  rpSuspendDuration :: int
  rpRequestModel :: RequestModelConfig

type_synonym suspensions = "(string, instant) gomap"

record wrr =
  currentIndex :: int
  suspendedModels :: suspensions
  weightedSequence :: "WeightedModel list"
  wrrParams :: "WeightedModel routing_params"

record rr =
  rrIndex :: int
  rrSuspended :: suspensions
  rrParams :: "ModelConfig routing_params"

definition suspensionKey :: "string \<Rightarrow> string \<Rightarrow> string" where
  "suspensionKey provider model = provider @ [CHR 0x00] @ model"

section \<open>Parameters\<close>

definition extractInt :: "any \<Rightarrow> int option" where
  "extractInt v =
     (case v of
        AInt i \<Rightarrow> Some i
      | AInt64 i \<Rightarrow> Some i
      | AFloat x \<Rightarrow> if x \<noteq> f64_of_int (f64_to_int64 x) then None else Some (f64_to_int64 x)
      | _ \<Rightarrow> None)"

definition modelField :: "nat \<Rightarrow> string \<Rightarrow> string" where
  "modelField i field = quoted (''models['' @ itoa (int i) @ '']'' @ field)"

definition parseModelName :: "nat \<Rightarrow> params \<Rightarrow> string outcome" where
  "parseModelName i m =
     (case map_of m ''model'' of
        None \<Rightarrow> Fail (modelField i ''.model'' @ '' is required'')
      | Some v \<Rightarrow>
          (case as_str v of
             None \<Rightarrow> Fail (modelField i ''.model'' @ '' must be a string'')
           | Some s \<Rightarrow> if s = [] then Fail (modelField i ''.model'' @ '' must have a minimum length of 1'') else Ret s))"

definition parseProvider :: "nat \<Rightarrow> params \<Rightarrow> string outcome" where
  "parseProvider i m =
     (case map_of m ''provider'' of
        None \<Rightarrow> Ret []
      | Some v \<Rightarrow> (case as_str v of None \<Rightarrow> Fail (modelField i ''.provider'' @ '' must be a string'') | Some s \<Rightarrow> Ret s))"

definition parseWeight :: "nat \<Rightarrow> params \<Rightarrow> int outcome" where
  "parseWeight i m =
     (case map_of m ''weight'' of
        None \<Rightarrow> Fail (modelField i ''.weight'' @ '' is required'')
      | Some v \<Rightarrow>
          (case extractInt v of
             None \<Rightarrow> Fail (modelField i ''.weight'' @ '' must be an integer'')
           | Some w \<Rightarrow> if w < 1 then Fail (modelField i ''.weight'' @ '' must be >= 1'') else Ret w))"

definition parseModel :: "nat \<Rightarrow> any \<Rightarrow> ModelConfig outcome" where
  "parseModel i item =
     (case as_map item of
        None \<Rightarrow> Fail (modelField i [] @ '' must be an object'')
      | Some m \<Rightarrow>
          (case (parseModelName i m, parseProvider i m) of
             (Fail err, _) \<Rightarrow> Fail err
           | (_, Fail err) \<Rightarrow> Fail err
           | (Ret s, Ret p) \<Rightarrow> Ret \<lparr>mcModel = s, mcProvider = p\<rparr>
           | _ \<Rightarrow> Panic))"

definition parseWeightedModel :: "nat \<Rightarrow> any \<Rightarrow> WeightedModel outcome" where
  "parseWeightedModel i item =
     (case as_map item of
        None \<Rightarrow> Fail (modelField i [] @ '' must be an object'')
      | Some m \<Rightarrow>
          (case (parseModelName i m, parseWeight i m, parseProvider i m) of
             (Fail err, _, _) \<Rightarrow> Fail err
           | (_, Fail err, _) \<Rightarrow> Fail err
           | (_, _, Fail err) \<Rightarrow> Fail err
           | (Ret s, Ret w, Ret p) \<Rightarrow> Ret \<lparr>wmModel = s, wmWeight = w, wmProvider = p\<rparr>
           | _ \<Rightarrow> Panic))"

definition DefaultSuspendDuration :: int where "DefaultSuspendDuration = 30"

definition parseSuspendDuration :: "params \<Rightarrow> int outcome" where
  "parseSuspendDuration m =
     (case map_of m ''suspendDuration'' of
        None \<Rightarrow> Ret DefaultSuspendDuration
      | Some v \<Rightarrow>
          (case extractInt v of
             None \<Rightarrow> Fail (quoted ''suspendDuration'' @ '' must be an integer'')
           | Some d \<Rightarrow> if d < 0 then Fail (quoted ''suspendDuration'' @ '' must be >= 0'') else Ret d))"

definition validLocations :: "string list" where
  "validLocations = [''payload'', ''header'', ''queryParam'', ''pathParam'']"

definition requiredString :: "params \<Rightarrow> string \<Rightarrow> string outcome" where
  "requiredString m k =
     (case map_of m k of
        None \<Rightarrow> Fail (quoted (''requestModel.'' @ k) @ '' is required'')
      | Some v \<Rightarrow> (case as_str v of None \<Rightarrow> Fail (quoted (''requestModel.'' @ k) @ '' must be a string'') | Some s \<Rightarrow> Ret s))"

definition parseRequestModel :: "params \<Rightarrow> RequestModelConfig outcome" where
  "parseRequestModel m =
     (case map_of m ''requestModel'' of
        None \<Rightarrow> Fail (quoted ''requestModel'' @ '' configuration is required'')
      | Some v \<Rightarrow>
          (case as_map v of
             None \<Rightarrow> Fail (quoted ''requestModel'' @ '' must be an object'')
           | Some r \<Rightarrow>
               (case requiredString r ''location'' of
                  Fail err \<Rightarrow> Fail err
                | Panic \<Rightarrow> Panic
                | Ret loc \<Rightarrow>
                    if loc \<notin> set validLocations then
                      Fail (quoted ''requestModel.location'' @ '' must be one of: payload, header, queryParam, pathParam'')
                    else (case requiredString r ''identifier'' of
                            Fail err \<Rightarrow> Fail err
                          | Panic \<Rightarrow> Panic
                          | Ret ident \<Rightarrow>
                              if ident = [] then Fail (quoted ''requestModel.identifier'' @ '' must have a minimum length of 1'')
                              else Ret \<lparr>rmLocation = loc, rmIdentifier = ident\<rparr>))))"

definition parseParams :: "(nat \<Rightarrow> any \<Rightarrow> 'm outcome) \<Rightarrow> params \<Rightarrow> 'm routing_params outcome" where
  "parseParams parse m =
     (case map_of m ''models'' of
        None \<Rightarrow> Fail (quoted ''models'' @ '' parameter is required'')
      | Some v \<Rightarrow>
          (case as_arr v of
             None \<Rightarrow> Fail (quoted ''models'' @ '' must be an array'')
           | Some [] \<Rightarrow> Fail (quoted ''models'' @ '' array must contain at least one model'')
           | Some items \<Rightarrow>
               (case (parseAll parse 0 items, parseSuspendDuration m, parseRequestModel m) of
                  (Fail err, _, _) \<Rightarrow> Fail err
                | (_, Fail err, _) \<Rightarrow> Fail err
                | (_, _, Fail err) \<Rightarrow> Fail err
                | (Ret ms, Ret d, Ret r) \<Rightarrow> Ret \<lparr>rpModels = ms, rpSuspendDuration = d, rpRequestModel = r\<rparr>
                | _ \<Rightarrow> Panic)))"

definition wrr_parseParams :: "params \<Rightarrow> WeightedModel routing_params outcome" where
  "wrr_parseParams = parseParams parseWeightedModel"

definition rr_parseParams :: "params \<Rightarrow> ModelConfig routing_params outcome" where
  "rr_parseParams = parseParams parseModel"

section \<open>Selection\<close>

text \<open>The additions to the total weight wrap; the sequence is empty when they give zero.\<close>

definition totalWeight :: "WeightedModel list \<Rightarrow> int" where
  "totalWeight ms = foldl (\<lambda>t m. if 0 < wmWeight m then wrap64 (t + wmWeight m) else t) 0 ms"

definition buildWeightedSequence :: "WeightedModel list \<Rightarrow> WeightedModel list" where
  "buildWeightedSequence ms =
     (if totalWeight ms = 0 then [] else concat (map (\<lambda>m. replicate (nat (wmWeight m)) m) ms))"

definition wmKey :: "WeightedModel \<Rightarrow> string" where "wmKey m = suspensionKey (wmProvider m) (wmModel m)"
definition mcKey :: "ModelConfig \<Rightarrow> string" where "mcKey m = suspensionKey (mcProvider m) (mcModel m)"

text \<open>Go's remainder has the sign of the dividend; a negative index panics (\<open>None\<close>).\<close>

definition go_rem :: "int \<Rightarrow> int \<Rightarrow> int" where
  "go_rem a b = (if a < 0 then - ((- a) mod b) else a mod b)"

text \<open>The loop of \<^verbatim>\<open>selectNextAvailableWeightedModel\<close> with the attempts left.\<close>

fun selectWeighted :: "instant \<Rightarrow> WeightedModel list \<Rightarrow> nat \<Rightarrow> int \<Rightarrow> suspensions \<Rightarrow> (int \<times> suspensions \<times> WeightedModel option) option" where
  "selectWeighted now xs 0 i susp = Some (i, susp, None)"
| "selectWeighted now xs (Suc n) i susp =
     (let j = go_rem i (int (length xs)) in
      if j < 0 then None
      else let m = xs ! nat j; i' = wrap64 (i + 1) in
        case map_of susp (wmKey m) of
          Some suspendedUntil \<Rightarrow>
            if now < suspendedUntil then selectWeighted now xs n i' susp
            else Some (i', AList.delete (wmKey m) susp, Some m)
        | None \<Rightarrow> Some (i', susp, Some m))"

definition selectNextAvailableWeightedModel :: "instant \<Rightarrow> wrr \<Rightarrow> (wrr \<times> WeightedModel option) option" where
  "selectNextAvailableWeightedModel now p =
     (if weightedSequence p = [] then Some (p, None)
      else map_option (\<lambda>(i, susp, m). (p\<lparr>currentIndex := i, suspendedModels := susp\<rparr>, m))
        (selectWeighted now (weightedSequence p) (length (weightedSequence p)) (currentIndex p) (suspendedModels p)))"

text \<open>The loop of \<^verbatim>\<open>selectNextAvailableModel\<close>; an index out of range panics.\<close>

fun selectModel :: "instant \<Rightarrow> ModelConfig list \<Rightarrow> nat \<Rightarrow> int \<Rightarrow> suspensions \<Rightarrow> (int \<times> suspensions \<times> ModelConfig option) option" where
  "selectModel now xs 0 i susp = Some (i, susp, None)"
| "selectModel now xs (Suc n) i susp =
     (if i < 0 \<or> int (length xs) \<le> i then None
      else let m = xs ! nat i; i' = go_rem (wrap64 (i + 1)) (int (length xs)) in
        case map_of susp (mcKey m) of
          Some suspendedUntil \<Rightarrow>
            if now < suspendedUntil then selectModel now xs n i' susp
            else Some (i', AList.delete (mcKey m) susp, Some m)
        | None \<Rightarrow> Some (i', susp, Some m))"

definition selectNextAvailableModel :: "instant \<Rightarrow> rr \<Rightarrow> (rr \<times> ModelConfig option) option" where
  "selectNextAvailableModel now p =
     (let ms = rpModels (rrParams p) in
      map_option (\<lambda>(i, susp, m). (p\<lparr>rrIndex := i, rrSuspended := susp\<rparr>, m))
        (selectModel now ms (length ms) (rrIndex p) (rrSuspended p)))"

section \<open>Factories\<close>

definition invalidParams :: "string \<Rightarrow> string" where "invalidParams err = ''invalid params: '' @ err"

definition GetWeightedPolicy :: "params \<Rightarrow> wrr outcome" where
  "GetWeightedPolicy m =
     (case wrr_parseParams m of
        Fail err \<Rightarrow> Fail (invalidParams err)
      | Panic \<Rightarrow> Panic
      | Ret ps \<Rightarrow> Ret \<lparr>currentIndex = 0, suspendedModels = [], weightedSequence = buildWeightedSequence (rpModels ps), wrrParams = ps\<rparr>)"

definition GetRoundRobinPolicy :: "params \<Rightarrow> rr outcome" where
  "GetRoundRobinPolicy m =
     (case rr_parseParams m of
        Fail err \<Rightarrow> Fail (invalidParams err)
      | Panic \<Rightarrow> Panic
      | Ret ps \<Rightarrow> Ret \<lparr>rrIndex = 0, rrSuspended = [], rrParams = ps\<rparr>)"

section \<open>Paths\<close>

definition modifyQueryParamInPath :: "string \<Rightarrow> string \<Rightarrow> string \<Rightarrow> string" where
  "modifyQueryParamInPath rawPath paramName newModel =
     (if rawPath = [] then rawPath
      else case PathUnescape rawPath of
        None \<Rightarrow> rawPath
      | Some decodedPath \<Rightarrow>
          (let parts = split_on (CHR ''?'') decodedPath; pathBase = hd parts in
           case (if length parts = 2 then ParseQuery (parts ! 1) else Some []) of
             None \<Rightarrow> rawPath
           | Some queryValues \<Rightarrow> pathBase @ ''?'' @ values_Encode (values_Set paramName newModel queryValues)))"

text \<open>\<open>findRe re s\<close>: the submatch indices of \<^verbatim>\<open>regexp.FindStringSubmatchIndex\<close>, \<open>None\<close> if \<open>re\<close> does not compile.\<close>

definition modifyPathParamInPath :: "(string \<Rightarrow> string \<Rightarrow> int list option) \<Rightarrow> string \<Rightarrow> string \<Rightarrow> string \<Rightarrow> string" where
  "modifyPathParamInPath findRe rawPath regexPattern newModel =
     (if rawPath = [] then rawPath
      else case PathUnescape rawPath of
        None \<Rightarrow> rawPath
      | Some decodedPath \<Rightarrow>
          (let parts = split_on (CHR ''?'') decodedPath; pathWithoutQuery = hd parts;
               queryString = (if length parts = 2 then parts ! 1 else []) in
           case findRe regexPattern pathWithoutQuery of
             None \<Rightarrow> rawPath
           | Some ix \<Rightarrow>
               if length ix < 4 \<or> ix ! 2 = -1 \<or> ix ! 3 = -1 then rawPath
               else let updatedPath = take (nat (ix ! 2)) pathWithoutQuery @ newModel @ drop (nat (ix ! 3)) pathWithoutQuery
                 in if queryString \<noteq> [] then updatedPath @ ''?'' @ queryString else updatedPath))"

section \<open>Hooks\<close>

text \<open>The metadata keys of the two policies differ in their prefix.\<close>

definition wrrPrefix :: string where "wrrPrefix = ''model_weighted_roundrobin''"
definition rrPrefix :: string where "rrPrefix = ''model_roundrobin''"

definition MetadataKeySelectedModel :: "string \<Rightarrow> string" where "MetadataKeySelectedModel pre = pre @ ''.selected_model''"
definition MetadataKeySelectedProvider :: "string \<Rightarrow> string" where "MetadataKeySelectedProvider pre = pre @ ''.selected_provider''"
definition MetadataKeyOriginalModel :: "string \<Rightarrow> string" where "MetadataKeyOriginalModel pre = pre @ ''.original_model''"
definition MetadataKeyHeadersProcessed :: "string \<Rightarrow> string" where "MetadataKeyHeadersProcessed pre = pre @ ''.headers_processed''"
definition MetadataKeyProviderRouting :: string where "MetadataKeyProviderRouting = ''selected_provider''"

record route_mods =
  upstreamName :: "string option"
  headersToSet :: "(string \<times> string) list"
  newPath :: "string option"

datatype route_action = Forward route_mods | Immediate int string

text \<open>What a hook does with the model it was given: \<open>h\<close> are the downstream headers and \<open>path\<close> the path.\<close>

definition applyModel :: "(string \<Rightarrow> string \<Rightarrow> int list option) \<Rightarrow> string \<Rightarrow> RequestModelConfig \<Rightarrow> headers option \<Rightarrow> string
    \<Rightarrow> string \<Rightarrow> string \<Rightarrow> params \<Rightarrow> params \<times> route_mods" where
  "applyModel findRe pre rm h path model provider md =
     (let md = AList.update (MetadataKeySelectedModel pre) (AStr model) md;
          md = AList.update (MetadataKeySelectedProvider pre) (AStr provider) md;
          md = AList.update (MetadataKeyHeadersProcessed pre) (ABool True) md;
          md = (if provider \<noteq> [] then AList.update MetadataKeyProviderRouting (AStr provider) md else md);
          mods = \<lparr>upstreamName = (if provider \<noteq> [] then Some provider else None), headersToSet = [], newPath = None\<rparr>;
          ident = rmIdentifier rm in
      if rmLocation rm = ''header'' then
        ((case headerGet h ident of
            v # _ \<Rightarrow> if v \<noteq> [] then AList.update (MetadataKeyOriginalModel pre) (AStr v) md else md
          | [] \<Rightarrow> md), mods\<lparr>headersToSet := [(ident, model)]\<rparr>)
      else if rmLocation rm = ''queryParam'' then
        (let p = modifyQueryParamInPath path ident model in (md, if p \<noteq> path then mods\<lparr>newPath := Some p\<rparr> else mods))
      else if rmLocation rm = ''pathParam'' then
        (let p = modifyPathParamInPath findRe path ident model in (md, if p \<noteq> path then mods\<lparr>newPath := Some p\<rparr> else mods))
      else (md, mods))"

definition allUnavailable :: route_action where
  "allUnavailable = Immediate 503 (''{'' @ [CHR 0x22] @ ''error'' @ [CHR 0x22] @ '': '' @ [CHR 0x22] @ ''All models are currently unavailable'' @ [CHR 0x22] @ ''}'')"

definition wrr_OnRequestHeaders :: "(string \<Rightarrow> string \<Rightarrow> int list option) \<Rightarrow> instant \<Rightarrow> headers option \<Rightarrow> string \<Rightarrow> wrr \<Rightarrow> params
    \<Rightarrow> (wrr \<times> params \<times> route_action) option" where
  "wrr_OnRequestHeaders findRe now h path p md =
     (case selectNextAvailableWeightedModel now p of
        None \<Rightarrow> None
      | Some (p', None) \<Rightarrow> Some (p', md, allUnavailable)
      | Some (p', Some m) \<Rightarrow>
          (let (md, mods) = applyModel findRe wrrPrefix (rpRequestModel (wrrParams p)) h path (wmModel m) (wmProvider m) md
           in Some (p', md, Forward mods)))"

definition rr_OnRequestHeaders :: "(string \<Rightarrow> string \<Rightarrow> int list option) \<Rightarrow> instant \<Rightarrow> headers option \<Rightarrow> string \<Rightarrow> rr \<Rightarrow> params
    \<Rightarrow> (rr \<times> params \<times> route_action) option" where
  "rr_OnRequestHeaders findRe now h path p md =
     (case selectNextAvailableModel now p of
        None \<Rightarrow> None
      | Some (p', None) \<Rightarrow> Some (p', md, allUnavailable)
      | Some (p', Some m) \<Rightarrow>
          (let (md, mods) = applyModel findRe rrPrefix (rpRequestModel (rrParams p)) h path (mcModel m) (mcProvider m) md
           in Some (p', md, Forward mods)))"

text \<open>A response with an error suspends the target that the request was given.\<close>

definition suspend :: "string \<Rightarrow> int \<Rightarrow> instant \<Rightarrow> int \<Rightarrow> params \<Rightarrow> suspensions \<Rightarrow> suspensions" where
  "suspend pre suspendDuration now status md susp =
     (let model = strField md (MetadataKeySelectedModel pre); provider = strField md (MetadataKeySelectedProvider pre) in
      if (500 \<le> status \<or> status = 429) \<and> 0 < suspendDuration \<and> model \<noteq> [] then
        AList.update (suspensionKey provider model) (time_Add now (wrap64 (wrap64 suspendDuration * Second))) susp
      else susp)"

definition wrr_OnResponseHeaders :: "instant \<Rightarrow> int \<Rightarrow> params \<Rightarrow> wrr \<Rightarrow> wrr" where
  "wrr_OnResponseHeaders now status md p =
     p\<lparr>suspendedModels := suspend wrrPrefix (rpSuspendDuration (wrrParams p)) now status md (suspendedModels p)\<rparr>"

definition rr_OnResponseHeaders :: "instant \<Rightarrow> int \<Rightarrow> params \<Rightarrow> rr \<Rightarrow> rr" where
  "rr_OnResponseHeaders now status md p =
     p\<lparr>rrSuspended := suspend rrPrefix (rpSuspendDuration (rrParams p)) now status md (rrSuspended p)\<rparr>"

text \<open>The body phase: a JSON object, or an error text, for each of the three functions.\<close>

record json_ops =
  jsonUnmarshal :: "string \<Rightarrow> string + params"
  setValueAtJSONPath :: "params \<Rightarrow> string \<Rightarrow> string \<Rightarrow> string + params"
  jsonMarshal :: "params \<Rightarrow> string + string"

datatype body_action = KeepBody | ReplaceBody string | RejectBody int string

definition errorBody :: "string \<Rightarrow> string" where
  "errorBody s = ''{'' @ [CHR 0x22] @ ''error'' @ [CHR 0x22] @ '':'' @ [CHR 0x22] @ s @ [CHR 0x22] @ ''}''"

definition route_OnRequestBody :: "json_ops \<Rightarrow> string \<Rightarrow> RequestModelConfig \<Rightarrow> params \<Rightarrow> string option \<Rightarrow> body_action" where
  "route_OnRequestBody j pre rm md bodyContent =
     (let selectedModel = strField md (MetadataKeySelectedModel pre); identifier = rmIdentifier rm in
      if rmLocation rm \<noteq> ''payload'' \<or> selectedModel = [] then KeepBody
      else case bodyContent of
        None \<Rightarrow> RejectBody 400 (errorBody ''Request body is empty.'')
      | Some content \<Rightarrow>
          (case jsonUnmarshal j content of
             Inl err \<Rightarrow> RejectBody 400 (errorBody (''Invalid JSON in request body: '' @ err))
           | Inr payload \<Rightarrow>
               (case setValueAtJSONPath j payload identifier selectedModel of
                  Inl err \<Rightarrow> RejectBody 400 (errorBody (''Invalid or missing model at '' @ quoted identifier @ '': '' @ err))
                | Inr payload' \<Rightarrow>
                    (case jsonMarshal j payload' of
                       Inl err \<Rightarrow> RejectBody 500 (errorBody (''Failed to serialize updated request body: '' @ err))
                     | Inr updated \<Rightarrow> ReplaceBody updated))))"

definition wrr_OnRequestBody :: "json_ops \<Rightarrow> wrr \<Rightarrow> params \<Rightarrow> string option \<Rightarrow> body_action" where
  "wrr_OnRequestBody j p md bodyContent = route_OnRequestBody j wrrPrefix (rpRequestModel (wrrParams p)) md bodyContent"

definition rr_OnRequestBody :: "json_ops \<Rightarrow> rr \<Rightarrow> params \<Rightarrow> string option \<Rightarrow> body_action" where
  "rr_OnRequestBody j p md bodyContent = route_OnRequestBody j rrPrefix (rpRequestModel (rrParams p)) md bodyContent"

end
