(* ===== verification/ModelFairness.thy ===== *)
theory ModelFairness
  imports ModelRouting
begin

text \<open>
  The selection of the model routing policies: each model gets its share, a suspended target is not
  selected, the two policies select alike, and the query parameter is set.
\<close>

section \<open>One selection\<close>

definition available :: "suspensions \<Rightarrow> instant \<Rightarrow> WeightedModel \<Rightarrow> bool" where
  "available susp now m \<longleftrightarrow> (case map_of susp (wmKey m) of Some u \<Rightarrow> u \<le> now | None \<Rightarrow> True)"

definition targetAt :: "'a list \<Rightarrow> nat \<Rightarrow> 'a" where
  "targetAt xs k = xs ! (k mod length xs)"

lemma targetAt_in [simp]: "xs \<noteq> [] \<Longrightarrow> targetAt xs k \<in> set xs"
  by (simp add: targetAt_def)

lemma go_rem_nonneg: "go_rem (int k) (int n) = int (k mod n)"
  by (simp add: go_rem_def zmod_int)

lemma wrap64_Suc: "int k + 1 < 2 ^ 63 \<Longrightarrow> wrap64 (int k + 1) = int (Suc k)"
  by (simp add: wrap64_def)

lemma delete_absent: "map_of susp k = None \<Longrightarrow> AList.delete k susp = susp"
  by (induction susp) (auto split: if_splits)

lemma selectWeighted_skip:
  assumes "\<not> available susp now (targetAt xs k)" "xs \<noteq> []" "int k + 1 < 2 ^ 63"
  shows "selectWeighted now xs (Suc n) (int k) susp = selectWeighted now xs n (int (Suc k)) susp"
  using assms(1) unfolding selectWeighted.simps go_rem_nonneg wrap64_Suc [OF assms(3)]
  by (auto simp: available_def targetAt_def Let_def split: option.splits)

lemma selectWeighted_take:
  assumes "available susp now (targetAt xs k)" "xs \<noteq> []" "int k + 1 < 2 ^ 63"
  shows "selectWeighted now xs (Suc n) (int k) susp =
    Some (int (Suc k), AList.delete (wmKey (targetAt xs k)) susp, Some (targetAt xs k))"
  using assms(1) delete_absent [of susp "wmKey (targetAt xs k)"] unfolding selectWeighted.simps go_rem_nonneg wrap64_Suc [OF assms(3)]
  by (auto simp: available_def targetAt_def Let_def split: option.splits)

text \<open>What a selection does: it stops at the first available target, or comes round.\<close>

lemma selectWeighted_cases:
  assumes "xs \<noteq> []" "int k + int n < 2 ^ 63"
  shows "(\<exists>j < n. (\<forall>l < j. \<not> available susp now (targetAt xs (k + l))) \<and> available susp now (targetAt xs (k + j)) \<and>
      selectWeighted now xs n (int k) susp =
        Some (int (k + j + 1), AList.delete (wmKey (targetAt xs (k + j))) susp, Some (targetAt xs (k + j)))) \<or>
    (\<forall>l < n. \<not> available susp now (targetAt xs (k + l))) \<and> selectWeighted now xs n (int k) susp = Some (int (k + n), susp, None)"
  using assms
proof (induction n arbitrary: k)
  case (Suc n)
  have b: "int k + 1 < 2 ^ 63" "int (Suc k) + int n < 2 ^ 63" using Suc.prems(2) by simp_all
  show ?case
  proof (cases "available susp now (targetAt xs k)")
    case True
    then show ?thesis using selectWeighted_take [OF True Suc.prems(1) b(1), of n] by (intro disjI1 exI [of _ 0]) simp
  next
    case False
    note skip = selectWeighted_skip [OF False Suc.prems(1) b(1), of n]
    from Suc.IH [OF Suc.prems(1) b(2)] show ?thesis
    proof (elim disjE exE conjE)
      fix j assume j: "j < n" "\<forall>l < j. \<not> available susp now (targetAt xs (Suc k + l))" "available susp now (targetAt xs (Suc k + j))"
        "selectWeighted now xs n (int (Suc k)) susp =
          Some (int (Suc k + j + 1), AList.delete (wmKey (targetAt xs (Suc k + j))) susp, Some (targetAt xs (Suc k + j)))"
      have "\<forall>l < Suc j. \<not> available susp now (targetAt xs (k + l))" using False j(2) by (auto simp: less_Suc_eq_0_disj)
      then show ?thesis using j skip by (intro disjI1 exI [of _ "Suc j"]) simp
    next
      assume n: "\<forall>l < n. \<not> available susp now (targetAt xs (Suc k + l))"
        "selectWeighted now xs n (int (Suc k)) susp = Some (int (Suc k + n), susp, None)"
      have "\<forall>l < Suc n. \<not> available susp now (targetAt xs (k + l))" using False n(1) by (auto simp: less_Suc_eq_0_disj)
      then show ?thesis using n(2) skip by (intro disjI2) simp
    qed
  qed
qed simp

lemma round_trip_targets: "map (\<lambda>j. targetAt xs (k + j)) [0..<length xs] = rotate k xs"
  by (rule nth_equalityI) (simp_all add: targetAt_def nth_rotate)

lemma targets_all: "(\<forall>l < length xs. P (targetAt xs (k + l))) \<longleftrightarrow> (\<forall>m \<in> set xs. P m)"
proof -
  have "set (map (\<lambda>j. targetAt xs (k + j)) [0..<length xs]) = set xs" by (simp only: round_trip_targets set_rotate)
  then show ?thesis by (force simp: image_def)
qed

section \<open>Runs of selections\<close>

fun selections :: "instant list \<Rightarrow> wrr \<Rightarrow> (wrr \<times> WeightedModel option list) option" where
  "selections [] p = Some (p, [])"
| "selections (t # ts) p =
     (case selectNextAvailableWeightedModel t p of
        None \<Rightarrow> None
      | Some (p', m) \<Rightarrow> map_option (\<lambda>(p'', ms). (p'', m # ms)) (selections ts p'))"

text \<open>A predicate on the targets that tells what is available at all the times.\<close>

definition steady :: "(WeightedModel \<Rightarrow> bool) \<Rightarrow> instant list \<Rightarrow> wrr \<Rightarrow> bool" where
  "steady av ts p \<longleftrightarrow> (\<forall>t \<in> set ts. \<forall>m \<in> set (weightedSequence p). available (suspendedModels p) t m \<longleftrightarrow> av m)"

lemma select_none_available:
  assumes "weightedSequence p \<noteq> []" "currentIndex p = int k" "int k + int (length (weightedSequence p)) < 2 ^ 63"
    and "\<exists>m \<in> set (weightedSequence p). available (suspendedModels p) now m"
  obtains j where "j < length (weightedSequence p)" "\<forall>l < j. \<not> available (suspendedModels p) now (targetAt (weightedSequence p) (k + l))"
    "available (suspendedModels p) now (targetAt (weightedSequence p) (k + j))"
    "selectNextAvailableWeightedModel now p =
      Some (p\<lparr>currentIndex := int (k + j + 1), suspendedModels := AList.delete (wmKey (targetAt (weightedSequence p) (k + j))) (suspendedModels p)\<rparr>,
        Some (targetAt (weightedSequence p) (k + j)))"
proof -
  let ?xs = "weightedSequence p"
  have "\<not> (\<forall>l < length ?xs. \<not> available (suspendedModels p) now (targetAt ?xs (k + l)))"
    using assms(4) targets_all [of ?xs "\<lambda>m. \<not> available (suspendedModels p) now m" k] by blast
  then show thesis
    using selectWeighted_cases [OF assms(1,3), of "suspendedModels p" now] that
    by (auto simp: selectNextAvailableWeightedModel_def assms(1,2))
qed

lemma select_from_next:
  assumes "weightedSequence p \<noteq> []" "currentIndex p = int k" "int k + int (length (weightedSequence p)) + 1 < 2 ^ 63"
    and "\<exists>m \<in> set (weightedSequence p). available (suspendedModels p) now m"
    and "\<not> available (suspendedModels p) now (targetAt (weightedSequence p) k)"
  shows "selectNextAvailableWeightedModel now p = selectNextAvailableWeightedModel now (p\<lparr>currentIndex := int (Suc k)\<rparr>)"
proof -
  let ?q = "p\<lparr>currentIndex := int (Suc k)\<rparr>" let ?av = "\<lambda>k. available (suspendedModels p) now (targetAt (weightedSequence p) k)"
  have b: "int k + int (length (weightedSequence p)) < 2 ^ 63" using assms(3) by simp
  from select_none_available [OF assms(1,2) b assms(4)] obtain j where
    j: "\<forall>l < j. \<not> ?av (k + l)" "?av (k + j)"
      "selectNextAvailableWeightedModel now p =
        Some (p\<lparr>currentIndex := int (k + j + 1), suspendedModels := AList.delete (wmKey (targetAt (weightedSequence p) (k + j))) (suspendedModels p)\<rparr>,
          Some (targetAt (weightedSequence p) (k + j)))" by metis
  from select_none_available [of ?q "Suc k" now] assms(1,3,4) obtain i where
    i: "\<forall>l < i. \<not> ?av (Suc k + l)" "?av (Suc k + i)"
      "selectNextAvailableWeightedModel now ?q =
        Some (?q\<lparr>currentIndex := int (Suc k + i + 1), suspendedModels := AList.delete (wmKey (targetAt (weightedSequence p) (Suc k + i))) (suspendedModels p)\<rparr>,
          Some (targetAt (weightedSequence p) (Suc k + i)))" by auto
  have "j \<noteq> 0" using j(2) assms(5) by (cases j) auto
  then obtain j' where j': "j = Suc j'" by (cases j) auto
  have "\<not> i < j'" using j(1) i(2) j' by force
  moreover have "\<not> j' < i" using i(1) j(2) j' by force
  ultimately have "i = j'" by simp
  then show ?thesis using i(3) j(3) j' by simp
qed

lemma steady_delete:
  assumes "steady av ts p" "m \<in> set (weightedSequence p)" "av m" "ts \<noteq> []"
  shows "steady av ts (p\<lparr>currentIndex := i, suspendedModels := AList.delete (wmKey m) (suspendedModels p)\<rparr>)"
proof -
  obtain t where t: "t \<in> set ts" using assms(4) by (cases ts) auto
  have "av x" if "x \<in> set (weightedSequence p)" "wmKey x = wmKey m" for x
    using assms(1-3) that t unfolding steady_def available_def by metis
  then show ?thesis using assms(1) by (auto simp: steady_def available_def)
qed

lemma selections_segment:
  assumes "weightedSequence p \<noteq> []" "currentIndex p = int k" "int k + int n + int (length (weightedSequence p)) < 2 ^ 63"
    and "steady av ts p" "\<exists>m \<in> set (weightedSequence p). av m"
    and "length ts = length (filter av (map (\<lambda>j. targetAt (weightedSequence p) (k + j)) [0..<n]))"
  shows "\<exists>p'. selections ts p = Some (p', map Some (filter av (map (\<lambda>j. targetAt (weightedSequence p) (k + j)) [0..<n])))"
  using assms
proof (induction n arbitrary: k p ts)
  case (Suc n)
  let ?xs = "weightedSequence p"
  have seg: "map (\<lambda>j. targetAt ?xs (k + j)) [0..<Suc n] = targetAt ?xs k # map (\<lambda>j. targetAt ?xs (Suc k + j)) [0..<n]"
    by (simp add: upt_conv_Cons map_Suc_upt [symmetric] del: upt_Suc)
  show ?case
  proof (cases ts)
    case Nil
    then have "filter av (map (\<lambda>j. targetAt ?xs (k + j)) [0..<Suc n]) = []" using Suc.prems(6) by (metis length_0_conv list.size(3))
    then show ?thesis using Nil by (simp only: selections.simps list.map) blast
  next
    case (Cons t ts')
    have av: "available (suspendedModels p) t m \<longleftrightarrow> av m" if "m \<in> set ?xs" for m
      using Suc.prems(4) that Cons by (simp add: steady_def)
    have at: "targetAt ?xs k \<in> set ?xs" using Suc.prems(1) by simp
    have ex: "\<exists>m \<in> set ?xs. available (suspendedModels p) t m" using Suc.prems(5) av by blast
    show ?thesis
    proof (cases "av (targetAt ?xs k)")
      case True
      let ?p = "p\<lparr>currentIndex := int (Suc k), suspendedModels := AList.delete (wmKey (targetAt ?xs k)) (suspendedModels p)\<rparr>"
      have sel: "selectNextAvailableWeightedModel t p = Some (?p, Some (targetAt ?xs k))"
        using selectWeighted_take [of "suspendedModels p" t ?xs k "length ?xs - 1"] True av [OF at] Suc.prems(1-3)
        by (simp add: selectNextAvailableWeightedModel_def)
      have "steady av ts' ?p"
        using steady_delete [of av ts p "targetAt ?xs k" "int (Suc k)"] Suc.prems(4) at True Cons by (simp add: steady_def)
      then have "\<exists>p'. selections ts' ?p = Some (p', map Some (filter av (map (\<lambda>j. targetAt ?xs (Suc k + j)) [0..<n])))"
        using Suc.IH [of ?p "Suc k" ts'] Suc.prems True Cons unfolding seg by simp
      then show ?thesis unfolding seg Cons using sel True by auto
    next
      case False
      let ?p = "p\<lparr>currentIndex := int (Suc k)\<rparr>"
      have "selectNextAvailableWeightedModel t p = selectNextAvailableWeightedModel t ?p"
        using False av [OF at] Suc.prems(1-3) ex by (intro select_from_next) simp_all
      then have "selections ts p = selections ts ?p" using Cons by simp
      moreover have "\<exists>p'. selections ts ?p = Some (p', map Some (filter av (map (\<lambda>j. targetAt ?xs (Suc k + j)) [0..<n])))"
        using Suc.IH [of ?p "Suc k" ts] Suc.prems False unfolding seg by (simp add: steady_def)
      ultimately show ?thesis unfolding seg using False by simp
    qed
  qed
qed simp

lemma mset_rotation: "mset (rotate k xs) = mset xs"
proof -
  have "mset (rotate1 xs) = mset xs" for xs :: "'a list" by (cases xs) simp_all
  then show ?thesis by (induction k arbitrary: xs) simp_all
qed

lemma mset_weighted: "count (mset (concat (map (\<lambda>m. replicate (nat (wmWeight m)) m) ms))) m = count_list ms m * nat (wmWeight m)"
  by (induction ms) auto

section \<open>Runs with responses\<close>

datatype routing_event = Selected instant "WeightedModel option" | Responded instant int params

fun eventTime :: "routing_event \<Rightarrow> instant" where
  "eventTime (Selected t _) = t" | "eventTime (Responded t _ _) = t"

inductive wrr_run :: "wrr \<Rightarrow> routing_event list \<Rightarrow> wrr \<Rightarrow> bool" where
  stop: "wrr_run p [] p"
| request: "selectNextAvailableWeightedModel t p = Some (p1, m) \<Longrightarrow> wrr_run p1 es p' \<Longrightarrow> wrr_run p (Selected t m # es) p'"
| response: "wrr_run (wrr_OnResponseHeaders t status md p) es p' \<Longrightarrow> wrr_run p (Responded t status md # es) p'"

text \<open>A target that is suspended until a time or later.\<close>

definition suspendedUntil :: "string \<Rightarrow> instant \<Rightarrow> wrr \<Rightarrow> bool" where
  "suspendedUntil key u p \<longleftrightarrow> (\<exists>v. map_of (suspendedModels p) key = Some v \<and> u \<le> v)"

lemma selectWeighted_suspended:
  "selectWeighted now xs n i susp = Some (i', susp', m) \<Longrightarrow> map_of susp key = Some v \<Longrightarrow> now < v \<Longrightarrow>
    map_of susp' key = Some v \<and> (\<forall>x. m = Some x \<longrightarrow> wmKey x \<noteq> key)"
  by (induction now xs n i susp rule: selectWeighted.induct) (auto simp: Let_def split: if_splits option.splits)

lemma select_suspended:
  assumes "selectNextAvailableWeightedModel now p = Some (p', m)" "suspendedUntil key u p" "now < u"
  shows "suspendedUntil key u p' \<and> wrrParams p' = wrrParams p \<and> (\<forall>x. m = Some x \<longrightarrow> wmKey x \<noteq> key)"
proof -
  obtain v where v: "map_of (suspendedModels p) key = Some v" "u \<le> v" using assms(2) by (auto simp: suspendedUntil_def)
  show ?thesis
  proof (cases "weightedSequence p = []")
    case True
    then show ?thesis using assms(1,2) by (simp add: selectNextAvailableWeightedModel_def)
  next
    case False
    then obtain i' susp' where s: "selectWeighted now (weightedSequence p) (length (weightedSequence p)) (currentIndex p) (suspendedModels p) = Some (i', susp', m)"
      and p': "p' = p\<lparr>currentIndex := i', suspendedModels := susp'\<rparr>"
      using assms(1) by (auto simp: selectNextAvailableWeightedModel_def)
    have "now < v" using v(2) assms(3) by simp
    from selectWeighted_suspended [OF s v(1) this] show ?thesis using p' v(2) by (auto simp: suspendedUntil_def)
  qed
qed

lemma run_suspended:
  assumes "wrr_run p es p'" "suspendedUntil key (t0 + rpSuspendDuration (wrrParams p) * Second) p"
    and "rpSuspendDuration (wrrParams p) * Second < 2 ^ 63" "0 < rpSuspendDuration (wrrParams p)"
    and "\<forall>e \<in> set es. t0 \<le> eventTime e \<and> eventTime e < t0 + rpSuspendDuration (wrrParams p) * Second"
    and "Selected t (Some m) \<in> set es"
  shows "wmKey m \<noteq> key"
  using assms
proof (induction rule: wrr_run.induct)
  case (request now p p1 x es p')
  let ?u = "t0 + rpSuspendDuration (wrrParams p) * Second"
  have "now < ?u" using request.prems(4) by simp
  from select_suspended [OF request.hyps(1) request.prems(1) this] have s: "suspendedUntil key ?u p1" "wrrParams p1 = wrrParams p"
    "\<forall>y. x = Some y \<longrightarrow> wmKey y \<noteq> key" by auto
  show ?case
  proof (cases "Selected t (Some m) = Selected now x")
    case True
    then show ?thesis using s(3) by auto
  next
    case False
    then show ?thesis using request.IH request.prems s by auto
  qed
next
  case (response now status md p es p')
  let ?d = "rpSuspendDuration (wrrParams p)"
  have w: "wrap64 (wrap64 ?d * Second) = ?d * Second"
    using response.prems(2,3) by (simp add: wrap64_def Second_def)
  have "suspendedUntil key (t0 + ?d * Second) (wrr_OnResponseHeaders now status md p)"
    using response.prems(1,4) by (auto simp: suspendedUntil_def wrr_OnResponseHeaders_def suspend_def time_Add_def w Let_def)
  then show ?case using response.IH response.prems by (simp add: wrr_OnResponseHeaders_def)
qed simp

section \<open>Properties\<close>

text \<open>C27: weights are kept exactly. While the same targets are available, as many selections as there are
  available places in the weighted sequence give every available model exactly as many requests as its
  weight, wherever the sequence is entered, and every suspended model none.\<close>
theorem weighted_shares:
  assumes "weightedSequence p = buildWeightedSequence ms" "weightedSequence p \<noteq> []" "0 \<le> currentIndex p"
    and "currentIndex p + 2 * int (length (weightedSequence p)) < 2 ^ 63" "steady av ts p"
    and "\<exists>m \<in> set (weightedSequence p). av m" "length ts = length (filter av (weightedSequence p))"
  shows "\<exists>p' picks. selections ts p = Some (p', map Some picks) \<and>
    (\<forall>m. count_list picks m = (if av m then count_list ms m * nat (wmWeight m) else 0))"
proof -
  let ?xs = "weightedSequence p"
  obtain k where k: "currentIndex p = int k" using assms(3) nonneg_int_cases by blast
  define picks where "picks = filter av (rotate k ?xs)"
  have "mset picks = filter_mset av (mset ?xs)" by (simp add: picks_def mset_rotation)
  moreover have "mset ?xs = mset (concat (map (\<lambda>m. replicate (nat (wmWeight m)) m) ms))"
    using assms(1,2) by (simp add: buildWeightedSequence_def split: if_splits)
  ultimately have "count (mset picks) m = (if av m then count_list ms m * nat (wmWeight m) else 0)" for m
    using mset_weighted [of ms m] by simp
  then have c: "count_list picks m = (if av m then count_list ms m * nat (wmWeight m) else 0)" for m
    by (simp add: count_mset)
  have "length ts = length (filter av (rotate k ?xs))"
    using assms(7) by (metis mset_filter mset_rotation size_mset)
  then show ?thesis
    using selections_segment [OF assms(2) k _ assms(5,6), of "length ?xs"] assms(4) k c
    unfolding round_trip_targets picks_def by auto
qed

text \<open>C28: a failed target rests. After a response with status 429 or at least 500 suspends the model and
  provider of its request, no request is given that target until the suspension ends, whatever requests
  and responses follow.\<close>
theorem suspended_not_selected:
  assumes "500 \<le> status \<or> status = 429" "0 < rpSuspendDuration (wrrParams p)" "rpSuspendDuration (wrrParams p) * Second < 2 ^ 63"
    and "strField md (MetadataKeySelectedModel wrrPrefix) = model" "model \<noteq> []"
    and "strField md (MetadataKeySelectedProvider wrrPrefix) = provider"
    and "wrr_run (wrr_OnResponseHeaders t0 status md p) es p'"
    and "\<forall>e \<in> set es. t0 \<le> eventTime e \<and> eventTime e < t0 + rpSuspendDuration (wrrParams p) * Second"
    and "Selected t (Some m) \<in> set es"
  shows "\<not> (wmModel m = model \<and> wmProvider m = provider)"
proof -
  let ?d = "rpSuspendDuration (wrrParams p)"
  have "wrap64 (wrap64 ?d * Second) = ?d * Second" using assms(2,3) by (simp add: wrap64_def Second_def)
  then have "suspendedUntil (suspensionKey provider model) (t0 + ?d * Second) (wrr_OnResponseHeaders t0 status md p)"
    using assms(1-6) by (simp add: suspendedUntil_def wrr_OnResponseHeaders_def suspend_def time_Add_def Let_def)
  moreover have "wrrParams (wrr_OnResponseHeaders t0 status md p) = wrrParams p" by (simp add: wrr_OnResponseHeaders_def)
  ultimately have "wmKey m \<noteq> suspensionKey provider model"
    using run_suspended [OF assms(7)] assms(2,3,8,9) by simp
  then show ?thesis by (auto simp: wmKey_def)
qed

text \<open>The query parameter is set. When the query of a path can be parsed, the rewritten path has a query in
  which the parameter has the model as its one value and every other parameter has its values.\<close>
lemma query_param_set:
  assumes "rawPath \<noteq> []" "PathUnescape rawPath = Some path" "split_on (CHR ''?'') path = [base, query]" "ParseQuery query = Some vals"
  shows "\<exists>query' vals'. modifyQueryParamInPath rawPath name model = base @ ''?'' @ query' \<and>
    ParseQuery query' = Some vals' \<and> map_of vals' = (map_of vals)(name \<mapsto> [model])"
proof -
  let ?v = "values_Set name model vals"
  have "map_ok ?v" "values_ok ?v" using ParseQuery_ok [OF assms(4)] values_ok_Set by (simp_all add: values_Set_def)
  then obtain vals' where "ParseQuery (values_Encode ?v) = Some vals'" "map_of vals' = map_of ?v"
    using ParseQuery_roundtrip by blast
  moreover have "map_of ?v = (map_of vals)(name \<mapsto> [model])" by (auto simp: values_Set_def fun_eq_iff)
  ultimately show ?thesis using assms by (auto simp: modifyQueryParamInPath_def Let_def)
qed

text \<open>A model of the plain policy as a target of weight one.\<close>

definition unitWeight :: "ModelConfig \<Rightarrow> WeightedModel" where
  "unitWeight m = \<lparr>wmModel = mcModel m, wmWeight = 1, wmProvider = mcProvider m\<rparr>"

definition sameTurn :: "rr \<Rightarrow> wrr \<Rightarrow> bool" where
  "sameTurn p q \<longleftrightarrow> rpModels (rrParams p) \<noteq> [] \<and> weightedSequence q = map unitWeight (rpModels (rrParams p)) \<and>
     rrSuspended p = suspendedModels q \<and> 0 \<le> currentIndex q \<and> rrIndex p = currentIndex q mod int (length (rpModels (rrParams p)))"

lemma wmKey_unit [simp]: "wmKey (unitWeight m) = mcKey m"
  by (simp add: wmKey_def mcKey_def unitWeight_def)

lemma select_same:
  assumes "ms \<noteq> []" "int k + int n < 2 ^ 63" "int (length ms) < 2 ^ 63"
  shows "\<exists>k' susp' m. selectModel now ms n (int (k mod length ms)) susp = Some (int (k' mod length ms), susp', m) \<and>
    selectWeighted now (map unitWeight ms) n (int k) susp = Some (int k', susp', map_option unitWeight m) \<and> k' \<le> k + n"
  using assms(1,2)
proof (induction n arbitrary: k)
  case 0
  show ?case by (rule exI [of _ k]) simp
next
  case (Suc n)
  let ?L = "length ms" let ?m = "ms ! (k mod ?L)"
  have lt: "k mod ?L < ?L" using assms(1) by simp
  have w: "wrap64 (int (k mod ?L) + 1) = int (Suc (k mod ?L))" "wrap64 (int k + 1) = int (Suc k)"
    using lt assms(3) Suc.prems(2) by (intro wrap64_Suc; linarith)+
  have next_ix: "go_rem (wrap64 (int (k mod ?L) + 1)) (int ?L) = int (Suc k mod ?L)"
    unfolding w(1) go_rem_nonneg by (simp add: mod_Suc_eq)
  have rr: "selectModel now ms (Suc n) (int (k mod ?L)) susp =
      (case map_of susp (mcKey ?m) of
         Some u \<Rightarrow> if now < u then selectModel now ms n (int (Suc k mod ?L)) susp
           else Some (int (Suc k mod ?L), AList.delete (mcKey ?m) susp, Some ?m)
       | None \<Rightarrow> Some (int (Suc k mod ?L), susp, Some ?m))"
    using lt unfolding selectModel.simps Let_def next_ix nat_int by simp
  have ww: "selectWeighted now (map unitWeight ms) (Suc n) (int k) susp =
      (case map_of susp (mcKey ?m) of
         Some u \<Rightarrow> if now < u then selectWeighted now (map unitWeight ms) n (int (Suc k)) susp
           else Some (int (Suc k), AList.delete (mcKey ?m) susp, Some (unitWeight ?m))
       | None \<Rightarrow> Some (int (Suc k), susp, Some (unitWeight ?m)))"
    using lt unfolding selectWeighted.simps Let_def w(2) length_map go_rem_nonneg nat_int nth_map [OF lt] wmKey_unit by simp
  from Suc.IH [of "Suc k"] Suc.prems obtain k' susp' m where
    ih: "selectModel now ms n (int (Suc k mod ?L)) susp = Some (int (k' mod ?L), susp', m)"
      "selectWeighted now (map unitWeight ms) n (int (Suc k)) susp = Some (int k', susp', map_option unitWeight m)" "k' \<le> Suc k + n" by auto
  show ?case
  proof (cases "map_of susp (mcKey ?m)")
    case None
    then show ?thesis unfolding rr ww by (intro exI [of _ "Suc k"]) simp
  next
    case (Some u)
    then show ?thesis
    proof (cases "now < u")
      case True
      then show ?thesis unfolding rr ww using Some ih by (intro exI [of _ k']) simp
    next
      case False
      then show ?thesis unfolding rr ww using Some by (intro exI [of _ "Suc k"]) simp
    qed
  qed
qed

text \<open>C29: the plain policy is the weighted one with weights of one. From states that agree on the suspensions
  and on the place in the sequence, both policies select the same model and provider, or both none, and
  their states agree again.\<close>
theorem round_robin_is_unit_weighted:
  assumes "sameTurn p q" "currentIndex q + int (length (weightedSequence q)) < 2 ^ 63"
  shows "\<exists>p' q' m. selectNextAvailableModel now p = Some (p', m) \<and>
    selectNextAvailableWeightedModel now q = Some (q', map_option unitWeight m) \<and> sameTurn p' q'"
proof -
  let ?ms = "rpModels (rrParams p)"
  obtain k where k: "currentIndex q = int k" using assms(1) nonneg_int_cases unfolding sameTurn_def by blast
  have s: "?ms \<noteq> []" "weightedSequence q = map unitWeight ?ms" "rrSuspended p = suspendedModels q" "rrIndex p = int (k mod length ?ms)"
    using assms(1) k by (simp_all add: sameTurn_def zmod_int)
  from select_same [OF s(1), of k "length ?ms" now "suspendedModels q"] assms(2) k s(2) obtain k' susp' m where
    "selectModel now ?ms (length ?ms) (int (k mod length ?ms)) (suspendedModels q) = Some (int (k' mod length ?ms), susp', m)"
    "selectWeighted now (map unitWeight ?ms) (length ?ms) (int k) (suspendedModels q) = Some (int k', susp', map_option unitWeight m)"
    by auto
  then show ?thesis
    using s k by (simp add: selectNextAvailableModel_def selectNextAvailableWeightedModel_def sameTurn_def zmod_int)
qed

section \<open>Examples\<close>

definition demoTargets :: "WeightedModel list" where
  "demoTargets = [\<lparr>wmModel = ''a'', wmWeight = 2, wmProvider = []\<rparr>, \<lparr>wmModel = ''b'', wmWeight = 1, wmProvider = ''x''\<rparr>]"

definition demoRouting :: "'m list \<Rightarrow> 'm routing_params" where
  "demoRouting ms = \<lparr>rpModels = ms, rpSuspendDuration = 30, rpRequestModel = \<lparr>rmLocation = ''payload'', rmIdentifier = ''m''\<rparr>\<rparr>"

definition demoWrr :: wrr where
  "demoWrr = \<lparr>currentIndex = 1, suspendedModels = [], weightedSequence = buildWeightedSequence demoTargets, wrrParams = demoRouting demoTargets\<rparr>"

lemma demo_sequence: "weightedSequence demoWrr = [demoTargets ! 0, demoTargets ! 0, demoTargets ! 1]"
  by (simp add: demoWrr_def buildWeightedSequence_def demoTargets_def totalWeight_def wrap64_def numeral_2_eq_2)

theorem weighted_shares_witness:
  "\<exists>p' picks. selections [5, 6, 7] demoWrr = Some (p', map Some picks) \<and>
    count_list picks (demoTargets ! 0) = 2 \<and> count_list picks (demoTargets ! 1) = 1"
proof -
  have "\<exists>p' picks. selections [5, 6, 7] demoWrr = Some (p', map Some picks) \<and>
      (\<forall>m. count_list picks m = (if (\<lambda>_. True) m then count_list demoTargets m * nat (wmWeight m) else 0))"
  proof (rule weighted_shares)
    show "weightedSequence demoWrr = buildWeightedSequence demoTargets" "0 \<le> currentIndex demoWrr" by (simp_all add: demoWrr_def)
    show "weightedSequence demoWrr \<noteq> []" "length [5, 6, 7 :: instant] = length (filter (\<lambda>_. True) (weightedSequence demoWrr))"
      "\<exists>m \<in> set (weightedSequence demoWrr). True" unfolding demo_sequence by auto
    show "currentIndex demoWrr + 2 * int (length (weightedSequence demoWrr)) < 2 ^ 63" unfolding demo_sequence by (simp add: demoWrr_def)
    show "steady (\<lambda>_. True) [5, 6, 7] demoWrr" by (simp add: steady_def available_def demoWrr_def)
  qed
  then show ?thesis by (auto simp: demoTargets_def)
qed

definition demoFailedMeta :: params where
  "demoFailedMeta = [(MetadataKeySelectedModel wrrPrefix, AStr ''a''), (MetadataKeySelectedProvider wrrPrefix, AStr [])]"

lemma demo_failed_meta:
  "strField demoFailedMeta (MetadataKeySelectedModel wrrPrefix) = ''a''" "strField demoFailedMeta (MetadataKeySelectedProvider wrrPrefix) = []"
  by (simp_all add: demoFailedMeta_def strField_def index_def MetadataKeySelectedModel_def MetadataKeySelectedProvider_def)

definition demoSuspended :: wrr where
  "demoSuspended = wrr_OnResponseHeaders 5 503 demoFailedMeta demoWrr"

theorem suspended_not_selected_witness:
  "\<exists>p'. wrr_run demoSuspended [Selected 6 (Some (demoTargets ! 1))] p' \<and>
     \<not> (wmModel (demoTargets ! 1) = ''a'' \<and> wmProvider (demoTargets ! 1) = [])"
proof -
  have "\<exists>p1. selectNextAvailableWeightedModel 6 demoSuspended = Some (p1, Some (demoTargets ! 1))"
    using demo_sequence demo_failed_meta
    by (simp add: demoSuspended_def wrr_OnResponseHeaders_def suspend_def selectNextAvailableWeightedModel_def demoWrr_def
      demoRouting_def Let_def go_rem_def wrap64_def time_Add_def Second_def wmKey_def suspensionKey_def)
     (simp add: demoTargets_def)
  then obtain p1 where run: "wrr_run demoSuspended [Selected 6 (Some (demoTargets ! 1))] p1"
    using wrr_run.intros by blast
  have "\<not> (wmModel (demoTargets ! 1) = ''a'' \<and> wmProvider (demoTargets ! 1) = [])"
    by (rule suspended_not_selected [OF _ _ _ demo_failed_meta(1) _ demo_failed_meta(2) run [unfolded demoSuspended_def], of 6])
      (simp_all add: demoWrr_def demoRouting_def Second_def)
  then show ?thesis using run by blast
qed

definition demoModels :: "ModelConfig list" where
  "demoModels = [\<lparr>mcModel = ''a'', mcProvider = []\<rparr>, \<lparr>mcModel = ''b'', mcProvider = ''x''\<rparr>]"

definition demoRr :: rr where
  "demoRr = \<lparr>rrIndex = 1, rrSuspended = [], rrParams = demoRouting demoModels\<rparr>"

definition demoUnit :: wrr where
  "demoUnit = \<lparr>currentIndex = 7, suspendedModels = [], weightedSequence = map unitWeight demoModels, wrrParams = demoRouting []\<rparr>"

theorem round_robin_is_unit_weighted_witness:
  "\<exists>p' q' m. selectNextAvailableModel 5 demoRr = Some (p', m) \<and>
    selectNextAvailableWeightedModel 5 demoUnit = Some (q', map_option unitWeight m) \<and> sameTurn p' q'"
  by (rule round_robin_is_unit_weighted)
    (simp_all add: sameTurn_def demoRr_def demoUnit_def demoRouting_def demoModels_def)

lemma query_param_set_example:
  "\<exists>query' vals'. modifyQueryParamInPath ''/v?m=a&k=b'' ''m'' ''z'' = ''/v'' @ ''?'' @ query' \<and>
    ParseQuery query' = Some vals' \<and> map_of vals' = (map_of [(''m'', [''a'']), (''k'', [''b''])])(''m'' \<mapsto> [''z''])"
  by (rule query_param_set [of _ "''/v?m=a&k=b''" _ "''m=a&k=b''"])
    (simp_all add: ParseQuery_def parsePart_def cut_def values_Add_def)

end
