(* ===== verification/McpMessage.thy ===== *)
theory McpMessage
  imports GoValue UrlQuery
begin

text \<open>
  What the MCP policies share: JSON documents as \<^verbatim>\<open>encoding/json\<close> reads them, the check of member names
  (\<^verbatim>\<open>request_validation.go\<close> of \<^verbatim>\<open>mcp-authz\<close> and \<^verbatim>\<open>mcp-ratelimit\<close>) and event streams. A document keeps the
  members of an object in order and with duplicates. The syntax of JSON is not modelled: \<open>parseJSON\<close>, an
  argument of the policies, gives the document of a text. Go compares member names under Unicode simple
  folding: \<open>fld\<close>, an argument, maps a name to its folded form, so that \<^verbatim>\<open>strings.EqualFold\<close> is equality
  of the folded names.
\<close>

section \<open>Documents\<close>

datatype json = JNull | JBool bool | JNum f64 | JStr string | JArr "json list" | JObj "(string \<times> json) list"

text \<open>\<^verbatim>\<open>json.Unmarshal\<close> into \<^verbatim>\<open>any\<close>: a repeated member replaces the earlier one.\<close>

fun toAny :: "json \<Rightarrow> any" where
  "toAny JNull = ANil"
| "toAny (JBool b) = ABool b"
| "toAny (JNum x) = AFloat x"
| "toAny (JStr s) = AStr s"
| "toAny (JArr js) = AArr (map toAny js)"
| "toAny (JObj ms) = AMap (foldl (\<lambda>m (k, v). AList.update k v m) [] (map (\<lambda>m. (fst m, toAny (snd m))) ms))"

text \<open>\<^verbatim>\<open>json.Unmarshal\<close> into a map; \<open>null\<close> leaves it nil.\<close>

definition unmarshalMap :: "json \<Rightarrow> params option" where
  "unmarshalMap j = (case j of JNull \<Rightarrow> Some [] | _ \<Rightarrow> as_map (toAny j))"

section \<open>Decoding into structs\<close>

text \<open>The field a member is decoded into: the one of that name, else the first one that folds alike.\<close>

definition fieldOf :: "(string \<Rightarrow> string) \<Rightarrow> string list \<Rightarrow> string \<Rightarrow> string option" where
  "fieldOf fld names k = (if k \<in> set names then Some k else find (\<lambda>n. fld n = fld k) names)"

text \<open>A string field; a value of another type is an error (\<open>None\<close>).\<close>

fun decodeString :: "string \<Rightarrow> json \<Rightarrow> string option" where
  "decodeString old (JStr s) = Some s"
| "decodeString old JNull = Some old"
| "decodeString old _ = None"

record MCPRequestParams =
  pName :: string
  pURI :: string

record MCPRequest =
  mMethod :: string
  mParams :: MCPRequestParams
  mID :: "json option"

definition emptyRequest :: MCPRequest where
  "emptyRequest = \<lparr>mMethod = [], mParams = \<lparr>pName = [], pURI = []\<rparr>, mID = None\<rparr>"

definition decodeParamsMember :: "(string \<Rightarrow> string) \<Rightarrow> string \<times> json \<Rightarrow> MCPRequestParams option \<Rightarrow> MCPRequestParams option" where
  "decodeParamsMember fld m acc =
     (case acc of
        None \<Rightarrow> None
      | Some p \<Rightarrow>
          (case fieldOf fld [''name'', ''uri''] (fst m) of
             None \<Rightarrow> Some p
           | Some f \<Rightarrow>
               if f = ''name'' then map_option (\<lambda>s. p\<lparr>pName := s\<rparr>) (decodeString (pName p) (snd m))
               else map_option (\<lambda>s. p\<lparr>pURI := s\<rparr>) (decodeString (pURI p) (snd m))))"

definition decodeParams :: "(string \<Rightarrow> string) \<Rightarrow> MCPRequestParams \<Rightarrow> json \<Rightarrow> MCPRequestParams option" where
  "decodeParams fld p j =
     (case j of
        JObj ms \<Rightarrow> foldl (\<lambda>acc m. decodeParamsMember fld m acc) (Some p) ms
      | JNull \<Rightarrow> Some p
      | _ \<Rightarrow> None)"

text \<open>The request of \<^verbatim>\<open>mcp-authz\<close> has the fields \<open>method\<close> and \<open>params\<close>, that of \<^verbatim>\<open>mcp-ratelimit\<close> also
  \<open>id\<close>, a raw value.\<close>

definition decodeMember :: "(string \<Rightarrow> string) \<Rightarrow> string list \<Rightarrow> string \<times> json \<Rightarrow> MCPRequest option \<Rightarrow> MCPRequest option" where
  "decodeMember fld names m acc =
     (case acc of
        None \<Rightarrow> None
      | Some r \<Rightarrow>
          (case fieldOf fld names (fst m) of
             None \<Rightarrow> Some r
           | Some f \<Rightarrow>
               if f = ''method'' then map_option (\<lambda>s. r\<lparr>mMethod := s\<rparr>) (decodeString (mMethod r) (snd m))
               else if f = ''params'' then map_option (\<lambda>p. r\<lparr>mParams := p\<rparr>) (decodeParams fld (mParams r) (snd m))
               else Some (r\<lparr>mID := Some (snd m)\<rparr>)))"

definition decodeRequest :: "(string \<Rightarrow> string) \<Rightarrow> string list \<Rightarrow> json \<Rightarrow> MCPRequest option" where
  "decodeRequest fld names j =
     (case j of
        JObj ms \<Rightarrow> foldl (\<lambda>acc m. decodeMember fld names m acc) (Some emptyRequest) ms
      | JNull \<Rightarrow> Some emptyRequest
      | _ \<Rightarrow> None)"

section \<open>Member names\<close>

text \<open>The loop over the members with the canonical names seen so far; \<open>False\<close> is the ambiguity error.\<close>

fun spellingOk :: "(string \<Rightarrow> string) \<Rightarrow> string list \<Rightarrow> string list \<Rightarrow> (string \<times> json) list \<Rightarrow> bool" where
  "spellingOk fld names seen [] = True"
| "spellingOk fld names seen (m # ms) =
     (case find (\<lambda>n. fld (fst m) = fld n) names of
        None \<Rightarrow> spellingOk fld names seen ms
      | Some n \<Rightarrow> n \<notin> set seen \<and> fst m = n \<and> spellingOk fld names (n # seen) ms)"

definition checkMemberSpelling :: "(string \<Rightarrow> string) \<Rightarrow> (string \<times> json) list \<Rightarrow> string list \<Rightarrow> bool" where
  "checkMemberSpelling fld members names = spellingOk fld names [] members"

datatype validation = Valid | Ambiguous | NotAnObject

text \<open>\<open>member\<close> is the member of \<open>params\<close> that takes part in the decision, if any.\<close>

definition validateMembers :: "(string \<Rightarrow> string) \<Rightarrow> json \<Rightarrow> string option \<Rightarrow> validation" where
  "validateMembers fld doc member =
     (case doc of
        JObj ms \<Rightarrow>
          if \<not> checkMemberSpelling fld ms [''method'', ''params''] then Ambiguous
          else (case member of
                  None \<Rightarrow> Valid
                | Some n \<Rightarrow>
                    if list_all (\<lambda>m. case snd m of JObj ps \<Rightarrow> fst m = ''params'' \<longrightarrow> checkMemberSpelling fld ps [n] | _ \<Rightarrow> True) ms
                    then Valid else Ambiguous)
      | _ \<Rightarrow> NotAnObject)"

definition authzMember :: "string \<Rightarrow> string option" where
  "authzMember method =
     (case split_on (CHR ''/'') method of
        [t, _] \<Rightarrow> if t = ''tools'' \<or> t = ''prompts'' then Some ''name'' else if t = ''resources'' then Some ''uri'' else None
      | _ \<Rightarrow> None)"

definition validateUnambiguousMembers :: "(string \<Rightarrow> string) \<Rightarrow> json \<Rightarrow> string \<Rightarrow> validation" where
  "validateUnambiguousMembers fld doc method = validateMembers fld doc (authzMember method)"

definition rateLimitMember :: "string \<Rightarrow> string option" where
  "rateLimitMember method =
     (if method = ''tools/call'' \<or> method = ''prompts/get'' then Some ''name''
      else if method = ''resources/read'' then Some ''uri'' else None)"

definition validateUnambiguousRequestMembers :: "(string \<Rightarrow> string) \<Rightarrow> json \<Rightarrow> string \<Rightarrow> validation" where
  "validateUnambiguousRequestMembers fld doc method = validateMembers fld doc (rateLimitMember method)"

section \<open>What a validated object says\<close>

text \<open>Folding keeps the names of the fields apart.\<close>

definition foldOk :: "(string \<Rightarrow> string) \<Rightarrow> bool" where
  "foldOk fld \<longleftrightarrow> distinct (map fld [''method'', ''params'', ''id'', ''name'', ''uri''])"

text \<open>A value a reader of the object may take for the member \<open>n\<close>: the reader may ignore the case of names and
  may take any of several members.\<close>

definition mayRead :: "(string \<Rightarrow> string) \<Rightarrow> (string \<times> json) list \<Rightarrow> string \<Rightarrow> json \<Rightarrow> bool" where
  "mayRead fld ms n v \<longleftrightarrow> list_ex (\<lambda>m. fld (fst m) = fld n \<and> snd m = v) ms"

lemma find_folded:
  assumes "distinct (map fld names)" "n \<in> set names"
  shows "find (\<lambda>n'. fld k = fld n') names = Some n \<longleftrightarrow> fld k = fld n"
  using assms by (induction names) (auto simp: image_iff dest!: find_Some_iff [THEN iffD1])

lemma spellingOk_unique:
  assumes "distinct (map fld names)" "n \<in> set names" "spellingOk fld names seen ms"
  shows "(\<forall>m \<in> set ms. fld (fst m) = fld n \<longrightarrow> fst m = n) \<and>
    length (filter (\<lambda>m. fld (fst m) = fld n) ms) \<le> (if n \<in> set seen then 0 else 1)"
  using assms(3)
proof (induction ms arbitrary: seen)
  case (Cons m ms)
  note f = find_folded [OF assms(1,2), of "fst m"]
  show ?case
  proof (cases "find (\<lambda>n'. fld (fst m) = fld n') names")
    case None
    then show ?thesis using Cons f by auto
  next
    case (Some n')
    then have s: "n' \<notin> set seen" "fst m = n'" "spellingOk fld names (n' # seen) ms" using Cons.prems by auto
    have "fld (fst m) = fld n \<longleftrightarrow> n' = n" using f Some by auto
    then show ?thesis using Cons.IH [OF s(3)] s(1,2) by auto
  qed
qed simp

lemma foldl_step_None: "(\<And>m. step m None = None) \<Longrightarrow> foldl (\<lambda>acc m. step m acc) None ms = None"
  by (induction ms) auto

lemma foldl_keeps:
  assumes "\<And>m. step m None = None" "foldl (\<lambda>acc m. step m acc) (Some r) ms = Some r'"
    and "\<And>m s s'. m \<in> set ms \<Longrightarrow> step m (Some s) = Some s' \<Longrightarrow> P s' = P s"
  shows "P r' = P r"
  using assms(2,3)
proof (induction ms arbitrary: r)
  case (Cons m ms)
  obtain s where s: "step m (Some r) = Some s"
    using Cons.prems(1) foldl_step_None [of step, OF assms(1)] by (cases "step m (Some r)") auto
  have "P r' = P s" using Cons.prems s by (intro Cons.IH) auto
  then show ?case using Cons.prems(2) [of m r s] s by simp
qed simp

text \<open>The field \<open>P\<close> of a decoded struct is that of the only member \<open>x\<close> that is decoded into it.\<close>

lemma foldl_field:
  assumes none: "\<And>m. step m None = None" and run: "foldl (\<lambda>acc m. step m acc) (Some r) ms = Some r'"
    and x: "x \<in> set ms" "Q x" "length (filter Q ms) \<le> 1"
    and keep: "\<And>m s s'. m \<in> set ms \<Longrightarrow> \<not> Q m \<Longrightarrow> step m (Some s) = Some s' \<Longrightarrow> P s' = P s"
  obtains s s' where "step x (Some s) = Some s'" "P s = P r" "P r' = P s'"
proof -
  obtain as bs where ms: "ms = as @ x # bs" using split_list [OF x(1)] by blast
  have others: "\<not> Q m" if "m \<in> set as \<or> m \<in> set bs" for m
    using x(2,3) that unfolding ms by (auto simp: filter_empty_conv)
  obtain s where s: "foldl (\<lambda>acc m. step m acc) (Some r) as = Some s"
    using run foldl_step_None [of step, OF none] none unfolding ms
    by (cases "foldl (\<lambda>acc m. step m acc) (Some r) as") auto
  obtain s' where s': "step x (Some s) = Some s'" "foldl (\<lambda>acc m. step m acc) (Some s') bs = Some r'"
    using run s foldl_step_None [of step, OF none] unfolding ms by (cases "step x (Some s)") auto
  have "P s = P r" by (rule foldl_keeps [where step = step, OF none s]) (use keep others ms in auto)
  moreover have "P r' = P s'" by (rule foldl_keeps [where step = step, OF none s'(2)]) (use keep others ms in auto)
  ultimately show ?thesis using that s'(1) by blast
qed

lemma fieldOf_folded:
  assumes "distinct (map fld names)" "n \<in> set names"
  shows "fieldOf fld names k = Some n \<longleftrightarrow> fld k = fld n"
proof (cases "k \<in> set names")
  case True
  then show ?thesis using assms by (auto simp: fieldOf_def distinct_map inj_on_def)
next
  case False
  have "find (\<lambda>n. fld n = fld k) names = find (\<lambda>n. fld k = fld n) names" by (rule arg_cong [where f = "\<lambda>p. find p names"]) auto
  then show ?thesis using False find_folded [OF assms, of k] by (simp add: fieldOf_def)
qed

lemma mayReadD: "mayRead fld ms n v \<Longrightarrow> \<exists>k. (k, v) \<in> set ms \<and> fld k = fld n"
  by (auto simp: mayRead_def list_ex_iff)

text \<open>A validated member: what any reader takes for it is what the policy decoded.\<close>

lemma decodeString_field:
  assumes "distinct (map fld names)" "n \<in> set names" "length (filter (\<lambda>m. fld (fst m) = fld n) ms) \<le> 1"
    and "mayRead fld ms n (JStr s)"
    and "\<And>m. step m None = None" "foldl (\<lambda>acc m. step m acc) (Some r) ms = Some r'"
    and "\<And>m t t'. \<not> fld (fst m) = fld n \<Longrightarrow> step m (Some t) = Some t' \<Longrightarrow> P t' = P t"
    and "\<And>k t t'. fld k = fld n \<Longrightarrow> step (k, JStr s) (Some t) = Some t' \<Longrightarrow> P t' = s"
  shows "P r' = s"
proof -
  obtain k where k: "(k, JStr s) \<in> set ms" "fld k = fld n" using mayReadD [OF assms(4)] by blast
  obtain t t' where "step (k, JStr s) (Some t) = Some t'" "P r' = P t'"
    by (rule foldl_field [where step = step and P = P and Q = "\<lambda>m. fld (fst m) = fld n", OF assms(5,6) k(1) _ assms(3)])
      (use k(2) assms(7) in auto)
  then show ?thesis using assms(8) k(2) by metis
qed

lemma foldOkD:
  assumes "foldOk fld" shows "distinct (map fld [''method'', ''params''])" "distinct (map fld [''method'', ''params'', ''id''])"
    "distinct (map fld [''name'', ''uri''])" "distinct (map fld [n])"
  using assms by (auto simp: foldOk_def)

text \<open>The fields of a request: those of \<^verbatim>\<open>mcp-authz\<close> and those of \<^verbatim>\<open>mcp-ratelimit\<close>.\<close>

definition requestFields :: "string list \<Rightarrow> bool" where
  "requestFields names \<longleftrightarrow> names = [''method'', ''params''] \<or> names = [''method'', ''params'', ''id'']"

lemma requestFieldsD:
  assumes "foldOk fld" "requestFields names"
  shows "distinct (map fld names)" "''method'' \<in> set names" "''params'' \<in> set names"
  using assms foldOkD [OF assms(1)] by (auto simp: requestFields_def)

lemma decodeMember_None [simp]: "decodeMember fld names m None = None"
  by (simp add: decodeMember_def)

lemma decodeParamsMember_None [simp]: "decodeParamsMember fld m None = None"
  by (simp add: decodeParamsMember_def)

lemma decodeMember_method:
  "fieldOf fld names (fst m) \<noteq> Some ''method'' \<Longrightarrow> decodeMember fld names m (Some t) = Some t' \<Longrightarrow> mMethod t' = mMethod t"
  "fieldOf fld names k = Some ''method'' \<Longrightarrow> decodeMember fld names (k, JStr s) (Some t) = Some t' \<Longrightarrow> mMethod t' = s"
  by (auto simp: decodeMember_def split: option.splits if_splits)

lemma decodeMember_params:
  "fieldOf fld names (fst m) \<noteq> Some ''params'' \<Longrightarrow> decodeMember fld names m (Some t) = Some t' \<Longrightarrow> mParams t' = mParams t"
  "fieldOf fld names k = Some ''params'' \<Longrightarrow> decodeMember fld names (k, j) (Some t) = Some t' \<Longrightarrow>
     decodeParams fld (mParams t) j = Some (mParams t')"
  by (auto simp: decodeMember_def split: option.splits if_splits)

lemma decodeParamsMember_name:
  "fieldOf fld [''name'', ''uri''] (fst m) \<noteq> Some ''name'' \<Longrightarrow> decodeParamsMember fld m (Some t) = Some t' \<Longrightarrow> pName t' = pName t"
  "fieldOf fld [''name'', ''uri''] k = Some ''name'' \<Longrightarrow> decodeParamsMember fld (k, JStr s) (Some t) = Some t' \<Longrightarrow> pName t' = s"
  by (auto simp: decodeParamsMember_def split: option.splits if_splits)

lemma fieldOf_in: "fieldOf fld names k = Some f \<Longrightarrow> f \<in> set names"
  by (auto simp: fieldOf_def find_Some_iff split: if_splits)

lemma decodeParamsMember_uri:
  "fieldOf fld [''name'', ''uri''] (fst m) \<noteq> Some ''uri'' \<Longrightarrow> decodeParamsMember fld m (Some t) = Some t' \<Longrightarrow> pURI t' = pURI t"
  "fieldOf fld [''name'', ''uri''] k = Some ''uri'' \<Longrightarrow> decodeParamsMember fld (k, JStr s) (Some t) = Some t' \<Longrightarrow> pURI t' = s"
  by (auto simp: decodeParamsMember_def split: option.splits if_splits dest: fieldOf_in)

lemma validateMembersD:
  assumes "validateMembers fld doc member = Valid" "foldOk fld"
  obtains ms where "doc = JObj ms" "\<forall>n \<in> {''method'', ''params''}. length (filter (\<lambda>m. fld (fst m) = fld n) ms) \<le> 1"
    "\<forall>n ps. member = Some n \<longrightarrow> mayRead fld ms ''params'' (JObj ps) \<longrightarrow> length (filter (\<lambda>m. fld (fst m) = fld n) ps) \<le> 1"
proof -
  obtain ms where ms: "doc = JObj ms" "spellingOk fld [''method'', ''params''] [] ms"
    using assms(1) by (auto simp: validateMembers_def checkMemberSpelling_def split: json.splits if_splits)
  note u = spellingOk_unique [OF foldOkD(1) [OF assms(2)] _ ms(2)]
  have "length (filter (\<lambda>m. fld (fst m) = fld n) ps) \<le> 1"
    if "member = Some n" "mayRead fld ms ''params'' (JObj ps)" for n ps
  proof -
    have "(''params'', JObj ps) \<in> set ms" using mayReadD [OF that(2)] u [of "''params''"] by auto
    then have "spellingOk fld [n] [] ps"
      using assms(1) ms that(1) by (auto simp: validateMembers_def checkMemberSpelling_def list_all_iff split: if_splits)
    from spellingOk_unique [OF _ _ this, of n] show ?thesis by simp
  qed
  then show ?thesis using that ms(1) u by auto
qed

definition paramsMember :: "string \<Rightarrow> MCPRequestParams \<Rightarrow> string" where
  "paramsMember n p = (if n = ''uri'' then pURI p else pName p)"

lemma decodeParams_member:
  assumes f: "foldOk fld" and "decodeParams fld p (JObj ps) = Some p'" "mayRead fld ps n (JStr s)" "n = ''name'' \<or> n = ''uri''"
    "length (filter (\<lambda>m. fld (fst m) = fld n) ps) \<le> 1"
  shows "paramsMember n p' = s"
proof -
  let ?step = "decodeParamsMember fld"
  have run: "foldl (\<lambda>acc m. ?step m acc) (Some p) ps = Some p'" using assms(2) by (simp add: decodeParams_def)
  note fo = fieldOf_folded [OF foldOkD(3) [OF f]]
  note field = decodeString_field [where step = ?step and P = "paramsMember n", OF foldOkD(3) [OF f] _ assms(5,3) _ run]
  from assms(4) show ?thesis
  proof
    assume "n = ''name''"
    moreover from this have "fieldOf fld [''name'', ''uri''] k = Some ''name'' \<longleftrightarrow> fld k = fld n" for k using fo by simp
    ultimately show ?thesis
      by (intro field) (simp_all add: paramsMember_def decodeParamsMember_name [where fld = fld])
  next
    assume "n = ''uri''"
    moreover from this have "fieldOf fld [''name'', ''uri''] k = Some ''uri'' \<longleftrightarrow> fld k = fld n" for k using fo by simp
    ultimately show ?thesis
      by (intro field) (simp_all add: paramsMember_def decodeParamsMember_uri [where fld = fld])
  qed
qed

lemma decodeRequest_method:
  assumes f: "foldOk fld" "requestFields names" and "decodeRequest fld names doc = Some r" "validateMembers fld doc member = Valid"
    and "doc = JObj ms" "mayRead fld ms ''method'' (JStr s)"
  shows "mMethod r = s"
proof -
  let ?step = "decodeMember fld names"
  have run: "foldl (\<lambda>acc m. ?step m acc) (Some emptyRequest) ms = Some r" using assms(3,5) by (simp add: decodeRequest_def)
  have u: "length (filter (\<lambda>m. fld (fst m) = fld ''method'') ms) \<le> 1"
    using validateMembersD [OF assms(4) f(1)] assms(5) by auto
  note fo = fieldOf_folded [OF requestFieldsD(1,2) [OF f]]
  show ?thesis
    by (rule decodeString_field [where step = ?step and P = mMethod, OF requestFieldsD(1,2) [OF f] u assms(6) _ run])
      (simp_all add: fo decodeMember_method [where fld = fld and names = names])
qed

lemma decodeRequest_params:
  assumes f: "foldOk fld" "requestFields names" and "decodeRequest fld names doc = Some r" "validateMembers fld doc (Some n) = Valid"
    and "doc = JObj ms" "mayRead fld ms ''params'' (JObj ps)" "mayRead fld ps n (JStr s)" "n = ''name'' \<or> n = ''uri''"
  shows "paramsMember n (mParams r) = s"
proof -
  let ?step = "decodeMember fld names"
  have run: "foldl (\<lambda>acc m. ?step m acc) (Some emptyRequest) ms = Some r" using assms(3,5) by (simp add: decodeRequest_def)
  have u: "length (filter (\<lambda>m. fld (fst m) = fld ''params'') ms) \<le> 1" "length (filter (\<lambda>m. fld (fst m) = fld n) ps) \<le> 1"
    using validateMembersD [OF assms(4) f(1)] assms(5,6) by auto
  note fo = fieldOf_folded [OF requestFieldsD(1,3) [OF f]]
  obtain k where k: "(k, JObj ps) \<in> set ms" "fld k = fld ''params''" using mayReadD [OF assms(6)] by blast
  obtain t t' where t: "?step (k, JObj ps) (Some t) = Some t'" "mParams r = mParams t'"
    by (rule foldl_field [where step = ?step and P = mParams and Q = "\<lambda>m. fld (fst m) = fld ''params''", OF _ run k(1) _ u(1)])
      (simp_all add: k(2) fo decodeMember_params(1) [where fld = fld and names = names])
  then have "decodeParams fld (mParams t) (JObj ps) = Some (mParams r)" using decodeMember_params(2) [OF _ t(1)] fo k(2) by simp
  then show ?thesis using decodeParams_member [OF f(1) _ assms(7,8) u(2)] by blast
qed

section \<open>Requests\<close>

text \<open>Headers by the two methods of the SDK's type: all of them in the order of iteration, and the values of a name.\<close>

record hdrs =
  hAll :: "(string \<times> string list) list"
  hGet :: "string \<Rightarrow> string list"

text \<open>The request as the client sent it.\<close>

record downstream =
  dsMethod :: string
  dsPath :: string
  dsScheme :: string
  dsAuthority :: string
  dsHeaders :: "hdrs option"

definition mcpPost :: "(string \<Rightarrow> string) \<Rightarrow> downstream \<Rightarrow> bool" where
  "mcpPost fld ds \<longleftrightarrow> fld (dsMethod ds) = fld ''POST''"

definition isMcpPath :: "string \<Rightarrow> bool" where
  "isMcpPath path =
     (let cleanPath = fst (cut (CHR ''?'') (TrimSpace path))
      in cleanPath = ''/mcp'' \<or> HasPrefix cleanPath ''/mcp/'')"

definition mcpSessionHeader :: string where "mcpSessionHeader = ''mcp-session-id''"

end
