(* ===== verification/McpAuthz.thy ===== *)
theory McpAuthz
  imports McpMessage QuotaHeaders
begin

text \<open>
  \<^verbatim>\<open>mcp-authz.go\<close>: authorization of MCP requests by rules on scopes and claims. The parsing of the rules,
  the choice of the rules a request is governed by, their evaluation against the identity an authentication
  policy left in the context, and the challenge sent with a refusal. Arguments: \<open>parseJSON\<close> (the document of
  a text, \<open>None\<close> if it is not JSON), \<open>marshal\<close> (\<^verbatim>\<open>json.Marshal\<close>, \<open>None\<close> an error), \<open>fld\<close> (case folding) and
  \<open>iter\<close> (the order of iteration over a set of scopes). The order of an association list is the order of
  iteration over a map of the configuration. The notices about deprecated fields are only logged and left out.
\<close>

section \<open>Rules\<close>

record Attribute =
  atType :: string
  atName :: string

record ScopeConstraints =
  scAllOf :: "string list"
  scAnyOf :: "string list"

record ClaimMatcher =
  cmClaim :: string
  cmValues :: "string list"
  legacyExactString :: bool

record ClaimConstraints =
  ccAllOf :: "ClaimMatcher list"
  ccAnyOf :: "ClaimMatcher list"

record Rule =
  rAttribute :: Attribute
  RequiredClaims :: "(string, string) gomap"
  RequiredScopes :: "string list"
  rScopes :: ScopeConstraints
  rClaims :: ClaimConstraints

definition noScopes :: ScopeConstraints where "noScopes = \<lparr>scAllOf = [], scAnyOf = []\<rparr>"
definition noClaims :: ClaimConstraints where "noClaims = \<lparr>ccAllOf = [], ccAnyOf = []\<rparr>"

definition scopes_isEmpty :: "ScopeConstraints \<Rightarrow> bool" where "scopes_isEmpty s \<longleftrightarrow> scAllOf s = [] \<and> scAnyOf s = []"
definition claims_isEmpty :: "ClaimConstraints \<Rightarrow> bool" where "claims_isEmpty c \<longleftrightarrow> ccAllOf c = [] \<and> ccAnyOf c = []"

section \<open>Parsing\<close>

definition bracketed :: "string \<Rightarrow> nat \<Rightarrow> string" where "bracketed s i = s @ ''['' @ itoa (int i) @ '']''"

definition parseStringArray :: "params \<Rightarrow> string \<Rightarrow> string \<Rightarrow> string list outcome" where
  "parseStringArray m key ctx =
     (case index m key of
        ANil \<Rightarrow> Ret []
      | AArr arr \<Rightarrow>
          (case parseAll (\<lambda>i item. case as_str item of
                Some s \<Rightarrow> Ret (TrimSpace s)
              | None \<Rightarrow> Fail (bracketed (ctx @ ''.'' @ key) i @ '' must be a string'')) 0 arr of
             Ret ss \<Rightarrow> Ret (filter (\<lambda>s. s \<noteq> '''') ss)
           | Fail err \<Rightarrow> Fail err
           | Panic \<Rightarrow> Panic)
      | _ \<Rightarrow> Fail (ctx @ ''.'' @ key @ '' must be an array''))"

definition parseScopeConstraints :: "params \<Rightarrow> string \<Rightarrow> ScopeConstraints outcome" where
  "parseScopeConstraints ruleMap ctx =
     (case index ruleMap ''scopes'' of
        ANil \<Rightarrow> Ret noScopes
      | AMap m \<Rightarrow>
          (case parseStringArray m ''allOf'' (ctx @ ''.scopes'') of
             Ret a \<Rightarrow>
               (case parseStringArray m ''anyOf'' (ctx @ ''.scopes'') of
                  Ret b \<Rightarrow> Ret \<lparr>scAllOf = a, scAnyOf = b\<rparr>
                | Fail err \<Rightarrow> Fail err | Panic \<Rightarrow> Panic)
           | Fail err \<Rightarrow> Fail err | Panic \<Rightarrow> Panic)
      | _ \<Rightarrow> Fail (ctx @ ''.scopes must be an object''))"

definition parseClaimMatcher :: "string \<Rightarrow> nat \<Rightarrow> any \<Rightarrow> ClaimMatcher outcome" where
  "parseClaimMatcher ctx i item =
     (case as_map item of
        None \<Rightarrow> Fail (bracketed ctx i @ '' must be an object'')
      | Some mm \<Rightarrow>
          (let claim = TrimSpace (strField mm ''claim'') in
           if claim = '''' then Fail (bracketed ctx i @ ''.claim is required'')
           else case parseStringArray mm ''values'' (bracketed ctx i) of
             Ret [] \<Rightarrow> Fail (bracketed ctx i @ ''.values must have at least one value'')
           | Ret vs \<Rightarrow> Ret \<lparr>cmClaim = claim, cmValues = vs, legacyExactString = False\<rparr>
           | Fail err \<Rightarrow> Fail err
           | Panic \<Rightarrow> Panic))"

definition parseClaimMatchers :: "any \<Rightarrow> string \<Rightarrow> ClaimMatcher list outcome" where
  "parseClaimMatchers raw ctx =
     (case raw of
        ANil \<Rightarrow> Ret []
      | AArr arr \<Rightarrow> parseAll (parseClaimMatcher ctx) 0 arr
      | _ \<Rightarrow> Fail (ctx @ '' must be an array''))"

definition parseClaimConstraints :: "params \<Rightarrow> string \<Rightarrow> ClaimConstraints outcome" where
  "parseClaimConstraints ruleMap ctx =
     (case index ruleMap ''claims'' of
        ANil \<Rightarrow> Ret noClaims
      | AMap m \<Rightarrow>
          (case parseClaimMatchers (index m ''allOf'') (ctx @ ''.claims.allOf'') of
             Ret a \<Rightarrow>
               (case parseClaimMatchers (index m ''anyOf'') (ctx @ ''.claims.anyOf'') of
                  Ret b \<Rightarrow> Ret \<lparr>ccAllOf = a, ccAnyOf = b\<rparr>
                | Fail err \<Rightarrow> Fail err | Panic \<Rightarrow> Panic)
           | Fail err \<Rightarrow> Fail err | Panic \<Rightarrow> Panic)
      | _ \<Rightarrow> Fail (ctx @ ''.claims must be an object''))"

text \<open>The deprecated fields. Unlike the new ones, they are an error when present and null.\<close>

definition parseRequiredScopes :: "params \<Rightarrow> string \<Rightarrow> string list outcome" where
  "parseRequiredScopes ruleMap ctx =
     (case map_of ruleMap ''requiredScopes'' of
        None \<Rightarrow> Ret []
      | Some raw \<Rightarrow>
          (case as_arr raw of
             None \<Rightarrow> Fail (ctx @ ''.requiredScopes must be an array'')
           | Some arr \<Rightarrow>
               parseAll (\<lambda>j item. case as_str item of
                   Some s \<Rightarrow> Ret s
                 | None \<Rightarrow> Fail (bracketed (ctx @ ''.requiredScopes'') j @ '' must be a string'')) 0 arr))"

fun stringValues :: "string \<Rightarrow> params \<Rightarrow> (string, string) gomap outcome" where
  "stringValues ctx [] = Ret []"
| "stringValues ctx ((k, v) # m) =
     (case as_str v of
        None \<Rightarrow> Fail (ctx @ ''.requiredClaims['' @ k @ ''] must be a string'')
      | Some s \<Rightarrow> (case stringValues ctx m of Ret r \<Rightarrow> Ret ((k, s) # r) | Fail err \<Rightarrow> Fail err | Panic \<Rightarrow> Panic))"

definition parseRequiredClaims :: "params \<Rightarrow> string \<Rightarrow> (string, string) gomap outcome" where
  "parseRequiredClaims ruleMap ctx =
     (case map_of ruleMap ''requiredClaims'' of
        None \<Rightarrow> Ret []
      | Some raw \<Rightarrow>
          (case as_map raw of
             None \<Rightarrow> Fail (ctx @ ''.requiredClaims must be an object'')
           | Some m \<Rightarrow> stringValues ctx m))"

definition noCondition :: "string \<Rightarrow> string" where
  "noCondition ctx = ctx @ '' must define at least one of scopes, claims, requiredScopes, or requiredClaims''"

definition parseRuleItem :: "params \<Rightarrow> string \<Rightarrow> nat \<Rightarrow> string \<Rightarrow> Rule outcome" where
  "parseRuleItem ruleMap arrayKey i attributeType =
     (let ctx = bracketed arrayKey i in
      case map_of ruleMap ''name'' of
        None \<Rightarrow> Fail (ctx @ ''.name is required'')
      | Some nameRaw \<Rightarrow>
          (case as_str nameRaw of
             None \<Rightarrow> Fail (ctx @ ''.name must be a string'')
           | Some nm \<Rightarrow>
               (case parseScopeConstraints ruleMap ctx of Fail err \<Rightarrow> Fail err | Panic \<Rightarrow> Panic | Ret sc \<Rightarrow>
               (case parseClaimConstraints ruleMap ctx of Fail err \<Rightarrow> Fail err | Panic \<Rightarrow> Panic | Ret cc \<Rightarrow>
               (case parseRequiredScopes ruleMap ctx of Fail err \<Rightarrow> Fail err | Panic \<Rightarrow> Panic | Ret rs \<Rightarrow>
               (case parseRequiredClaims ruleMap ctx of Fail err \<Rightarrow> Fail err | Panic \<Rightarrow> Panic | Ret rc \<Rightarrow>
                  if scopes_isEmpty sc \<and> claims_isEmpty cc \<and> rs = [] \<and> rc = [] then Fail (noCondition ctx)
                  else Ret \<lparr>rAttribute = \<lparr>atType = attributeType, atName = nm\<rparr>, RequiredClaims = rc, RequiredScopes = rs,
                    rScopes = sc, rClaims = cc\<rparr>))))))"

definition parseArrayRules :: "params \<Rightarrow> string \<Rightarrow> string \<Rightarrow> Rule list outcome" where
  "parseArrayRules m arrayKey attributeType =
     (case map_of m arrayKey of
        None \<Rightarrow> Ret []
      | Some raw \<Rightarrow>
          (case as_arr raw of
             None \<Rightarrow> Fail (arrayKey @ '' must be an array'')
           | Some arr \<Rightarrow>
               parseAll (\<lambda>i item. case as_map item of
                   None \<Rightarrow> Fail (bracketed arrayKey i @ '' must be an object'')
                 | Some ruleMap \<Rightarrow> parseRuleItem ruleMap arrayKey i attributeType) 0 arr))"

definition arrayTypes :: "(string \<times> string) list" where
  "arrayTypes = [(''tools'', ''tool''), (''resources'', ''resource''), (''prompts'', ''prompt''), (''methods'', ''method'')]"

fun parseArrays :: "params \<Rightarrow> (string \<times> string) list \<Rightarrow> Rule list outcome" where
  "parseArrays m [] = Ret []"
| "parseArrays m ((key, ty) # ats) =
     (case parseArrayRules m key ty of
        Fail err \<Rightarrow> Fail (''failed to parse '' @ key @ '': '' @ err)
      | Panic \<Rightarrow> Panic
      | Ret rs \<Rightarrow> (case parseArrays m ats of Ret rs' \<Rightarrow> Ret (rs @ rs') | Fail err \<Rightarrow> Fail err | Panic \<Rightarrow> Panic))"

definition parseRules :: "params \<Rightarrow> Rule list outcome" where
  "parseRules m = parseArrays m arrayTypes"

definition authz_GetPolicy :: "params \<Rightarrow> Rule list outcome" where
  "authz_GetPolicy m = (case parseRules m of Fail err \<Rightarrow> Fail (''failed to parse rules: '' @ err) | out \<Rightarrow> out)"

section \<open>Evaluation\<close>

record AuthContext =
  acAuthenticated :: bool
  acAuthorized :: bool
  acAuthType :: string
  acSubject :: string
  acIssuer :: string
  acAudience :: "string list"
  acScopes :: "(string, bool) gomap"
  acProperties :: "(string, string) gomap option"
  acTypedProperties :: params

definition claimConstraintsFromRequired :: "(string, string) gomap \<Rightarrow> ClaimConstraints" where
  "claimConstraintsFromRequired rc =
     \<lparr>ccAllOf = map (\<lambda>(k, v). \<lparr>cmClaim = k, cmValues = [v], legacyExactString = True\<rparr>) rc, ccAnyOf = []\<rparr>"

fun typedValueToString :: "(any \<Rightarrow> string option) \<Rightarrow> any \<Rightarrow> string" where
  "typedValueToString marshal (AStr s) = s"
| "typedValueToString marshal (AFloat x) = itoa (f64_to_int64 x)"
| "typedValueToString marshal (ABool b) = (if b then ''true'' else ''false'')"
| "typedValueToString marshal v = (case marshal v of Some s \<Rightarrow> s | None \<Rightarrow> '''')"

definition typedValueStrings :: "(any \<Rightarrow> string option) \<Rightarrow> any \<Rightarrow> string list" where
  "typedValueStrings marshal v =
     (case v of
        ANil \<Rightarrow> []
      | AArr items \<Rightarrow> filter (\<lambda>s. s \<noteq> '''') (map (typedValueToString marshal) items)
      | _ \<Rightarrow> (let s = typedValueToString marshal v in if s \<noteq> '''' then [s] else []))"

definition flattened :: "AuthContext \<Rightarrow> string \<Rightarrow> string list" where
  "flattened a claim =
     (case acProperties a of None \<Rightarrow> [] | Some ps \<Rightarrow> [case map_of ps claim of Some s \<Rightarrow> s | None \<Rightarrow> ''''])"

definition claimMatcherMatches :: "(any \<Rightarrow> string option) \<Rightarrow> ClaimMatcher \<Rightarrow> AuthContext \<Rightarrow> bool" where
  "claimMatcherMatches marshal m a =
     (let want = (\<lambda>s. s \<in> set (cmValues m)) in
      if cmValues m = [] then False
      else if cmClaim m = ''sub'' then want (acSubject a)
      else if cmClaim m = ''iss'' then want (acIssuer a)
      else if cmClaim m = ''aud'' then list_ex want (acAudience a)
      else if legacyExactString m then list_ex want (flattened a (cmClaim m))
      else (case map_of (acTypedProperties a) (cmClaim m) of
              Some raw \<Rightarrow> list_ex want (typedValueStrings marshal raw)
            | None \<Rightarrow> list_ex want (flattened a (cmClaim m))))"

definition checkClaims :: "(any \<Rightarrow> string option) \<Rightarrow> ClaimConstraints \<Rightarrow> AuthContext \<Rightarrow> bool" where
  "checkClaims marshal cc a =
     (if \<not> list_all (\<lambda>m. claimMatcherMatches marshal m a) (ccAllOf cc) then False
      else if ccAnyOf cc \<noteq> [] then list_ex (\<lambda>m. claimMatcherMatches marshal m a) (ccAnyOf cc)
      else True)"

definition hasScope :: "AuthContext \<Rightarrow> string \<Rightarrow> bool" where
  "hasScope a s \<longleftrightarrow> map_of (acScopes a) s = Some True"

text \<open>With the scopes that would meet the condition that failed.\<close>

definition checkScopes :: "ScopeConstraints \<Rightarrow> AuthContext \<Rightarrow> bool \<times> string list" where
  "checkScopes sc a =
     (let missing = filter (\<lambda>s. \<not> hasScope a s) (scAllOf sc) in
      if missing \<noteq> [] then (False, missing)
      else if scAnyOf sc \<noteq> [] then (if list_ex (hasScope a) (scAnyOf sc) then (True, []) else (False, scAnyOf sc))
      else (True, []))"

definition effectiveScopes :: "Rule \<Rightarrow> ScopeConstraints" where
  "effectiveScopes r =
     (if scopes_isEmpty (rScopes r) \<and> RequiredScopes r \<noteq> [] then \<lparr>scAllOf = [], scAnyOf = RequiredScopes r\<rparr> else rScopes r)"

definition effectiveClaims :: "Rule \<Rightarrow> ClaimConstraints" where
  "effectiveClaims r =
     (if claims_isEmpty (rClaims r) \<and> RequiredClaims r \<noteq> [] then claimConstraintsFromRequired (RequiredClaims r) else rClaims r)"

definition ruleGrantsAccess :: "(any \<Rightarrow> string option) \<Rightarrow> Rule \<Rightarrow> AuthContext \<Rightarrow> bool \<times> string list" where
  "ruleGrantsAccess marshal r a =
     (let sc = effectiveScopes r; cc = effectiveClaims r in
      if \<not> claims_isEmpty cc \<and> \<not> checkClaims marshal cc a then (False, [])
      else if \<not> scopes_isEmpty sc \<and> \<not> fst (checkScopes sc a) then (False, snd (checkScopes sc a))
      else (True, []))"

text \<open>Every rule has to grant access; the missing scopes are a set, kept without repetition.\<close>

definition evaluateRules :: "(any \<Rightarrow> string option) \<Rightarrow> Rule list \<Rightarrow> AuthContext \<Rightarrow> bool \<times> string list" where
  "evaluateRules marshal rules a =
     foldl (\<lambda>(ok, missing) r.
         let (granted, ss) = ruleGrantsAccess marshal r a in
         if granted then (ok, missing) else (False, foldl (\<lambda>acc s. List.insert s acc) missing ss)) (True, []) rules"

definition matchesRule :: "string \<Rightarrow> string \<Rightarrow> string \<Rightarrow> Rule \<Rightarrow> bool" where
  "matchesRule attributeType attributeName method r =
     (let a = rAttribute r in
      if atType a = ''method'' \<and> (atName a = ''*'' \<or> atName a = method) then True
      else if atType a \<noteq> attributeType then False
      else attributeName \<noteq> '''' \<and> (atName a = ''*'' \<or> atName a = attributeName))"

definition findMatchingRules :: "Rule list \<Rightarrow> string \<Rightarrow> string \<Rightarrow> string \<Rightarrow> Rule list" where
  "findMatchingRules rules attributeType attributeName method =
     (let matching = filter (matchesRule attributeType attributeName method) rules
      in filter (\<lambda>r. atName (rAttribute r) \<noteq> ''*'') matching @ filter (\<lambda>r. atName (rAttribute r) = ''*'') matching)"

definition getAttributeTypeFromMethod :: "string \<Rightarrow> string option" where
  "getAttributeTypeFromMethod method =
     (case split_on (CHR ''/'') method of
        [t, _] \<Rightarrow>
          if t = ''tools'' then Some ''tool'' else if t = ''resources'' then Some ''resource''
          else if t = ''prompts'' then Some ''prompt'' else None
      | _ \<Rightarrow> None)"

definition getAttributeNameFromParams :: "string \<Rightarrow> MCPRequestParams \<Rightarrow> string" where
  "getAttributeNameFromParams method p =
     (case split_on (CHR ''/'') method of
        [t, _] \<Rightarrow> if t = ''tools'' \<or> t = ''prompts'' then pName p else if t = ''resources'' then pURI p else ''''
      | _ \<Rightarrow> '''')"

definition checkAuthorization :: "(any \<Rightarrow> string option) \<Rightarrow> Rule list \<Rightarrow> string \<Rightarrow> string \<Rightarrow> string \<Rightarrow> AuthContext \<Rightarrow> bool \<times> string list" where
  "checkAuthorization marshal rules attributeType attributeName method a =
     (case findMatchingRules rules attributeType attributeName method of
        [] \<Rightarrow> (True, [])
      | matching \<Rightarrow> evaluateRules marshal matching a)"

section \<open>The challenge\<close>

text \<open>The value \<^verbatim>\<open>strconv.Atoi\<close> returns, whether or not it reports an error: 0 for a malformed number, the
  nearest int for one out of range.\<close>

fun parseUint :: "int \<Rightarrow> string \<Rightarrow> int option" where
  "parseUint n [] = Some n"
| "parseUint n (c # cs) =
     (if \<not> is_digit c then None
      else let n' = 10 * n + digit_val c in if n' \<ge> 2 ^ 64 then Some (2 ^ 64 - 1) else parseUint n' cs)"

definition Atoi :: "string \<Rightarrow> int" where
  "Atoi s =
     (let neg = (s \<noteq> [] \<and> hd s = CHR ''-'');
          ds = (if s \<noteq> [] \<and> (hd s = CHR ''-'' \<or> hd s = CHR ''+'') then tl s else s)
      in if ds = [] then 0
         else case parseUint 0 ds of
           None \<Rightarrow> 0
         | Some n \<Rightarrow> if neg then max (- (2 ^ 63)) (- n) else min (2 ^ 63 - 1) n)"

definition parseAuthority :: "string \<Rightarrow> string \<times> int" where
  "parseAuthority authority =
     (if authority = '''' then ('''', -1)
      else let (host, rest) = cut (CHR '':'') authority
        in (host, if CHR '':'' \<in> set authority then Atoi rest else -1))"

definition isStandardPort :: "string \<Rightarrow> int \<Rightarrow> bool" where
  "isStandardPort scheme port \<longleftrightarrow> scheme = ''http'' \<and> port = 80 \<or> scheme = ''https'' \<and> port = 443"

definition generateResourcePath :: "string \<Rightarrow> string \<Rightarrow> string \<Rightarrow> string \<Rightarrow> string \<Rightarrow> string \<Rightarrow> string" where
  "generateResourcePath scheme authority vhost apiContext gatewayHost resource =
     (let port = snd (parseAuthority authority);
          host = (if vhost \<noteq> '''' \<and> \<not> Contains vhost ''*'' then vhost
                  else if gatewayHost = '''' then ''localhost'' else gatewayHost);
          port = (if port = -1 then if scheme = ''https'' then 8443 else 8080 else port);
          hostWithPort = (if isStandardPort scheme port then host else host @ '':'' @ itoa port)
      in if apiContext \<noteq> '''' then scheme @ ''://'' @ hostWithPort @ apiContext @ ''/'' @ resource
         else scheme @ ''://'' @ hostWithPort @ ''/'' @ resource)"

definition WellKnownPath :: string where "WellKnownPath = ''.well-known/oauth-protected-resource''"
definition AuthMethodBearer :: string where "AuthMethodBearer = ''Bearer resource_metadata=''"

definition generateWwwAuthenticateHeader :: "string \<Rightarrow> string \<Rightarrow> string \<Rightarrow> string \<Rightarrow> params \<Rightarrow> string list \<Rightarrow> string \<Rightarrow> string \<Rightarrow> string" where
  "generateWwwAuthenticateHeader scheme authority vhost apiContext metadata ss errorCode errorDesc =
     AuthMethodBearer @
     inDquotes (generateResourcePath scheme authority vhost apiContext (strField metadata ''gatewayHost'') WellKnownPath) @
     (if ss \<noteq> [] then '', scope='' @ inDquotes (join '' '' ss) else '''') @
     (if errorCode \<noteq> '''' then
        '', error='' @ inDquotes errorCode @
        (if errorDesc \<noteq> '''' then '', error_description='' @ inDquotes errorDesc else '''')
      else '''')"

section \<open>The request phase\<close>

record SharedContext =
  OperationPath :: string
  APIContext :: string
  scMetadata :: params
  scAuth :: "AuthContext option"

record RequestContext =
  rcShared :: "SharedContext option"
  rcBody :: "body option"
  rcVhost :: string

definition emptyShared :: SharedContext where
  "emptyShared = \<lparr>OperationPath = '''', APIContext = '''', scMetadata = [], scAuth = None\<rparr>"

definition statusText :: "int \<Rightarrow> string" where
  "statusText code =
     (if code = 400 then ''Bad Request'' else if code = 401 then ''Unauthorized'' else if code = 403 then ''Forbidden'' else '''')"

definition handleAuthFailure :: "(any \<Rightarrow> string option) \<Rightarrow> (string list \<Rightarrow> string list) \<Rightarrow> downstream \<Rightarrow> string \<Rightarrow> SharedContext
    \<Rightarrow> int \<Rightarrow> string \<Rightarrow> string \<Rightarrow> string list \<Rightarrow> ImmediateResponse" where
  "handleAuthFailure marshal iter ds vhost sh code errorCode errorMessage scopeMap =
     (let wwwAuth = generateWwwAuthenticateHeader (dsScheme ds) (dsAuthority ds) vhost (APIContext sh) (scMetadata sh)
            (iter scopeMap) errorCode errorMessage;
          errResponse = AMap [(''error'', AStr (statusText code)), (''message'', AStr errorMessage)]
      in \<lparr>irStatus = code, irHeaders = [(''content-type'', ''application/json''), (''WWW-Authenticate'', wwwAuth)],
          irBody = (case marshal errResponse of Some b \<Rightarrow> b | None \<Rightarrow> '''')\<rparr>)"

definition publishCapability :: "string \<Rightarrow> string \<Rightarrow> string \<Rightarrow> params \<Rightarrow> params" where
  "publishCapability method ty nm md =
     AList.update ''mcp.name'' (AStr nm) (AList.update ''mcp.type'' (AStr ty) (AList.update ''mcp.method'' (AStr method) md))"

definition grantAccess :: "AuthContext \<Rightarrow> AuthContext" where
  "grantAccess a =
     (let a = a\<lparr>acAuthorized := True\<rparr> in if acAuthType a = ''mcp/oauth'' then a\<lparr>acAuthType := ''mcp/oauth+authz''\<rparr> else a)"

text \<open>The decision on a request that names a capability: the rules it is governed by, then the identity, then
  the rules against the identity. A refusal is \<open>Some\<close> response.\<close>

definition decide :: "(any \<Rightarrow> string option) \<Rightarrow> (string list \<Rightarrow> string list) \<Rightarrow> Rule list \<Rightarrow> downstream \<Rightarrow> string \<Rightarrow> string \<Rightarrow> string \<Rightarrow> string
    \<Rightarrow> SharedContext \<Rightarrow> SharedContext \<times> ImmediateResponse option" where
  "decide marshal iter rules ds vhost method ty nm sh =
     (case findMatchingRules rules ty nm method of
        [] \<Rightarrow> (sh, None)
      | matching \<Rightarrow>
          let unauthenticated = handleAuthFailure marshal iter ds vhost sh 401 ''invalid_token''
                ''Unauthorized: authentication required for this MCP capability'' []
          in (case scAuth sh of
                None \<Rightarrow> (sh, Some unauthenticated)
              | Some a \<Rightarrow>
                  if \<not> acAuthenticated a then (sh, Some unauthenticated)
                  else let (authorized, missing) = evaluateRules marshal matching a in
                    if authorized then (sh\<lparr>scAuth := Some (grantAccess a)\<rparr>, None)
                    else (sh, Some (handleAuthFailure marshal iter ds vhost sh 403 ''insufficient_scope''
                      ''Forbidden: insufficient permissions to access this MCP resource'' missing))))"

text \<open>A present body. The request is decoded, then checked for ambiguous members.\<close>

definition authorizeBody :: "(string \<Rightarrow> string) \<Rightarrow> (string \<Rightarrow> json option) \<Rightarrow> (any \<Rightarrow> string option) \<Rightarrow> (string list \<Rightarrow> string list) \<Rightarrow> Rule list
    \<Rightarrow> downstream \<Rightarrow> string \<Rightarrow> string \<Rightarrow> SharedContext \<Rightarrow> SharedContext \<times> ImmediateResponse option" where
  "authorizeBody fld parseJSON marshal iter rules ds vhost content sh =
     (let malformed = handleAuthFailure marshal iter ds vhost sh 400 ''invalid_request'' ''Invalid MCP request format'' [] in
      case parseJSON content of
        None \<Rightarrow> (sh, Some malformed)
      | Some doc \<Rightarrow>
          (case decodeRequest fld [''method'', ''params''] doc of
             None \<Rightarrow> (sh, Some malformed)
           | Some req \<Rightarrow>
               if validateUnambiguousMembers fld doc (mMethod req) \<noteq> Valid then (sh, Some malformed)
               else (case getAttributeTypeFromMethod (mMethod req) of
                       None \<Rightarrow> (sh, None)
                     | Some ty \<Rightarrow>
                         let nm = getAttributeNameFromParams (mMethod req) (mParams req)
                         in decide marshal iter rules ds vhost (mMethod req) ty nm
                              (sh\<lparr>scMetadata := publishCapability (mMethod req) ty nm (scMetadata sh)\<rparr>))))"

text \<open>The policy runs on MCP requests; \<open>None\<close> lets the request pass.\<close>

definition governed :: "(string \<Rightarrow> string) \<Rightarrow> downstream \<Rightarrow> RequestContext \<Rightarrow> bool" where
  "governed fld ds ctx \<longleftrightarrow>
     mcpPost fld ds \<and> isMcpPath (case rcShared ctx of Some sh \<Rightarrow> OperationPath sh | None \<Rightarrow> dsPath ds)"

definition authz_OnRequestBody :: "(string \<Rightarrow> string) \<Rightarrow> (string \<Rightarrow> json option) \<Rightarrow> (any \<Rightarrow> string option) \<Rightarrow> (string list \<Rightarrow> string list)
    \<Rightarrow> Rule list \<Rightarrow> downstream \<Rightarrow> RequestContext \<Rightarrow> RequestContext \<times> ImmediateResponse option" where
  "authz_OnRequestBody fld parseJSON marshal iter rules ds ctx =
     (if \<not> governed fld ds ctx then (ctx, None)
      else let sh = (case rcShared ctx of Some sh \<Rightarrow> sh | None \<Rightarrow> emptyShared) in
        case rcBody ctx of
          None \<Rightarrow> (ctx\<lparr>rcShared := Some sh\<rparr>, None)
        | Some b \<Rightarrow>
            if \<not> Present b then (ctx\<lparr>rcShared := Some sh\<rparr>, None)
            else let (sh, act) = authorizeBody fld parseJSON marshal iter rules ds (rcVhost ctx) (Content b) sh
              in (ctx\<lparr>rcShared := Some sh\<rparr>, act))"

section \<open>Lemmas\<close>

text \<open>What a rule asks of an identity.\<close>

definition satisfies :: "(any \<Rightarrow> string option) \<Rightarrow> AuthContext \<Rightarrow> Rule \<Rightarrow> bool" where
  "satisfies marshal a r \<longleftrightarrow>
     (let sc = effectiveScopes r; cc = effectiveClaims r; claim = (\<lambda>m. claimMatcherMatches marshal m a) in
      (\<forall>m \<in> set (ccAllOf cc). claim m) \<and> (ccAnyOf cc = [] \<or> (\<exists>m \<in> set (ccAnyOf cc). claim m)) \<and>
      (\<forall>s \<in> set (scAllOf sc). hasScope a s) \<and> (scAnyOf sc = [] \<or> (\<exists>s \<in> set (scAnyOf sc). hasScope a s)))"

lemma checkClaims_iff:
  "checkClaims marshal cc a \<longleftrightarrow> (\<forall>m \<in> set (ccAllOf cc). claimMatcherMatches marshal m a) \<and>
     (ccAnyOf cc = [] \<or> (\<exists>m \<in> set (ccAnyOf cc). claimMatcherMatches marshal m a))"
  by (auto simp: checkClaims_def list_all_iff list_ex_iff)

lemma checkScopes_iff:
  "fst (checkScopes sc a) \<longleftrightarrow> (\<forall>s \<in> set (scAllOf sc). hasScope a s) \<and> (scAnyOf sc = [] \<or> (\<exists>s \<in> set (scAnyOf sc). hasScope a s))"
  by (auto simp: checkScopes_def Let_def filter_empty_conv list_ex_iff)

lemma ruleGrantsAccess_iff: "fst (ruleGrantsAccess marshal r a) \<longleftrightarrow> satisfies marshal a r"
  unfolding ruleGrantsAccess_def satisfies_def Let_def
  using checkClaims_iff [of marshal "effectiveClaims r" a] checkScopes_iff [of "effectiveScopes r" a]
  by (auto simp: claims_isEmpty_def scopes_isEmpty_def)

lemma evaluateRules_from:
  "fst (foldl (\<lambda>(ok, missing) r.
         let (granted, ss) = ruleGrantsAccess marshal r a in
         if granted then (ok, missing) else (False, foldl (\<lambda>acc s. List.insert s acc) missing ss)) (ok, missing) rules) \<longleftrightarrow>
   ok \<and> (\<forall>r \<in> set rules. satisfies marshal a r)"
proof (induction rules arbitrary: ok missing)
  case (Cons r rules)
  show ?case using ruleGrantsAccess_iff [of marshal r a] Cons.IH
    by (cases "ruleGrantsAccess marshal r a") (auto simp: Let_def)
qed simp

lemma evaluateRules_iff: "fst (evaluateRules marshal rules a) \<longleftrightarrow> (\<forall>r \<in> set rules. satisfies marshal a r)"
  unfolding evaluateRules_def evaluateRules_from by simp

lemma findMatchingRules_set: "set (findMatchingRules rules ty nm method) = {r \<in> set rules. matchesRule ty nm method r}"
  by (auto simp: findMatchingRules_def Let_def)

lemma decide_passes:
  assumes "decide marshal iter rules ds vhost method ty nm sh = (sh', None)" "r \<in> set rules" "matchesRule ty nm method r"
  shows "\<exists>a. scAuth sh = Some a \<and> acAuthenticated a \<and> satisfies marshal a r \<and> scAuth sh' = Some (grantAccess a)"
proof -
  have "r \<in> set (findMatchingRules rules ty nm method)" using assms(2,3) by (simp add: findMatchingRules_set)
  moreover from this obtain q qs where "findMatchingRules rules ty nm method = q # qs"
    by (cases "findMatchingRules rules ty nm method") auto
  ultimately show ?thesis
    using assms(1) evaluateRules_iff [of marshal "q # qs"]
    by (auto simp: decide_def Let_def split: option.splits if_splits prod.splits) (metis fst_conv list.set_intros)+
qed

definition capabilityMember :: "string \<Rightarrow> string" where
  "capabilityMember ty = (if ty = ''resource'' then ''uri'' else ''name'')"

lemma attribute_member:
  assumes "getAttributeTypeFromMethod method = Some ty"
  shows "authzMember method = Some (capabilityMember ty)" "getAttributeNameFromParams method p = paramsMember (capabilityMember ty) p"
proof -
  obtain t u where "split_on (CHR ''/'') method = [t, u]" and "t = ''tools'' \<and> ty = ''tool'' \<or> t = ''resources'' \<and> ty = ''resource'' \<or> t = ''prompts'' \<and> ty = ''prompt''"
    using assms by (auto simp: getAttributeTypeFromMethod_def split: list.splits if_splits)
  then show "authzMember method = Some (capabilityMember ty)" "getAttributeNameFromParams method p = paramsMember (capabilityMember ty) p"
    by (auto simp: authzMember_def getAttributeNameFromParams_def capabilityMember_def paramsMember_def)
qed

lemma matchesRule_unnamed: "matchesRule ty '''' method r \<Longrightarrow> matchesRule ty nm method r"
  by (auto simp: matchesRule_def Let_def split: if_splits)

lemma authorizeBody_passes:
  assumes "authorizeBody fld parseJSON marshal iter rules ds vhost content sh = (sh', None)"
    "parseJSON content = Some doc"
  obtains req where "decodeRequest fld [''method'', ''params''] doc = Some req"
    "validateMembers fld doc (authzMember (mMethod req)) = Valid"
    "\<And>ty nm. getAttributeTypeFromMethod (mMethod req) = Some ty \<Longrightarrow> nm = getAttributeNameFromParams (mMethod req) (mParams req) \<Longrightarrow>
       decide marshal iter rules ds vhost (mMethod req) ty nm
         (sh\<lparr>scMetadata := publishCapability (mMethod req) ty nm (scMetadata sh)\<rparr>) = (sh', None)"
  using assms by (auto simp: authorizeBody_def Let_def validateUnambiguousMembers_def split: option.splits if_splits)

lemma authz_body:
  assumes "authz_OnRequestBody fld parseJSON marshal iter rules ds ctx = (ctx', None)" "governed fld ds ctx"
    "rcBody ctx = Some b" "Present b"
  obtains sh sh' where "sh = (case rcShared ctx of Some sh \<Rightarrow> sh | None \<Rightarrow> emptyShared)" "rcShared ctx' = Some sh'"
    "authorizeBody fld parseJSON marshal iter rules ds (rcVhost ctx) (Content b) sh = (sh', None)"
  using assms by (auto simp: authz_OnRequestBody_def Let_def split: prod.splits)

section \<open>Properties\<close>

text \<open>C11: authorization cannot be evaded by the way a request is written. Let a backend read the method and
  the capability of an MCP request from any members whose names match up to case, taking any of repeated
  ones. If the policy lets the request pass, then the request had an authenticated identity, and that identity
  meets the scopes and claims of every rule that targets the method or the capability the backend reads; the
  identity is left marked as authorized.\<close>
theorem mcp_authz_sound:
  assumes "foldOk fld" "governed fld ds ctx" "rcBody ctx = Some b" "Present b" "parseJSON (Content b) = Some (JObj ms)"
    and "authz_OnRequestBody fld parseJSON marshal iter rules ds ctx = (ctx', None)"
    and "mayRead fld ms ''method'' (JStr method)" "getAttributeTypeFromMethod method = Some ty"
    and "nm = '''' \<or> (mayRead fld ms ''params'' (JObj ps) \<and> mayRead fld ps (capabilityMember ty) (JStr nm))"
    and "r \<in> set rules" "matchesRule ty nm method r"
  shows "\<exists>sh a sh'. rcShared ctx = Some sh \<and> scAuth sh = Some a \<and> acAuthenticated a \<and> satisfies marshal a r \<and>
    rcShared ctx' = Some sh' \<and> scAuth sh' = Some (grantAccess a)"
proof -
  obtain sh sh' where sh: "sh = (case rcShared ctx of Some sh \<Rightarrow> sh | None \<Rightarrow> emptyShared)" "rcShared ctx' = Some sh'"
    and run: "authorizeBody fld parseJSON marshal iter rules ds (rcVhost ctx) (Content b) sh = (sh', None)"
    using authz_body [OF assms(6,2-4)] by metis
  obtain req where req: "decodeRequest fld [''method'', ''params''] (JObj ms) = Some req"
    "validateMembers fld (JObj ms) (authzMember (mMethod req)) = Valid"
    and dec: "\<And>ty nm. getAttributeTypeFromMethod (mMethod req) = Some ty \<Longrightarrow> nm = getAttributeNameFromParams (mMethod req) (mParams req) \<Longrightarrow>
       decide marshal iter rules ds (rcVhost ctx) (mMethod req) ty nm
         (sh\<lparr>scMetadata := publishCapability (mMethod req) ty nm (scMetadata sh)\<rparr>) = (sh', None)"
    using authorizeBody_passes [OF run assms(5)] by metis
  have f: "requestFields [''method'', ''params'']" by (simp add: requestFields_def)
  have m: "mMethod req = method" using decodeRequest_method [OF assms(1) f req refl assms(7)] .
  note am = attribute_member [OF assms(8)]
  let ?nm = "getAttributeNameFromParams method (mParams req)"
  have "matchesRule ty ?nm method r"
  proof (cases "nm = ''''")
    case True
    then show ?thesis using assms(11) matchesRule_unnamed by blast
  next
    case False
    then have rd: "mayRead fld ms ''params'' (JObj ps)" "mayRead fld ps (capabilityMember ty) (JStr nm)" using assms(9) by auto
    have "paramsMember (capabilityMember ty) (mParams req) = nm"
      using decodeRequest_params [OF assms(1) f req(1) _ refl rd] req(2) m am(1) by (simp add: capabilityMember_def)
    then show ?thesis using am(2) assms(11) by simp
  qed
  from decide_passes [OF dec [of ty ?nm] assms(10)] this m assms(8)
  obtain a where "scAuth sh = Some a" "acAuthenticated a" "satisfies marshal a r" "scAuth sh' = Some (grantAccess a)" by auto
  moreover from this(1) sh(1) have "rcShared ctx = Some sh" by (auto simp: emptyShared_def split: option.splits)
  ultimately show ?thesis using sh(2) by auto
qed

text \<open>A request that names a tool, its members in the order given, and a rule on that tool.\<close>

definition callOf :: "string \<Rightarrow> string \<Rightarrow> json" where
  "callOf method nm = JObj [(''method'', JStr method), (''params'', JObj [(''name'', JStr nm)])]"

definition payRule :: Rule where
  "payRule = \<lparr>rAttribute = \<lparr>atType = ''tool'', atName = ''transfer''\<rparr>, RequiredClaims = [], RequiredScopes = [],
     rScopes = \<lparr>scAllOf = [''pay''], scAnyOf = []\<rparr>, rClaims = noClaims\<rparr>"

definition payer :: AuthContext where
  "payer = \<lparr>acAuthenticated = True, acAuthorized = False, acAuthType = ''mcp/oauth'', acSubject = ''alice'', acIssuer = '''',
     acAudience = [], acScopes = [(''pay'', True)], acProperties = None, acTypedProperties = []\<rparr>"

definition mcpShared :: "AuthContext option \<Rightarrow> SharedContext" where
  "mcpShared a = \<lparr>OperationPath = ''/mcp'', APIContext = '''', scMetadata = [], scAuth = a\<rparr>"

definition mcpCtx :: "AuthContext option \<Rightarrow> RequestContext" where
  "mcpCtx a = \<lparr>rcShared = Some (mcpShared a), rcBody = Some \<lparr>Content = ''body'', Present = True\<rparr>, rcVhost = ''''\<rparr>"

definition mcpDs :: downstream where
  "mcpDs = \<lparr>dsMethod = ''POST'', dsPath = ''/mcp'', dsScheme = ''https'', dsAuthority = ''gw:443'', dsHeaders = None\<rparr>"

definition payRun :: "RequestContext \<times> ImmediateResponse option" where
  "payRun = authz_OnRequestBody ToLower (\<lambda>_. Some (callOf ''tools/call'' ''transfer'')) (\<lambda>_. None) id [payRule] mcpDs (mcpCtx (Some payer))"

lemma payRun_passes: "authz_OnRequestBody ToLower (\<lambda>_. Some (callOf ''tools/call'' ''transfer'')) (\<lambda>_. None) id [payRule] mcpDs
    (mcpCtx (Some payer)) = (fst payRun, None)"
proof -
  have "snd payRun = None" by code_simp
  then show ?thesis unfolding payRun_def by (metis prod.collapse)
qed

text \<open>\<open>mcp_authz_sound\<close> at a call of a governed tool.\<close>
theorem mcp_authz_sound_witness:
  "\<exists>sh a sh'. rcShared (mcpCtx (Some payer)) = Some sh \<and> scAuth sh = Some a \<and> acAuthenticated a \<and> satisfies (\<lambda>_. None) a payRule \<and>
    rcShared (fst payRun) = Some sh' \<and> scAuth sh' = Some (grantAccess a)"
proof -
  let ?ps = "[(''name'', JStr ''transfer'')]" let ?ms = "[(''method'', JStr ''tools/call''), (''params'', JObj ?ps)]"
  have c: "foldOk ToLower" "governed ToLower mcpDs (mcpCtx (Some payer))" "getAttributeTypeFromMethod ''tools/call'' = Some ''tool''"
    "matchesRule ''tool'' ''transfer'' ''tools/call'' payRule"
    by code_simp+
  have r: "mayRead ToLower ?ms ''method'' (JStr ''tools/call'')" "mayRead ToLower ?ms ''params'' (JObj ?ps)"
    "mayRead ToLower ?ps (capabilityMember ''tool'') (JStr ''transfer'')"
    by (simp_all add: mayRead_def capabilityMember_def)
  show ?thesis
    by (rule mcp_authz_sound [OF c(1,2) _ _ _ payRun_passes r(1) c(3) _ _ c(4), where b = "\<lparr>Content = ''body'', Present = True\<rparr>" and ps = ?ps])
      (use r in \<open>simp_all add: mcpCtx_def callOf_def\<close>)
qed


definition everyMethodRule :: Rule where
  "everyMethodRule = payRule\<lparr>rAttribute := \<lparr>atType = ''method'', atName = ''*''\<rparr>\<rparr>"


section \<open>Parsed rules\<close>

text \<open>A rule of the parser has a condition, and the matchers of \<open>claims\<close> have values, none of them empty.\<close>

definition matcherWf :: "ClaimMatcher \<Rightarrow> bool" where
  "matcherWf m \<longleftrightarrow> cmClaim m \<noteq> '''' \<and> cmValues m \<noteq> [] \<and> '''' \<notin> set (cmValues m) \<and> \<not> legacyExactString m"

definition ruleWf :: "Rule \<Rightarrow> bool" where
  "ruleWf r \<longleftrightarrow> \<not> (scopes_isEmpty (rScopes r) \<and> claims_isEmpty (rClaims r) \<and> RequiredScopes r = [] \<and> RequiredClaims r = []) \<and>
     (\<forall>m \<in> set (ccAllOf (rClaims r)) \<union> set (ccAnyOf (rClaims r)). matcherWf m)"

lemma parseStringArray_nonempty: "parseStringArray m key ctx = Ret ss \<Longrightarrow> '''' \<notin> set ss"
  by (auto simp: parseStringArray_def split: any.splits outcome.splits)

lemma parseClaimMatcher_wf: "parseClaimMatcher ctx i item = Ret m \<Longrightarrow> matcherWf m"
  using parseStringArray_nonempty
  by (fastforce simp: parseClaimMatcher_def matcherWf_def Let_def split: option.splits if_splits outcome.splits list.splits)

lemma parseClaimMatchers_wf: "parseClaimMatchers raw ctx = Ret ms \<Longrightarrow> m \<in> set ms \<Longrightarrow> matcherWf m"
  by (auto simp: parseClaimMatchers_def split: any.splits dest!: parseAll_elements dest: parseClaimMatcher_wf)

lemma parseClaimConstraints_wf:
  "parseClaimConstraints rm ctx = Ret cc \<Longrightarrow> m \<in> set (ccAllOf cc) \<union> set (ccAnyOf cc) \<Longrightarrow> matcherWf m"
  using parseClaimMatchers_wf
  by (fastforce simp: parseClaimConstraints_def noClaims_def split: any.splits outcome.splits)

lemma parseRuleItem_wf: "parseRuleItem rm key i ty = Ret r \<Longrightarrow> ruleWf r"
  using parseClaimConstraints_wf
  by (auto simp: parseRuleItem_def ruleWf_def Let_def split: option.splits outcome.splits if_splits)

lemma parseArrayRules_wf: "parseArrayRules m key ty = Ret rs \<Longrightarrow> r \<in> set rs \<Longrightarrow> ruleWf r"
  by (auto simp: parseArrayRules_def split: option.splits dest!: parseAll_elements)
    (auto split: option.splits dest: parseRuleItem_wf)

lemma parseArrays_wf: "parseArrays m ats = Ret rs \<Longrightarrow> r \<in> set rs \<Longrightarrow> ruleWf r"
  by (induction m ats arbitrary: rs rule: parseArrays.induct) (auto split: outcome.splits dest: parseArrayRules_wf)

text \<open>An identity with nothing in it.\<close>

definition blank :: "AuthContext \<Rightarrow> bool" where
  "blank a \<longleftrightarrow> acSubject a = '''' \<and> acIssuer a = '''' \<and> acAudience a = [] \<and> acScopes a = [] \<and>
     (acProperties a = None \<or> acProperties a = Some []) \<and> acTypedProperties a = []"

lemma blank_claim: "blank a \<Longrightarrow> '''' \<notin> set (cmValues m) \<Longrightarrow> \<not> claimMatcherMatches marshal m a"
  by (auto simp: blank_def claimMatcherMatches_def flattened_def Let_def)

lemma blank_scope: "blank a \<Longrightarrow> \<not> hasScope a s"
  by (simp add: blank_def hasScope_def)


definition payConfig :: params where
  "payConfig = [(''tools'', AArr [AMap [(''name'', AStr ''transfer''), (''scopes'', AMap [(''allOf'', AArr [AStr ''pay''])])]])]"

definition nobody :: AuthContext where
  "nobody = payer\<lparr>acSubject := '''', acScopes := []\<rparr>"


end
