(* ===== verification/McpAclList.thy ===== *)
theory McpAclList
  imports McpMessage QuotaHeaders
begin

text \<open>
  \<^verbatim>\<open>mcp-acl-list.go\<close>: access control lists for the tools, resources and prompts of an MCP server. Calls of
  capabilities that are not allowed are refused, and lists of capabilities are cut down to those allowed.
  Arguments: \<open>parseJSON\<close> (the document of a text), \<open>marshal\<close> (\<^verbatim>\<open>json.Marshal\<close>) and \<open>fld\<close> (case folding); the
  order of the headers is the order of iteration over them. The shared context is taken to be present.
\<close>

section \<open>Configuration\<close>

record AclConfig =
  acEnabled :: bool
  acMode :: string
  acExceptions :: "string list"

definition noAcl :: AclConfig where
  "noAcl = \<lparr>acEnabled = False, acMode = '''', acExceptions = []\<rparr>"

record McpAclListPolicy =
  aclTools :: AclConfig
  aclResources :: AclConfig
  aclPrompts :: AclConfig

definition parseMode :: "string \<Rightarrow> params \<Rightarrow> string outcome" where
  "parseMode ty entry =
     (case map_of entry ''mode'' of
        None \<Rightarrow> Ret ''deny''
      | Some raw \<Rightarrow>
          (let bad = Fail (ty @ ''.mode must be '' @ quoted ''allow'' @ '' or '' @ quoted ''deny'') in
           case as_str raw of
             None \<Rightarrow> bad
           | Some s \<Rightarrow> (let m = ToLower (TrimSpace s) in if m \<noteq> ''allow'' \<and> m \<noteq> ''deny'' then bad else Ret m)))"

definition parseException :: "string \<Rightarrow> nat \<Rightarrow> any \<Rightarrow> string outcome" where
  "parseException ty i item =
     (let bad = Fail (ty @ ''.exceptions['' @ itoa (int i) @ ''] must be a non-empty string'') in
      case as_str item of
        None \<Rightarrow> bad
      | Some s \<Rightarrow> (let t = TrimSpace s in if t = '''' then bad else Ret t))"

definition parseAclConfig :: "params \<Rightarrow> string \<Rightarrow> AclConfig outcome" where
  "parseAclConfig m ty =
     (case map_of m ty of
        None \<Rightarrow> Ret noAcl
      | Some raw \<Rightarrow>
          (case as_map raw of
             None \<Rightarrow> Fail (ty @ '' must be an object'')
           | Some entry \<Rightarrow>
               (case parseMode ty entry of
                  Fail err \<Rightarrow> Fail err
                | Panic \<Rightarrow> Panic
                | Ret mode \<Rightarrow>
                    (case index entry ''exceptions'' of
                       ANil \<Rightarrow> Ret \<lparr>acEnabled = True, acMode = mode, acExceptions = []\<rparr>
                     | AArr items \<Rightarrow>
                         (case parseAll (parseException ty) 0 items of
                            Ret es \<Rightarrow> Ret \<lparr>acEnabled = True, acMode = mode, acExceptions = es\<rparr>
                          | Fail err \<Rightarrow> Fail err
                          | Panic \<Rightarrow> Panic)
                     | _ \<Rightarrow> Fail (ty @ ''.exceptions must be an array'')))))"

definition inSection :: "string \<Rightarrow> 'a outcome \<Rightarrow> 'a outcome" where
  "inSection ty out = (case out of Fail err \<Rightarrow> Fail (''invalid '' @ ty @ '' configuration: '' @ err) | _ \<Rightarrow> out)"

definition acl_GetPolicy :: "params \<Rightarrow> McpAclListPolicy outcome" where
  "acl_GetPolicy m =
     (case inSection ''tools'' (parseAclConfig m ''tools'') of Fail err \<Rightarrow> Fail err | Panic \<Rightarrow> Panic | Ret t \<Rightarrow>
     (case inSection ''resources'' (parseAclConfig m ''resources'') of Fail err \<Rightarrow> Fail err | Panic \<Rightarrow> Panic | Ret r \<Rightarrow>
     (case inSection ''prompts'' (parseAclConfig m ''prompts'') of Fail err \<Rightarrow> Fail err | Panic \<Rightarrow> Panic | Ret p \<Rightarrow>
        Ret \<lparr>aclTools = t, aclResources = r, aclPrompts = p\<rparr>)))"

definition getAclConfig :: "McpAclListPolicy \<Rightarrow> string \<Rightarrow> AclConfig" where
  "getAclConfig p ty =
     (if ty = ''tools'' then aclTools p else if ty = ''resources'' then aclResources p
      else if ty = ''prompts'' then aclPrompts p else noAcl)"

definition isAllowedByAcl :: "AclConfig \<Rightarrow> string \<Rightarrow> bool" where
  "isAllowedByAcl c key = (if acMode c = ''allow'' then key \<notin> set (acExceptions c) else key \<in> set (acExceptions c))"

definition getParamKey :: "string \<Rightarrow> string" where
  "getParamKey ty = (if ty = ''resources'' then ''uri'' else ''name'')"

text \<open>An item without an identifier is kept only by a list that allows by default.\<close>

definition keepsItem :: "string \<Rightarrow> AclConfig \<Rightarrow> any \<Rightarrow> bool" where
  "keepsItem ty c item =
     (case as_map item of
        None \<Rightarrow> acMode c = ''allow''
      | Some entry \<Rightarrow>
          (case as_str (index entry (getParamKey ty)) of
             None \<Rightarrow> acMode c = ''allow''
           | Some key \<Rightarrow> if TrimSpace key = '''' then acMode c = ''allow'' else isAllowedByAcl c key))"

fun filterItems :: "string \<Rightarrow> AclConfig \<Rightarrow> any list \<Rightarrow> any list \<times> bool" where
  "filterItems ty c [] = ([], False)"
| "filterItems ty c (item # items) =
     (let (kept, changed) = filterItems ty c items
      in if keepsItem ty c item then (item # kept, changed) else (kept, True))"

definition filterListItems :: "any list \<Rightarrow> string \<Rightarrow> AclConfig \<Rightarrow> any list \<times> bool" where
  "filterListItems items ty c =
     (let (kept, changed) = filterItems ty c items in (kept, changed \<or> length kept \<noteq> length items))"

definition parseMcpMethod :: "string \<Rightarrow> (string \<times> string) option" where
  "parseMcpMethod method =
     (case split_on (CHR ''/'') method of
        [ty, action] \<Rightarrow> if ty \<in> {''tools'', ''resources'', ''prompts''} then Some (ty, action) else None
      | _ \<Rightarrow> None)"

definition isApplicableOnRequest :: "string \<Rightarrow> string \<Rightarrow> bool" where
  "isApplicableOnRequest ty action \<longleftrightarrow>
     ty = ''tools'' \<and> action = ''call'' \<or> ty = ''resources'' \<and> action = ''read'' \<or> ty = ''prompts'' \<and> action = ''get''"

section \<open>Event streams\<close>

record sseEvent =
  evFields :: "string list"
  evData :: string

definition trimCR :: "string \<Rightarrow> string" where
  "trimCR s = (if s \<noteq> [] \<and> last s = carriage then butlast s else s)"

definition flushEvent :: "string list \<Rightarrow> string list \<Rightarrow> sseEvent list" where
  "flushEvent fs ds = (if fs = [] \<and> ds = [] then [] else [\<lparr>evFields = fs, evData = join [newline] ds\<rparr>])"

fun eventLoop :: "string list \<Rightarrow> string list \<Rightarrow> string list \<Rightarrow> sseEvent list" where
  "eventLoop fs ds [] = flushEvent fs ds"
| "eventLoop fs ds (l # ls) =
     (let line = trimCR l in
      if line = '''' then flushEvent fs ds @ eventLoop [] [] ls
      else if HasPrefix line ''data:'' then eventLoop fs (ds @ [TrimPrefix (TrimPrefix line ''data:'') '' '']) ls
      else eventLoop (fs @ [line]) ds ls)"

definition parseEventStream :: "string \<Rightarrow> sseEvent list" where
  "parseEventStream b = eventLoop [] [] (split_on newline b)"

definition buildEvent :: "sseEvent \<Rightarrow> string" where
  "buildEvent e =
     concat (map (\<lambda>f. f @ [newline]) (evFields e)) @
     (if evData e \<noteq> '''' then concat (map (\<lambda>l. ''data: '' @ l @ [newline]) (split_on newline (evData e))) else '''') @ [newline]"

definition buildEventStream :: "sseEvent list \<Rightarrow> string" where
  "buildEventStream es = concat (map buildEvent es)"

text \<open>The first event whose data is an object (or null), its position and all events.\<close>

fun firstPayload :: "(string \<Rightarrow> json option) \<Rightarrow> nat \<Rightarrow> sseEvent list \<Rightarrow> (params \<times> nat) option" where
  "firstPayload parseJSON i [] = None"
| "firstPayload parseJSON i (e # es) =
     (if TrimSpace (evData e) = '''' then firstPayload parseJSON (Suc i) es
      else case Option.bind (parseJSON (evData e)) unmarshalMap of
        None \<Rightarrow> firstPayload parseJSON (Suc i) es
      | Some payload \<Rightarrow> Some (payload, i))"

definition parseRequestPayload :: "(string \<Rightarrow> json option) \<Rightarrow> string \<Rightarrow> bool \<Rightarrow> (params \<times> sseEvent list \<times> int) option" where
  "parseRequestPayload parseJSON content isSse =
     (if \<not> isSse then map_option (\<lambda>m. (m, [], -1)) (Option.bind (parseJSON content) unmarshalMap)
      else let es = parseEventStream content in map_option (\<lambda>(m, i). (m, es, int i)) (firstPayload parseJSON 0 es))"

definition isEventStream :: "hdrs option \<Rightarrow> bool" where
  "isEventStream h =
     (case h of
        None \<Rightarrow> False
      | Some h \<Rightarrow> list_ex (\<lambda>(k, vs). ToLower k = ''content-type'' \<and> list_ex (\<lambda>v. Contains (ToLower v) ''text/event-stream'') vs) (hAll h))"

definition acl_getSessionID :: "hdrs option \<Rightarrow> string" where
  "acl_getSessionID h =
     (case h of
        None \<Rightarrow> ''''
      | Some h \<Rightarrow> (case find (\<lambda>(k, vs). ToLower k = mcpSessionHeader \<and> vs \<noteq> []) (hAll h) of Some (k, vs) \<Rightarrow> hd vs | None \<Rightarrow> ''''))"

section \<open>Refusals\<close>

record AclResponse = ImmediateResponse +
  irAnalytics :: params

definition jsonRpcError :: "int \<Rightarrow> string \<Rightarrow> any \<Rightarrow> any" where
  "jsonRpcError code reason requestID =
     AMap [(''jsonrpc'', AStr ''2.0''), (''id'', requestID), (''error'', AMap [(''code'', AInt code), (''message'', AStr reason)])]"

definition fallbackBody :: "string \<Rightarrow> string" where
  "fallbackBody rid =
     ''{'' @ inDquotes ''jsonrpc'' @ '':'' @ inDquotes ''2.0'' @ '','' @ inDquotes ''id'' @ '':'' @ rid @ '','' @ inDquotes ''error'' @
     '':{'' @ inDquotes ''code'' @ '':-32603,'' @ inDquotes ''message'' @ '':'' @ inDquotes ''Unexpected error'' @ ''}}''"

definition errorText :: "(any \<Rightarrow> string option) \<Rightarrow> int \<Rightarrow> string \<Rightarrow> any \<Rightarrow> string" where
  "errorText marshal code reason requestID =
     (case marshal (jsonRpcError code reason requestID) of
        Some b \<Rightarrow> b
      | None \<Rightarrow> fallbackBody (case marshal requestID of Some b \<Rightarrow> b | None \<Rightarrow> ''null''))"

definition withSession :: "string \<Rightarrow> string \<Rightarrow> header" where
  "withSession contentType sid =
     [(''Content-Type'', contentType)] @ (if sid \<noteq> '''' then [(mcpSessionHeader, sid)] else [])"

definition buildEventStreamErrorResponse :: "(any \<Rightarrow> string option) \<Rightarrow> int \<Rightarrow> int \<Rightarrow> string \<Rightarrow> any \<Rightarrow> string \<Rightarrow> AclResponse" where
  "buildEventStreamErrorResponse marshal status code reason requestID sid =
     \<lparr>irStatus = status, irHeaders = withSession ''text/event-stream'' sid,
      irBody = buildEventStream [\<lparr>evFields = [], evData = errorText marshal code reason requestID\<rparr>],
      irAnalytics = [(''mcpErrorCode'', AInt code)]\<rparr>"

definition buildErrorResponse :: "(any \<Rightarrow> string option) \<Rightarrow> int \<Rightarrow> int \<Rightarrow> string \<Rightarrow> any \<Rightarrow> string \<Rightarrow> AclResponse" where
  "buildErrorResponse marshal status code reason requestID sid =
     \<lparr>irStatus = status, irHeaders = withSession ''application/json'' sid, irBody = errorText marshal code reason requestID,
      irAnalytics = [(''mcpErrorCode'', AInt code)]\<rparr>"

definition buildRequestErrorResponse :: "(any \<Rightarrow> string option) \<Rightarrow> hdrs option \<Rightarrow> int \<Rightarrow> int \<Rightarrow> string \<Rightarrow> any \<Rightarrow> AclResponse" where
  "buildRequestErrorResponse marshal h status code reason requestID =
     (if isEventStream h then buildEventStreamErrorResponse marshal status code reason requestID (acl_getSessionID h)
      else buildErrorResponse marshal status code reason requestID (acl_getSessionID h))"

section \<open>The phases\<close>

definition isMcpPostRequest :: "(string \<Rightarrow> string) \<Rightarrow> downstream \<Rightarrow> string \<Rightarrow> bool" where
  "isMcpPostRequest fld ds path \<longleftrightarrow> mcpPost fld ds \<and> isMcpPath path"

text \<open>The decision on a call: \<open>None\<close> lets it pass.\<close>

definition checkCall :: "(any \<Rightarrow> string option) \<Rightarrow> McpAclListPolicy \<Rightarrow> hdrs option \<Rightarrow> string \<Rightarrow> params \<Rightarrow> AclResponse option" where
  "checkCall marshal p h ty payload =
     (let c = getAclConfig p ty; requestID = index payload ''id'' in
      if \<not> acEnabled c then None
      else case as_map (index payload ''params'') of
        None \<Rightarrow> Some (buildRequestErrorResponse marshal h 400 (-32602) ''Invalid MCP request params'' requestID)
      | Some ps \<Rightarrow>
          (let nm = strField ps (getParamKey ty) in
           if TrimSpace nm = '''' then
             Some (buildRequestErrorResponse marshal h 400 (-32602) (''Missing MCP '' @ ty @ '' name'') requestID)
           else if \<not> isAllowedByAcl c nm then
             Some (buildRequestErrorResponse marshal h 400 (-32000) ''MCP capability not allowed'' requestID)
           else None))"

definition acl_OnRequestBody :: "(string \<Rightarrow> string) \<Rightarrow> (string \<Rightarrow> json option) \<Rightarrow> (any \<Rightarrow> string option) \<Rightarrow> McpAclListPolicy \<Rightarrow> downstream \<Rightarrow> string
    \<Rightarrow> body option \<Rightarrow> params \<Rightarrow> params \<times> AclResponse option" where
  "acl_OnRequestBody fld parseJSON marshal p ds path bdy md =
     (if \<not> isMcpPostRequest fld ds path then (md, None)
      else case bdy of
        None \<Rightarrow> (md, None)
      | Some b \<Rightarrow>
          if Content b = '''' then (md, None)
          else (case parseRequestPayload parseJSON (Content b) (isEventStream (dsHeaders ds)) of
                  None \<Rightarrow> (md, Some (buildRequestErrorResponse marshal (dsHeaders ds) 400 (-32700) ''Invalid JSON'' ANil))
                | Some (payload, _) \<Rightarrow>
                    (case parseMcpMethod (strField payload ''method'') of
                       None \<Rightarrow> (md, None)
                     | Some (ty, action) \<Rightarrow>
                         let md = AList.update ''mcp.action'' (AStr action) (AList.update ''mcp.capabilityType'' (AStr ty) md)
                         in (md, if isApplicableOnRequest ty action then checkCall marshal p (dsHeaders ds) ty payload else None))))"

text \<open>The text that replaces a payload, if its list changes.\<close>

definition filterPayload :: "(any \<Rightarrow> string option) \<Rightarrow> string \<Rightarrow> AclConfig \<Rightarrow> params \<Rightarrow> string option" where
  "filterPayload marshal ty c payload =
     (if map_of payload ''error'' \<noteq> None then None
      else case as_map (index payload ''result'') of
        None \<Rightarrow> None
      | Some result \<Rightarrow>
          (case as_arr (index result ty) of
             None \<Rightarrow> None
           | Some existing \<Rightarrow>
               (let (kept, changed) = filterListItems existing ty c in
                if \<not> changed then None
                else marshal (AMap (AList.update ''result'' (AMap (AList.update ty (AArr kept) result)) payload)))))"

definition filterEvent :: "(string \<Rightarrow> json option) \<Rightarrow> (any \<Rightarrow> string option) \<Rightarrow> string \<Rightarrow> AclConfig \<Rightarrow> sseEvent \<Rightarrow> sseEvent \<times> bool" where
  "filterEvent parseJSON marshal ty c e =
     (if TrimSpace (evData e) = '''' then (e, False)
      else case Option.bind (Option.bind (parseJSON (evData e)) unmarshalMap) (filterPayload marshal ty c) of
        None \<Rightarrow> (e, False)
      | Some t \<Rightarrow> (e\<lparr>evData := t\<rparr>, True))"

text \<open>\<open>None\<close> leaves the response as it is; \<open>Some\<close> is its new body.\<close>

definition acl_OnResponseBody :: "(string \<Rightarrow> string) \<Rightarrow> (string \<Rightarrow> json option) \<Rightarrow> (any \<Rightarrow> string option) \<Rightarrow> McpAclListPolicy \<Rightarrow> downstream \<Rightarrow> string
    \<Rightarrow> hdrs option \<Rightarrow> body option \<Rightarrow> params \<Rightarrow> string option" where
  "acl_OnResponseBody fld parseJSON marshal p ds path upstreamHeaders bdy md =
     (if \<not> isMcpPostRequest fld ds path then None
      else let ty = strField md ''mcp.capabilityType''; action = strField md ''mcp.action'' in
        if ty = '''' \<or> action \<noteq> ''list'' then None
        else if \<not> acEnabled (getAclConfig p ty) then None
        else case bdy of
          None \<Rightarrow> None
        | Some b \<Rightarrow>
            if \<not> Present b then None
            else if isEventStream upstreamHeaders then
              let es = map (filterEvent parseJSON marshal ty (getAclConfig p ty)) (parseEventStream (Content b))
              in if list_ex snd es then Some (buildEventStream (map fst es)) else None
            else Option.bind (Option.bind (parseJSON (Content b)) unmarshalMap) (filterPayload marshal ty (getAclConfig p ty)))"

section \<open>Lemmas\<close>

lemma filterItems_kept: "fst (filterItems ty c items) = filter (keepsItem ty c) items"
  by (induction items) (auto split: prod.splits)

lemma filterListItems_kept [simp]: "fst (filterListItems items ty c) = filter (keepsItem ty c) items"
  using filterItems_kept [of ty c items] by (auto simp: filterListItems_def split: prod.splits)

lemma filterItems_changed: "snd (filterItems ty c items) \<longleftrightarrow> (\<exists>i \<in> set items. \<not> keepsItem ty c i)"
  by (induction items) (auto split: prod.splits)

lemma filterListItems_changed [simp]: "snd (filterListItems items ty c) \<longleftrightarrow> filter (keepsItem ty c) items \<noteq> items"
proof -
  have "length (filter (keepsItem ty c) items) = length items \<longleftrightarrow> filter (keepsItem ty c) items = items"
    by (metis length_filter_less filter_True less_irrefl_nat)
  then show ?thesis
    using filterItems_changed [of ty c items] filterItems_kept [of ty c items]
    by (auto simp: filterListItems_def filter_id_conv split: prod.splits)
qed

section \<open>Event streams are rebuilt\<close>

text \<open>A line that does not end in a carriage return is read back as it is.\<close>

definition kept :: "string \<Rightarrow> bool" where
  "kept l \<longleftrightarrow> newline \<notin> set l \<and> trimCR l = l"

definition fieldWf :: "string \<Rightarrow> bool" where
  "fieldWf f \<longleftrightarrow> f \<noteq> '''' \<and> kept f \<and> \<not> HasPrefix f ''data:''"

definition eventWf :: "sseEvent \<Rightarrow> bool" where
  "eventWf e \<longleftrightarrow> list_all fieldWf (evFields e) \<and> list_all kept (split_on newline (evData e))"

text \<open>No line ends in two carriage returns: a line is the same after one is trimmed and after any more are.\<close>

definition plainEnds :: "string \<Rightarrow> bool" where
  "plainEnds b \<longleftrightarrow> list_all (\<lambda>l. kept (trimCR l)) (split_on newline b)"

text \<open>The text with its lines ended by a carriage return and a newline.\<close>

definition crlf :: "string \<Rightarrow> string" where
  "crlf s = concat (map (\<lambda>c. if c = newline then [carriage, newline] else [c]) s)"

definition hasContent :: "sseEvent \<Rightarrow> bool" where
  "hasContent e \<longleftrightarrow> evFields e \<noteq> [] \<or> evData e \<noteq> ''''"

text \<open>The lines of an event.\<close>

definition dataLines :: "sseEvent \<Rightarrow> string list" where
  "dataLines e = (if evData e \<noteq> '''' then split_on newline (evData e) else [])"

definition eventLines :: "sseEvent \<Rightarrow> string list" where
  "eventLines e = evFields e @ map (\<lambda>l. ''data: '' @ l) (dataLines e) @ ['''']"

lemma buildEvent_lines: "buildEvent e = concat (map (\<lambda>l. l @ [newline]) (eventLines e))"
  by (simp add: buildEvent_def eventLines_def dataLines_def comp_def)

lemma split_lines: "list_all (\<lambda>l. newline \<notin> set l) ls \<Longrightarrow> split_on newline (concat (map (\<lambda>l. l @ [newline]) ls)) = ls @ ['''']"
  by (induction ls) (auto simp: split_on_append split_on_fragment)

lemma split_on_parts:
  "l \<in> set (split_on c s) \<Longrightarrow> c \<notin> set l \<and> set l \<subseteq> set s"
  by (induction s arbitrary: l) (auto split: list.splits if_splits, fastforce+)

lemma trimCR_id: "carriage \<notin> set s \<Longrightarrow> trimCR s = s"
  unfolding trimCR_def by (metis last_in_set)

lemma data_line: "TrimPrefix (TrimPrefix (''data: '' @ l) ''data:'') '' '' = l" "HasPrefix (''data: '' @ l) ''data:''"
  by (simp_all add: TrimPrefix_def HasPrefix_def)

lemma kept_plain: "newline \<notin> set l \<Longrightarrow> carriage \<notin> set l \<Longrightarrow> kept l"
  by (simp add: kept_def trimCR_id)

lemma trimCR_kept: "trimCR l = l \<longleftrightarrow> l = [] \<or> last l \<noteq> carriage"
proof -
  have "butlast l \<noteq> l" if "l \<noteq> []" using that by (metis append_butlast_last_id not_Cons_self2 self_append_conv)
  then show ?thesis by (auto simp: trimCR_def)
qed

lemma newline_notin_data: "newline \<notin> set ''data: ''"
  by code_simp

lemma kept_data: "kept l \<Longrightarrow> kept (''data: '' @ l)"
proof -
  assume l: "kept l"
  have "last (''data: '' @ l) \<noteq> carriage"
  proof (cases "l = []")
    case True
    moreover have "last ''data: '' \<noteq> carriage" by code_simp
    ultimately show ?thesis by simp
  qed (use l in \<open>simp add: kept_def trimCR_kept\<close>)
  then show ?thesis using l newline_notin_data unfolding kept_def trimCR_kept by auto
qed

lemma eventLoop_fields: "list_all fieldWf as \<Longrightarrow> eventLoop fs ds (as @ ls) = eventLoop (fs @ as) ds ls"
  by (induction as arbitrary: fs) (auto simp: fieldWf_def kept_def Let_def)

lemma eventLoop_data:
  "list_all kept xs \<Longrightarrow> eventLoop fs ds (map (\<lambda>l. ''data: '' @ l) xs @ ls) = eventLoop fs (ds @ xs) ls"
proof (induction xs arbitrary: ds)
  case (Cons x xs)
  have "trimCR (''data: '' @ x) = ''data: '' @ x" using Cons.prems kept_data [of x] by (simp add: kept_def)
  then have "eventLoop fs ds (map (\<lambda>l. ''data: '' @ l) (x # xs) @ ls) = eventLoop fs (ds @ [x]) (map (\<lambda>l. ''data: '' @ l) xs @ ls)"
    using data_line [of x] by (simp add: Let_def)
  then show ?case using Cons by simp
qed simp

lemma join_dataLines: "join [newline] (dataLines e) = evData e"
  by (simp add: dataLines_def join_split_on)

lemma flush_event: "flushEvent (evFields e) (dataLines e) = (if hasContent e then [e] else [])"
  using join_dataLines [of e] by (auto simp: flushEvent_def hasContent_def dataLines_def)

lemma dataLines_plain: "eventWf e \<Longrightarrow> list_all kept (dataLines e)"
  by (auto simp: eventWf_def dataLines_def)

lemma eventLoop_event: "eventWf e \<Longrightarrow> eventLoop [] [] (eventLines e @ ls) = (if hasContent e then [e] else []) @ eventLoop [] [] ls"
  using dataLines_plain [of e] eventLoop_data [of "dataLines e" "evFields e" "[]" "'''' # ls"]
  by (simp add: eventLines_def eventLoop_fields eventWf_def flush_event trimCR_def list_all_iff del: eventLoop.simps(2))
    (simp add: flush_event trimCR_def)

lemma eventLines_plain: "eventWf e \<Longrightarrow> list_all (\<lambda>l. newline \<notin> set l) (eventLines e)"
  using dataLines_plain [of e] newline_notin_data by (auto simp: eventLines_def eventWf_def fieldWf_def kept_def list_all_iff)

lemma parse_build:
  assumes "list_all eventWf es"
  shows "parseEventStream (buildEventStream es) = filter hasContent es"
proof -
  have b: "buildEventStream es = concat (map (\<lambda>l. l @ [newline]) (concat (map eventLines es)))"
    by (induction es) (auto simp: buildEventStream_def buildEvent_lines)
  have "list_all (\<lambda>l. newline \<notin> set l) (concat (map eventLines es))"
    using assms eventLines_plain by (fastforce simp: list_all_iff)
  then have "parseEventStream (buildEventStream es) = eventLoop [] [] (concat (map eventLines es) @ [''''])"
    unfolding parseEventStream_def b by (simp add: split_lines)
  also have "\<dots> = filter hasContent es" using assms
    by (induction es) (auto simp: eventLoop_event flushEvent_def trimCR_def)
  finally show ?thesis .
qed

lemma HasPrefix_drop: "HasPrefix s p \<Longrightarrow> s = p @ drop (length p) s"
  by (metis HasPrefix_def append_take_drop_id)

lemma set_TrimPrefix: "set (TrimPrefix s p) \<subseteq> set s"
  using set_drop_subset by (auto simp: TrimPrefix_def split: if_splits dest: in_set_dropD)

lemma kept_suffix: "kept (p @ l) \<Longrightarrow> kept l"
  unfolding kept_def trimCR_kept by auto

lemma kept_TrimPrefix: "kept l \<Longrightarrow> kept (TrimPrefix l p)"
  using kept_suffix [of p "drop (length p) l"] HasPrefix_drop [of l p] by (auto simp: TrimPrefix_def)

lemma kept_join: "list_all kept ds \<Longrightarrow> list_all kept (split_on newline (join [newline] ds))"
proof (cases "ds = []")
  case True
  then show ?thesis by (simp add: kept_def trimCR_def)
next
  case False
  assume "list_all kept ds"
  then show ?thesis using split_join [of ds newline] False by (auto simp: kept_def list_all_iff)
qed

lemma eventLoop_wf:
  assumes "list_all (\<lambda>l. kept (trimCR l)) ls" "list_all fieldWf fs" "list_all kept ds"
  shows "list_all eventWf (eventLoop fs ds ls)"
proof -
  have flush: "list_all eventWf (flushEvent fs ds)" if "list_all fieldWf fs" "list_all kept ds" for fs ds
    using that kept_join by (simp add: flushEvent_def eventWf_def)
  show ?thesis using assms
  proof (induction fs ds ls rule: eventLoop.induct)
    case (2 fs ds l ls)
    then have l: "kept (trimCR l)" by simp
    then have "kept (TrimPrefix (TrimPrefix (trimCR l) ''data:'') '' '')" by (intro kept_TrimPrefix)
    then show ?case using "2.IH" [OF refl] "2.prems" l flush [of fs ds] by (auto simp: fieldWf_def [of "trimCR l"] Let_def)
  qed (use flush in simp)
qed

lemma parseEventStream_wf: "plainEnds b \<Longrightarrow> list_all eventWf (parseEventStream b)"
  unfolding parseEventStream_def plainEnds_def by (intro eventLoop_wf) auto

text \<open>A line is read without its carriage return, so a stream whose lines end in both is read as one of plain lines.\<close>

lemma eventLoop_trimmed: "map trimCR ls = map trimCR ls' \<Longrightarrow> eventLoop fs ds ls = eventLoop fs ds ls'"
proof (induction ls arbitrary: fs ds ls')
  case (Cons l ls)
  then obtain l' ls2 where "ls' = l' # ls2" "trimCR l = trimCR l'" "map trimCR ls = map trimCR ls2" by (cases ls') auto
  then show ?case using Cons.IH by (simp add: Let_def)
qed simp

lemma crlf_append: "crlf (s @ t) = crlf s @ crlf t"
  by (simp add: crlf_def)

lemma crlf_plain: "newline \<notin> set s \<Longrightarrow> crlf s = s"
  by (induction s) (auto simp: crlf_def)

lemma split_on_line: "newline \<notin> set t \<Longrightarrow> split_on newline (t @ newline # r) = t # split_on newline r"
  by (simp add: split_on_append split_on_fragment)

lemma crlf_lines: "list_all (\<lambda>l. newline \<notin> set l) ls \<Longrightarrow> ls \<noteq> [] \<Longrightarrow>
    split_on newline (crlf (join [newline] ls)) = map (\<lambda>l. l @ [carriage]) (butlast ls) @ [last ls]"
proof (induction "[newline]" ls rule: join.induct)
  case (2 s)
  then show ?case by (simp add: crlf_plain split_on_fragment)
next
  case (3 s t ss)
  have e: "crlf (join [newline] (s # t # ss)) = (s @ [carriage]) @ newline # crlf (join [newline] (t # ss))"
    using 3 by (simp add: crlf_append crlf_plain) (simp add: crlf_def)
  have "newline \<notin> set (s @ [carriage])" using 3 by (simp add: newline_def carriage_def)
  then show ?case unfolding e by (subst split_on_line) (use 3 in simp_all)
qed simp

lemma crlf_parse: "carriage \<notin> set s \<Longrightarrow> parseEventStream (crlf s) = parseEventStream s"
proof -
  assume s: "carriage \<notin> set s"
  let ?ls = "split_on newline s"
  have n: "list_all (\<lambda>l. newline \<notin> set l) ?ls" and c: "carriage \<notin> set l" if "l \<in> set ?ls" for l
    using that s split_on_parts [of _ newline s] by (auto simp: list_all_iff)
  have "split_on newline (crlf s) = map (\<lambda>l. l @ [carriage]) (butlast ?ls) @ [last ?ls]"
    using crlf_lines [of ?ls] split_on_parts [of _ newline s] by (simp add: join_split_on list_all_iff)
  moreover have "map trimCR (map (\<lambda>l. l @ [carriage]) (butlast ?ls)) = map trimCR (butlast ?ls)"
    using c by (auto simp: trimCR_id dest!: in_set_butlastD, auto simp: trimCR_def)
  ultimately have "map trimCR (split_on newline (crlf s)) = map trimCR (butlast ?ls @ [last ?ls])" by (simp only: map_append)
  also have "butlast ?ls @ [last ?ls] = ?ls" by (rule append_butlast_last_id) simp
  finally show ?thesis unfolding parseEventStream_def by (rule eventLoop_trimmed)
qed

lemma crlf_plainEnds: "carriage \<notin> set s \<Longrightarrow> plainEnds (crlf s)"
proof -
  assume s: "carriage \<notin> set s"
  let ?ls = "split_on newline s"
  have c: "kept l" if "l \<in> set ?ls" for l
    using that s split_on_parts [of l newline s] by (intro kept_plain) auto
  have "split_on newline (crlf s) = map (\<lambda>l. l @ [carriage]) (butlast ?ls) @ [last ?ls]"
    using crlf_lines [of ?ls] split_on_parts [of _ newline s] by (simp add: join_split_on list_all_iff)
  moreover have "kept (trimCR (l @ [carriage]))" if "l \<in> set (butlast ?ls)" for l
    using c in_set_butlastD [OF that] by (simp add: trimCR_def)
  moreover have "kept (trimCR (last ?ls))" using c [of "last ?ls"] by (simp add: kept_def)
  ultimately show ?thesis by (simp add: plainEnds_def list_all_iff)
qed

section \<open>Properties\<close>

text \<open>C17: the list a client sees and the calls it may make agree. Where a section of the configuration is
  present, an item with an identifier stays in the filtered list of its type exactly when the policy lets a
  call of that identifier pass.\<close>
theorem acl_shown_iff_callable:
  assumes "acEnabled (getAclConfig p ty)" "AMap entry \<in> set items" "as_str (index entry (getParamKey ty)) = Some nm" "TrimSpace nm \<noteq> ''''"
    and "isMcpPostRequest fld ds path" "Content b \<noteq> ''''"
    and "parseRequestPayload parseJSON (Content b) (isEventStream (dsHeaders ds)) = Some (payload, evs)"
    and "parseMcpMethod (strField payload ''method'') = Some (ty, action)" "isApplicableOnRequest ty action"
    and "as_map (index payload ''params'') = Some ps" "strField ps (getParamKey ty) = nm"
  shows "AMap entry \<in> set (fst (filterListItems items ty (getAclConfig p ty))) \<longleftrightarrow>
    snd (acl_OnRequestBody fld parseJSON marshal p ds path (Some b) md) = None"
proof -
  have "AMap entry \<in> set (fst (filterListItems items ty (getAclConfig p ty))) \<longleftrightarrow> isAllowedByAcl (getAclConfig p ty) nm"
    using assms(2-4) by (simp add: keepsItem_def)
  also have "\<dots> \<longleftrightarrow> checkCall marshal p (dsHeaders ds) ty payload = None"
    using assms(1,4,10,11) by (simp add: checkCall_def Let_def)
  also have "\<dots> \<longleftrightarrow> snd (acl_OnRequestBody fld parseJSON marshal p ds path (Some b) md) = None"
    using assms(5-9) by (simp add: acl_OnRequestBody_def Let_def)
  finally show ?thesis .
qed

definition denyTools :: "string list \<Rightarrow> McpAclListPolicy" where
  "denyTools es = \<lparr>aclTools = \<lparr>acEnabled = True, acMode = ''deny'', acExceptions = es\<rparr>, aclResources = noAcl, aclPrompts = noAcl\<rparr>"

definition aclDs :: downstream where
  "aclDs = \<lparr>dsMethod = ''POST'', dsPath = ''/mcp'', dsScheme = ''https'', dsAuthority = ''gw'', dsHeaders = None\<rparr>"

definition toolCall :: "string \<Rightarrow> json" where
  "toolCall nm = JObj [(''method'', JStr ''tools/call''), (''params'', JObj [(''name'', JStr nm)])]"

definition aclBody :: body where "aclBody = \<lparr>Content = ''body'', Present = True\<rparr>"

text \<open>\<open>acl_shown_iff_callable\<close> at a tool that is not listed.\<close>
theorem acl_shown_iff_callable_witness:
  "AMap [(''name'', AStr ''drop'')] \<in> set (fst (filterListItems [AMap [(''name'', AStr ''drop'')]] ''tools'' (getAclConfig (denyTools [''ls'']) ''tools''))) \<longleftrightarrow>
   snd (acl_OnRequestBody ToLower (\<lambda>_. Some (toolCall ''drop'')) (\<lambda>_. None) (denyTools [''ls'']) aclDs ''/mcp'' (Some aclBody) []) = None"
proof -
  let ?payload = "[(''method'', AStr ''tools/call''), (''params'', AMap [(''name'', AStr ''drop'')])]"
  have "isMcpPostRequest ToLower aclDs ''/mcp''" "TrimSpace ''drop'' = ''drop''" by code_simp+
  moreover have "parseRequestPayload (\<lambda>_. Some (toolCall ''drop'')) (Content aclBody) (isEventStream (dsHeaders aclDs)) = Some (?payload, [], -1)"
    by (simp add: parseRequestPayload_def toolCall_def unmarshalMap_def isEventStream_def aclDs_def)
  ultimately show ?thesis
    using acl_shown_iff_callable [of "denyTools [''ls'']" "''tools''" "[(''name'', AStr ''drop'')]" "[AMap [(''name'', AStr ''drop'')]]" "''drop''"
      ToLower aclDs "''/mcp''" aclBody "\<lambda>_. Some (toolCall ''drop'')" ?payload "([], -1)" "''call''" "[(''name'', AStr ''drop'')]" "\<lambda>_. None" "[]"]
    by (simp add: denyTools_def getAclConfig_def getParamKey_def index_def strField_def parseMcpMethod_def isApplicableOnRequest_def aclBody_def)
qed

text \<open>A marshalled value is one line of text.\<close>

definition oneLine :: "(any \<Rightarrow> string option) \<Rightarrow> bool" where
  "oneLine marshal \<longleftrightarrow> (\<forall>v t. marshal v = Some t \<longrightarrow> newline \<notin> set t \<and> carriage \<notin> set t)"

lemma filterPayload_marshalled: "filterPayload marshal ty c payload = Some t \<Longrightarrow> \<exists>v. marshal v = Some t"
  by (auto simp: filterPayload_def Let_def split: if_splits option.splits prod.splits)

lemma filterEvent_wf:
  assumes "oneLine marshal" "eventWf e"
  shows "eventWf (fst (filterEvent parseJSON marshal ty c e))"
proof -
  have "list_all kept (split_on newline t)" if "filterPayload marshal ty c payload = Some t" for payload t
    using filterPayload_marshalled [OF that] assms(1) kept_plain [of t] unfolding oneLine_def by (auto simp: split_on_fragment)
  then show ?thesis using assms(2) unfolding filterEvent_def eventWf_def
    by (auto split: option.splits simp: bind_eq_Some_conv)
qed

text \<open>C18: rewriting an event stream changes nothing but the lists. Let the lines of a response that is an event
  stream end in a newline or in a carriage return and a newline, no line in two carriage returns, and let a
  marshalled value be one line of text. If the policy replaces the response, a client that parses the new stream
  gets the events of the old one, in order and with their fields, each with its list filtered; only events
  without content (no field and no data) are gone. The events of a stream whose lines end in both characters
  are those of the same stream with newlines alone.\<close>
theorem acl_stream_rewrite:
  assumes "oneLine marshal" "plainEnds (Content b)" "isEventStream up"
    and "acl_OnResponseBody fld parseJSON marshal p ds path up (Some b) md = Some new"
  shows "parseEventStream new =
      filter hasContent (map (\<lambda>e. fst (filterEvent parseJSON marshal (strField md ''mcp.capabilityType'')
        (getAclConfig p (strField md ''mcp.capabilityType'')) e)) (parseEventStream (Content b))) \<and>
    (\<forall>s. carriage \<notin> set s \<longrightarrow> plainEnds (crlf s) \<and> parseEventStream (crlf s) = parseEventStream s)"
proof -
  let ?f = "filterEvent parseJSON marshal (strField md ''mcp.capabilityType'') (getAclConfig p (strField md ''mcp.capabilityType''))"
  have "new = buildEventStream (map (\<lambda>e. fst (?f e)) (parseEventStream (Content b)))"
    using assms(3,4) by (auto simp: acl_OnResponseBody_def Let_def comp_def split: if_splits)
  moreover have "list_all eventWf (map (\<lambda>e. fst (?f e)) (parseEventStream (Content b)))"
    using parseEventStream_wf [OF assms(2)] filterEvent_wf [OF assms(1)] by (auto simp: list_all_iff)
  ultimately show ?thesis using parse_build crlf_parse crlf_plainEnds by blast
qed

definition listed :: "string \<Rightarrow> json" where
  "listed nm = JObj [(''result'', JObj [(''tools'', JArr [JObj [(''name'', JStr nm)]])])]"

definition sseHeaders :: "hdrs option" where
  "sseHeaders = Some \<lparr>hAll = [(''content-type'', [''text/event-stream''])], hGet = (\<lambda>_. [])\<rparr>"

definition listMetadata :: params where
  "listMetadata = [(''mcp.capabilityType'', AStr ''tools''), (''mcp.action'', AStr ''list'')]"

definition streamBody :: string where
  "streamBody = crlf (''event: message'' @ newline # ''data: x'' @ [newline, newline])"

definition streamRun :: "string option" where
  "streamRun = acl_OnResponseBody ToLower (\<lambda>_. Some (listed ''drop'')) (\<lambda>_. Some ''[]'') (denyTools [''ls'']) aclDs ''/mcp'' sseHeaders
     (Some \<lparr>Content = streamBody, Present = True\<rparr>) listMetadata"

text \<open>\<open>acl_stream_rewrite\<close> at a stream of one event that lists a tool, its lines ended by both characters.\<close>
theorem acl_stream_rewrite_witness:
  "\<exists>new. streamRun = Some new \<and> parseEventStream new =
    filter hasContent (map (\<lambda>e. fst (filterEvent (\<lambda>_. Some (listed ''drop'')) (\<lambda>_. Some ''[]'') (strField listMetadata ''mcp.capabilityType'')
      (getAclConfig (denyTools [''ls'']) (strField listMetadata ''mcp.capabilityType'')) e)) (parseEventStream streamBody)) \<and>
    parseEventStream new = [\<lparr>evFields = [''event: message''], evData = ''[]''\<rparr>]"
proof -
  have "streamRun = Some (''event: message'' @ newline # ''data: []'' @ [newline, newline])" "plainEnds streamBody" "isEventStream sseHeaders"
    "newline \<notin> set ''[]'' \<and> carriage \<notin> set ''[]''"
    "parseEventStream (''event: message'' @ newline # ''data: []'' @ [newline, newline]) = [\<lparr>evFields = [''event: message''], evData = ''[]''\<rparr>]"
    by code_simp+
  then show ?thesis
    using acl_stream_rewrite [of "\<lambda>_. Some ''[]''" "\<lparr>Content = streamBody, Present = True\<rparr>" sseHeaders ToLower "\<lambda>_. Some (listed ''drop'')"
      "denyTools [''ls'']" aclDs "''/mcp''" listMetadata]
    by (auto simp: oneLine_def streamRun_def)
qed

text \<open>The list does not look for ambiguous members. A request that spells the method twice, once with
  another case, passes a policy that denies the tool it names: the policy reads \<open>tools/list\<close>. A reader
  that ignores the case of names, as Go's own decoder does, reads a call of the denied tool; the validation of
  \<^verbatim>\<open>mcp-authz\<close> and \<^verbatim>\<open>mcp-ratelimit\<close> refuses the request.\<close>
lemma acl_ambiguous_method_passes:
  "let doc = JObj [(''method'', JStr ''tools/list''), (''Method'', JStr ''tools/call''), (''params'', JObj [(''name'', JStr ''drop'')])];
       run = (\<lambda>doc. acl_OnRequestBody ToLower (\<lambda>_. Some doc) (\<lambda>_. None) (denyTools []) aclDs ''/mcp'' (Some aclBody) [])
   in snd (run doc) = None \<and> snd (run (toolCall ''drop'')) \<noteq> None \<and>
      map_option (\<lambda>r. (mMethod r, pName (mParams r))) (decodeRequest ToLower [''method'', ''params''] doc) = Some (''tools/call'', ''drop'') \<and>
      validateUnambiguousMembers ToLower doc ''tools/call'' = Ambiguous \<and> validateUnambiguousRequestMembers ToLower doc ''tools/call'' = Ambiguous"
  unfolding Let_def
  by (intro conjI; code_simp)

end
