(* ===== verification/McpRateLimit.thy ===== *)
theory McpRateLimit
  imports McpMessage RatePolicy QuotaResponse
begin

text \<open>
  \<^verbatim>\<open>mcp-ratelimit.go\<close>: rate limits per MCP capability. Each pair of a configured entry and a capability has an
  instance of the rate limit policy of its own, a delegate, which is built by \<open>GetPolicy\<close> when the pair is first
  seen and is run by the phases of \<open>QuotaPhases\<close> and \<open>QuotaResponse\<close> on the limiters of the shared \<open>world\<close>.
  Arguments besides those: \<open>parseJSON\<close>, \<open>fld\<close> (case folding), \<open>es\<close> (the clocks a delegate reads, by the position
  of the match) and \<open>envelope\<close>, \<^verbatim>\<open>json.Marshal\<close> of a JSON-RPC error with a given identifier. The invoked delegates, which the
  code keeps in the metadata, are a list of their own.
\<close>

section \<open>Configuration\<close>

record limitEntry =
  leSection :: string
  leName :: string
  leLimitsRaw :: "any list"
  leKeyExtractionRaw :: "any list"

record McpRateLimitPolicy =
  mrMetadata :: PolicyMetadata
  mrEntries :: "limitEntry list"
  mrGlobalKeys :: "any list"
  mrExceeded :: "params option"
  mrSystem :: params
  mrDelegates :: "(string, RateLimitPolicy) gomap"

definition parseLimitEntry :: "string \<Rightarrow> nat \<Rightarrow> any \<Rightarrow> limitEntry outcome" where
  "parseLimitEntry sec i item =
     (case as_map item of
        None \<Rightarrow> Fail (sec @ ''['' @ itoa (int i) @ ''] must be an object'')
      | Some obj \<Rightarrow>
          (let nm = strField obj ''name'' in
           case as_arr (index obj ''limits'') of
             Some (l # ls) \<Rightarrow>
               Ret \<lparr>leSection = sec, leName = (if TrimSpace nm = '''' then ''*'' else nm), leLimitsRaw = l # ls,
                 leKeyExtractionRaw = (case as_arr (index obj ''keyExtraction'') of Some ks \<Rightarrow> ks | None \<Rightarrow> [])\<rparr>
           | _ \<Rightarrow> Fail (sec @ ''['' @ itoa (int i) @ ''].limits must be a non-empty array'')))"

definition sections :: "string list" where
  "sections = [''tools'', ''resources'', ''prompts'', ''methods'']"

fun parseSections :: "params \<Rightarrow> string list \<Rightarrow> limitEntry list outcome" where
  "parseSections m [] = Ret []"
| "parseSections m (sec # secs) =
     (case map_of m sec of
        None \<Rightarrow> parseSections m secs
      | Some raw \<Rightarrow>
          (case as_arr raw of
             None \<Rightarrow> Fail (sec @ '' must be an array'')
           | Some items \<Rightarrow>
               (case parseAll (parseLimitEntry sec) 0 items of
                  Fail err \<Rightarrow> Fail err
                | Panic \<Rightarrow> Panic
                | Ret es \<Rightarrow> (case parseSections m secs of Ret es' \<Rightarrow> Ret (es @ es') | Fail err \<Rightarrow> Fail err | Panic \<Rightarrow> Panic))))"

definition parseEntries :: "params \<Rightarrow> limitEntry list outcome" where
  "parseEntries m = parseSections m sections"

definition systemKeys :: "string list" where
  "systemKeys = [''algorithm'', ''backend'', ''redis'', ''memory'', ''local'', ''headers'']"

definition systemParams :: "params \<Rightarrow> params" where
  "systemParams m = List.map_filter (\<lambda>k. map_option (Pair k) (map_of m k)) systemKeys"

definition mcprl_GetPolicy :: "PolicyMetadata \<Rightarrow> params \<Rightarrow> McpRateLimitPolicy outcome" where
  "mcprl_GetPolicy md m =
     (case parseEntries m of
        Fail err \<Rightarrow> Fail (''mcp-ratelimit: '' @ err)
      | Panic \<Rightarrow> Panic
      | Ret [] \<Rightarrow> Fail ''mcp-ratelimit: at least one of tools, resources, prompts, or methods must be configured''
      | Ret es \<Rightarrow>
          Ret \<lparr>mrMetadata = md, mrEntries = es,
            mrGlobalKeys = (case as_arr (index m ''keyExtraction'') of Some ks \<Rightarrow> ks | None \<Rightarrow> []),
            mrExceeded = as_map (index m ''onRateLimitExceeded''), mrSystem = systemParams m, mrDelegates = []\<rparr>)"

section \<open>The capability of a request\<close>

text \<open>The first event with data that is not blank.\<close>

fun sseJSONLoop :: "string \<Rightarrow> string list \<Rightarrow> string" where
  "sseJSONLoop dat [] = TrimSpace dat"
| "sseJSONLoop dat (l # ls) =
     (let line = (if l \<noteq> [] \<and> last l = carriage then butlast l else l) in
      if line = '''' then
        if TrimSpace dat \<noteq> '''' then TrimSpace dat else sseJSONLoop '''' ls
      else if HasPrefix line ''data:'' then
        let chunk = TrimPrefix (TrimPrefix line ''data:'') '' ''
        in sseJSONLoop (if dat \<noteq> '''' then dat @ [newline] @ chunk else chunk) ls
      else sseJSONLoop dat ls)"

definition extractFirstSseJSON :: "string \<Rightarrow> string" where
  "extractFirstSseJSON b = sseJSONLoop '''' (split_on newline b)"

definition mcprl_isEventStream :: "(string \<Rightarrow> string) \<Rightarrow> hdrs option \<Rightarrow> bool" where
  "mcprl_isEventStream fld h =
     (case h of
        None \<Rightarrow> False
      | Some h \<Rightarrow> list_ex (\<lambda>(k, vs). fld k = fld ''content-type'' \<and> list_ex (\<lambda>v. Contains (ToLower v) ''text/event-stream'') vs) (hAll h))"

definition mcprl_getSessionID :: "hdrs option \<Rightarrow> string" where
  "mcprl_getSessionID h = (case h of None \<Rightarrow> '''' | Some h \<Rightarrow> (case hGet h mcpSessionHeader of [] \<Rightarrow> '''' | v # _ \<Rightarrow> v))"

record capability =
  cpMethod :: string
  cpType :: string
  cpName :: string
  cpID :: "json option"

text \<open>The type and the name of the capability a method and its parameters denote.\<close>

definition capabilityOf :: "string \<Rightarrow> MCPRequestParams \<Rightarrow> string \<times> string" where
  "capabilityOf method p =
     (let (pre, rest) = cut (CHR ''/'') method in
      if CHR ''/'' \<notin> set method then ('''', '''')
      else if pre = ''tools'' then (''tool'', if rest = ''call'' then pName p else '''')
      else if pre = ''resources'' then (''resource'', if rest = ''read'' then pURI p else '''')
      else if pre = ''prompts'' then (''prompt'', if rest = ''get'' then pName p else '''')
      else ('''', ''''))"

text \<open>\<open>Inl True\<close> is an ambiguous member, \<open>Inl False\<close> any other error.\<close>

definition identifyCapability :: "(string \<Rightarrow> string) \<Rightarrow> (string \<Rightarrow> json option) \<Rightarrow> hdrs option \<Rightarrow> string \<Rightarrow> bool + capability" where
  "identifyCapability fld parseJSON h content =
     (let sse = mcprl_isEventStream fld h; content = (if sse then extractFirstSseJSON content else content) in
      if sse \<and> content = '''' then Inl False
      else case parseJSON content of
        None \<Rightarrow> Inl False
      | Some doc \<Rightarrow>
          (case decodeRequest fld [''method'', ''params'', ''id''] doc of
             None \<Rightarrow> Inl False
           | Some req \<Rightarrow>
               (case validateUnambiguousRequestMembers fld doc (mMethod req) of
                  Ambiguous \<Rightarrow> Inl True
                | NotAnObject \<Rightarrow> Inl False
                | Valid \<Rightarrow>
                    if mMethod req = '''' then Inr \<lparr>cpMethod = '''', cpType = '''', cpName = '''', cpID = mID req\<rparr>
                    else let (ty, nm) = capabilityOf (mMethod req) (mParams req)
                      in Inr \<lparr>cpMethod = mMethod req, cpType = ty, cpName = nm, cpID = mID req\<rparr>)))"

section \<open>Matching\<close>

text \<open>The capability identifier an entry is charged under, and whether it matches exactly; \<open>None\<close> if the entry
  does not apply.\<close>

definition matchTarget :: "string \<Rightarrow> string \<Rightarrow> string \<Rightarrow> limitEntry \<Rightarrow> string option" where
  "matchTarget method ty nm e =
     (if leSection e = ''methods'' then Some method
      else if leSection e = ''tools'' then if ty \<noteq> ''tool'' \<or> nm = '''' then None else Some nm
      else if leSection e = ''resources'' then if ty \<noteq> ''resource'' \<or> nm = '''' then None else Some nm
      else if leSection e = ''prompts'' then if ty \<noteq> ''prompt'' \<or> nm = '''' then None else Some nm
      else None)"

definition exactMatch :: "string \<Rightarrow> string \<Rightarrow> string \<Rightarrow> nat \<times> limitEntry \<Rightarrow> (nat \<times> string) option" where
  "exactMatch method ty nm ie =
     (case matchTarget method ty nm (snd ie) of Some c \<Rightarrow> if leName (snd ie) = c then Some (fst ie, c) else None | None \<Rightarrow> None)"

definition wildcardMatch :: "string \<Rightarrow> string \<Rightarrow> string \<Rightarrow> nat \<times> limitEntry \<Rightarrow> (nat \<times> string) option" where
  "wildcardMatch method ty nm ie =
     (case matchTarget method ty nm (snd ie) of
        Some c \<Rightarrow> if leName (snd ie) \<noteq> c \<and> leName (snd ie) = ''*'' then Some (fst ie, c) else None
      | None \<Rightarrow> None)"

definition findMatches :: "limitEntry list \<Rightarrow> string \<Rightarrow> string \<Rightarrow> string \<Rightarrow> (nat \<times> string) list" where
  "findMatches entries method ty nm =
     (let ies = enumerate 0 entries
      in List.map_filter (exactMatch method ty nm) ies @ List.map_filter (wildcardMatch method ty nm) ies)"

section \<open>Delegates\<close>

definition delegateKey :: "nat \<Rightarrow> string \<Rightarrow> string" where
  "delegateKey i c = itoa (int i) @ '':'' @ c"

definition delegateName :: "string \<Rightarrow> limitEntry \<Rightarrow> nat \<Rightarrow> string \<Rightarrow> string" where
  "delegateName sep e i c = ''mcp'' @ sep @ leSection e @ sep @ itoa (int i) @ sep @ c"

text \<open>The components of the key: those of the entry, else those of the policy, else the route.\<close>

definition baseKeys :: "McpRateLimitPolicy \<Rightarrow> limitEntry \<Rightarrow> any list" where
  "baseKeys p e =
     (if leKeyExtractionRaw e \<noteq> [] then leKeyExtractionRaw e
      else if mrGlobalKeys p \<noteq> [] then mrGlobalKeys p
      else [AMap [(''type'', AStr ''routename'')]])"

definition constantKey :: "string \<Rightarrow> any" where
  "constantKey k = AMap [(''type'', AStr ''constant''), (''key'', AStr k)]"

definition delegateQuota :: "McpRateLimitPolicy \<Rightarrow> limitEntry \<Rightarrow> nat \<Rightarrow> string \<Rightarrow> any" where
  "delegateQuota p e i c =
     AMap [(''name'', AStr (delegateName ''-'' e i c)), (''limits'', AArr (leLimitsRaw e)),
       (''keyExtraction'', AArr (baseKeys p e @ [constantKey (delegateName '':'' e i c)]))]"

definition delegateParams :: "McpRateLimitPolicy \<Rightarrow> nat \<Rightarrow> string \<Rightarrow> params" where
  "delegateParams p i c =
     [(''quotas'', AArr [delegateQuota p (mrEntries p ! i) i c])] @
     (case mrExceeded p of Some ex \<Rightarrow> [(''onRateLimitExceeded'', AMap ex)] | None \<Rightarrow> []) @ mrSystem p"

definition resolveDelegate :: "'l externs \<Rightarrow> nat \<Rightarrow> string \<Rightarrow> McpRateLimitPolicy \<Rightarrow> 'l world
    \<Rightarrow> McpRateLimitPolicy \<times> 'l world \<times> RateLimitPolicy outcome" where
  "resolveDelegate x i c p w =
     (case map_of (mrDelegates p) (delegateKey i c) of
        Some d \<Rightarrow> (p, w, Ret d)
      | None \<Rightarrow>
          (case GetPolicy x (mrMetadata p) (delegateParams p i c) w of
             (w, Ret d) \<Rightarrow> (p\<lparr>mrDelegates := AList.update (delegateKey i c) d (mrDelegates p)\<rparr>, w, Ret d)
           | (w, Fail err) \<Rightarrow> (p, w, Fail err)
           | (w, Panic) \<Rightarrow> (p, w, Panic)))"

section \<open>The request phase\<close>

record 'l mcprl_state =
  stPolicy :: McpRateLimitPolicy
  stWorld :: "'l world"
  stMeta :: meta
  stInvoked :: "string list"

text \<open>The loop over the matches. A delegate that cannot be built is skipped; the first one to refuse ends the
  loop.\<close>

fun enforce :: "'l externs \<Rightarrow> 'l lim_ops \<Rightarrow> extern \<Rightarrow> (nat \<Rightarrow> nat \<Rightarrow> env) \<Rightarrow> request \<Rightarrow> nat \<Rightarrow> (nat \<times> string) list \<Rightarrow> 'l mcprl_state
    \<Rightarrow> 'l mcprl_state \<times> unit verdict" where
  "enforce x ops ex es rq k [] s = (s, Proceed ())"
| "enforce x ops ex es rq k ((i, c) # ms) s =
     (case resolveDelegate x i c (stPolicy s) (stWorld s) of
        (p, w, Fail _) \<Rightarrow> enforce x ops ex es rq (Suc k) ms (s\<lparr>stPolicy := p, stWorld := w\<rparr>)
      | (p, w, Panic) \<Rightarrow> (s\<lparr>stPolicy := p, stWorld := w\<rparr>, Crashed)
      | (p, w, Ret d) \<Rightarrow>
          (let (lims, md, out) = OnRequestHeaders ops ex d (es k) rq (stMeta s) (limObjs w);
               s = s\<lparr>stPolicy := p, stWorld := w\<lparr>limObjs := lims\<rparr>, stMeta := md, stInvoked := stInvoked s @ [delegateKey i c]\<rparr>
           in case out of
                Proceed _ \<Rightarrow> enforce x ops ex es rq (Suc k) ms s
              | Stop r \<Rightarrow> (s, Stop r)
              | Crashed \<Rightarrow> (s, Crashed)))"

definition rateLimitedMessage :: string where
  "rateLimitedMessage = ''Rate limit exceeded. Please try again later.''"

definition buildJsonRpcErrorBody :: "(json \<Rightarrow> int \<Rightarrow> string \<Rightarrow> string option) \<Rightarrow> json option \<Rightarrow> int \<Rightarrow> string \<Rightarrow> bool \<Rightarrow> string \<times> string" where
  "buildJsonRpcErrorBody envelope requestID code message sse =
     (let rid = (case requestID of Some j \<Rightarrow> j | None \<Rightarrow> JNull);
          bdy = (case envelope rid code message of
             Some b \<Rightarrow> b
           | None \<Rightarrow> ''{'' @ inDquotes ''jsonrpc'' @ '':'' @ inDquotes ''2.0'' @ '','' @ inDquotes ''id'' @ '':null,'' @ inDquotes ''error'' @
               '':{'' @ inDquotes ''code'' @ '':'' @ itoa code @ '','' @ inDquotes ''message'' @ '':'' @ inDquotes message @ ''}}'')
      in if sse then (''data: '' @ bdy @ [newline, newline], ''text/event-stream'') else (bdy, ''application/json''))"

definition buildJsonRpcRateLimitedBody :: "(json \<Rightarrow> int \<Rightarrow> string \<Rightarrow> string option) \<Rightarrow> json option \<Rightarrow> bool \<Rightarrow> string \<times> string" where
  "buildJsonRpcRateLimitedBody envelope requestID sse = buildJsonRpcErrorBody envelope requestID (-32000) rateLimitedMessage sse"

definition buildJsonRpcError :: "(string \<Rightarrow> string) \<Rightarrow> (json \<Rightarrow> int \<Rightarrow> string \<Rightarrow> string option) \<Rightarrow> hdrs option \<Rightarrow> int \<Rightarrow> int \<Rightarrow> string \<Rightarrow> json option
    \<Rightarrow> ImmediateResponse" where
  "buildJsonRpcError fld envelope h status code message requestID =
     (let (bdy, contentType) = buildJsonRpcErrorBody envelope requestID code message (mcprl_isEventStream fld h); sid = mcprl_getSessionID h
      in \<lparr>irStatus = status, irHeaders = [(''content-type'', contentType)] @ (if sid \<noteq> '''' then [(mcpSessionHeader, sid)] else []),
          irBody = bdy\<rparr>)"

definition hasUserDefinedBody :: "McpRateLimitPolicy \<Rightarrow> bool" where
  "hasUserDefinedBody p =
     (case mrExceeded p of None \<Rightarrow> False | Some ex \<Rightarrow> (case as_str (index ex ''body'') of Some b \<Rightarrow> b \<noteq> '''' | None \<Rightarrow> False))"

definition rewriteRateLimitedResponse :: "(string \<Rightarrow> string) \<Rightarrow> (json \<Rightarrow> int \<Rightarrow> string \<Rightarrow> string option) \<Rightarrow> McpRateLimitPolicy \<Rightarrow> hdrs option
    \<Rightarrow> ImmediateResponse \<Rightarrow> json option \<Rightarrow> ImmediateResponse" where
  "rewriteRateLimitedResponse fld envelope p h r requestID =
     (if hasUserDefinedBody p then r
      else let sid = mcprl_getSessionID h;
               hs = (if sid \<noteq> '''' \<and> map_of (irHeaders r) mcpSessionHeader = None then AList.update mcpSessionHeader sid (irHeaders r)
                     else irHeaders r);
               (bdy, contentType) = buildJsonRpcRateLimitedBody envelope requestID (mcprl_isEventStream fld h)
        in \<lparr>irStatus = (if irStatus r = 0 then 429 else irStatus r), irHeaders = AList.update ''content-type'' contentType hs, irBody = bdy\<rparr>)"

definition synthesizeHeaderContext :: "downstream \<Rightarrow> string \<Rightarrow> string \<Rightarrow> request" where
  "synthesizeHeaderContext ds apiName apiVersion =
     \<lparr>rqHeaders = map_option hGet (dsHeaders ds), rqMetadata = [], rqBody = None, rqAPIName = apiName, rqAPIVersion = apiVersion\<rparr>"

definition publish :: "capability \<Rightarrow> meta \<Rightarrow> meta" where
  "publish c md =
     (let md = AList.update ''mcp.method'' (MAny (AStr (cpMethod c))) md;
          md = (if cpType c \<noteq> '''' then AList.update ''mcp.type'' (MAny (AStr (cpType c))) md else md)
      in if cpName c \<noteq> '''' then AList.update ''mcp.name'' (MAny (AStr (cpName c))) md else md)"

definition mcprl_OnRequestBody :: "'l externs \<Rightarrow> 'l lim_ops \<Rightarrow> extern \<Rightarrow> (nat \<Rightarrow> nat \<Rightarrow> env) \<Rightarrow> (string \<Rightarrow> string) \<Rightarrow> (string \<Rightarrow> json option)
    \<Rightarrow> (json \<Rightarrow> int \<Rightarrow> string \<Rightarrow> string option) \<Rightarrow> downstream \<Rightarrow> string \<Rightarrow> string \<Rightarrow> body option \<Rightarrow> 'l mcprl_state \<Rightarrow> 'l mcprl_state \<times> unit verdict" where
  "mcprl_OnRequestBody x ops ex es fld parseJSON envelope ds apiName apiVersion bdy s =
     (if \<not> mcpPost fld ds then (s, Proceed ())
      else case bdy of
        None \<Rightarrow> (s, Proceed ())
      | Some b \<Rightarrow>
          if Content b = '''' then (s, Proceed ())
          else (case identifyCapability fld parseJSON (dsHeaders ds) (Content b) of
                  Inl ambiguous \<Rightarrow>
                    (s, Stop (buildJsonRpcError fld envelope (dsHeaders ds) 400 (if ambiguous then -32600 else -32700) ''Invalid MCP request body'' None))
                | Inr c \<Rightarrow>
                    if cpMethod c = '''' then (s, Proceed ())
                    else let s = s\<lparr>stMeta := publish c (stMeta s)\<rparr> in
                      case findMatches (mrEntries (stPolicy s)) (cpMethod c) (cpType c) (cpName c) of
                        [] \<Rightarrow> (s, Proceed ())
                      | ms \<Rightarrow>
                          (case enforce x ops ex es (synthesizeHeaderContext ds apiName apiVersion) 0 ms (s\<lparr>stInvoked := []\<rparr>) of
                             (s', Stop r) \<Rightarrow>
                               (s'\<lparr>stInvoked := stInvoked s\<rparr>, Stop (rewriteRateLimitedResponse fld envelope (stPolicy s') (dsHeaders ds) r (cpID c)))
                           | (s', Crashed) \<Rightarrow> (s'\<lparr>stInvoked := stInvoked s\<rparr>, Crashed)
                           | (s', Proceed _) \<Rightarrow>
                               (if stInvoked s' \<noteq> [] then s' else s'\<lparr>stInvoked := stInvoked s\<rparr>, Proceed ()))))"

section \<open>The response phase\<close>

text \<open>The delegates invoked on the request; a later one's header replaces an earlier one's.\<close>

fun forwardResponse :: "'l lim_ops \<Rightarrow> extern \<Rightarrow> (nat \<Rightarrow> nat \<Rightarrow> env) \<Rightarrow> response \<Rightarrow> nat \<Rightarrow> string list \<Rightarrow> header \<Rightarrow> string list \<Rightarrow> 'l mcprl_state
    \<Rightarrow> 'l mcprl_state \<times> response_action" where
  "forwardResponse ops ex es rs k [] merged toRemove s = (s, ModifyHeaders merged toRemove)"
| "forwardResponse ops ex es rs k (key # keys) merged toRemove s =
     (case map_of (mrDelegates (stPolicy s)) key of
        None \<Rightarrow> forwardResponse ops ex es rs (Suc k) keys merged toRemove s
      | Some d \<Rightarrow>
          (let (lims, md, act) = OnResponseHeaders ops ex d (es k) rs (stMeta s) (limObjs (stWorld s));
               s = s\<lparr>stWorld := (stWorld s)\<lparr>limObjs := lims\<rparr>, stMeta := md\<rparr>
           in case act of
                ModifyHeaders h rm \<Rightarrow>
                  forwardResponse ops ex es rs (Suc k) keys (foldl (\<lambda>m (n, v). AList.update n v m) merged h) (toRemove @ rm) s
              | NoAction \<Rightarrow> forwardResponse ops ex es rs (Suc k) keys merged toRemove s
              | ResponseCrash \<Rightarrow> (s, ResponseCrash)))"

definition mcprl_OnResponseHeaders :: "'l lim_ops \<Rightarrow> extern \<Rightarrow> (nat \<Rightarrow> nat \<Rightarrow> env) \<Rightarrow> response \<Rightarrow> 'l mcprl_state \<Rightarrow> 'l mcprl_state \<times> response_action" where
  "mcprl_OnResponseHeaders ops ex es rs s =
     (if stInvoked s = [] then (s, ModifyHeaders [] []) else forwardResponse ops ex es rs 0 (stInvoked s) [] [] s)"

section \<open>Lemmas\<close>

lemma map_filter_set: "y \<in> set (List.map_filter f xs) \<longleftrightarrow> (\<exists>x \<in> set xs. f x = Some y)"
  by (induction xs) (auto simp: List.map_filter_simps split: option.splits)

lemma match_some:
  "exactMatch method ty nm ie = Some (i, c) \<Longrightarrow> fst ie = i \<and> matchTarget method ty nm (snd ie) = Some c \<and> leName (snd ie) = c"
  "wildcardMatch method ty nm ie = Some (i, c) \<Longrightarrow> fst ie = i \<and> matchTarget method ty nm (snd ie) = Some c \<and> leName (snd ie) = ''*''"
  by (simp_all add: exactMatch_def wildcardMatch_def split: option.splits if_splits)

lemma findMatches_entry:
  assumes "(i, c) \<in> set (findMatches entries method ty nm)"
  shows "i < length entries \<and> matchTarget method ty nm (entries ! i) = Some c \<and> (leName (entries ! i) = c \<or> leName (entries ! i) = ''*'')"
proof -
  obtain ie where ie: "ie \<in> set (enumerate 0 entries)"
    "exactMatch method ty nm ie = Some (i, c) \<or> wildcardMatch method ty nm ie = Some (i, c)"
    using assms by (auto simp: findMatches_def Let_def map_filter_set)
  have "fst ie < length entries" "snd ie = entries ! fst ie"
    using ie(1) by (simp_all add: in_set_enumerate_eq)
  then show ?thesis using ie(2) match_some by metis
qed

text \<open>What a run leaves of the configuration.\<close>

definition sameConfig :: "McpRateLimitPolicy \<Rightarrow> McpRateLimitPolicy \<Rightarrow> bool" where
  "sameConfig p q \<longleftrightarrow> q\<lparr>mrDelegates := []\<rparr> = p\<lparr>mrDelegates := []\<rparr>"

lemma sameConfig_fields:
  "sameConfig p q \<longleftrightarrow> mrMetadata q = mrMetadata p \<and> mrEntries q = mrEntries p \<and> mrGlobalKeys q = mrGlobalKeys p \<and>
     mrExceeded q = mrExceeded p \<and> mrSystem q = mrSystem p"
  by (cases p; cases q) (auto simp: sameConfig_def)

lemma sameConfig_params: "sameConfig p q \<Longrightarrow> delegateParams q i c = delegateParams p i c"
  by (auto simp: sameConfig_fields delegateParams_def delegateQuota_def baseKeys_def)

lemma resolveDelegate_config: "resolveDelegate x i c p w = (p', w', out) \<Longrightarrow> sameConfig p p'"
  by (auto simp: resolveDelegate_def sameConfig_fields split: option.splits prod.splits outcome.splits)

lemma resolveDelegate_ret: "resolveDelegate x i c p w = (p', w', Ret d) \<Longrightarrow> map_of (mrDelegates p') (delegateKey i c) = Some d"
  by (auto simp: resolveDelegate_def split: option.splits prod.splits outcome.splits)

lemma resolveDelegate_keeps: "resolveDelegate x i c p w = (p', w', out) \<Longrightarrow> map_of (mrDelegates p) k = Some d \<Longrightarrow> map_of (mrDelegates p') k = Some d"
  by (auto simp: resolveDelegate_def split: option.splits prod.splits outcome.splits)

lemma resolveDelegate_fail:
  "resolveDelegate x i c p w = (p', w', Fail err) \<Longrightarrow> GetPolicy x (mrMetadata p) (delegateParams p i c) w = (w', Fail err)"
  by (auto simp: resolveDelegate_def split: option.splits prod.splits outcome.splits)

text \<open>One pass of the loop that goes on.\<close>

lemma enforce_step:
  assumes "enforce x ops ex es rq k ((i, c) # ms) s = (s', Proceed ())"
  obtains (failed) p w err where "resolveDelegate x i c (stPolicy s) (stWorld s) = (p, w, Fail err)"
      "enforce x ops ex es rq (Suc k) ms (s\<lparr>stPolicy := p, stWorld := w\<rparr>) = (s', Proceed ())"
    | (ran) p w d lims md where "resolveDelegate x i c (stPolicy s) (stWorld s) = (p, w, Ret d)"
      "OnRequestHeaders ops ex d (es k) rq (stMeta s) (limObjs w) = (lims, md, Proceed ())"
      "enforce x ops ex es rq (Suc k) ms (s\<lparr>stPolicy := p, stWorld := w\<lparr>limObjs := lims\<rparr>, stMeta := md,
         stInvoked := stInvoked s @ [delegateKey i c]\<rparr>) = (s', Proceed ())"
proof -
  obtain p w out where r: "resolveDelegate x i c (stPolicy s) (stWorld s) = (p, w, out)" by (metis prod_cases3)
  show thesis
  proof (cases out)
    case (Ret d)
    obtain lims md v where o: "OnRequestHeaders ops ex d (es k) rq (stMeta s) (limObjs w) = (lims, md, v)" by (metis prod_cases3)
    have v: "v = Proceed ()" using assms r o Ret by (cases v) simp_all
    show thesis using ran [OF r [unfolded Ret] o [unfolded v]] assms r o Ret v by simp
  next
    case (Fail err)
    show thesis using failed [OF r [unfolded Fail]] assms r Fail by simp
  next
    case Panic
    then show thesis using assms r by simp
  qed
qed

lemma enforce_keeps:
  "enforce x ops ex es rq k ms s = (s', Proceed ()) \<Longrightarrow>
   sameConfig (stPolicy s) (stPolicy s') \<and> set (stInvoked s) \<subseteq> set (stInvoked s') \<and>
   (\<forall>key d. map_of (mrDelegates (stPolicy s)) key = Some d \<longrightarrow> map_of (mrDelegates (stPolicy s')) key = Some d)"
proof (induction ms arbitrary: k s)
  case (Cons m ms)
  obtain i c where m: "m = (i, c)" by (cases m)
  from Cons.prems show ?case unfolding m
  proof (cases rule: enforce_step)
    case (failed p w err)
    show ?thesis using Cons.IH [OF failed(2)] resolveDelegate_config [OF failed(1)] resolveDelegate_keeps [OF failed(1)]
      by (auto simp: sameConfig_def)
  next
    case (ran p w d lims md)
    show ?thesis using Cons.IH [OF ran(3)] resolveDelegate_config [OF ran(1)] resolveDelegate_keeps [OF ran(1)]
      by (auto simp: sameConfig_def)
  qed
qed (simp add: sameConfig_def)

lemma enforce_append:
  "enforce x ops ex es rq k (pre @ post) s = (s', Proceed ()) \<longleftrightarrow>
    (\<exists>t. enforce x ops ex es rq k pre s = (t, Proceed ()) \<and> enforce x ops ex es rq (k + length pre) post t = (s', Proceed ()))"
proof (induction pre arbitrary: k s)
  case (Cons m pre)
  obtain i c where m: "m = (i, c)" by (cases m)
  obtain p w out where r: "resolveDelegate x i c (stPolicy s) (stWorld s) = (p, w, out)" by (metis prod_cases3)
  show ?case
  proof (cases out)
    case (Ret d)
    obtain lims md v where o: "OnRequestHeaders ops ex d (es k) rq (stMeta s) (limObjs w) = (lims, md, v)" by (metis prod_cases3)
    show ?thesis using Cons.IH [of "Suc k"] by (cases v) (simp_all add: m r Ret o)
  next
    case (Fail err)
    show ?thesis using Cons.IH [of "Suc k"] by (simp add: m r Fail)
  qed (simp add: m r)
qed simp

lemma cut_append: "c \<in> set s \<Longrightarrow> s = fst (cut c s) @ c # snd (cut c s)"
  by (induction s) (auto simp: cut_def)

lemma capabilityOf_reading:
  assumes "\<And>n. rateLimitMember method = Some n \<Longrightarrow> paramsMember n p = nm"
  shows "capabilityOf method p = capabilityOf method \<lparr>pName = nm, pURI = nm\<rparr>"
proof (cases "CHR ''/'' \<in> set method")
  case True
  obtain pre rest where c: "cut (CHR ''/'') method = (pre, rest)" by (cases "cut (CHR ''/'') method")
  then have m: "method = pre @ ''/'' @ rest" using cut_append [OF True] by simp
  show ?thesis using assms [of "''name''"] assms [of "''uri''"] unfolding capabilityOf_def c
    by (auto simp: m rateLimitMember_def paramsMember_def)
qed (simp add: capabilityOf_def split: prod.splits)

definition requestText :: "(string \<Rightarrow> string) \<Rightarrow> downstream \<Rightarrow> string \<Rightarrow> string" where
  "requestText fld ds content = (if mcprl_isEventStream fld (dsHeaders ds) then extractFirstSseJSON content else content)"

lemma identifyCapability_reading:
  assumes "foldOk fld" "identifyCapability fld parseJSON (dsHeaders ds) content = Inr cap"
    and "parseJSON (requestText fld ds content) = Some (JObj ms)" "mayRead fld ms ''method'' (JStr method)"
    and "rateLimitMember method = None \<or>
      (mayRead fld ms ''params'' (JObj ps) \<and> mayRead fld ps (the (rateLimitMember method)) (JStr nm))"
    and "method \<noteq> ''''"
  shows "cpMethod cap = method \<and> (cpType cap, cpName cap) = capabilityOf method \<lparr>pName = nm, pURI = nm\<rparr>"
proof -
  have f: "requestFields [''method'', ''params'', ''id'']" by (simp add: requestFields_def)
  obtain req where r: "decodeRequest fld [''method'', ''params'', ''id''] (JObj ms) = Some req"
    "validateMembers fld (JObj ms) (rateLimitMember (mMethod req)) = Valid"
    and cap: "mMethod req \<noteq> '''' \<Longrightarrow> cpMethod cap = mMethod req \<and> (cpType cap, cpName cap) = capabilityOf (mMethod req) (mParams req)"
    using assms(2,3) unfolding identifyCapability_def Let_def requestText_def
    by (auto simp: validateUnambiguousRequestMembers_def split: if_splits option.splits validation.splits prod.splits)
  have m: "mMethod req = method" using decodeRequest_method [OF assms(1) f r refl assms(4)] .
  have "paramsMember n (mParams req) = nm" if n: "rateLimitMember method = Some n" for n
  proof -
    have "n = ''name'' \<or> n = ''uri''" using n by (auto simp: rateLimitMember_def split: if_splits)
    then show ?thesis using decodeRequest_params [OF assms(1) f r(1) _ refl, of n ps nm] r(2) m n assms(5) by simp
  qed
  then show ?thesis using cap m assms(6) capabilityOf_reading [where nm = nm] by simp
qed

lemma mcprl_passes:
  assumes "mcprl_OnRequestBody x ops ex es fld parseJSON envelope ds api ver (Some b) s = (s', Proceed ())" "mcpPost fld ds" "Content b \<noteq> ''''"
  obtains cap where "identifyCapability fld parseJSON (dsHeaders ds) (Content b) = Inr cap"
    "cpMethod cap \<noteq> '''' \<Longrightarrow> ms = findMatches (mrEntries (stPolicy s)) (cpMethod cap) (cpType cap) (cpName cap) \<Longrightarrow> ms \<noteq> [] \<Longrightarrow>
      \<exists>t. enforce x ops ex es (synthesizeHeaderContext ds api ver) 0 ms (s\<lparr>stMeta := publish cap (stMeta s), stInvoked := []\<rparr>) = (t, Proceed ()) \<and>
        stPolicy s' = stPolicy t \<and> stWorld s' = stWorld t"
proof -
  obtain cap where cap: "identifyCapability fld parseJSON (dsHeaders ds) (Content b) = Inr cap"
    using assms by (auto simp: mcprl_OnRequestBody_def split: sum.splits)
  show thesis
  proof (rule that [OF cap])
    let ?s = "s\<lparr>stMeta := publish cap (stMeta s), stInvoked := []\<rparr>"
    assume c: "cpMethod cap \<noteq> ''''" "ms = findMatches (mrEntries (stPolicy s)) (cpMethod cap) (cpType cap) (cpName cap)" "ms \<noteq> []"
    obtain t v where e: "enforce x ops ex es (synthesizeHeaderContext ds api ver) 0 ms ?s = (t, v)"
      by (metis prod.collapse)
    obtain m ms' where m: "findMatches (mrEntries (stPolicy s)) (cpMethod cap) (cpType cap) (cpName cap) = m # ms'"
      using c(2,3) by (metis list.exhaust)
    show "\<exists>t. enforce x ops ex es (synthesizeHeaderContext ds api ver) 0 ms ?s = (t, Proceed ()) \<and>
        stPolicy s' = stPolicy t \<and> stWorld s' = stWorld t"
      using assms cap c(1) e m c(2) by (cases v) (auto simp: mcprl_OnRequestBody_def Let_def simp del: enforce.simps split: if_splits)
  qed
qed

section \<open>Keys computed by an expression\<close>

definition celKeyed :: "McpRateLimitPolicy \<Rightarrow> limitEntry \<Rightarrow> bool" where
  "celKeyed p e = list_ex (\<lambda>raw. case as_map raw of Some m \<Rightarrow> as_str (index m ''type'') = Some ''cel'' | None \<Rightarrow> False) (baseKeys p e)"

definition celDelegates :: "McpRateLimitPolicy \<Rightarrow> bool" where
  "celDelegates p = list_all (\<lambda>(k, d). list_all hasCELKey (quotas d)) (mrDelegates p)"

lemma quotaLoop_deferred: "list_all defr qs \<Longrightarrow> quotaLoop step keyOf defr p es i qs lims st = (lims, Proceed st)"
  by (induction qs arbitrary: i) auto

lemma OnRequestHeaders_cel: "list_all hasCELKey (quotas d) \<Longrightarrow> \<exists>m'. OnRequestHeaders ops ex d es rq m lims = (lims, m', Proceed ())"
  by (simp add: OnRequestHeaders_def Let_def quotaLoop_deferred)

lemma parseAll_all:
  "parseAll f i raws = Ret vs \<Longrightarrow> raw \<in> set raws \<Longrightarrow> \<exists>j v. v \<in> set vs \<and> f j raw = Ret v"
proof (induction raws arbitrary: i vs)
  case (Cons r raws)
  from Cons.prems(1) obtain w ws where p: "f i r = Ret w" "parseAll f (Suc i) raws = Ret ws" "vs = w # ws"
    by (auto split: outcome.splits)
  show ?case using Cons.IH [OF p(2)] Cons.prems(2) p by auto
qed simp

lemma parseKeyComponent_type:
  "parseKeyComponent i raw = Ret k \<Longrightarrow> \<exists>m. as_map raw = Some m \<and> as_str (index m ''type'') = Some (kcType k)"
  by (auto simp: parseKeyComponent_def split: option.splits outcome.splits if_splits)

lemma parseKeyExtraction_cel:
  assumes "parseKeyExtraction (AArr raws) = Ret ks" "raw \<in> set raws" "as_map raw = Some m" "as_str (index m ''type'') = Some ''cel''"
  shows "list_ex (\<lambda>k. kcType k = ''cel'') ks"
proof -
  obtain j k where "k \<in> set ks" "parseKeyComponent j raw = Ret k"
    using assms(1,2) parseAll_all [of parseKeyComponent 0 raws ks raw] by (auto simp: parseKeyExtraction_def)
  then show ?thesis using parseKeyComponent_type [of j raw k] assms(3,4) by (auto simp: list_ex_iff)
qed

lemma parseQuota_keys:
  "parseQuota i (AMap m) = Ret q \<Longrightarrow> parseKeyExtraction (index m ''keyExtraction'') = Ret (qKeyExtraction q)"
  by (auto simp: parseQuota_def Let_def split: option.splits outcome.splits list.splits)

lemma delegateQuotas:
  assumes "parsePolicyQuotas (delegateParams p i c) = Ret qs"
  obtains q where "qs = [q]" "costOf q = None" "parseKeyExtraction (AArr (baseKeys p (mrEntries p ! i) @ [constantKey (delegateName '':'' (mrEntries p ! i) i c)])) =
    Ret (qKeyExtraction q)"
proof -
  obtain g ps where p: "parseQuotas (delegateParams p i c) = Ret ps" "qs = map (fillKeyExtraction g) ps"
    using assms by (auto simp: parsePolicyQuotas_def split: outcome.splits list.splits) (metis list.simps(9))
  then obtain q where q: "ps = [q]" "parseQuota 0 (delegateQuota p (mrEntries p ! i) i c) = Ret q"
    by (auto simp: parseQuotas_def delegateParams_def split: outcome.splits)
  have k: "parseKeyExtraction (AArr (baseKeys p (mrEntries p ! i) @ [constantKey (delegateName '':'' (mrEntries p ! i) i c)])) = Ret (qKeyExtraction q)"
    using parseQuota_keys [OF q(2) [unfolded delegateQuota_def]] by (simp add: index_def)
  then have "qKeyExtraction q \<noteq> []" using parseAll_length by (fastforce simp: parseKeyExtraction_def)
  then have f: "fillKeyExtraction g q = q" by (simp add: fillKeyExtraction_def)
  have "qCostExtractor q = None" using q(2)
    by (auto simp: parseQuota_def delegateQuota_def index_def parseCostExtractionConfig_def Let_def split: outcome.splits list.splits)
  then have "costOf q = None" by (simp add: costOf_def)
  then show thesis using that p(2) q(1) k f by simp
qed

lemma GetPolicy_cel:
  assumes "GetPolicy x md (delegateParams p i c) w = (w', Ret d)" "celKeyed p (mrEntries p ! i)"
  shows "list_all hasCELKey (quotas d)"
proof -
  obtain qs ls where g: "parsePolicyQuotas (delegateParams p i c) = Ret qs" "quotas d = map2 (\<lambda>q l. q\<lparr>qLimiter := l\<rparr>) qs ls"
    using GetPolicy_cases [OF assms(1)] by (metis quotas_mkPolicy)
  obtain q where q: "qs = [q]"
    "parseKeyExtraction (AArr (baseKeys p (mrEntries p ! i) @ [constantKey (delegateName '':'' (mrEntries p ! i) i c)])) = Ret (qKeyExtraction q)"
    using delegateQuotas [OF g(1)] by blast
  obtain raw m where "raw \<in> set (baseKeys p (mrEntries p ! i))" "as_map raw = Some m" "as_str (index m ''type'') = Some ''cel''"
    using assms(2) by (auto simp: celKeyed_def list_ex_iff split: option.splits)
  then have "list_ex (\<lambda>k. kcType k = ''cel'') (qKeyExtraction q)" using parseKeyExtraction_cel [OF q(2)] by auto
  then show ?thesis using g(2) q(1) by (cases ls) (auto simp: hasCELKey_def)
qed

text \<open>Building a policy adds limiters and leaves those there as they are.\<close>

lemma acquire_limObjs: "acquire create old infos w = (w', out) \<Longrightarrow> take (length (limObjs w)) (limObjs w') = limObjs w"
proof (induction create old infos w arbitrary: w' out rule: acquire.induct)
  case (2 create old key name conf infos w)
  show ?case
  proof (cases "map_of (byQuotaKey w) key")
    case (Some en)
    obtain v o1 where v: "acquire create old infos (shareEntry old key en w) = (v, o1)" by (metis prod.collapse)
    then have "w' = v" using "2.prems" Some by (auto split: outcome.splits)
    then show ?thesis using "2.IH"(2) [OF Some v] by simp
  next
    case None
    show ?thesis
    proof (cases "create conf")
      case (Ret l)
      obtain v o1 where v: "acquire create old infos (newEntry key l w) = (v, o1)" by (metis prod.collapse)
      then have "w' = v" using "2.prems" None Ret by (auto split: outcome.splits)
      moreover have "take (length (limObjs w)) (take (Suc (length (limObjs w))) (limObjs v)) = limObjs w"
        using "2.IH"(1) [OF None Ret v] by simp
      ultimately show ?thesis by (simp add: min_def)
    qed (use "2.prems" None in auto)
  qed
qed simp

lemma createEach_limObjs: "createEach create infos w = (w', out) \<Longrightarrow> take (length (limObjs w)) (limObjs w') = limObjs w"
proof (induction create infos w arbitrary: w' out rule: createEach.induct)
  case (2 create name conf infos w)
  show ?case
  proof (cases "create conf")
    case (Ret l)
    obtain v o1 where v: "createEach create infos (w\<lparr>limObjs := limObjs w @ [l]\<rparr>) = (v, o1)" by (metis prod.collapse)
    then have "w' = v" using "2.prems" Ret by (auto simp: addLimiter_def split: outcome.splits)
    moreover have "take (length (limObjs w)) (take (Suc (length (limObjs w))) (limObjs v)) = limObjs w"
      using "2.IH" [OF Ret, of "(w\<lparr>limObjs := limObjs w @ [l]\<rparr>, length (limObjs w))"] v by (simp add: addLimiter_def)
    ultimately show ?thesis by (simp add: min_def)
  qed (use "2.prems" in auto)
qed simp

lemma release_limObjs: "limObjs (release desired ks w) = limObjs w"
  by (induction desired ks w rule: release.induct) (simp_all add: dropEntry_def split: option.splits)

lemma reconcile_limObjs: "reconcile create rk order infos w = (w', out) \<Longrightarrow> take (length (limObjs w)) (limObjs w') = limObjs w"
  using acquire_limObjs [of create "trackedBy w rk" infos w]
  by (auto simp: reconcile_def Let_def release_limObjs split: prod.splits outcome.splits)

lemma acquireLimiters_limObjs:
  "acquireLimiters x md r al be cl m qs w = (w', out) \<Longrightarrow> take (length (limObjs w)) (limObjs w') = limObjs w"
  by (cases "be = ''redis''") (auto simp: acquireLimiters_def Let_def intro: reconcile_limObjs createEach_limObjs)

lemma GetPolicy_limObjs:
  assumes "GetPolicy x md m w = (w', out)"
  shows "take (length (limObjs w)) (limObjs w') = limObjs w"
proof (cases "parsePolicyQuotas m")
  case (Ret qs)
  obtain v cl where v: "connect x (backendOf m) m w = (v, cl)" by (metis prod.collapse)
  have f: "limObjs v = limObjs w" using connect_frame [OF v] by blast
  show ?thesis
  proof (cases cl)
    case (Ret client)
    obtain u ls where u: "acquireLimiters x md (routeOrDefault md) (algoOf m) (backendOf m) client m qs v = (u, ls)" by (metis prod.collapse)
    have "w' = u" using assms \<open>parsePolicyQuotas m = Ret qs\<close> v Ret u by (cases ls) (simp_all add: GetPolicy_def Let_def)
    then show ?thesis using acquireLimiters_limObjs [OF u] f by simp
  qed (use assms Ret v f in \<open>simp_all add: GetPolicy_def Let_def\<close>)
qed (use assms in \<open>simp_all add: GetPolicy_def Let_def\<close>)

lemma celDelegates_lookup: "celDelegates p \<Longrightarrow> map_of (mrDelegates p) k = Some d \<Longrightarrow> list_all hasCELKey (quotas d)"
  by (auto simp: celDelegates_def list_all_iff dest: map_of_SomeD)

lemma celDelegates_update:
  assumes "celDelegates p" "list_all hasCELKey (quotas d)"
  shows "celDelegates (p\<lparr>mrDelegates := AList.update k d (mrDelegates p)\<rparr>)"
proof -
  have "e \<in> set (AList.update k d m) \<Longrightarrow> e = (k, d) \<or> e \<in> set m" for e m
    by (induction m) (auto split: if_splits)
  then show ?thesis using assms by (fastforce simp: celDelegates_def list_all_iff)
qed

lemma resolveDelegate_cel:
  assumes r: "resolveDelegate x i c p w = (p', w', out)" and "celKeyed p (mrEntries p ! i)" "celDelegates p"
  shows "celDelegates p' \<and> (\<forall>d. out = Ret d \<longrightarrow> list_all hasCELKey (quotas d)) \<and> take (length (limObjs w)) (limObjs w') = limObjs w"
proof (cases "map_of (mrDelegates p) (delegateKey i c)")
  case (Some d)
  then show ?thesis using r assms(3) celDelegates_lookup [OF assms(3) Some] by (auto simp: resolveDelegate_def)
next
  case None
  obtain v o1 where g: "GetPolicy x (mrMetadata p) (delegateParams p i c) w = (v, o1)" by (metis prod.collapse)
  show ?thesis
  proof (cases o1)
    case (Ret d)
    then have "p' = p\<lparr>mrDelegates := AList.update (delegateKey i c) d (mrDelegates p)\<rparr>" "w' = v" "out = Ret d"
      using r None g by (simp_all add: resolveDelegate_def)
    then show ?thesis using GetPolicy_cel [OF g [unfolded Ret] assms(2)] GetPolicy_limObjs [OF g] celDelegates_update [OF assms(3)] by simp
  qed (use r None g GetPolicy_limObjs [OF g] assms(3) in \<open>auto simp: resolveDelegate_def\<close>)
qed

lemma sameConfig_cel: "sameConfig p q \<Longrightarrow> celKeyed q e = celKeyed p e \<and> mrEntries q = mrEntries p"
  by (auto simp: sameConfig_fields celKeyed_def baseKeys_def)

lemma enforce_cel:
  assumes "enforce x ops ex es rq k ms s = (s', v)" "\<forall>m \<in> set ms. celKeyed (stPolicy s) (mrEntries (stPolicy s) ! fst m)"
    and "celDelegates (stPolicy s)"
  shows "(\<forall>r. v \<noteq> Stop r) \<and> celDelegates (stPolicy s') \<and>
    take (length (limObjs (stWorld s))) (limObjs (stWorld s')) = limObjs (stWorld s)"
  using assms
proof (induction ms arbitrary: k s)
  case (Cons m ms)
  obtain i c where m: "m = (i, c)" by (cases m)
  obtain p w out where r: "resolveDelegate x i c (stPolicy s) (stWorld s) = (p, w, out)" by (metis prod_cases3)
  have rc: "celDelegates p" "\<And>d. out = Ret d \<Longrightarrow> list_all hasCELKey (quotas d)"
    "take (length (limObjs (stWorld s))) (limObjs w) = limObjs (stWorld s)"
    using resolveDelegate_cel [OF r] Cons.prems(2,3) m by auto
  have ck: "\<forall>m \<in> set ms. celKeyed p (mrEntries p ! fst m)"
    using sameConfig_cel [OF resolveDelegate_config [OF r]] Cons.prems(2) by auto
  have take_trans: "take (length (limObjs (stWorld s))) ls = limObjs (stWorld s)" if "take (length (limObjs w)) ls = limObjs w" for ls
    using rc(3) that by (metis min.absorb1 take_take linorder_linear take_all)
  show ?case
  proof (cases out)
    case (Ret d)
    obtain md where o: "OnRequestHeaders ops ex d (es k) rq (stMeta s) (limObjs w) = (limObjs w, md, Proceed ())"
      using OnRequestHeaders_cel rc(2) [OF Ret] by blast
    let ?s = "s\<lparr>stPolicy := p, stWorld := w\<lparr>limObjs := limObjs w\<rparr>, stMeta := md, stInvoked := stInvoked s @ [delegateKey i c]\<rparr>"
    have "enforce x ops ex es rq (Suc k) ms ?s = (s', v)" using Cons.prems(1) r o Ret m by simp
    from Cons.IH [OF this] show ?thesis using rc(1) ck take_trans by simp
  next
    case (Fail err)
    have "enforce x ops ex es rq (Suc k) ms (s\<lparr>stPolicy := p, stWorld := w\<rparr>) = (s', v)" using Cons.prems(1) r Fail m by simp
    from Cons.IH [OF this] show ?thesis using rc(1) ck take_trans by simp
  next
    case Panic
    then show ?thesis using Cons.prems(1) r m rc(1,3) by auto
  qed
qed auto

text \<open>Limits keyed by an expression are never enforced. The phase this policy runs of its delegates leaves
  the quotas whose key is computed by an expression (\<open>cel\<close>) to the phase on the request body, which this
  policy does not run. If the keys of all entries have such a component, no well-formed request is ever refused, and
  no limiter is charged; the configuration and the documentation offer the component.\<close>
lemma mcp_cel_limits_unenforced:
  assumes "list_all (celKeyed (stPolicy s)) (mrEntries (stPolicy s))" "celDelegates (stPolicy s)"
    and "identifyCapability fld parseJSON (dsHeaders ds) (Content b) = Inr cap"
    and "mcprl_OnRequestBody x ops ex es fld parseJSON envelope ds api ver (Some b) s = (s', v)"
  shows "(\<forall>r. v \<noteq> Stop r) \<and> celDelegates (stPolicy s') \<and>
    take (length (limObjs (stWorld s))) (limObjs (stWorld s')) = limObjs (stWorld s)"
proof -
  let ?ms = "findMatches (mrEntries (stPolicy s)) (cpMethod cap) (cpType cap) (cpName cap)"
  let ?s = "s\<lparr>stMeta := publish cap (stMeta s), stInvoked := []\<rparr>"
  obtain t o1 where e: "enforce x ops ex es (synthesizeHeaderContext ds api ver) 0 ?ms ?s = (t, o1)" by (metis prod.collapse)
  have "celKeyed (stPolicy s) (mrEntries (stPolicy s) ! fst m)" if "m \<in> set ?ms" for m
  proof -
    have "fst m < length (mrEntries (stPolicy s))" using findMatches_entry [of "fst m" "snd m"] that by auto
    then show ?thesis using assms(1) by (simp add: list_all_length)
  qed
  then have c: "(\<forall>r. o1 \<noteq> Stop r) \<and> celDelegates (stPolicy t) \<and>
      take (length (limObjs (stWorld s))) (limObjs (stWorld t)) = limObjs (stWorld s)"
    using enforce_cel [OF e] assms(2) by simp
  show ?thesis
  proof (cases "\<not> mcpPost fld ds \<or> Content b = '''' \<or> cpMethod cap = '''' \<or> ?ms = []")
    case True
    then have "stPolicy s' = stPolicy s \<and> stWorld s' = stWorld s \<and> v = Proceed ()"
      using assms(3,4) unfolding mcprl_OnRequestBody_def Let_def by (elim disjE) (auto split: if_splits)
    then show ?thesis using assms(2) by simp
  next
    case False
    then obtain m ms where m: "?ms = m # ms" by (metis list.exhaust)
    then show ?thesis using assms(3,4) False c e
      by (cases o1) (auto simp: mcprl_OnRequestBody_def Let_def simp del: enforce.simps)
  qed
qed

section \<open>Properties\<close>

text \<open>A delegate has one quota, which costs one, and a limiter that exists; its key is computed by an expression only
  if that of the entry is.\<close>

definition delegateWf :: "McpRateLimitPolicy \<Rightarrow> nat \<Rightarrow> nat \<Rightarrow> RateLimitPolicy \<Rightarrow> bool" where
  "delegateWf p n i d \<longleftrightarrow> (\<exists>q. quotas d = [q] \<and> costOf q = None \<and> qLimiter q < n \<and> (hasCELKey q \<longrightarrow> celKeyed p (mrEntries p ! i)))"

definition delegatesOk :: "McpRateLimitPolicy \<Rightarrow> 'l world \<Rightarrow> bool" where
  "delegatesOk p w \<longleftrightarrow> cacheSafe w \<and>
     (\<forall>i c d. map_of (mrDelegates p) (delegateKey i c) = Some d \<longrightarrow> delegateWf p (length (limObjs w)) i d)"

definition mcprlOk :: "'l mcprl_state \<Rightarrow> bool" where
  "mcprlOk s \<longleftrightarrow> delegatesOk (stPolicy s) (stWorld s)"

lemma delegateKey_inj:
  assumes "delegateKey i c = delegateKey i' c'"
  shows "i = i' \<and> c = c'"
proof -
  have eq: "a = b \<and> t = u" if "a @ CHR '':'' # t = b @ CHR '':'' # u" "CHR '':'' \<notin> set a" "CHR '':'' \<notin> set b" for a b t u :: string
    using that
  proof (induction a arbitrary: b)
    case Nil
    then show ?case by (cases b) auto
  next
    case (Cons x a)
    then show ?case by (cases b) auto
  qed
  have "CHR '':'' \<notin> set (itoa (int n))" for n using itoa_digits [of "int n" "CHR '':''"] by (auto simp: is_digit_def)
  then have "itoa (int i) = itoa (int i') \<and> c = c'" using eq [of "itoa (int i)" c "itoa (int i')" c'] assms by (simp add: delegateKey_def)
  then show ?thesis using itoa_inj [of "int i" "int i'"] by simp
qed

lemma parseAll_source: "parseAll f i raws = Ret vs \<Longrightarrow> v \<in> set vs \<Longrightarrow> \<exists>j. \<exists>raw \<in> set raws. f j raw = Ret v"
proof (induction raws arbitrary: i vs)
  case (Cons r raws)
  from Cons.prems(1) obtain w ws where p: "f i r = Ret w" "parseAll f (Suc i) raws = Ret ws" "vs = w # ws"
    by (auto split: outcome.splits)
  show ?case using Cons.IH [OF p(2)] Cons.prems(2) p by auto
qed simp

lemma GetPolicy_delegate:
  assumes "GetPolicy x md (delegateParams p i c) w = (w', Ret d)" "cacheSafe w" "isPermOf (iterOrder x)"
  shows "delegateWf p (length (limObjs w')) i d"
proof -
  obtain qs w1 client ls where g: "parsePolicyQuotas (delegateParams p i c) = Ret qs" "connect x (backendOf (delegateParams p i c)) (delegateParams p i c) w = (w1, Ret client)"
    "acquireLimiters x md (routeOrDefault md) (algoOf (delegateParams p i c)) (backendOf (delegateParams p i c)) client (delegateParams p i c) qs w1 = (w', Ret ls)"
    "d = mkPolicy x md (backendOf (delegateParams p i c)) (delegateParams p i c) (map2 (\<lambda>q l. q\<lparr>qLimiter := l\<rparr>) qs ls)"
    using GetPolicy_cases [OF assms(1)] by metis
  have "cacheSafe w1" using connect_frame [OF g(2)] cacheSafe_cong [of w1 w] assms(2) by simp
  note sound = acquireLimiters_sound [OF this assms(3) g(3)]
  obtain q where q: "qs = [q]" "costOf q = None"
    "parseKeyExtraction (AArr (baseKeys p (mrEntries p ! i) @ [constantKey (delegateName '':'' (mrEntries p ! i) i c)])) = Ret (qKeyExtraction q)"
    using delegateQuotas [OF g(1)] by blast
  obtain l where l: "ls = [l]" "l < length (limObjs w')" using sound q(1) by (cases ls) auto
  have cel: "celKeyed p (mrEntries p ! i)" if "hasCELKey q"
  proof -
    obtain k where k: "k \<in> set (qKeyExtraction q)" "kcType k = ''cel''" using \<open>hasCELKey q\<close> by (auto simp: hasCELKey_def list_ex_iff)
    obtain j raw where raw: "raw \<in> set (baseKeys p (mrEntries p ! i) @ [constantKey (delegateName '':'' (mrEntries p ! i) i c)])"
      "parseKeyComponent j raw = Ret k" 
      using parseAll_source [of parseKeyComponent 0 _ "qKeyExtraction q" k] q(3) k(1) unfolding parseKeyExtraction_def by fastforce
    obtain m where m: "as_map raw = Some m" "as_str (index m ''type'') = Some ''cel''" using parseKeyComponent_type [OF raw(2)] k(2) by auto
    then have "raw \<noteq> constantKey (delegateName '':'' (mrEntries p ! i) i c)" by (auto simp: constantKey_def index_def)
    then have "raw \<in> set (baseKeys p (mrEntries p ! i))" using raw(1) by simp
    then show ?thesis using m unfolding celKeyed_def list_ex_iff by (intro bexI [of _ raw]) simp_all
  qed
  have "quotas d = [q\<lparr>qLimiter := l\<rparr>]" using g(4) q(1) l(1) by simp
  moreover have "costOf (q\<lparr>qLimiter := l\<rparr>) = None" "hasCELKey (q\<lparr>qLimiter := l\<rparr>) = hasCELKey q"
    using q(2) by (auto simp: costOf_def hasCELKey_def split: if_splits)
  ultimately show ?thesis using l(2) cel by (auto simp: delegateWf_def)
qed

lemma delegateWf_mono: "delegateWf p n i d \<Longrightarrow> n \<le> n' \<Longrightarrow> sameConfig p p' \<Longrightarrow> delegateWf p' n' i d"
  unfolding delegateWf_def using sameConfig_cel [of p p'] by fastforce

lemma limObjs_grow: "take (length xs) ys = xs \<Longrightarrow> length xs \<le> length ys"
  by (metis length_take min.cobounded1)

lemma resolveDelegate_ok:
  assumes "resolveDelegate x i c p0 w0 = (p, w, out)" "delegatesOk p0 w0" "isPermOf (iterOrder x)"
  shows "delegatesOk p w \<and> (\<forall>d. out = Ret d \<longrightarrow> delegateWf p (length (limObjs w)) i d)"
proof (cases "map_of (mrDelegates p0) (delegateKey i c)")
  case (Some d)
  then have "p = p0" "w = w0" "out = Ret d" using assms(1) by (auto simp: resolveDelegate_def)
  then show ?thesis using assms(2) Some unfolding delegatesOk_def by blast
next
  case None
  obtain v o1 where g: "GetPolicy x (mrMetadata p0) (delegateParams p0 i c) w0 = (v, o1)" by (metis prod.collapse)
  have w0: "cacheSafe w0" using assms(2) by (simp add: delegatesOk_def)
  have safe: "cacheSafe v" using GetPolicy_safe [OF w0 assms(3) g] .
  have grow: "length (limObjs w0) \<le> length (limObjs v)" using limObjs_grow [OF GetPolicy_limObjs [OF g]] .
  have sc: "sameConfig p0 p" using resolveDelegate_config [OF assms(1)] .
  have old: "delegateWf p (length (limObjs v)) i' d" if "map_of (mrDelegates p0) (delegateKey i' c') = Some d" for i' c' d
    using assms(2) that delegateWf_mono [OF _ grow sc] unfolding delegatesOk_def by blast
  show ?thesis
  proof (cases o1)
    case (Ret d)
    have p: "p = p0\<lparr>mrDelegates := AList.update (delegateKey i c) d (mrDelegates p0)\<rparr>" "w = v" "out = Ret d"
      using assms(1) None g Ret by (auto simp: resolveDelegate_def)
    have d: "delegateWf p (length (limObjs v)) i d"
      using delegateWf_mono [OF GetPolicy_delegate [OF g [unfolded Ret] w0 assms(3)] order_refl sc] .
    have "delegateWf p (length (limObjs v)) i' d'" if "map_of (mrDelegates p) (delegateKey i' c') = Some d'" for i' c' d'
    proof (cases "delegateKey i' c' = delegateKey i c")
      case True
      then have "d' = d" "i' = i" using that delegateKey_inj [of i' c' i c] by (simp_all add: p(1))
      then show ?thesis using d by simp
    next
      case False
      then have "map_of (mrDelegates p0) (delegateKey i' c') = Some d'" using that by (simp add: p(1))
      then show ?thesis by (rule old)
    qed
    then show ?thesis using safe d p(2,3) unfolding delegatesOk_def by blast
  next
    case (Fail err)
    then have "p = p0" "w = v" "out = Fail err" using assms(1) None g by (auto simp: resolveDelegate_def)
    then show ?thesis using safe old unfolding delegatesOk_def by blast
  next
    case Panic
    then have "p = p0" "w = v" "out = Panic" using assms(1) None g by (auto simp: resolveDelegate_def)
    then show ?thesis using safe old unfolding delegatesOk_def by blast
  qed
qed

lemma delegatesOk_lims:
  assumes "delegatesOk p w" "length lims = length (limObjs w)"
  shows "delegatesOk p (w\<lparr>limObjs := lims\<rparr>)"
proof -
  have "cacheSafe (w\<lparr>limObjs := lims\<rparr>)"
  proof (rule cacheSafe_cong [of _ w])
    show "cacheSafe w" using assms(1) unfolding delegatesOk_def by blast
  qed (simp_all add: assms(2))
  moreover have "length (limObjs (w\<lparr>limObjs := lims\<rparr>)) = length (limObjs w)" by (simp add: assms(2))
  ultimately show ?thesis using assms(1) unfolding delegatesOk_def by presburger
qed

text \<open>The limiter of a delegate was asked for one under the key of the request and let it pass: it allowed it, or it
  failed and the policy is set to go on.\<close>

definition chargedBy :: "'l lim_ops \<Rightarrow> RateLimitPolicy \<Rightarrow> env \<Rightarrow> request \<Rightarrow> 'l list \<Rightarrow> 'l list \<Rightarrow> bool" where
  "chargedBy ops d e rq lims lims' \<longleftrightarrow>
     (\<exists>q s' out. quotas d = [q] \<and> qLimiter q < length lims \<and>
        opAllowN ops e (lims ! qLimiter q) (extractQuotaKeyFromHeaderCtx d rq q) 1 = (s', out) \<and> lims' = lims[qLimiter q := s'] \<and>
        (case out of Ret r \<Rightarrow> Allowed r | Fail _ \<Rightarrow> redisBacked d \<and> redisFailOpen d | Panic \<Rightarrow> False))"

text \<open>What became of a match of a request: with the matches before it done, its delegate was at hand or built and its
  limiter charged, or it could not be built; and the run went on from there through the other matches to the end.\<close>

definition enforced :: "'l externs \<Rightarrow> 'l lim_ops \<Rightarrow> extern \<Rightarrow> (nat \<Rightarrow> nat \<Rightarrow> env) \<Rightarrow> request \<Rightarrow> (nat \<times> string) list
    \<Rightarrow> 'l mcprl_state \<Rightarrow> 'l world \<Rightarrow> nat \<Rightarrow> string \<Rightarrow> bool" where
  "enforced x ops ex es rq ms s w' i c \<longleftrightarrow>
     (\<exists>pre post t p w u v. ms = pre @ (i, c) # post \<and> enforce x ops ex es rq 0 pre s = (t, Proceed ()) \<and>
        ((\<exists>err. resolveDelegate x i c (stPolicy t) (stWorld t) = (p, w, Fail err) \<and> u = t\<lparr>stPolicy := p, stWorld := w\<rparr>) \<or>
         (\<exists>d lims md. resolveDelegate x i c (stPolicy t) (stWorld t) = (p, w, Ret d) \<and>
            chargedBy ops d (es (length pre) 0) (withMeta rq (stMeta t)) (limObjs w) lims \<and>
            u = t\<lparr>stPolicy := p, stWorld := w\<lparr>limObjs := lims\<rparr>, stMeta := md, stInvoked := stInvoked t @ [delegateKey i c]\<rparr>)) \<and>
        enforce x ops ex es rq (Suc (length pre)) post u = (v, Proceed ()) \<and> stWorld v = w')"

lemma delegate_charged:
  assumes "delegateWf p (length lims) i d" "\<not> celKeyed p (mrEntries p ! i)"
    and "OnRequestHeaders ops ex d es rq md lims = (lims', md', Proceed ())"
  shows "chargedBy ops d (es 0) (withMeta rq md) lims lims'"
proof -
  obtain q where q: "quotas d = [q]" "costOf q = None" "\<not> hasCELKey q" "qLimiter q < length lims"
    using assms(1,2) by (auto simp: delegateWf_def)
  obtain s' out where a: "opAllowN ops (es 0) (lims ! qLimiter q) (extractQuotaKeyFromHeaderCtx d (withMeta rq md) q) 1 = (s', out)" by fastforce
  show ?thesis using single_quota_charge [where es = es, OF q(1-3) a, of ex] assms(3) q(1,4) a unfolding chargedBy_def by auto
qed

lemma OnRequestHeaders_length: "OnRequestHeaders ops ex d es rq md lims = (lims', md', v) \<Longrightarrow> length lims' = length lims"
proof -
  have "length (fst (quotaLoop step keyOf defr p es i qs lims st)) = length lims" for step keyOf defr p i qs lims st and es :: "nat \<Rightarrow> env"
    by (induction qs arbitrary: i lims st) (auto simp: Let_def split: prod.splits qstep.splits)
  from this [of "headerStep ops ex d (withMeta rq md)" "extractQuotaKeyFromHeaderCtx d (withMeta rq md)" hasCELKey d es 0 "quotas d" lims noProgress]
  show "OnRequestHeaders ops ex d es rq md lims = (lims', md', v) \<Longrightarrow> length lims' = length lims"
    by (auto simp: OnRequestHeaders_def Let_def split: prod.splits verdict.splits)
qed

lemma enforce_ok:
  assumes "isPermOf (iterOrder x)"
  shows "enforce x ops ex es rq k ms s = (s', v) \<Longrightarrow> mcprlOk s \<Longrightarrow> mcprlOk s'"
proof (induction ms arbitrary: k s)
  case (Cons m ms)
  obtain i c where m: "m = (i, c)" by (cases m)
  obtain p w out where r: "resolveDelegate x i c (stPolicy s) (stWorld s) = (p, w, out)" by (metis prod_cases3)
  note ok = resolveDelegate_ok [OF r Cons.prems(2) [unfolded mcprlOk_def] assms]
  show ?case
  proof (cases out)
    case (Ret d)
    obtain lims md v1 where o: "OnRequestHeaders ops ex d (es k) rq (stMeta s) (limObjs w) = (lims, md, v1)" by (metis prod_cases3)
    let ?t = "s\<lparr>stPolicy := p, stWorld := w\<lparr>limObjs := lims\<rparr>, stMeta := md, stInvoked := stInvoked s @ [delegateKey i c]\<rparr>"
    have "mcprlOk ?t" using delegatesOk_lims [OF conjunct1 [OF ok] OnRequestHeaders_length [OF o]] by (simp add: mcprlOk_def)
    then show ?thesis using Cons.IH [of "Suc k" ?t] Cons.prems(1) by (cases v1) (auto simp: m r Ret o)
  next
    case (Fail err)
    then show ?thesis using Cons.IH [of "Suc k" "s\<lparr>stPolicy := p, stWorld := w\<rparr>"] Cons.prems(1) ok by (simp add: m r mcprlOk_def)
  qed (use Cons.prems(1) ok in \<open>auto simp: m r mcprlOk_def\<close>)
qed simp

lemma enforce_all:
  assumes "enforce x ops ex es rq 0 ms s = (s', Proceed ())" "(i, c) \<in> set ms" "mcprlOk s" "isPermOf (iterOrder x)"
    and "\<not> celKeyed (stPolicy s) (mrEntries (stPolicy s) ! i)"
  shows "enforced x ops ex es rq ms s (stWorld s') i c"
proof -
  obtain pre post where ms: "ms = pre @ (i, c) # post" using assms(2) by (meson split_list)
  obtain t where t: "enforce x ops ex es rq 0 pre s = (t, Proceed ())" "enforce x ops ex es rq (length pre) ((i, c) # post) t = (s', Proceed ())"
    using assms(1) unfolding ms enforce_append by auto
  have ok: "mcprlOk t" using enforce_ok [OF assms(4) t(1) assms(3)] .
  have sc: "sameConfig (stPolicy s) (stPolicy t)" using enforce_keeps [OF t(1)] by blast
  from t(2) show ?thesis
  proof (cases rule: enforce_step)
    case (failed p w err)
    then show ?thesis unfolding enforced_def using ms t(1) by blast
  next
    case (ran p w d lims md)
    have "sameConfig (stPolicy s) p" using sc resolveDelegate_config [OF ran(1)] by (simp add: sameConfig_def)
    then have "\<not> celKeyed p (mrEntries p ! i)" using assms(5) sameConfig_cel by metis
    moreover have "delegateWf p (length (limObjs w)) i d" using resolveDelegate_ok [OF ran(1) ok [unfolded mcprlOk_def] assms(4)] by blast
    ultimately have "chargedBy ops d (es (length pre) 0) (withMeta rq (stMeta t)) (limObjs w) lims" using delegate_charged ran(2) by metis
    then show ?thesis unfolding enforced_def using ms t(1) ran(1,3) by blast
  qed
qed

text \<open>The invariant holds of a policy that was just made; requests and responses keep it, whatever becomes of them.\<close>

lemma mcprl_ok_start: "mcprl_GetPolicy md m = Ret p \<Longrightarrow> cacheSafe w \<Longrightarrow> mcprlOk \<lparr>stPolicy = p, stWorld = w, stMeta = meta, stInvoked = ivk\<rparr>"
  by (auto simp: mcprl_GetPolicy_def mcprlOk_def delegatesOk_def Let_def split: outcome.splits if_splits list.splits)

lemma mcprlOk_meta: "mcprlOk (s\<lparr>stMeta := md, stInvoked := ivk\<rparr>) = mcprlOk s" "mcprlOk (s\<lparr>stInvoked := ivk\<rparr>) = mcprlOk s"
  "mcprlOk (s\<lparr>stMeta := md\<rparr>) = mcprlOk s"
  by (simp_all add: mcprlOk_def)

lemma mcprl_ok_request:
  assumes "mcprlOk s" "isPermOf (iterOrder x)" "mcprl_OnRequestBody x ops ex es fld parseJSON envelope ds api ver b s = (s', v)"
  shows "mcprlOk s'"
proof -
  have "mcprlOk (fst (enforce x ops ex es (synthesizeHeaderContext ds api ver) 0 ms (s\<lparr>stMeta := md, stInvoked := []\<rparr>)))" for ms md
    using enforce_ok [OF assms(2)] assms(1) by (metis mcprlOk_meta(1) prod.collapse)
  then show ?thesis using assms(1,3)
    by (auto simp: mcprl_OnRequestBody_def Let_def mcprlOk_meta simp del: enforce.simps
      split: if_splits option.splits sum.splits list.splits prod.splits verdict.splits) (metis fst_conv mcprlOk_meta(2))+
qed

lemma OnResponseHeaders_length: "OnResponseHeaders ops ex d es rs md lims = (lims', md', act) \<Longrightarrow> length lims' = length lims"
proof -
  have "length (fst (responseLoop step es i qs lims acc)) = length lims" for step i qs lims acc and es :: "nat \<Rightarrow> env"
    by (induction qs arbitrary: i lims acc) (auto simp: Let_def split: prod.splits qstep.splits)
  from this [of _ es 0 "quotas d" lims "[]"]
  show "OnResponseHeaders ops ex d es rs md lims = (lims', md', act) \<Longrightarrow> length lims' = length lims"
    by (auto simp: OnResponseHeaders_def Let_def split: prod.splits option.splits) (metis fst_conv)+
qed

lemma mcprl_ok_response: "mcprl_OnResponseHeaders ops ex es rs s = (s', act) \<Longrightarrow> mcprlOk s \<Longrightarrow> mcprlOk s'"
proof -
  have "forwardResponse ops ex es rs k keys merged toRemove s = (s', act) \<Longrightarrow> mcprlOk s \<Longrightarrow> mcprlOk s'" for k keys merged toRemove
  proof (induction keys arbitrary: k merged toRemove s)
    case (Cons key keys)
    show ?case
    proof (cases "map_of (mrDelegates (stPolicy s)) key")
      case (Some d)
      obtain lims md a where o: "OnResponseHeaders ops ex d (es k) rs (stMeta s) (limObjs (stWorld s)) = (lims, md, a)" by (metis prod_cases3)
      have "mcprlOk (s\<lparr>stWorld := (stWorld s)\<lparr>limObjs := lims\<rparr>, stMeta := md\<rparr>)"
        using delegatesOk_lims [OF _ OnResponseHeaders_length [OF o]] Cons.prems(2) by (simp add: mcprlOk_def)
      then show ?thesis using Cons.IH Cons.prems(1) Some o by (cases a) auto
    qed (use Cons.IH Cons.prems in simp)
  qed simp
  then show "mcprl_OnResponseHeaders ops ex es rs s = (s', act) \<Longrightarrow> mcprlOk s \<Longrightarrow> mcprlOk s'"
    by (auto simp: mcprl_OnResponseHeaders_def split: if_splits)
qed


section \<open>Witnesses\<close>

definition anyTool :: "any list \<Rightarrow> limitEntry" where
  "anyTool ks = \<lparr>leSection = ''tools'', leName = ''*'', leLimitsRaw = [AMap [(''limit'', AFloat (Fin 5)), (''duration'', AStr ''0'')]],
     leKeyExtractionRaw = ks\<rparr>"

definition toolPolicy :: "any list \<Rightarrow> (string, RateLimitPolicy) gomap \<Rightarrow> McpRateLimitPolicy" where
  "toolPolicy ks ds = \<lparr>mrMetadata = demoMd, mrEntries = [anyTool ks], mrGlobalKeys = [], mrExceeded = None, mrSystem = [], mrDelegates = ds\<rparr>"

definition toolState :: "any list \<Rightarrow> (string, RateLimitPolicy) gomap \<Rightarrow> unit mcprl_state" where
  "toolState ks ds = \<lparr>stPolicy = toolPolicy ks ds, stWorld = emptyWorld\<lparr>limObjs := [()]\<rparr>, stMeta = [], stInvoked = []\<rparr>"

definition allowOps :: "unit lim_ops" where
  "allowOps = \<lparr>opAllowN = (\<lambda>e s key n. (s, Ret (result_zero\<lparr>Allowed := True\<rparr>))), opGetAvailable = (\<lambda>e s key. Ret 1),
     opClampN = (\<lambda>e s key n. (s, Ret result_zero)), opConsumeN = None\<rparr>"

definition echo :: "(string \<times> json) list" where
  "echo = [(''method'', JStr ''tools/call''), (''params'', JObj [(''name'', JStr ''t'')])]"

definition postDs :: downstream where
  "postDs = \<lparr>dsMethod = ''POST'', dsPath = ''/mcp'', dsScheme = ''https'', dsAuthority = ''gw'', dsHeaders = None\<rparr>"

definition echoRun :: "unit mcprl_state \<Rightarrow> unit mcprl_state \<times> unit verdict" where
  "echoRun s = mcprl_OnRequestBody demoExterns allowOps demoExtern (\<lambda>_ _. \<lparr>clock = 0, sys_now = 0\<rparr>) ToLower (\<lambda>_. Some (JObj echo)) (\<lambda>_ _ _. None)
     postDs ''api'' ''v1'' (Some \<lparr>Content = ''x'', Present = True\<rparr>) s"

definition builtState :: "unit mcprl_state" where
  "builtState = toolState [] [(delegateKey 0 ''t'', builtPolicy)]"

lemma echoRun_passes: "snd (echoRun builtState) = Proceed ()"
proof -
  have m: "findMatches [anyTool []] ''tools/call'' ''tool'' ''t'' = [(0, ''t'')]" by code_simp
  have c: "map_option (\<lambda>r. (mMethod r, pName (mParams r))) (decodeRequest ToLower [''method'', ''params'', ''id''] (JObj echo)) = Some (''tools/call'', ''t'')"
    "validateUnambiguousRequestMembers ToLower (JObj echo) ''tools/call'' = Valid" "mcpPost ToLower postDs"
    "cut (CHR ''/'') ''tools/call'' = (''tools'', ''call'')"
    by code_simp+
  then obtain z where z: "decodeRequest ToLower [''method'', ''params'', ''id''] (JObj echo) = Some z" "mMethod z = ''tools/call''" "pName (mParams z) = ''t''"
    by auto
  let ?cap = "\<lparr>cpMethod = ''tools/call'', cpType = ''tool'', cpName = ''t'', cpID = mID z\<rparr>"
  have i: "identifyCapability ToLower (\<lambda>_. Some (JObj echo)) (dsHeaders postDs) ''x'' = Inr ?cap"
    using c z by (simp add: identifyCapability_def mcprl_isEventStream_def postDs_def capabilityOf_def)
  obtain l md where o: "OnRequestHeaders allowOps demoExtern builtPolicy (\<lambda>_. \<lparr>clock = 0, sys_now = 0\<rparr>) (synthesizeHeaderContext postDs ''api'' ''v1'')
      (publish ?cap []) [()] = (l, md, Proceed ())"
    by (simp add: OnRequestHeaders_def Let_def builtPolicy_def demoQuota_def hasCELKey_def headerStep_def costOf_def chargeQuota_def allowOps_def)
  show ?thesis unfolding echoRun_def mcprl_OnRequestBody_def
    by (simp add: i c(3) m o builtState_def toolState_def toolPolicy_def resolveDelegate_def Let_def)
qed

lemma builtState_ok: "mcprlOk builtState" "\<not> celKeyed (stPolicy builtState) (mrEntries (stPolicy builtState) ! 0)"
proof -
  have "cacheSafe ((emptyWorld :: unit world)\<lparr>limObjs := [()]\<rparr>)"
    by (rule cacheSafe_cong [OF _ _ _ _ cacheOk_safe [OF emptyWorld_ok]]) (simp_all add: emptyWorld_def)
  moreover have "delegateWf (toolPolicy [] ds) 1 i d" if "map_of [(delegateKey 0 ''t'', builtPolicy)] (delegateKey i c) = Some d" for ds i c d
  proof -
    have "delegateKey 0 ''t'' = delegateKey i c" "d = builtPolicy" using that by (simp_all split: if_splits)
    then have "i = 0" using delegateKey_inj by blast
    then show ?thesis using \<open>d = builtPolicy\<close> by (simp add: delegateWf_def builtPolicy_def demoQuota_def costOf_def hasCELKey_def)
  qed
  moreover have "stPolicy builtState = toolPolicy [] [(delegateKey 0 ''t'', builtPolicy)]" "stWorld builtState = emptyWorld\<lparr>limObjs := [()]\<rparr>"
    "mrDelegates (toolPolicy [] ds) = ds" for ds
    by (simp_all add: builtState_def toolState_def toolPolicy_def)
  ultimately show "mcprlOk builtState"
    unfolding mcprlOk_def delegatesOk_def by (simp only:) (simp del: map_of.simps)
  show "\<not> celKeyed (stPolicy builtState) (mrEntries (stPolicy builtState) ! 0)"
    by (simp add: builtState_def toolState_def toolPolicy_def celKeyed_def baseKeys_def anyTool_def index_def)
qed


text \<open>\<open>mcp_cel_limits_unenforced\<close> at the first call of a tool under an entry keyed by an expression.\<close>
lemma mcp_cel_limits_unenforced_example:
  "(\<forall>r. snd (echoRun (toolState [AMap [(''type'', AStr ''cel''), (''expression'', AStr ''request.Method'')]] [])) \<noteq> Stop r) \<and>
   celDelegates (stPolicy (fst (echoRun (toolState [AMap [(''type'', AStr ''cel''), (''expression'', AStr ''request.Method'')]] [])))) \<and>
   take 1 (limObjs (stWorld (fst (echoRun (toolState [AMap [(''type'', AStr ''cel''), (''expression'', AStr ''request.Method'')]] []))))) = [()]"
proof -
  let ?s = "toolState [AMap [(''type'', AStr ''cel''), (''expression'', AStr ''request.Method'')]] []"
  have "\<not> isl (identifyCapability ToLower (\<lambda>_. Some (JObj echo)) (dsHeaders postDs) (Content \<lparr>Content = ''x'', Present = True\<rparr>))"
    by code_simp
  then obtain cap where cap: "identifyCapability ToLower (\<lambda>_. Some (JObj echo)) (dsHeaders postDs) (Content \<lparr>Content = ''x'', Present = True\<rparr>) = Inr cap"
    by (metis isl_def sum.exhaust)
  have run: "mcprl_OnRequestBody demoExterns allowOps demoExtern (\<lambda>_ _. \<lparr>clock = 0, sys_now = 0\<rparr>) ToLower (\<lambda>_. Some (JObj echo)) (\<lambda>_ _ _. None)
     postDs ''api'' ''v1'' (Some \<lparr>Content = ''x'', Present = True\<rparr>) ?s = (fst (echoRun ?s), snd (echoRun ?s))"
    by (simp add: echoRun_def)
  have "list_all (celKeyed (stPolicy ?s)) (mrEntries (stPolicy ?s))" "celDelegates (stPolicy ?s)" "limObjs (stWorld ?s) = [()]"
    by (simp_all add: toolState_def toolPolicy_def celKeyed_def baseKeys_def anyTool_def index_def celDelegates_def)
  then show ?thesis using mcp_cel_limits_unenforced [OF _ _ cap run] by simp
qed

section \<open>Delegates of several capabilities\<close>

definition delegateCacheKey :: "'l externs \<Rightarrow> McpRateLimitPolicy \<Rightarrow> nat \<Rightarrow> string \<Rightarrow> string option" where
  "delegateCacheKey x p i c =
     (case parsePolicyQuotas (delegateParams p i c) of
        Ret qs \<Rightarrow> Some (hd (cacheKeys x (mrMetadata p) (delegateParams p i c) qs))
      | _ \<Rightarrow> None)"

lemma delegateParams_other: "k \<noteq> ''quotas'' \<Longrightarrow> index (delegateParams p j c') k = index (delegateParams p i c) k"
  by (simp add: delegateParams_def index_def)

lemma cacheKeys_single: "cacheKeys x md m [q] = [getQuotaCacheKey (sha256 x) (baseKeyOf x md m) (mdAPIName md) q 0]"
  by (simp add: cacheKeys_def indexed_def)

lemma resolveDelegate_built:
  assumes "resolveDelegate x i c p w = (p', w', Ret d)" "map_of (mrDelegates p) (delegateKey i c) = None"
  shows "GetPolicy x (mrMetadata p) (delegateParams p i c) w = (w', Ret d)"
  using assms by (auto simp: resolveDelegate_def split: prod.splits outcome.splits)

lemma delegateCacheKey_quota: "delegateCacheKey x p i c = Some key \<Longrightarrow> \<exists>q. parsePolicyQuotas (delegateParams p i c) = Ret [q]"
  by (auto simp: delegateCacheKey_def split: outcome.splits elim: delegateQuotas)

text \<open>The delegates of two capabilities evict each other. When the delegate of a second capability is
  built, the limiter of the first one, if nothing else holds it, is closed, and the policy goes on using it for the
  first capability. The cache keys of the two are taken to differ.\<close>
lemma mcp_delegates_evict:
  assumes "cacheOk w" "isPermOf (iterOrder x)" "backendOf (delegateParams p i c) \<noteq> ''redis''"
    and "resolveDelegate x i c p w = (p1, w1, Ret d)" "resolveDelegate x j c' p1 w1 = (p2, w2, Ret d')"
    and "map_of (mrDelegates p) (delegateKey i c) = None" "map_of (mrDelegates p1) (delegateKey j c') = None"
    and "delegateCacheKey x p i c = Some key" "delegateCacheKey x p j c' = Some key'" "key \<noteq> key'" "limOf w key = None"
  shows "qLimiter (quotas d ! 0) \<in> set (closedLims w2) \<and> map_of (mrDelegates p2) (delegateKey i c) = Some d"
proof -
  let ?m = "delegateParams p i c" let ?m' = "delegateParams p j c'" let ?md = "mrMetadata p"
  have sc: "sameConfig p p1" using resolveDelegate_config [OF assms(4)] .
  have g: "GetPolicy x ?md ?m w = (w1, Ret d)" "GetPolicy x ?md ?m' w1 = (w2, Ret d')"
    using resolveDelegate_built [OF assms(4,6)] resolveDelegate_built [OF assms(5,7)] sameConfig_params [OF sc] sc
    by (simp_all add: sameConfig_fields)
  obtain q q' where q: "parsePolicyQuotas ?m = Ret [q]" "parsePolicyQuotas ?m' = Ret [q']"
    using delegateCacheKey_quota [OF assms(8)] delegateCacheKey_quota [OF assms(9)] by blast
  have k: "cacheKeys x ?md ?m [q] = [key]" "cacheKeys x ?md ?m' [q'] = [key']"
    using assms(8,9) q by (simp_all add: delegateCacheKey_def cacheKeys_single)
  have "refs w1 key = 1" using GetPolicy_fresh [OF assms(1,2) g(1) assms(3) q(1)] k assms(11) by simp
  then have "qLimiter (quotas d ! 0) \<in> set (closedLims w2)"
    using assms(10) k delegateParams_other
    by (intro GetPolicy_evicts [OF assms(1,2) g _ assms(3) q]) simp_all
  moreover have "map_of (mrDelegates p2) (delegateKey i c) = Some d"
    using resolveDelegate_keeps [OF assms(5) resolveDelegate_ret [OF assms(4)]] .
  ultimately show ?thesis by simp
qed

lemma toolQuotas:
  "parsePolicyQuotas (delegateParams (toolPolicy [] ds) 0 c) =
     Ret [\<lparr>qName = delegateName ''-'' (anyTool []) 0 c, qLimits = [\<lparr>lcLimit = 5, lcDuration = 0, lcBurst = 5\<rparr>],
       qKeyExtraction = [\<lparr>kcType = ''routename'', kcKey = '''', kcExpression = '''', kcFallback = ''''\<rparr>,
         \<lparr>kcType = ''constant'', kcKey = delegateName '':'' (anyTool []) 0 c, kcExpression = '''', kcFallback = ''''\<rparr>],
       qLimiter = 0, qCostExtractor = None, qCostExtractionEnabled = False\<rparr>]"
  by (simp add: delegateParams_def toolPolicy_def anyTool_def delegateQuota_def baseKeys_def constantKey_def parsePolicyQuotas_def parseQuotas_def
    parseQuota_def parseLimits_def parseLimit_def parseSingleLimit_def ParseDuration_def index_def parseKeyExtraction_def parseKeyComponent_def
    optField_def fillKeyExtraction_def parseCostExtractionConfig_def strField_def rat_trunc_def int64_def)

lemma toolBackend: "backendOf (delegateParams (toolPolicy [] ds) 0 c) = ''memory''"
  by (simp add: getStringParam_def dotted_def split_on.simps delegateParams_def toolPolicy_def index_def)

definition freshPolicy :: McpRateLimitPolicy where "freshPolicy = toolPolicy [] []"

lemma freshPolicy_keys:
  "\<exists>key key'. delegateCacheKey demoExterns freshPolicy 0 ''a'' = Some key \<and> delegateCacheKey demoExterns freshPolicy 0 ''b'' = Some key' \<and> key \<noteq> key'"
proof -
  have "baseKeyOf demoExterns demoMd (delegateParams freshPolicy 0 ''b'') = baseKeyOf demoExterns demoMd (delegateParams freshPolicy 0 ''a'')"
    by (rule baseKeyOf_cong) (simp add: delegateParams_other)
  then show ?thesis
    unfolding freshPolicy_def delegateCacheKey_def toolQuotas
    by (simp add: cacheKeys_single toolPolicy_def getQuotaCacheKey_def demoExterns_def hasKeyType_def delegateName_def)
qed

text \<open>\<open>mcp_delegates_evict\<close> at two tools under an entry for all tools.\<close>
lemma mcp_delegates_evict_example:
  "\<exists>p1 w1 d p2 w2 d'. resolveDelegate demoExterns 0 ''a'' freshPolicy emptyWorld = (p1, w1, Ret d) \<and>
     resolveDelegate demoExterns 0 ''b'' p1 w1 = (p2, w2, Ret d') \<and>
     qLimiter (quotas d ! 0) \<in> set (closedLims w2) \<and> map_of (mrDelegates p2) (delegateKey 0 ''a'') = Some d"
proof -
  obtain key key' where k: "delegateCacheKey demoExterns freshPolicy 0 ''a'' = Some key" "delegateCacheKey demoExterns freshPolicy 0 ''b'' = Some key'" "key \<noteq> key'"
    using freshPolicy_keys by blast
  have b: "backendOf (delegateParams freshPolicy 0 ''a'') \<noteq> ''redis''" by (simp add: freshPolicy_def toolBackend)
  have n: "delegateKey 0 ''a'' \<noteq> delegateKey 0 ''b''" by (simp add: delegateKey_def)
  obtain w1 d where g1: "GetPolicy demoExterns (mrMetadata freshPolicy) (delegateParams freshPolicy 0 ''a'') emptyWorld = (w1, Ret d)"
    unfolding freshPolicy_def using GetPolicy_total [OF toolQuotas toolBackend] by blast
  let ?p1 = "toolPolicy [] [(delegateKey 0 ''a'', d)]"
  have r1: "resolveDelegate demoExterns 0 ''a'' freshPolicy emptyWorld = (?p1, w1, Ret d)"
    using g1 by (simp add: resolveDelegate_def freshPolicy_def toolPolicy_def)
  obtain w2 d' where g2: "GetPolicy demoExterns (mrMetadata ?p1) (delegateParams ?p1 0 ''b'') w1 = (w2, Ret d')"
    using GetPolicy_total [OF toolQuotas toolBackend] by blast
  then obtain p2 where r2: "resolveDelegate demoExterns 0 ''b'' ?p1 w1 = (p2, w2, Ret d')"
    using n by (auto simp: resolveDelegate_def toolPolicy_def)
  have f: "map_of (mrDelegates freshPolicy) (delegateKey 0 ''a'') = None" "map_of (mrDelegates ?p1) (delegateKey 0 ''b'') = None" "limOf emptyWorld key = None"
    using n by (simp_all add: freshPolicy_def toolPolicy_def limOf_def emptyWorld_def)
  from mcp_delegates_evict [OF emptyWorld_ok demo_iter b r1 r2 f(1,2) k f(3)] show ?thesis using r1 r2 by blast
qed

end
