(* ===== verification/GuardText.thy ===== *)
theory GuardText
  imports CostExtractor
begin

text \<open>
  What the guardrails that look at a text share (\<^verbatim>\<open>policies/word-count-guardrail\<close> and its siblings): the text is
  extracted from a JSON payload with a JSONPath, or from the events of a stream. JSON, JSONPath and the
  formatting of floats are the fields of \<open>jsonlib\<close>; an operation that fails gives the text of its error.
\<close>

section \<open>Outcomes\<close>

definition andThen :: "'a outcome \<Rightarrow> ('a \<Rightarrow> 'b outcome) \<Rightarrow> 'b outcome" where
  "andThen r f = (case r of Ret v \<Rightarrow> f v | Fail err \<Rightarrow> Fail err | Panic \<Rightarrow> Panic)"

lemma andThen_Ret: "andThen r f = Ret v \<longleftrightarrow> (\<exists>u. r = Ret u \<and> f u = Ret v)"
  by (simp add: andThen_def split: outcome.splits)

definition inContext :: "string \<Rightarrow> 'a outcome \<Rightarrow> 'a outcome" where
  "inContext context r = (case r of Fail err \<Rightarrow> Fail (context @ err) | _ \<Rightarrow> r)"

lemma inContext_Ret [simp]: "inContext context r = Ret v \<longleftrightarrow> r = Ret v"
  by (simp add: inContext_def split: outcome.splits)

section \<open>Payloads\<close>

record jsonlib =
  jpString :: "string \<Rightarrow> string \<Rightarrow> string + string"
  jpValue :: "params \<Rightarrow> string \<Rightarrow> string + any"
  unmarshalObject :: "string \<Rightarrow> string + params"
  marshalAny :: "any \<Rightarrow> string + string"
  formatFloat :: "f64 \<Rightarrow> string"
  parseFloatText :: "string \<Rightarrow> string + f64"

text \<open>An integer from a decoded value; the messages leave out the printed value and type.\<close>

definition integral :: "f64 \<Rightarrow> string + int" where
  "integral v = (if v \<noteq> f64_of_int (f64_to_int64 v) then Inl ''expected an integer'' else Inr (f64_to_int64 v))"

fun extractInt :: "jsonlib \<Rightarrow> any \<Rightarrow> string + int" where
  "extractInt lib (AInt v) = Inr v"
| "extractInt lib (AInt64 v) = Inr v"
| "extractInt lib (AFloat v) = integral v"
| "extractInt lib (AStr s) = (case parseFloatText lib s of Inl err \<Rightarrow> Inl err | Inr v \<Rightarrow> integral v)"
| "extractInt lib _ = Inl ''cannot convert to int''"

lemma map_of_size: "map_of m k = Some (v :: any) \<Longrightarrow> size v < Suc (size_list (size_prod (\<lambda>_. 0) size) m)"
  by (induction m) (auto split: if_splits)

text \<open>A value as text. The word count guardrail takes \<^verbatim>\<open>nil\<close> for the empty text, its siblings reject it.\<close>

function normalizeExtractedValue :: "bool \<Rightarrow> jsonlib \<Rightarrow> any \<Rightarrow> string + string" where
  "normalizeExtractedValue nilOk lib (AStr s) = Inr s"
| "normalizeExtractedValue nilOk lib (AFloat v) = Inr (formatFloat lib v)"
| "normalizeExtractedValue nilOk lib (AInt i) = Inr (itoa i)"
| "normalizeExtractedValue nilOk lib (ABool b) = Inr (if b then ''true'' else ''false'')"
| "normalizeExtractedValue nilOk lib (AMap m) =
     (case map_of m ''content'' of
        Some c \<Rightarrow> normalizeExtractedValue nilOk lib c
      | None \<Rightarrow>
          (case map_of m ''text'' of
             Some t \<Rightarrow> normalizeExtractedValue nilOk lib t
           | None \<Rightarrow> marshalAny lib (AMap m)))"
| "normalizeExtractedValue nilOk lib (AArr xs) =
     (let parts = concat (map (\<lambda>x. case normalizeExtractedValue nilOk lib x of
            Inl _ \<Rightarrow> []
          | Inr p \<Rightarrow> if TrimSpace p = '''' then [] else [TrimSpace p]) xs)
      in if parts = [] then Inl ''value at JSONPath is an empty array'' else Inr (join '' '' parts))"
| "normalizeExtractedValue nilOk lib ANil = (if nilOk then Inr '''' else Inl ''value at JSONPath is not a supported type'')"
| "normalizeExtractedValue nilOk lib (AInt64 i) = Inl ''value at JSONPath is not a supported type''"
| "normalizeExtractedValue nilOk lib (AFloat32 v) = Inl ''value at JSONPath is not a supported type''"
| "normalizeExtractedValue nilOk lib (ADur d) = Inl ''value at JSONPath is not a supported type''"
| "normalizeExtractedValue nilOk lib AOther = Inl ''value at JSONPath is not a supported type''"
  by pat_completeness auto
termination
  by (relation "measure (\<lambda>(_, _, v). size v)") (auto simp: less_Suc_eq_le dest: map_of_size intro: size_list_estimation')

definition extractStringFromJSONPath :: "bool \<Rightarrow> jsonlib \<Rightarrow> string \<Rightarrow> string \<Rightarrow> string + string" where
  "extractStringFromJSONPath nilOk lib payload jsonPath =
     (case jpString lib payload jsonPath of
        Inr v \<Rightarrow> Inr v
      | Inl _ \<Rightarrow>
          (case unmarshalObject lib payload of
             Inl err \<Rightarrow> Inl err
           | Inr obj \<Rightarrow>
               (case jpValue lib obj jsonPath of
                  Inl err \<Rightarrow> Inl err
                | Inr v \<Rightarrow> normalizeExtractedValue nilOk lib v)))"

section \<open>Event streams\<close>

definition isSSEChunk :: "string \<Rightarrow> bool" where
  "isSSEChunk s = list_ex (\<lambda>line. HasPrefix line sseDataPrefix \<or> HasPrefix line sseEventPrefix) (take 5 (split_on newline s))"

fun joinSSEFragments :: "any \<Rightarrow> string" where
  "joinSSEFragments (AStr s) = s"
| "joinSSEFragments (AArr xs) = concat (map (\<lambda>x. case as_str x of Some s \<Rightarrow> s | None \<Rightarrow> '''') xs)"
| "joinSSEFragments _ = ''''"

definition sseDelta :: "jsonlib \<Rightarrow> string \<Rightarrow> string \<Rightarrow> string" where
  "sseDelta lib jsonPath line =
     (case sseValue (TrimRight carriage line) of
        None \<Rightarrow> ''''
      | Some v \<Rightarrow>
          if v = sseDone \<or> v = '''' then ''''
          else case jpString lib v jsonPath of
            Inr t \<Rightarrow> t
          | Inl _ \<Rightarrow>
              (case unmarshalObject lib v of
                 Inl _ \<Rightarrow> v
               | Inr obj \<Rightarrow> (case jpValue lib obj jsonPath of Inl _ \<Rightarrow> v | Inr val \<Rightarrow> joinSSEFragments val)))"

definition extractSSEDeltaContent :: "jsonlib \<Rightarrow> string \<Rightarrow> string \<Rightarrow> string" where
  "extractSSEDeltaContent lib s jsonPath = concat (map (sseDelta lib jsonPath) (split_on newline s))"

text \<open>Text that ends with a line is extracted by itself.\<close>

lemma extract_append:
  "extractSSEDeltaContent lib (s @ newline # t) jsonPath = extractSSEDeltaContent lib s jsonPath @ extractSSEDeltaContent lib t jsonPath"
  by (simp add: extractSSEDeltaContent_def split_on_append)

section \<open>Texts\<close>

text \<open>\<^verbatim>\<open>^"|"$\<close> replaced by nothing.\<close>

definition textClean :: "string \<Rightarrow> string" where
  "textClean s =
     (let t = (case s of c # cs \<Rightarrow> if [c] = dquote then cs else s | [] \<Rightarrow> [])
      in if t \<noteq> [] \<and> [last t] = dquote then butlast t else t)"

text \<open>\<^verbatim>\<open>Split\<close> at the maximal runs of a class of bytes, and at each byte of a class.\<close>

function splitRuns :: "(char \<Rightarrow> bool) \<Rightarrow> string \<Rightarrow> string list" where
  "splitRuns p [] = [[]]"
| "splitRuns p (c # cs) =
     (if p c then [] # splitRuns p (dropWhile p cs)
      else case splitRuns p cs of [] \<Rightarrow> [[c]] | w # ws \<Rightarrow> (c # w) # ws)"
  by pat_completeness auto
termination
  by (relation "measure (\<lambda>(_, s). length s)") (auto simp: le_imp_less_Suc length_dropWhile_le)

fun splitEach :: "(char \<Rightarrow> bool) \<Rightarrow> string \<Rightarrow> string list" where
  "splitEach p [] = [[]]"
| "splitEach p (c # cs) =
     (if p c then [] # splitEach p cs else case splitEach p cs of [] \<Rightarrow> [[c]] | w # ws \<Rightarrow> (c # w) # ws)"

end
