(* ===== verification/SizeGuards.thy ===== *)
theory SizeGuards
  imports GuardText QuotaPhases "HOL-Library.Sublist"
begin

text \<open>
  The guardrails on the size of a text: \<^verbatim>\<open>word-count-guardrail\<close>, \<^verbatim>\<open>sentence-count-guardrail\<close> and
  \<^verbatim>\<open>content-length-guardrail\<close>. The three programs are copies of one another; what they share is written once,
  with the names and the ways of counting of each in a record \<open>guard\<close>, and the operations of each program are
  instances. The metadata of a response keeps the text (or the number of bytes) seen so far.
\<close>

section \<open>Parameters\<close>

record guard_params =
  gpEnabled :: bool
  gpMin :: int
  gpMax :: int
  gpJsonPath :: string
  gpStreamingJsonPath :: string
  gpInvert :: bool
  gpShowAssessment :: bool

definition optBool :: "params \<Rightarrow> string \<Rightarrow> bool \<Rightarrow> bool outcome" where
  "optBool m k d =
     (case map_of m k of
        None \<Rightarrow> Ret d
      | Some v \<Rightarrow> (case as_bool v of Some b \<Rightarrow> Ret b | None \<Rightarrow> Fail (quoted k @ '' must be a boolean'')))"

definition optString :: "params \<Rightarrow> string \<Rightarrow> string \<Rightarrow> string outcome" where
  "optString m k d =
     (case map_of m k of
        None \<Rightarrow> Ret d
      | Some v \<Rightarrow> (case as_str v of Some s \<Rightarrow> Ret s | None \<Rightarrow> Fail (quoted k @ '' must be a string'')))"

definition required :: "params \<Rightarrow> string \<Rightarrow> any outcome" where
  "required m k = (case map_of m k of None \<Rightarrow> Fail (quoted k @ '' parameter is required'') | Some v \<Rightarrow> Ret v)"

definition intParam :: "jsonlib \<Rightarrow> string \<Rightarrow> any \<Rightarrow> int outcome" where
  "intParam lib k raw = (case extractInt lib raw of Inl err \<Rightarrow> Fail (quoted k @ '' must be a number: '' @ err) | Inr n \<Rightarrow> Ret n)"

definition parseBounds :: "jsonlib \<Rightarrow> params \<Rightarrow> (int \<times> int) outcome" where
  "parseBounds lib m =
     andThen (required m ''min'') (\<lambda>minRaw.
     andThen (required m ''max'') (\<lambda>maxRaw.
     andThen (intParam lib ''min'' minRaw) (\<lambda>mn.
       if mn < 0 then Fail (quoted ''min'' @ '' cannot be negative'')
       else andThen (intParam lib ''max'' maxRaw) (\<lambda>mx.
         if mx \<le> 0 then Fail (quoted ''max'' @ '' must be greater than 0'')
         else if mn > mx then Fail (quoted ''min'' @ '' cannot be greater than '' @ quoted ''max'')
         else Ret (mn, mx)))))"

definition parseParams :: "jsonlib \<Rightarrow> params \<Rightarrow> bool \<Rightarrow> guard_params outcome" where
  "parseParams lib m isResponse =
     andThen (optBool m ''enabled'' (\<not> isResponse)) (\<lambda>enabled.
     andThen (if map_of m ''enabled'' = Some (ABool False) then Ret (0, 0) else parseBounds lib m) (\<lambda>(mn, mx).
     andThen (optString m ''jsonPath'' (if isResponse then ''$.choices[0].message.content'' else ''$.messages[-1].content'')) (\<lambda>jsonPath.
     andThen (optString m ''streamingJsonPath'' ''$.choices[0].delta.content'') (\<lambda>streamingJsonPath.
     andThen (optBool m ''invert'' False) (\<lambda>invert.
     andThen (optBool m ''showAssessment'' False) (\<lambda>showAssessment.
       Ret \<lparr>gpEnabled = enabled, gpMin = mn, gpMax = mx, gpJsonPath = jsonPath, gpStreamingJsonPath = streamingJsonPath,
         gpInvert = invert, gpShowAssessment = showAssessment\<rparr>))))))"

text \<open>The parameters of a flow; \<open>None\<close> where there are none.\<close>

definition getFlowParams :: "params \<Rightarrow> string \<Rightarrow> params option outcome" where
  "getFlowParams m flow =
     (case map_of m flow of
        None \<Rightarrow> Ret None
      | Some raw \<Rightarrow>
          (case as_map raw of
             None \<Rightarrow> Fail (quoted flow @ '' must be an object'')
           | Some fp \<Rightarrow> Ret (if fp = [] then None else Some fp)))"

record guard_policy =
  gdRequest :: "guard_params option"
  gdResponse :: "guard_params option"

definition parseFlow :: "jsonlib \<Rightarrow> params option \<Rightarrow> string \<Rightarrow> bool \<Rightarrow> guard_params option outcome" where
  "parseFlow lib fp flow isResponse =
     (case fp of
        None \<Rightarrow> Ret None
      | Some m \<Rightarrow> andThen (inContext (''invalid '' @ flow @ '' parameters: '') (parseParams lib m isResponse)) (\<lambda>gp. Ret (Some gp)))"

definition someFlow :: "guard_params option \<Rightarrow> guard_params option \<Rightarrow> guard_policy outcome" where
  "someFlow rq rs =
     (if rq = None \<and> rs = None then Fail (''at least one of '' @ quoted ''request'' @ '' or '' @ quoted ''response'' @ '' parameters must be provided'')
      else Ret \<lparr>gdRequest = rq, gdResponse = rs\<rparr>)"

definition newPolicy :: "jsonlib \<Rightarrow> params \<Rightarrow> guard_policy outcome" where
  "newPolicy lib m =
     andThen (getFlowParams m ''request'') (\<lambda>rqRaw.
     andThen (parseFlow lib rqRaw ''request'' False) (\<lambda>rq.
     andThen (getFlowParams m ''response'') (\<lambda>rsRaw.
     andThen (parseFlow lib rsRaw ''response'' True) (\<lambda>rs. someFlow rq rs))))"

definition word_newPolicy :: "jsonlib \<Rightarrow> params \<Rightarrow> guard_policy outcome" where
  "word_newPolicy lib m = newPolicy lib m"

definition sentence_newPolicy :: "jsonlib \<Rightarrow> params \<Rightarrow> guard_policy outcome" where
  "sentence_newPolicy lib m = newPolicy lib m"

text \<open>The length guardrail ignores a flow that is not an object.\<close>

definition length_newPolicy :: "jsonlib \<Rightarrow> params \<Rightarrow> guard_policy outcome" where
  "length_newPolicy lib m =
     andThen (parseFlow lib (as_map (index m ''request'')) ''request'' False) (\<lambda>rq.
     andThen (parseFlow lib (as_map (index m ''response'')) ''response'' True) (\<lambda>rs. someFlow rq rs))"

section \<open>Counting\<close>

definition re_space :: "char \<Rightarrow> bool" where
  "re_space c \<longleftrightarrow> (of_char c :: nat) \<in> {9, 10, 12, 13, 32}"

definition sentence_end :: "char \<Rightarrow> bool" where
  "sentence_end c \<longleftrightarrow> c \<in> {CHR ''.'', CHR ''!'', CHR ''?''}"

definition nonempty :: "string list \<Rightarrow> int" where
  "nonempty ws = int (length (filter (\<lambda>w. w \<noteq> '''') ws))"

definition nonblank :: "string list \<Rightarrow> int" where
  "nonblank ws = int (length (filter (\<lambda>w. TrimSpace w \<noteq> '''') ws))"

definition cleaned :: "string \<Rightarrow> string" where "cleaned text = TrimSpace (textClean text)"

definition wordCount :: "string \<Rightarrow> int" where
  "wordCount text = nonempty (splitRuns re_space (cleaned text))"

definition countWords :: "string \<Rightarrow> int" where
  "countWords text = nonblank (splitRuns re_space (cleaned text))"

definition sentenceCount :: "string \<Rightarrow> int" where
  "sentenceCount text = nonempty (splitEach sentence_end (cleaned text))"

definition countSentences :: "string \<Rightarrow> int" where
  "countSentences text = nonblank (splitEach sentence_end (cleaned text))"

definition byteCount :: "string \<Rightarrow> int" where
  "byteCount text = int (length (cleaned text))"

section \<open>Responses\<close>

text \<open>The guards: their names and messages, the counts for a payload, for the text of a buffered stream and for
  the text of a stream so far, and whether the error for a chunked JSON body ends the response.\<close>

record guard =
  gName :: string
  gType :: string
  gKind :: string
  gUnit :: string
  gViolation :: string
  gMeasured :: "int \<Rightarrow> string"
  gPayloadCount :: "string \<Rightarrow> int"
  gBufferedCount :: "string \<Rightarrow> int"
  gStreamCount :: "string \<Rightarrow> int"
  gNilText :: bool
  gTerminates :: bool
  gMetaContent :: string
  gMetaJsonBody :: string

definition wordGuard :: guard where
  "wordGuard = \<lparr>gName = ''word-count-guardrail'', gType = ''WORD_COUNT_GUARDRAIL'', gKind = ''word count'', gUnit = ''words'',
     gViolation = ''Violation of applied word count constraints detected'', gMeasured = (\<lambda>n. ''word count '' @ itoa n),
     gPayloadCount = wordCount, gBufferedCount = wordCount, gStreamCount = countWords, gNilText = True, gTerminates = True,
     gMetaContent = ''wordcountguardrail:accumulated_content'', gMetaJsonBody = ''wordcountguardrail:json_body''\<rparr>"

definition sentenceGuard :: guard where
  "sentenceGuard = \<lparr>gName = ''sentence-count-guardrail'', gType = ''SENTENCE_COUNT_GUARDRAIL'', gKind = ''sentence count'', gUnit = ''sentences'',
     gViolation = ''Violation of applied sentence count constraints detected'', gMeasured = (\<lambda>n. ''sentence count '' @ itoa n),
     gPayloadCount = sentenceCount, gBufferedCount = (\<lambda>t. countSentences (cleaned t)), gStreamCount = countSentences,
     gNilText = False, gTerminates = False,
     gMetaContent = ''sentencecountguardrail:accumulated_content'', gMetaJsonBody = ''sentencecountguardrail:json_body''\<rparr>"

definition lengthGuard :: guard where
  "lengthGuard = \<lparr>gName = ''content-length-guardrail'', gType = ''CONTENT_LENGTH_GUARDRAIL'', gKind = ''content length'', gUnit = ''bytes'',
     gViolation = ''Violation of applied content length constraints detected.'', gMeasured = (\<lambda>n. ''content length '' @ itoa n @ '' bytes''),
     gPayloadCount = byteCount, gBufferedCount = byteCount, gStreamCount = (\<lambda>t. int (length t)), gNilText = False, gTerminates = True,
     gMetaContent = ''contentlengthguardrail:response_bytes'', gMetaJsonBody = ''contentlengthguardrail:json_body''\<rparr>"

definition buildAssessmentObject :: "guard \<Rightarrow> string \<Rightarrow> string option \<Rightarrow> bool \<Rightarrow> guard_params \<Rightarrow> any" where
  "buildAssessmentObject g reason validationError isResponse gp =
     AMap ([(''action'', AStr ''GUARDRAIL_INTERVENED''), (''interveningGuardrail'', AStr (gName g)),
        (''direction'', AStr (if isResponse then ''RESPONSE'' else ''REQUEST'')),
        (''actionReason'', AStr (case validationError of Some _ \<Rightarrow> reason | None \<Rightarrow> gViolation g))] @
       (if gpShowAssessment gp then
          [(''assessments'', AStr (case validationError of
             Some err \<Rightarrow> err
           | None \<Rightarrow> ''Violation of '' @ gKind g @ '' detected. Expected '' @ gKind g @ '' to be '' @
               (if Contains reason ''excluded range'' then ''outside the range of '' @ itoa (gpMin gp) @ '' to '' @ itoa (gpMax gp)
                else ''between '' @ itoa (gpMin gp) @ '' and '' @ itoa (gpMax gp)) @ '' '' @ gUnit g @ ''.''))] else []))"

definition errorBody :: "jsonlib \<Rightarrow> guard \<Rightarrow> any \<Rightarrow> string" where
  "errorBody lib g assessment =
     (case marshalAny lib (AMap [(''type'', AStr (gType g)), (''message'', assessment)]) of
        Inr b \<Rightarrow> b
      | Inl _ \<Rightarrow> ''{'' @ inDquotes ''type'' @ '':'' @ inDquotes (gType g) @ '','' @ inDquotes ''message'' @ '':'' @ inDquotes ''Internal error'' @ ''}'')"

text \<open>The response that replaces a request or a response.\<close>

record guard_response =
  grStatus :: int
  grHeaders :: header
  grBody :: string
  grAnalytics :: params

definition buildErrorResponse :: "jsonlib \<Rightarrow> guard \<Rightarrow> string \<Rightarrow> string option \<Rightarrow> bool \<Rightarrow> guard_params \<Rightarrow> guard_response" where
  "buildErrorResponse lib g reason validationError isResponse gp =
     \<lparr>grStatus = 422, grHeaders = [(''Content-Type'', ''application/json'')],
      grBody = errorBody lib g (buildAssessmentObject g reason validationError isResponse gp),
      grAnalytics = [(''isGuardrailHit'', ABool True), (''guardrailName'', AStr (gName g))]\<rparr>"

definition buildSSEErrorEvent :: "jsonlib \<Rightarrow> guard \<Rightarrow> string \<Rightarrow> guard_params \<Rightarrow> string" where
  "buildSSEErrorEvent lib g reason gp =
     sseDataPrefix @ errorBody lib g (buildAssessmentObject g reason None True gp) @ [newline, newline]"

definition inRange :: "guard_params \<Rightarrow> int \<Rightarrow> bool" where
  "inRange gp n \<longleftrightarrow> gpMin gp \<le> n \<and> n \<le> gpMax gp"

definition accepts :: "guard_params \<Rightarrow> int \<Rightarrow> bool" where
  "accepts gp n = (if gpInvert gp then \<not> inRange gp n else inRange gp n)"

definition rangeText :: "guard \<Rightarrow> guard_params \<Rightarrow> string" where
  "rangeText g gp = itoa (gpMin gp) @ ''-'' @ itoa (gpMax gp) @ '' '' @ gUnit g"

definition rangeReason :: "guard \<Rightarrow> guard_params \<Rightarrow> int \<Rightarrow> string" where
  "rangeReason g gp n =
     gMeasured g n @ (if gpInvert gp then '' is within the excluded range '' else '' is outside the allowed range '') @ rangeText g gp"

text \<open>\<open>None\<close> lets the message pass.\<close>

definition validateCount :: "jsonlib \<Rightarrow> guard \<Rightarrow> int \<Rightarrow> guard_params \<Rightarrow> bool \<Rightarrow> guard_response option" where
  "validateCount lib g n gp isResponse =
     (if accepts gp n then None else Some (buildErrorResponse lib g (rangeReason g gp n) None isResponse gp))"

section \<open>Hooks\<close>

definition active :: "guard_params option \<Rightarrow> guard_params option" where
  "active flow = (case flow of Some gp \<Rightarrow> if gpEnabled gp then Some gp else None | None \<Rightarrow> None)"

definition validatePayload :: "jsonlib \<Rightarrow> guard \<Rightarrow> string \<Rightarrow> guard_params \<Rightarrow> bool \<Rightarrow> guard_response option" where
  "validatePayload lib g payload gp isResponse =
     (case extractStringFromJSONPath (gNilText g) lib payload (gpJsonPath gp) of
        Inl err \<Rightarrow> Some (buildErrorResponse lib g ''Error extracting value from JSONPath'' (Some err) isResponse gp)
      | Inr text \<Rightarrow> validateCount lib g (gPayloadCount g text) gp isResponse)"

text \<open>The content of a body; a missing body is empty.\<close>

definition contentOf :: "string option \<Rightarrow> string" where
  "contentOf b = (case b of Some c \<Rightarrow> c | None \<Rightarrow> '''')"

definition guard_OnRequestBody :: "jsonlib \<Rightarrow> guard \<Rightarrow> guard_policy \<Rightarrow> string option \<Rightarrow> guard_response option" where
  "guard_OnRequestBody lib g p bdy =
     (case active (gdRequest p) of None \<Rightarrow> None | Some gp \<Rightarrow> validatePayload lib g (contentOf bdy) gp False)"

definition guard_OnResponseBody :: "jsonlib \<Rightarrow> guard \<Rightarrow> guard_policy \<Rightarrow> string option \<Rightarrow> guard_response option" where
  "guard_OnResponseBody lib g p bdy =
     (case active (gdResponse p) of
        None \<Rightarrow> None
      | Some gp \<Rightarrow>
          if isSSEChunk (contentOf bdy) then
            validateCount lib g (gBufferedCount g (extractSSEDeltaContent lib (contentOf bdy) (gpStreamingJsonPath gp))) gp True
          else validatePayload lib g (contentOf bdy) gp True)"

definition guard_NeedsMoreResponseData :: "jsonlib \<Rightarrow> guard \<Rightarrow> guard_policy \<Rightarrow> string \<Rightarrow> bool" where
  "guard_NeedsMoreResponseData lib g p s =
     (case active (gdResponse p) of
        None \<Rightarrow> False
      | Some gp \<Rightarrow>
          if \<not> isSSEChunk s \<or> Contains s (sseDataPrefix @ sseDone) then False
          else let n = gStreamCount g (extractSSEDeltaContent lib s (gpStreamingJsonPath gp)) in
            if gpInvert gp then n \<le> gpMax gp else 0 < gpMin gp \<and> n < gpMin gp)"

datatype chunk_action = ForwardChunk "string option" | TerminateChunk string

definition strOf :: "params \<Rightarrow> string \<Rightarrow> string" where
  "strOf md k = (case as_str (index md k) of Some s \<Rightarrow> s | None \<Rightarrow> '''')"

definition belowMinimum :: "jsonlib \<Rightarrow> guard \<Rightarrow> guard_params \<Rightarrow> int \<Rightarrow> chunk_action" where
  "belowMinimum lib g gp n =
     TerminateChunk (buildSSEErrorEvent lib g (gMeasured g n @ '' is below minimum of '' @ itoa (gpMin gp) @ '' '' @ gUnit g) gp)"

definition excluded :: "jsonlib \<Rightarrow> guard \<Rightarrow> guard_params \<Rightarrow> int \<Rightarrow> chunk_action" where
  "excluded lib g gp n =
     TerminateChunk (buildSSEErrorEvent lib g (gMeasured g n @ '' is within the excluded range '' @ rangeText g gp) gp)"

text \<open>A chunk that is no event of a stream: the pieces of a JSON body, or a blank end after the events.\<close>

definition jsonChunk :: "jsonlib \<Rightarrow> guard \<Rightarrow> guard_params \<Rightarrow> string \<Rightarrow> bool \<Rightarrow> params \<Rightarrow> params \<times> chunk_action" where
  "jsonChunk lib g gp chunk eos md =
     (let full = strOf md (gMetaJsonBody g) @ chunk; md = AList.update (gMetaJsonBody g) (AStr full) md in
      if \<not> eos then (md, ForwardChunk None)
      else if TrimSpace full = '''' then
        (let n = gStreamCount g (strOf md (gMetaContent g)) in
         (md, if \<not> gpInvert gp then if n < gpMin gp then belowMinimum lib g gp n else ForwardChunk None
              else if inRange gp n then excluded lib g gp n else ForwardChunk None))
      else
        (md, case validatePayload lib g full gp True of
               None \<Rightarrow> ForwardChunk None
             | Some r \<Rightarrow> if gTerminates g then TerminateChunk (grBody r) else ForwardChunk (Some (grBody r))))"

definition guard_OnResponseBodyChunk :: "jsonlib \<Rightarrow> guard \<Rightarrow> guard_policy \<Rightarrow> string \<Rightarrow> bool \<Rightarrow> params \<Rightarrow> params \<times> chunk_action" where
  "guard_OnResponseBodyChunk lib g p chunk eos md =
     (case active (gdResponse p) of
        None \<Rightarrow> (md, ForwardChunk None)
      | Some gp \<Rightarrow>
          if chunk = '''' then (md, ForwardChunk None)
          else if \<not> isSSEChunk chunk then jsonChunk lib g gp chunk eos md
          else
            let full = strOf md (gMetaContent g) @ extractSSEDeltaContent lib chunk (gpStreamingJsonPath gp);
                md = AList.update (gMetaContent g) (AStr full) md; n = gStreamCount g full
            in (md,
                if \<not> gpInvert gp then
                  if 0 < gpMax gp \<and> gpMax gp < n then
                    TerminateChunk (buildSSEErrorEvent lib g (gMeasured g n @ '' exceeded maximum of '' @ itoa (gpMax gp) @ '' '' @ gUnit g) gp)
                  else if eos \<and> n < gpMin gp then belowMinimum lib g gp n else ForwardChunk None
                else if eos \<and> inRange gp n then excluded lib g gp n else ForwardChunk None))"

text \<open>The operations of the two counting guardrails.\<close>

definition word_OnRequestBody :: "jsonlib \<Rightarrow> guard_policy \<Rightarrow> string option \<Rightarrow> guard_response option" where
  "word_OnRequestBody lib = guard_OnRequestBody lib wordGuard"

definition word_OnResponseBody :: "jsonlib \<Rightarrow> guard_policy \<Rightarrow> string option \<Rightarrow> guard_response option" where
  "word_OnResponseBody lib = guard_OnResponseBody lib wordGuard"

definition word_NeedsMoreResponseData :: "jsonlib \<Rightarrow> guard_policy \<Rightarrow> string \<Rightarrow> bool" where
  "word_NeedsMoreResponseData lib = guard_NeedsMoreResponseData lib wordGuard"

definition word_OnResponseBodyChunk :: "jsonlib \<Rightarrow> guard_policy \<Rightarrow> string \<Rightarrow> bool \<Rightarrow> params \<Rightarrow> params \<times> chunk_action" where
  "word_OnResponseBodyChunk lib = guard_OnResponseBodyChunk lib wordGuard"

definition sentence_OnRequestBody :: "jsonlib \<Rightarrow> guard_policy \<Rightarrow> string option \<Rightarrow> guard_response option" where
  "sentence_OnRequestBody lib = guard_OnRequestBody lib sentenceGuard"

definition sentence_OnResponseBody :: "jsonlib \<Rightarrow> guard_policy \<Rightarrow> string option \<Rightarrow> guard_response option" where
  "sentence_OnResponseBody lib = guard_OnResponseBody lib sentenceGuard"

definition sentence_NeedsMoreResponseData :: "jsonlib \<Rightarrow> guard_policy \<Rightarrow> string \<Rightarrow> bool" where
  "sentence_NeedsMoreResponseData lib = guard_NeedsMoreResponseData lib sentenceGuard"

definition sentence_OnResponseBodyChunk :: "jsonlib \<Rightarrow> guard_policy \<Rightarrow> string \<Rightarrow> bool \<Rightarrow> params \<Rightarrow> params \<times> chunk_action" where
  "sentence_OnResponseBodyChunk lib = guard_OnResponseBodyChunk lib sentenceGuard"

text \<open>The length guardrail: the text has to be a string at the path, a missing request body is an error, a
  buffered response is never read as a stream, and a stream counts bytes.\<close>

definition length_validatePayload :: "jsonlib \<Rightarrow> string \<Rightarrow> guard_params \<Rightarrow> bool \<Rightarrow> guard_response option" where
  "length_validatePayload lib payload gp isResponse =
     (case jpString lib payload (gpJsonPath gp) of
        Inl err \<Rightarrow> Some (buildErrorResponse lib lengthGuard ''Error extracting value from JSONPath'' (Some err) isResponse gp)
      | Inr text \<Rightarrow> validateCount lib lengthGuard (byteCount text) gp isResponse)"

definition length_OnRequestBody :: "jsonlib \<Rightarrow> guard_policy \<Rightarrow> string option \<Rightarrow> guard_response option" where
  "length_OnRequestBody lib p bdy =
     (case active (gdRequest p) of
        None \<Rightarrow> None
      | Some gp \<Rightarrow>
          (case bdy of
             None \<Rightarrow> Some \<lparr>grStatus = 422, grHeaders = [(''Content-Type'', ''application/json'')],
               grBody = ''{'' @ inDquotes ''type'' @ '':'' @ inDquotes ''CONTENT_LENGTH_GUARDRAIL'' @ '','' @ inDquotes ''message'' @ '':'' @
                 inDquotes ''Request body is absent or could not be buffered'' @ ''}'', grAnalytics = []\<rparr>
           | Some content \<Rightarrow> length_validatePayload lib content gp False))"

definition length_OnResponseBody :: "jsonlib \<Rightarrow> guard_policy \<Rightarrow> string option \<Rightarrow> guard_response option" where
  "length_OnResponseBody lib p bdy =
     (case active (gdResponse p) of None \<Rightarrow> None | Some gp \<Rightarrow> length_validatePayload lib (contentOf bdy) gp True)"

definition length_NeedsMoreResponseData :: "jsonlib \<Rightarrow> guard_policy \<Rightarrow> string \<Rightarrow> bool" where
  "length_NeedsMoreResponseData lib = guard_NeedsMoreResponseData lib lengthGuard"

definition intOf :: "params \<Rightarrow> string \<Rightarrow> int" where
  "intOf md k = (case as_int (index md k) of Some n \<Rightarrow> n | None \<Rightarrow> 0)"

definition length_OnResponseBodyChunk :: "jsonlib \<Rightarrow> guard_policy \<Rightarrow> string \<Rightarrow> bool \<Rightarrow> params \<Rightarrow> params \<times> chunk_action" where
  "length_OnResponseBodyChunk lib p chunk eos md =
     (case active (gdResponse p) of
        None \<Rightarrow> (md, ForwardChunk None)
      | Some gp \<Rightarrow>
          if chunk = '''' then (md, ForwardChunk None)
          else if \<not> isSSEChunk chunk then
            (let full = strOf md (gMetaJsonBody lengthGuard) @ chunk; md = AList.update (gMetaJsonBody lengthGuard) (AStr full) md in
             if \<not> eos then (md, ForwardChunk None)
             else (md, case length_validatePayload lib full gp True of None \<Rightarrow> ForwardChunk None | Some r \<Rightarrow> TerminateChunk (grBody r)))
          else
            let running = intOf md (gMetaContent lengthGuard) + int (length (extractSSEDeltaContent lib chunk (gpStreamingJsonPath gp)));
                md = AList.update (gMetaContent lengthGuard) (AInt running) md;
                ranged = (gpMin gp \<le> running \<and> (gpMax gp = 0 \<or> running \<le> gpMax gp));
                passed = (if gpInvert gp then \<not> ranged else ranged)
            in (md,
                if 0 < gpMax gp \<and> \<not> gpInvert gp \<and> gpMax gp < running then
                  TerminateChunk (buildSSEErrorEvent lib lengthGuard (gMeasured lengthGuard running @ '' is outside the allowed range '' @ rangeText lengthGuard gp) gp)
                else if eos \<and> \<not> passed then TerminateChunk (buildSSEErrorEvent lib lengthGuard (rangeReason lengthGuard gp running) gp)
                else ForwardChunk None))"

text \<open>The body modes of the request and of the response, the same for the three.\<close>

definition guard_Mode :: "body_mode \<times> body_mode" where
  "guard_Mode = (BodyModeBuffer, BodyModeStream)"

section \<open>Counts grow with the text\<close>

lemma TrimSpace_empty: "TrimSpace s = '''' \<longleftrightarrow> list_all is_space s"
proof -
  have "dropWhile is_space (rev (dropWhile is_space s)) = [] \<longleftrightarrow> dropWhile is_space s = []"
    by (metis dropWhile.simps(1) dropWhile_eq_Nil_conv hd_dropWhile list.set_sel(1) rev.simps(1) set_rev)
  then show ?thesis by (simp add: TrimSpace_def list_all_iff dropWhile_eq_Nil_conv)
qed

lemma prefix_dropWhile: "prefix a b \<Longrightarrow> dropWhile p a \<noteq> [] \<Longrightarrow> prefix (dropWhile p a) (dropWhile p b)"
  by (auto simp: prefix_def dropWhile_append dropWhile_eq_Nil_conv)

lemma trim_right_prefix: "prefix a b \<Longrightarrow> prefix (rev (dropWhile p (rev a))) (rev (dropWhile p (rev b)))"
proof -
  assume "prefix a b"
  then obtain u where b: "b = a @ u" by (auto simp: prefix_def)
  have "prefix (rev (dropWhile p (rev a))) a" by (metis rev_rev_ident suffix_dropWhile suffix_to_prefix)
  then show ?thesis unfolding b by (auto simp: dropWhile_append intro: prefix_order.trans)
qed

lemma TrimSpace_prefix: "prefix a b \<Longrightarrow> prefix (TrimSpace a) (TrimSpace b)"
  unfolding TrimSpace_def using prefix_dropWhile trim_right_prefix by (metis dropWhile.simps(1) prefix_bot.bot_least rev.simps(1))

lemma textClean_prefix: "prefix a b \<Longrightarrow> prefix (textClean a) (textClean b)"
proof -
  assume "prefix a b"
  then obtain u where b: "b = a @ u" by (auto simp: prefix_def)
  let ?t = "\<lambda>s :: string. case s of c # cs \<Rightarrow> if [c] = dquote then cs else s | [] \<Rightarrow> []"
  let ?r = "\<lambda>t. if t \<noteq> [] \<and> [last t] = dquote then butlast t else t"
  show ?thesis
  proof (cases a)
    case (Cons c cs)
    then have t: "?t b = ?t a @ u" using b by simp
    have "prefix (?r t) (?r (t @ u))" for t by (cases u rule: rev_cases) (auto simp: butlast_append prefixeq_butlast intro: prefix_order.trans)
    then show ?thesis using t by (simp add: textClean_def Let_def)
  qed (simp add: textClean_def)
qed

lemma cleaned_prefix: "prefix a b \<Longrightarrow> prefix (cleaned a) (cleaned b)"
  by (simp add: cleaned_def TrimSpace_prefix textClean_prefix)

text \<open>The pieces of a longer text: the last one may go on.\<close>

definition goesOn :: "string list \<Rightarrow> string list \<Rightarrow> bool" where
  "goesOn ws xs \<longleftrightarrow> (\<exists>us w v vs. ws = us @ [w] \<and> xs = us @ (w @ v) # vs)"

lemma goesOn_Cons: "goesOn ws xs \<Longrightarrow> goesOn (y # ws) (y # xs)"
  unfolding goesOn_def by (metis append_Cons)

lemma goesOn_head: "goesOn (w # ws) (x # xs) \<Longrightarrow> goesOn ((c # w) # ws) ((c # x) # xs)"
  unfolding goesOn_def by (auto simp: Cons_eq_append_conv)

lemma splitRuns_nonempty [simp]: "splitRuns p s \<noteq> []"
  by (cases s) (auto split: list.splits)

lemma splitEach_nonempty [simp]: "splitEach p s \<noteq> []"
  by (cases s) (auto split: list.splits)

lemma goesOn_start: "ws \<noteq> [] \<Longrightarrow> goesOn [[]] ws"
  unfolding goesOn_def by (cases ws) auto

lemma splitRuns_goesOn: "goesOn (splitRuns p s) (splitRuns p (s @ u))"
proof (induction p s rule: splitRuns.induct)
  case (1 p)
  then show ?case by (simp add: goesOn_start)
next
  case (2 p c cs)
  show ?case
  proof (cases "p c")
    case True
    show ?thesis
    proof (cases "dropWhile p cs = []")
      case d: True
      then have "dropWhile p (cs @ u) = dropWhile p u" by (simp add: dropWhile_append dropWhile_eq_Nil_conv)
      then show ?thesis using True by (simp add: d goesOn_Cons goesOn_start del: dropWhile_eq_Nil_conv)
    next
      case False
      then have "dropWhile p (cs @ u) = dropWhile p cs @ u" by (auto simp: dropWhile_append dropWhile_eq_Nil_conv)
      then show ?thesis using True "2.IH"(1) [OF True] by (simp add: goesOn_Cons)
    qed
  next
    case False
    obtain w ws x xs where "splitRuns p cs = w # ws" "splitRuns p (cs @ u) = x # xs" by (meson neq_Nil_conv splitRuns_nonempty)
    then show ?thesis using False "2.IH"(2) [OF False] by (simp add: goesOn_head)
  qed
qed

lemma splitEach_goesOn: "goesOn (splitEach p s) (splitEach p (s @ u))"
proof (induction s)
  case Nil
  then show ?case by (simp add: goesOn_start)
next
  case (Cons c cs)
  obtain w ws x xs where "splitEach p cs = w # ws" "splitEach p (cs @ u) = x # xs" by (meson neq_Nil_conv splitEach_nonempty)
  then show ?case using Cons by (simp add: goesOn_head goesOn_Cons)
qed

lemma nonblank_goesOn: "goesOn ws xs \<Longrightarrow> nonblank ws \<le> nonblank xs"
  unfolding goesOn_def nonblank_def by (auto simp: TrimSpace_empty)

lemma countWords_mono: "countWords t \<le> countWords (t @ u)"
proof -
  obtain v where "cleaned (t @ u) = cleaned t @ v" using cleaned_prefix [of t "t @ u"] by (auto simp: prefix_def)
  then show ?thesis using nonblank_goesOn [OF splitRuns_goesOn] by (simp add: countWords_def)
qed

lemma countSentences_mono: "countSentences t \<le> countSentences (t @ u)"
proof -
  obtain v where "cleaned (t @ u) = cleaned t @ v" using cleaned_prefix [of t "t @ u"] by (auto simp: prefix_def)
  then show ?thesis using nonblank_goesOn [OF splitEach_goesOn] by (simp add: countSentences_def)
qed

section \<open>Streams\<close>

text \<open>Whether every chunk of a stream is forwarded as it is.\<close>

fun allForwarded :: "(string \<Rightarrow> bool \<Rightarrow> params \<Rightarrow> params \<times> chunk_action) \<Rightarrow> (string \<times> bool) list \<Rightarrow> params \<Rightarrow> bool" where
  "allForwarded step [] md = True"
| "allForwarded step ((chunk, eos) # cs) md =
     (case step chunk eos md of (md', ForwardChunk None) \<Rightarrow> allForwarded step cs md' | _ \<Rightarrow> False)"

text \<open>A chunk of whole lines with an event among the first of them.\<close>

definition wholeEvents :: "string \<Rightarrow> bool" where
  "wholeEvents c \<longleftrightarrow> isSSEChunk c \<and> (\<exists>s. c = s @ [newline])"

lemma split_on_set: "w \<in> set (split_on c s) \<Longrightarrow> set w \<subseteq> set s"
  by (induction s arbitrary: w) (fastforce split: if_splits list.splits)+

lemma blank_line: "list_all is_space w \<Longrightarrow> sseValue w = None \<and> \<not> HasPrefix w sseDataPrefix \<and> \<not> HasPrefix w sseEventPrefix"
  by (cases w) (auto simp: sseValue_def HasPrefix_def sseDataPrefix_def sseEventPrefix_def is_space_def)

lemma blank_lines:
  assumes "list_all is_space e"
  shows "\<not> isSSEChunk e" "extractSSEDeltaContent lib e jp = ''''"
proof -
  have l: "list_all is_space w" if "w \<in> set (split_on newline e)" for w
    using assms split_on_set [OF that] by (auto simp: list_all_iff)
  then show "\<not> isSSEChunk e" using blank_line by (fastforce simp: isSSEChunk_def list_ex_iff dest: in_set_takeD)
  have "list_all is_space (TrimRight carriage w)" if "w \<in> set (split_on newline e)" for w
    using l [OF that] by (auto simp: TrimRight_def list_all_iff dest: set_dropWhileD)
  then show "extractSSEDeltaContent lib e jp = ''''" using blank_line by (auto simp: extractSSEDeltaContent_def sseDelta_def)
qed

lemma extract_whole: "wholeEvents c \<Longrightarrow> extractSSEDeltaContent lib (c @ t) jp = extractSSEDeltaContent lib c jp @ extractSSEDeltaContent lib t jp"
proof -
  assume "wholeEvents c"
  then obtain s where c: "c = s @ [newline]" by (auto simp: wholeEvents_def)
  have "extractSSEDeltaContent lib [] jp = ''''" using blank_lines [of "[]"] by simp
  then show ?thesis using extract_append [of lib s t jp] extract_append [of lib s "[]" jp] by (simp add: c)
qed

text \<open>The verdict on a stream with \<open>n\<close> counted that ends with the chunk \<open>e\<close>.\<close>

definition streamVerdict :: "guard_params \<Rightarrow> string \<Rightarrow> int \<Rightarrow> bool" where
  "streamVerdict gp e n = (if e = '''' then gpInvert gp \<or> n \<le> gpMax gp else accepts gp n)"

lemma strOf_update: "strOf (AList.update k (AStr s) md) k' = (if k = k' then s else strOf md k')"
  by (simp add: strOf_def index_def AList.update_conv')

text \<open>What the hooks ask of a way of counting: it grows with the text; and of the metadata: two keys.\<close>

locale size_guard =
  fixes g :: guard
  assumes grows: "gStreamCount g t \<le> gStreamCount g (t @ u)"
    and nothing: "gStreamCount g '''' = 0"
    and keys: "gMetaContent g \<noteq> gMetaJsonBody g"
begin

lemma event_chunk:
  assumes "active (gdResponse p) = Some gp" "isSSEChunk c" "c \<noteq> ''''" "0 < gpMax gp"
    and "n = gStreamCount g (strOf md (gMetaContent g) @ extractSSEDeltaContent lib c (gpStreamingJsonPath gp))"
  shows "guard_OnResponseBodyChunk lib g p c eos md =
      (AList.update (gMetaContent g) (AStr (strOf md (gMetaContent g) @ extractSSEDeltaContent lib c (gpStreamingJsonPath gp))) md,
       snd (guard_OnResponseBodyChunk lib g p c eos md)) \<and>
    (snd (guard_OnResponseBodyChunk lib g p c eos md) = ForwardChunk None \<longleftrightarrow>
      (gpInvert gp \<or> n \<le> gpMax gp) \<and> (eos \<longrightarrow> accepts gp n))"
  using assms by (auto simp: guard_OnResponseBodyChunk_def Let_def belowMinimum_def excluded_def accepts_def inRange_def)

lemma last_chunk:
  assumes "active (gdResponse p) = Some gp" "0 < gpMax gp" "map_of md (gMetaJsonBody g) = None"
    and "e = '''' \<or> list_all is_space e \<or> wholeEvents e"
    and "gpInvert gp \<or> gStreamCount g (strOf md (gMetaContent g)) \<le> gpMax gp"
  shows "allForwarded (guard_OnResponseBodyChunk lib g p) [(e, True)] md \<longleftrightarrow>
    streamVerdict gp e (gStreamCount g (strOf md (gMetaContent g) @ extractSSEDeltaContent lib e (gpStreamingJsonPath gp)))"
proof (cases "e = ''''")
  case True
  then show ?thesis using assms(1,5) blank_lines [of "[]"] by (simp add: guard_OnResponseBodyChunk_def streamVerdict_def)
next
  case False
  show ?thesis
  proof (cases "isSSEChunk e")
    case True
    then show ?thesis using event_chunk [OF assms(1) True False assms(2) refl, where md = md and lib = lib and eos = True] False
      by (auto simp: streamVerdict_def accepts_def inRange_def split: prod.splits chunk_action.splits option.splits)
  next
    case sse: False
    then have b: "list_all is_space e" using assms(4) by (auto simp: wholeEvents_def False)
    have "strOf md (gMetaJsonBody g) = ''''" using assms(3) by (simp add: strOf_def index_def)
    then show ?thesis using assms(1,5) False sse blank_lines(2) [OF b] b keys
      by (auto simp: guard_OnResponseBodyChunk_def jsonChunk_def Let_def TrimSpace_empty strOf_update streamVerdict_def accepts_def inRange_def
        belowMinimum_def excluded_def)
  qed
qed

lemma stream_decides:
  assumes "active (gdResponse p) = Some gp" "0 < gpMax gp" "e = '''' \<or> list_all is_space e \<or> wholeEvents e"
  shows "list_all wholeEvents cs \<Longrightarrow> map_of md (gMetaJsonBody g) = None \<Longrightarrow> gpInvert gp \<or> gStreamCount g (strOf md (gMetaContent g)) \<le> gpMax gp \<Longrightarrow>
    allForwarded (guard_OnResponseBodyChunk lib g p) (map (\<lambda>c. (c, False)) cs @ [(e, True)]) md \<longleftrightarrow>
    streamVerdict gp e (gStreamCount g (strOf md (gMetaContent g) @ extractSSEDeltaContent lib (concat cs @ e) (gpStreamingJsonPath gp)))"
proof (induction cs arbitrary: md)
  case Nil
  then show ?case using last_chunk [OF assms(1,2) _ assms(3)] by simp
next
  case (Cons c cs)
  let ?seen = "strOf md (gMetaContent g)" and ?x = "extractSSEDeltaContent lib c (gpStreamingJsonPath gp)"
  let ?rest = "extractSSEDeltaContent lib (concat cs @ e) (gpStreamingJsonPath gp)"
  let ?md = "AList.update (gMetaContent g) (AStr (?seen @ ?x)) md"
  have c: "isSSEChunk c" "c \<noteq> ''''" "wholeEvents c" using Cons.prems(1) by (auto simp: wholeEvents_def)
  note step = event_chunk [OF assms(1) c(1,2) assms(2) refl, where md = md and lib = lib and eos = False]
  have ext: "extractSSEDeltaContent lib (concat (c # cs) @ e) (gpStreamingJsonPath gp) = ?x @ ?rest" using extract_whole [OF c(3)] by simp
  show ?case
  proof (cases "gpInvert gp \<or> gStreamCount g (?seen @ ?x) \<le> gpMax gp")
    case True
    then have "guard_OnResponseBodyChunk lib g p c False md = (?md, ForwardChunk None)" using step by metis
    moreover have "strOf ?md (gMetaContent g) = ?seen @ ?x" "map_of ?md (gMetaJsonBody g) = None"
      using Cons.prems(2) keys by (simp_all add: strOf_update AList.update_conv')
    ultimately show ?thesis using Cons.IH [of ?md] Cons.prems(1) True ext by simp
  next
    case False
    then have "snd (guard_OnResponseBodyChunk lib g p c False md) \<noteq> ForwardChunk None" using step by metis
    moreover have "gStreamCount g (?seen @ ?x) \<le> gStreamCount g (?seen @ ?x @ ?rest)" using grows [of "?seen @ ?x" ?rest] by simp
    ultimately show ?thesis using False ext
      by (auto simp: streamVerdict_def accepts_def inRange_def split: prod.splits chunk_action.splits option.splits)
  qed
qed

end

interpretation words: size_guard wordGuard
  by unfold_locales (simp_all add: wordGuard_def countWords_mono, simp add: countWords_def cleaned_def textClean_def TrimSpace_def nonblank_def)

interpretation sentences: size_guard sentenceGuard
  by unfold_locales (simp_all add: sentenceGuard_def countSentences_mono, simp add: countSentences_def cleaned_def textClean_def TrimSpace_def nonblank_def)

section \<open>Properties\<close>

lemma parseParams_bounds:
  assumes "parseParams lib m isResponse = Ret gp" "gpEnabled gp"
  shows "0 \<le> gpMin gp \<and> gpMin gp \<le> gpMax gp \<and> 0 < gpMax gp"
proof -
  obtain mn mx where b: "(if map_of m ''enabled'' = Some (ABool False) then Ret (0, 0) else parseBounds lib m) = Ret (mn, mx)"
    "gpMin gp = mn" "gpMax gp = mx" "optBool m ''enabled'' (\<not> isResponse) = Ret (gpEnabled gp)"
    using assms(1) by (auto simp: parseParams_def andThen_Ret)
  have "map_of m ''enabled'' \<noteq> Some (ABool False)" using b(4) assms(2) by (auto simp: optBool_def)
  then show ?thesis using b by (auto simp: parseBounds_def andThen_Ret split: if_splits)
qed

lemma newPolicy_bounds:
  assumes "newPolicy lib m = Ret p" "active (gdResponse p) = Some gp"
  shows "0 \<le> gpMin gp \<and> gpMin gp \<le> gpMax gp \<and> 0 < gpMax gp"
proof -
  have "\<exists>fp. parseParams lib fp True = Ret gp" "gpEnabled gp"
    using assms by (auto simp: newPolicy_def andThen_Ret someFlow_def parseFlow_def active_def split: if_splits option.splits)
  then show ?thesis using parseParams_bounds by blast
qed


definition sample_lib :: jsonlib where
  "sample_lib = \<lparr>jpString = \<lambda>s _. Inr s, jpValue = \<lambda>_ _. Inl '''', unmarshalObject = \<lambda>_. Inl '''', marshalAny = \<lambda>_. Inr '''',
     formatFloat = \<lambda>_. '''', parseFloatText = \<lambda>_. Inl ''''\<rparr>"

definition sample_guard_params :: guard_params where
  "sample_guard_params = \<lparr>gpEnabled = True, gpMin = 2, gpMax = 3, gpJsonPath = ''$.choices[0].message.content'',
     gpStreamingJsonPath = ''$.choices[0].delta.content'', gpInvert = False, gpShowAssessment = False\<rparr>"

lemma sample_guard_policy:
  "newPolicy sample_lib [(''response'', AMap [(''enabled'', ABool True), (''min'', AInt 2), (''max'', AInt 3)])] =
    Ret \<lparr>gdRequest = None, gdResponse = Some sample_guard_params\<rparr>"
  by code_simp

definition sample_line :: "string \<Rightarrow> string" where "sample_line t = ''data: '' @ t @ [newline]"

lemma sample_counted:
  "isSSEChunk (sample_line ''one two'') \<and> isSSEChunk (sample_line ''[DONE]'') \<and>
   gStreamCount wordGuard (extractSSEDeltaContent sample_lib (sample_line ''one two'' @ sample_line ''[DONE]'') ''$.choices[0].delta.content'') = 2"
  by code_simp

lemma sample_stream: "wholeEvents (sample_line ''one two'')" "wholeEvents (sample_line ''[DONE]'')"
  using sample_counted by (auto simp: wholeEvents_def sample_line_def)


text \<open>The buffered and the streamed count of sentences differ on a blank sentence.\<close>

lemma sentence_counts_differ: "sentenceCount ''a. .b'' = 3" "countSentences ''a. .b'' = 2"
  by code_simp+

end
