(* ===== verification/EventStream.thy ===== *)
theory EventStream
  imports GoValue "HOL-Library.Word"
begin

unbundle bit_operations_syntax

text \<open>
  The binary framing of Amazon event streams, decoded twice in the repository: leniently, frame by frame as
  the bytes arrive, by \<^verbatim>\<open>openai-to-bedrock-transformer/eventstream.go\<close>, and strictly, over a complete body,
  by \<^verbatim>\<open>llm-cost/bedrock_eventstream.go\<close>. A slice \<^verbatim>\<open>data[offset:]\<close> is the list of the bytes left.
\<close>

section \<open>Big-endian integers\<close>

definition byteOf :: "char \<Rightarrow> 'a::len word" where
  "byteOf c = of_nat (of_char c)"

text \<open>\<^verbatim>\<open>binary.BigEndian\<close>; the callers have checked that the bytes are there.\<close>

fun Uint32 :: "string \<Rightarrow> 32 word" where
  "Uint32 (a # b # c # d # _) = byteOf d OR push_bit 8 (byteOf c) OR push_bit 16 (byteOf b) OR push_bit 24 (byteOf a)"
| "Uint32 _ = 0"

fun Uint16 :: "string \<Rightarrow> 16 word" where
  "Uint16 (a # b # _) = byteOf b OR push_bit 8 (byteOf a)"
| "Uint16 _ = 0"

section \<open>The lenient decoder\<close>

definition preludeLen :: nat where "preludeLen = 8"
definition preludeWithCRCLen :: nat where "preludeWithCRCLen = 12"
definition frameOverhead :: nat where "frameOverhead = 16"
definition minFrameLen :: nat where "minFrameLen = frameOverhead"
definition maxFrameLen :: nat where "maxFrameLen = 16 * 1024 * 1024"

record eventStreamFrame =
  EventType :: string
  MessageType :: string
  ExceptionType :: string
  Payload :: string

text \<open>The number of bytes of a value of a type; \<open>None\<close> where parsing stops. Byte arrays and strings
  have their length in front.\<close>

definition encodedLen :: "nat \<Rightarrow> string \<Rightarrow> nat option" where
  "encodedLen valueType rest =
     (if valueType \<in> {0, 1} then Some 0
      else if valueType = 2 then Some 1
      else if valueType = 3 then Some 2
      else if valueType = 4 then Some 4
      else if valueType \<in> {5, 8} then Some 8
      else if valueType = 9 then Some 16
      else if valueType \<in> {6, 7} then if length rest < 2 then None else Some (2 + unat (Uint16 rest))
      else None)"

text \<open>The headers with a string value so far, and the bytes left.\<close>

function parseHeadersLoop :: "(string \<times> string) list \<Rightarrow> string \<Rightarrow> (string \<times> string) list" where
  "parseHeadersLoop headers [] = headers"
| "parseHeadersLoop headers (n # rest) =
     (let nameLen = of_char n in
      if length rest < nameLen then headers
      else case drop nameLen rest of
        [] \<Rightarrow> headers
      | t # rest' \<Rightarrow>
          (case encodedLen (of_char t) rest' of
             None \<Rightarrow> headers
           | Some l \<Rightarrow>
               if length rest' < l then headers
               else parseHeadersLoop
                 (if (of_char t :: nat) = 7 then AList.update (take nameLen rest) (drop 2 (take l rest')) headers else headers)
                 (drop l rest')))"
  by pat_completeness auto
termination
proof (relation "measure (\<lambda>(_, rest). length rest)")
  fix headers :: "(string \<times> string) list" and rest rest' :: string and t n :: char and x l :: nat
  assume "drop x rest = t # rest'"
  then have "length rest' < length rest" by (metis drop_eq_Nil length_drop length_Cons less_eq_Suc_le linorder_not_less diff_le_self le_trans list.distinct(1))
  then show "((if (of_char t :: nat) = 7 then AList.update (take x rest) (drop 2 (take l rest')) headers else headers, drop l rest'), headers, n # rest)
    \<in> measure (\<lambda>(_, rest). length rest)" by simp
qed simp

definition parseHeaders :: "string \<Rightarrow> (string \<times> string) list" where
  "parseHeaders data = parseHeadersLoop [] data"

definition textOf :: "(string \<times> string) list \<Rightarrow> string \<Rightarrow> string" where
  "textOf m k = (case map_of m k of Some v \<Rightarrow> v | None \<Rightarrow> '''')"

datatype frame_result = FrameOK eventStreamFrame nat | FrameIncomplete | FrameInvalid

definition decodeOneFrame :: "string \<Rightarrow> frame_result" where
  "decodeOneFrame data =
     (if length data < preludeWithCRCLen then FrameIncomplete
      else
        let totalLen = unat (Uint32 (take 4 data)); headersLen = unat (Uint32 (take 4 (drop 4 data))) in
        if totalLen < minFrameLen \<or> totalLen > maxFrameLen \<or> headersLen > totalLen - frameOverhead then FrameInvalid
        else if length data < totalLen then FrameIncomplete
        else
          let headers = parseHeaders (take headersLen (drop preludeWithCRCLen data));
              payload = take (totalLen - 4 - (preludeWithCRCLen + headersLen)) (drop (preludeWithCRCLen + headersLen) data)
          in FrameOK \<lparr>EventType = textOf headers '':event-type'', MessageType = textOf headers '':message-type'',
               ExceptionType = textOf headers '':exception-type'', Payload = payload\<rparr> totalLen)"

text \<open>A frame takes bytes, and no more than there are.\<close>

lemma decodeOneFrame_length: "decodeOneFrame data = FrameOK f n \<Longrightarrow> 16 \<le> n \<and> n \<le> length data"
  by (auto simp: decodeOneFrame_def Let_def minFrameLen_def frameOverhead_def split: if_splits)

function decodeFrames :: "eventStreamFrame list \<Rightarrow> nat \<Rightarrow> string \<Rightarrow> eventStreamFrame list \<times> nat \<times> bool" where
  "decodeFrames frames offset rest =
     (case decodeOneFrame rest of
        FrameOK f n \<Rightarrow> decodeFrames (frames @ [f]) (offset + n) (drop n rest)
      | FrameIncomplete \<Rightarrow> (frames, offset, True)
      | FrameInvalid \<Rightarrow> (frames, offset, 0 < offset))"
  by pat_completeness auto
termination
  by (relation "measure (\<lambda>(_, _, rest). length rest)") (auto dest: decodeOneFrame_length)

definition decodeEventStreamFrames :: "string \<Rightarrow> eventStreamFrame list \<times> nat \<times> bool" where
  "decodeEventStreamFrames data = decodeFrames [] 0 data"

text \<open>The bytes in whole frames, whether a partial frame follows, and whether the bytes are an event stream.\<close>

function boundaryLoop :: "nat \<Rightarrow> string \<Rightarrow> nat \<times> bool \<times> bool" where
  "boundaryLoop offset rest =
     (if rest = [] then (offset, False, True)
      else case decodeOneFrame rest of
        FrameOK _ n \<Rightarrow> boundaryLoop (offset + n) (drop n rest)
      | FrameIncomplete \<Rightarrow> (offset, True, True)
      | FrameInvalid \<Rightarrow> (offset, False, 0 < offset))"
  by pat_completeness auto
termination
  by (relation "measure (\<lambda>(_, rest). length rest)") (auto dest: decodeOneFrame_length)

definition eventStreamBoundary :: "string \<Rightarrow> nat \<times> bool \<times> bool" where
  "eventStreamBoundary data = boundaryLoop 0 data"

section \<open>The strict decoder\<close>

text \<open>The length of what stands in front of a value and of the value.\<close>

definition valueLens :: "nat \<Rightarrow> string \<Rightarrow> (nat \<times> nat) option" where
  "valueLens valueType rest =
     (if valueType \<in> {0, 1} then Some (0, 0)
      else if valueType = 2 then Some (0, 1)
      else if valueType = 3 then Some (0, 2)
      else if valueType = 4 then Some (0, 4)
      else if valueType \<in> {5, 8} then Some (0, 8)
      else if valueType = 9 then Some (0, 16)
      else if valueType \<in> {6, 7} then if length rest < 2 then None else Some (2, unat (Uint16 rest))
      else None)"

function eventTypeLoop :: "string \<Rightarrow> string \<Rightarrow> string option" where
  "eventTypeLoop eventType [] = Some eventType"
| "eventTypeLoop eventType (n # rest) =
     (let nameLen = of_char n in
      if length rest \<le> nameLen then None
      else
        let t = rest ! nameLen; rest' = drop (Suc nameLen) rest in
        case valueLens (of_char t) rest' of
          None \<Rightarrow> None
        | Some (valueOffset, valueLen) \<Rightarrow>
            if length rest' < valueOffset + valueLen then None
            else eventTypeLoop
              (if take nameLen rest = '':event-type'' \<and> (of_char t :: nat) = 7 then take valueLen (drop valueOffset rest') else eventType)
              (drop (valueOffset + valueLen) rest'))"
  by pat_completeness auto
termination
  by (relation "measure (\<lambda>(_, rest). length rest)") auto

definition bedrockEventStreamEventType :: "string \<Rightarrow> string option" where
  "bedrockEventStreamEventType data = eventTypeLoop '''' data"

text \<open>The event types and payloads of all frames.\<close>

function strictLoop :: "(string \<times> string) list \<Rightarrow> string \<Rightarrow> (string \<times> string) list option" where
  "strictLoop frames remaining =
     (if remaining = [] then if frames = [] then None else Some frames
      else if length remaining < 12 then None
      else
        let totalLen = unat (Uint32 (take 4 remaining)); headersLen = unat (Uint32 (take 4 (drop 4 remaining))) in
        if totalLen < 16 \<or> totalLen > 16 * 1024 * 1024 \<or> headersLen > totalLen - 16 \<or> totalLen > length remaining then None
        else case bedrockEventStreamEventType (take headersLen (drop 12 remaining)) of
          None \<Rightarrow> None
        | Some eventType \<Rightarrow>
            strictLoop (frames @ [(eventType, take (totalLen - 4 - (12 + headersLen)) (drop (12 + headersLen) remaining))])
              (drop totalLen remaining))"
  by pat_completeness auto
termination
  by (relation "measure (\<lambda>(_, rest). length rest)") auto

definition bedrockEventStreamFrames :: "string \<Rightarrow> (string \<times> string) list option" where
  "bedrockEventStreamFrames data = strictLoop [] data"

declare decodeFrames.simps [simp del] boundaryLoop.simps [simp del] strictLoop.simps [simp del]

section \<open>The encoding\<close>

text \<open>A frame as the format defines it, with string headers; the checksums are any four bytes.\<close>

definition octet :: "nat \<Rightarrow> nat \<Rightarrow> char" where
  "octet k n = char_of (n div 2 ^ k)"

definition be16 :: "nat \<Rightarrow> string" where
  "be16 n = [octet 8 n, octet 0 n]"

definition be32 :: "nat \<Rightarrow> string" where
  "be32 n = [octet 24 n, octet 16 n, octet 8 n, octet 0 n]"

record wire_frame =
  wHeaders :: "(string \<times> string) list"
  wPayload :: string
  wPreludeCRC :: string
  wMessageCRC :: string

definition encodeHeader :: "string \<times> string \<Rightarrow> string" where
  "encodeHeader h = char_of (length (fst h)) # fst h @ char_of (7 :: nat) # be16 (length (snd h)) @ snd h"

definition encodeHeaders :: "(string \<times> string) list \<Rightarrow> string" where
  "encodeHeaders hs = concat (map encodeHeader hs)"

definition frameLength :: "wire_frame \<Rightarrow> nat" where
  "frameLength w = 16 + length (encodeHeaders (wHeaders w)) + length (wPayload w)"

definition encodeFrame :: "wire_frame \<Rightarrow> string" where
  "encodeFrame w =
     be32 (frameLength w) @ be32 (length (encodeHeaders (wHeaders w))) @ wPreludeCRC w @ encodeHeaders (wHeaders w) @ wPayload w @ wMessageCRC w"

definition frameOk :: "wire_frame \<Rightarrow> bool" where
  "frameOk w \<longleftrightarrow> list_all (\<lambda>h. length (fst h) < 256 \<and> length (snd h) < 65536) (wHeaders w) \<and>
     length (wPreludeCRC w) = 4 \<and> length (wMessageCRC w) = 4 \<and> frameLength w \<le> maxFrameLen"

text \<open>What a frame says; of a repeated header the last one counts.\<close>

definition frameOf :: "wire_frame \<Rightarrow> eventStreamFrame" where
  "frameOf w =
     (let hs = rev (wHeaders w) in
      \<lparr>EventType = textOf hs '':event-type'', MessageType = textOf hs '':message-type'', ExceptionType = textOf hs '':exception-type'',
       Payload = wPayload w\<rparr>)"

lemma bit_octet: "bit (byteOf (octet k n) :: 'a::len word) i \<longleftrightarrow> i < LENGTH('a) \<and> i < 8 \<and> bit n (k + i)"
proof -
  have "(byteOf (octet k n) :: 'a word) = of_nat (take_bit 8 (drop_bit k n))"
    by (simp add: byteOf_def octet_def take_bit_eq_mod drop_bit_eq_div)
  then show ?thesis by (auto simp: bit_simps)
qed

lemma unat_Uint16_be16: assumes "n < 2 ^ 16" shows "unat (Uint16 (be16 n @ r)) = n"
proof -
  have "Uint16 (be16 n @ r) = of_nat n" by (rule bit_word_eqI) (auto simp: be16_def bit_octet bit_simps)
  then show ?thesis using assms by (simp add: unat_of_nat)
qed

lemma unat_Uint32_be32: assumes "n < 2 ^ 32" shows "unat (Uint32 (be32 n @ r)) = n"
proof -
  have "Uint32 (be32 n @ r) = of_nat n"
  proof (rule bit_word_eqI)
    fix i assume i: "i < LENGTH(32)"
    then consider "i < 8" | "8 \<le> i" "i < 16" | "16 \<le> i" "i < 24" | "24 \<le> i" "i < 32" by fastforce
    then show "bit (Uint32 (be32 n @ r)) i = bit (of_nat n :: 32 word) i"
      by cases (auto simp: be32_def bit_octet bit_simps)
  qed
  then show ?thesis using assms by (simp add: unat_of_nat)
qed

lemma length_be [simp]: "length (be16 n) = 2" "length (be32 n) = 4"
  by (simp_all add: be16_def be32_def)

lemma parseHeaders_header:
  assumes "length (fst h) < 256" "length (snd h) < 65536"
  shows "parseHeadersLoop hs (encodeHeader h @ r) = parseHeadersLoop (AList.update (fst h) (snd h) hs) r"
  using assms unat_Uint16_be16 [of "length (snd h)" "snd h @ r"]
  by (simp add: encodeHeader_def Let_def encodedLen_def)

lemma parseHeaders_headers:
  "list_all (\<lambda>h. length (fst h) < 256 \<and> length (snd h) < 65536) hs' \<Longrightarrow>
   parseHeadersLoop hs (encodeHeaders hs') = foldl (\<lambda>m h. AList.update (fst h) (snd h) m) hs hs'"
  by (induction hs' arbitrary: hs) (simp_all add: encodeHeaders_def parseHeaders_header)

lemma map_of_updates: "map_of (foldl (\<lambda>m h. AList.update (fst h) (snd h) m) hs hs') k =
    (case map_of (rev hs') k of Some v \<Rightarrow> Some v | None \<Rightarrow> map_of hs k)"
  by (induction hs' arbitrary: hs) (auto simp: AList.update_conv' map_add_def split: option.splits)

lemma textOf_updates: "textOf (foldl (\<lambda>m h. AList.update (fst h) (snd h) m) [] hs) k = textOf (rev hs) k"
  unfolding textOf_def map_of_updates by (simp split: option.splits)

lemma length_encodeFrame: "frameOk w \<Longrightarrow> length (encodeFrame w) = frameLength w"
  by (simp add: encodeFrame_def frameOk_def frameLength_def)

lemma decodeOneFrame_encode:
  assumes "frameOk w"
  shows "decodeOneFrame (encodeFrame w @ r) = FrameOK (frameOf w) (frameLength w)"
proof -
  let ?hs = "encodeHeaders (wHeaders w)"
  have n: "length (wPreludeCRC w) = 4" "length (wMessageCRC w) = 4" "frameLength w < 2 ^ 32" "length ?hs < 2 ^ 32"
    using assms by (auto simp: frameOk_def maxFrameLen_def frameLength_def)
  have lens: "unat (Uint32 (take 4 (encodeFrame w @ r))) = frameLength w"
    "unat (Uint32 (take 4 (drop 4 (encodeFrame w @ r)))) = length ?hs"
    using unat_Uint32_be32 [OF n(3), of "[]"] unat_Uint32_be32 [OF n(4), of "[]"] by (simp_all add: encodeFrame_def)
  have parts: "take (length ?hs) (drop 12 (encodeFrame w @ r)) = ?hs"
    "take (frameLength w - 4 - (12 + length ?hs)) (drop (12 + length ?hs) (encodeFrame w @ r)) = wPayload w"
    using n by (simp_all add: encodeFrame_def frameLength_def)
  have "list_all (\<lambda>h. length (fst h) < 256 \<and> length (snd h) < 65536) (wHeaders w)" using assms by (simp add: frameOk_def)
  note hs = parseHeaders_headers [OF this]
  define data where "data = encodeFrame w @ r"
  have size: "16 \<le> frameLength w" "length ?hs \<le> frameLength w - 16" "frameLength w \<le> maxFrameLen" "frameLength w \<le> length data"
    using assms length_encodeFrame [OF assms] by (simp_all add: frameLength_def frameOk_def data_def)
  show ?thesis using size lens parts unfolding data_def [symmetric]
    by (simp add: decodeOneFrame_def preludeWithCRCLen_def minFrameLen_def frameOverhead_def Let_def parseHeaders_def hs textOf_updates frameOf_def)
qed

lemma decodeFrames_encode:
  "list_all frameOk ws \<Longrightarrow>
   decodeFrames fs off (concat (map encodeFrame ws) @ r) = decodeFrames (fs @ map frameOf ws) (off + length (concat (map encodeFrame ws))) r"
proof (induction ws arbitrary: fs off)
  case (Cons w ws)
  then show ?case
    by (subst decodeFrames.simps) (simp add: decodeOneFrame_encode length_encodeFrame add.assoc)
qed simp

section \<open>Whole frames\<close>

text \<open>The bytes are a sequence of whole frames.\<close>

inductive whole :: "string \<Rightarrow> eventStreamFrame list \<Rightarrow> bool" where
  nothing: "whole [] []"
| frame: "decodeOneFrame data = FrameOK f n \<Longrightarrow> whole (drop n data) fs \<Longrightarrow> whole data (f # fs)"

lemma decodeOneFrame_Nil [simp]: "decodeOneFrame [] = FrameIncomplete"
  by (simp add: decodeOneFrame_def preludeWithCRCLen_def)

lemma whole_decodes: "whole data fs \<Longrightarrow> decodeFrames gs off data = (gs @ fs, off + length data, True)"
proof (induction arbitrary: gs off rule: whole.induct)
  case (frame data f n fs)
  then show ?case using decodeOneFrame_length [OF frame(1)] by (subst decodeFrames.simps) simp
qed (simp add: decodeFrames.simps)

lemma decodes_whole: "decodeFrames gs off data = (fs, off + length data, ok) \<Longrightarrow> \<exists>hs. fs = gs @ hs \<and> whole data hs"
proof (induction gs off data rule: decodeFrames.induct)
  case (1 gs off data)
  show ?case
  proof (cases "decodeOneFrame data")
    case (FrameOK f n)
    have n: "n \<le> length data" using decodeOneFrame_length [OF FrameOK] by simp
    have "decodeFrames (gs @ [f]) (off + n) (drop n data) = (fs, off + n + length (drop n data), ok)"
      using "1.prems" FrameOK n by (subst (asm) decodeFrames.simps) simp
    then obtain hs where "fs = (gs @ [f]) @ hs" "whole (drop n data) hs" using "1.IH" [OF FrameOK] by blast
    then show ?thesis using FrameOK by (auto intro: whole.intros)
  next
    case FrameInvalid
    then have "data = []" using "1.prems" by (subst (asm) decodeFrames.simps) simp
    then show ?thesis using FrameInvalid by simp
  qed (use "1.prems" in \<open>auto simp: decodeFrames.simps [of gs off data] intro: whole.intros\<close>)
qed

lemma decode_whole: "decodeEventStreamFrames data = (fs, length data, True) \<longleftrightarrow> whole data fs"
  using whole_decodes [of data fs "[]" 0] decodes_whole [of "[]" 0 data fs True] by (auto simp: decodeEventStreamFrames_def)

text \<open>A frame at the front does not depend on what follows it, and a part of a frame is incomplete.\<close>

definition frameAt :: "string \<Rightarrow> nat \<Rightarrow> nat \<Rightarrow> eventStreamFrame" where
  "frameAt data hl n =
     (let headers = parseHeaders (take hl (drop 12 data)) in
      \<lparr>EventType = textOf headers '':event-type'', MessageType = textOf headers '':message-type'', ExceptionType = textOf headers '':exception-type'',
       Payload = take (n - 4 - (12 + hl)) (drop (12 + hl) data)\<rparr>)"

lemma decodeOneFrame_cases:
  assumes "n = unat (Uint32 (take 4 data))" "hl = unat (Uint32 (take 4 (drop 4 data)))"
  shows "decodeOneFrame data =
    (if length data < 12 then FrameIncomplete else if n < 16 \<or> maxFrameLen < n \<or> n - 16 < hl then FrameInvalid
     else if length data < n then FrameIncomplete else FrameOK (frameAt data hl n) n)"
  unfolding decodeOneFrame_def assms(1) [symmetric] assms(2) [symmetric] frameAt_def Let_def
  by (simp add: preludeWithCRCLen_def minFrameLen_def frameOverhead_def)

lemma frameAt_append: "n \<le> length a \<Longrightarrow> hl \<le> n - 16 \<Longrightarrow> 16 \<le> n \<Longrightarrow> frameAt (a @ b) hl n = frameAt a hl n"
  by (simp add: frameAt_def)

lemma decodeOneFrame_prefix:
  assumes "decodeOneFrame (a @ b) = FrameOK f n"
  shows "decodeOneFrame a = (if n \<le> length a then FrameOK f n else FrameIncomplete)"
proof (cases "length a < 12")
  case True
  then show ?thesis using decodeOneFrame_length [OF assms] by (simp add: decodeOneFrame_def preludeWithCRCLen_def)
next
  case False
  define m where "m = unat (Uint32 (take 4 a))"
  define hl where "hl = unat (Uint32 (take 4 (drop 4 a)))"
  have t: "m = unat (Uint32 (take 4 (a @ b)))" "hl = unat (Uint32 (take 4 (drop 4 (a @ b))))" using False by (simp_all add: m_def hl_def)
  have n: "n = m" "16 \<le> m" "m \<le> maxFrameLen" "hl \<le> m - 16" "f = frameAt (a @ b) hl m"
    using assms unfolding decodeOneFrame_cases [OF t] by (auto split: if_splits)
  show ?thesis using False n frameAt_append [of m a hl b] unfolding decodeOneFrame_cases [OF m_def hl_def] by auto
qed

text \<open>A part of a sequence of whole frames is whole itself, or it ends with a partial frame and is reported so.\<close>

lemma whole_split:
  assumes "whole (a @ b) fs"
  shows "(\<exists>gs hs. whole a gs \<and> whole b hs \<and> fs = gs @ hs \<and> boundaryLoop off a = (off + length a, False, True)) \<or>
    (\<exists>m. boundaryLoop off a = (m, True, True))"
  using assms
proof (induction "a @ b" fs arbitrary: a off rule: whole.induct)
  case nothing
  then show ?case by (auto simp: boundaryLoop.simps intro: whole.intros)
next
  case (frame f n fs)
  note n = decodeOneFrame_length [OF frame(1)] and one = decodeOneFrame_prefix [OF frame(1)]
  show ?case
  proof (cases "a = []")
    case True
    then show ?thesis using whole.frame [OF frame(1,2)] by (auto simp: boundaryLoop.simps intro: whole.intros)
  next
    case a: False
    show ?thesis
    proof (cases "n \<le> length a")
      case True
      then have "drop n (a @ b) = drop n a @ b" by simp
      note IH = frame(3) [OF this, of "off + n"]
      have ok: "decodeOneFrame a = FrameOK f n" using one True by simp
      have step: "boundaryLoop off a = boundaryLoop (off + n) (drop n a)" using a ok by (subst boundaryLoop.simps) simp
      from IH show ?thesis
      proof
        assume "\<exists>gs hs. whole (drop n a) gs \<and> whole b hs \<and> fs = gs @ hs \<and> boundaryLoop (off + n) (drop n a) = (off + n + length (drop n a), False, True)"
        then obtain gs hs where "whole (drop n a) gs" "whole b hs" "fs = gs @ hs"
          "boundaryLoop (off + n) (drop n a) = (off + n + length (drop n a), False, True)" by blast
        then have "whole a (f # gs) \<and> whole b hs \<and> f # fs = (f # gs) @ hs \<and> boundaryLoop off a = (off + length a, False, True)"
          using ok step True by (auto intro: whole.intros)
        then show ?thesis by blast
      qed (simp add: step)
    next
      case False
      then show ?thesis using one a by (subst (2) boundaryLoop.simps) simp
    qed
  qed
qed

lemma whole_not_partial:
  assumes "whole (a @ b) fs" "\<not> fst (snd (eventStreamBoundary a)) \<or> \<not> snd (snd (eventStreamBoundary a))"
  obtains gs hs where "whole a gs" "whole b hs" "fs = gs @ hs"
  using whole_split [OF assms(1), of 0] assms(2) by (auto simp: eventStreamBoundary_def)

section \<open>The two decoders\<close>

lemma encodedLen_valueLens: "encodedLen t rest = map_option (\<lambda>(a, b). a + b) (valueLens t rest)"
  by (simp add: encodedLen_def valueLens_def)

lemma valueLens_string: "valueLens 7 rest = Some (a, b) \<Longrightarrow> a = 2"
  by (simp add: valueLens_def split: if_splits)

lemma eventType_lenient:
  "eventTypeLoop ev data = Some e \<Longrightarrow> textOf hs '':event-type'' = ev \<Longrightarrow> textOf (parseHeadersLoop hs data) '':event-type'' = e"
proof (induction ev data arbitrary: hs rule: eventTypeLoop.induct)
  case (2 ev n rest)
  define l where "l = (of_char n :: nat)"
  define t where "t = rest ! l"
  define rest' where "rest' = drop (Suc l) rest"
  have l: "l < length rest" using "2.prems"(1) by (simp add: l_def Let_def split: if_splits)
  then have d: "drop l rest = t # rest'" by (simp add: t_def rest'_def Cons_nth_drop_Suc)
  obtain a b where ab: "valueLens (of_char t) rest' = Some (a, b)" "a + b \<le> length rest'"
    using "2.prems"(1) l by (auto simp: l_def [symmetric] Let_def t_def [symmetric] rest'_def [symmetric] split: if_splits option.splits)
  let ?ev = "if take l rest = '':event-type'' \<and> (of_char t :: nat) = 7 then take b (drop a rest') else ev"
  let ?hs = "if (of_char t :: nat) = 7 then AList.update (take l rest) (drop 2 (take (a + b) rest')) hs else hs"
  have v: "a = 2" if "(of_char t :: nat) = 7" using ab(1) that valueLens_string by simp
  have "eventTypeLoop ?ev (drop (a + b) rest') = Some e"
    using "2.prems"(1) l ab by (simp add: l_def [symmetric] Let_def t_def [symmetric] rest'_def [symmetric])
  moreover have "textOf ?hs '':event-type'' = ?ev"
    using "2.prems"(2) v by (auto simp: textOf_def AList.update_conv' drop_take)
  ultimately have "textOf (parseHeadersLoop ?hs (drop (a + b) rest')) '':event-type'' = e"
    using "2.IH" [OF l_def _ t_def rest'_def ab(1)] l ab(2) by simp
  then show ?case using l d ab by (simp add: l_def [symmetric] Let_def encodedLen_valueLens split: if_splits)
qed simp

lemma strict_lenient:
  "strictLoop es data = Some es' \<Longrightarrow> \<exists>fs. whole data fs \<and> es' = es @ map (\<lambda>f. (EventType f, Payload f)) fs"
proof (induction es data arbitrary: rule: strictLoop.induct)
  case (1 es data)
  show ?case
  proof (cases "data = []")
    case True
    then show ?thesis using "1.prems" by (subst (asm) strictLoop.simps) (auto split: if_splits intro: whole.intros)
  next
    case False
    define n where "n = unat (Uint32 (take 4 data))"
    define hl where "hl = unat (Uint32 (take 4 (drop 4 data)))"
    let ?payload = "take (n - 4 - (12 + hl)) (drop (12 + hl) data)"
    have c: "12 \<le> length data" "16 \<le> n" "n \<le> maxFrameLen" "hl \<le> n - 16" "n \<le> length data"
      using "1.prems" False
      by (subst (asm) strictLoop.simps, simp add: n_def hl_def Let_def maxFrameLen_def split: if_splits)+
    obtain e where e: "bedrockEventStreamEventType (take hl (drop 12 data)) = Some e" "strictLoop (es @ [(e, ?payload)]) (drop n data) = Some es'"
      using "1.prems" False c
      by (subst (asm) strictLoop.simps) (simp add: n_def [symmetric] hl_def [symmetric] Let_def maxFrameLen_def split: if_splits option.splits)
    have f: "decodeOneFrame data = FrameOK (frameAt data hl n) n" using c unfolding decodeOneFrame_cases [OF n_def hl_def] by simp
    have "EventType (frameAt data hl n) = e" "Payload (frameAt data hl n) = ?payload"
      using eventType_lenient [of "''''" _ e "[]"] e(1) by (simp_all add: frameAt_def Let_def parseHeaders_def bedrockEventStreamEventType_def textOf_def)
    moreover obtain fs where "whole (drop n data) fs" "es' = (es @ [(e, ?payload)]) @ map (\<lambda>f. (EventType f, Payload f)) fs"
      using "1.IH" [OF False _ n_def hl_def _ e(1) e(2)] c by (auto simp: maxFrameLen_def)
    ultimately show ?thesis using whole.frame [OF f] by (intro exI [of _ "frameAt data hl n # fs"]) simp
  qed
qed

lemma eventType_header:
  assumes "length (fst h) < 256" "length (snd h) < 65536"
  shows "eventTypeLoop ev (encodeHeader h @ r) = eventTypeLoop (if fst h = '':event-type'' then snd h else ev) r"
  using assms unat_Uint16_be16 [of "length (snd h)" "snd h @ r"]
  by (simp add: encodeHeader_def Let_def valueLens_def nth_append)

lemma eventType_headers:
  "list_all (\<lambda>h. length (fst h) < 256 \<and> length (snd h) < 65536) hs \<Longrightarrow> \<exists>e. eventTypeLoop ev (encodeHeaders hs) = Some e"
  by (induction hs arbitrary: ev) (auto simp: encodeHeaders_def eventType_header)

lemma strict_encode:
  assumes "frameOk w"
  shows "\<exists>e. strictLoop es (encodeFrame w @ r) = strictLoop (es @ [(e, wPayload w)]) r"
proof -
  let ?hs = "encodeHeaders (wHeaders w)"
  define data where "data = encodeFrame w @ r"
  define n where "n = unat (Uint32 (take 4 data))"
  define hl where "hl = unat (Uint32 (take 4 (drop 4 data)))"
  have one: "decodeOneFrame data = FrameOK (frameOf w) (frameLength w)" using decodeOneFrame_encode [OF assms] by (simp add: data_def)
  have n: "n = frameLength w" "12 \<le> length data" "\<not> n < 16" "\<not> maxFrameLen < n" "\<not> n - 16 < hl" "\<not> length data < n"
    using one unfolding decodeOneFrame_cases [OF n_def hl_def] by (auto split: if_splits)
  have "length ?hs < 2 ^ 32" using assms by (simp add: frameOk_def frameLength_def maxFrameLen_def)
  then have hl: "hl = length ?hs" using unat_Uint32_be32 [of "length ?hs" "[]"] by (simp add: hl_def data_def encodeFrame_def)
  have parts: "take hl (drop 12 data) = ?hs" "take (n - 4 - (12 + hl)) (drop (12 + hl) data) = wPayload w" "drop n data = r"
    using assms by (simp_all add: hl n(1) data_def encodeFrame_def frameLength_def frameOk_def)
  obtain e where "bedrockEventStreamEventType ?hs = Some e"
    using assms eventType_headers [of "wHeaders w" "''''"] by (auto simp: frameOk_def bedrockEventStreamEventType_def)
  then have "strictLoop es data = strictLoop (es @ [(e, wPayload w)]) r" using n parts
    by (subst strictLoop.simps) (auto simp: n_def [symmetric] hl_def [symmetric] Let_def maxFrameLen_def)
  then show ?thesis by (auto simp: data_def)
qed

lemma strict_encode_all:
  "list_all frameOk ws \<Longrightarrow> es \<noteq> [] \<or> ws \<noteq> [] \<Longrightarrow> \<exists>es'. strictLoop es (concat (map encodeFrame ws)) = Some es'"
proof (induction ws arbitrary: es)
  case (Cons w ws)
  obtain e where "strictLoop es (encodeFrame w @ concat (map encodeFrame ws)) = strictLoop (es @ [(e, wPayload w)]) (concat (map encodeFrame ws))"
    using Cons.prems(1) strict_encode by fastforce
  then show ?case using Cons by simp
qed (simp add: strictLoop.simps)

lemma whole_encode: "list_all frameOk ws \<Longrightarrow> whole (concat (map encodeFrame ws)) (map frameOf ws)"
  using decodeFrames_encode [of ws "[]" 0 "[]"] decodes_whole [of "[]" 0 "concat (map encodeFrame ws)" "map frameOf ws" True]
  by (simp add: decodeFrames.simps)

lemma decodeFrames_stops:
  "case decodeFrames fs off rest of (frames, consumed, ok) \<Rightarrow> \<exists>gs k. frames = fs @ gs \<and> consumed = off + k \<and> k \<le> length rest \<and>
     16 * length gs \<le> k \<and> whole (take k rest) gs \<and> (\<nexists>f n. decodeOneFrame (drop k rest) = FrameOK f n) \<and>
     boundaryLoop off rest = (consumed, k < length rest \<and> decodeOneFrame (drop k rest) = FrameIncomplete, ok)"
proof (induction fs off rest rule: decodeFrames.induct)
  case (1 fs off rest)
  show ?case
  proof (cases "decodeOneFrame rest")
    case (FrameOK f n)
    note n = decodeOneFrame_length [OF FrameOK]
    have dec: "decodeFrames fs off rest = decodeFrames (fs @ [f]) (off + n) (drop n rest)" using FrameOK by (subst decodeFrames.simps) simp
    have "rest \<noteq> []" using n by auto
    then have bnd: "boundaryLoop off rest = boundaryLoop (off + n) (drop n rest)" using FrameOK by (subst boundaryLoop.simps) simp
    obtain gs k ok where IH: "decodeFrames (fs @ [f]) (off + n) (drop n rest) = ((fs @ [f]) @ gs, off + n + k, ok)" "k \<le> length (drop n rest)"
      "16 * length gs \<le> k" "whole (take k (drop n rest)) gs" "\<nexists>f m. decodeOneFrame (drop k (drop n rest)) = FrameOK f m"
      "boundaryLoop (off + n) (drop n rest) = (off + n + k, k < length (drop n rest) \<and> decodeOneFrame (drop k (drop n rest)) = FrameIncomplete, ok)"
      using "1.IH" [OF FrameOK] by (auto split: prod.splits)
    have "decodeOneFrame (take (n + k) rest) = FrameOK f n"
      using decodeOneFrame_prefix [of "take (n + k) rest" "drop (n + k) rest"] FrameOK n by simp
    then have "whole (take (n + k) rest) (f # gs)" using IH(4) by (intro whole.frame) (auto simp: drop_take)
    then show ?thesis using IH n by (auto simp: dec bnd add.commute intro!: exI [of _ "f # gs"] exI [of _ "n + k"])
  next
    case FrameIncomplete
    then show ?thesis by (simp add: decodeFrames.simps [of fs off rest] boundaryLoop.simps [of off rest]) (auto intro: whole.intros)
  next
    case FrameInvalid
    then have "rest \<noteq> []" by auto
    then show ?thesis using FrameInvalid by (simp add: decodeFrames.simps [of fs off rest] boundaryLoop.simps [of off rest]) (auto intro: whole.intros)
  qed
qed

section \<open>Properties\<close>

text \<open>C34: frames come back as they were sent. Frames with string headers, up to the 16 MiB the code allows and with any
  checksums, are decoded by the incremental decoder to exactly their event types, exceptions and payloads in
  order, with every byte consumed; and the strict decoder of the cost calculation reads the same event types and
  payloads from them.\<close>
theorem event_stream_roundtrip:
  assumes "list_all frameOk ws" "wire = concat (map encodeFrame ws)"
  shows "decodeEventStreamFrames wire = (map frameOf ws, length wire, True) \<and>
    bedrockEventStreamFrames wire = (if ws = [] then None else Some (map (\<lambda>w. (EventType (frameOf w), wPayload w)) ws))"
proof
  have w: "whole wire (map frameOf ws)" using whole_encode [OF assms(1)] assms(2) by simp
  then show d: "decodeEventStreamFrames wire = (map frameOf ws, length wire, True)" by (simp add: decode_whole)
  show "bedrockEventStreamFrames wire = (if ws = [] then None else Some (map (\<lambda>w. (EventType (frameOf w), wPayload w)) ws))"
  proof (cases "ws = []")
    case False
    then obtain es where es: "strictLoop [] wire = Some es" using strict_encode_all [OF assms(1), of "[]"] assms(2) by auto
    obtain fs where "whole wire fs" "es = map (\<lambda>f. (EventType f, Payload f)) fs" using strict_lenient [OF es] by auto
    moreover have "fs = map frameOf ws" using calculation(1) d by (simp add: decode_whole [symmetric])
    ultimately show ?thesis using es False by (simp add: bedrockEventStreamFrames_def comp_def frameOf_def Let_def)
  qed (simp add: assms(2) bedrockEventStreamFrames_def strictLoop.simps)
qed

definition sample_wire :: wire_frame where
  "sample_wire = \<lparr>wHeaders = [('':event-type'', ''metadata'')], wPayload = ''{}'', wPreludeCRC = ''abcd'', wMessageCRC = ''efgh''\<rparr>"

lemma event_stream_roundtrip_witness:
  "bedrockEventStreamFrames (concat (map encodeFrame [sample_wire])) = Some [(''metadata'', ''{}'')]"
  using event_stream_roundtrip [of "[sample_wire]", OF _ refl]
  by (simp add: sample_wire_def frameOk_def frameLength_def encodeHeaders_def encodeHeader_def maxFrameLen_def frameOf_def textOf_def)

text \<open>C35: decoding ends and stops at a frame. The loop over the frames returns on every input, whatever lengths the bytes
  advertise: it consumes at most the bytes there are and at least sixteen for each frame, and it stops exactly where
  no whole frame follows. The cheap scan for frame boundaries stops at the same byte, and reports a partial frame only
  where bytes are left.\<close>
theorem event_stream_progress:
  "case decodeEventStreamFrames data of (frames, consumed, ok) \<Rightarrow>
     consumed \<le> length data \<and> 16 * length frames \<le> consumed \<and> whole (take consumed data) frames \<and>
     (\<nexists>f n. decodeOneFrame (drop consumed data) = FrameOK f n) \<and>
     (case eventStreamBoundary data of (completeLen, hasPartial, bok) \<Rightarrow>
        completeLen = consumed \<and> bok = ok \<and> (hasPartial \<longleftrightarrow> consumed < length data \<and> decodeOneFrame (drop consumed data) = FrameIncomplete))"
  using decodeFrames_stops [of "[]" 0 data] by (auto simp: decodeEventStreamFrames_def eventStreamBoundary_def split: prod.splits)

end
