(* ===== verification/LlmTranslate.thy ===== *)
theory LlmTranslate
  imports GuardText QuotaPhases UrlQuery
begin

text \<open>
  What the policies that translate OpenAI chat completions for another provider share
  (\<^verbatim>\<open>openai-to-bedrock-transformer\<close>, \<^verbatim>\<open>openai-to-anthropic-transformer\<close>, \<^verbatim>\<open>openai-to-mistral-transformer\<close>,
  \<^verbatim>\<open>openai-to-azure-openai-transformer\<close>): which requests an instance handles, the shape of its answers, and
  the loop over the messages of a chat, which two of the programs have. JSON is the argument \<open>llm_json\<close>.
\<close>

section \<open>JSON\<close>

text \<open>\<^verbatim>\<open>json.Unmarshal\<close> into a map (\<open>None\<close> for \<^verbatim>\<open>null\<close>, which leaves the map nil) and into \<^verbatim>\<open>any\<close>, and
  \<^verbatim>\<open>json.Marshal\<close>. An error is its text.\<close>

record llm_json =
  ljObject :: "string \<Rightarrow> string + params option"
  ljAny :: "string \<Rightarrow> string + any"
  ljMarshal :: "any \<Rightarrow> string + string"

text \<open>A map read whether nil or not.\<close>

definition entries :: "params option \<Rightarrow> params" where
  "entries m = (case m of Some es \<Rightarrow> es | None \<Rightarrow> [])"

definition mapOr :: "any \<Rightarrow> params" where "mapOr v = entries (as_map v)"

definition strOr :: "any \<Rightarrow> string" where
  "strOr v = (case as_str v of Some s \<Rightarrow> s | None \<Rightarrow> '''')"

section \<open>Actions\<close>

record up_mods =
  umBody :: "string option"
  umPath :: "string option"
  umUpstream :: "string option"
  umSet :: header
  umRemove :: "string list"

record down_mods =
  dmBody :: "string option"
  dmSet :: header
  dmRemove :: "string list"

datatype 'm hook_action = Modify 'm | Reply ImmediateResponse

definition noUpMods :: up_mods where
  "noUpMods = \<lparr>umBody = None, umPath = None, umUpstream = None, umSet = [], umRemove = []\<rparr>"

definition noDownMods :: down_mods where
  "noDownMods = \<lparr>dmBody = None, dmSet = [], dmRemove = []\<rparr>"

definition marshalled :: "llm_json \<Rightarrow> any \<Rightarrow> string" where
  "marshalled lib v = (case ljMarshal lib v of Inr b \<Rightarrow> b | Inl _ \<Rightarrow> '''')"

definition jsonReply :: "int \<Rightarrow> string \<Rightarrow> 'm hook_action" where
  "jsonReply status body = Reply \<lparr>irStatus = status, irHeaders = [(''Content-Type'', ''application/json'')], irBody = body\<rparr>"

definition errResponse :: "llm_json \<Rightarrow> int \<Rightarrow> string \<Rightarrow> 'm hook_action" where
  "errResponse lib status message = jsonReply status (marshalled lib (AMap [(''error'', AStr message)]))"

text \<open>A JSON body of a translated response.\<close>

definition jsonDown :: "string \<Rightarrow> down_mods" where
  "jsonDown b = \<lparr>dmBody = Some b, dmSet = [(''content-type'', ''application/json''), (''content-length'', itoa (int (length b)))], dmRemove = []\<rparr>"

definition upstreamOf :: "string \<Rightarrow> string option" where
  "upstreamOf providerId = (if providerId = '''' then None else Some providerId)"

section \<open>Selection\<close>

definition optionalString :: "params \<Rightarrow> string \<Rightarrow> string outcome" where
  "optionalString m k =
     (case map_of m k of
        None \<Rightarrow> Ret ''''
      | Some v \<Rightarrow>
          if v = ANil then Ret ''''
          else case as_str v of Some s \<Rightarrow> Ret (TrimSpace s) | None \<Rightarrow> Fail (quoted k @ '' must be a string''))"

definition invalidFor :: "string \<Rightarrow> 'a outcome \<Rightarrow> 'a outcome" where
  "invalidFor name = inContext (name @ '': invalid params: '')"

definition EqualFold :: "string \<Rightarrow> string \<Rightarrow> bool" where
  "EqualFold s t \<longleftrightarrow> ToLower s = ToLower t"

definition selectedProvider :: "params \<Rightarrow> string" where
  "selectedProvider md = TrimSpace (strOr (index md ''selected_provider''))"

definition shouldRun :: "string \<Rightarrow> params \<Rightarrow> bool" where
  "shouldRun providerId md \<longleftrightarrow> selectedProvider md = '''' \<or> EqualFold (selectedProvider md) providerId"

text \<open>A body that is missing, absent or empty.\<close>

definition noContent :: "body option \<Rightarrow> bool" where
  "noContent b = (case b of None \<Rightarrow> True | Some bd \<Rightarrow> \<not> Present bd \<or> Content bd = '''')"

definition mapStatusToOpenAIErrorType :: "int \<Rightarrow> string" where
  "mapStatusToOpenAIErrorType status =
     (if status = 400 then ''invalid_request_error''
      else if status = 401 then ''authentication_error''
      else if status = 403 then ''permission_error''
      else if status = 404 then ''not_found_error''
      else if status = 413 then ''request_too_large''
      else if status = 429 then ''rate_limit_error''
      else if 500 \<le> status then ''server_error''
      else ''api_error'')"

text \<open>White space of \<^verbatim>\<open>TrimLeft\<close> with the cut set space, carriage return, newline and tab.\<close>

definition json_space :: "char \<Rightarrow> bool" where
  "json_space c \<longleftrightarrow> (of_char c :: nat) \<in> {9, 10, 13, 32}"

definition looksLikeSSE :: "string \<Rightarrow> bool" where
  "looksLikeSSE b = (let t = dropWhile json_space b in HasPrefix t ''event:'' \<or> HasPrefix t ''data:'')"

definition hexDigit :: "nat \<Rightarrow> char" where
  "hexDigit n = ''0123456789abcdef'' ! (n mod 16)"

definition EncodeToString :: "string \<Rightarrow> string" where
  "EncodeToString bs = concat (map (\<lambda>c. [hexDigit (of_char c div 16), hexDigit (of_char c)]) bs)"

text \<open>Twelve random bytes, or the clock in nanoseconds where none could be read.\<close>

definition newChatCompletionID :: "string option \<Rightarrow> int \<Rightarrow> string" where
  "newChatCompletionID rnd nanos =
     (case rnd of Some bs \<Rightarrow> ''chatcmpl-'' @ EncodeToString bs | None \<Rightarrow> ''chatcmpl-'' @ itoa nanos)"

section \<open>Chats\<close>

definition extractText :: "any \<Rightarrow> string" where
  "extractText content =
     (case content of
        AStr s \<Rightarrow> s
      | AArr parts \<Rightarrow>
          concat (map (\<lambda>part. case as_map part of
              Some block \<Rightarrow> if index block ''type'' = AStr ''text'' then strOr (index block ''text'') else ''''
            | None \<Rightarrow> '''') parts)
      | _ \<Rightarrow> '''')"

definition roleOf :: "params \<Rightarrow> string" where "roleOf msg = strOr (index msg ''role'')"

text \<open>The tool messages at the front, and the rest.\<close>

fun toolRun :: "any list \<Rightarrow> params list \<times> any list" where
  "toolRun [] = ([], [])"
| "toolRun (m # ms) =
     (case as_map m of
        None \<Rightarrow> ([], m # ms)
      | Some msg \<Rightarrow> if roleOf msg = ''tool'' then (msg # fst (toolRun ms), snd (toolRun ms)) else ([], m # ms))"

lemma toolRun_le: "length (snd (toolRun ms)) \<le> length ms"
  by (induction ms) (auto split: option.splits)

text \<open>The turns of a chat: what a user or the assistant said, or a group of tool results.\<close>

datatype turn = UserTurn any | AssistantTurn any | ToolTurn "any list"

record chat_conv =
  cvUser :: "params \<Rightarrow> any"
  cvAssistant :: "params \<Rightarrow> any"
  cvTool :: "params \<Rightarrow> any"

text \<open>The texts for the system prompt and the turns.\<close>

function convertLoop :: "chat_conv \<Rightarrow> any list \<Rightarrow> string list \<times> turn list" where
  "convertLoop cv [] = ([], [])"
| "convertLoop cv (m # ms) =
     (case as_map m of
        None \<Rightarrow> convertLoop cv ms
      | Some msg \<Rightarrow>
          let role = roleOf msg in
          if role = ''system'' \<or> role = ''developer'' then
            let text = extractText (index msg ''content''); (sys, out) = convertLoop cv ms
            in (if text = '''' then sys else text # sys, out)
          else if role = ''user'' then let (sys, out) = convertLoop cv ms in (sys, UserTurn (cvUser cv msg) # out)
          else if role = ''assistant'' then let (sys, out) = convertLoop cv ms in (sys, AssistantTurn (cvAssistant cv msg) # out)
          else if role = ''tool'' then
            let (sys, out) = convertLoop cv (snd (toolRun ms))
            in (sys, ToolTurn (map (cvTool cv) (msg # fst (toolRun ms))) # out)
          else convertLoop cv ms)"
  by pat_completeness auto
termination
  by (relation "measure (\<lambda>(_, ms). length ms)") (auto simp: le_imp_less_Suc toolRun_le)

definition message :: "string \<Rightarrow> any \<Rightarrow> any" where
  "message role content = AMap [(''role'', AStr role), (''content'', content)]"

fun renderTurn :: "turn \<Rightarrow> any" where
  "renderTurn (UserTurn c) = message ''user'' c"
| "renderTurn (AssistantTurn c) = message ''assistant'' c"
| "renderTurn (ToolTurn rs) = message ''user'' (AArr rs)"

text \<open>\<^verbatim>\<open>stop\<close> as a list of sequences.\<close>

definition stopSequences :: "params \<Rightarrow> any option" where
  "stopSequences payload =
     (case map_of payload ''stop'' of
        Some (AStr s) \<Rightarrow> Some (AArr [AStr s])
      | Some (AArr xs) \<Rightarrow> Some (AArr xs)
      | _ \<Rightarrow> None)"

text \<open>An entry copied under another name if it is there.\<close>

definition copied :: "params \<Rightarrow> string \<Rightarrow> string \<Rightarrow> params" where
  "copied m k k' = (case map_of m k of Some v \<Rightarrow> [(k', v)] | None \<Rightarrow> [])"

definition optional :: "string \<Rightarrow> any option \<Rightarrow> params" where
  "optional k v = (case v of Some x \<Rightarrow> [(k, x)] | None \<Rightarrow> [])"

text \<open>A data URI: its media type and data.\<close>

definition dataURI :: "string \<Rightarrow> (string \<times> string) option" where
  "dataURI url =
     (if CHR '','' \<in> set url then
        let (pre, rest) = cut (CHR '','') url; meta = TrimPrefix pre ''data:'' in Some (fst (cut (CHR '';'') meta), rest)
      else None)"

section \<open>The conversation is kept\<close>

text \<open>What a message contributes, with each tool result by itself.\<close>

definition turnsOf :: "chat_conv \<Rightarrow> any \<Rightarrow> turn list" where
  "turnsOf cv m =
     (case as_map m of
        None \<Rightarrow> []
      | Some msg \<Rightarrow>
          if roleOf msg = ''user'' then [UserTurn (cvUser cv msg)]
          else if roleOf msg = ''assistant'' then [AssistantTurn (cvAssistant cv msg)]
          else if roleOf msg = ''tool'' then [ToolTurn [cvTool cv msg]]
          else [])"

fun ungroup :: "turn \<Rightarrow> turn list" where
  "ungroup (ToolTurn rs) = map (\<lambda>r. ToolTurn [r]) rs"
| "ungroup t = [t]"

definition speaks :: "any \<Rightarrow> bool" where
  "speaks m = (case as_map m of Some msg \<Rightarrow> roleOf msg \<in> {''user'', ''assistant'', ''tool''} | None \<Rightarrow> False)"

fun isTool :: "turn \<Rightarrow> bool" where
  "isTool (ToolTurn _) = True"
| "isTool _ = False"

lemma toolRun_turns: "map (\<lambda>msg. ToolTurn [cvTool cv msg]) (fst (toolRun ms)) @ concat (map (turnsOf cv) (snd (toolRun ms))) = concat (map (turnsOf cv) ms)"
  by (induction ms) (auto simp: turnsOf_def split: option.splits)

lemma toolRun_stops: "list_all speaks ms \<Longrightarrow> list_all speaks (snd (toolRun ms)) \<and>
    (case snd (toolRun ms) of [] \<Rightarrow> True | m # _ \<Rightarrow> (case as_map m of Some msg \<Rightarrow> roleOf msg \<noteq> ''tool'' | None \<Rightarrow> False))"
  by (induction ms) (auto simp: speaks_def split: option.splits if_splits)

lemma convertLoop_turns: "concat (map ungroup (snd (convertLoop cv ms))) = concat (map (turnsOf cv) ms)"
proof (induction cv ms rule: convertLoop.induct)
  case (2 cv m ms)
  show ?case
  proof (cases "as_map m")
    case (Some msg)
    show ?thesis
    proof (cases "roleOf msg = ''tool''")
      case True
      then have "turnsOf cv m = [ToolTurn [cvTool cv msg]]" using Some by (simp add: turnsOf_def)
      then show ?thesis using "2.IH" (5) [OF Some refl] True Some toolRun_turns [of cv ms, symmetric]
        by (simp add: case_prod_unfold Let_def comp_def)
    qed (use 2 Some in \<open>auto simp: turnsOf_def case_prod_unfold Let_def\<close>)
  qed (use 2 in \<open>simp add: turnsOf_def\<close>)
qed simp

lemma convertLoop_tools: "list_all (\<lambda>t. t \<noteq> ToolTurn []) (snd (convertLoop cv ms))"
  by (induction cv ms rule: convertLoop.induct) (auto simp: case_prod_unfold Let_def split: option.splits)

text \<open>Between two groups of tool results somebody speaks, if every message speaks.\<close>

definition separate :: "turn list \<Rightarrow> bool" where
  "separate ts = successively (\<lambda>a b. \<not> (isTool a \<and> isTool b)) ts"

lemma separate_Cons: "separate (t # ts) \<longleftrightarrow> separate ts \<and> (ts = [] \<or> \<not> (isTool t \<and> isTool (hd ts)))"
  by (cases ts) (auto simp: separate_def)

lemma convertLoop_hd:
  assumes "list_all speaks ms" "case ms of [] \<Rightarrow> True | m # _ \<Rightarrow> (case as_map m of Some msg \<Rightarrow> roleOf msg \<noteq> ''tool'' | None \<Rightarrow> False)"
  shows "snd (convertLoop cv ms) = [] \<or> \<not> isTool (hd (snd (convertLoop cv ms)))"
  using assms by (cases ms) (auto simp: speaks_def case_prod_unfold Let_def split: option.splits)

lemma convertLoop_separate: "list_all speaks ms \<Longrightarrow> separate (snd (convertLoop cv ms))"
proof (induction cv ms rule: convertLoop.induct)
  case (2 cv m ms)
  then obtain msg where msg: "as_map m = Some msg" by (auto simp: speaks_def split: option.splits)
  show ?case
  proof (cases "roleOf msg = ''tool''")
    case True
    note stop = toolRun_stops [of ms]
    have "separate (snd (convertLoop cv (snd (toolRun ms))))" using "2.IH" (5) [OF msg refl] True stop "2.prems" by simp
    then show ?thesis using True msg stop "2.prems" convertLoop_hd [of "snd (toolRun ms)" cv]
      by (auto simp: separate_Cons case_prod_unfold Let_def)
  qed (use 2 msg in \<open>auto simp: separate_Cons speaks_def case_prod_unfold Let_def\<close>)
qed (simp add: separate_def)

text \<open>A program that converts the messages of a chat with this loop.\<close>

locale chat_translator =
  fixes cv :: chat_conv
    and convert :: "any list \<Rightarrow> any list"
  assumes converts: "convert ms = map renderTurn (snd (convertLoop cv ms))"
begin

lemma conversation_kept:
  "\<exists>turns. convert ms = map renderTurn turns \<and> concat (map ungroup turns) = concat (map (turnsOf cv) ms) \<and>
     ToolTurn [] \<notin> set turns \<and> (list_all speaks ms \<longrightarrow> separate turns)"
  using converts [of ms] convertLoop_turns [of cv ms] convertLoop_tools [of cv ms] convertLoop_separate [of ms cv]
  by (intro exI [of _ "snd (convertLoop cv ms)"]) (auto simp: list_all_iff)

end

end
