(* ===== verification/BedrockTransformer.thy ===== *)
theory BedrockTransformer
  imports LlmTranslate EventStream
begin

text \<open>
  \<^verbatim>\<open>openai-to-bedrock-transformer\<close>: a chat completion becomes a Converse request; the answer, JSON or an Amazon
  event stream, becomes a chat completion or a stream of events. The decoding of JSON into the structs of the
  program and the clock are arguments.
\<close>

section \<open>Requests\<close>

record bedrock_params =
  bpModel :: string
  bpProviderID :: string

definition bedrockName :: string where "bedrockName = ''openai-to-bedrock-transformer''"
definition effectiveModelKey :: string where "effectiveModelKey = ''openai_to_bedrock_effective_model''"

definition bedrock_parseParams :: "params \<Rightarrow> bedrock_params outcome" where
  "bedrock_parseParams m =
     andThen (optionalString m ''model'') (\<lambda>model.
     andThen (optionalString m ''providerId'') (\<lambda>pid. Ret \<lparr>bpModel = model, bpProviderID = pid\<rparr>))"

definition bedrock_GetPolicy :: "params \<Rightarrow> bedrock_params outcome" where
  "bedrock_GetPolicy m = invalidFor bedrockName (bedrock_parseParams m)"

definition bedrock_Mode :: "body_mode \<times> body_mode" where
  "bedrock_Mode = (BodyModeBuffer, BodyModeStream)"

definition bedrock_errResponse :: "llm_json \<Rightarrow> int \<Rightarrow> string \<Rightarrow> 'm hook_action" where
  "bedrock_errResponse lib status text =
     jsonReply status (marshalled lib (AMap [(''error'', AMap [(''message'', AStr text), (''type'', AStr ''invalid_request_error'')])]))"

definition textBlock :: "string \<Rightarrow> any" where "textBlock t = AMap [(''text'', AStr t)]"

text \<open>Only images inside the message, as data URIs.\<close>

definition bedrock_convertImage :: "params \<Rightarrow> any option" where
  "bedrock_convertImage block =
     (case as_map (index block ''image_url'') of
        None \<Rightarrow> None
      | Some obj \<Rightarrow>
          (case as_str (index obj ''url'') of
             None \<Rightarrow> None
           | Some url \<Rightarrow>
               if \<not> HasPrefix url ''data:'' then None
               else case dataURI url of
                 None \<Rightarrow> None
               | Some (mediaType, data) \<Rightarrow>
                   let format = TrimPrefix mediaType ''image/'' in
                   if format = '''' then None
                   else Some (AMap [(''image'', AMap [(''format'', AStr format), (''source'', AMap [(''bytes'', AStr data)])])])))"

definition userBlock :: "any \<Rightarrow> any list" where
  "userBlock part =
     (case as_map part of
        None \<Rightarrow> []
      | Some block \<Rightarrow>
          if index block ''type'' = AStr ''text'' then
            (case as_str (index block ''text'') of Some t \<Rightarrow> [textBlock t] | None \<Rightarrow> [])
          else if index block ''type'' = AStr ''image_url'' then
            (case bedrock_convertImage block of Some i \<Rightarrow> [i] | None \<Rightarrow> [])
          else [])"

definition bedrock_convertUserContent :: "any \<Rightarrow> any list" where
  "bedrock_convertUserContent content =
     (case content of
        AStr s \<Rightarrow> [textBlock s]
      | AArr parts \<Rightarrow> (let blocks = concat (map userBlock parts) in if blocks = [] then [textBlock ''''] else blocks)
      | _ \<Rightarrow> [textBlock ''''])"

text \<open>The decoded arguments of a call; an empty object where there are none or they do not parse.\<close>

definition toolInput :: "llm_json \<Rightarrow> string \<Rightarrow> any" where
  "toolInput lib args = (if args = '''' then AMap [] else case ljAny lib args of Inr v \<Rightarrow> v | Inl _ \<Rightarrow> AMap [])"

definition toolUseBlock :: "llm_json \<Rightarrow> any \<Rightarrow> any list" where
  "toolUseBlock lib raw =
     (case as_map raw of
        None \<Rightarrow> []
      | Some call \<Rightarrow>
          (case as_map (index call ''function'') of
             None \<Rightarrow> []
           | Some fn \<Rightarrow>
               [AMap [(''toolUse'', AMap [(''toolUseId'', AStr (strOr (index call ''id''))), (''name'', AStr (strOr (index fn ''name''))),
                  (''input'', toolInput lib (strOr (index fn ''arguments'')))])]]))"

definition arrayOr :: "any \<Rightarrow> any list" where
  "arrayOr v = (case as_arr v of Some xs \<Rightarrow> xs | None \<Rightarrow> [])"

definition bedrock_convertAssistantContent :: "llm_json \<Rightarrow> params \<Rightarrow> any list" where
  "bedrock_convertAssistantContent lib msg =
     (let text = extractText (index msg ''content'');
          blocks = (if text = '''' then [] else [textBlock text]) @ concat (map (toolUseBlock lib) (arrayOr (index msg ''tool_calls'')))
      in if blocks = [] then [textBlock ''''] else blocks)"

definition toolResult :: "params \<Rightarrow> any" where
  "toolResult msg =
     AMap [(''toolResult'', AMap [(''toolUseId'', AStr (strOr (index msg ''tool_call_id''))),
       (''content'', AArr [textBlock (extractText (index msg ''content''))])])]"

definition bedrockConv :: "llm_json \<Rightarrow> chat_conv" where
  "bedrockConv lib = \<lparr>cvUser = (\<lambda>msg. AArr (bedrock_convertUserContent (index msg ''content''))),
     cvAssistant = (\<lambda>msg. AArr (bedrock_convertAssistantContent lib msg)), cvTool = toolResult\<rparr>"

definition bedrock_convertMessages :: "llm_json \<Rightarrow> any list \<Rightarrow> any list \<times> any list" where
  "bedrock_convertMessages lib messages =
     (let (sys, out) = convertLoop (bedrockConv lib) messages in (map textBlock sys, map renderTurn out))"

definition buildInferenceConfig :: "params \<Rightarrow> params" where
  "buildInferenceConfig payload =
     (if map_of payload ''max_completion_tokens'' \<noteq> None then copied payload ''max_completion_tokens'' ''maxTokens''
      else copied payload ''max_tokens'' ''maxTokens'') @
     copied payload ''temperature'' ''temperature'' @ copied payload ''top_p'' ''topP'' @ optional ''stopSequences'' (stopSequences payload)"

definition convertTool :: "any \<Rightarrow> any list" where
  "convertTool raw =
     (case as_map raw of
        None \<Rightarrow> []
      | Some tool \<Rightarrow>
          (case as_map (index tool ''function'') of
             None \<Rightarrow> []
           | Some fn \<Rightarrow>
               let schema = (if index fn ''parameters'' = ANil then AMap [(''type'', AStr ''object''), (''properties'', AMap [])]
                     else index fn ''parameters'')
               in [AMap [(''toolSpec'', AMap ([(''name'', index fn ''name'')] @ copied fn ''description'' ''description'' @
                    [(''inputSchema'', AMap [(''json'', schema)])]))]]))"

definition bedrock_convertToolChoice :: "any \<Rightarrow> any option" where
  "bedrock_convertToolChoice choice =
     (case choice of
        AStr s \<Rightarrow>
          if s = ''required'' then Some (AMap [(''any'', AMap [])])
          else if s = ''auto'' then Some (AMap [(''auto'', AMap [])])
          else None
      | AMap m \<Rightarrow>
          (case as_map (index m ''function'') of
             None \<Rightarrow> None
           | Some fn \<Rightarrow> map_option (\<lambda>name. AMap [(''tool'', AMap [(''name'', AStr name)])]) (as_str (index fn ''name'')))
      | _ \<Rightarrow> None)"

definition buildToolConfig :: "params \<Rightarrow> any option" where
  "buildToolConfig payload =
     (case as_arr (index payload ''tools'') of
        None \<Rightarrow> None
      | Some tools \<Rightarrow>
          if tools = [] \<or> index payload ''tool_choice'' = AStr ''none'' then None
          else let converted = concat (map convertTool tools) in
            if converted = [] then None
            else Some (AMap ((''tools'', AArr converted) # optional ''toolChoice'' (bedrock_convertToolChoice (index payload ''tool_choice'')))))"

definition converseBody :: "llm_json \<Rightarrow> params \<Rightarrow> params" where
  "converseBody lib payload =
     (case as_arr (index payload ''messages'') of
        None \<Rightarrow> []
      | Some messages \<Rightarrow>
          let (sys, out) = bedrock_convertMessages lib messages
          in (if sys = [] then [] else [(''system'', AArr sys)]) @ (if out = [] then [] else [(''messages'', AArr out)])) @
     (let inference = buildInferenceConfig payload in if inference = [] then [] else [(''inferenceConfig'', AMap inference)]) @
     optional ''toolConfig'' (buildToolConfig payload)"

definition translateRequest :: "llm_json \<Rightarrow> params \<Rightarrow> up_mods" where
  "translateRequest lib payload =
     (case ljMarshal lib (AMap (converseBody lib payload)) of
        Inl err \<Rightarrow> noUpMods\<lparr>umBody := Some (''{'' @ inDquotes ''error'' @ '':{'' @ inDquotes ''message'' @ '':'' @
          inDquotes (''failed to marshal Bedrock body: '' @ err) @ ''}}'')\<rparr>
      | Inr b \<Rightarrow> noUpMods\<lparr>umBody := Some b, umSet := [(''content-type'', ''application/json'')], umRemove := [''content-length'']\<rparr>)"

definition bedrockConversePath :: "string \<Rightarrow> bool \<Rightarrow> string" where
  "bedrockConversePath model streaming = ''/model/'' @ model @ (if streaming then ''/converse-stream'' else ''/converse'')"

definition resolveModel :: "bedrock_params \<Rightarrow> params \<Rightarrow> string outcome" where
  "resolveModel p payload =
     (if bpModel p \<noteq> '''' then Ret (bpModel p)
      else if index payload ''model'' = ANil then
        Fail ''a Bedrock model must be provided in either the policy configuration or request body''
      else case as_str (index payload ''model'') of
        None \<Rightarrow> Fail (''request field '' @ quoted ''model'' @ '' must be a string'')
      | Some m \<Rightarrow>
          if TrimSpace m = '''' then Fail ''a Bedrock model must be provided in either the policy configuration or request body''
          else Ret (TrimSpace m))"

definition bedrock_OnRequestBody :: "llm_json \<Rightarrow> bedrock_params \<Rightarrow> body option \<Rightarrow> params \<Rightarrow> params \<times> up_mods hook_action" where
  "bedrock_OnRequestBody lib p bd md =
     (if \<not> shouldRun (bpProviderID p) md then (md, Modify noUpMods)
      else if noContent bd then (md, bedrock_errResponse lib 400 ''Request body is empty.'')
      else case ljObject lib (Content (the bd)) of
        Inl err \<Rightarrow> (md, bedrock_errResponse lib 400 (''Invalid JSON in request body: '' @ err))
      | Inr m \<Rightarrow>
          let payload = entries m in
          case resolveModel p payload of
            Ret model \<Rightarrow>
              (AList.update effectiveModelKey (AStr model) md,
               Modify ((translateRequest lib payload)\<lparr>umPath := Some (bedrockConversePath model (index payload ''stream'' = ABool True)),
                 umUpstream := upstreamOf (bpProviderID p)\<rparr>))
          | Fail err \<Rightarrow> (md, bedrock_errResponse lib 400 err)
          | Panic \<Rightarrow> (md, bedrock_errResponse lib 400 ''''))"

section \<open>Usage\<close>

record cacheDetail =
  cdTTL :: string
  cdInputTokens :: int

record converseUsage =
  uInput :: int
  uOutput :: int
  uTotal :: int
  uCacheRead :: int
  uCacheWrite :: int
  uDetails :: "cacheDetail list"

definition addAll :: "int list \<Rightarrow> int" where
  "addAll ns = foldl (\<lambda>a n. wrap64 (a + n)) 0 ns"

definition detailTokens :: "string \<Rightarrow> converseUsage \<Rightarrow> int" where
  "detailTokens ttl u = addAll (map cdInputTokens (filter (\<lambda>d. cdTTL d = ttl) (uDetails u)))"

definition cacheWritesByTTL :: "converseUsage \<Rightarrow> int \<times> int" where
  "cacheWritesByTTL u =
     (if uDetails u = [] then (uCacheWrite u, 0)
      else
        let w5 = detailTokens ''5m'' u; w1 = detailTokens ''1h'' u; classified = wrap64 (w5 + w1)
        in (if uCacheWrite u > classified then wrap64 (w5 + wrap64 (uCacheWrite u - classified)) else w5, w1))"

definition totalTokens :: "converseUsage \<Rightarrow> int" where
  "totalTokens u =
     (let (w5, w1) = cacheWritesByTTL u; inclusive = addAll [uInput u, uCacheRead u, w5, w1, uOutput u]
      in if uTotal u > inclusive then uTotal u else inclusive)"

definition openAIUsage :: "converseUsage \<Rightarrow> any" where
  "openAIUsage u =
     (let (w5, w1) = cacheWritesByTTL u; writes = wrap64 (w5 + w1) in
      AMap [(''prompt_tokens'', AInt (addAll [uInput u, uCacheRead u, writes])), (''completion_tokens'', AInt (uOutput u)),
        (''total_tokens'', AInt (totalTokens u)),
        (''prompt_tokens_details'', AMap [(''cached_tokens'', AInt (uCacheRead u)), (''cache_write_tokens'', AInt writes),
          (''cache_write_5m_tokens'', AInt w5), (''cache_write_1h_tokens'', AInt w1)])])"

section \<open>Responses\<close>

record converseToolUse =
  ctToolUseID :: string
  ctName :: string
  ctInput :: string

record converseContentBlock =
  cbText :: string
  cbToolUse :: "converseToolUse option"

record converseResponse =
  crContent :: "converseContentBlock list"
  crStopReason :: string
  crUsage :: converseUsage

text \<open>\<^verbatim>\<open>json.Unmarshal\<close> into the two structs, the message of an error and the time in seconds.\<close>

record bedrock_env =
  beConverse :: "string \<Rightarrow> converseResponse option"
  beMessage :: "string \<Rightarrow> string option"
  beCreated :: int
  beRandom :: "string option"
  beNanos :: int

definition stopReasonToFinish :: "string \<Rightarrow> bool \<Rightarrow> string" where
  "stopReasonToFinish stopReason hasToolCalls =
     (if stopReason = ''max_tokens'' then ''length''
      else if stopReason = ''tool_use'' then ''tool_calls''
      else if stopReason \<in> {''end_turn'', ''stop_sequence''} then ''stop''
      else if stopReason \<in> {''content_filtered'', ''guardrail_intervened''} then ''content_filter''
      else if hasToolCalls then ''tool_calls'' else ''stop'')"

definition rawInputToArguments :: "string \<Rightarrow> string" where
  "rawInputToArguments input = (if input = '''' then ''{}'' else input)"

definition toolCall :: "converseToolUse \<Rightarrow> any" where
  "toolCall t =
     AMap [(''id'', AStr (ctToolUseID t)), (''type'', AStr ''function''),
       (''function'', AMap [(''name'', AStr (ctName t)), (''arguments'', AStr (rawInputToArguments (ctInput t)))])]"

definition openAIResponse :: "bedrock_env \<Rightarrow> converseResponse \<Rightarrow> string \<Rightarrow> string \<Rightarrow> any" where
  "openAIResponse env resp model cid =
     (let calls = concat (map (\<lambda>b. case cbToolUse b of Some t \<Rightarrow> [toolCall t] | None \<Rightarrow> []) (crContent resp));
          message = AMap ([(''role'', AStr ''assistant''), (''content'', AStr (concat (map cbText (crContent resp))))] @
            (if calls = [] then [] else [(''tool_calls'', AArr calls)]))
      in AMap [(''id'', AStr cid), (''object'', AStr ''chat.completion''), (''created'', AInt64 (beCreated env)), (''model'', AStr model),
           (''choices'', AArr [AMap [(''index'', AInt 0), (''message'', message),
              (''finish_reason'', AStr (stopReasonToFinish (crStopReason resp) (calls \<noteq> [])))]]),
           (''usage'', openAIUsage (crUsage resp))])"

definition bedrock_translateErrorResponse :: "llm_json \<Rightarrow> bedrock_env \<Rightarrow> string \<Rightarrow> int \<Rightarrow> down_mods hook_action" where
  "bedrock_translateErrorResponse lib env bd status =
     (let text = (case beMessage env bd of Some m \<Rightarrow> if m = '''' then bd else m | None \<Rightarrow> bd) in
      case ljMarshal lib (AMap [(''error'', AMap [(''type'', AStr (mapStatusToOpenAIErrorType status)), (''message'', AStr text),
          (''code'', AStr (itoa status))])]) of
        Inl err \<Rightarrow> bedrock_errResponse lib 500 (''failed to translate Bedrock error: '' @ err)
      | Inr b \<Rightarrow> Modify (jsonDown b))"

definition translateConverseResponse :: "llm_json \<Rightarrow> bedrock_env \<Rightarrow> string \<Rightarrow> int \<Rightarrow> string \<Rightarrow> string \<Rightarrow> down_mods hook_action" where
  "translateConverseResponse lib env bd status model cid =
     (if status < 200 \<or> 300 \<le> status then bedrock_translateErrorResponse lib env bd status
      else case beConverse env bd of
        None \<Rightarrow> Modify noDownMods
      | Some resp \<Rightarrow>
          (case ljMarshal lib (openAIResponse env resp model cid) of
             Inl err \<Rightarrow> bedrock_errResponse lib 500 (''failed to translate Bedrock response: '' @ err)
           | Inr b \<Rightarrow> Modify (jsonDown b)))"

section \<open>Streams\<close>

text \<open>\<open>None\<close> where the number is missing, no number or not whole.\<close>

fun isWhole :: "f64 \<Rightarrow> bool" where
  "isWhole (Fin r) \<longleftrightarrow> of_int \<lfloor>r\<rfloor> = r"
| "isWhole _ \<longleftrightarrow> False"

fun toInt :: "any \<Rightarrow> int option" where
  "toInt (AInt n) = Some n"
| "toInt (AInt64 n) = Some n"
| "toInt (AFloat x) = (if isWhole x then Some (f64_to_int64 x) else None)"
| "toInt _ = None"

definition numberField :: "params \<Rightarrow> string \<Rightarrow> int" where
  "numberField m k = (case toInt (index m k) of Some n \<Rightarrow> n | None \<Rightarrow> 0)"

definition blockIndex :: "params \<Rightarrow> int" where
  "blockIndex event = numberField event ''contentBlockIndex''"

definition cacheDetailsField :: "params \<Rightarrow> cacheDetail list" where
  "cacheDetailsField m =
     concat (map (\<lambda>raw. let detail = mapOr raw; ttl = strOr (index detail ''ttl'') in
         if ttl = '''' then [] else [\<lparr>cdTTL = ttl, cdInputTokens = numberField detail ''inputTokens''\<rparr>])
       (arrayOr (index m ''cacheDetails'')))"

definition streamChunk :: "string \<Rightarrow> string \<Rightarrow> int \<Rightarrow> params" where
  "streamChunk cid model created =
     [(''id'', AStr cid), (''object'', AStr ''chat.completion.chunk''), (''created'', AInt64 created), (''model'', AStr model)]"

definition streamChoice :: "string \<Rightarrow> string \<Rightarrow> int \<Rightarrow> params \<Rightarrow> any \<Rightarrow> any" where
  "streamChoice cid model created delta finishReason =
     AMap (streamChunk cid model created @
       [(''choices'', AArr [AMap [(''index'', AInt 0), (''delta'', AMap delta), (''finish_reason'', finishReason)]])])"

definition sseData :: "llm_json \<Rightarrow> any \<Rightarrow> string" where
  "sseData lib payload = (case ljMarshal lib payload of Inl _ \<Rightarrow> '''' | Inr b \<Rightarrow> ''data: '' @ b @ [newline, newline])"

definition exceptionMessage :: "bedrock_env \<Rightarrow> eventStreamFrame \<Rightarrow> string" where
  "exceptionMessage env f =
     (case beMessage env (Payload f) of
        Some m \<Rightarrow> if m \<noteq> '''' then m else if ExceptionType f \<noteq> '''' then ExceptionType f else ''bedrock stream error''
      | None \<Rightarrow> if ExceptionType f \<noteq> '''' then ExceptionType f else ''bedrock stream error'')"

definition usageField :: "params \<Rightarrow> converseUsage" where
  "usageField usage =
     \<lparr>uInput = numberField usage ''inputTokens'', uOutput = numberField usage ''outputTokens'', uTotal = numberField usage ''totalTokens'',
      uCacheRead = numberField usage ''cacheReadInputTokens'', uCacheWrite = numberField usage ''cacheWriteInputTokens'',
      uDetails = cacheDetailsField usage\<rparr>"

definition streamFrameToSSE :: "llm_json \<Rightarrow> bedrock_env \<Rightarrow> string \<Rightarrow> string \<Rightarrow> eventStreamFrame \<Rightarrow> string" where
  "streamFrameToSSE lib env cid model f =
     (if MessageType f = ''exception'' \<or> ExceptionType f \<noteq> '''' then
        sseData lib (AMap [(''error'', AMap [(''type'', AStr ''server_error''), (''message'', AStr (exceptionMessage env f))])])
      else
        let event = (if Payload f = '''' then [] else case ljObject lib (Payload f) of Inr m \<Rightarrow> entries m | Inl _ \<Rightarrow> []);
            choice = streamChoice cid model (beCreated env)
        in if EventType f = ''messageStart'' then sseData lib (choice [(''role'', AStr ''assistant'')] ANil)
           else if EventType f = ''contentBlockStart'' then
             (case as_map (index (mapOr (index event ''start'')) ''toolUse'') of
                None \<Rightarrow> ''''
              | Some use \<Rightarrow>
                  sseData lib (choice [(''tool_calls'', AArr [AMap [(''index'', AInt (blockIndex event)), (''id'', index use ''toolUseId''),
                    (''type'', AStr ''function''), (''function'', AMap [(''name'', index use ''name''), (''arguments'', AStr '''')])]])] ANil))
           else if EventType f = ''contentBlockDelta'' then
             (let delta = mapOr (index event ''delta'') in
              case as_str (index delta ''text'') of
                Some text \<Rightarrow> sseData lib (choice [(''content'', AStr text)] ANil)
              | None \<Rightarrow>
                  (case as_map (index delta ''toolUse'') of
                     None \<Rightarrow> ''''
                   | Some use \<Rightarrow>
                       sseData lib (choice [(''tool_calls'', AArr [AMap [(''index'', AInt (blockIndex event)),
                         (''function'', AMap [(''arguments'', AStr (strOr (index use ''input'')))])]])] ANil)))
           else if EventType f = ''messageStop'' then
             sseData lib (choice [] (AStr (stopReasonToFinish (strOr (index event ''stopReason'')) False)))
           else if EventType f = ''metadata'' then
             (case as_map (index event ''usage'') of
                None \<Rightarrow> ''''
              | Some usage \<Rightarrow>
                  sseData lib (AMap (streamChunk cid model (beCreated env) @ [(''choices'', AArr []), (''usage'', openAIUsage (usageField usage))])))
           else '''')"

definition sseDonePayload :: string where "sseDonePayload = ''data: [DONE]'' @ [newline, newline]"

definition eventStreamToSSE :: "llm_json \<Rightarrow> bedrock_env \<Rightarrow> string \<Rightarrow> bool \<Rightarrow> string \<Rightarrow> string \<Rightarrow> string" where
  "eventStreamToSSE lib env data endOfStream cid model =
     (case decodeEventStreamFrames data of
        (frames, _, ok) \<Rightarrow> (if ok then concat (map (streamFrameToSSE lib env cid model) frames) else data)) @
     (if endOfStream then sseDonePayload else '''')"

section \<open>The response hooks\<close>

definition headerValue :: "headers option \<Rightarrow> string \<Rightarrow> string" where
  "headerValue hs name = (case headerGet hs name of [] \<Rightarrow> '''' | v # _ \<Rightarrow> v)"

definition isEventStreamContentType :: "string \<Rightarrow> bool" where
  "isEventStreamContentType contentType =
     (let ct = ToLower contentType in Contains ct ''vnd.amazon.eventstream'' \<or> Contains ct ''application/octet-stream'')"

definition looksLikeEventStream :: "string \<Rightarrow> bool" where
  "looksLikeEventStream bd =
     (if length bd < preludeWithCRCLen then False
      else let t = dropWhile json_space (take 1 bd) in
        if HasPrefix t ''{'' \<or> HasPrefix t ''['' then False else snd (snd (eventStreamBoundary bd)))"

definition effectiveModel :: "bedrock_params \<Rightarrow> params \<Rightarrow> string" where
  "effectiveModel p md = (let m = strOr (index md effectiveModelKey) in if m \<noteq> '''' then m else bpModel p)"

definition completionID :: "bedrock_env \<Rightarrow> string \<Rightarrow> string" where
  "completionID env requestID =
     (if requestID \<noteq> '''' then ''chatcmpl-'' @ filter (\<lambda>c. c \<noteq> CHR ''-'') requestID else newChatCompletionID (beRandom env) (beNanos env))"

definition bedrock_OnResponseHeaders :: "bedrock_params \<Rightarrow> headers option \<Rightarrow> params \<Rightarrow> down_mods" where
  "bedrock_OnResponseHeaders p hs md =
     (if \<not> shouldRun (bpProviderID p) md \<or> \<not> isEventStreamContentType (headerValue hs ''content-type'') then noDownMods
      else \<lparr>dmBody = None, dmSet = [(''content-type'', ''text/event-stream'')], dmRemove = [''content-length'']\<rparr>)"

definition bedrock_OnResponseBody :: "llm_json \<Rightarrow> bedrock_env \<Rightarrow> bedrock_params \<Rightarrow> body option \<Rightarrow> headers option \<Rightarrow> int \<Rightarrow> string \<Rightarrow> params \<Rightarrow> down_mods hook_action" where
  "bedrock_OnResponseBody lib env p bd hs status rid md =
     (if \<not> shouldRun (bpProviderID p) md \<or> noContent bd then Modify noDownMods
      else let data = Content (the bd); model = effectiveModel p md; cid = completionID env rid in
        if isEventStreamContentType (headerValue hs ''content-type'') \<or> looksLikeEventStream data then
          Modify \<lparr>dmBody = Some (eventStreamToSSE lib env data True cid model), dmSet = [(''content-type'', ''text/event-stream'')],
            dmRemove = [''content-length'']\<rparr>
        else translateConverseResponse lib env data status model cid)"

definition bedrock_NeedsMoreResponseData :: "string \<Rightarrow> bool" where
  "bedrock_NeedsMoreResponseData accumulated =
     (if accumulated = '''' then False
      else case eventStreamBoundary accumulated of (_, hasPartial, ok) \<Rightarrow> if ok then hasPartial else False)"

text \<open>\<open>None\<close> forwards the chunk as it is.\<close>

definition bedrock_OnResponseBodyChunk :: "llm_json \<Rightarrow> bedrock_env \<Rightarrow> bedrock_params \<Rightarrow> string \<Rightarrow> bool \<Rightarrow> string \<Rightarrow> params \<Rightarrow> string option" where
  "bedrock_OnResponseBodyChunk lib env p chunk endOfStream rid md =
     (if \<not> shouldRun (bpProviderID p) md then None
      else Some (eventStreamToSSE lib env chunk endOfStream (completionID env rid) (effectiveModel p md)))"

section \<open>Properties\<close>

interpretation bedrock_chat: chat_translator "bedrockConv lib" "\<lambda>ms. snd (bedrock_convertMessages lib ms)" for lib
  by unfold_locales (simp add: bedrock_convertMessages_def case_prod_unfold Let_def)


definition sample_json :: llm_json where
  "sample_json = \<lparr>ljObject = \<lambda>_. Inr (Some []), ljAny = \<lambda>_. Inl '''', ljMarshal = \<lambda>_. Inr ''{}''\<rparr>"

definition sample_tool_chat :: "any list" where
  "sample_tool_chat = [AMap [(''role'', AStr ''user''), (''content'', AStr ''a'')], AMap [(''role'', AStr ''tool''), (''content'', AStr ''b'')],
     AMap [(''role'', AStr ''tool''), (''content'', AStr ''c'')]]"


text \<open>The chunks the gateway hands to the hook: bytes are held back as long as the hook asks for more, and the last
  piece is always handed over.\<close>

fun flushes :: "(string \<Rightarrow> bool) \<Rightarrow> string \<Rightarrow> string list \<Rightarrow> (string \<times> bool) list" where
  "flushes needsMore acc [] = []"
| "flushes needsMore acc [p] = [(acc @ p, True)]"
| "flushes needsMore acc (p # q # ps) =
     (if needsMore (acc @ p) then flushes needsMore (acc @ p) (q # ps) else (acc @ p, False) # flushes needsMore '''' (q # ps))"

lemma eventStreamToSSE_whole:
  "whole data fs \<Longrightarrow> eventStreamToSSE lib env data e cid model =
     concat (map (streamFrameToSSE lib env cid model) fs) @ (if e then sseDonePayload else '''')"
  by (simp add: eventStreamToSSE_def decode_whole [symmetric])

lemma needs_more:
  assumes "whole (a @ b) fs" "\<not> bedrock_NeedsMoreResponseData a"
  obtains gs hs where "whole a gs" "whole b hs" "fs = gs @ hs"
proof (cases "a = ''''")
  case True
  then show ?thesis using assms(1) that [of "[]" fs] by (auto intro: whole.intros)
next
  case False
  then have "\<not> fst (snd (eventStreamBoundary a)) \<or> \<not> snd (snd (eventStreamBoundary a))"
    using assms(2) by (auto simp: bedrock_NeedsMoreResponseData_def split: prod.splits if_splits)
  then show ?thesis using whole_not_partial [OF assms(1)] that by blast
qed

lemma flushes_translate:
  assumes "whole (acc @ concat ps) fs" "ps \<noteq> []"
  shows "concat (map (\<lambda>(c, e). eventStreamToSSE lib env c e cid model) (flushes bedrock_NeedsMoreResponseData acc ps)) =
    concat (map (streamFrameToSSE lib env cid model) fs) @ sseDonePayload"
  using assms
proof (induction bedrock_NeedsMoreResponseData acc ps arbitrary: fs rule: flushes.induct)
  case (2 acc p)
  then show ?case using eventStreamToSSE_whole [of "acc @ p" fs lib env True] by simp
next
  case (3 acc p q ps)
  show ?case
  proof (cases "bedrock_NeedsMoreResponseData (acc @ p)")
    case False
    then obtain gs hs where "whole (acc @ p) gs" "whole (concat (q # ps)) hs" "fs = gs @ hs"
      using 3(3) needs_more [of "acc @ p" "concat (q # ps)" fs] by auto
    then show ?thesis using 3(2) [OF False, of hs] False eventStreamToSSE_whole [of "acc @ p" gs lib env False] by simp
  qed (use 3 in simp)
qed simp

text \<open>C33: a translated stream does not depend on how it is cut. The bytes of a Bedrock event stream arrive in pieces of any
  length, cut anywhere, also inside a frame. Whatever the pieces, the events the chunk hook sends are together
  those the buffered hook sends for the whole body: the translation of the frames in order, none lost, doubled or
  torn, and one final \<open>[DONE]\<close>. (The clock stands still, and the request has an identifier.)\<close>
theorem bedrock_stream_as_buffered:
  assumes "shouldRun (bpProviderID p) md" "isEventStreamContentType (headerValue hs ''content-type'')" "pieces \<noteq> []" "concat pieces \<noteq> ''''"
    and "decodeEventStreamFrames (concat pieces) = (fs, length (concat pieces), True)" "rid \<noteq> ''''"
  shows "map_option concat (those (map (\<lambda>(c, e). bedrock_OnResponseBodyChunk lib env p c e rid md) (flushes bedrock_NeedsMoreResponseData '''' pieces))) =
      Some (concat (map (streamFrameToSSE lib env (completionID env rid) (effectiveModel p md)) fs) @ sseDonePayload) \<and>
    (\<exists>mods. bedrock_OnResponseBody lib env p (Some \<lparr>Content = concat pieces, Present = True\<rparr>) hs status rid md = Modify mods \<and>
      dmBody mods = Some (concat (map (streamFrameToSSE lib env (completionID env rid) (effectiveModel p md)) fs) @ sseDonePayload))"
proof
  have those: "those (map (\<lambda>x. Some (f x)) xs) = Some (map f xs)" for f :: "string \<times> bool \<Rightarrow> string" and xs
    by (induction xs) auto
  have w: "whole (concat pieces) fs" using assms(5) by (simp add: decode_whole)
  show "map_option concat (those (map (\<lambda>(c, e). bedrock_OnResponseBodyChunk lib env p c e rid md) (flushes bedrock_NeedsMoreResponseData '''' pieces))) =
      Some (concat (map (streamFrameToSSE lib env (completionID env rid) (effectiveModel p md)) fs) @ sseDonePayload)"
    using flushes_translate [of "''''" pieces fs lib env] w assms(1,3)
    by (simp add: bedrock_OnResponseBodyChunk_def case_prod_unfold those)
  show "\<exists>mods. bedrock_OnResponseBody lib env p (Some \<lparr>Content = concat pieces, Present = True\<rparr>) hs status rid md = Modify mods \<and>
      dmBody mods = Some (concat (map (streamFrameToSSE lib env (completionID env rid) (effectiveModel p md)) fs) @ sseDonePayload)"
    using assms(1,2,4) eventStreamToSSE_whole [OF w, of lib env True]
    by (auto simp: bedrock_OnResponseBody_def noContent_def Let_def)
qed

definition sample_bedrock_env :: bedrock_env where
  "sample_bedrock_env = \<lparr>beConverse = \<lambda>_. None, beMessage = \<lambda>_. None, beCreated = 0, beRandom = None, beNanos = 0\<rparr>"

definition sample_pieces :: "string list" where
  "sample_pieces = (let b = encodeFrame sample_wire in [take 7 b, drop 7 b @ take 20 b, drop 20 b])"

lemma sample_pieces_decode: "decodeEventStreamFrames (concat sample_pieces) = ([frameOf sample_wire, frameOf sample_wire], length (concat sample_pieces), True)"
proof -
  have w: "frameOk sample_wire"
    by (simp add: sample_wire_def frameOk_def frameLength_def encodeHeaders_def encodeHeader_def maxFrameLen_def)
  have "concat sample_pieces = concat (map encodeFrame [sample_wire, sample_wire])"
    unfolding sample_pieces_def Let_def concat.simps append_assoc [symmetric] append_take_drop_id list.map by simp
  then show ?thesis unfolding decode_whole using whole_encode [of "[sample_wire, sample_wire]"] w by simp
qed

lemma bedrock_stream_as_buffered_witness:
  "map_option concat (those (map (\<lambda>(c, e). bedrock_OnResponseBodyChunk sample_json sample_bedrock_env \<lparr>bpModel = '''', bpProviderID = ''''\<rparr> c e ''r'' [])
     (flushes bedrock_NeedsMoreResponseData '''' sample_pieces))) = Some sseDonePayload"
proof -
  have "concat sample_pieces \<noteq> ''''" by (simp add: sample_pieces_def Let_def encodeFrame_def be32_def)
  moreover have "shouldRun '''' []" "isEventStreamContentType (headerValue (Some (\<lambda>_. [''application/vnd.amazon.eventstream''])) ''content-type'')"
    by code_simp+
  ultimately show ?thesis
    using bedrock_stream_as_buffered [OF _ _ _ _ sample_pieces_decode, of "\<lparr>bpModel = '''', bpProviderID = ''''\<rparr>" "[]"
      "Some (\<lambda>_. [''application/vnd.amazon.eventstream''])" "''r''" sample_json sample_bedrock_env]
    by (simp add: streamFrameToSSE_def frameOf_def sample_wire_def textOf_def sample_json_def entries_def index_def sample_pieces_def Let_def)
qed

text \<open>Sums of token counts that fit are exact.\<close>

definition counts :: "int list \<Rightarrow> bool" where
  "counts ns \<longleftrightarrow> list_all (\<lambda>n. 0 \<le> n) ns \<and> sum_list ns < 2 ^ 62"

lemma sum_list_nonneg_int: "list_all (\<lambda>n. 0 \<le> n) ns \<Longrightarrow> 0 \<le> sum_list (ns :: int list)"
  by (induction ns) auto

lemma addAll_exact: "counts ns \<Longrightarrow> addAll ns = sum_list ns"
proof -
  have "0 \<le> a \<Longrightarrow> list_all (\<lambda>n. 0 \<le> n) ns \<Longrightarrow> a + sum_list ns < 2 ^ 62 \<Longrightarrow> foldl (\<lambda>a n. wrap64 (a + n)) a ns = a + sum_list ns" for a
  proof (induction ns arbitrary: a)
    case (Cons n ns)
    have "wrap64 (a + n) = a + n" using Cons.prems sum_list_nonneg_int [of ns] by (intro wrap64_id) (simp add: int64_def)
    then show ?case using Cons by (simp add: add.assoc)
  qed simp
  from this [of 0] show "counts ns \<Longrightarrow> ?thesis" by (simp add: addAll_def counts_def)
qed

definition usageOk :: "converseUsage \<Rightarrow> bool" where
  "usageOk u \<longleftrightarrow> counts ([uInput u, uOutput u, uCacheRead u, uCacheWrite u] @ map cdInputTokens (uDetails u))"

lemma detail_sums:
  assumes "list_all (\<lambda>d. 0 \<le> cdInputTokens d) ds"
  shows "0 \<le> sum_list (map cdInputTokens (filter (\<lambda>d. cdTTL d = t) ds))"
    "t \<noteq> t' \<Longrightarrow> sum_list (map cdInputTokens (filter (\<lambda>d. cdTTL d = t) ds)) + sum_list (map cdInputTokens (filter (\<lambda>d. cdTTL d = t') ds)) \<le>
      sum_list (map cdInputTokens ds)"
  using assms by (induction ds) auto

lemma cacheWrites_exact:
  assumes "usageOk u" "cacheWritesByTTL u = (w5, w1)"
  shows "0 \<le> w5 \<and> 0 \<le> w1 \<and> uCacheWrite u \<le> w5 + w1 \<and> w5 + w1 \<le> uCacheWrite u + sum_list (map cdInputTokens (uDetails u))"
proof (cases "uDetails u = []")
  case True
  then show ?thesis using assms by (auto simp: cacheWritesByTTL_def usageOk_def counts_def)
next
  case False
  let ?s = "\<lambda>t. sum_list (map cdInputTokens (filter (\<lambda>d. cdTTL d = t) (uDetails u)))"
  have nn: "list_all (\<lambda>d. 0 \<le> cdInputTokens d) (uDetails u)" "0 \<le> uCacheWrite u"
    and lt: "uCacheWrite u + sum_list (map cdInputTokens (uDetails u)) < 2 ^ 62"
    using assms(1) by (auto simp: usageOk_def counts_def list_all_iff)
  note s = detail_sums(1) [OF nn(1), of "''5m''"] detail_sums(1) [OF nn(1), of "''1h''"] detail_sums(2) [OF nn(1), of "''5m''" "''1h''"]
  have d: "detailTokens t u = ?s t" if "t = ''5m'' \<or> t = ''1h''" for t
    using that s lt nn unfolding detailTokens_def by (intro addAll_exact) (auto simp: counts_def list_all_iff)
  have c: "wrap64 (?s ''5m'' + ?s ''1h'') = ?s ''5m'' + ?s ''1h''" using s lt nn by (intro wrap64_id) (simp add: int64_def)
  have w: "wrap64 (?s ''5m'' + wrap64 (uCacheWrite u - (?s ''5m'' + ?s ''1h''))) = uCacheWrite u - ?s ''1h''"
    if "?s ''5m'' + ?s ''1h'' < uCacheWrite u" using s lt nn that by (simp add: wrap64_id int64_def)
  have "(w5, w1) = (if ?s ''5m'' + ?s ''1h'' < uCacheWrite u then uCacheWrite u - ?s ''1h'' else ?s ''5m'', ?s ''1h'')"
    using assms(2) False c w by (auto simp: cacheWritesByTTL_def Let_def d)
  then show ?thesis using s nn by (auto split: if_splits)
qed

definition tokens :: "any \<Rightarrow> string \<Rightarrow> int" where
  "tokens m k = (case toInt (index (mapOr m) k) of Some n \<Rightarrow> n | None \<Rightarrow> 0)"

text \<open>The token counts reported to an OpenAI client add up. For the usage of a Converse response whose counts
  are not negative and fit in 62 bits together, the prompt tokens include the tokens read from and written to the cache,
  the writes by lifetime are not less than the writes reported, and the total covers prompt and completion and the
  total of the provider.\<close>
lemma bedrock_usage_adds_up:
  assumes "usageOk u" "details = index (mapOr (openAIUsage u)) ''prompt_tokens_details''"
  shows "tokens (openAIUsage u) ''prompt_tokens'' = uInput u + tokens details ''cached_tokens'' + tokens details ''cache_write_tokens'' \<and>
    tokens details ''cache_write_tokens'' = tokens details ''cache_write_5m_tokens'' + tokens details ''cache_write_1h_tokens'' \<and>
    uCacheWrite u \<le> tokens details ''cache_write_tokens'' \<and>
    tokens (openAIUsage u) ''prompt_tokens'' + tokens (openAIUsage u) ''completion_tokens'' \<le> tokens (openAIUsage u) ''total_tokens'' \<and>
    uTotal u \<le> tokens (openAIUsage u) ''total_tokens''"
proof -
  obtain w5 w1 where c: "cacheWritesByTTL u = (w5, w1)" by fastforce
  note w = cacheWrites_exact [OF assms(1) c]
  have nn: "0 \<le> uInput u" "0 \<le> uOutput u" "0 \<le> uCacheRead u"
    and lt: "uInput u + uOutput u + uCacheRead u + uCacheWrite u + sum_list (map cdInputTokens (uDetails u)) < 2 ^ 62"
    using assms(1) by (auto simp: usageOk_def counts_def)
  have "wrap64 (w5 + w1) = w5 + w1" using w nn lt by (intro wrap64_id) (simp add: int64_def)
  moreover have "addAll [uInput u, uCacheRead u, w5 + w1] = uInput u + uCacheRead u + (w5 + w1)"
    "addAll [uInput u, uCacheRead u, w5, w1, uOutput u] = uInput u + uCacheRead u + w5 + w1 + uOutput u"
    using w nn lt by (subst addAll_exact; simp add: counts_def)+
  ultimately show ?thesis using w
    by (auto simp: assms(2) openAIUsage_def totalTokens_def c tokens_def mapOr_def entries_def index_def Let_def)
qed

definition sample_usage :: converseUsage where
  "sample_usage = \<lparr>uInput = 10, uOutput = 5, uTotal = 20, uCacheRead = 3, uCacheWrite = 4, uDetails = [\<lparr>cdTTL = ''1h'', cdInputTokens = 1\<rparr>]\<rparr>"

lemma bedrock_usage_adds_up_example:
  "tokens (openAIUsage sample_usage) ''prompt_tokens'' + tokens (openAIUsage sample_usage) ''completion_tokens'' \<le>
     tokens (openAIUsage sample_usage) ''total_tokens''"
  using bedrock_usage_adds_up [OF _ refl, of sample_usage] by (simp add: sample_usage_def usageOk_def counts_def)

end
