(* ===== verification/ChatTransformers.thy ===== *)
theory ChatTransformers
  imports LlmTranslate
begin

text \<open>
  \<^verbatim>\<open>openai-to-anthropic-transformer\<close>, \<^verbatim>\<open>openai-to-mistral-transformer\<close> and
  \<^verbatim>\<open>openai-to-azure-openai-transformer\<close>. The decoding of JSON into the structs of the programs, the clock and the
  random bytes are arguments. A slice that is nil is printed as \<^verbatim>\<open>null\<close>, so it is \<open>ANil\<close>.
\<close>

section \<open>Anthropic: requests\<close>

record anthropic_params =
  apModel :: string
  apVersion :: string
  apProviderID :: string

definition anthropicName :: string where "anthropicName = ''openai-to-anthropic-transformer''"

definition requiredModel :: "params \<Rightarrow> string outcome" where
  "requiredModel m = andThen (optionalString m ''model'') (\<lambda>model. if model = '''' then Fail (quoted ''model'' @ '' is required'') else Ret model)"

definition anthropic_parseParams :: "params \<Rightarrow> anthropic_params outcome" where
  "anthropic_parseParams m =
     andThen (requiredModel m) (\<lambda>model.
     andThen (optionalString m ''providerId'') (\<lambda>pid.
     andThen (optionalString m ''anthropicVersion'') (\<lambda>version.
       Ret \<lparr>apModel = model, apVersion = (if version = '''' then ''2023-06-01'' else version), apProviderID = pid\<rparr>)))"

definition anthropic_GetPolicy :: "params \<Rightarrow> anthropic_params outcome" where
  "anthropic_GetPolicy m = invalidFor anthropicName (anthropic_parseParams m)"

definition anthropic_Mode :: "body_mode \<times> body_mode" where
  "anthropic_Mode = (BodyModeBuffer, BodyModeBuffer)"

definition anthropic_convertImage :: "params \<Rightarrow> any option" where
  "anthropic_convertImage block =
     (case as_map (index block ''image_url'') of
        None \<Rightarrow> None
      | Some obj \<Rightarrow>
          let url = strOr (index obj ''url'') in
          if url = '''' then None
          else if HasPrefix url ''data:'' then
            map_option (\<lambda>(mediaType, data). AMap [(''type'', AStr ''image''), (''source'', AMap [(''type'', AStr ''base64''),
              (''media_type'', AStr mediaType), (''data'', AStr data)])]) (dataURI url)
          else Some (AMap [(''type'', AStr ''image''), (''source'', AMap [(''type'', AStr ''url''), (''url'', AStr url)])]))"

definition anthropic_userBlock :: "any \<Rightarrow> any list" where
  "anthropic_userBlock part =
     (case as_map part of
        None \<Rightarrow> []
      | Some block \<Rightarrow>
          if index block ''type'' = AStr ''text'' then [AMap [(''type'', AStr ''text''), (''text'', index block ''text'')]]
          else if index block ''type'' = AStr ''image_url'' then
            (case anthropic_convertImage block of Some b \<Rightarrow> [b] | None \<Rightarrow> [])
          else [])"

definition anthropic_convertUserContent :: "any \<Rightarrow> any" where
  "anthropic_convertUserContent content =
     (case content of
        AArr parts \<Rightarrow> (let blocks = concat (map anthropic_userBlock parts) in if blocks = [] then content else AArr blocks)
      | _ \<Rightarrow> content)"

definition anthropic_toolUse :: "llm_json \<Rightarrow> any \<Rightarrow> any list" where
  "anthropic_toolUse lib raw =
     (case as_map raw of
        None \<Rightarrow> []
      | Some call \<Rightarrow>
          (case as_map (index call ''function'') of
             None \<Rightarrow> []
           | Some fn \<Rightarrow>
               let args = strOr (index fn ''arguments'');
                   input = (if args = '''' then AMap [] else case ljAny lib args of Inr v \<Rightarrow> v | Inl _ \<Rightarrow> AMap [])
               in [AMap [(''type'', AStr ''tool_use''), (''id'', AStr (strOr (index call ''id''))), (''name'', AStr (strOr (index fn ''name''))),
                    (''input'', input)]]))"

definition anthropic_convertAssistantContent :: "llm_json \<Rightarrow> params \<Rightarrow> any" where
  "anthropic_convertAssistantContent lib msg =
     (let text = extractText (index msg ''content'') in
      case as_arr (index msg ''tool_calls'') of
        Some (call # calls) \<Rightarrow>
          let blocks = (if text = '''' then [] else [AMap [(''type'', AStr ''text''), (''text'', AStr text)]]) @
                concat (map (anthropic_toolUse lib) (call # calls))
          in if blocks = [] then ANil else AArr blocks
      | _ \<Rightarrow> if text = '''' then index msg ''content'' else AStr text)"

definition anthropic_toolResult :: "params \<Rightarrow> any" where
  "anthropic_toolResult msg =
     AMap [(''type'', AStr ''tool_result''), (''tool_use_id'', AStr (strOr (index msg ''tool_call_id''))),
       (''content'', AStr (extractText (index msg ''content'')))]"

definition anthropicConv :: "llm_json \<Rightarrow> chat_conv" where
  "anthropicConv lib = \<lparr>cvUser = (\<lambda>msg. anthropic_convertUserContent (index msg ''content'')),
     cvAssistant = anthropic_convertAssistantContent lib, cvTool = anthropic_toolResult\<rparr>"

definition anthropic_convertMessages :: "llm_json \<Rightarrow> any list \<Rightarrow> string \<times> any list" where
  "anthropic_convertMessages lib messages =
     (let (sys, out) = convertLoop (anthropicConv lib) messages in (join [newline] sys, map renderTurn out))"

definition anthropic_tool :: "any \<Rightarrow> any list" where
  "anthropic_tool raw =
     (case as_map raw of
        None \<Rightarrow> []
      | Some tool \<Rightarrow>
          (case as_map (index tool ''function'') of
             None \<Rightarrow> []
           | Some fn \<Rightarrow>
               [AMap ([(''name'', index fn ''name'')] @ copied fn ''description'' ''description'' @
                  [(''input_schema'', case map_of fn ''parameters'' of
                      Some schema \<Rightarrow> schema
                    | None \<Rightarrow> AMap [(''type'', AStr ''object''), (''properties'', AMap [])])])]))"

definition convertTools :: "any list \<Rightarrow> any list" where
  "convertTools tools = concat (map anthropic_tool tools)"

text \<open>\<open>None\<close> for \<^verbatim>\<open>none\<close>.\<close>

definition anthropic_convertToolChoice :: "any \<Rightarrow> any option" where
  "anthropic_convertToolChoice choice =
     (let auto = AMap [(''type'', AStr ''auto'')] in
      case choice of
        AStr s \<Rightarrow> if s = ''none'' then None else if s = ''required'' then Some (AMap [(''type'', AStr ''any'')]) else Some auto
      | AMap m \<Rightarrow>
          (case as_map (index m ''function'') of
             None \<Rightarrow> Some auto
           | Some fn \<Rightarrow>
               (case as_str (index fn ''name'') of
                  Some name \<Rightarrow> Some (AMap [(''type'', AStr ''tool''), (''name'', AStr name)])
                | None \<Rightarrow> Some auto))
      | _ \<Rightarrow> Some auto)"

definition anthropicBody :: "llm_json \<Rightarrow> params \<Rightarrow> string \<Rightarrow> params" where
  "anthropicBody lib payload model =
     (let conversation = (case as_arr (index payload ''messages'') of
            None \<Rightarrow> []
          | Some messages \<Rightarrow>
              let (sys, out) = anthropic_convertMessages lib messages
              in (if sys = '''' then [] else [(''system'', AStr sys)]) @ (if out = [] then [] else [(''messages'', AArr out)]));
          maxTokens = (if map_of payload ''max_completion_tokens'' \<noteq> None then copied payload ''max_completion_tokens'' ''max_tokens''
            else if map_of payload ''max_tokens'' \<noteq> None then copied payload ''max_tokens'' ''max_tokens''
            else [(''max_tokens'', AInt 4096)]);
          tools = (case as_arr (index payload ''tools'') of
            None \<Rightarrow> []
          | Some ts \<Rightarrow> if convertTools ts = [] then [] else [(''tools'', AArr (convertTools ts))]);
          choice = index payload ''tool_choice''
      in [(''model'', AStr model)] @ conversation @ maxTokens @ copied payload ''temperature'' ''temperature'' @ copied payload ''top_p'' ''top_p'' @
         copied payload ''stream'' ''stream'' @ optional ''stop_sequences'' (stopSequences payload) @
         (if choice = ANil then tools
          else case anthropic_convertToolChoice choice of
            None \<Rightarrow> []
          | Some c \<Rightarrow> tools @ [(''tool_choice'', c)]))"

definition anthropic_translateBody :: "llm_json \<Rightarrow> params \<Rightarrow> anthropic_params \<Rightarrow> string + up_mods" where
  "anthropic_translateBody lib payload p =
     (case ljMarshal lib (AMap (anthropicBody lib payload (apModel p))) of
        Inl err \<Rightarrow> Inl err
      | Inr b \<Rightarrow> Inr (noUpMods\<lparr>umBody := Some b, umPath := Some ''/v1/messages'',
          umSet := [(''content-type'', ''application/json''), (''anthropic-version'', apVersion p)]\<rparr>))"

definition anthropic_OnRequestBody :: "llm_json \<Rightarrow> anthropic_params \<Rightarrow> body option \<Rightarrow> params \<Rightarrow> up_mods hook_action" where
  "anthropic_OnRequestBody lib p bd md =
     (if \<not> shouldRun (apProviderID p) md then Modify noUpMods
      else if noContent bd then errResponse lib 400 ''Request body is empty.''
      else case ljObject lib (Content (the bd)) of
        Inl err \<Rightarrow> errResponse lib 400 (''Invalid JSON in request body: '' @ err)
      | Inr m \<Rightarrow>
          if apModel p = '''' then errResponse lib 400 (quoted ''model'' @ '' policy parameter is required for Anthropic translation.'')
          else case anthropic_translateBody lib (entries m) p of
            Inl err \<Rightarrow> errResponse lib 500 (''failed to marshal Anthropic body: '' @ err)
          | Inr mods \<Rightarrow> Modify (mods\<lparr>umUpstream := upstreamOf (apProviderID p)\<rparr>))"

section \<open>Anthropic: responses\<close>

record anthropicContentBlock =
  abType :: string
  abText :: string
  abID :: string
  abName :: string
  abInput :: any

record anthropicMessage =
  amID :: string
  amModel :: string
  amContent :: "anthropicContentBlock list"
  amStopReason :: string
  amInputTokens :: int
  amOutputTokens :: int
  amCacheRead :: int
  amCacheCreation :: int

text \<open>The decoded message; the type and the message of a decoded error; the clocks and the random bytes.\<close>

record anthropic_env =
  aeMessage :: "string \<Rightarrow> anthropicMessage option"
  aeError :: "string \<Rightarrow> (string \<times> string) option"
  aeCreated :: int
  aeRandom :: "string option"
  aeNanos :: int

definition anthropic_stopReasonToFinish :: "string \<Rightarrow> bool \<Rightarrow> string" where
  "anthropic_stopReasonToFinish stopReason hasToolCalls =
     (if hasToolCalls then ''tool_calls''
      else if stopReason = ''max_tokens'' then ''length''
      else if stopReason = ''tool_use'' then ''tool_calls''
      else ''stop'')"

definition buildOpenAIToolCall :: "llm_json \<Rightarrow> anthropicContentBlock \<Rightarrow> any" where
  "buildOpenAIToolCall lib b =
     (let args = (if abInput b = ANil then ''{}'' else case ljMarshal lib (abInput b) of Inr s \<Rightarrow> s | Inl _ \<Rightarrow> ''{}'')
      in AMap [(''id'', AStr (abID b)), (''type'', AStr ''function''),
           (''function'', AMap [(''name'', AStr (abName b)), (''arguments'', AStr args)])])"

definition anthropic_usage :: "anthropicMessage \<Rightarrow> any" where
  "anthropic_usage msg =
     AMap ([(''prompt_tokens'', AInt (amInputTokens msg)), (''completion_tokens'', AInt (amOutputTokens msg)),
        (''total_tokens'', AInt (wrap64 (amInputTokens msg + amOutputTokens msg)))] @
       (if 0 < amCacheRead msg \<or> 0 < amCacheCreation msg then
          [(''prompt_tokens_details'', AMap [(''cached_tokens'', AInt (amCacheRead msg)), (''cache_creation_tokens'', AInt (amCacheCreation msg))])]
        else []))"

definition buildOpenAIChatCompletion :: "llm_json \<Rightarrow> anthropic_env \<Rightarrow> anthropicMessage \<Rightarrow> string \<Rightarrow> any" where
  "buildOpenAIChatCompletion lib env msg model =
     (let text = concat (map (\<lambda>b. if abType b = ''text'' then abText b else '''') (amContent msg));
          calls = map (buildOpenAIToolCall lib) (filter (\<lambda>b. abType b = ''tool_use'') (amContent msg));
          reply = AMap ([(''role'', AStr ''assistant''), (''content'', AStr text)] @ (if calls = [] then [] else [(''tool_calls'', AArr calls)]));
          cid = (if amID msg = '''' then newChatCompletionID (aeRandom env) (aeNanos env) else ''chatcmpl-'' @ TrimPrefix (amID msg) ''msg_'')
      in AMap [(''id'', AStr cid), (''object'', AStr ''chat.completion''), (''created'', AInt64 (aeCreated env)), (''model'', AStr model),
           (''choices'', AArr [AMap [(''index'', AInt 0), (''message'', reply),
              (''finish_reason'', AStr (anthropic_stopReasonToFinish (amStopReason msg) (calls \<noteq> [])))]]),
           (''usage'', anthropic_usage msg)])"

definition anthropic_translateSuccessResponse :: "llm_json \<Rightarrow> anthropic_env \<Rightarrow> string \<Rightarrow> string \<Rightarrow> down_mods hook_action" where
  "anthropic_translateSuccessResponse lib env bd requestModel =
     (case aeMessage env bd of
        None \<Rightarrow> Modify noDownMods
      | Some msg \<Rightarrow>
          (case ljMarshal lib (buildOpenAIChatCompletion lib env msg (if amModel msg = '''' then requestModel else amModel msg)) of
             Inl err \<Rightarrow> errResponse lib 500 (''failed to translate Anthropic response: '' @ err)
           | Inr b \<Rightarrow> Modify (jsonDown b)))"

definition openAIError :: "string \<Rightarrow> string \<Rightarrow> string \<Rightarrow> any" where
  "openAIError errType text code = AMap [(''error'', AMap [(''type'', AStr errType), (''message'', AStr text), (''code'', AStr code)])]"

definition anthropic_translateErrorResponse :: "llm_json \<Rightarrow> anthropic_env \<Rightarrow> string \<Rightarrow> int \<Rightarrow> down_mods hook_action" where
  "anthropic_translateErrorResponse lib env bd status =
     (let byStatus = mapStatusToOpenAIErrorType status;
          (errType, text) = (case aeError env bd of
            Some (t, m) \<Rightarrow> if m = '''' then (byStatus, bd) else (if t = '''' then byStatus else t, m)
          | None \<Rightarrow> (byStatus, bd))
      in case ljMarshal lib (openAIError errType text (itoa status)) of
           Inl err \<Rightarrow> errResponse lib 500 (''failed to translate Anthropic error: '' @ err)
         | Inr b \<Rightarrow> Modify (jsonDown b))"

definition anthropic_translateResponse :: "llm_json \<Rightarrow> anthropic_env \<Rightarrow> string \<Rightarrow> int \<Rightarrow> string \<Rightarrow> down_mods hook_action" where
  "anthropic_translateResponse lib env bd status requestModel =
     (if 200 \<le> status \<and> status < 300 then anthropic_translateSuccessResponse lib env bd requestModel
      else anthropic_translateErrorResponse lib env bd status)"

definition anthropic_OnResponseBody :: "llm_json \<Rightarrow> anthropic_env \<Rightarrow> anthropic_params \<Rightarrow> body option \<Rightarrow> int \<Rightarrow> params \<Rightarrow> down_mods hook_action" where
  "anthropic_OnResponseBody lib env p bd status md =
     (if \<not> shouldRun (apProviderID p) md \<or> noContent bd then Modify noDownMods
      else if looksLikeSSE (Content (the bd)) then Modify noDownMods
      else anthropic_translateResponse lib env (Content (the bd)) status (apModel p))"

section \<open>Mistral\<close>

record mistral_params =
  mpModel :: string
  mpProviderID :: string

definition mistralName :: string where "mistralName = ''openai-to-mistral-transformer''"

definition unsupportedRequestFields :: "string list" where
  "unsupportedRequestFields = [''logprobs'', ''top_logprobs'', ''logit_bias'', ''n'', ''service_tier'', ''store'', ''metadata'', ''user'']"

definition mistral_parseParams :: "params \<Rightarrow> mistral_params outcome" where
  "mistral_parseParams m =
     andThen (requiredModel m) (\<lambda>model.
     andThen (optionalString m ''providerId'') (\<lambda>pid. Ret \<lparr>mpModel = model, mpProviderID = pid\<rparr>))"

definition mistral_GetPolicy :: "params \<Rightarrow> mistral_params outcome" where
  "mistral_GetPolicy m = invalidFor mistralName (mistral_parseParams m)"

definition mistral_Mode :: "body_mode \<times> body_mode" where
  "mistral_Mode = (BodyModeBuffer, BodyModeBuffer)"

text \<open>Writing to a nil map panics.\<close>

definition mistral_OnRequestBody :: "llm_json \<Rightarrow> mistral_params \<Rightarrow> body option \<Rightarrow> params \<Rightarrow> up_mods hook_action outcome" where
  "mistral_OnRequestBody lib p bd md =
     (if \<not> shouldRun (mpProviderID p) md then Ret (Modify noUpMods)
      else if noContent bd then Ret (errResponse lib 400 ''Request body is empty.'')
      else case ljObject lib (Content (the bd)) of
        Inl err \<Rightarrow> Ret (errResponse lib 400 (''Invalid JSON in request body: '' @ err))
      | Inr m \<Rightarrow>
          if mpModel p = '''' then Ret (errResponse lib 400 (quoted ''model'' @ '' policy parameter is required for Mistral translation.''))
          else case m of
            None \<Rightarrow> Panic
          | Some payload \<Rightarrow>
              let payload = AList.update ''model'' (AStr (mpModel p)) payload;
                  payload = filter (\<lambda>e. fst e \<notin> set unsupportedRequestFields) payload
              in case ljMarshal lib (AMap payload) of
                   Inl err \<Rightarrow> Ret (errResponse lib 500 (''failed to marshal Mistral body: '' @ err))
                 | Inr b \<Rightarrow> Ret (Modify (noUpMods\<lparr>umBody := Some b, umPath := Some ''/v1/chat/completions'',
                     umSet := [(''content-type'', ''application/json'')], umUpstream := upstreamOf (mpProviderID p)\<rparr>)))"

record mistral_error =
  meType :: string
  meMessage :: string
  meCode :: string

text \<open>The decoded error body: the flat envelope and the nested one.\<close>

type_synonym mistralErrorBody = "mistral_error \<times> mistral_error"

definition mistral_mapStatus :: "int \<Rightarrow> string" where
  "mistral_mapStatus status = (if status = 422 then ''invalid_request_error'' else mapStatusToOpenAIErrorType status)"

definition mistral_translateSuccessResponse :: "llm_json \<Rightarrow> string \<Rightarrow> string \<Rightarrow> down_mods hook_action outcome" where
  "mistral_translateSuccessResponse lib bd requestModel =
     (case ljObject lib bd of
        Inl _ \<Rightarrow> Ret (Modify noDownMods)
      | Inr m \<Rightarrow>
          let backfill = (TrimSpace (strOr (index (entries m) ''model'')) = '''' \<and> requestModel \<noteq> '''') in
          if backfill \<and> m = None then Panic
          else
            let v = (case m of None \<Rightarrow> ANil | Some es \<Rightarrow> AMap (if backfill then AList.update ''model'' (AStr requestModel) es else es)) in
            case ljMarshal lib v of Inl _ \<Rightarrow> Ret (Modify noDownMods) | Inr b \<Rightarrow> Ret (Modify (jsonDown b)))"

definition mistral_translateErrorResponse :: "llm_json \<Rightarrow> (string \<Rightarrow> mistralErrorBody option) \<Rightarrow> string \<Rightarrow> int \<Rightarrow> down_mods hook_action" where
  "mistral_translateErrorResponse lib decode bd status =
     (let byStatus = mistral_mapStatus status;
          use = (\<lambda>e. (if meType e = '''' then byStatus else meType e, meMessage e, if meCode e = '''' then itoa status else meCode e));
          (errType, text, code) = (case decode bd of
            Some (flat, nested) \<Rightarrow>
              if meMessage nested \<noteq> '''' then use nested else if meMessage flat \<noteq> '''' then use flat else (byStatus, bd, itoa status)
          | None \<Rightarrow> (byStatus, bd, itoa status))
      in case ljMarshal lib (openAIError errType text code) of
           Inl err \<Rightarrow> errResponse lib 500 (''failed to translate Mistral error: '' @ err)
         | Inr b \<Rightarrow> Modify (jsonDown b))"

definition mistral_translateResponse :: "llm_json \<Rightarrow> (string \<Rightarrow> mistralErrorBody option) \<Rightarrow> string \<Rightarrow> int \<Rightarrow> string \<Rightarrow> down_mods hook_action outcome" where
  "mistral_translateResponse lib decode bd status requestModel =
     (if 200 \<le> status \<and> status < 300 then mistral_translateSuccessResponse lib bd requestModel
      else Ret (mistral_translateErrorResponse lib decode bd status))"

definition mistral_OnResponseBody :: "llm_json \<Rightarrow> (string \<Rightarrow> mistralErrorBody option) \<Rightarrow> mistral_params \<Rightarrow> body option \<Rightarrow> int \<Rightarrow> params \<Rightarrow> down_mods hook_action outcome" where
  "mistral_OnResponseBody lib decode p bd status md =
     (if \<not> shouldRun (mpProviderID p) md \<or> noContent bd then Ret (Modify noDownMods)
      else if looksLikeSSE (Content (the bd)) then Ret (Modify noDownMods)
      else mistral_translateResponse lib decode (Content (the bd)) status (mpModel p))"

section \<open>Azure OpenAI\<close>

record azure_params =
  zpAPIVersion :: string
  zpModel :: string
  zpPathSuffix :: string
  zpProviderID :: string

definition azureName :: string where "azureName = ''openai-to-azure-openai-transformer''"

definition azure_parseParams :: "params \<Rightarrow> azure_params outcome" where
  "azure_parseParams m =
     andThen (optionalString m ''apiVersion'') (\<lambda>version.
       if version = '''' then Fail (quoted ''apiVersion'' @ '' is required'')
       else
         andThen (optionalString m ''model'') (\<lambda>model.
         andThen (optionalString m ''pathSuffix'') (\<lambda>suffix.
         andThen (optionalString m ''providerId'') (\<lambda>pid.
           Ret \<lparr>zpAPIVersion = version, zpModel = model,
             zpPathSuffix = (if suffix = '''' then ''/chat/completions'' else if HasPrefix suffix ''/'' then suffix else ''/'' @ suffix),
             zpProviderID = pid\<rparr>))))"

definition azure_GetPolicy :: "params \<Rightarrow> azure_params outcome" where
  "azure_GetPolicy m = invalidFor azureName (azure_parseParams m)"

definition azure_Mode :: "body_mode \<times> body_mode" where
  "azure_Mode = (BodyModeBuffer, BodyModeSkip)"

text \<open>\<^verbatim>\<open>url.PathEscape\<close>.\<close>

definition segment_char :: "char \<Rightarrow> bool" where
  "segment_char c \<longleftrightarrow> unreserved c \<or> c \<in> set ''$&+:=@''"

definition PathEscape :: "string \<Rightarrow> string" where
  "PathEscape s =
     concat (map (\<lambda>c. if segment_char c then [c]
       else let n = of_char c :: nat in [CHR ''%'', upperHex ! (n div 16), upperHex ! (n mod 16)]) s)"

definition buildAzurePath :: "string \<Rightarrow> string \<Rightarrow> string \<Rightarrow> string" where
  "buildAzurePath deployment pathSuffix apiVersion =
     ''/openai/deployments/'' @ PathEscape deployment @ pathSuffix @ ''?api-version='' @ QueryEscape apiVersion"

definition readModelFromBody :: "llm_json \<Rightarrow> body option \<Rightarrow> string" where
  "readModelFromBody lib bd =
     (if noContent bd then ''''
      else case ljObject lib (Content (the bd)) of
        Inl _ \<Rightarrow> ''''
      | Inr m \<Rightarrow> TrimSpace (strOr (index (entries m) ''model'')))"

definition azure_OnRequestBody :: "llm_json \<Rightarrow> azure_params \<Rightarrow> body option \<Rightarrow> params \<Rightarrow> up_mods hook_action" where
  "azure_OnRequestBody lib p bd md =
     (if \<not> shouldRun (zpProviderID p) md then Modify noUpMods
      else let deployment = (if zpModel p = '''' then readModelFromBody lib bd else zpModel p) in
        if deployment = '''' then
          errResponse lib 400 (quoted ''model'' @ '' is required in the request body (or as a policy parameter) to derive the Azure deployment id.'')
        else Modify (noUpMods\<lparr>umPath := Some (buildAzurePath deployment (zpPathSuffix p) (zpAPIVersion p)),
          umUpstream := upstreamOf (zpProviderID p)\<rparr>))"

section \<open>Properties\<close>

interpretation anthropic_chat: chat_translator "anthropicConv lib" "\<lambda>ms. snd (anthropic_convertMessages lib ms)" for lib
  by unfold_locales (simp add: anthropic_convertMessages_def case_prod_unfold Let_def)

lemma anthropic_conversation_kept:
  "\<exists>turns. snd (anthropic_convertMessages lib ms) = map renderTurn turns \<and>
     concat (map ungroup turns) = concat (map (turnsOf (anthropicConv lib)) ms) \<and>
     ToolTurn [] \<notin> set turns \<and> (list_all speaks ms \<longrightarrow> separate turns)"
  by (rule anthropic_chat.conversation_kept)

text \<open>A chat with the tool choice \<^verbatim>\<open>none\<close> offers no tools.\<close>

lemma anthropic_no_tools:
  "index payload ''tool_choice'' = AStr ''none'' \<Longrightarrow> list_all (\<lambda>e. fst e \<noteq> ''tools'' \<and> fst e \<noteq> ''tool_choice'') (anthropicBody lib payload model)"
  by (auto simp: anthropicBody_def anthropic_convertToolChoice_def copied_def optional_def case_prod_unfold Let_def split: option.splits)

lemma PathEscape_Cons: "PathEscape (c # s) = PathEscape [c] @ PathEscape s"
  by (simp add: PathEscape_def)

lemma PathUnescape_char: "PathUnescape (PathEscape [c] @ s) = map_option ((#) c) (PathUnescape s)"
proof -
  have "c \<noteq> CHR ''%''" if "segment_char c" using that by (auto simp: segment_char_def unreserved_def)
  then show ?thesis
    using unhex_upperHex [OF of_char_nibble, of c] unhex_upperHex [of "of_char c mod 16"] char_nibbles [of c]
    by (auto simp: PathEscape_def Let_def)
qed

lemma PathUnescape_PathEscape: "PathUnescape (PathEscape s) = Some s"
proof (induction s)
  case (Cons c s)
  then show ?case by (subst PathEscape_Cons) (simp add: PathUnescape_char)
qed (simp add: PathEscape_def)

lemma upperHex_plain: "n < 16 \<Longrightarrow> upperHex ! n \<notin> set ''/?#''"
proof -
  have "list_all (\<lambda>n. upperHex ! n \<notin> set ''/?#'') [0..<16]" by code_simp
  then show "n < 16 \<Longrightarrow> upperHex ! n \<notin> set ''/?#''" by (auto simp: list_all_iff)
qed

lemma PathEscape_plain: "x \<in> set ''/?#'' \<Longrightarrow> x \<notin> set (PathEscape s)"
proof (induction s)
  case (Cons c s)
  have "x \<notin> set (PathEscape [c])"
  proof (cases "segment_char c")
    case True
    then show ?thesis using Cons.prems by (auto simp: PathEscape_def segment_char_def unreserved_def)
  next
    case False
    then show ?thesis using Cons.prems upperHex_plain [OF of_char_nibble, of c] upperHex_plain [of "of_char c mod 16"]
      by (auto simp: PathEscape_def Let_def)
  qed
  then show ?case using Cons by (subst PathEscape_Cons) simp
qed (simp add: PathEscape_def)

lemma cut_at: "c \<notin> set k \<Longrightarrow> cut c (k @ c # v) = (k, v)"
  by (induction k) (auto simp: cut_def)

lemma single_query: "CHR ''='' \<notin> set k \<Longrightarrow> QueryUnescape k = Some k \<Longrightarrow> CHR ''&'' \<notin> set k \<Longrightarrow> CHR '';'' \<notin> set k \<Longrightarrow>
    ParseQuery (k @ ''='' @ QueryEscape v) = Some [(k, [v])]"
proof -
  assume k: "CHR ''='' \<notin> set k" "QueryUnescape k = Some k" "CHR ''&'' \<notin> set k" "CHR '';'' \<notin> set k"
  have p: "x \<notin> set (QueryEscape v)" if "x \<in> set ''&=;''" for x using that QueryEscape_plain by blast
  have "CHR ''&'' \<notin> set (k @ ''='' @ QueryEscape v)" using k p by auto
  then have "split_on (CHR ''&'') (k @ ''='' @ QueryEscape v) = [k @ ''='' @ QueryEscape v]" by (rule split_on_fragment)
  then have "ParseQuery (k @ ''='' @ QueryEscape v) = parseParts [k @ ''='' @ QueryEscape v] []" by (simp only: ParseQuery_def)
  moreover have "cut (CHR ''='') (k @ ''='' @ QueryEscape v) = (k, QueryEscape v)" using cut_at [OF k(1)] by simp
  ultimately show ?thesis using k p [of "CHR '';''"] by (simp add: parsePart_def values_Add_def)
qed


definition azure_sample_json :: llm_json where
  "azure_sample_json = \<lparr>ljObject = \<lambda>s. Inr (Some [(''model'', AStr s)]), ljAny = \<lambda>_. Inl '''', ljMarshal = \<lambda>_. Inr ''''\<rparr>"

definition azure_sample :: azure_params where
  "azure_sample = \<lparr>zpAPIVersion = ''2024'', zpModel = '''', zpPathSuffix = ''/chat'', zpProviderID = ''''\<rparr>"

lemma azure_sample_runs: "azure_OnRequestBody azure_sample_json azure_sample (Some \<lparr>Content = ''a/../b?x'', Present = True\<rparr>) [] =
    Modify (noUpMods\<lparr>umPath := Some ''/openai/deployments/a%2F..%2Fb%3Fx/chat?api-version=2024''\<rparr>)"
  by code_simp


text \<open>A body of \<^verbatim>\<open>null\<close> crashes the Mistral policy. The hook on requests returns for every body except one that decodes to a nil
  map, into which it then writes: an instance from the factory that handles the request panics on exactly these
  bodies.\<close>
lemma mistral_null_panics:
  assumes "mistral_GetPolicy m = Ret p"
  shows "mistral_OnRequestBody lib p bd md = Panic \<longleftrightarrow>
    shouldRun (mpProviderID p) md \<and> \<not> noContent bd \<and> ljObject lib (Content (the bd)) = Inr None"
proof -
  have "mpModel p \<noteq> ''''"
    using assms by (auto simp: mistral_GetPolicy_def invalidFor_def mistral_parseParams_def requiredModel_def andThen_Ret split: if_splits)
  then show ?thesis by (simp add: mistral_OnRequestBody_def Let_def split: sum.splits option.splits)
qed

lemma mistral_null_panics_example:
  "mistral_OnRequestBody \<lparr>ljObject = \<lambda>_. Inr None, ljAny = \<lambda>_. Inl '''', ljMarshal = \<lambda>_. Inr ''''\<rparr> \<lparr>mpModel = ''m'', mpProviderID = ''''\<rparr>
     (Some \<lparr>Content = ''null'', Present = True\<rparr>) [] = Panic"
proof -
  have "mistral_GetPolicy [(''model'', AStr ''m'')] = Ret \<lparr>mpModel = ''m'', mpProviderID = ''''\<rparr>" by code_simp
  moreover have "shouldRun '''' []" by code_simp
  ultimately show ?thesis using mistral_null_panics [of "[(''model'', AStr ''m'')]"] by (simp add: noContent_def)
qed

end
