(* ===== verification/SdkCache.thy ===== *)
theory SdkCache
  imports GoValue
begin

text \<open>
  The cache of the gateway's SDK, which is not part of the repository: its operations are an argument, and what the
  policies rely on is the predicate \<open>cacheLaws\<close>. It may evict entries at any time, but it returns only what was set.
\<close>

record ('c, 'v) cache_ops =
  coNew :: "int \<Rightarrow> 'c"
  coGet :: "string \<Rightarrow> 'c \<Rightarrow> 'c \<times> 'v option"
  coSet :: "string \<Rightarrow> 'v \<Rightarrow> 'c \<Rightarrow> 'c"
  coDelete :: "string \<Rightarrow> 'c \<Rightarrow> 'c"

text \<open>For a relation \<open>holds\<close> of a cache, a key and a value.\<close>

definition cacheLaws :: "('c, 'v) cache_ops \<Rightarrow> ('c \<Rightarrow> string \<Rightarrow> 'v \<Rightarrow> bool) \<Rightarrow> bool" where
  "cacheLaws ops holds \<longleftrightarrow>
     (\<forall>n k v. \<not> holds (coNew ops n) k v) \<and>
     (\<forall>c k v. snd (coGet ops k c) = Some v \<longrightarrow> holds c k v) \<and>
     (\<forall>c k k' v. holds (fst (coGet ops k c)) k' v \<longrightarrow> holds c k' v) \<and>
     (\<forall>c k k' v v'. holds (coSet ops k v c) k' v' \<longrightarrow> (k' = k \<and> v' = v) \<or> holds c k' v') \<and>
     (\<forall>c k k' v. holds (coDelete ops k c) k' v \<longrightarrow> holds c k' v)"

text \<open>All entries satisfy a predicate.\<close>

definition cacheAll :: "('c \<Rightarrow> string \<Rightarrow> 'v \<Rightarrow> bool) \<Rightarrow> (string \<Rightarrow> 'v \<Rightarrow> bool) \<Rightarrow> 'c \<Rightarrow> bool" where
  "cacheAll holds P c \<longleftrightarrow> (\<forall>k v. holds c k v \<longrightarrow> P k v)"

lemma cacheAll_new: "cacheLaws ops holds \<Longrightarrow> cacheAll holds P (coNew ops n)"
  unfolding cacheLaws_def cacheAll_def by blast

lemma cacheAll_get:
  assumes "cacheLaws ops holds" "cacheAll holds P c" "coGet ops k c = (c', r)"
  shows "cacheAll holds P c'" and "r = Some v \<Longrightarrow> P k v"
  using assms unfolding cacheLaws_def cacheAll_def by (metis fst_conv, metis snd_conv)

lemma cacheAll_set: "cacheLaws ops holds \<Longrightarrow> cacheAll holds P c \<Longrightarrow> P k v \<Longrightarrow> cacheAll holds P (coSet ops k v c)"
  unfolding cacheLaws_def cacheAll_def by metis

lemma cacheAll_delete: "cacheLaws ops holds \<Longrightarrow> cacheAll holds P c \<Longrightarrow> cacheAll holds P (coDelete ops k c)"
  unfolding cacheLaws_def cacheAll_def by metis

lemma cacheAll_mono: "cacheAll holds P c \<Longrightarrow> (\<And>k v. P k v \<Longrightarrow> Q k v) \<Longrightarrow> cacheAll holds Q c"
  unfolding cacheAll_def by blast

text \<open>An association list that never evicts satisfies the laws.\<close>

definition aListOps :: "((string \<times> 'v) list, 'v) cache_ops" where
  "aListOps = \<lparr>coNew = (\<lambda>_. []), coGet = (\<lambda>k c. (c, map_of c k)), coSet = AList.update, coDelete = AList.delete\<rparr>"

lemma aListOps_laws: "cacheLaws aListOps (\<lambda>c k v. map_of c k = Some v)"
  by (auto simp: cacheLaws_def aListOps_def update_conv delete_conv split: if_splits)

end
