(* ===== verification/JwtKeys.thy ===== *)
theory JwtKeys
  imports GuardText
begin

text \<open>
  The keys of \<^verbatim>\<open>policies/jwt-auth\<close>: base64url, RSA and EC keys of a key set, keys from certificates, and the key
  sets fetched from an endpoint, which are cached and retried. The network, files, PEM and X.509, the check that a
  point is on its curve and the decoding of the JSON of a key set are the fields of \<open>keylib\<close>.
\<close>

section \<open>Base64\<close>

text \<open>\<^verbatim>\<open>base64.StdEncoding\<close>: line breaks are skipped, the last group of four may be padded, and nothing follows padding.\<close>

definition base64_value :: "char \<Rightarrow> nat option" where
  "base64_value c =
     (let n = of_char c :: nat in
      if 65 \<le> n \<and> n \<le> 90 then Some (n - 65)
      else if 97 \<le> n \<and> n \<le> 122 then Some (n - 97 + 26)
      else if 48 \<le> n \<and> n \<le> 57 then Some (n - 48 + 52)
      else if c = CHR ''+'' then Some 62
      else if c = CHR ''/'' then Some 63
      else None)"

fun base64_groups :: "string \<Rightarrow> string option" where
  "base64_groups [] = Some []"
| "base64_groups (a # b # c # d # rest) =
     (case (base64_value a, base64_value b) of
        (Some x, Some y) \<Rightarrow>
          if c = CHR ''='' then if d = CHR ''='' \<and> rest = [] then Some [char_of (4 * x + y div 16)] else None
          else (case base64_value c of
            None \<Rightarrow> None
          | Some z \<Rightarrow>
              if d = CHR ''='' then if rest = [] then Some [char_of (4 * x + y div 16), char_of (16 * (y mod 16) + z div 4)] else None
              else (case (base64_value d, base64_groups rest) of
                (Some w, Some bs) \<Rightarrow> Some ([char_of (4 * x + y div 16), char_of (16 * (y mod 16) + z div 4), char_of (64 * (z mod 4) + w)] @ bs)
              | _ \<Rightarrow> None))
      | _ \<Rightarrow> None)"
| "base64_groups _ = None"

definition StdDecodeString :: "string \<Rightarrow> string option" where
  "StdDecodeString s = base64_groups (filter (\<lambda>c. c \<noteq> newline \<and> c \<noteq> carriage) s)"

definition decodeBase64URL :: "string \<Rightarrow> string option" where
  "decodeBase64URL s =
     (let s = (if length s mod 4 = 2 then s @ ''=='' else if length s mod 4 = 3 then s @ ''='' else s)
      in StdDecodeString (map (\<lambda>c. if c = CHR ''-'' then CHR ''+'' else if c = CHR ''_'' then CHR ''/'' else c) s))"

section \<open>Keys\<close>

text \<open>The public keys that verify signatures.\<close>

datatype pubkey = RSAKey nat int | ECKey string nat nat

definition SetBytes :: "string \<Rightarrow> nat" where
  "SetBytes bs = foldl (\<lambda>n c. 256 * n + of_char c) 0 bs"

text \<open>Shifted into an \<^verbatim>\<open>int\<close>, whose upper bits are lost.\<close>

definition bytesToInt :: "string \<Rightarrow> int" where
  "bytesToInt bs = foldl (\<lambda>n c. wrap64 (256 * n + int (of_char c))) 0 bs"

definition parseRSAPublicKey :: "string \<Rightarrow> string \<Rightarrow> pubkey outcome" where
  "parseRSAPublicKey n e =
     (case decodeBase64URL n of
        None \<Rightarrow> Fail ''failed to decode modulus''
      | Some nb \<Rightarrow>
          (case decodeBase64URL e of
             None \<Rightarrow> Fail ''failed to decode exponent''
           | Some eb \<Rightarrow> Ret (RSAKey (SetBytes nb) (bytesToInt eb))))"

record JWKSKey =
  jkKty :: string
  jkKid :: string
  jkN :: string
  jkE :: string
  jkCrv :: string
  jkX :: string
  jkY :: string

text \<open>How a remote endpoint is trusted: a pool of certificates, or not at all.\<close>

datatype tlsConfig = RootCAs string | InsecureSkipVerify

record RemoteJWKS =
  rjURI :: string
  rjCertificatePath :: string
  rjSkipTlsVerify :: bool
  rjTls :: "tlsConfig option"

text \<open>A key from a certificate may be of a type that is not supported.\<close>

datatype cert_key = Supported pubkey | Unsupported

text \<open>\<open>klGet\<close> is the answer to the n-th request of a call: an error, or the status and the body if it could be read.\<close>

record keylib =
  klOnCurve :: "string \<Rightarrow> string \<Rightarrow> bool"
  klGet :: "RemoteJWKS \<Rightarrow> nat \<Rightarrow> string + int \<times> (string + string)"
  klKeySet :: "string \<Rightarrow> string + JWKSKey list"
  klReadFile :: "string \<Rightarrow> string + string"
  klCertPool :: "string \<Rightarrow> bool"
  klPem :: "string \<Rightarrow> string option"
  klCertificate :: "string \<Rightarrow> cert_key option"
  klPKIX :: "string \<Rightarrow> string + cert_key"

definition curveBytes :: "string \<Rightarrow> nat option" where
  "curveBytes crv = (if crv = ''P-256'' then Some 32 else if crv = ''P-384'' then Some 48 else if crv = ''P-521'' then Some 66 else None)"

text \<open>\<^verbatim>\<open>copy\<close> into a zeroed part of the point.\<close>

definition copied_to :: "nat \<Rightarrow> string \<Rightarrow> string" where
  "copied_to n bs = take n bs @ replicate (n - length bs) (char_of (0 :: nat))"

definition parseECPublicKey :: "keylib \<Rightarrow> string \<Rightarrow> string \<Rightarrow> string \<Rightarrow> pubkey outcome" where
  "parseECPublicKey lib crv x y =
     (case curveBytes crv of
        None \<Rightarrow> Fail ''unsupported EC curve''
      | Some n \<Rightarrow>
          (case decodeBase64URL x of
             None \<Rightarrow> Fail ''failed to decode EC x coordinate''
           | Some xb \<Rightarrow>
               (case decodeBase64URL y of
                  None \<Rightarrow> Fail ''failed to decode EC y coordinate''
                | Some yb \<Rightarrow>
                    if klOnCurve lib crv (char_of (4 :: nat) # copied_to n xb @ copied_to n yb) then Ret (ECKey crv (SetBytes xb) (SetBytes yb))
                    else Fail ''EC point is not on curve'')))"

definition parseJWK :: "keylib \<Rightarrow> JWKSKey \<Rightarrow> pubkey option" where
  "parseJWK lib k =
     (let parsed = (if jkKty k = ''RSA'' then parseRSAPublicKey (jkN k) (jkE k)
            else if jkKty k = ''EC'' then parseECPublicKey lib (jkCrv k) (jkX k) (jkY k) else Fail '''')
      in if jkKid k = '''' then None else case parsed of Ret key \<Rightarrow> Some key | _ \<Rightarrow> None)"

type_synonym CachedJWKS = "(string, pubkey) gomap"

text \<open>The keys of a set; a repeated identifier replaces the earlier key.\<close>

definition jwksKeys :: "keylib \<Rightarrow> JWKSKey list \<Rightarrow> CachedJWKS" where
  "jwksKeys lib ks = foldl (\<lambda>m k. case parseJWK lib k of Some key \<Rightarrow> AList.update (jkKid k) key m | None \<Rightarrow> m) [] ks"

definition fetchJWKS :: "keylib \<Rightarrow> RemoteJWKS \<Rightarrow> nat \<Rightarrow> CachedJWKS outcome" where
  "fetchJWKS lib remote attempt =
     (case klGet lib remote attempt of
        Inl err \<Rightarrow> Fail (''failed to fetch JWKS: '' @ err)
      | Inr (status, body) \<Rightarrow>
          if status \<noteq> 200 then Fail (''JWKS endpoint returned status '' @ itoa status)
          else (case body of
            Inl err \<Rightarrow> Fail (''failed to read response body: '' @ err)
          | Inr b \<Rightarrow>
              (case klKeySet lib b of
                 Inl err \<Rightarrow> Fail (''failed to parse JWKS: '' @ err)
               | Inr ks \<Rightarrow>
                   let keys = jwksKeys lib ks in if keys = [] then Fail ''no valid public keys found in JWKS'' else Ret keys)))"

section \<open>The cache of key sets\<close>

text \<open>Entries and the times until which they count, by URI.\<close>

record jwks_cache =
  jcStore :: "(string, CachedJWKS) gomap"
  jcTTLs :: "(string, instant) gomap"

text \<open>The attempts left, counting up; the last error.\<close>

fun fetchLoop :: "keylib \<Rightarrow> RemoteJWKS \<Rightarrow> nat \<Rightarrow> nat \<Rightarrow> string \<Rightarrow> CachedJWKS outcome" where
  "fetchLoop lib remote attempt 0 lastErr = Fail lastErr"
| "fetchLoop lib remote attempt (Suc n) lastErr =
     (case fetchJWKS lib remote attempt of
        Ret keys \<Rightarrow> Ret keys
      | Fail err \<Rightarrow> fetchLoop lib remote (Suc attempt) n err
      | Panic \<Rightarrow> Panic)"

definition cachedJWKS :: "instant \<Rightarrow> string \<Rightarrow> jwks_cache \<Rightarrow> CachedJWKS option" where
  "cachedJWKS now uri c =
     (case (map_of (jcStore c) uri, map_of (jcTTLs c) uri) of
        (Some keys, Some ttl) \<Rightarrow> if now < ttl then Some keys else None
      | _ \<Rightarrow> None)"

text \<open>\<open>now\<close> is read for the lookup, \<open>fetched\<close> when an answer has come.\<close>

definition fetchJWKSWithRetry :: "keylib \<Rightarrow> instant \<Rightarrow> instant \<Rightarrow> RemoteJWKS \<Rightarrow> duration \<Rightarrow> int \<Rightarrow> jwks_cache \<Rightarrow> jwks_cache \<times> CachedJWKS outcome" where
  "fetchJWKSWithRetry lib now fetched remote cacheTTL retryCount c =
     (if retryCount < 0 then (c, Fail (''invalid jwks fetch retry count: '' @ itoa retryCount))
      else case cachedJWKS now (rjURI remote) c of
        Some keys \<Rightarrow> (c, Ret keys)
      | None \<Rightarrow>
          (case fetchLoop lib remote 0 (Suc (nat retryCount)) '''' of
             Ret keys \<Rightarrow>
               (\<lparr>jcStore = AList.update (rjURI remote) keys (jcStore c), jcTTLs = AList.update (rjURI remote) (time_Add fetched cacheTTL) (jcTTLs c)\<rparr>,
                Ret keys)
           | out \<Rightarrow> (c, out)))"

section \<open>Certificates\<close>

definition loadTLSConfig :: "keylib \<Rightarrow> string \<Rightarrow> tlsConfig outcome" where
  "loadTLSConfig lib path =
     (case klReadFile lib path of
        Inl err \<Rightarrow> Fail (''failed to read certificate file: '' @ err)
      | Inr data \<Rightarrow> if klCertPool lib data then Ret (RootCAs data) else Fail (''failed to parse PEM certificate from '' @ path))"

definition parsePublicKeyFromString :: "keylib \<Rightarrow> string \<Rightarrow> pubkey outcome" where
  "parsePublicKeyFromString lib pemData =
     (case klPem lib pemData of
        None \<Rightarrow> Fail ''failed to decode PEM block from certificate data''
      | Some der \<Rightarrow>
          (case klCertificate lib der of
             Some (Supported key) \<Rightarrow> Ret key
           | Some Unsupported \<Rightarrow> Fail ''certificate does not contain a supported public key (RSA or ECDSA)''
           | None \<Rightarrow>
               (case klPKIX lib der of
                  Inl err \<Rightarrow> Fail (''failed to parse public key from certificate data: '' @ err)
                | Inr (Supported key) \<Rightarrow> Ret key
                | Inr Unsupported \<Rightarrow> Fail ''certificate data does not contain a supported public key (RSA or ECDSA)'')))"

definition loadPublicKeyFromCertificate :: "keylib \<Rightarrow> string \<Rightarrow> pubkey outcome" where
  "loadPublicKeyFromCertificate lib path =
     (case klReadFile lib path of
        Inl err \<Rightarrow> Fail (''failed to read certificate file: '' @ err)
      | Inr data \<Rightarrow> parsePublicKeyFromString lib data)"

section \<open>Facts\<close>

text \<open>Keys that a fetch returns come from an answer of the endpoint with status 200.\<close>

definition served :: "keylib \<Rightarrow> RemoteJWKS \<Rightarrow> CachedJWKS \<Rightarrow> bool" where
  "served lib remote keys \<longleftrightarrow> (\<exists>n b ks. klGet lib remote n = Inr (200, Inr b) \<and> klKeySet lib b = Inr ks \<and> keys = jwksKeys lib ks \<and> keys \<noteq> [])"

lemma fetchJWKS_served: "fetchJWKS lib remote n = Ret keys \<Longrightarrow> served lib remote keys"
  unfolding served_def by (auto simp: fetchJWKS_def Let_def split: sum.splits if_splits) blast

lemma fetchLoop_served: "fetchLoop lib remote a n e = Ret keys \<Longrightarrow> served lib remote keys"
  by (induction lib remote a n e rule: fetchLoop.induct) (auto split: outcome.splits dest: fetchJWKS_served)

text \<open>The loop makes no more requests than it may, and fails only if each of them fails.\<close>

lemma fetchLoop_total: "fetchLoop lib remote a n e \<noteq> Panic"
proof (induction lib remote a n e rule: fetchLoop.induct)
  case (2 lib remote a n e)
  moreover have "fetchJWKS lib remote a \<noteq> Panic" by (auto simp: fetchJWKS_def Let_def split: sum.splits if_splits)
  ultimately show ?case by (auto split: outcome.splits)
qed simp

lemma fetchLoop_fails: "fetchLoop lib remote a n e = Fail err \<Longrightarrow> a \<le> i \<Longrightarrow> i < a + n \<Longrightarrow> \<exists>err'. fetchJWKS lib remote i = Fail err'"
proof (induction lib remote a n e rule: fetchLoop.induct)
  case (2 lib remote a n e)
  then show ?case by (cases "i = a") (auto split: outcome.splits)
qed simp

end
