(* ===== verification/JwtConstraints.thy ===== *)
theory JwtConstraints
  imports McpAuthz GuardText
begin

text \<open>
  What \<^verbatim>\<open>policies/jwt-auth\<close> asks of the claims of a verified token: audience, scopes and claims, their
  configuration with the deprecated forms, and the identity it publishes. The records of constraints are those of
  \<^verbatim>\<open>mcp-authz\<close>, which has the same ones. \<open>marshal\<close> is \<^verbatim>\<open>json.Marshal\<close>.
\<close>

section \<open>Parameters\<close>

definition getString :: "any \<Rightarrow> string" where
  "getString v = (case as_str v of Some s \<Rightarrow> s | None \<Rightarrow> '''')"

definition getBool :: "any \<Rightarrow> bool" where
  "getBool v = (case as_bool v of Some b \<Rightarrow> b | None \<Rightarrow> False)"

definition getBoolParam :: "params \<Rightarrow> string \<Rightarrow> bool \<Rightarrow> bool" where
  "getBoolParam m k d = (case as_bool (index m k) of Some b \<Rightarrow> b | None \<Rightarrow> d)"

definition getStringParam :: "params \<Rightarrow> string \<Rightarrow> string \<Rightarrow> string" where
  "getStringParam m k d = (case as_str (index m k) of Some s \<Rightarrow> s | None \<Rightarrow> d)"

definition getIntParam :: "params \<Rightarrow> string \<Rightarrow> int \<Rightarrow> int" where
  "getIntParam m k d = (case index m k of AInt i \<Rightarrow> i | AFloat x \<Rightarrow> f64_to_int64 x | _ \<Rightarrow> d)"

definition strings :: "any list \<Rightarrow> string list" where
  "strings xs = List.map_filter as_str xs"

definition getStringArrayParam :: "params \<Rightarrow> string \<Rightarrow> string list" where
  "getStringArrayParam m k = (case as_arr (index m k) of Some xs \<Rightarrow> strings xs | None \<Rightarrow> [])"

definition getStringMapParam :: "params \<Rightarrow> string \<Rightarrow> (string, string) gomap" where
  "getStringMapParam m k =
     (case as_map (index m k) of
        Some es \<Rightarrow> List.map_filter (\<lambda>(c, v). map_option (Pair c) (as_str v)) es
      | None \<Rightarrow> [])"

section \<open>Claims as text\<close>

definition claimValueToString :: "(any \<Rightarrow> string option) \<Rightarrow> any \<Rightarrow> string" where
  "claimValueToString marshal v =
     (case v of
        AStr s \<Rightarrow> s
      | AFloat x \<Rightarrow> itoa (f64_to_int64 x)
      | ABool b \<Rightarrow> if b then ''true'' else ''false''
      | _ \<Rightarrow> (case marshal v of Some s \<Rightarrow> s | None \<Rightarrow> ''''))"

definition claimValuesAsStrings :: "(any \<Rightarrow> string option) \<Rightarrow> any \<Rightarrow> string list" where
  "claimValuesAsStrings marshal v =
     (case v of
        ANil \<Rightarrow> []
      | AArr items \<Rightarrow> filter (\<lambda>s. s \<noteq> '''') (map (claimValueToString marshal) items)
      | _ \<Rightarrow> (let s = claimValueToString marshal v in if s = '''' then [] else [s]))"

definition parseAudience :: "any \<Rightarrow> string list" where
  "parseAudience aud = (case aud of AStr s \<Rightarrow> [s] | AArr xs \<Rightarrow> strings xs | _ \<Rightarrow> [])"

text \<open>\<^verbatim>\<open>strings.Fields\<close>, and \<^verbatim>\<open>strings.Split\<close> at a separator that is not empty.\<close>

definition Fields :: "string \<Rightarrow> string list" where
  "Fields s = filter (\<lambda>w. w \<noteq> '''') (splitRuns is_space s)"

function splitStr :: "string \<Rightarrow> string \<Rightarrow> string list" where
  "splitStr sep s =
     (if sep = '''' \<or> s = '''' then [s]
      else if HasPrefix s sep then '''' # splitStr sep (drop (length sep) s)
      else case splitStr sep (tl s) of [] \<Rightarrow> [s] | w # ws \<Rightarrow> (hd s # w) # ws)"
  by pat_completeness auto
termination
  by (relation "measure (\<lambda>(sep, s). length s)") (auto simp: diff_less)

declare splitStr.simps [simp del]

section \<open>Scopes\<close>

definition parseScopes :: "any \<Rightarrow> any \<Rightarrow> string list" where
  "parseScopes scopeClaim scpClaim =
     (case as_str scopeClaim of Some s \<Rightarrow> Fields s | None \<Rightarrow> []) @ (case as_arr scpClaim of Some xs \<Rightarrow> strings xs | None \<Rightarrow> [])"

definition trimmed :: "string list \<Rightarrow> string list" where
  "trimmed ss = filter (\<lambda>s. s \<noteq> '''') (map TrimSpace ss)"

definition parseScopeClaim :: "any \<Rightarrow> string \<Rightarrow> string list" where
  "parseScopeClaim v separator =
     (let sep = (if separator = '''' then '' '' else separator) in
      case v of AStr s \<Rightarrow> trimmed (splitStr sep s) | AArr xs \<Rightarrow> trimmed (strings xs) | _ \<Rightarrow> [])"

text \<open>The two fields of a key manager that tell where scopes are.\<close>

definition resolveScopes :: "params \<Rightarrow> string \<Rightarrow> string \<Rightarrow> string list" where
  "resolveScopes claims scopeClaim separator =
     (if scopeClaim \<noteq> '''' then parseScopeClaim (index claims scopeClaim) separator
      else parseScopes (index claims ''scope'') (index claims ''scp''))"

definition buildScopesMap :: "string list \<Rightarrow> (string, bool) gomap" where
  "buildScopesMap scopes = foldl (\<lambda>m s. AList.update s True m) [] scopes"

section \<open>Constraints\<close>

definition stringArrayField :: "params \<Rightarrow> string \<Rightarrow> string list outcome" where
  "stringArrayField m k =
     (case index m k of
        ANil \<Rightarrow> Ret []
      | AArr items \<Rightarrow>
          if list_all (\<lambda>i. as_str i \<noteq> None) items then Ret (trimmed (strings items))
          else Fail (inDquotes k @ '' entries must be strings'')
      | _ \<Rightarrow> Fail (inDquotes k @ '' must be an array''))"

definition parseScopeConstraints :: "params \<Rightarrow> ScopeConstraints outcome" where
  "parseScopeConstraints m =
     (case index m ''scopes'' of
        ANil \<Rightarrow> Ret noScopes
      | AMap es \<Rightarrow>
          andThen (inContext ''scopes.'' (stringArrayField es ''allOf'')) (\<lambda>allOf.
          andThen (inContext ''scopes.'' (stringArrayField es ''anyOf'')) (\<lambda>anyOf. Ret \<lparr>scAllOf = allOf, scAnyOf = anyOf\<rparr>))
      | _ \<Rightarrow> Fail ''scopes must be an object'')"

definition parseClaimMatcher :: "string \<Rightarrow> any \<Rightarrow> ClaimMatcher outcome" where
  "parseClaimMatcher field item =
     (case as_map item of
        None \<Rightarrow> Fail (field @ '' entries must be objects'')
      | Some m \<Rightarrow>
          let claim = TrimSpace (getString (index m ''claim'')) in
          if claim = '''' then Fail (field @ '' entries must have a non-empty '' @ quoted ''claim'')
          else andThen (inContext (field @ '' claim '' @ inDquotes claim @ '' '') (stringArrayField m ''values'')) (\<lambda>values.
            if values = [] then Fail (field @ '' claim '' @ inDquotes claim @ '' must have at least one value'')
            else Ret \<lparr>cmClaim = claim, cmValues = values, legacyExactString = False\<rparr>))"

definition parseClaimMatchers :: "any \<Rightarrow> string \<Rightarrow> ClaimMatcher list outcome" where
  "parseClaimMatchers raw field =
     (case raw of
        ANil \<Rightarrow> Ret []
      | AArr items \<Rightarrow> parseAll (\<lambda>_. parseClaimMatcher field) 0 items
      | _ \<Rightarrow> Fail (field @ '' must be an array''))"

definition parseClaimConstraints :: "params \<Rightarrow> ClaimConstraints outcome" where
  "parseClaimConstraints m =
     (case index m ''claims'' of
        ANil \<Rightarrow> Ret noClaims
      | AMap es \<Rightarrow>
          andThen (parseClaimMatchers (index es ''allOf'') ''claims.allOf'') (\<lambda>allOf.
          andThen (parseClaimMatchers (index es ''anyOf'') ''claims.anyOf'') (\<lambda>anyOf. Ret \<lparr>ccAllOf = allOf, ccAnyOf = anyOf\<rparr>))
      | _ \<Rightarrow> Fail ''claims must be an object'')"

definition scopeConstraintsFromRequiredScopes :: "string list \<Rightarrow> ScopeConstraints" where
  "scopeConstraintsFromRequiredScopes rs = \<lparr>scAllOf = [], scAnyOf = rs\<rparr>"

definition claimConstraintsFromRequiredClaims :: "(string, string) gomap \<Rightarrow> ClaimConstraints" where
  "claimConstraintsFromRequiredClaims rc =
     \<lparr>ccAllOf = map (\<lambda>(claim, v). \<lparr>cmClaim = claim, cmValues = [v], legacyExactString = True\<rparr>) rc, ccAnyOf = []\<rparr>"

definition resolveScopeConstraints :: "params \<Rightarrow> ScopeConstraints outcome" where
  "resolveScopeConstraints m =
     andThen (parseScopeConstraints m) (\<lambda>sc.
       if \<not> scopes_isEmpty sc then Ret sc
       else let old = getStringArrayParam m ''requiredScopes'' in
         Ret (if old = [] then noScopes else scopeConstraintsFromRequiredScopes old))"

definition resolveClaimConstraints :: "params \<Rightarrow> ClaimConstraints outcome" where
  "resolveClaimConstraints m =
     andThen (parseClaimConstraints m) (\<lambda>cc.
       if \<not> claims_isEmpty cc then Ret cc
       else let old = getStringMapParam m ''requiredClaims'' in
         Ret (if old = [] then noClaims else claimConstraintsFromRequiredClaims old))"

section \<open>Evaluation\<close>

definition jwt_claimMatcherMatches :: "(any \<Rightarrow> string option) \<Rightarrow> ClaimMatcher \<Rightarrow> params \<Rightarrow> bool" where
  "jwt_claimMatcherMatches marshal m claims =
     (if cmValues m = [] then False
      else if legacyExactString m then
        (let got = getString (index claims (cmClaim m)) in got \<noteq> '''' \<and> got \<in> set (cmValues m))
      else list_ex (\<lambda>v. v \<in> set (cmValues m)) (claimValuesAsStrings marshal (index claims (cmClaim m))))"

definition evaluateScopeConstraints :: "ScopeConstraints \<Rightarrow> (string, bool) gomap \<Rightarrow> bool" where
  "evaluateScopeConstraints sc tokenScopes =
     (let has = (\<lambda>s. map_of tokenScopes s = Some True) in
      if \<not> list_all has (scAllOf sc) then False
      else if scAnyOf sc \<noteq> [] then list_ex has (scAnyOf sc) else True)"

definition evaluateClaimConstraints :: "(any \<Rightarrow> string option) \<Rightarrow> ClaimConstraints \<Rightarrow> params \<Rightarrow> bool" where
  "evaluateClaimConstraints marshal cc claims =
     (if \<not> list_all (\<lambda>m. jwt_claimMatcherMatches marshal m claims) (ccAllOf cc) then False
      else if ccAnyOf cc \<noteq> [] then list_ex (\<lambda>m. jwt_claimMatcherMatches marshal m claims) (ccAnyOf cc) else True)"

section \<open>The identity\<close>

definition standardJWTClaims :: "string list" where
  "standardJWTClaims = [''iss'', ''sub'', ''aud'', ''exp'', ''nbf'', ''iat'', ''jti'', ''scope'', ''scp'']"

definition buildProperties :: "(any \<Rightarrow> string option) \<Rightarrow> params \<Rightarrow> (string, string) gomap option" where
  "buildProperties marshal claims =
     (let own = filter (\<lambda>c. fst c \<notin> set standardJWTClaims) claims
      in if own = [] then None else Some (map (\<lambda>(k, v). (k, claimValueToString marshal v)) own))"

definition buildTypedProperties :: "params \<Rightarrow> params" where
  "buildTypedProperties claims = filter (\<lambda>c. fst c \<notin> set standardJWTClaims \<and> snd c \<noteq> ANil) claims"

text \<open>The identity of \<^verbatim>\<open>mcp-authz\<close> with the fields only this policy sets.\<close>

record jwt_identity = AuthContext +
  acTokenId :: string
  acCredentialID :: string

definition subjectOf :: "(any \<Rightarrow> string option) \<Rightarrow> string \<Rightarrow> params \<Rightarrow> string" where
  "subjectOf marshal userIdClaim claims =
     (let sub = getString (index claims ''sub'') in
      if userIdClaim \<noteq> '''' \<and> userIdClaim \<noteq> ''sub'' then
        (case map_of claims userIdClaim of
           Some v \<Rightarrow>
             (let candidate = TrimSpace (claimValueToString marshal v)
              in if candidate \<noteq> '''' \<and> candidate \<noteq> ''null'' then candidate else sub)
         | None \<Rightarrow> sub)
      else sub)"

definition identityOf :: "(any \<Rightarrow> string option) \<Rightarrow> string \<Rightarrow> params \<Rightarrow> string list \<Rightarrow> jwt_identity" where
  "identityOf marshal userIdClaim claims scopes =
     \<lparr>acAuthenticated = True, acAuthorized = False, acAuthType = ''jwt'', acSubject = subjectOf marshal userIdClaim claims,
      acIssuer = getString (index claims ''iss''), acAudience = parseAudience (index claims ''aud''), acScopes = buildScopesMap scopes,
      acProperties = buildProperties marshal claims, acTypedProperties = buildTypedProperties claims,
      acTokenId = getString (index claims ''jti''), acCredentialID = getString (index claims ''client_id'')\<rparr>"

definition failedIdentity :: jwt_identity where
  "failedIdentity = \<lparr>acAuthenticated = False, acAuthorized = False, acAuthType = ''jwt'', acSubject = '''', acIssuer = '''', acAudience = [],
     acScopes = [], acProperties = None, acTypedProperties = [], acTokenId = '''', acCredentialID = ''''\<rparr>"

end
