(* ===== verification/JwtAuth.thy ===== *)
theory JwtAuth
  imports JwtKeys JwtConstraints LlmTranslate SdkCache
begin

text \<open>
  \<^verbatim>\<open>policies/jwt-auth\<close>: the choice of key managers, the verification of a token, the shared cache of verdicts and the
  hook. The library that parses and verifies tokens, JSON printing and SHA-256 are the fields of \<open>jwtlib\<close>; the cache
  of the SDK is given by its operations, \<open>cache_ops\<close>; each place of the program that reads the clock has its field in
  \<open>jwt_env\<close>, which also has the orders in which Go iterates over the maps.
\<close>

section \<open>Data\<close>

datatype signing_method = MethodRSA | MethodPSS | MethodECDSA | MethodOther

record jwt_token =
  jtHeader :: params
  jtMethod :: signing_method
  jtClaims :: params

text \<open>\<open>jlParse\<close> is \<^verbatim>\<open>ParseWithClaims\<close> of a parser with a leeway and a list of valid algorithms: the claims of the
  token if its algorithm is valid, the signature verifies under the key the function gives and the time claims hold.\<close>

record jwtlib = keylib +
  jlUnverified :: "string \<Rightarrow> jwt_token option"
  jlParse :: "duration \<Rightarrow> string list \<Rightarrow> instant \<Rightarrow> string \<Rightarrow> (jwt_token \<Rightarrow> pubkey option) \<Rightarrow> string + params"
  jlMarshal :: "any \<Rightarrow> string option"
  jlPrint :: "any \<Rightarrow> string"
  jlSha256 :: "string \<Rightarrow> string"
  jlDurationString :: "duration \<Rightarrow> string"

record KeyManager =
  kmName :: string
  kmIssuer :: string
  kmRemote :: "RemoteJWKS option"
  kmLocal :: "pubkey option"
  kmScopeClaim :: string
  kmSeparator :: string

record cachedVerdict =
  vdOk :: bool
  vdClaims :: params
  vdScopes :: "string list"
  vdReason :: string
  vdExpiresAt :: instant

record 'c jwt_state =
  jsJwks :: jwks_cache
  jsCache :: 'c
  jsSize :: int

record jwt_env =
  teGet :: instant
  teCheck :: instant
  teParse :: instant
  teJwks :: instant
  teFetched :: instant
  teNegative :: instant
  tePut :: instant
  tePut2 :: instant
  teManagers :: "KeyManager list \<Rightarrow> KeyManager list"
  teKeys :: "(string \<times> pubkey) list \<Rightarrow> (string \<times> pubkey) list"

definition supportedAlgorithms :: "string list" where
  "supportedAlgorithms = [''RS256'', ''PS256'', ''ES256'']"

definition signatureKeyFunc :: "pubkey \<Rightarrow> jwt_token \<Rightarrow> pubkey option" where
  "signatureKeyFunc key token =
     (case key of
        RSAKey _ _ \<Rightarrow> if jtMethod token \<in> {MethodRSA, MethodPSS} then Some key else None
      | ECKey _ _ _ \<Rightarrow> if jtMethod token = MethodECDSA then Some key else None)"

section \<open>The cache of verdicts\<close>

definition defaultTokenCacheMaxSize :: int where "defaultTokenCacheMaxSize = 100000"

text \<open>The one instance of the policy when the program starts.\<close>

definition jwt_ins :: "('c, cachedVerdict) cache_ops \<Rightarrow> 'c jwt_state" where
  "jwt_ins ops = \<lparr>jsJwks = \<lparr>jcStore = [], jcTTLs = []\<rparr>, jsCache = coNew ops defaultTokenCacheMaxSize, jsSize = defaultTokenCacheMaxSize\<rparr>"

definition ensureTokenCache :: "('c, cachedVerdict) cache_ops \<Rightarrow> int \<Rightarrow> 'c jwt_state \<Rightarrow> 'c jwt_state" where
  "ensureTokenCache ops maxSize s = (if jsSize s = maxSize then s else s\<lparr>jsCache := coNew ops maxSize, jsSize := maxSize\<rparr>)"

definition getCachedVerdict :: "('c, cachedVerdict) cache_ops \<Rightarrow> instant \<Rightarrow> string \<Rightarrow> 'c \<Rightarrow> 'c \<times> cachedVerdict option" where
  "getCachedVerdict ops now key c =
     (case coGet ops key c of
        (c, None) \<Rightarrow> (c, None)
      | (c, Some v) \<Rightarrow> if now < vdExpiresAt v then (c, Some v) else (coDelete ops key c, None))"

definition putVerdict :: "('c, cachedVerdict) cache_ops \<Rightarrow> string \<Rightarrow> cachedVerdict \<Rightarrow> 'c \<Rightarrow> 'c" where
  "putVerdict ops key v c = coSet ops key v c"

definition buildTokenCacheKey :: "('z jwtlib_scheme) \<Rightarrow> string \<Rightarrow> string \<Rightarrow> string" where
  "buildTokenCacheKey lib fingerprint token = jlSha256 lib (fingerprint @ char_of (0 :: nat) # token)"

definition tokenConfigFingerprint :: "('z jwtlib_scheme) \<Rightarrow> string \<Rightarrow> string \<Rightarrow> any \<Rightarrow> bool \<Rightarrow> string list \<Rightarrow> duration \<Rightarrow> string" where
  "tokenConfigFingerprint lib apiId apiName kmRaw validateIssuer issuers leeway =
     apiId @ ''|'' @ apiName @ ''|'' @ (case jlMarshal lib kmRaw of Some b \<Rightarrow> b | None \<Rightarrow> jlPrint lib kmRaw) @ ''|'' @
     (if validateIssuer then ''true'' else ''false'') @ ''|'' @ join '','' issuers @ ''|'' @ jlDurationString lib leeway"

definition jwt_GetPolicy :: "('c, cachedVerdict) cache_ops \<Rightarrow> params \<Rightarrow> 'c jwt_state \<Rightarrow> 'c jwt_state" where
  "jwt_GetPolicy ops m s =
     (let n = getIntParam m ''cacheMaxSize'' defaultTokenCacheMaxSize
      in ensureTokenCache ops (if n \<le> 0 then defaultTokenCacheMaxSize else n) s)"

definition jwt_Mode :: "body_mode \<times> body_mode" where
  "jwt_Mode = (BodyModeSkip, BodyModeSkip)"

section \<open>Key managers\<close>

text \<open>\<open>None\<close> drops the key manager, \<open>Some None\<close> leaves it without that kind of key.\<close>

definition parseRemote :: "('z jwtlib_scheme) \<Rightarrow> params \<Rightarrow> RemoteJWKS option option" where
  "parseRemote lib jwks =
     (case as_map (index jwks ''remote'') of
        None \<Rightarrow> Some None
      | Some r \<Rightarrow>
          let uri = getString (index r ''uri''); path = getString (index r ''certificatePath''); skip = getBool (index r ''skipTlsVerify'');
              remote = \<lparr>rjURI = uri, rjCertificatePath = path, rjSkipTlsVerify = skip, rjTls = None\<rparr>
          in if uri = '''' then Some None
             else if path \<noteq> '''' then
               (case loadTLSConfig (keylib.truncate lib) path of Ret t \<Rightarrow> Some (Some (remote\<lparr>rjTls := Some t\<rparr>)) | _ \<Rightarrow> None)
             else Some (Some (if skip then remote\<lparr>rjTls := Some InsecureSkipVerify\<rparr> else remote)))"

definition parseLocal :: "('z jwtlib_scheme) \<Rightarrow> params \<Rightarrow> pubkey option option" where
  "parseLocal lib jwks =
     (case as_map (index jwks ''local'') of
        None \<Rightarrow> Some None
      | Some l \<Rightarrow>
          let inline = getString (index l ''inline''); path = getString (index l ''certificatePath'') in
          if inline = '''' \<and> path = '''' then Some None
          else (case (if inline \<noteq> '''' then parsePublicKeyFromString (keylib.truncate lib) inline
                      else loadPublicKeyFromCertificate (keylib.truncate lib) path) of
            Ret key \<Rightarrow> Some (Some key)
          | _ \<Rightarrow> None))"

definition parseKeyManager :: "('z jwtlib_scheme) \<Rightarrow> any \<Rightarrow> KeyManager option" where
  "parseKeyManager lib raw =
     (case as_map raw of
        None \<Rightarrow> None
      | Some km \<Rightarrow>
          let name = getString (index km ''name''); scopeClaim = getString (index km ''scopeClaim''); sep = getString (index km ''scopeClaimSeparator'') in
          if name = '''' then None
          else (case as_map (index km ''jwks'') of
            None \<Rightarrow> None
          | Some jwks \<Rightarrow>
              (case (parseRemote lib jwks, parseLocal lib jwks) of
                 (Some remote, Some loc) \<Rightarrow>
                   if remote = None \<and> loc = None then None
                   else Some \<lparr>kmName = name, kmIssuer = getString (index km ''issuer''), kmRemote = remote, kmLocal = loc,
                     kmScopeClaim = scopeClaim, kmSeparator = (if scopeClaim \<noteq> '''' \<and> sep = '''' then '' '' else sep)\<rparr>
               | _ \<Rightarrow> None)))"

text \<open>By name; a repeated name replaces the earlier key manager.\<close>

definition parseKeyManagers :: "('z jwtlib_scheme) \<Rightarrow> any \<Rightarrow> (string, KeyManager) gomap" where
  "parseKeyManagers lib raw =
     foldl (\<lambda>m item. case parseKeyManager lib item of Some km \<Rightarrow> AList.update (kmName km) km m | None \<Rightarrow> m) []
       (case as_arr raw of Some items \<Rightarrow> items | None \<Rightarrow> [])"

section \<open>Verification\<close>

datatype jwt_error = TokenExpired | Invalid string

fun errorText :: "jwt_error \<Rightarrow> string" where
  "errorText TokenExpired = ''token expired''"
| "errorText (Invalid s) = s"

text \<open>Candidates are added once by name, in the order of the issuers.\<close>

definition addCandidate :: "KeyManager list \<Rightarrow> KeyManager \<Rightarrow> KeyManager list" where
  "addCandidate acc km = (if kmName km \<in> kmName ` set acc then acc else acc @ [km])"

definition candidatesFor :: "(KeyManager list \<Rightarrow> KeyManager list) \<Rightarrow> (string, KeyManager) gomap \<Rightarrow> string \<Rightarrow> KeyManager list \<Rightarrow> string \<Rightarrow> KeyManager list" where
  "candidatesFor iter kms tokenIssuer acc userIssuer =
     (let acc = (case map_of kms userIssuer of
            Some km \<Rightarrow> if kmIssuer km = '''' \<or> kmIssuer km = tokenIssuer then addCandidate acc km else acc
          | None \<Rightarrow> acc)
      in if tokenIssuer = userIssuer then foldl addCandidate acc (filter (\<lambda>km. kmIssuer km = userIssuer) (iter (map snd kms))) else acc)"

definition applicableKeyManagers :: "(KeyManager list \<Rightarrow> KeyManager list) \<Rightarrow> (string, KeyManager) gomap \<Rightarrow> string list \<Rightarrow> bool \<Rightarrow> string \<Rightarrow> jwt_error + KeyManager list" where
  "applicableKeyManagers iter kms userIssuers validateIssuer tokenIssuer =
     (let all = iter (map snd kms) in
      if userIssuers \<noteq> [] then
        (let cs = foldl (candidatesFor iter kms tokenIssuer) [] userIssuers in
         if cs = [] then Inl (Invalid (''token issuer '' @ quoted tokenIssuer @ '' does not match any configured issuer or key manager'')) else Inr cs)
      else if tokenIssuer \<noteq> '''' then
        (case find (\<lambda>km. kmIssuer km = tokenIssuer) all of
           Some km \<Rightarrow> Inr [km]
         | None \<Rightarrow>
             if validateIssuer then
               (let wild = filter (\<lambda>km. kmIssuer km = '''') all in
                if wild = [] then Inl (Invalid (''no key manager configured for token issuer '' @ quoted tokenIssuer)) else Inr wild)
             else Inr all)
      else if validateIssuer then Inl (Invalid ''token does not contain an issuer claim'')
      else Inr all)"

text \<open>\<^verbatim>\<open>time.Unix\<close>: seconds since 1970, kept as 64-bit seconds since the year 1.\<close>

definition unixTime :: "int \<Rightarrow> instant" where
  "unixTime sec = wrap64 (sec + 62135596800) * Second"

text \<open>The time claims of the token before its signature is verified.\<close>

definition timeCheck :: "instant \<Rightarrow> duration \<Rightarrow> params \<Rightarrow> jwt_error option" where
  "timeCheck now leeway claims =
     (case as_float (index claims ''exp'') of
        Some ex \<Rightarrow>
          if time_Add (unixTime (f64_to_int64 ex)) leeway < now then Some TokenExpired
          else (case as_float (index claims ''nbf'') of
            Some nbf \<Rightarrow> if now < time_Add (unixTime (f64_to_int64 nbf)) (wrap64 (- leeway)) then Some (Invalid ''token not yet valid'') else None
          | None \<Rightarrow> None)
      | None \<Rightarrow>
          (case as_float (index claims ''nbf'') of
             Some nbf \<Rightarrow> if now < time_Add (unixTime (f64_to_int64 nbf)) (wrap64 (- leeway)) then Some (Invalid ''token not yet valid'') else None
           | None \<Rightarrow> None))"

definition parseToken :: "('z jwtlib_scheme) \<Rightarrow> jwt_env \<Rightarrow> duration \<Rightarrow> string \<Rightarrow> pubkey \<Rightarrow> string + params" where
  "parseToken lib env leeway token key = jlParse lib leeway supportedAlgorithms (teParse env) token (signatureKeyFunc key)"

text \<open>With the keys of a remote set: the one with the identifier of the token, or all of them.\<close>

definition verifyWithJwks :: "('z jwtlib_scheme) \<Rightarrow> jwt_env \<Rightarrow> duration \<Rightarrow> string \<Rightarrow> string \<Rightarrow> string \<Rightarrow> CachedJWKS \<Rightarrow> string + params" where
  "verifyWithJwks lib env leeway token kid uri keys =
     (if kid \<noteq> '''' then
        (case map_of keys kid of
           None \<Rightarrow> Inl (''key id '' @ quoted kid @ '' not found in JWKS from '' @ uri)
         | Some key \<Rightarrow>
             (case parseToken lib env leeway token key of
                Inl err \<Rightarrow> Inl (''signature verification failed: '' @ err)
              | Inr claims \<Rightarrow> Inr claims))
      else
        (case List.map_filter (\<lambda>(_, key). case parseToken lib env leeway token key of Inr claims \<Rightarrow> Some claims | Inl _ \<Rightarrow> None) (teKeys env keys) of
           claims # _ \<Rightarrow> Inr claims
         | [] \<Rightarrow> Inl (''token signature verification failed with all keys from '' @ uri)))"

text \<open>One key manager after another; the last error is kept.\<close>

fun tryKeyManagers :: "('z jwtlib_scheme) \<Rightarrow> jwt_env \<Rightarrow> duration \<Rightarrow> duration \<Rightarrow> int \<Rightarrow> string \<Rightarrow> string \<Rightarrow> string option \<Rightarrow> KeyManager list \<Rightarrow> jwks_cache
    \<Rightarrow> jwks_cache \<times> (jwt_error + params \<times> KeyManager)" where
  "tryKeyManagers lib env leeway ttl retries token kid lastErr [] c =
     (c, Inl (Invalid (case lastErr of Some e \<Rightarrow> e | None \<Rightarrow> ''unable to verify token signature with available key managers'')))"
| "tryKeyManagers lib env leeway ttl retries token kid lastErr (km # kms) c =
     (case kmLocal km of
        Some key \<Rightarrow>
          (case parseToken lib env leeway token key of
             Inr claims \<Rightarrow> (c, Inr (claims, km))
           | Inl err \<Rightarrow> tryKeyManagers lib env leeway ttl retries token kid (Some (''signature verification failed with local certificate: '' @ err)) kms c)
      | None \<Rightarrow>
          (case kmRemote km of
             None \<Rightarrow> tryKeyManagers lib env leeway ttl retries token kid lastErr kms c
           | Some remote \<Rightarrow>
               (case fetchJWKSWithRetry (keylib.truncate lib) (teJwks env) (teFetched env) remote ttl retries c of
                  (c, Ret keys) \<Rightarrow>
                    (case verifyWithJwks lib env leeway token kid (rjURI remote) keys of
                       Inr claims \<Rightarrow> (c, Inr (claims, km))
                     | Inl err \<Rightarrow> tryKeyManagers lib env leeway ttl retries token kid (Some err) kms c)
                | (c, Fail err) \<Rightarrow>
                    tryKeyManagers lib env leeway ttl retries token kid (Some (''failed to fetch JWKS from '' @ rjURI remote @ '': '' @ err)) kms c
                | (c, Panic) \<Rightarrow> tryKeyManagers lib env leeway ttl retries token kid lastErr kms c)))"

section \<open>Configuration\<close>

record jwt_config =
  cfHeaderName :: string
  cfScheme :: string
  cfStatus :: int
  cfFormat :: string
  cfMessage :: string
  cfLeeway :: duration
  cfJwksTtl :: duration
  cfRetries :: int
  cfValidateIssuer :: bool
  cfCaching :: bool
  cfTokenTtl :: duration
  cfNegativeTtl :: duration
  cfIssuers :: "string list"
  cfAudiences :: "string list"
  cfClaimMappings :: "(string, string) gomap"
  cfUserIdClaim :: string
  cfForwardToken :: bool
  cfForwardedHeader :: string
  cfStripScheme :: bool

definition durationParam :: "params \<Rightarrow> string \<Rightarrow> string \<Rightarrow> duration \<Rightarrow> duration" where
  "durationParam m k d fallback = (case ParseDuration (getStringParam m k d) of Some x \<Rightarrow> x | None \<Rightarrow> fallback)"

definition jwtConfig :: "params \<Rightarrow> jwt_config" where
  "jwtConfig m =
     (let prefix = getStringParam m ''authHeaderPrefix'' '''' in
      \<lparr>cfHeaderName = getStringParam m ''headerName'' ''Authorization'',
       cfScheme = (if prefix \<noteq> '''' then prefix else getStringParam m ''authHeaderScheme'' ''Bearer''),
       cfStatus = getIntParam m ''onFailureStatusCode'' 401,
       cfFormat = getStringParam m ''errorMessageFormat'' ''json'',
       cfMessage = getStringParam m ''errorMessage'' ''Authentication failed'',
       cfLeeway = durationParam m ''leeway'' ''30s'' (30 * Second),
       cfJwksTtl = durationParam m ''jwksCacheTtl'' ''5m'' (5 * Minute),
       cfRetries = getIntParam m ''jwksFetchRetryCount'' 3,
       cfValidateIssuer = getBoolParam m ''validateIssuer'' True,
       cfCaching = getBoolParam m ''tokenCaching'' True,
       cfTokenTtl = durationParam m ''tokenCacheTtl'' ''5m'' (5 * Minute),
       cfNegativeTtl = durationParam m ''negativeCacheTtl'' ''30s'' (30 * Second),
       cfIssuers = getStringArrayParam m ''issuers'', cfAudiences = getStringArrayParam m ''audiences'',
       cfClaimMappings = getStringMapParam m ''claimMappings'', cfUserIdClaim = getStringParam m ''userIdClaim'' ''sub'',
       cfForwardToken = getBoolParam m ''forwardToken'' True,
       cfForwardedHeader = getStringParam m ''forwardedTokenHeader'' ''x-forwarded-authorization'',
       cfStripScheme = getBoolParam m ''forwardTokenStripScheme'' False\<rparr>)"

section \<open>Outcomes\<close>

text \<open>\<^verbatim>\<open>http.CanonicalHeaderKey\<close>.\<close>

definition token_byte :: "char \<Rightarrow> bool" where
  "token_byte c \<longleftrightarrow> (let n = of_char c :: nat in 48 \<le> n \<and> n \<le> 57 \<or> 65 \<le> n \<and> n \<le> 90 \<or> 97 \<le> n \<and> n \<le> 122) \<or>
     c \<in> set ''!#$%&*+-.^_|~'' \<or> c = CHR 0x27 \<or> c = CHR 0x60"

definition upperByte :: "char \<Rightarrow> char" where
  "upperByte c = (let n = of_char c :: nat in if 97 \<le> n \<and> n \<le> 122 then char_of (n - 32) else c)"

fun canonicalFrom :: "bool \<Rightarrow> string \<Rightarrow> string" where
  "canonicalFrom upper [] = []"
| "canonicalFrom upper (c # cs) = (if upper then upperByte c else to_lower c) # canonicalFrom (c = CHR ''-'') cs"

definition CanonicalHeaderKey :: "string \<Rightarrow> string" where
  "CanonicalHeaderKey s = (if list_all token_byte s then canonicalFrom True s else s)"

text \<open>The headers set from claims; two names that differ only in case are one header.\<close>

definition mapClaim :: "(any \<Rightarrow> string option) \<Rightarrow> bool \<Rightarrow> string \<Rightarrow> params \<Rightarrow> (string, string \<times> string) gomap \<Rightarrow> string \<times> string \<Rightarrow> (string, string \<times> string) gomap" where
  "mapClaim marshal forwardToken canonicalOut claims acc m =
     (let canonical = CanonicalHeaderKey (snd m) in
      if forwardToken \<and> canonical = canonicalOut then acc
      else
        let (name, value) = (case map_of acc canonical of Some h \<Rightarrow> h | None \<Rightarrow> (snd m, ''''))
        in AList.update canonical (name, case map_of claims (fst m) of Some v \<Rightarrow> claimValueToString marshal v | None \<Rightarrow> value) acc)"

definition forwardMods :: "jwt_config \<Rightarrow> string \<Rightarrow> string \<Rightarrow> up_mods" where
  "forwardMods cf authHeader token =
     (let canonicalIn = CanonicalHeaderKey (cfHeaderName cf); canonicalOut = CanonicalHeaderKey (cfForwardedHeader cf);
          value = (if cfStripScheme cf then token else authHeader)
      in if \<not> cfForwardToken cf then noUpMods\<lparr>umRemove := [canonicalIn]\<rparr>
         else if canonicalOut \<noteq> canonicalIn then noUpMods\<lparr>umSet := [(canonicalOut, value)], umRemove := [canonicalIn]\<rparr>
         else if cfStripScheme cf then noUpMods\<lparr>umSet := [(canonicalOut, value)]\<rparr>
         else noUpMods)"

definition handleAuthSuccessHeaders :: "(any \<Rightarrow> string option) \<Rightarrow> jwt_config \<Rightarrow> string \<Rightarrow> string \<Rightarrow> params \<Rightarrow> string list \<Rightarrow> jwt_identity list \<Rightarrow> jwt_identity list \<times> up_mods hook_action" where
  "handleAuthSuccessHeaders marshal cf authHeader token claims scopes auth =
     (let mods = forwardMods cf authHeader token;
          mapped = foldl (mapClaim marshal (cfForwardToken cf) (CanonicalHeaderKey (cfForwardedHeader cf)) claims) [] (cfClaimMappings cf)
      in (identityOf marshal (cfUserIdClaim cf) claims scopes # auth,
          Modify (mods\<lparr>umSet := foldl (\<lambda>hs h. AList.update (fst (snd h)) (snd (snd h)) hs) (umSet mods) mapped\<rparr>)))"

definition handleAuthFailureHeaders :: "(any \<Rightarrow> string option) \<Rightarrow> jwt_config \<Rightarrow> jwt_identity list \<Rightarrow> jwt_identity list \<times> up_mods hook_action" where
  "handleAuthFailureHeaders marshal cf auth =
     (failedIdentity # auth,
      Reply \<lparr>irStatus = cfStatus cf,
        irHeaders = [(''content-type'', if cfFormat cf = ''plain'' then ''text/plain'' else ''application/json'')],
        irBody = (if cfFormat cf = ''plain'' then cfMessage cf
          else if cfFormat cf = ''minimal'' then ''Unauthorized''
          else case marshal (AMap [(''error'', AStr ''Unauthorized''), (''message'', AStr (cfMessage cf))]) of Some b \<Rightarrow> b | None \<Rightarrow> '''')\<rparr>)"

definition audienceOk :: "string list \<Rightarrow> params \<Rightarrow> bool" where
  "audienceOk audiences claims \<longleftrightarrow> audiences = [] \<or> list_ex (\<lambda>a. a \<in> set (parseAudience (index claims ''aud''))) audiences"

definition finishAuthentication :: "(any \<Rightarrow> string option) \<Rightarrow> jwt_config \<Rightarrow> ScopeConstraints \<Rightarrow> ClaimConstraints \<Rightarrow> string \<Rightarrow> string \<Rightarrow> params \<Rightarrow> string list \<Rightarrow> jwt_identity list
    \<Rightarrow> jwt_identity list \<times> up_mods hook_action" where
  "finishAuthentication marshal cf sc cc authHeader token claims scopes auth =
     (if \<not> audienceOk (cfAudiences cf) claims then handleAuthFailureHeaders marshal cf auth
      else if \<not> scopes_isEmpty sc \<and> \<not> evaluateScopeConstraints sc (buildScopesMap scopes) then handleAuthFailureHeaders marshal cf auth
      else if \<not> claims_isEmpty cc \<and> \<not> evaluateClaimConstraints marshal cc claims then handleAuthFailureHeaders marshal cf auth
      else handleAuthSuccessHeaders marshal cf authHeader token claims scopes auth)"

section \<open>The hook\<close>

definition extractToken :: "string \<Rightarrow> string \<Rightarrow> string" where
  "extractToken authHeader scheme =
     (let parts = Fields (TrimSpace authHeader) in
      if scheme \<noteq> '''' then (case parts of [s, t] \<Rightarrow> if EqualFold s scheme then t else '''' | _ \<Rightarrow> '''')
      else (case parts of [] \<Rightarrow> '''' | [t] \<Rightarrow> t | _ # t # _ \<Rightarrow> t))"

text \<open>Until when a verified token is trusted from the cache.\<close>

definition verdictExpiry :: "jwt_config \<Rightarrow> instant \<Rightarrow> params \<Rightarrow> instant" where
  "verdictExpiry cf now claims =
     (let expiresAt = time_Add now (cfTokenTtl cf) in
      case as_float (index claims ''exp'') of
        Some ex \<Rightarrow> (let e = time_Add (unixTime (f64_to_int64 ex)) (wrap64 (- cfLeeway cf)) in if e < expiresAt then e else expiresAt)
      | None \<Rightarrow> expiresAt)"

text \<open>A full verification: the key managers, the token, and what is put into the cache. \<open>Inl\<close> fails the request.\<close>

definition negativeVerdict :: "jwt_config \<Rightarrow> instant \<Rightarrow> string \<Rightarrow> cachedVerdict" where
  "negativeVerdict cf now reason =
     \<lparr>vdOk = False, vdClaims = [], vdScopes = [], vdReason = reason, vdExpiresAt = time_Add now (cfNegativeTtl cf)\<rparr>"

definition validateToken :: "('z jwtlib_scheme) \<Rightarrow> jwt_env \<Rightarrow> jwt_config \<Rightarrow> (string, KeyManager) gomap \<Rightarrow> string \<Rightarrow> jwt_token \<Rightarrow> jwks_cache
    \<Rightarrow> jwks_cache \<times> (jwt_error + params \<times> KeyManager)" where
  "validateToken lib env cf kms token unverified c =
     (case timeCheck (teCheck env) (cfLeeway cf) (jtClaims unverified) of
        Some err \<Rightarrow> (c, Inl err)
      | None \<Rightarrow>
          (case applicableKeyManagers (teManagers env) kms (cfIssuers cf) (cfValidateIssuer cf) (getString (index (jtClaims unverified) ''iss'')) of
             Inl err \<Rightarrow> (c, Inl err)
           | Inr cs \<Rightarrow>
               tryKeyManagers lib env (cfLeeway cf) (cfJwksTtl cf) (cfRetries cf) token (getString (index (jtHeader unverified) ''kid'')) None cs c))"

definition verifyToken :: "('c, cachedVerdict) cache_ops \<Rightarrow> ('z jwtlib_scheme) \<Rightarrow> jwt_env \<Rightarrow> jwt_config \<Rightarrow> any \<Rightarrow> string \<Rightarrow> string \<Rightarrow> 'c jwt_state \<Rightarrow> 'c jwt_state \<times> (params \<times> string list) option" where
  "verifyToken ops lib env cf kmRaw cacheKey token s =
     (let put = (\<lambda>v s. if cfCaching cf then s\<lparr>jsCache := putVerdict ops cacheKey v (jsCache s)\<rparr> else s);
          kms = parseKeyManagers lib kmRaw
      in if kms = [] then (s, None)
         else case jlUnverified lib token of
           None \<Rightarrow> (put (negativeVerdict cf (teNegative env) ''invalid token format'') s, None)
         | Some unverified \<Rightarrow>
             (case validateToken lib env cf kms token unverified (jsJwks s) of
                (c, Inl err) \<Rightarrow>
                  (let s = s\<lparr>jsJwks := c\<rparr> in
                   (if err = TokenExpired then put (negativeVerdict cf (teNegative env) (''token validation failed: '' @ errorText err)) s else s, None))
              | (c, Inr (claims, km)) \<Rightarrow>
                  (let s = s\<lparr>jsJwks := c\<rparr>; scopes = resolveScopes claims (kmScopeClaim km) (kmSeparator km); expiry = verdictExpiry cf (tePut env) claims
                   in (if tePut2 env < expiry then
                         put \<lparr>vdOk = True, vdClaims = claims, vdScopes = scopes, vdReason = '''', vdExpiresAt = expiry\<rparr> s
                       else s, Some (claims, scopes)))))"

text \<open>From the boundary of the cache on.\<close>

definition authenticate :: "('c, cachedVerdict) cache_ops \<Rightarrow> ('z jwtlib_scheme) \<Rightarrow> jwt_env \<Rightarrow> jwt_config \<Rightarrow> any \<Rightarrow> ScopeConstraints \<Rightarrow> ClaimConstraints \<Rightarrow> string \<Rightarrow> string \<Rightarrow> string
    \<Rightarrow> jwt_identity list \<Rightarrow> 'c jwt_state \<Rightarrow> 'c jwt_state \<times> jwt_identity list \<times> up_mods hook_action" where
  "authenticate ops lib env cf kmRaw sc cc key authHeader token auth s =
     (let marshal = jlMarshal lib; failure = handleAuthFailureHeaders marshal cf auth;
          (cache, hit) = (if cfCaching cf then getCachedVerdict ops (teGet env) key (jsCache s) else (jsCache s, None));
          s = s\<lparr>jsCache := cache\<rparr>
      in case hit of
           Some v \<Rightarrow> (s, if vdOk v then finishAuthentication marshal cf sc cc authHeader token (vdClaims v) (vdScopes v) auth else failure)
         | None \<Rightarrow>
             (case verifyToken ops lib env cf kmRaw key token s of
                (s, None) \<Rightarrow> (s, failure)
              | (s, Some (claims, scopes)) \<Rightarrow> (s, finishAuthentication marshal cf sc cc authHeader token claims scopes auth)))"

definition jwt_OnRequestHeaders :: "('c, cachedVerdict) cache_ops \<Rightarrow> ('z jwtlib_scheme) \<Rightarrow> jwt_env \<Rightarrow> params \<Rightarrow> string \<Rightarrow> string \<Rightarrow> headers \<Rightarrow> jwt_identity list \<Rightarrow> 'c jwt_state
    \<Rightarrow> 'c jwt_state \<times> jwt_identity list \<times> up_mods hook_action" where
  "jwt_OnRequestHeaders ops lib env m apiId apiName hs auth s =
     (let cf = jwtConfig m; failure = handleAuthFailureHeaders (jlMarshal lib) cf auth in
      case map_of m ''keyManagers'' of
        None \<Rightarrow> (s, failure)
      | Some kmRaw \<Rightarrow>
          (case resolveScopeConstraints m of
             Ret sc \<Rightarrow>
               (case resolveClaimConstraints m of
                  Ret cc \<Rightarrow>
                    (case hs (ToLower (cfHeaderName cf)) of
                       [] \<Rightarrow> (s, failure)
                     | authHeader # _ \<Rightarrow>
                         let token = extractToken authHeader (cfScheme cf) in
                         if token = '''' then (s, failure)
                         else authenticate ops lib env cf kmRaw sc cc
                           (buildTokenCacheKey lib
                              (tokenConfigFingerprint lib apiId apiName kmRaw (cfValidateIssuer cf) (cfIssuers cf) (cfLeeway cf)) token)
                           authHeader token auth s)
                | _ \<Rightarrow> (s, failure))
           | _ \<Rightarrow> (s, failure)))"

end
