(* ===== verification/JwtRuns.thy ===== *)
theory JwtRuns
  imports JwtAuth
begin

text \<open>
  Runs of \<^verbatim>\<open>policies/jwt-auth\<close>: deployments and requests that share one cache of verdicts and one cache of key sets.
  The invariant of the caches says where their entries come from; it gives what a request that passes can rely on.
\<close>

section \<open>Requests and runs\<close>

record 'z jwt_request =
  rqLib :: "'z jwtlib_scheme"
  rqEnv :: jwt_env
  rqParams :: params
  rqApiId :: string
  rqApiName :: string
  rqHeaders :: headers
  rqAuth :: "jwt_identity list"

abbreviation rqConfig :: "'z jwt_request \<Rightarrow> jwt_config" where
  "rqConfig r \<equiv> jwtConfig (rqParams r)"

definition serve :: "('c, cachedVerdict) cache_ops \<Rightarrow> 'z jwt_request \<Rightarrow> 'c jwt_state \<Rightarrow> 'c jwt_state \<times> jwt_identity list \<times> up_mods hook_action" where
  "serve ops r = jwt_OnRequestHeaders ops (rqLib r) (rqEnv r) (rqParams r) (rqApiId r) (rqApiName r) (rqHeaders r) (rqAuth r)"

text \<open>The requests of a run, latest first.\<close>

inductive jwt_run :: "('c, cachedVerdict) cache_ops \<Rightarrow> 'z jwt_request list \<Rightarrow> 'c jwt_state \<Rightarrow> bool" for ops where
  start: "jwt_run ops [] (jwt_ins ops)"
| deploy: "jwt_run ops rs s \<Longrightarrow> jwt_run ops rs (jwt_GetPolicy ops m s)"
| request: "jwt_run ops rs s \<Longrightarrow> jwt_run ops (r # rs) (fst (serve ops r s))"

text \<open>Iteration over a map reorders it; what the parser verifies is what it parses without verification.\<close>

definition envOk :: "jwt_env \<Rightarrow> bool" where
  "envOk env \<longleftrightarrow> (\<forall>xs. set (teKeys env xs) = set xs) \<and> (\<forall>xs. set (teManagers env xs) = set xs)"

definition libOk :: "'z jwtlib_scheme \<Rightarrow> bool" where
  "libOk lib \<longleftrightarrow> (\<forall>l algs now token kf claims. jlParse lib l algs now token kf = Inr claims \<longrightarrow> map_option jtClaims (jlUnverified lib token) = Some claims)"

section \<open>What is relied on\<close>

text \<open>The key set of a URI was an answer with status 200 to one of the requests, under some TLS configuration.\<close>

definition servedIn :: "'z jwt_request list \<Rightarrow> string \<Rightarrow> CachedJWKS \<Rightarrow> bool" where
  "servedIn rs uri keys \<longleftrightarrow> (\<exists>r \<in> set rs. \<exists>remote. rjURI remote = uri \<and> served (keylib.truncate (rqLib r)) remote keys)"

text \<open>A key of a key manager: of its local certificate if it has one, and of its endpoint otherwise.\<close>

definition keyOf :: "'z jwt_request list \<Rightarrow> KeyManager \<Rightarrow> pubkey \<Rightarrow> bool" where
  "keyOf rs km pub \<longleftrightarrow>
     (case kmLocal km of
        Some key \<Rightarrow> pub = key
      | None \<Rightarrow> \<exists>remote keys kid. kmRemote km = Some remote \<and> servedIn rs (rjURI remote) keys \<and> (kid, pub) \<in> set keys)"

text \<open>A key manager may speak for an issuer: it is configured for it or for none, and where issuers are listed, it or
  the issuer is among them. Without a list and without validation of issuers, any may.\<close>

definition speaksFor :: "jwt_config \<Rightarrow> KeyManager \<Rightarrow> string \<Rightarrow> bool" where
  "speaksFor cf km issuer \<longleftrightarrow>
     (if cfIssuers cf \<noteq> [] then kmName km \<in> set (cfIssuers cf) \<and> kmIssuer km \<in> {'''', issuer} \<or> issuer \<in> set (cfIssuers cf) \<and> kmIssuer km = issuer
      else cfValidateIssuer cf \<longrightarrow> issuer \<noteq> '''' \<and> kmIssuer km \<in> {'''', issuer})"

text \<open>A token that request \<open>r\<close> verified: its time claims held, and the parser took its claims under a key of a
  configured key manager that may speak for its issuer, with an algorithm from the allowlist that fits the key.\<close>

definition verifiedIn :: "'z jwt_request list \<Rightarrow> 'z jwt_request \<Rightarrow> string \<Rightarrow> params \<Rightarrow> string list \<Rightarrow> bool" where
  "verifiedIn rs r token claims scopes \<longleftrightarrow>
     timeCheck (teCheck (rqEnv r)) (cfLeeway (rqConfig r)) claims = None \<and>
     (\<exists>km pub.
        km \<in> snd ` set (parseKeyManagers (rqLib r) (index (rqParams r) ''keyManagers'')) \<and>
        speaksFor (rqConfig r) km (getString (index claims ''iss'')) \<and> keyOf rs km pub \<and>
        jlParse (rqLib r) (cfLeeway (rqConfig r)) supportedAlgorithms (teParse (rqEnv r)) token (signatureKeyFunc pub) = Inr claims \<and>
        scopes = resolveScopes claims (kmScopeClaim km) (kmSeparator km))"

text \<open>The time until which a verdict of \<open>r\<close> is trusted.\<close>

definition freshAt :: "instant \<Rightarrow> 'z jwt_request \<Rightarrow> params \<Rightarrow> bool" where
  "freshAt now r claims \<longleftrightarrow>
     now < time_Add (tePut (rqEnv r)) (cfTokenTtl (rqConfig r)) \<and>
     (\<forall>x. as_float (index claims ''exp'') = Some x \<longrightarrow> now < time_Add (unixTime (f64_to_int64 x)) (wrap64 (- cfLeeway (rqConfig r))))"

text \<open>The key of the cache of a token in a request.\<close>

definition requestKey :: "'z jwt_request \<Rightarrow> string \<Rightarrow> string" where
  "requestKey r token =
     buildTokenCacheKey (rqLib r)
       (tokenConfigFingerprint (rqLib r) (rqApiId r) (rqApiName r) (index (rqParams r) ''keyManagers'') (cfValidateIssuer (rqConfig r))
          (cfIssuers (rqConfig r)) (cfLeeway (rqConfig r))) token"

definition requestToken :: "'z jwt_request \<Rightarrow> string" where
  "requestToken r =
     (case rqHeaders r (ToLower (cfHeaderName (rqConfig r))) of [] \<Rightarrow> '''' | h # _ \<Rightarrow> extractToken h (cfScheme (rqConfig r)))"

section \<open>Verification\<close>

lemma fetchJWKSWithRetry_store:
  "fetchJWKSWithRetry lib now f remote ttl n c = (c', out) \<Longrightarrow> map_of (jcStore c') uri = Some keys \<Longrightarrow>
     map_of (jcStore c) uri = Some keys \<or> (uri = rjURI remote \<and> served lib remote keys)"
  by (auto simp: fetchJWKSWithRetry_def update_conv split: if_splits option.splits outcome.splits dest: fetchLoop_served fetchJWKS_served)

lemma fetchJWKSWithRetry_keys:
  "fetchJWKSWithRetry lib now f remote ttl n c = (c', Ret keys) \<Longrightarrow> map_of (jcStore c) (rjURI remote) = Some keys \<or> served lib remote keys"
  by (auto simp: fetchJWKSWithRetry_def cachedJWKS_def split: if_splits option.splits outcome.splits dest: fetchLoop_served fetchJWKS_served)

lemma verifyWithJwks_key:
  assumes "verifyWithJwks lib env l token kid uri keys = Inr claims" and "envOk env"
  shows "\<exists>kid pub. (kid, pub) \<in> set keys \<and> parseToken lib env l token pub = Inr claims"
proof (cases "kid = ''''")
  case False
  with assms(1) obtain pub where "map_of keys kid = Some pub" "parseToken lib env l token pub = Inr claims"
    by (auto simp: verifyWithJwks_def split: option.splits sum.splits)
  then show ?thesis using map_of_SomeD by fast
next
  case True
  let ?f = "\<lambda>(_ :: string, key). case parseToken lib env l token key of Inr claims \<Rightarrow> Some claims | Inl _ \<Rightarrow> None"
  from True assms(1) have "claims \<in> set (List.map_filter ?f (teKeys env keys))"
    by (auto simp: verifyWithJwks_def split: list.splits)
  then obtain kid pub where "(kid, pub) \<in> set (teKeys env keys)" "?f (kid, pub) = Some claims"
    by (auto simp: map_filter_def)
  with assms(2) show ?thesis by (auto simp: envOk_def split: sum.splits)
qed

lemma tryKeyManagers_store:
  "tryKeyManagers lib env l ttl n token kid e kms c = (c', out) \<Longrightarrow> map_of (jcStore c') uri = Some keys \<Longrightarrow>
     map_of (jcStore c) uri = Some keys \<or> (\<exists>remote. uri = rjURI remote \<and> served (keylib.truncate lib) remote keys)"
proof (induction kms arbitrary: e c)
  case (Cons km kms)
  show ?case
  proof (cases "kmLocal km")
    case None
    show ?thesis
    proof (cases "kmRemote km")
      case (Some remote)
      obtain c1 r where f: "fetchJWKSWithRetry (keylib.truncate lib) (teJwks env) (teFetched env) remote ttl n c = (c1, r)" by fastforce
      from Cons.prems(1) None Some f have "c' = c1 \<or> (\<exists>e'. tryKeyManagers lib env l ttl n token kid e' kms c1 = (c', out))"
        by (auto split: outcome.splits sum.splits)
      with Cons.IH Cons.prems(2) fetchJWKSWithRetry_store[OF f] show ?thesis by blast
    qed (use None Cons in auto)
  qed (use Cons in \<open>auto split: sum.splits\<close>)
qed auto

lemma tryKeyManagers_sound:
  "tryKeyManagers lib env l ttl n token kid e kms c = (c', Inr (claims, km)) \<Longrightarrow> envOk env \<Longrightarrow>
     (\<And>uri keys. map_of (jcStore c) uri = Some keys \<Longrightarrow> Q uri keys) \<Longrightarrow>
     (\<And>remote keys. served (keylib.truncate lib) remote keys \<Longrightarrow> Q (rjURI remote) keys) \<Longrightarrow>
     km \<in> set kms \<and> (\<exists>pub. parseToken lib env l token pub = Inr claims \<and>
       (case kmLocal km of Some key \<Rightarrow> pub = key
        | None \<Rightarrow> \<exists>remote keys kid. kmRemote km = Some remote \<and> Q (rjURI remote) keys \<and> (kid, pub) \<in> set keys))"
proof (induction kms arbitrary: e c)
  case (Cons k kms)
  show ?case
  proof (cases "kmLocal k")
    case None
    show ?thesis
    proof (cases "kmRemote k")
      case (Some remote)
      obtain c1 r where f: "fetchJWKSWithRetry (keylib.truncate lib) (teJwks env) (teFetched env) remote ttl n c = (c1, r)" by fastforce
      have Q1: "\<And>uri keys. map_of (jcStore c1) uri = Some keys \<Longrightarrow> Q uri keys"
        using fetchJWKSWithRetry_store[OF f] Cons.prems(3,4) by blast
      from Cons.prems(1) None Some f consider
          keys where "r = Ret keys" "verifyWithJwks lib env l token kid (rjURI remote) keys = Inr claims" "km = k"
        | e' where "tryKeyManagers lib env l ttl n token kid e' kms c1 = (c', Inr (claims, km))"
        by (auto split: outcome.splits sum.splits)
      then show ?thesis
      proof cases
        case 1
        have "Q (rjURI remote) keys" using fetchJWKSWithRetry_keys[OF f[unfolded 1(1)]] Cons.prems(3,4) by blast
        moreover obtain kid pub where "(kid, pub) \<in> set keys" "parseToken lib env l token pub = Inr claims"
          using verifyWithJwks_key[OF 1(2) Cons.prems(2)] by blast
        ultimately show ?thesis using None Some 1(3) by auto
      next
        case 2
        from Cons.IH[OF 2 Cons.prems(2) Q1 Cons.prems(4)] show ?thesis by simp
      qed
    next
      case no: None
      with None Cons.prems(1) have "tryKeyManagers lib env l ttl n token kid e kms c = (c', Inr (claims, km))" by simp
      from Cons.IH[OF this Cons.prems(2,3,4)] show ?thesis by simp
    qed
  next
    case (Some key)
    with Cons.prems(1) consider "parseToken lib env l token key = Inr claims" "km = k"
      | e' where "tryKeyManagers lib env l ttl n token kid e' kms c = (c', Inr (claims, km))"
      by (auto split: sum.splits)
    then show ?thesis
    proof cases
      case 2
      from Cons.IH[OF 2 Cons.prems(2,3,4)] show ?thesis by simp
    qed (use Some in auto)
  qed
qed simp

lemma addCandidate_set: "set (foldl addCandidate acc kms) \<subseteq> set acc \<union> set kms"
proof (induction kms arbitrary: acc)
  case (Cons k kms)
  have "set (addCandidate acc k) \<subseteq> insert k (set acc)" by (auto simp: addCandidate_def)
  then show ?case using Cons.IH[of "addCandidate acc k"] by auto
qed simp

lemma candidatesFor_set:
  assumes "\<And>xs. set (iter xs) = set xs" "\<And>n km. map_of kms n = Some km \<Longrightarrow> kmName km = n"
    "km \<in> set (candidatesFor iter kms issuer acc u)" "km \<notin> set acc"
  shows "km \<in> snd ` set kms \<and> (kmName km = u \<and> kmIssuer km \<in> {'''', issuer} \<or> issuer = u \<and> kmIssuer km = issuer)"
proof -
  let ?acc = "case map_of kms u of Some km \<Rightarrow> if kmIssuer km = '''' \<or> kmIssuer km = issuer then addCandidate acc km else acc | None \<Rightarrow> acc"
  have acc: "km \<in> snd ` set kms \<and> kmName km = u \<and> kmIssuer km \<in> {'''', issuer}" if "km \<in> set ?acc"
    using that assms(2,4) by (force split: option.splits if_splits simp: addCandidate_def dest: map_of_SomeD)
  from assms(3) consider "km \<in> set ?acc" | "issuer = u" "km \<in> set (filter (\<lambda>km. kmIssuer km = u) (iter (map snd kms)))"
    using addCandidate_set unfolding candidatesFor_def Let_def by (fastforce split: if_splits)
  then show ?thesis using acc assms(1) by cases auto
qed

lemma candidates_set:
  assumes "\<And>xs. set (iter xs) = set xs" "\<And>n km. map_of kms n = Some km \<Longrightarrow> kmName km = n"
    "km \<in> set (foldl (candidatesFor iter kms issuer) acc us)"
  shows "km \<in> set acc \<or> km \<in> snd ` set kms \<and> (kmName km \<in> set us \<and> kmIssuer km \<in> {'''', issuer} \<or> issuer \<in> set us \<and> kmIssuer km = issuer)"
  using assms(3)
proof (induction us arbitrary: acc)
  case (Cons u us)
  from Cons.IH[of "candidatesFor iter kms issuer acc u"] Cons.prems have "km \<in> set (candidatesFor iter kms issuer acc u) \<or>
      km \<in> snd ` set kms \<and> (kmName km \<in> set us \<and> kmIssuer km \<in> {'''', issuer} \<or> issuer \<in> set us \<and> kmIssuer km = issuer)" by simp
  then show ?case
  proof
    assume "km \<in> set (candidatesFor iter kms issuer acc u)"
    then show ?case using candidatesFor_set[of iter kms km issuer acc u, OF assms(1,2)] by auto
  qed auto
qed simp

lemma applicable_speaks:
  assumes "applicableKeyManagers iter kms (cfIssuers cf) (cfValidateIssuer cf) issuer = Inr cs" "km \<in> set cs"
    "\<And>xs. set (iter xs) = set xs" "\<And>n km. map_of kms n = Some km \<Longrightarrow> kmName km = n"
  shows "km \<in> snd ` set kms \<and> speaksFor cf km issuer"
proof (cases "cfIssuers cf = []")
  case False
  with assms(1) have "cs = foldl (candidatesFor iter kms issuer) [] (cfIssuers cf)"
    by (auto simp: applicableKeyManagers_def Let_def split: if_splits)
  with candidates_set[of iter kms km issuer "[]" "cfIssuers cf", OF assms(3,4)] assms(2) False show ?thesis by (simp add: speaksFor_def)
next
  case True
  with assms(1,2) consider "issuer \<noteq> ''''" "find (\<lambda>km. kmIssuer km = issuer) (iter (map snd kms)) = Some km"
    | "km \<in> set (iter (map snd kms))" "kmIssuer km = ''''" "issuer \<noteq> ''''"
    | "km \<in> set (iter (map snd kms))" "\<not> cfValidateIssuer cf"
    by (auto simp: applicableKeyManagers_def Let_def split: if_splits option.splits)
  then show ?thesis
  proof cases
    case 1
    then have "km \<in> set (iter (map snd kms))" "kmIssuer km = issuer" by (auto simp: find_Some_iff)
    with 1 True assms(3) show ?thesis by (auto simp: speaksFor_def)
  qed (use True assms(3) in \<open>auto simp: speaksFor_def\<close>)
qed

lemma parseKeyManagers_name: "map_of (parseKeyManagers lib raw) n = Some km \<Longrightarrow> kmName km = n"
proof -
  have "map_of (foldl (\<lambda>m item. case parseKeyManager lib item of Some km \<Rightarrow> AList.update (kmName km) km m | None \<Rightarrow> m) acc items) n = Some km \<Longrightarrow>
      (\<And>km. map_of acc n = Some km \<Longrightarrow> kmName km = n) \<Longrightarrow> kmName km = n" for acc items
  proof (induction items arbitrary: acc)
    case (Cons i items)
    show ?case by (rule Cons.IH[OF Cons.prems(1)[simplified]]) (auto simp: update_conv split: option.splits if_splits dest: Cons.prems(2))
  qed simp
  then show "map_of (parseKeyManagers lib raw) n = Some km \<Longrightarrow> kmName km = n" unfolding parseKeyManagers_def by fastforce
qed

lemma servedIn_mono: "servedIn rs uri keys \<Longrightarrow> servedIn (r # rs) uri keys"
  by (auto simp: servedIn_def)

lemma keyOf_mono: "keyOf rs km pub \<Longrightarrow> keyOf (r # rs) km pub"
  by (auto simp: keyOf_def split: option.splits dest: servedIn_mono[where r = r])

lemma verifiedIn_mono: "verifiedIn rs q token claims scopes \<Longrightarrow> verifiedIn (r # rs) q token claims scopes"
  unfolding verifiedIn_def using keyOf_mono[where r = r] by blast

text \<open>The key sets of the cache came from their endpoints.\<close>

definition jwksOk :: "'z jwt_request list \<Rightarrow> jwks_cache \<Rightarrow> bool" where
  "jwksOk rs c \<longleftrightarrow> (\<forall>uri keys. map_of (jcStore c) uri = Some keys \<longrightarrow> servedIn rs uri keys)"

lemma validateToken_jwksOk:
  assumes "validateToken (rqLib r) env cf kms token u c = (c', out)" "jwksOk rs c"
  shows "jwksOk (r # rs) c'"
  unfolding jwksOk_def
proof (intro allI impI)
  fix uri keys
  assume "map_of (jcStore c') uri = Some keys"
  with assms have "map_of (jcStore c) uri = Some keys \<or> (\<exists>remote. uri = rjURI remote \<and> served (keylib.truncate (rqLib r)) remote keys)"
    by (auto simp: validateToken_def split: option.splits sum.splits dest: tryKeyManagers_store)
  then show "servedIn (r # rs) uri keys" using assms(2) by (auto simp: jwksOk_def servedIn_def)
qed

lemma validateToken_sound:
  assumes "validateToken (rqLib r) (rqEnv r) (rqConfig r) (parseKeyManagers (rqLib r) (index (rqParams r) ''keyManagers'')) token u c = (c', Inr (claims, km))"
    "jlUnverified (rqLib r) token = Some u" "envOk (rqEnv r)" "libOk (rqLib r)" "jwksOk rs c"
  shows "verifiedIn (r # rs) r token claims (resolveScopes claims (kmScopeClaim km) (kmSeparator km))"
proof -
  let ?kms = "parseKeyManagers (rqLib r) (index (rqParams r) ''keyManagers'')"
  from assms(1) obtain cs where time: "timeCheck (teCheck (rqEnv r)) (cfLeeway (rqConfig r)) (jtClaims u) = None"
    and cs: "applicableKeyManagers (teManagers (rqEnv r)) ?kms (cfIssuers (rqConfig r)) (cfValidateIssuer (rqConfig r)) (getString (index (jtClaims u) ''iss'')) = Inr cs"
    and tried: "tryKeyManagers (rqLib r) (rqEnv r) (cfLeeway (rqConfig r)) (cfJwksTtl (rqConfig r)) (cfRetries (rqConfig r)) token
      (getString (index (jtHeader u) ''kid'')) None cs c = (c', Inr (claims, km))"
    by (auto simp: validateToken_def split: option.splits sum.splits)
  have "\<And>uri keys. map_of (jcStore c) uri = Some keys \<Longrightarrow> servedIn (r # rs) uri keys"
    "\<And>remote keys. served (keylib.truncate (rqLib r)) remote keys \<Longrightarrow> servedIn (r # rs) (rjURI remote) keys"
    using assms(5) servedIn_mono unfolding jwksOk_def servedIn_def by (blast, auto)
  from tryKeyManagers_sound[OF tried assms(3), of "servedIn (r # rs)", OF this] obtain pub where
    km: "km \<in> set cs" and parse: "parseToken (rqLib r) (rqEnv r) (cfLeeway (rqConfig r)) token pub = Inr claims" and key: "keyOf (r # rs) km pub"
    unfolding keyOf_def by blast
  from parse assms(2,4) have claims: "jtClaims u = claims" unfolding parseToken_def libOk_def by fastforce
  have iter: "\<And>xs. set (teManagers (rqEnv r) xs) = set xs" using assms(3) by (simp add: envOk_def)
  have speaks: "km \<in> snd ` set ?kms \<and> speaksFor (rqConfig r) km (getString (index claims ''iss''))"
    by (rule applicable_speaks[OF cs[unfolded claims] km iter parseKeyManagers_name])
  show ?thesis
    unfolding verifiedIn_def
    by (intro conjI exI[of _ km] exI[of _ pub])
      (use time[unfolded claims] speaks key parse[unfolded parseToken_def] in simp_all)
qed

section \<open>The invariant of the cache\<close>

definition vouched :: "'z jwt_request list \<Rightarrow> string \<Rightarrow> cachedVerdict \<Rightarrow> bool" where
  "vouched rs k v \<longleftrightarrow> (\<exists>q \<in> set rs. \<exists>token. requestKey q token = k \<and> verifiedIn rs q token (vdClaims v) (vdScopes v) \<and>
     vdExpiresAt v = verdictExpiry (rqConfig q) (tePut (rqEnv q)) (vdClaims v))"

abbreviation cacheOk :: "('c \<Rightarrow> string \<Rightarrow> cachedVerdict \<Rightarrow> bool) \<Rightarrow> 'z jwt_request list \<Rightarrow> 'c \<Rightarrow> bool" where
  "cacheOk holds rs \<equiv> cacheAll holds (\<lambda>k v. vdOk v \<longrightarrow> vouched rs k v)"

lemma vouched_mono: "vouched rs k v \<Longrightarrow> vouched (r # rs) k v"
  unfolding vouched_def using verifiedIn_mono[where r = r] by fastforce

lemma cacheOk_mono: "cacheOk holds rs c \<Longrightarrow> cacheOk holds (r # rs) c"
  by (erule cacheAll_mono) (blast intro: vouched_mono)

lemma jwksOk_mono: "jwksOk rs c \<Longrightarrow> jwksOk (r # rs) c"
  unfolding jwksOk_def using servedIn_mono by blast

lemma getCachedVerdict_ok:
  assumes "cacheLaws ops holds" "cacheOk holds rs c" "getCachedVerdict ops now k c = (c', hit)"
  shows "cacheOk holds rs c'" and "hit = Some v \<Longrightarrow> vdOk v \<Longrightarrow> vouched rs k v \<and> now < vdExpiresAt v"
proof -
  obtain c1 r where g: "coGet ops k c = (c1, r)" by fastforce
  note get = cacheAll_get[OF assms(1,2) g]
  have "c' = c1 \<or> c' = coDelete ops k c1" using assms(3) g by (auto simp: getCachedVerdict_def split: option.splits if_splits)
  then show "cacheOk holds rs c'" using get(1) cacheAll_delete[OF assms(1) get(1)] by blast
  show "hit = Some v \<Longrightarrow> vdOk v \<Longrightarrow> vouched rs k v \<and> now < vdExpiresAt v"
    using assms(3) g get(2) by (auto simp: getCachedVerdict_def split: option.splits if_splits)
qed

lemma putVerdict_ok:
  assumes "cacheLaws ops holds" "cacheOk holds rs c" "vdOk v \<Longrightarrow> vouched rs k v"
  shows "cacheOk holds rs (putVerdict ops k v c)"
  unfolding putVerdict_def using assms by (intro cacheAll_set) auto

lemma verifyToken_ok:
  assumes laws: "cacheLaws ops holds" and inv: "jwksOk rs (jsJwks s)" "cacheOk holds rs (jsCache s)"
    and lib: "envOk (rqEnv r)" "libOk (rqLib r)"
    and run: "verifyToken ops (rqLib r) (rqEnv r) (rqConfig r) (index (rqParams r) ''keyManagers'') (requestKey r token) token s = (s', out)"
  shows "jwksOk (r # rs) (jsJwks s') \<and> cacheOk holds (r # rs) (jsCache s')"
    and "out = Some (claims, scopes) \<Longrightarrow> verifiedIn (r # rs) r token claims scopes"
proof -
  let ?kms = "parseKeyManagers (rqLib r) (index (rqParams r) ''keyManagers'')"
  note inv' = jwksOk_mono[OF inv(1), of r] cacheOk_mono[OF inv(2), of r]
  have negative: "cacheOk holds (r # rs) (putVerdict ops k (negativeVerdict cf now reason) (jsCache s))" for k cf now reason
    by (rule putVerdict_ok[OF laws inv'(2)]) (simp add: negativeVerdict_def)
  have "(jwksOk (r # rs) (jsJwks s') \<and> cacheOk holds (r # rs) (jsCache s')) \<and> (out = Some (claims, scopes) \<longrightarrow> verifiedIn (r # rs) r token claims scopes)"
  proof (cases "?kms = [] \<or> jlUnverified (rqLib r) token = None")
    case True
    with run inv' negative show ?thesis by (auto simp: verifyToken_def Let_def split: if_splits)
  next
    case False
    then obtain u where u: "?kms \<noteq> []" "jlUnverified (rqLib r) token = Some u" by blast
    obtain c1 res where v: "validateToken (rqLib r) (rqEnv r) (rqConfig r) ?kms token u (jsJwks s) = (c1, res)" by fastforce
    note jwks = validateToken_jwksOk[OF v inv(1)]
    show ?thesis
    proof (cases res)
      case (Inl err)
      with run u v jwks inv' negative show ?thesis by (auto simp: verifyToken_def Let_def split: if_splits)
    next
      case (Inr ok)
      obtain cl km where ok: "ok = (cl, km)" by fastforce
      let ?sc = "resolveScopes cl (kmScopeClaim km) (kmSeparator km)"
      have sound: "verifiedIn (r # rs) r token cl ?sc"
        by (rule validateToken_sound[OF v[unfolded Inr ok] u(2) lib inv(1)])
      have "cacheOk holds (r # rs) (putVerdict ops (requestKey r token)
          \<lparr>vdOk = True, vdClaims = cl, vdScopes = ?sc, vdReason = '''', vdExpiresAt = verdictExpiry (rqConfig r) (tePut (rqEnv r)) cl\<rparr> (jsCache s))"
        by (rule putVerdict_ok[OF laws inv'(2)]) (use sound in \<open>auto simp: vouched_def\<close>)
      with run u v Inr ok jwks inv' sound show ?thesis by (auto simp: verifyToken_def Let_def split: if_splits)
    qed
  qed
  then show "jwksOk (r # rs) (jsJwks s') \<and> cacheOk holds (r # rs) (jsCache s')"
    and "out = Some (claims, scopes) \<Longrightarrow> verifiedIn (r # rs) r token claims scopes" by blast+
qed

lemma verdictExpiry_fresh: "now < verdictExpiry (rqConfig q) (tePut (rqEnv q)) claims \<Longrightarrow> freshAt now q claims"
  by (auto simp: verdictExpiry_def freshAt_def Let_def split: option.splits if_splits)

section \<open>The hook\<close>

text \<open>What the request itself asks of the claims.\<close>

definition meetsConstraints :: "'z jwt_request \<Rightarrow> params \<Rightarrow> string list \<Rightarrow> bool" where
  "meetsConstraints r claims scopes \<longleftrightarrow>
     (cfAudiences (rqConfig r) \<noteq> [] \<longrightarrow> set (cfAudiences (rqConfig r)) \<inter> set (parseAudience (index claims ''aud'')) \<noteq> {}) \<and>
     (\<exists>sc cc. resolveScopeConstraints (rqParams r) = Ret sc \<and> resolveClaimConstraints (rqParams r) = Ret cc \<and>
       set (scAllOf sc) \<subseteq> set scopes \<and> (scAnyOf sc \<noteq> [] \<longrightarrow> set (scAnyOf sc) \<inter> set scopes \<noteq> {}) \<and>
       (\<forall>m \<in> set (ccAllOf cc). jwt_claimMatcherMatches (jlMarshal (rqLib r)) m claims) \<and>
       (ccAnyOf cc \<noteq> [] \<longrightarrow> (\<exists>m \<in> set (ccAnyOf cc). jwt_claimMatcherMatches (jlMarshal (rqLib r)) m claims)))"

lemma buildScopesMap_has [simp]: "map_of (buildScopesMap scopes) s = Some True \<longleftrightarrow> s \<in> set scopes"
proof -
  have "map_of (foldl (\<lambda>m s. AList.update s True m) acc scopes) s = (if s \<in> set scopes then Some True else map_of acc s)" for acc
    by (induction scopes arbitrary: acc) (auto simp: update_conv)
  then show ?thesis by (simp add: buildScopesMap_def)
qed

lemma evaluateScopeConstraints_iff:
  "evaluateScopeConstraints sc (buildScopesMap scopes) \<longleftrightarrow> set (scAllOf sc) \<subseteq> set scopes \<and> (scAnyOf sc \<noteq> [] \<longrightarrow> set (scAnyOf sc) \<inter> set scopes \<noteq> {})"
  unfolding evaluateScopeConstraints_def Let_def by (auto simp: list_all_iff list_ex_iff)

lemma evaluateClaimConstraints_iff:
  "evaluateClaimConstraints marshal cc claims \<longleftrightarrow> (\<forall>m \<in> set (ccAllOf cc). jwt_claimMatcherMatches marshal m claims) \<and>
     (ccAnyOf cc \<noteq> [] \<longrightarrow> (\<exists>m \<in> set (ccAnyOf cc). jwt_claimMatcherMatches marshal m claims))"
  by (auto simp: evaluateClaimConstraints_def list_all_iff list_ex_iff)

lemma finishAuthentication_passes:
  assumes "finishAuthentication marshal (rqConfig r) sc cc h token claims scopes auth = (auth', Modify u)" "marshal = jlMarshal (rqLib r)"
    "resolveScopeConstraints (rqParams r) = Ret sc" "resolveClaimConstraints (rqParams r) = Ret cc"
  shows "meetsConstraints r claims scopes \<and> auth' = identityOf (jlMarshal (rqLib r)) (cfUserIdClaim (rqConfig r)) claims scopes # auth"
proof -
  from assms(1,2) have a: "audienceOk (cfAudiences (rqConfig r)) claims"
    and sc: "\<not> scopes_isEmpty sc \<Longrightarrow> evaluateScopeConstraints sc (buildScopesMap scopes)"
    and cc: "\<not> claims_isEmpty cc \<Longrightarrow> evaluateClaimConstraints (jlMarshal (rqLib r)) cc claims"
    and out: "auth' = identityOf (jlMarshal (rqLib r)) (cfUserIdClaim (rqConfig r)) claims scopes # auth"
    by (auto simp: finishAuthentication_def handleAuthFailureHeaders_def handleAuthSuccessHeaders_def Let_def split: if_splits)
  from a have "cfAudiences (rqConfig r) \<noteq> [] \<longrightarrow> set (cfAudiences (rqConfig r)) \<inter> set (parseAudience (index claims ''aud'')) \<noteq> {}"
    by (auto simp: audienceOk_def list_ex_iff)
  moreover have "evaluateScopeConstraints sc (buildScopesMap scopes)"
    using sc by (cases "scopes_isEmpty sc") (auto simp: scopes_isEmpty_def evaluateScopeConstraints_iff)
  moreover have "evaluateClaimConstraints (jlMarshal (rqLib r)) cc claims"
    using cc by (cases "claims_isEmpty cc") (auto simp: claims_isEmpty_def evaluateClaimConstraints_iff)
  ultimately show ?thesis
    using out assms(3,4) unfolding meetsConstraints_def evaluateScopeConstraints_iff evaluateClaimConstraints_iff by blast
qed

lemma failure_replies: "handleAuthFailureHeaders marshal cf auth = (auth', act) \<Longrightarrow> \<exists>i. act = Reply i"
  by (auto simp: handleAuthFailureHeaders_def)

text \<open>A request is refused outright or reaches the boundary of the cache.\<close>

lemma serve_cases:
  assumes "serve ops r s = (s', auth', act)"
  obtains (refused) "s' = s" "\<exists>i. act = Reply i"
  | (checked) sc cc h where
      "resolveScopeConstraints (rqParams r) = Ret sc" "resolveClaimConstraints (rqParams r) = Ret cc"
      "authenticate ops (rqLib r) (rqEnv r) (rqConfig r) (index (rqParams r) ''keyManagers'') sc cc (requestKey r (requestToken r)) h (requestToken r) (rqAuth r) s
         = (s', auth', act)"
proof (cases "map_of (rqParams r) ''keyManagers''")
  case None
  with assms refused failure_replies show thesis by (fastforce simp: serve_def jwt_OnRequestHeaders_def Let_def)
next
  case (Some kmRaw)
  then have raw: "index (rqParams r) ''keyManagers'' = kmRaw" by (simp add: index_def)
  show thesis
  proof (cases "\<exists>sc cc. resolveScopeConstraints (rqParams r) = Ret sc \<and> resolveClaimConstraints (rqParams r) = Ret cc \<and> requestToken r \<noteq> ''''")
    case False
    with assms Some have "(s, handleAuthFailureHeaders (jlMarshal (rqLib r)) (rqConfig r) (rqAuth r)) = (s', auth', act)"
      by (auto simp: serve_def jwt_OnRequestHeaders_def requestToken_def Let_def split: outcome.splits list.splits)
    with refused failure_replies show thesis by (metis prod.inject)
  next
    case True
    then obtain sc cc where c: "resolveScopeConstraints (rqParams r) = Ret sc" "resolveClaimConstraints (rqParams r) = Ret cc"
      and t: "requestToken r \<noteq> ''''" by blast
    then obtain h hs where h: "rqHeaders r (ToLower (cfHeaderName (rqConfig r))) = h # hs" "extractToken h (cfScheme (rqConfig r)) = requestToken r"
      by (auto simp: requestToken_def split: list.splits)
    from assms Some c t h show thesis
      by (intro checked[OF c, of h]) (simp add: serve_def jwt_OnRequestHeaders_def Let_def raw requestKey_def)
  qed
qed

text \<open>The invariant is kept; a request that passes rests on a verification, its own or one in the cache.\<close>

definition grounded :: "'z jwt_request list \<Rightarrow> 'z jwt_request \<Rightarrow> params \<Rightarrow> string list \<Rightarrow> bool" where
  "grounded rs r claims scopes \<longleftrightarrow>
     verifiedIn (r # rs) r (requestToken r) claims scopes \<or>
     (\<exists>q \<in> set rs. \<exists>token. requestKey q token = requestKey r (requestToken r) \<and> verifiedIn rs q token claims scopes \<and> freshAt (teGet (rqEnv r)) q claims)"

lemma serve_ok:
  assumes laws: "cacheLaws ops holds" and inv: "jwksOk rs (jsJwks s)" "cacheOk holds rs (jsCache s)"
    and lib: "envOk (rqEnv r)" "libOk (rqLib r)" and run: "serve ops r s = (s', auth', act)"
  shows "jwksOk (r # rs) (jsJwks s') \<and> cacheOk holds (r # rs) (jsCache s') \<and>
    (\<forall>u. act = Modify u \<longrightarrow> (\<exists>claims scopes. grounded rs r claims scopes \<and> meetsConstraints r claims scopes \<and>
       auth' = identityOf (jlMarshal (rqLib r)) (cfUserIdClaim (rqConfig r)) claims scopes # rqAuth r))"
  using run
proof (cases rule: serve_cases)
  case refused
  with inv show ?thesis using jwksOk_mono cacheOk_mono by fastforce
next
  case (checked sc cc h)
  let ?key = "requestKey r (requestToken r)"
  obtain cache hit where g: "(if cfCaching (rqConfig r) then getCachedVerdict ops (teGet (rqEnv r)) ?key (jsCache s) else (jsCache s, None)) = (cache, hit)" by fastforce
  have cache: "cacheOk holds rs cache" using g getCachedVerdict_ok(1)[OF laws inv(2)] inv(2) by (auto split: if_splits)
  note passes = finishAuthentication_passes[OF _ refl checked(1,2)]
  show ?thesis
  proof (cases hit)
    case None
    obtain s1 out where v: "verifyToken ops (rqLib r) (rqEnv r) (rqConfig r) (index (rqParams r) ''keyManagers'') ?key (requestToken r) (s\<lparr>jsCache := cache\<rparr>) = (s1, out)"
      by fastforce
    note ok = verifyToken_ok[OF laws _ _ lib v, of rs, simplified, OF inv(1) cache]
    from checked(3) g None v have s1: "s' = s1"
      by (auto simp: authenticate_def Let_def split: option.splits prod.splits)
    have "\<exists>claims scopes. grounded rs r claims scopes \<and> meetsConstraints r claims scopes \<and>
       auth' = identityOf (jlMarshal (rqLib r)) (cfUserIdClaim (rqConfig r)) claims scopes # rqAuth r" if m: "act = Modify u" for u
    proof -
      from checked(3) g None v m obtain claims scopes where o: "out = Some (claims, scopes)"
        and f: "finishAuthentication (jlMarshal (rqLib r)) (rqConfig r) sc cc h (requestToken r) claims scopes (rqAuth r) = (auth', Modify u)"
        by (auto simp: authenticate_def Let_def split: option.splits dest: failure_replies)
      from ok(2)[OF o] passes[OF f] show ?thesis by (auto simp: grounded_def)
    qed
    with ok(1) s1 show ?thesis by blast
  next
    case (Some v)
    from checked(3) g Some have s': "s' = s\<lparr>jsCache := cache\<rparr>" by (auto simp: authenticate_def Let_def)
    have "\<exists>claims scopes. grounded rs r claims scopes \<and> meetsConstraints r claims scopes \<and>
       auth' = identityOf (jlMarshal (rqLib r)) (cfUserIdClaim (rqConfig r)) claims scopes # rqAuth r" if m: "act = Modify u" for u
    proof -
      from checked(3) g Some m have ok: "vdOk v"
        and f: "finishAuthentication (jlMarshal (rqLib r)) (rqConfig r) sc cc h (requestToken r) (vdClaims v) (vdScopes v) (rqAuth r) = (auth', Modify u)"
        by (auto simp: authenticate_def Let_def split: if_splits dest: failure_replies)
      from g Some have "getCachedVerdict ops (teGet (rqEnv r)) ?key (jsCache s) = (cache, Some v)" by (auto split: if_splits)
      from getCachedVerdict_ok(2)[OF laws inv(2) this refl ok] have "vouched rs ?key v" "teGet (rqEnv r) < vdExpiresAt v" by auto
      then have "grounded rs r (vdClaims v) (vdScopes v)" unfolding grounded_def vouched_def using verdictExpiry_fresh by fastforce
      with passes[OF f] show ?thesis by blast
    qed
    with s' inv(1) cache show ?thesis using jwksOk_mono cacheOk_mono by fastforce
  qed
qed

section \<open>Properties\<close>

lemma run_inv:
  assumes "cacheLaws ops holds" "jwt_run ops rs s" "\<forall>q \<in> set rs. envOk (rqEnv q) \<and> libOk (rqLib q)"
  shows "jwksOk rs (jsJwks s) \<and> cacheOk holds rs (jsCache s)"
  using assms(2,3)
proof (induction rule: jwt_run.induct)
  case start
  show ?case by (simp add: jwt_ins_def jwksOk_def cacheAll_new[OF assms(1)])
next
  case (deploy rs s m)
  then show ?case by (auto simp: jwt_GetPolicy_def ensureTokenCache_def Let_def cacheAll_new[OF assms(1)])
next
  case (request rs s r)
  obtain s' auth' act where "serve ops r s = (s', auth', act)" by (cases "serve ops r s") auto
  with serve_ok[OF assms(1), of rs s r] request show ?case by auto
qed

text \<open>C9: After any deployments and requests of \<^verbatim>\<open>jwt-auth\<close>, a request passes only if its token was verified: now, or by
  an earlier request with the same cache key whose verdict is younger than its time to live and not past the expiry
  of the token less the leeway. Verified means that the time claims held, and that the parser took the claims under
  the allowlist of algorithms with a key of a configured key manager that may speak for the issuer: its local
  certificate, or a key that its endpoint served. The audiences, scopes and claims that this request asks for are
  met, and the identity it publishes is that of these claims. The cache of the SDK may evict but returns only what
  was set.\<close>

theorem jwt_auth_sound:
  assumes "cacheLaws ops holds" "jwt_run ops rs s" "\<forall>q \<in> set (r # rs). envOk (rqEnv q) \<and> libOk (rqLib q)"
    "serve ops r s = (s', auth', Modify u)"
  shows "\<exists>claims scopes. grounded rs r claims scopes \<and> meetsConstraints r claims scopes \<and>
    auth' = identityOf (jlMarshal (rqLib r)) (cfUserIdClaim (rqConfig r)) claims scopes # rqAuth r"
proof -
  have "jwksOk rs (jsJwks s)" "cacheOk holds rs (jsCache s)" using run_inv[OF assms(1,2)] assms(3) by auto
  moreover have "envOk (rqEnv r)" "libOk (rqLib r)" using assms(3) by auto
  ultimately show ?thesis using serve_ok[OF assms(1) _ _ _ _ assms(4), of rs] by blast
qed

definition sampleClaims :: params where
  "sampleClaims = [(''iss'', AStr ''i''), (''sub'', AStr ''alice''), (''scope'', AStr ''read'')]"

definition sampleLib :: jwtlib where
  "sampleLib = \<lparr>klOnCurve = (\<lambda>_ _. False), klGet = (\<lambda>_ _. Inl ''''), klKeySet = (\<lambda>_. Inl ''''), klReadFile = (\<lambda>_. Inl ''''), klCertPool = (\<lambda>_. False),
     klPem = Some, klCertificate = (\<lambda>_. Some (Supported (RSAKey 5 3))), klPKIX = (\<lambda>_. Inl ''''),
     jlUnverified = (\<lambda>t. if t = ''t'' then Some \<lparr>jtHeader = [], jtMethod = MethodRSA, jtClaims = sampleClaims\<rparr> else None),
     jlParse = (\<lambda>_ _ _ t kf. if t = ''t'' \<and> kf \<lparr>jtHeader = [], jtMethod = MethodRSA, jtClaims = sampleClaims\<rparr> = Some (RSAKey 5 3) then Inr sampleClaims else Inl ''''),
     jlMarshal = (\<lambda>_. Some ''''), jlPrint = (\<lambda>_. ''''), jlSha256 = (\<lambda>s. s), jlDurationString = (\<lambda>_. '''')\<rparr>"

definition sampleParams :: params where
  "sampleParams = [(''keyManagers'', AArr [AMap [(''name'', AStr ''k''), (''issuer'', AStr ''i''), (''jwks'', AMap [(''local'', AMap [(''inline'', AStr ''pem'')])])]])]"

definition sampleRequest :: "instant \<Rightarrow> unit jwt_request" where
  "sampleRequest now = \<lparr>rqLib = sampleLib,
     rqEnv = \<lparr>teGet = now, teCheck = now, teParse = now, teJwks = now, teFetched = now, teNegative = now, tePut = now, tePut2 = now,
       teManagers = (\<lambda>x. x), teKeys = (\<lambda>x. x)\<rparr>,
     rqParams = sampleParams,
     rqApiId = ''a'', rqApiName = ''n'', rqHeaders = (\<lambda>_. [''Bearer t'']), rqAuth = []\<rparr>"

definition sampleConfig :: jwt_config where
  "sampleConfig = \<lparr>cfHeaderName = ''Authorization'', cfScheme = ''Bearer'', cfStatus = 401, cfFormat = ''json'', cfMessage = ''Authentication failed'',
     cfLeeway = 30 * Second, cfJwksTtl = 5 * Minute, cfRetries = 3, cfValidateIssuer = True, cfCaching = True, cfTokenTtl = 5 * Minute, cfNegativeTtl = 30 * Second,
     cfIssuers = [], cfAudiences = [], cfClaimMappings = [], cfUserIdClaim = ''sub'', cfForwardToken = True,
     cfForwardedHeader = ''x-forwarded-authorization'', cfStripScheme = False\<rparr>"

lemma durations: "ParseDuration ''30s'' = Some (30 * Second)" "ParseDuration ''5m'' = Some (5 * Minute)"
proof -
  have "parseTerm ''30s'' = Some (30 * Second, [])" "parseTerm ''5m'' = Some (5 * Minute, [])"
    by (simp_all add: parseTerm_def is_digit_def digit_val_def unitMap_def Let_def Second_def Minute_def)
  then show "ParseDuration ''30s'' = Some (30 * Second)" "ParseDuration ''5m'' = Some (5 * Minute)"
    by (simp_all add: ParseDuration_def Let_def Second_def Minute_def)
qed

lemma sample_config: "jwtConfig sampleParams = sampleConfig"
  by (simp add: jwtConfig_def sampleParams_def durationParam_def getStringParam_def getIntParam_def getBoolParam_def getStringArrayParam_def
      getStringMapParam_def index_def durations sampleConfig_def)
lemma sample_token: "extractToken ''Bearer t'' ''Bearer'' = ''t''" by code_simp
lemma sample_canonical: "CanonicalHeaderKey ''x-forwarded-authorization'' = ''X-Forwarded-Authorization''" "CanonicalHeaderKey ''Authorization'' = ''Authorization''"
  by code_simp+

lemma sample_managers: "parseKeyManagers sampleLib (index sampleParams ''keyManagers'') =
    [(''k'', \<lparr>kmName = ''k'', kmIssuer = ''i'', kmRemote = None, kmLocal = Some (RSAKey 5 3), kmScopeClaim = '''', kmSeparator = ''''\<rparr>)]"
  by (simp add: parseKeyManagers_def parseKeyManager_def parseRemote_def parseLocal_def parsePublicKeyFromString_def index_def sampleParams_def
      sampleLib_def keylib.truncate_def getString_def Let_def)

text \<open>The second request is served from the cache.\<close>

lemma sample_served:
  "serve aListOps (sampleRequest 2) (fst (serve aListOps (sampleRequest 1) (jwt_ins aListOps))) =
     (fst (serve aListOps (sampleRequest 1) (jwt_ins aListOps)),
      [identityOf (jlMarshal sampleLib) ''sub'' sampleClaims [''read'']],
      Modify (noUpMods\<lparr>umSet := [(''X-Forwarded-Authorization'', ''Bearer t'')], umRemove := [''Authorization'']\<rparr>))"
proof -
  have sc: "resolveScopeConstraints sampleParams = Ret noScopes" "resolveClaimConstraints sampleParams = Ret noClaims"
    by (simp_all add: resolveScopeConstraints_def resolveClaimConstraints_def parseScopeConstraints_def parseClaimConstraints_def index_def
      sampleParams_def getStringArrayParam_def getStringMapParam_def andThen_Ret noScopes_def noClaims_def scopes_isEmpty_def claims_isEmpty_def)
  have read: "resolveScopes sampleClaims '''' '''' = [''read'']" by code_simp
  have fields: "rqLib (sampleRequest n) = sampleLib" "rqHeaders (sampleRequest n) = (\<lambda>_. [''Bearer t''])" "rqAuth (sampleRequest n) = []"
    "rqParams (sampleRequest n) = sampleParams" "rqApiId (sampleRequest n) = ''a''" "rqApiName (sampleRequest n) = ''n''"
    "teGet (rqEnv (sampleRequest n)) = n" "teCheck (rqEnv (sampleRequest n)) = n" "tePut (rqEnv (sampleRequest n)) = n" "tePut2 (rqEnv (sampleRequest n)) = n"
    "teManagers (rqEnv (sampleRequest n)) xs = xs" for n xs
    by (simp_all add: sampleRequest_def)
  obtain raw where raw: "map_of sampleParams ''keyManagers'' = Some raw" by (simp add: sampleParams_def)
  then have index: "index sampleParams ''keyManagers'' = raw" by (simp add: index_def)
  define key where "key = requestKey (sampleRequest 1) ''t''"
  have cf: "cfHeaderName sampleConfig = ''Authorization''" "cfScheme sampleConfig = ''Bearer''" "cfCaching sampleConfig" "cfIssuers sampleConfig = []"
    "cfValidateIssuer sampleConfig" "cfAudiences sampleConfig = []" "cfForwardToken sampleConfig" "\<not> cfStripScheme sampleConfig"
    "cfForwardedHeader sampleConfig = ''x-forwarded-authorization''" "cfClaimMappings sampleConfig = []" "cfUserIdClaim sampleConfig = ''sub''"
    "cfTokenTtl sampleConfig = 300000000000"
    by (simp_all add: sampleConfig_def Minute_def Second_def)
  have served: "serve aListOps (sampleRequest n) = authenticate aListOps sampleLib (rqEnv (sampleRequest n)) sampleConfig raw noScopes noClaims key ''Bearer t'' ''t'' []" for n
    by (rule ext) (simp add: serve_def jwt_OnRequestHeaders_def fields sample_config sc cf raw sample_token Let_def key_def requestKey_def index)
  let ?v = "\<lparr>vdOk = True, vdClaims = sampleClaims, vdScopes = [''read''], vdReason = '''', vdExpiresAt = 300000000001\<rparr>"
  have claims: "as_float (index sampleClaims ''exp'') = None" "as_float (index sampleClaims ''nbf'') = None" "getString (index sampleClaims ''iss'') = ''i''"
    by (simp_all add: sampleClaims_def index_def getString_def)
  have lib: "jlUnverified sampleLib ''t'' = Some \<lparr>jtHeader = [], jtMethod = MethodRSA, jtClaims = sampleClaims\<rparr>"
    "parseToken sampleLib env l ''t'' (RSAKey 5 3) = Inr sampleClaims" for env l
    by (simp_all add: sampleLib_def parseToken_def signatureKeyFunc_def)
  have finish: "finishAuthentication (jlMarshal sampleLib) sampleConfig noScopes noClaims ''Bearer t'' ''t'' sampleClaims [''read''] [] =
      ([identityOf (jlMarshal sampleLib) ''sub'' sampleClaims [''read'']],
       Modify (noUpMods\<lparr>umSet := [(''X-Forwarded-Authorization'', ''Bearer t'')], umRemove := [''Authorization'']\<rparr>))"
    by (simp add: finishAuthentication_def audienceOk_def cf scopes_isEmpty_def noScopes_def claims_isEmpty_def noClaims_def handleAuthSuccessHeaders_def
      forwardMods_def sample_canonical Let_def)
  have first: "fst (serve aListOps (sampleRequest 1) (jwt_ins aListOps)) = (jwt_ins aListOps)\<lparr>jsCache := [(key, ?v)]\<rparr>"
    unfolding served
    by (simp add: authenticate_def fields cf getCachedVerdict_def aListOps_def jwt_ins_def verifyToken_def sample_managers[unfolded index] lib
      validateToken_def timeCheck_def claims applicableKeyManagers_def verdictExpiry_def time_Add_def read putVerdict_def finish Let_def)
  show ?thesis
    unfolding first unfolding served
    by (simp add: authenticate_def fields cf getCachedVerdict_def aListOps_def finish Let_def)
qed

theorem jwt_auth_sound_witness:
  "\<exists>claims scopes. grounded [sampleRequest 1] (sampleRequest 2) claims scopes \<and> meetsConstraints (sampleRequest 2) claims scopes \<and>
     [identityOf (jlMarshal sampleLib) ''sub'' sampleClaims [''read'']] =
     identityOf (jlMarshal (rqLib (sampleRequest 2))) (cfUserIdClaim (rqConfig (sampleRequest 2))) claims scopes # rqAuth (sampleRequest 2)"
proof (rule jwt_auth_sound[OF _ _ _ sample_served, where holds = "\<lambda>c k v. map_of c k = Some v"])
  show "cacheLaws aListOps (\<lambda>c k v. map_of c k = Some v)" by (rule aListOps_laws)
  show "jwt_run aListOps [sampleRequest 1] (fst (serve aListOps (sampleRequest 1) (jwt_ins aListOps)))"
    by (intro jwt_run.intros)
  show "\<forall>q \<in> set [sampleRequest 2, sampleRequest 1]. envOk (rqEnv q) \<and> libOk (rqLib q)"
    by (auto simp: sampleRequest_def envOk_def libOk_def sampleLib_def)
qed

section \<open>Choices of the code\<close>

text \<open>With no issuers configured, only the first key manager of the issuer in the order of iteration is tried: of two
  with one issuer, the order decides on a token that only the second one signed.\<close>

lemma jwt_order_decides:
  assumes "kmIssuer a = iss" "kmIssuer b = iss" "iss \<noteq> ''''" "kmLocal a = Some ka" "kmLocal b = Some kb" "cfIssuers cf = []"
    "parseToken lib env (cfLeeway cf) token ka = Inl err" "parseToken lib env (cfLeeway cf) token kb = Inr claims"
    "teManagers env [a, b] \<in> {[a, b], [b, a]}" "timeCheck (teCheck env) (cfLeeway cf) (jtClaims u) = None" "getString (index (jtClaims u) ''iss'') = iss"
  shows "(\<exists>e. snd (validateToken lib env cf [(kmName a, a), (kmName b, b)] token u c) = Inl e) \<longleftrightarrow> teManagers env [a, b] = [a, b] \<and> a \<noteq> b"
  using assms by (auto simp: validateToken_def applicableKeyManagers_def Let_def)

text \<open>A key manager with a local certificate never asks its endpoint.\<close>

lemma jwt_local_shadows_remote:
  assumes "kmLocal km = Some key" "parseToken lib env l token key = Inl err"
  shows "tryKeyManagers lib env l ttl n token kid e [km] c = (c, Inl (Invalid (''signature verification failed with local certificate: '' @ err)))"
  using assms by simp

text \<open>Key sets are cached by URI alone: one fetched without verification of TLS serves a key manager that asks for it.\<close>

lemma jwks_cache_ignores_tls:
  assumes "fetchJWKSWithRetry lib now f a ttl n c = (c', Ret keys)" "map_of (jcStore c) (rjURI a) = None" "rjURI b = rjURI a"
    "0 \<le> n'" "now' < time_Add f ttl"
  shows "fetchJWKSWithRetry lib' now' f' b ttl' n' c' = (c', Ret keys)"
  using assms by (auto simp: fetchJWKSWithRetry_def cachedJWKS_def update_conv simp del: fetchLoop.simps split: if_splits option.splits outcome.splits)

text \<open>Different configurations may have one fingerprint.\<close>

lemma jwt_fingerprints_collide:
  "tokenConfigFingerprint lib a n raw v [x @ '','' @ y] l = tokenConfigFingerprint lib a n raw v [x, y] l"
  "tokenConfigFingerprint lib (a @ ''|'' @ b) n raw v is l = tokenConfigFingerprint lib a (b @ ''|'' @ n) raw v is l"
  by (simp_all add: tokenConfigFingerprint_def)

section \<open>Headers from claims\<close>

definition mappedFrom :: "(any \<Rightarrow> string option) \<Rightarrow> (string \<times> string) list \<Rightarrow> params \<Rightarrow> string \<Rightarrow> string \<Rightarrow> bool" where
  "mappedFrom marshal ms claims canonical v \<longleftrightarrow> v = '''' \<or>
     (\<exists>c h x. (c, h) \<in> set ms \<and> CanonicalHeaderKey h = canonical \<and> map_of claims c = Some x \<and> v = claimValueToString marshal x)"

definition mappedOk :: "(any \<Rightarrow> string option) \<Rightarrow> (string \<times> string) list \<Rightarrow> params \<Rightarrow> (string, string \<times> string) gomap \<Rightarrow> bool" where
  "mappedOk marshal ms claims acc \<longleftrightarrow> distinct (map fst acc) \<and>
     (\<forall>k n v. map_of acc k = Some (n, v) \<longrightarrow> CanonicalHeaderKey n = k \<and> mappedFrom marshal ms claims k v)"

lemma mapClaim_ok:
  assumes "mappedOk marshal ms claims acc" "m \<in> set ms"
  shows "mappedOk marshal ms claims (mapClaim marshal fwd out claims acc m)"
proof -
  have upd: "mappedOk marshal ms claims (AList.update k (n, v) acc)" if "CanonicalHeaderKey n = k" "mappedFrom marshal ms claims k v" for k n v
    using that assms(1) unfolding mappedOk_def by (auto simp: distinct_update update_conv)
  have old: "CanonicalHeaderKey n = k \<and> mappedFrom marshal ms claims k v" if "map_of acc k = Some (n, v)" for k n v
    using assms(1) that by (auto simp: mappedOk_def)
  have new: "mappedFrom marshal ms claims (CanonicalHeaderKey (snd m)) (claimValueToString marshal x)" if "map_of claims (fst m) = Some x" for x
    unfolding mappedFrom_def using that assms(2) by (cases m) auto
  have none: "mappedFrom marshal ms claims k ''''" for k by (simp add: mappedFrom_def)
  show ?thesis
    unfolding mapClaim_def Let_def
    using assms(1) by (auto intro!: upd new none split: option.splits prod.splits dest: old)
qed

lemma mapClaims_ok:
  assumes "set ms' \<subseteq> set ms" "mappedOk marshal ms claims acc"
  shows "mappedOk marshal ms claims (foldl (mapClaim marshal fwd out claims) acc ms')"
  using assms by (induction ms' arbitrary: acc) (auto simp: mapClaim_ok)

lemma mapClaim_dom:
  "dom (map_of (mapClaim marshal fwd out claims acc m)) =
     (if fwd \<and> CanonicalHeaderKey (snd m) = out then dom (map_of acc) else insert (CanonicalHeaderKey (snd m)) (dom (map_of acc)))"
  by (auto simp: mapClaim_def Let_def update_conv split: option.splits prod.splits if_splits)

lemma mapClaims_dom:
  "dom (map_of (foldl (mapClaim marshal fwd out claims) acc ms)) =
     dom (map_of acc) \<union> {k. k \<in> (CanonicalHeaderKey \<circ> snd) ` set ms \<and> \<not> (fwd \<and> k = out)}"
  by (induction ms arbitrary: acc) (auto simp: mapClaim_dom)

text \<open>The names are set one after the other.\<close>

lemma setHeaders_skip:
  "n \<notin> (fst \<circ> snd) ` set hs \<Longrightarrow> map_of (foldl (\<lambda>m h. AList.update (fst (snd h)) (snd (snd h)) m) acc hs) n = map_of acc n"
  by (induction hs arbitrary: acc) (auto simp: update_conv)

lemma setHeaders_get:
  "distinct (map (fst \<circ> snd) hs) \<Longrightarrow> (k, n, v) \<in> set hs \<Longrightarrow>
     map_of (foldl (\<lambda>m h. AList.update (fst (snd h)) (snd (snd h)) m) acc hs) n = Some v"
proof (induction hs arbitrary: acc)
  case (Cons h hs)
  show ?case
  proof (cases "h = (k, n, v)")
    case True
    with Cons.prems(1) show ?thesis by (auto simp: setHeaders_skip update_conv)
  qed (use Cons in auto)
qed simp

lemma mappedOk_names: "mappedOk marshal ms claims acc \<Longrightarrow> distinct (map (fst \<circ> snd) acc)"
proof -
  assume ok: "mappedOk marshal ms claims acc"
  have "CanonicalHeaderKey (fst (snd h)) = fst h" if "h \<in> set acc" for h
    using ok that by (cases h) (auto simp: mappedOk_def)
  then have "map CanonicalHeaderKey (map (fst \<circ> snd) acc) = map fst acc" by simp
  then have "distinct (map CanonicalHeaderKey (map (fst \<circ> snd) acc))" using ok unfolding mappedOk_def by metis
  then show ?thesis unfolding distinct_map[of CanonicalHeaderKey] by blast
qed



end
