(* ===== verification/OpaqueAuth.thy ===== *)
theory OpaqueAuth
  imports JwtRuns
begin

text \<open>
  \<^verbatim>\<open>policies/opaque-token-auth\<close>: tokens are introspected at the endpoints of providers, and the answers are cached. The
  helpers that are copies of those of \<^verbatim>\<open>jwt-auth\<close> are taken from its model. The endpoints, JSON, regular expressions,
  files, certificates and SHA-256 are the fields of \<open>opaquelib\<close>; \<open>opaque_env\<close> has the readings of the clock, by the
  position of the provider where it is read in the loop over the providers. Fields of an answer that the code does not
  read are left out, and so are timeouts and the texts of errors that are only logged.
\<close>

section \<open>Data\<close>

record tls_setting =
  tsRoots :: "string option"
  tsSkip :: bool

record IntrospectionProvider =
  ipName :: string
  ipIssuer :: string
  ipMatches :: "(string \<Rightarrow> bool) option"
  ipURI :: string
  ipClientID :: string
  ipClientSecret :: string
  ipAuthStyle :: string
  ipBearerToken :: string
  ipTokenTypeHint :: string
  ipTls :: "tls_setting option"

record IntrospectionResult =
  rsActive :: bool
  rsClientID :: string
  rsExp :: int
  rsNbf :: int
  rsSub :: string
  rsIss :: string
  rsRaw :: params

record cachedIntrospection =
  ciResult :: IntrospectionResult
  ciExpiresAt :: instant

datatype client_auth = NoAuth | BearerAuth string | BasicAuth string string

record intro_request =
  iqURI :: string
  iqForm :: string
  iqAuth :: client_auth
  iqTls :: "tls_setting option"

text \<open>\<open>olPost\<close> answers the request of an attempt at the provider of a position, with the status and the body;
  \<open>olTyped\<close> decodes what it can of the typed fields; \<open>olDone\<close> tells whether the request was cancelled after an attempt.\<close>

record opaquelib =
  olPost :: "nat \<Rightarrow> nat \<Rightarrow> intro_request \<Rightarrow> string + int \<times> (string + string)"
  olDone :: "nat \<Rightarrow> nat \<Rightarrow> string option"
  olRaw :: "string \<Rightarrow> string + params"
  olTyped :: "string \<Rightarrow> IntrospectionResult"
  olRegex :: "string \<Rightarrow> (string \<Rightarrow> bool) option"
  olReadFile :: "string \<Rightarrow> string + string"
  olCertPool :: "string \<Rightarrow> bool"
  olSha256 :: "string \<Rightarrow> string"
  olMarshal :: "any \<Rightarrow> string option"
  olFormatFloat :: "f64 \<Rightarrow> string"

record opaque_env =
  oeGet :: "nat \<Rightarrow> instant"
  oePut :: "nat \<Rightarrow> instant"
  oePut2 :: "nat \<Rightarrow> instant"
  oeNow :: instant

text \<open>The cache, and the providers or the error of the first request of all.\<close>

record 'c opaque_state =
  osCache :: 'c
  osProviders :: "IntrospectionProvider list outcome option"

section \<open>Configuration\<close>

definition buildTLSConfig :: "opaquelib \<Rightarrow> string \<Rightarrow> bool \<Rightarrow> tls_setting outcome" where
  "buildTLSConfig lib certPath skip =
     (if certPath = '''' then Ret \<lparr>tsRoots = None, tsSkip = skip\<rparr>
      else case olReadFile lib certPath of
        Inl err \<Rightarrow> Fail (''failed to read certificate file: '' @ err)
      | Inr d \<Rightarrow> if olCertPool lib d then Ret \<lparr>tsRoots = Some d, tsSkip = skip\<rparr> else Fail (''failed to parse PEM certificate from '' @ certPath))"

definition getStringOrDefault :: "any \<Rightarrow> string \<Rightarrow> string" where
  "getStringOrDefault v d = (case as_str v of Some s \<Rightarrow> if s \<noteq> '''' then s else d | None \<Rightarrow> d)"

text \<open>The provider of an entry with its introspection settings; \<open>None\<close> skips an entry.\<close>

definition providerOf :: "opaquelib \<Rightarrow> string \<Rightarrow> params \<Rightarrow> params \<Rightarrow> IntrospectionProvider outcome" where
  "providerOf lib name pm i =
     (let pattern = getString (index pm ''tokenPattern''); certPath = getString (index i ''certificatePath''); skip = getBool (index i ''skipTlsVerify'');
          p = \<lparr>ipName = name, ipIssuer = getString (index pm ''issuer''), ipMatches = (if pattern = '''' then None else olRegex lib pattern),
            ipURI = getString (index i ''uri''), ipClientID = getString (index i ''clientId''), ipClientSecret = getString (index i ''clientSecret''),
            ipAuthStyle = getString (index i ''authStyle''), ipBearerToken = getString (index i ''bearerToken''),
            ipTokenTypeHint = getStringOrDefault (index i ''tokenTypeHint'') ''access_token'', ipTls = None\<rparr>
      in if pattern \<noteq> '''' \<and> olRegex lib pattern = None then Fail (''provider '' @ inDquotes name @ '': invalid tokenPattern'')
         else if ipBearerToken p \<noteq> '''' \<and> ipClientID p \<noteq> '''' then
           Fail (''provider '' @ inDquotes name @ '': bearerToken and clientId are mutually exclusive'')
         else if certPath \<noteq> '''' \<or> skip then
           andThen (inContext (''provider '' @ inDquotes name @ '': '') (buildTLSConfig lib certPath skip)) (\<lambda>t. Ret (p\<lparr>ipTls := Some t\<rparr>))
         else Ret p)"

fun parseProviders :: "opaquelib \<Rightarrow> string list \<Rightarrow> any list \<Rightarrow> IntrospectionProvider list outcome" where
  "parseProviders lib seen [] = Ret []"
| "parseProviders lib seen (item # items) =
     (let name = getString (index (mapOr item) ''name''); pm = mapOr item in
      if as_map item = None \<or> name = '''' then parseProviders lib seen items
      else if name \<in> set seen then Fail (''duplicate introspection provider name '' @ inDquotes name)
      else case as_map (index pm ''introspection'') of
        None \<Rightarrow> parseProviders lib (name # seen) items
      | Some i \<Rightarrow>
          if getString (index i ''uri'') = '''' then parseProviders lib (name # seen) items
          else andThen (providerOf lib name pm i) (\<lambda>p. andThen (parseProviders lib (name # seen) items) (\<lambda>ps. Ret (p # ps))))"

definition parseIntrospectionProviders :: "opaquelib \<Rightarrow> params \<Rightarrow> IntrospectionProvider list outcome" where
  "parseIntrospectionProviders lib m =
     (case map_of m ''introspectionProviders'' of
        None \<Rightarrow> Ret []
      | Some raw \<Rightarrow> (case as_arr raw of Some items \<Rightarrow> parseProviders lib [] items | None \<Rightarrow> Fail ''introspectionProviders must be an array''))"

text \<open>Once for the life of the program.\<close>

definition getProviders :: "opaquelib \<Rightarrow> params \<Rightarrow> 'c opaque_state \<Rightarrow> 'c opaque_state \<times> IntrospectionProvider list outcome" where
  "getProviders lib m s =
     (case osProviders s of
        Some r \<Rightarrow> (s, r)
      | None \<Rightarrow> (let r = parseIntrospectionProviders lib m in (s\<lparr>osProviders := Some r\<rparr>, r)))"

definition selectProviders :: "IntrospectionProvider list \<Rightarrow> string list \<Rightarrow> IntrospectionProvider list" where
  "selectProviders ps issuers =
     (if issuers = [] then ps
      else filter (\<lambda>p. ipName p \<in> set issuers \<or> ipIssuer p \<noteq> '''' \<and> ipIssuer p \<in> set issuers) ps)"

definition filterProvidersByToken :: "IntrospectionProvider list \<Rightarrow> string \<Rightarrow> IntrospectionProvider list" where
  "filterProvidersByToken ps token = filter (\<lambda>p. case ipMatches p of None \<Rightarrow> True | Some f \<Rightarrow> f token) ps"

section \<open>Introspection\<close>

definition introspectionCacheKey :: "opaquelib \<Rightarrow> IntrospectionProvider \<Rightarrow> string \<Rightarrow> string" where
  "introspectionCacheKey lib p token = olSha256 lib (ipName p @ char_of (0 :: nat) # token)"

definition tokenFingerprint :: "opaquelib \<Rightarrow> string \<Rightarrow> string" where
  "tokenFingerprint lib token = olSha256 lib token"

definition introspectRequest :: "string \<Rightarrow> IntrospectionProvider \<Rightarrow> intro_request" where
  "introspectRequest token p =
     (let form = values_Set ''token'' token [];
          form = (if ipTokenTypeHint p \<noteq> '''' then values_Set ''token_type_hint'' (ipTokenTypeHint p) form else form);
          post = (ipAuthStyle p = ''post'' \<and> ipClientID p \<noteq> '''');
          form = (if post then values_Set ''client_secret'' (ipClientSecret p) (values_Set ''client_id'' (ipClientID p) form) else form)
      in \<lparr>iqURI = ipURI p, iqForm = values_Encode form,
          iqAuth = (if ipBearerToken p \<noteq> '''' then BearerAuth (ipBearerToken p) else if post then NoAuth
            else if ipClientID p \<noteq> '''' then BasicAuth (ipClientID p) (ipClientSecret p) else NoAuth),
          iqTls = ipTls p\<rparr>)"

definition doIntrospect :: "opaquelib \<Rightarrow> nat \<Rightarrow> nat \<Rightarrow> string \<Rightarrow> IntrospectionProvider \<Rightarrow> string + IntrospectionResult" where
  "doIntrospect lib i attempt token p =
     (case olPost lib i attempt (introspectRequest token p) of
        Inl err \<Rightarrow> Inl (''introspection request failed: '' @ err)
      | Inr (status, body) \<Rightarrow>
          if status \<noteq> 200 then Inl (''introspection endpoint returned status '' @ itoa status)
          else (case body of
            Inl err \<Rightarrow> Inl (''failed to read introspection response: '' @ err)
          | Inr b \<Rightarrow>
              (case olRaw lib b of
                 Inl err \<Rightarrow> Inl (''failed to parse introspection response: '' @ err)
               | Inr raw \<Rightarrow> Inr ((olTyped lib b)\<lparr>rsRaw := raw\<rparr>))))"

text \<open>Attempts until one succeeds.\<close>

fun introspectLoop :: "opaquelib \<Rightarrow> nat \<Rightarrow> string \<Rightarrow> IntrospectionProvider \<Rightarrow> nat \<Rightarrow> nat \<Rightarrow> string + IntrospectionResult" where
  "introspectLoop lib i token p attempt left =
     (case doIntrospect lib i attempt token p of
        Inr r \<Rightarrow> Inr r
      | Inl err \<Rightarrow>
          (case left of
             0 \<Rightarrow> Inl err
           | Suc n \<Rightarrow> (case olDone lib i attempt of Some e \<Rightarrow> Inl e | None \<Rightarrow> introspectLoop lib i token p (Suc attempt) n)))"

declare introspectLoop.simps [simp del]

text \<open>Until when an answer is cached; the zero time for never.\<close>

definition resultExpiry :: "instant \<Rightarrow> duration \<Rightarrow> duration \<Rightarrow> IntrospectionResult \<Rightarrow> instant" where
  "resultExpiry now cacheTtl negativeCacheTtl r =
     (if rsActive r then
        (let e = time_Add now cacheTtl in if 0 < rsExp r \<and> unixTime (rsExp r) < e then unixTime (rsExp r) else e)
      else if 0 < negativeCacheTtl then time_Add now negativeCacheTtl
      else 0)"

definition fetchIntrospection :: "('c, cachedIntrospection) cache_ops \<Rightarrow> opaquelib \<Rightarrow> opaque_env \<Rightarrow> nat \<Rightarrow> duration \<Rightarrow> duration \<Rightarrow> int \<Rightarrow> string \<Rightarrow> IntrospectionProvider \<Rightarrow> 'c
    \<Rightarrow> 'c \<times> (string + IntrospectionResult)" where
  "fetchIntrospection ops lib env i cacheTtl negativeCacheTtl retryCount token p c =
     (case introspectLoop lib i token p 0 (nat retryCount) of
        Inl err \<Rightarrow> (c, Inl err)
      | Inr r \<Rightarrow>
          (let expiresAt = resultExpiry (oePut env i) cacheTtl negativeCacheTtl r
           in (if expiresAt \<noteq> 0 \<and> oePut2 env i < expiresAt then
                 coSet ops (introspectionCacheKey lib p token) \<lparr>ciResult = r, ciExpiresAt = expiresAt\<rparr> c else c, Inr r)))"

definition introspect :: "('c, cachedIntrospection) cache_ops \<Rightarrow> opaquelib \<Rightarrow> opaque_env \<Rightarrow> nat \<Rightarrow> duration \<Rightarrow> duration \<Rightarrow> int \<Rightarrow> string \<Rightarrow> IntrospectionProvider \<Rightarrow> 'c
    \<Rightarrow> 'c \<times> (string + IntrospectionResult)" where
  "introspect ops lib env i cacheTtl negativeCacheTtl retryCount token p c =
     (if retryCount < 0 then (c, Inl (''invalid introspection retry count: '' @ itoa retryCount))
      else case coGet ops (introspectionCacheKey lib p token) c of
        (c, Some v) \<Rightarrow>
          if oeGet env i < ciExpiresAt v then (c, Inr (ciResult v))
          else fetchIntrospection ops lib env i cacheTtl negativeCacheTtl retryCount token p c
      | (c, None) \<Rightarrow> fetchIntrospection ops lib env i cacheTtl negativeCacheTtl retryCount token p c)"

text \<open>The loop over the providers, until one reports the token active.\<close>

fun firstActive :: "('c, cachedIntrospection) cache_ops \<Rightarrow> opaquelib \<Rightarrow> opaque_env \<Rightarrow> duration \<Rightarrow> duration \<Rightarrow> int \<Rightarrow> string \<Rightarrow> nat \<Rightarrow> IntrospectionProvider list \<Rightarrow> 'c
    \<Rightarrow> 'c \<times> IntrospectionResult option" where
  "firstActive ops lib env ttl neg retry token i [] c = (c, None)"
| "firstActive ops lib env ttl neg retry token i (p # ps) c =
     (case introspect ops lib env i ttl neg retry token p c of
        (c, Inr r) \<Rightarrow> if rsActive r then (c, Some r) else firstActive ops lib env ttl neg retry token (Suc i) ps c
      | (c, Inl _) \<Rightarrow> firstActive ops lib env ttl neg retry token (Suc i) ps c)"

section \<open>Claims\<close>

definition opaque_claimValueToString :: "opaquelib \<Rightarrow> any \<Rightarrow> string" where
  "opaque_claimValueToString lib v =
     (case v of
        ANil \<Rightarrow> ''''
      | AStr s \<Rightarrow> s
      | AFloat x \<Rightarrow> olFormatFloat lib x
      | ABool b \<Rightarrow> if b then ''true'' else ''false''
      | _ \<Rightarrow> (case olMarshal lib v of Some s \<Rightarrow> s | None \<Rightarrow> ''''))"

definition parseScopeValue :: "any \<Rightarrow> string list" where
  "parseScopeValue v = (case v of AStr s \<Rightarrow> Fields s | AArr xs \<Rightarrow> strings xs | _ \<Rightarrow> [])"

definition opaque_parseScopes :: "any \<Rightarrow> any \<Rightarrow> string list" where
  "opaque_parseScopes scope scp = parseScopeValue scope @ parseScopeValue scp"

definition anyMatch :: "string list \<Rightarrow> string list \<Rightarrow> bool" where
  "anyMatch a b = list_ex (\<lambda>x. x \<in> set b) a"

definition opaque_buildScopesMap :: "params \<Rightarrow> (string, bool) gomap" where
  "opaque_buildScopesMap raw = buildScopesMap (opaque_parseScopes (index raw ''scope'') (index raw ''scp''))"

definition standardIntrospectionClaims :: "string list" where
  "standardIntrospectionClaims = [''active'', ''scope'', ''scp'', ''client_id'', ''exp'', ''iat'', ''nbf'', ''sub'', ''aud'', ''iss'', ''jti'']"

definition opaque_buildProperties :: "opaquelib \<Rightarrow> params \<Rightarrow> (string, string) gomap option" where
  "opaque_buildProperties lib raw =
     (let own = filter (\<lambda>c. fst c \<notin> set standardIntrospectionClaims) raw
      in if own = [] then None else Some (map (\<lambda>(k, v). (k, opaque_claimValueToString lib v)) own))"

definition opaque_subject :: "opaquelib \<Rightarrow> string \<Rightarrow> IntrospectionResult \<Rightarrow> string" where
  "opaque_subject lib userIdClaim r =
     (if userIdClaim \<noteq> '''' \<and> userIdClaim \<noteq> ''sub'' then
        (case map_of (rsRaw r) userIdClaim of
           Some v \<Rightarrow> (let c = TrimSpace (opaque_claimValueToString lib v) in if c \<noteq> '''' \<and> c \<noteq> ''null'' then c else rsSub r)
         | None \<Rightarrow> rsSub r)
      else rsSub r)"

definition opaque_identity :: "opaquelib \<Rightarrow> string \<Rightarrow> IntrospectionResult \<Rightarrow> string \<Rightarrow> jwt_identity" where
  "opaque_identity lib userIdClaim r token =
     \<lparr>acAuthenticated = True, acAuthorized = False, acAuthType = ''opaque'', acSubject = opaque_subject lib userIdClaim r,
      acIssuer = rsIss r, acAudience = parseAudience (index (rsRaw r) ''aud''), acScopes = opaque_buildScopesMap (rsRaw r),
      acProperties = opaque_buildProperties lib (rsRaw r), acTypedProperties = [],
      acTokenId = tokenFingerprint lib token, acCredentialID = rsClientID r\<rparr>"

section \<open>The hook\<close>

record opaque_config =
  ocHeaderName :: string
  ocScheme :: string
  ocStatus :: int
  ocFormat :: string
  ocMessage :: string
  ocLeeway :: duration
  ocTtl :: duration
  ocNegativeTtl :: duration
  ocRetries :: int
  ocIssuers :: "string list"
  ocAudiences :: "string list"
  ocScopes :: "string list"
  ocClaims :: "(string, string) gomap"
  ocUserIdClaim :: string
  ocForwardToken :: bool
  ocForwardedHeader :: string

definition opaqueConfig :: "params \<Rightarrow> opaque_config" where
  "opaqueConfig m =
     (let prefix = getStringParam m ''authHeaderPrefix'' '''' in
      \<lparr>ocHeaderName = getStringParam m ''headerName'' ''Authorization'',
       ocScheme = (if prefix \<noteq> '''' then prefix else getStringParam m ''authHeaderScheme'' ''Bearer''),
       ocStatus = getIntParam m ''onFailureStatusCode'' 401, ocFormat = getStringParam m ''errorMessageFormat'' ''json'',
       ocMessage = getStringParam m ''errorMessage'' ''Authentication failed'',
       ocLeeway = durationParam m ''leeway'' ''30s'' (30 * Second),
       ocTtl = durationParam m ''introspectionCacheTtl'' ''60s'' (60 * Second),
       ocNegativeTtl = durationParam m ''introspectionNegativeCacheTtl'' ''30s'' (30 * Second),
       ocRetries = getIntParam m ''introspectionRetryCount'' 2,
       ocIssuers = getStringArrayParam m ''issuers'', ocAudiences = getStringArrayParam m ''audiences'',
       ocScopes = getStringArrayParam m ''requiredScopes'', ocClaims = getStringMapParam m ''requiredClaims'',
       ocUserIdClaim = getStringParam m ''userIdClaim'' ''sub'', ocForwardToken = getBoolParam m ''forwardToken'' True,
       ocForwardedHeader = getStringParam m ''forwardedTokenHeader'' ''x-forwarded-authorization''\<rparr>)"

definition opaque_failure :: "opaquelib \<Rightarrow> opaque_config \<Rightarrow> jwt_identity list \<Rightarrow> jwt_identity list \<times> up_mods hook_action" where
  "opaque_failure lib cf auth =
     (failedIdentity\<lparr>acAuthType := ''opaque''\<rparr> # auth,
      Reply \<lparr>irStatus = ocStatus cf,
        irHeaders = [(''content-type'', if ocFormat cf = ''plain'' \<or> ocFormat cf = ''minimal'' then ''text/plain'' else ''application/json'')],
        irBody = (if ocFormat cf = ''plain'' then ocMessage cf
          else if ocFormat cf = ''minimal'' then ''Unauthorized''
          else case olMarshal lib (AMap [(''error'', AStr ''Unauthorized''), (''message'', AStr (ocMessage cf))]) of Some b \<Rightarrow> b | None \<Rightarrow> '''')\<rparr>)"

definition opaque_success :: "opaquelib \<Rightarrow> opaque_config \<Rightarrow> string \<Rightarrow> string \<Rightarrow> IntrospectionResult \<Rightarrow> jwt_identity list \<Rightarrow> jwt_identity list \<times> up_mods hook_action" where
  "opaque_success lib cf authHeader token r auth =
     (let canonicalIn = CanonicalHeaderKey (ocHeaderName cf); canonicalOut = CanonicalHeaderKey (ocForwardedHeader cf)
      in (opaque_identity lib (ocUserIdClaim cf) r token # auth,
          Modify (if \<not> ocForwardToken cf then noUpMods\<lparr>umRemove := [canonicalIn]\<rparr>
            else if canonicalOut \<noteq> canonicalIn then noUpMods\<lparr>umSet := [(canonicalOut, authHeader)], umRemove := [canonicalIn]\<rparr>
            else noUpMods)))"

text \<open>The checks on the answer.\<close>

definition resultOk :: "opaquelib \<Rightarrow> instant \<Rightarrow> opaque_config \<Rightarrow> IntrospectionResult \<Rightarrow> bool" where
  "resultOk lib now cf r \<longleftrightarrow>
     \<not> (0 < rsExp r \<and> time_Add (unixTime (rsExp r)) (ocLeeway cf) < now) \<and>
     \<not> (0 < rsNbf r \<and> now < time_Add (unixTime (rsNbf r)) (wrap64 (- ocLeeway cf))) \<and>
     (ocAudiences cf \<noteq> [] \<longrightarrow> anyMatch (ocAudiences cf) (parseAudience (index (rsRaw r) ''aud''))) \<and>
     (ocScopes cf \<noteq> [] \<longrightarrow> anyMatch (ocScopes cf) (opaque_parseScopes (index (rsRaw r) ''scope'') (index (rsRaw r) ''scp''))) \<and>
     list_all (\<lambda>(claim, v). opaque_claimValueToString lib (index (rsRaw r) claim) = v) (ocClaims cf)"

definition opaque_OnRequestHeaders :: "('c, cachedIntrospection) cache_ops \<Rightarrow> opaquelib \<Rightarrow> opaque_env \<Rightarrow> params \<Rightarrow> headers \<Rightarrow> jwt_identity list \<Rightarrow> 'c opaque_state
    \<Rightarrow> 'c opaque_state \<times> jwt_identity list \<times> up_mods hook_action" where
  "opaque_OnRequestHeaders ops lib env m hs auth s =
     (let cf = opaqueConfig m; failure = opaque_failure lib cf auth in
      case getProviders lib m s of
        (s, Ret providers) \<Rightarrow>
          (let selected = selectProviders providers (ocIssuers cf) in
           if selected = [] then (s, failure)
           else case hs (ToLower (ocHeaderName cf)) of
             [] \<Rightarrow> (s, failure)
           | authHeader # _ \<Rightarrow>
               let token = extractToken authHeader (ocScheme cf); ps = filterProvidersByToken selected token in
               if token = '''' \<or> ps = [] then (s, failure)
               else case firstActive ops lib env (ocTtl cf) (ocNegativeTtl cf) (ocRetries cf) token 0 ps (osCache s) of
                 (c, None) \<Rightarrow> (s\<lparr>osCache := c\<rparr>, failure)
               | (c, Some r) \<Rightarrow>
                   (s\<lparr>osCache := c\<rparr>, if resultOk lib (oeNow env) cf r then opaque_success lib cf authHeader token r auth else failure))
      | (s, _) \<Rightarrow> (s, failure))"

definition opaque_ins :: "('c, cachedIntrospection) cache_ops \<Rightarrow> 'c opaque_state" where
  "opaque_ins ops = \<lparr>osCache = coNew ops 100000, osProviders = None\<rparr>"

definition opaque_Mode :: "body_mode \<times> body_mode" where
  "opaque_Mode = (BodyModeSkip, BodyModeSkip)"

section \<open>Runs\<close>

record opaque_request =
  oqLib :: opaquelib
  oqEnv :: opaque_env
  oqParams :: params
  oqHeaders :: headers
  oqAuth :: "jwt_identity list"

abbreviation oqConfig :: "opaque_request \<Rightarrow> opaque_config" where
  "oqConfig r \<equiv> opaqueConfig (oqParams r)"

definition opaque_serve :: "('c, cachedIntrospection) cache_ops \<Rightarrow> opaque_request \<Rightarrow> 'c opaque_state \<Rightarrow> 'c opaque_state \<times> jwt_identity list \<times> up_mods hook_action" where
  "opaque_serve ops r = opaque_OnRequestHeaders ops (oqLib r) (oqEnv r) (oqParams r) (oqHeaders r) (oqAuth r)"

inductive opaque_run :: "('c, cachedIntrospection) cache_ops \<Rightarrow> opaque_request list \<Rightarrow> 'c opaque_state \<Rightarrow> bool" for ops where
  opaque_start: "opaque_run ops [] (opaque_ins ops)"
| opaque_next: "opaque_run ops rs s \<Longrightarrow> opaque_run ops (r # rs) (fst (opaque_serve ops r s))"

section \<open>What is relied on\<close>

definition opaque_token :: "opaque_request \<Rightarrow> string" where
  "opaque_token r =
     (case oqHeaders r (ToLower (ocHeaderName (oqConfig r))) of [] \<Rightarrow> '''' | h # _ \<Rightarrow> extractToken h (ocScheme (oqConfig r)))"

text \<open>The providers of a run are those that its first request, the last of the list, configures. One of them serves a
  request when the route accepts it and its pattern takes the token.\<close>

definition provides :: "opaque_request list \<Rightarrow> IntrospectionProvider \<Rightarrow> bool" where
  "provides rs p \<longleftrightarrow> (\<exists>ps. parseIntrospectionProviders (oqLib (last rs)) (oqParams (last rs)) = Ret ps \<and> p \<in> set ps)"

definition serves :: "opaque_request list \<Rightarrow> opaque_request \<Rightarrow> IntrospectionProvider \<Rightarrow> bool" where
  "serves rs r p \<longleftrightarrow> provides rs p \<and>
     (ocIssuers (oqConfig r) \<noteq> [] \<longrightarrow> ipName p \<in> set (ocIssuers (oqConfig r)) \<or> ipIssuer p \<noteq> '''' \<and> ipIssuer p \<in> set (ocIssuers (oqConfig r))) \<and>
     (\<forall>f. ipMatches p = Some f \<longrightarrow> f (opaque_token r))"

text \<open>The answer of an endpoint to a request, and the time until which it may be repeated.\<close>

definition answered :: "opaque_request \<Rightarrow> nat \<Rightarrow> IntrospectionProvider \<Rightarrow> IntrospectionResult \<Rightarrow> bool" where
  "answered q i p r \<longleftrightarrow> (\<exists>attempt. doIntrospect (oqLib q) i attempt (opaque_token q) p = Inr r)"

definition repeatable :: "instant \<Rightarrow> opaque_request \<Rightarrow> nat \<Rightarrow> IntrospectionResult \<Rightarrow> bool" where
  "repeatable now q i r \<longleftrightarrow> now < time_Add (oePut (oqEnv q) i) (ocTtl (oqConfig q)) \<and> (0 < rsExp r \<longrightarrow> now < unixTime (rsExp r))"

text \<open>The provider reported the token of the request active, to this request or to an earlier one with the same token.\<close>

definition introspected :: "opaque_request list \<Rightarrow> opaque_request \<Rightarrow> IntrospectionProvider \<Rightarrow> IntrospectionResult \<Rightarrow> bool" where
  "introspected rs r p res \<longleftrightarrow> rsActive res \<and>
     ((\<exists>i. answered r i p res) \<or>
      (\<exists>q \<in> set rs. \<exists>i j. opaque_token q = opaque_token r \<and> answered q i p res \<and> repeatable (oeGet (oqEnv r) j) q i res))"

definition entryOk :: "opaque_request list \<Rightarrow> string \<Rightarrow> cachedIntrospection \<Rightarrow> bool" where
  "entryOk rs k v \<longleftrightarrow> (rsActive (ciResult v) \<longrightarrow>
     (\<exists>q \<in> set rs. \<exists>i p. provides rs p \<and> introspectionCacheKey (oqLib q) p (opaque_token q) = k \<and> answered q i p (ciResult v) \<and>
        ciExpiresAt v = resultExpiry (oePut (oqEnv q) i) (ocTtl (oqConfig q)) (ocNegativeTtl (oqConfig q)) (ciResult v)))"

text \<open>What the hash of the cache key is relied on for: all requests use one, it tells the texts hashed in the run apart,
  and no token has a zero byte, which no header value can have.\<close>

definition hashedApart :: "opaque_request list \<Rightarrow> bool" where
  "hashedApart rs \<longleftrightarrow> (\<exists>h. (\<forall>q \<in> set rs. olSha256 (oqLib q) = h \<and> char_of (0 :: nat) \<notin> set (opaque_token q)) \<and>
     inj_on h {ipName p @ char_of (0 :: nat) # opaque_token q | p q. provides rs p \<and> q \<in> set rs})"

lemma last_mono: "rs \<noteq> [] \<Longrightarrow> provides (r # rs) = provides rs"
  by (intro ext) (simp add: provides_def)

lemma entryOk_mono: "entryOk rs k v \<Longrightarrow> entryOk (r # rs) k v"
proof (cases "rs = []")
  case False
  then show "entryOk rs k v \<Longrightarrow> ?thesis" unfolding entryOk_def last_mono [OF False] by (meson list.set_intros(2))
qed (simp add: entryOk_def)

lemma hashedApart_mono:
  assumes "hashedApart (r # rs)" "rs \<noteq> []"
  shows "hashedApart rs"
proof -
  obtain h where "\<forall>q \<in> set (r # rs). olSha256 (oqLib q) = h \<and> char_of (0 :: nat) \<notin> set (opaque_token q)"
    "inj_on h {ipName p @ char_of (0 :: nat) # opaque_token q | p q. provides (r # rs) p \<and> q \<in> set (r # rs)}"
    using assms(1) unfolding hashedApart_def by blast
  moreover have "{ipName p @ char_of (0 :: nat) # opaque_token q | p q. provides rs p \<and> q \<in> set rs} \<subseteq>
      {ipName p @ char_of (0 :: nat) # opaque_token q | p q. provides (r # rs) p \<and> q \<in> set (r # rs)}"
    unfolding last_mono [OF assms(2)] by auto
  ultimately show ?thesis unfolding hashedApart_def by (meson inj_on_subset list.set_intros(2))
qed

text \<open>Names of providers are distinct.\<close>

lemma providerOf_name: "providerOf lib name pm i = Ret p \<Longrightarrow> ipName p = name"
  by (auto simp: providerOf_def Let_def andThen_Ret split: if_splits)

lemma parseProviders_names:
  "parseProviders lib seen items = Ret ps \<Longrightarrow> distinct (map ipName ps) \<and> set (map ipName ps) \<inter> set seen = {}"
proof (induction items arbitrary: seen ps)
  case (Cons item items)
  let ?name = "getString (index (mapOr item) ''name'')"
  consider (skip) "parseProviders lib seen items = Ret ps"
    | (drop) "parseProviders lib (?name # seen) items = Ret ps"
    | (add) p ps' pm i where "providerOf lib ?name pm i = Ret p" "parseProviders lib (?name # seen) items = Ret ps'" "ps = p # ps'" "?name \<notin> set seen"
    using Cons.prems by (auto simp: Let_def andThen_Ret split: if_splits option.splits)
  then show ?case
  proof cases
    case skip
    then show ?thesis by (rule Cons.IH)
  next
    case drop
    then show ?thesis using Cons.IH by fastforce
  next
    case add
    then show ?thesis using Cons.IH [OF add(2)] providerOf_name [OF add(1)] by auto
  qed
qed simp

lemma provides_name:
  assumes "provides rs p" "provides rs p'" "ipName p = ipName p'"
  shows "p = p'"
proof -
  obtain ps where ps: "parseIntrospectionProviders (oqLib (last rs)) (oqParams (last rs)) = Ret ps" "p \<in> set ps" "p' \<in> set ps"
    using assms unfolding provides_def by auto
  have "distinct (map ipName ps)"
    using ps(1) parseProviders_names by (auto simp: parseIntrospectionProviders_def split: option.splits)
  then show ?thesis using ps(2,3) assms(3) by (meson distinct_map inj_onD)
qed

lemma append_zero:
  assumes "a @ z # t = b @ z # u" "z \<notin> set t" "z \<notin> set u"
  shows "a = b \<and> t = u"
  using assms(1)
proof (induction a arbitrary: b)
  case Nil
  then show ?case using assms(2,3) by (cases b) auto
next
  case (Cons x a)
  then show ?case using assms(2,3) by (cases b) auto
qed

text \<open>Equal cache keys mean the same provider and the same token.\<close>

lemma same_key:
  assumes "hashedApart rs" "q \<in> set rs" "r \<in> set rs" "provides rs p'" "provides rs p"
    and "introspectionCacheKey (oqLib q) p' (opaque_token q) = introspectionCacheKey (oqLib r) p (opaque_token r)"
  shows "p' = p \<and> opaque_token q = opaque_token r"
proof -
  obtain h where h: "\<forall>q \<in> set rs. olSha256 (oqLib q) = h \<and> char_of (0 :: nat) \<notin> set (opaque_token q)"
    "inj_on h {ipName p @ char_of (0 :: nat) # opaque_token q | p q. provides rs p \<and> q \<in> set rs}"
    using assms(1) unfolding hashedApart_def by blast
  have "h (ipName p' @ char_of (0 :: nat) # opaque_token q) = h (ipName p @ char_of (0 :: nat) # opaque_token r)"
    using assms(2,3,6) h(1) by (simp add: introspectionCacheKey_def)
  then have "ipName p' @ char_of (0 :: nat) # opaque_token q = ipName p @ char_of (0 :: nat) # opaque_token r"
    by (rule inj_onD [OF h(2)]) (use assms(2-5) in blast)+
  then have "ipName p' = ipName p \<and> opaque_token q = opaque_token r" by (rule append_zero) (use h(1) assms(2,3) in auto)
  then show ?thesis using provides_name [OF assms(4,5)] by blast
qed

lemma introspectLoop_answered: "introspectLoop lib i token p a n = Inr r \<Longrightarrow> \<exists>attempt. doIntrospect lib i attempt token p = Inr r"
  by (induction n arbitrary: a) (subst (asm) introspectLoop.simps, auto split: sum.splits option.splits)+

lemma resultExpiry_repeatable:
  "rsActive res \<Longrightarrow> now < resultExpiry (oePut (oqEnv q) i) (ocTtl (oqConfig q)) n res \<Longrightarrow> repeatable now q i res"
  by (auto simp: resultExpiry_def repeatable_def Let_def split: if_splits)

lemma fetchIntrospection_ok:
  assumes "cacheLaws ops holds" "cacheAll holds (entryOk (r # rs)) c" "provides (r # rs) p"
    "fetchIntrospection ops (oqLib r) (oqEnv r) i (ocTtl (oqConfig r)) (ocNegativeTtl (oqConfig r)) n (opaque_token r) p c = (c', out)"
  shows "cacheAll holds (entryOk (r # rs)) c' \<and> (\<forall>res. out = Inr res \<longrightarrow> answered r i p res)"
proof (cases "introspectLoop (oqLib r) i (opaque_token r) p 0 (nat n)")
  case (Inl err)
  with assms show ?thesis by (auto simp: fetchIntrospection_def)
next
  case (Inr res)
  have a: "answered r i p res" using introspectLoop_answered[OF Inr] by (simp add: answered_def)
  then have "entryOk (r # rs) (introspectionCacheKey (oqLib r) p (opaque_token r))
      \<lparr>ciResult = res, ciExpiresAt = resultExpiry (oePut (oqEnv r) i) (ocTtl (oqConfig r)) (ocNegativeTtl (oqConfig r)) res\<rparr>"
    using assms(3) unfolding entryOk_def by (intro impI bexI [of _ r] exI [of _ i] exI [of _ p]) simp_all
  from cacheAll_set[OF assms(1,2) this] assms(2,4) Inr a show ?thesis by (auto simp: fetchIntrospection_def Let_def split: if_splits)
qed

lemma introspect_cases:
  assumes "introspect ops lib env i ttl neg n token p c = (c', out)" "\<not> n < 0" "coGet ops (introspectionCacheKey lib p token) c = (c1, hit)"
  shows "(\<exists>v. hit = Some v \<and> oeGet env i < ciExpiresAt v \<and> c' = c1 \<and> out = Inr (ciResult v)) \<or>
    fetchIntrospection ops lib env i ttl neg n token p c1 = (c', out)"
  using assms by (cases hit) (simp_all add: introspect_def split: if_splits)

lemma introspect_ok:
  assumes laws: "cacheLaws ops holds" and apart: "hashedApart (r # rs)" and p: "provides (r # rs) p"
    and inv: "cacheAll holds (entryOk (r # rs)) c"
    and run: "introspect ops (oqLib r) (oqEnv r) i (ocTtl (oqConfig r)) (ocNegativeTtl (oqConfig r)) n (opaque_token r) p c = (c', out)"
  shows "cacheAll holds (entryOk (r # rs)) c' \<and> (\<forall>res. out = Inr res \<and> rsActive res \<longrightarrow> introspected (r # rs) r p res)"
proof (cases "n < 0")
  case True
  with run inv show ?thesis by (auto simp: introspect_def)
next
  case False
  obtain c1 hit where g: "coGet ops (introspectionCacheKey (oqLib r) p (opaque_token r)) c = (c1, hit)" by fastforce
  note get = cacheAll_get[OF laws inv g]
  note fetch = fetchIntrospection_ok[OF laws get(1) p]
  consider (hit) v where "hit = Some v" "oeGet (oqEnv r) i < ciExpiresAt v" "c' = c1" "out = Inr (ciResult v)"
    | (miss) "fetchIntrospection ops (oqLib r) (oqEnv r) i (ocTtl (oqConfig r)) (ocNegativeTtl (oqConfig r)) n (opaque_token r) p c1 = (c', out)"
    using introspect_cases[OF run False g] by blast
  then show ?thesis
  proof cases
    case hit
    have "introspected (r # rs) r p (ciResult v)" if act: "rsActive (ciResult v)"
    proof -
      from get(2)[OF hit(1)] act obtain q j p' where q: "q \<in> set (r # rs)" "provides (r # rs) p'"
          "introspectionCacheKey (oqLib q) p' (opaque_token q) = introspectionCacheKey (oqLib r) p (opaque_token r)" "answered q j p' (ciResult v)"
          "ciExpiresAt v = resultExpiry (oePut (oqEnv q) j) (ocTtl (oqConfig q)) (ocNegativeTtl (oqConfig q)) (ciResult v)"
        unfolding entryOk_def by blast
      have same: "p' = p \<and> opaque_token q = opaque_token r" using same_key [OF apart q(1) _ q(2) p q(3)] by simp
      have "repeatable (oeGet (oqEnv r) i) q j (ciResult v)" using resultExpiry_repeatable[OF act] hit(2) q(5) by metis
      with q(1,4) same act show ?thesis unfolding introspected_def by blast
    qed
    with hit get(1) show ?thesis by auto
  next
    case miss
    from fetch[OF this] show ?thesis by (auto simp: introspected_def)
  qed
qed

lemma firstActive_cases:
  assumes "firstActive ops lib env ttl neg n token i (p # ps) c = (c', out)" "introspect ops lib env i ttl neg n token p c = (c1, x)"
  shows "(\<exists>res. x = Inr res \<and> rsActive res \<and> c' = c1 \<and> out = Some res) \<or> firstActive ops lib env ttl neg n token (Suc i) ps c1 = (c', out)"
  using assms by (cases x) (simp_all split: if_splits)

lemma firstActive_ok:
  assumes "cacheLaws ops holds" "hashedApart (r # rs)"
  shows "cacheAll holds (entryOk (r # rs)) c \<Longrightarrow> \<forall>p \<in> set ps. provides (r # rs) p \<Longrightarrow>
    firstActive ops (oqLib r) (oqEnv r) (ocTtl (oqConfig r)) (ocNegativeTtl (oqConfig r)) n (opaque_token r) i ps c = (c', out) \<Longrightarrow>
    cacheAll holds (entryOk (r # rs)) c' \<and> (\<forall>res. out = Some res \<longrightarrow> (\<exists>p \<in> set ps. introspected (r # rs) r p res))"
proof (induction ps arbitrary: i c)
  case (Cons p ps)
  obtain c1 x where x: "introspect ops (oqLib r) (oqEnv r) i (ocTtl (oqConfig r)) (ocNegativeTtl (oqConfig r)) n (opaque_token r) p c = (c1, x)" by fastforce
  have "provides (r # rs) p" using Cons.prems(2) by simp
  note ok = introspect_ok[OF assms this Cons.prems(1) x]
  consider (found) res where "x = Inr res" "rsActive res" "c' = c1" "out = Some res"
    | (later) "firstActive ops (oqLib r) (oqEnv r) (ocTtl (oqConfig r)) (ocNegativeTtl (oqConfig r)) n (opaque_token r) (Suc i) ps c1 = (c', out)"
    using firstActive_cases[OF Cons.prems(3) x] by blast
  then show ?case
  proof cases
    case later
    from Cons.IH[OF _ _ this] ok Cons.prems(2) show ?thesis by auto
  qed (use ok in auto)
qed auto

text \<open>The invariant of a run.\<close>

definition opaqueOk :: "('c \<Rightarrow> string \<Rightarrow> cachedIntrospection \<Rightarrow> bool) \<Rightarrow> opaque_request list \<Rightarrow> 'c opaque_state \<Rightarrow> bool" where
  "opaqueOk holds rs s \<longleftrightarrow> cacheAll holds (entryOk rs) (osCache s) \<and>
     osProviders s = (if rs = [] then None else Some (parseIntrospectionProviders (oqLib (last rs)) (oqParams (last rs))))"

lemma getProviders_ok:
  assumes "osProviders s = (if rs = [] then None else Some (parseIntrospectionProviders (oqLib (last rs)) (oqParams (last rs))))"
    "getProviders (oqLib r) (oqParams r) s = (s', out)"
  shows "osCache s' = osCache s \<and> osProviders s' = Some out \<and> out = parseIntrospectionProviders (oqLib (last (r # rs))) (oqParams (last (r # rs)))"
  using assms by (auto simp: getProviders_def Let_def split: if_splits)

lemma selected_serves:
  assumes "p \<in> set (filterProvidersByToken (selectProviders ps (ocIssuers (oqConfig r))) (opaque_token r))"
    "parseIntrospectionProviders (oqLib (last rs)) (oqParams (last rs)) = Ret ps"
  shows "serves rs r p"
  using assms unfolding serves_def provides_def by (auto simp: filterProvidersByToken_def selectProviders_def split: if_splits option.splits)

lemma opaque_serve_ok:
  assumes laws: "cacheLaws ops holds" and apart: "hashedApart (r # rs)"
    and inv: "opaqueOk holds rs s" and run: "opaque_serve ops r s = (s', auth', act)"
  shows "opaqueOk holds (r # rs) s' \<and>
    (\<forall>u. act = Modify u \<longrightarrow> (\<exists>p res. serves (r # rs) r p \<and> introspected (r # rs) r p res \<and>
       resultOk (oqLib r) (oeNow (oqEnv r)) (oqConfig r) res \<and>
       auth' = opaque_identity (oqLib r) (ocUserIdClaim (oqConfig r)) res (opaque_token r) # oqAuth r))"
proof -
  obtain s1 out where g: "getProviders (oqLib r) (oqParams r) s = (s1, out)" by fastforce
  have p: "osCache s1 = osCache s" "osProviders s1 = Some out"
      "out = parseIntrospectionProviders (oqLib (last (r # rs))) (oqParams (last (r # rs)))"
    using getProviders_ok[OF _ g] inv unfolding opaqueOk_def by blast+
  have all: "cacheAll holds (entryOk (r # rs)) (osCache s1)"
    using cacheAll_mono[of holds "entryOk rs" "osCache s" "entryOk (r # rs)"] entryOk_mono inv unfolding opaqueOk_def p(1) by blast
  have ok: "opaqueOk holds (r # rs) (s1\<lparr>osCache := c\<rparr>)" if "cacheAll holds (entryOk (r # rs)) c" for c
    using that p unfolding opaqueOk_def by simp
  have fl: "snd (opaque_failure lib cf auth) \<noteq> Modify u" for lib cf auth u by (simp add: opaque_failure_def)
  note defs = opaque_serve_def opaque_OnRequestHeaders_def Let_def
  show ?thesis
  proof (cases "\<exists>ps h hs. out = Ret ps \<and> oqHeaders r (ToLower (ocHeaderName (oqConfig r))) = h # hs \<and>
      selectProviders ps (ocIssuers (oqConfig r)) \<noteq> [] \<and> opaque_token r \<noteq> '''' \<and>
      filterProvidersByToken (selectProviders ps (ocIssuers (oqConfig r))) (opaque_token r) \<noteq> []")
    case False
    then have "s' = s1 \<and> (auth', act) = opaque_failure (oqLib r) (oqConfig r) (oqAuth r)"
      using run g by (auto simp: defs opaque_token_def split: outcome.splits list.splits if_splits)
    with ok[OF all] fl show ?thesis by (cases s1) (metis p(1) snd_conv opaque_state.update_convs(1) opaque_state.select_convs(1))
  next
    case True
    then obtain ps h hs where t: "out = Ret ps" "oqHeaders r (ToLower (ocHeaderName (oqConfig r))) = h # hs"
      "selectProviders ps (ocIssuers (oqConfig r)) \<noteq> []" "opaque_token r \<noteq> ''''"
      "filterProvidersByToken (selectProviders ps (ocIssuers (oqConfig r))) (opaque_token r) \<noteq> []" by blast
    have tok: "extractToken h (ocScheme (oqConfig r)) = opaque_token r" using t(2) by (simp add: opaque_token_def)
    let ?ps = "filterProvidersByToken (selectProviders ps (ocIssuers (oqConfig r))) (opaque_token r)"
    obtain c found where f: "firstActive ops (oqLib r) (oqEnv r) (ocTtl (oqConfig r)) (ocNegativeTtl (oqConfig r)) (ocRetries (oqConfig r))
        (opaque_token r) 0 ?ps (osCache s1) = (c, found)" by fastforce
    have parsed: "parseIntrospectionProviders (oqLib (last (r # rs))) (oqParams (last (r # rs))) = Ret ps" using p(3) t(1) by simp
    have srv: "\<forall>q \<in> set ?ps. serves (r # rs) r q" using selected_serves[OF _ parsed] by blast
    then have "\<forall>q \<in> set ?ps. provides (r # rs) q" by (simp add: serves_def)
    note fa = firstActive_ok[OF laws apart all this f]
    have s': "s' = s1\<lparr>osCache := c\<rparr>" and
      act: "(auth', act) = (case found of None \<Rightarrow> opaque_failure (oqLib r) (oqConfig r) (oqAuth r)
        | Some res \<Rightarrow> if resultOk (oqLib r) (oeNow (oqEnv r)) (oqConfig r) res then opaque_success (oqLib r) (oqConfig r) h (opaque_token r) res (oqAuth r)
            else opaque_failure (oqLib r) (oqConfig r) (oqAuth r))"
      using run g t f tok by (auto simp: defs split: option.splits)
    have "\<exists>p res. serves (r # rs) r p \<and> introspected (r # rs) r p res \<and> resultOk (oqLib r) (oeNow (oqEnv r)) (oqConfig r) res \<and>
       auth' = opaque_identity (oqLib r) (ocUserIdClaim (oqConfig r)) res (opaque_token r) # oqAuth r" if m: "act = Modify u" for u
    proof -
      from act m obtain res where res: "found = Some res" "resultOk (oqLib r) (oeNow (oqEnv r)) (oqConfig r) res"
          "(auth', act) = opaque_success (oqLib r) (oqConfig r) h (opaque_token r) res (oqAuth r)"
        using fl by (auto simp: opaque_failure_def split: option.splits if_splits)
      from fa res(1) obtain p where "p \<in> set ?ps" "introspected (r # rs) r p res" by blast
      then show ?thesis using srv res(2,3) by (auto simp: opaque_success_def Let_def)
    qed
    with ok fa s' show ?thesis by blast
  qed
qed

lemma opaque_run_ok:
  assumes "cacheLaws ops holds"
  shows "opaque_run ops rs s \<Longrightarrow> rs \<noteq> [] \<longrightarrow> hashedApart rs \<Longrightarrow> opaqueOk holds rs s"
proof (induction rule: opaque_run.induct)
  case opaque_start
  then show ?case using cacheAll_new[OF assms] by (simp add: opaqueOk_def opaque_ins_def)
next
  case (opaque_next rs s r)
  have apart: "hashedApart (r # rs)" using opaque_next.prems by simp
  then have "rs \<noteq> [] \<longrightarrow> hashedApart rs" using hashedApart_mono by blast
  note ok = opaque_next.IH[OF this]
  from opaque_serve_ok[OF assms apart ok] show ?case by (metis prod.collapse)
qed

text \<open>C10: After any requests of \<^verbatim>\<open>opaque-token-auth\<close>, a request passes only if a provider that the route accepts and whose
  pattern takes the token, one of those that the first request configured for the life of the program, reported this
  token active: now, or to an earlier request with the same token, and then the answer is younger than its time
  to live and the token has not expired by the answer. What this request asks for holds of the answer: expiry and
  start with the leeway, one of the audiences, one of the scopes, and the claims. The identity it publishes is that
  of the answer. The hash is taken to tell the texts hashed in the run apart, and tokens to have no zero byte.\<close>

theorem opaque_auth_sound:
  assumes "cacheLaws ops holds" "opaque_run ops rs s" "opaque_serve ops r s = (s', auth', Modify u)" "hashedApart (r # rs)"
  shows "\<exists>p res. serves (r # rs) r p \<and> introspected (r # rs) r p res \<and>
    resultOk (oqLib r) (oeNow (oqEnv r)) (oqConfig r) res \<and>
    auth' = opaque_identity (oqLib r) (ocUserIdClaim (oqConfig r)) res (opaque_token r) # oqAuth r"
proof -
  have "rs \<noteq> [] \<longrightarrow> hashedApart rs" using hashedApart_mono [OF assms(4)] by blast
  from opaque_serve_ok[OF assms(1,4) opaque_run_ok[OF assms(1,2) this] assms(3)] show ?thesis by blast
qed

definition sampleAnswer :: IntrospectionResult where
  "sampleAnswer = \<lparr>rsActive = True, rsClientID = ''c'', rsExp = 100, rsNbf = 0, rsSub = ''alice'', rsIss = ''i'', rsRaw = [(''active'', ABool True), (''sub'', AStr ''alice'')]\<rparr>"

definition sampleEndpoint :: "bool \<Rightarrow> opaquelib" where
  "sampleEndpoint up = \<lparr>olPost = (\<lambda>_ _ q. if up \<and> iqURI q = ''u'' then Inr (200, Inr ''{}'') else Inl ''''), olDone = (\<lambda>_ _. None),
     olRaw = (\<lambda>_. Inr (rsRaw sampleAnswer)), olTyped = (\<lambda>_. sampleAnswer), olRegex = (\<lambda>_. Some (\<lambda>t. t = ''t'')), olReadFile = (\<lambda>_. Inl ''''),
     olCertPool = (\<lambda>_. False), olSha256 = (\<lambda>s. s), olMarshal = (\<lambda>_. Some ''''), olFormatFloat = (\<lambda>_. '''')\<rparr>"

definition sampleProviders :: params where
  "sampleProviders = [(''introspectionProviders'', AArr [AMap [(''name'', AStr ''p''), (''tokenPattern'', AStr ''t''),
     (''introspection'', AMap [(''uri'', AStr ''u''), (''clientId'', AStr ''c'')])]])]"

definition sampleOpaque :: "bool \<Rightarrow> instant \<Rightarrow> opaque_request" where
  "sampleOpaque up now = \<lparr>oqLib = sampleEndpoint up, oqEnv = \<lparr>oeGet = (\<lambda>_. now), oePut = (\<lambda>_. now), oePut2 = (\<lambda>_. now), oeNow = now\<rparr>,
     oqParams = sampleProviders, oqHeaders = (\<lambda>_. [''Bearer t'']), oqAuth = []\<rparr>"

lemma sample_provider: "parseIntrospectionProviders (sampleEndpoint up) sampleProviders =
    Ret [\<lparr>ipName = ''p'', ipIssuer = '''', ipMatches = Some (\<lambda>t. t = ''t''), ipURI = ''u'', ipClientID = ''c'', ipClientSecret = '''', ipAuthStyle = '''',
      ipBearerToken = '''', ipTokenTypeHint = ''access_token'', ipTls = None\<rparr>]"
  by (simp add: parseIntrospectionProviders_def sampleProviders_def sampleEndpoint_def providerOf_def index_def getString_def getBool_def
    getStringOrDefault_def mapOr_def entries_def andThen_Ret Let_def)

lemma sample_opaque_config: "opaqueConfig sampleProviders =
    \<lparr>ocHeaderName = ''Authorization'', ocScheme = ''Bearer'', ocStatus = 401, ocFormat = ''json'', ocMessage = ''Authentication failed'',
     ocLeeway = 30 * Second, ocTtl = 60 * Second, ocNegativeTtl = 30 * Second, ocRetries = 2, ocIssuers = [], ocAudiences = [], ocScopes = [],
     ocClaims = [], ocUserIdClaim = ''sub'', ocForwardToken = True, ocForwardedHeader = ''x-forwarded-authorization''\<rparr>"
proof -
  have "parseTerm ''60s'' = Some (60 * Second, [])" by (simp add: parseTerm_def is_digit_def digit_val_def unitMap_def Let_def Second_def)
  then have "ParseDuration ''60s'' = Some (60 * Second)" by (simp add: ParseDuration_def Let_def Second_def)
  then show ?thesis
    by (simp add: opaqueConfig_def sampleProviders_def durationParam_def getStringParam_def getIntParam_def getBoolParam_def getStringArrayParam_def
      getStringMapParam_def index_def durations Let_def)
qed

text \<open>The second request is served from the cache while the endpoint is down.\<close>

lemma sample_opaque_served:
  "opaque_serve aListOps (sampleOpaque False 2) (fst (opaque_serve aListOps (sampleOpaque True 1) (opaque_ins aListOps))) =
     (fst (opaque_serve aListOps (sampleOpaque True 1) (opaque_ins aListOps)),
      [opaque_identity (sampleEndpoint True) ''sub'' sampleAnswer ''t''],
      Modify (noUpMods\<lparr>umSet := [(''X-Forwarded-Authorization'', ''Bearer t'')], umRemove := [''Authorization'']\<rparr>))"
proof -
  have f: "oqLib (sampleOpaque up n) = sampleEndpoint up" "oqHeaders (sampleOpaque up n) = (\<lambda>_. [''Bearer t''])" "oqAuth (sampleOpaque up n) = []"
    "oqParams (sampleOpaque up n) = sampleProviders" "oeGet (oqEnv (sampleOpaque up n)) = (\<lambda>_. n)" "oePut (oqEnv (sampleOpaque up n)) = (\<lambda>_. n)"
    "oePut2 (oqEnv (sampleOpaque up n)) = (\<lambda>_. n)" "oeNow (oqEnv (sampleOpaque up n)) = n" for up n
    by (simp_all add: sampleOpaque_def)
  let ?p = "\<lparr>ipName = ''p'', ipIssuer = '''', ipMatches = Some (\<lambda>t. t = ''t''), ipURI = ''u'', ipClientID = ''c'', ipClientSecret = '''', ipAuthStyle = '''',
      ipBearerToken = '''', ipTokenTypeHint = ''access_token'', ipTls = None\<rparr>"
  have uri: "iqURI (introspectRequest token ?p) = ''u''" for token by (simp add: introspectRequest_def Let_def)
  have loop: "introspectLoop (sampleEndpoint True) i ''t'' ?p a n = Inr sampleAnswer" for i a n
    by (subst introspectLoop.simps) (simp add: doIntrospect_def uri sampleEndpoint_def sampleAnswer_def)
  have key: "introspectionCacheKey (sampleEndpoint up) ?p ''t'' = [CHR ''p'', char_of (0 :: nat), CHR ''t'']" for up
    by (simp add: introspectionCacheKey_def sampleEndpoint_def)
  have unix: "unixTime 100 = 62135596900000000000" by (simp add: unixTime_def Second_def wrap64_def)
  have ok: "resultOk (sampleEndpoint up) n (opaqueConfig sampleProviders) sampleAnswer" if "n \<in> {1, 2}" for up n
    using that by (auto simp: resultOk_def sample_opaque_config sampleAnswer_def time_Add_def unix Second_def)
  have ident: "opaque_identity (sampleEndpoint up) ''sub'' sampleAnswer ''t'' = opaque_identity (sampleEndpoint True) ''sub'' sampleAnswer ''t''" for up
    by (simp add: opaque_identity_def tokenFingerprint_def sampleEndpoint_def opaque_subject_def opaque_buildProperties_def sampleAnswer_def
      standardIntrospectionClaims_def Let_def)
  let ?e = "[([CHR ''p'', char_of (0 :: nat), CHR ''t''], \<lparr>ciResult = sampleAnswer, ciExpiresAt = 60000000001\<rparr>)]"
  have exp: "resultExpiry 1 60000000000 neg sampleAnswer = 60000000001" "rsActive sampleAnswer" for neg
    by (simp_all add: resultExpiry_def sampleAnswer_def time_Add_def unix)
  have cf: "ocHeaderName (opaqueConfig sampleProviders) = ''Authorization''" "ocScheme (opaqueConfig sampleProviders) = ''Bearer''"
    "ocTtl (opaqueConfig sampleProviders) = 60000000000" "ocRetries (opaqueConfig sampleProviders) = 2" "ocIssuers (opaqueConfig sampleProviders) = []"
    "ocForwardToken (opaqueConfig sampleProviders)" "ocUserIdClaim (opaqueConfig sampleProviders) = ''sub''"
    "ocForwardedHeader (opaqueConfig sampleProviders) = ''x-forwarded-authorization''"
    by (simp_all add: sample_opaque_config Second_def)
  have sel: "selectProviders [?p] [] = [?p]" "filterProvidersByToken [?p] ''t'' = [?p]"
    by (simp_all add: selectProviders_def filterProvidersByToken_def)
  note hook = opaque_serve_def opaque_OnRequestHeaders_def f cf getProviders_def sample_token sel Let_def
  have fetched: "firstActive aListOps (sampleEndpoint True) (oqEnv (sampleOpaque True 1)) 60000000000 neg 2 ''t'' 0 [?p] [] = (?e, Some sampleAnswer)" for neg
    by (simp add: introspect_def fetchIntrospection_def loop key exp f aListOps_def)
  have cached: "firstActive aListOps (sampleEndpoint False) (oqEnv (sampleOpaque False 2)) 60000000000 neg 2 ''t'' 0 [?p] ?e = (?e, Some sampleAnswer)" for neg
    by (simp add: introspect_def key exp f aListOps_def)
  have start: "osCache (opaque_ins aListOps) = ([] :: (string \<times> cachedIntrospection) list)" "osProviders (opaque_ins aListOps) = None"
    by (simp_all add: opaque_ins_def aListOps_def)
  have first: "fst (opaque_serve aListOps (sampleOpaque True 1) (opaque_ins aListOps)) =
      \<lparr>osCache = ?e, osProviders = Some (Ret [?p])\<rparr>"
    by (simp add: hook sample_provider start fetched del: firstActive.simps)
  show ?thesis
    unfolding first by (simp add: hook cached ok ident[of False] opaque_success_def sample_canonical del: firstActive.simps)
qed

lemma zero_not_t: "char_of (0 :: nat) \<noteq> CHR ''t''"
  by (auto dest: arg_cong [where f = "of_char :: char \<Rightarrow> nat"])

lemma sample_apart: "hashedApart [sampleOpaque False 2, sampleOpaque True 1]"
  unfolding hashedApart_def
  by (rule exI [of _ "\<lambda>s. s"]) (simp add: sampleOpaque_def sampleEndpoint_def opaque_token_def sample_opaque_config sample_token zero_not_t)

theorem opaque_auth_sound_witness:
  "\<exists>p res. serves [sampleOpaque False 2, sampleOpaque True 1] (sampleOpaque False 2) p \<and>
     introspected [sampleOpaque False 2, sampleOpaque True 1] (sampleOpaque False 2) p res \<and>
     resultOk (oqLib (sampleOpaque False 2)) (oeNow (oqEnv (sampleOpaque False 2))) (oqConfig (sampleOpaque False 2)) res \<and>
     [opaque_identity (sampleEndpoint True) ''sub'' sampleAnswer ''t''] =
     opaque_identity (oqLib (sampleOpaque False 2)) (ocUserIdClaim (oqConfig (sampleOpaque False 2))) res (opaque_token (sampleOpaque False 2)) # oqAuth (sampleOpaque False 2)"
  by (rule opaque_auth_sound[OF aListOps_laws _ sample_opaque_served sample_apart]) (intro opaque_run.intros)

section \<open>Choices of the code\<close>

text \<open>A required claim with an empty value holds of an answer without the claim.\<close>

lemma opaque_empty_claim_missing:
  assumes "map_of (rsRaw res) claim = None" "resultOk lib now (cf\<lparr>ocClaims := cs\<rparr>) res"
  shows "resultOk lib now (cf\<lparr>ocClaims := (claim, '''') # cs\<rparr>) res"
  using assms by (simp add: resultOk_def index_def opaque_claimValueToString_def)

text \<open>An inactive answer is repeated for the negative time to live, also past the expiry that it names.\<close>

lemma opaque_negative_ignores_expiry:
  "\<not> rsActive res \<Longrightarrow> 0 < neg \<Longrightarrow> resultExpiry now ttl neg res = time_Add now neg"
  by (simp add: resultExpiry_def)

end
