(* ===== verification/Cors.thy ===== *)
theory Cors
  imports LlmTranslate
begin

text \<open>
  \<^verbatim>\<open>policies/cors\<close>: cross-origin requests. Preflight requests are answered by the policy, other requests leave in the
  metadata what the response phase does to the headers. \<open>fld\<close> is the case folding of \<^verbatim>\<open>strings.EqualFold\<close>.
\<close>

section \<open>Origins\<close>

text \<open>\<^verbatim>\<open>utf8.ValidString\<close>: a regular expression that is not valid does not compile.\<close>

definition cont :: "nat \<Rightarrow> bool" where "cont b \<longleftrightarrow> 128 \<le> b \<and> b \<le> 191"

fun utf8_bytes :: "nat list \<Rightarrow> bool" where
  "utf8_bytes [] = True"
| "utf8_bytes (a # bs) =
     (if a < 128 then utf8_bytes bs
      else case bs of
        [] \<Rightarrow> False
      | b # cs \<Rightarrow>
          if 194 \<le> a \<and> a \<le> 223 then cont b \<and> utf8_bytes cs
          else case cs of
            [] \<Rightarrow> False
          | c # ds \<Rightarrow>
              if 224 \<le> a \<and> a \<le> 239 then
                cont b \<and> cont c \<and> (a = 224 \<longrightarrow> 160 \<le> b) \<and> (a = 237 \<longrightarrow> b \<le> 159) \<and> utf8_bytes ds
              else case ds of
                [] \<Rightarrow> False
              | d # es \<Rightarrow>
                  240 \<le> a \<and> a \<le> 244 \<and> cont b \<and> cont c \<and> cont d \<and> (a = 240 \<longrightarrow> 144 \<le> b) \<and> (a = 244 \<longrightarrow> b \<le> 143) \<and> utf8_bytes es)"

definition ValidString :: "string \<Rightarrow> bool" where
  "ValidString s = utf8_bytes (map of_char s)"

text \<open>\<^verbatim>\<open>strings.Cut\<close> at a separator that is not empty.\<close>

fun cutAt :: "string \<Rightarrow> string \<Rightarrow> (string \<times> string) option" where
  "cutAt sep [] = None"
| "cutAt sep (c # cs) =
     (if HasPrefix (c # cs) sep then Some ('''', drop (length sep) (c # cs))
      else map_option (\<lambda>(a, b). (c # a, b)) (cutAt sep cs))"

text \<open>The two forms of compiled expressions, anchored at both ends: a quoted text, or a scheme and a suffix around
  one or more characters that delimit nothing in a URL.\<close>

datatype origin_regex = Literal string | Subdomains string string

definition subdomainWildcardPattern :: "string \<Rightarrow> (string \<times> string) option" where
  "subdomainWildcardPattern origin =
     (case cutAt ''://*.'' origin of
        Some (scheme, suffix) \<Rightarrow> if scheme = '''' \<or> suffix = '''' then None else Some (scheme, suffix)
      | None \<Rightarrow> None)"

definition compileAllowedOrigin :: "string \<Rightarrow> origin_regex option" where
  "compileAllowedOrigin origin =
     (if \<not> ValidString origin then None
      else Some (case subdomainWildcardPattern origin of Some (scheme, suffix) \<Rightarrow> Subdomains scheme suffix | None \<Rightarrow> Literal origin))"

definition delimiters :: string where "delimiters = ''/:?#@''"

fun MatchString :: "origin_regex \<Rightarrow> string \<Rightarrow> bool" where
  "MatchString (Literal s) o' \<longleftrightarrow> o' = s"
| "MatchString (Subdomains scheme suffix) o' \<longleftrightarrow>
     (let pre = scheme @ ''://''; post = ''.'' @ suffix; mid = take (length o' - length pre - length post) (drop (length pre) o')
      in HasPrefix o' pre \<and> length pre + length post < length o' \<and> drop (length o' - length post) o' = post \<and>
         list_all (\<lambda>c. c \<notin> set delimiters) mid)"

section \<open>The policy\<close>

record CorsPolicy =
  AllowedOrigins :: "string list"
  CompiledAllowedOrigins :: "origin_regex list"
  AllowedMethods :: "string list"
  AllowedHeaders :: "string list"
  ExposedHeaders :: "string list"
  MaxAge :: "int option"
  AllowCredentials :: "bool option"
  ForwardPreflight :: bool

definition cors_getStringArrayParam :: "params \<Rightarrow> string \<Rightarrow> string list \<Rightarrow> string list" where
  "cors_getStringArrayParam m k d =
     (case as_arr (index m k) of
        Some items \<Rightarrow> (let ss = List.map_filter as_str items in if ss = [] then d else ss)
      | None \<Rightarrow> d)"

definition wildcardOr :: "string list \<Rightarrow> string list" where
  "wildcardOr ss = (if ''*'' \<in> set ss then [''*''] else ss)"

definition cors_config :: "params \<Rightarrow> CorsPolicy" where
  "cors_config m =
     \<lparr>AllowedOrigins = wildcardOr (cors_getStringArrayParam m ''allowedOrigins'' [''*'']), CompiledAllowedOrigins = [],
      AllowedMethods = cors_getStringArrayParam m ''allowedMethods'' [''GET'', ''POST'', ''PUT'', ''DELETE'', ''OPTIONS''],
      AllowedHeaders = wildcardOr (cors_getStringArrayParam m ''allowedHeaders'' []),
      ExposedHeaders = cors_getStringArrayParam m ''exposedHeaders'' [],
      MaxAge = (case index m ''maxAge'' of AInt i \<Rightarrow> Some i | AFloat x \<Rightarrow> Some (f64_to_int64 x) | _ \<Rightarrow> None),
      AllowCredentials = as_bool (index m ''allowCredentials''),
      ForwardPreflight = (as_bool (index m ''forwardPreflight'') = Some True)\<rparr>"

definition cors_GetPolicy :: "params \<Rightarrow> CorsPolicy outcome" where
  "cors_GetPolicy m =
     (let p = cors_config m; credentials = (AllowCredentials p = Some True) in
      if credentials \<and> AllowedOrigins p = [''*''] then Fail ''cannot have wildcard origin with allowCredentials set to true''
      else if credentials \<and> AllowedHeaders p = [''*''] then Fail ''cannot have wildcard headers with allowCredentials set to true''
      else if credentials \<and> AllowedMethods p = [''*''] then Fail ''cannot have wildcard methods with allowCredentials set to true''
      else if credentials \<and> ExposedHeaders p = [''*''] then Fail ''cannot have wildcard exposed headers with allowCredentials set to true''
      else case those (map compileAllowedOrigin (filter (\<lambda>s. s \<noteq> ''*'') (AllowedOrigins p))) of
        None \<Rightarrow> Fail ''invalid allowed origin''
      | Some rs \<Rightarrow> Ret (p\<lparr>CompiledAllowedOrigins := rs\<rparr>))"

definition cors_Mode :: "body_mode \<times> body_mode" where
  "cors_Mode = (BodyModeSkip, BodyModeSkip)"

definition isOriginAllowed :: "CorsPolicy \<Rightarrow> string \<Rightarrow> bool" where
  "isOriginAllowed p origin = list_ex (\<lambda>r. MatchString r origin) (CompiledAllowedOrigins p)"

section \<open>Headers\<close>

text \<open>The origin headers, \<open>None\<close> if the origin is not allowed.\<close>

definition originHeaders :: "CorsPolicy \<Rightarrow> headers \<Rightarrow> header option" where
  "originHeaders p hs =
     (case AllowedOrigins p of
        [] \<Rightarrow> None
      | a # _ \<Rightarrow>
          if a = ''*'' then Some [(''Access-Control-Allow-Origin'', ''*'')]
          else case hs ''origin'' of
            [] \<Rightarrow> None
          | origin # _ \<Rightarrow>
              if isOriginAllowed p origin then Some [(''Access-Control-Allow-Origin'', origin), (''Vary'', ''Origin'')] else None)"

definition preflightMethods :: "CorsPolicy \<Rightarrow> headers \<Rightarrow> header option" where
  "preflightMethods p hs =
     (case AllowedMethods p of
        [] \<Rightarrow> None
      | a # _ \<Rightarrow>
          if a = ''*'' then Some [(''Access-Control-Allow-Methods'', ''*'')]
          else case hs ''access-control-request-method'' of
            [] \<Rightarrow> None
          | r # _ \<Rightarrow> if r \<in> set (AllowedMethods p) then Some [(''Access-Control-Allow-Methods'', join '','' (AllowedMethods p))] else None)"

text \<open>Every pair of an allowed and a requested header that agree.\<close>

definition checkedHeaders :: "(string \<Rightarrow> string) \<Rightarrow> string list \<Rightarrow> string list \<Rightarrow> string list" where
  "checkedHeaders fld allowed requested =
     concat (map (\<lambda>a. map (\<lambda>_. a) (filter (\<lambda>r. fld (TrimSpace a) = fld (TrimSpace r)) requested)) allowed)"

definition preflightHeaders :: "(string \<Rightarrow> string) \<Rightarrow> CorsPolicy \<Rightarrow> headers \<Rightarrow> header option" where
  "preflightHeaders fld p hs =
     (let requested = hs ''access-control-request-headers'' in
      case (AllowedHeaders p, requested) of
        ([], []) \<Rightarrow> Some []
      | ([], _) \<Rightarrow> None
      | (a # _, []) \<Rightarrow> Some []
      | (a # _, r # _) \<Rightarrow>
          if a = ''*'' then Some [(''Access-Control-Allow-Headers'', r)]
          else let rs = split_on (CHR '','') r; checked = checkedHeaders fld (AllowedHeaders p) rs
               in if length rs = length checked then Some [(''Access-Control-Allow-Headers'', join '','' checked)] else None)"

definition credentialsHeader :: "CorsPolicy \<Rightarrow> header" where
  "credentialsHeader p =
     (case AllowCredentials p of Some b \<Rightarrow> [(''Access-Control-Allow-Credentials'', if b then ''true'' else ''false'')] | None \<Rightarrow> [])"

definition handlePreflightHeaders :: "(string \<Rightarrow> string) \<Rightarrow> CorsPolicy \<Rightarrow> headers \<Rightarrow> up_mods hook_action" where
  "handlePreflightHeaders fld p hs =
     (case (originHeaders p hs, preflightMethods p hs, preflightHeaders fld p hs) of
        (Some a, Some b, Some c) \<Rightarrow>
          Reply \<lparr>irStatus = 204,
            irHeaders = a @ b @ c @ (case MaxAge p of Some n \<Rightarrow> [(''Access-Control-Max-Age'', itoa n)] | None \<Rightarrow> []) @ credentialsHeader p, irBody = ''''\<rparr>
      | _ \<Rightarrow> if ForwardPreflight p then Modify noUpMods else Reply \<lparr>irStatus = 204, irHeaders = [], irBody = ''''\<rparr>)"

definition handleNonPreflightHeaders :: "CorsPolicy \<Rightarrow> headers \<Rightarrow> header option" where
  "handleNonPreflightHeaders p hs =
     map_option (\<lambda>a. a @ (if ExposedHeaders p \<noteq> [] then [(''Access-Control-Expose-Headers'', join '','' (ExposedHeaders p))] else []) @ credentialsHeader p)
       (originHeaders p hs)"

section \<open>The hooks\<close>

text \<open>The two entries of the metadata.\<close>

record cors_meta =
  cors_headers :: "header option"
  cors_strip :: bool

definition cors_OnRequestHeaders :: "(string \<Rightarrow> string) \<Rightarrow> CorsPolicy \<Rightarrow> string \<Rightarrow> headers \<Rightarrow> cors_meta \<Rightarrow> cors_meta \<times> up_mods hook_action" where
  "cors_OnRequestHeaders fld p httpMethod hs md =
     (if EqualFold httpMethod ''options'' then (md, handlePreflightHeaders fld p hs)
      else (case handleNonPreflightHeaders p hs of
              Some h \<Rightarrow> md\<lparr>cors_headers := Some h\<rparr>
            | None \<Rightarrow> if hs ''origin'' \<noteq> [] then md\<lparr>cors_strip := True\<rparr> else md, Modify noUpMods))"

definition cors_OnResponseHeaders :: "cors_meta \<Rightarrow> down_mods" where
  "cors_OnResponseHeaders md =
     (case cors_headers md of
        Some h \<Rightarrow> noDownMods\<lparr>dmSet := h\<rparr>
      | None \<Rightarrow>
          if cors_strip md then
            noDownMods\<lparr>dmRemove := [''Access-Control-Allow-Origin'', ''Access-Control-Allow-Credentials'', ''Access-Control-Expose-Headers'']\<rparr>
          else noDownMods)"

section \<open>Origins that are allowed\<close>

text \<open>A configured origin covers itself, and with a wildcard the subdomains of any depth, on the same scheme and port.\<close>

definition covers :: "string \<Rightarrow> string \<Rightarrow> bool" where
  "covers c v \<longleftrightarrow> v = c \<or>
     (\<exists>scheme sub suffix. c = scheme @ ''://*.'' @ suffix \<and> v = scheme @ ''://'' @ sub @ ''.'' @ suffix \<and> sub \<noteq> '''' \<and> set sub \<inter> set delimiters = {})"

lemma HasPrefix_append: "HasPrefix s p \<Longrightarrow> s = p @ drop (length p) s"
  unfolding HasPrefix_def by (metis append_take_drop_id)

lemma cutAt_append: "cutAt sep s = Some (a, b) \<Longrightarrow> s = a @ sep @ b"
  by (induction s arbitrary: a b) (auto split: if_splits dest: HasPrefix_append)

lemma Subdomains_covers:
  assumes "MatchString (Subdomains scheme suffix) v"
  shows "\<exists>sub. v = scheme @ ''://'' @ sub @ ''.'' @ suffix \<and> sub \<noteq> '''' \<and> set sub \<inter> set delimiters = {}"
proof -
  define pre post where "pre = scheme @ ''://''" "post = ''.'' @ suffix"
  define sub where "sub = take (length v - length pre - length post) (drop (length pre) v)"
  from assms have m: "HasPrefix v pre" "length pre + length post < length v" "drop (length v - length post) v = post"
    "list_all (\<lambda>c. c \<notin> set delimiters) sub"
    by (auto simp: pre_post_def sub_def Let_def)
  have "drop (length pre) v = sub @ post"
    using m(2,3) append_take_drop_id[of "length v - length pre - length post" "drop (length pre) v"] by (simp add: sub_def)
  with HasPrefix_append[OF m(1)] have "v = pre @ sub @ post" by simp
  moreover from this m(2) have "sub \<noteq> ''''" by auto
  ultimately show ?thesis using m(4) unfolding pre_post_def by (auto simp: list_all_iff)
qed

lemma compiled_covers:
  assumes "compileAllowedOrigin c = Some r" "MatchString r v"
  shows "covers c v"
proof (cases "subdomainWildcardPattern c")
  case None
  with assms show ?thesis by (auto simp: compileAllowedOrigin_def covers_def split: if_splits)
next
  case (Some sp)
  obtain scheme suffix where sp: "sp = (scheme, suffix)" by fastforce
  with Some assms(1) have "r = Subdomains scheme suffix" by (auto simp: compileAllowedOrigin_def split: if_splits)
  moreover have "c = scheme @ ''://*.'' @ suffix"
    using Some sp by (auto simp: subdomainWildcardPattern_def dest!: cutAt_append split: option.splits if_splits)
  ultimately show ?thesis using Subdomains_covers assms(2) unfolding covers_def by blast
qed

section \<open>What is granted\<close>

text \<open>The headers a client gets for a request: in the answer to a preflight request, or set on the response.\<close>

definition cors_grants :: "(string \<Rightarrow> string) \<Rightarrow> CorsPolicy \<Rightarrow> string \<Rightarrow> headers \<Rightarrow> header" where
  "cors_grants fld p httpMethod hs =
     (case cors_OnRequestHeaders fld p httpMethod hs \<lparr>cors_headers = None, cors_strip = False\<rparr> of
        (md, Reply r) \<Rightarrow> irHeaders r
      | (md, Modify _) \<Rightarrow> dmSet (cors_OnResponseHeaders md))"

lemma GetPolicy_origins:
  assumes "cors_GetPolicy m = Ret p"
  shows "AllowedOrigins p = AllowedOrigins (cors_config m)" "AllowedMethods p = AllowedMethods (cors_config m)"
    "AllowedHeaders p = AllowedHeaders (cors_config m)" "AllowCredentials p = AllowCredentials (cors_config m)"
    "AllowCredentials p = Some True \<Longrightarrow> AllowedOrigins p \<noteq> [''*'']"
    "isOriginAllowed p v \<Longrightarrow> \<exists>c \<in> set (AllowedOrigins p). c \<noteq> ''*'' \<and> covers c v"
proof -
  from assms obtain rs where p: "p = (cors_config m)\<lparr>CompiledAllowedOrigins := rs\<rparr>"
    and rs: "those (map compileAllowedOrigin (filter (\<lambda>s. s \<noteq> ''*'') (AllowedOrigins (cors_config m)))) = Some rs"
    and cred: "AllowCredentials (cors_config m) = Some True \<Longrightarrow> AllowedOrigins (cors_config m) \<noteq> [''*'']"
    by (auto simp: cors_GetPolicy_def Let_def split: if_splits option.splits)
  show "AllowedOrigins p = AllowedOrigins (cors_config m)" "AllowedMethods p = AllowedMethods (cors_config m)"
    "AllowedHeaders p = AllowedHeaders (cors_config m)" "AllowCredentials p = AllowCredentials (cors_config m)"
    by (simp_all add: p)
  show "AllowCredentials p = Some True \<Longrightarrow> AllowedOrigins p \<noteq> [''*'']" using cred by (simp add: p)
  have "those (map f xs) = Some ys \<Longrightarrow> y \<in> set ys \<Longrightarrow> \<exists>x \<in> set xs. f x = Some y" for f :: "string \<Rightarrow> origin_regex option" and xs ys y
    by (induction xs arbitrary: ys) (auto split: option.splits)
  from this[OF rs] show "isOriginAllowed p v \<Longrightarrow> \<exists>c \<in> set (AllowedOrigins p). c \<noteq> ''*'' \<and> covers c v"
    using compiled_covers by (fastforce simp: isOriginAllowed_def list_ex_iff p)
qed

lemma originHeaders_sound:
  assumes "cors_GetPolicy m = Ret p" "originHeaders p hs = Some h"
  shows "h = [(''Access-Control-Allow-Origin'', ''*'')] \<and> AllowedOrigins p = [''*''] \<or>
    (\<exists>v rest c. h = [(''Access-Control-Allow-Origin'', v), (''Vary'', ''Origin'')] \<and> hs ''origin'' = v # rest \<and> c \<in> set (AllowedOrigins p) \<and> c \<noteq> ''*'' \<and> covers c v)"
proof -
  have "AllowedOrigins p = [''*''] \<or> ''*'' \<notin> set (AllowedOrigins p)"
    unfolding GetPolicy_origins(1)[OF assms(1)] by (auto simp: cors_config_def wildcardOr_def)
  then show ?thesis
    using assms(2) GetPolicy_origins(6)[OF assms(1)] by (fastforce simp: originHeaders_def split: list.splits if_splits)
qed


definition corsParams :: params where
  "corsParams = [(''allowedOrigins'', AArr [AStr ''https://*.example.com'', AStr ''http://a.org'']), (''allowCredentials'', ABool True),
     (''allowedHeaders'', AArr [AStr ''X-A'', AStr ''X-B''])]"

definition corsSample :: CorsPolicy where
  "corsSample = (cors_config corsParams)\<lparr>CompiledAllowedOrigins := [Subdomains ''https'' ''example.com'', Literal ''http://a.org'']\<rparr>"

lemma corsSample_policy: "cors_GetPolicy corsParams = Ret corsSample"
  by code_simp

definition subdomainRequest :: headers where
  "subdomainRequest n = (if n = ''origin'' then [''https://x.y.example.com''] else [])"


section \<open>Requested headers\<close>

lemma checkedHeaders_length:
  "length (checkedHeaders fld allowed requested) = sum_list (map (\<lambda>r. length (filter (\<lambda>a. fld (TrimSpace a) = fld (TrimSpace r)) allowed)) requested)"
proof (induction allowed)
  case (Cons a allowed)
  have "length (filter (\<lambda>r. fld (TrimSpace a) = fld (TrimSpace r)) requested) +
      sum_list (map (\<lambda>r. length (filter (\<lambda>a. fld (TrimSpace a) = fld (TrimSpace r)) allowed)) requested) =
      sum_list (map (\<lambda>r. length (filter (\<lambda>a. fld (TrimSpace a) = fld (TrimSpace r)) (a # allowed))) requested)"
    by (induction requested) auto
  with Cons show ?case by (simp add: checkedHeaders_def)
qed (simp add: checkedHeaders_def)

lemma counts_le:
  fixes f :: "'a \<Rightarrow> nat"
  shows "(\<And>x. x \<in> set xs \<Longrightarrow> f x \<le> 1) \<Longrightarrow> sum_list (map f xs) \<le> length xs"
proof (induction xs)
  case (Cons y ys)
  then have "sum_list (map f ys) \<le> length ys" "f y \<le> 1" by auto
  then show ?case by simp
qed simp

lemma counts_all:
  fixes f :: "'a \<Rightarrow> nat"
  shows "(\<And>x. x \<in> set xs \<Longrightarrow> f x \<le> 1) \<Longrightarrow> sum_list (map f xs) = length xs \<Longrightarrow> x \<in> set xs \<Longrightarrow> f x = 1"
proof (induction xs)
  case (Cons y ys)
  have le: "f y \<le> 1" "sum_list (map f ys) \<le> length ys" using Cons.prems(1) by (auto intro: counts_le)
  then have "f y = 1" "sum_list (map f ys) = length ys" using Cons.prems(2) by auto
  with Cons show ?case by auto
qed simp

lemma filter_one: "distinct (map (fld \<circ> TrimSpace) as) \<Longrightarrow> length (filter (\<lambda>a. fld (TrimSpace a) = k) as) \<le> 1"
proof (induction as)
  case (Cons a as)
  show ?case
  proof (cases "fld (TrimSpace a) = k")
    case True
    with Cons.prems have "filter (\<lambda>a. fld (TrimSpace a) = k) as = []" unfolding filter_empty_conv by (metis comp_apply distinct.simps(2) image_eqI list.set_map list.simps(9))
    with True show ?thesis by simp
  qed (use Cons in auto)
qed simp


definition preflightRequest :: headers where
  "preflightRequest n = (if n = ''origin'' then [''http://a.org''] else if n = ''access-control-request-method'' then [''PUT'']
     else if n = ''access-control-request-headers'' then [''x-b, X-A''] else [])"


text \<open>With a header configured twice, one that is not configured goes unnoticed.\<close>

lemma cors_headers_counted_twice:
  "preflightHeaders ToLower (corsSample\<lparr>AllowedHeaders := [''X-A'', ''x-a'']\<rparr>)
     (\<lambda>n. if n = ''access-control-request-headers'' then [''X-A,X-Evil''] else []) \<noteq> None"
  by code_simp

text \<open>A wildcard that is not the only configured method escapes the check against credentials.\<close>

lemma cors_wildcard_methods_with_credentials:
  "\<exists>p. cors_GetPolicy ((''allowedMethods'', AArr [AStr ''*'', AStr ''GET'']) # corsParams) = Ret p \<and> AllowCredentials p = Some True \<and>
     preflightMethods p (\<lambda>_. []) = Some [(''Access-Control-Allow-Methods'', ''*'')]"
proof -
  let ?p = "corsSample\<lparr>AllowedMethods := [''*'', ''GET'']\<rparr>"
  have "cors_GetPolicy ((''allowedMethods'', AArr [AStr ''*'', AStr ''GET'']) # corsParams) = Ret ?p" "AllowCredentials ?p = Some True"
    "preflightMethods ?p (\<lambda>_. []) = Some [(''Access-Control-Allow-Methods'', ''*'')]" by code_simp+
  then show ?thesis by blast
qed

end
