(* ===== verification/EmbeddingCache.thy ===== *)
theory EmbeddingCache
  imports GoValue "HOL-Library.AList"
begin

text \<open>
  \<^verbatim>\<open>policies/semantic-tool-filtering/embeddingcache.go\<close>: the cache of embeddings, by API and by the hash of a tool's
  description, with eviction of what was least recently used on both levels. Each operation holds one lock and is a
  step. \<open>emb_env\<close> has the readings of the clock, in their order, and the orders of iteration over the two kinds of maps.
\<close>

section \<open>Data\<close>

record EmbeddingEntry =
  eeName :: string
  eeEmbedding :: "f64 list"
  eeAccessed :: instant

type_synonym tool_map = "(string, EmbeddingEntry) gomap"

record APICache =
  acTools :: tool_map
  acAccessed :: instant

record EmbeddingCacheStore =
  ecsCache :: "(string, APICache) gomap"
  ecsMaxAPIs :: int
  ecsMaxTools :: int

record emb_env =
  eClock :: "nat \<Rightarrow> instant"
  eAPIs :: "(string \<times> APICache) list \<Rightarrow> (string \<times> APICache) list"
  eTools :: "(string \<times> EmbeddingEntry) list \<Rightarrow> (string \<times> EmbeddingEntry) list"

definition DefaultMaxAPIs :: int where "DefaultMaxAPIs = 25"
definition DefaultMaxToolsPerAPI :: int where "DefaultMaxToolsPerAPI = 200"

definition emb_init :: EmbeddingCacheStore where
  "emb_init = \<lparr>ecsCache = [], ecsMaxAPIs = DefaultMaxAPIs, ecsMaxTools = DefaultMaxToolsPerAPI\<rparr>"

definition SetCacheLimits :: "int \<Rightarrow> int \<Rightarrow> EmbeddingCacheStore \<Rightarrow> EmbeddingCacheStore" where
  "SetCacheLimits maxAPIs maxTools s =
     (let s = (if 0 < maxAPIs then s\<lparr>ecsMaxAPIs := maxAPIs\<rparr> else s) in if 0 < maxTools then s\<lparr>ecsMaxTools := maxTools\<rparr> else s)"

definition GetCacheLimits :: "EmbeddingCacheStore \<Rightarrow> int \<times> int" where
  "GetCacheLimits s = (ecsMaxAPIs s, ecsMaxTools s)"

section \<open>Eviction\<close>

text \<open>The first of the keys, in the order of iteration, with the least time; the empty text if there is none.\<close>

fun oldest :: "(string \<times> instant) option \<Rightarrow> (string \<times> instant) list \<Rightarrow> string" where
  "oldest best [] = (case best of Some (k, _) \<Rightarrow> k | None \<Rightarrow> '''')"
| "oldest None (x # xs) = oldest (Some x) xs"
| "oldest (Some b) (x # xs) = oldest (Some (if snd x < snd b then x else b)) xs"

definition findLRUAPI :: "emb_env \<Rightarrow> EmbeddingCacheStore \<Rightarrow> string" where
  "findLRUAPI e s = oldest None (map (\<lambda>(k, a). (k, acAccessed a)) (eAPIs e (ecsCache s)))"

definition findLRUTool :: "emb_env \<Rightarrow> tool_map \<Rightarrow> string" where
  "findLRUTool e ts = oldest None (map (\<lambda>(k, t). (k, eeAccessed t)) (eTools e ts))"

definition evictLRUAPIIfNeeded :: "emb_env \<Rightarrow> EmbeddingCacheStore \<Rightarrow> EmbeddingCacheStore" where
  "evictLRUAPIIfNeeded e s =
     (if ecsMaxAPIs s \<le> int (length (ecsCache s)) then
        (let k = findLRUAPI e s in if k \<noteq> '''' then s\<lparr>ecsCache := AList.delete k (ecsCache s)\<rparr> else s)
      else s)"

definition evictLRUToolIfNeeded :: "emb_env \<Rightarrow> int \<Rightarrow> tool_map \<Rightarrow> tool_map" where
  "evictLRUToolIfNeeded e maxTools ts =
     (if maxTools \<le> int (length ts) then (let k = findLRUTool e ts in if k \<noteq> '''' then AList.delete k ts else ts) else ts)"

section \<open>Operations\<close>

definition HasAPI :: "string \<Rightarrow> EmbeddingCacheStore \<Rightarrow> bool" where
  "HasAPI apiId s = (map_of (ecsCache s) apiId \<noteq> None)"

definition setAPI :: "string \<Rightarrow> APICache \<Rightarrow> EmbeddingCacheStore \<Rightarrow> EmbeddingCacheStore" where
  "setAPI apiId a s = s\<lparr>ecsCache := AList.update apiId a (ecsCache s)\<rparr>"

definition GetAPICache :: "emb_env \<Rightarrow> string \<Rightarrow> EmbeddingCacheStore \<Rightarrow> EmbeddingCacheStore \<times> tool_map option" where
  "GetAPICache e apiId s =
     (case map_of (ecsCache s) apiId of
        Some a \<Rightarrow> (setAPI apiId (a\<lparr>acAccessed := eClock e 0\<rparr>) s, Some (acTools a))
      | None \<Rightarrow> (s, None))"

definition AddAPICache :: "emb_env \<Rightarrow> string \<Rightarrow> EmbeddingCacheStore \<Rightarrow> EmbeddingCacheStore" where
  "AddAPICache e apiId s =
     (if map_of (ecsCache s) apiId = None then setAPI apiId \<lparr>acTools = [], acAccessed = eClock e 0\<rparr> (evictLRUAPIIfNeeded e s) else s)"

definition GetEntry :: "emb_env \<Rightarrow> string \<Rightarrow> string \<Rightarrow> EmbeddingCacheStore \<Rightarrow> EmbeddingCacheStore \<times> EmbeddingEntry option" where
  "GetEntry e apiId hashKey s =
     (case map_of (ecsCache s) apiId of
        None \<Rightarrow> (s, None)
      | Some a \<Rightarrow>
          (case map_of (acTools a) hashKey of
             None \<Rightarrow> (s, None)
           | Some t \<Rightarrow>
               (let t = t\<lparr>eeAccessed := eClock e 1\<rparr>
                in (setAPI apiId \<lparr>acTools = AList.update hashKey t (acTools a), acAccessed = eClock e 0\<rparr> s, Some t))))"

text \<open>The first entry with a name, in the order of iteration, goes.\<close>

definition dropNamed :: "emb_env \<Rightarrow> string \<Rightarrow> tool_map \<Rightarrow> tool_map" where
  "dropNamed e name ts =
     (case filter (\<lambda>(_, t). eeName t = name) (eTools e ts) of
        [] \<Rightarrow> ts
      | (k, _) # _ \<Rightarrow> AList.delete k ts)"

definition addTool :: "emb_env \<Rightarrow> int \<Rightarrow> string \<Rightarrow> EmbeddingEntry \<Rightarrow> tool_map \<Rightarrow> tool_map" where
  "addTool e maxTools hashKey entry ts =
     (let ts = dropNamed e (eeName entry) ts;
          ts = (if map_of ts hashKey = None then evictLRUToolIfNeeded e maxTools ts else ts)
      in AList.update hashKey entry ts)"

definition ensureAPI :: "emb_env \<Rightarrow> string \<Rightarrow> EmbeddingCacheStore \<Rightarrow> EmbeddingCacheStore" where
  "ensureAPI e apiId s = AddAPICache e apiId s"

definition toolsOf :: "string \<Rightarrow> EmbeddingCacheStore \<Rightarrow> tool_map" where
  "toolsOf apiId s = (case map_of (ecsCache s) apiId of Some a \<Rightarrow> acTools a | None \<Rightarrow> [])"

definition AddEntry :: "emb_env \<Rightarrow> string \<Rightarrow> string \<Rightarrow> string \<Rightarrow> f64 list \<Rightarrow> EmbeddingCacheStore \<Rightarrow> EmbeddingCacheStore" where
  "AddEntry e apiId hashKey name embedding s =
     (let s = ensureAPI e apiId s
      in setAPI apiId \<lparr>acTools = addTool e (ecsMaxTools s) hashKey \<lparr>eeName = name, eeEmbedding = embedding, eeAccessed = eClock e 2\<rparr> (toolsOf apiId s),
           acAccessed = eClock e 1\<rparr> s)"

record ToolEntry =
  teHashKey :: string
  teName :: string
  teEmbedding :: "f64 list"

record BulkAddResult =
  brAdded :: "string list"
  brSkipped :: "string list"
  brCached :: "string list"

text \<open>The first loop: tools that are there are updated, the others are collected. \<open>n\<close> counts readings of the clock.\<close>

fun bulkSort :: "emb_env \<Rightarrow> nat \<Rightarrow> ToolEntry list \<Rightarrow> tool_map \<Rightarrow> nat \<times> tool_map \<times> string list \<times> ToolEntry list" where
  "bulkSort e n [] ts = (n, ts, [], [])"
| "bulkSort e n (t # tools) ts =
     (case map_of ts (teHashKey t) of
        Some x \<Rightarrow>
          (case bulkSort e (Suc n) tools (AList.update (teHashKey t) (x\<lparr>eeAccessed := eClock e n, eeEmbedding := teEmbedding t\<rparr>) ts) of
             (n, ts, cached, new) \<Rightarrow> (n, ts, teName t # cached, new))
      | None \<Rightarrow>
          (case bulkSort e n tools (dropNamed e (teName t) ts) of
             (n, ts, cached, new) \<Rightarrow> (n, ts, cached, t # new)))"

fun bulkInsert :: "emb_env \<Rightarrow> nat \<Rightarrow> ToolEntry list \<Rightarrow> tool_map \<Rightarrow> tool_map" where
  "bulkInsert e n [] ts = ts"
| "bulkInsert e n (t # tools) ts =
     bulkInsert e (Suc n) tools (AList.update (teHashKey t) \<lparr>eeName = teName t, eeEmbedding = teEmbedding t, eeAccessed = eClock e n\<rparr> ts)"

definition BulkAddTools :: "emb_env \<Rightarrow> string \<Rightarrow> ToolEntry list \<Rightarrow> EmbeddingCacheStore \<Rightarrow> EmbeddingCacheStore \<times> BulkAddResult" where
  "BulkAddTools e apiId tools s =
     (if tools = [] then (s, \<lparr>brAdded = [], brSkipped = [], brCached = []\<rparr>)
      else
        let s = ensureAPI e apiId s;
            (n, ts, cached, new) = bulkSort e 2 tools (toolsOf apiId s);
            slots = nat (ecsMaxTools s - int (length ts));
            ts = bulkInsert e n (take slots new) ts
        in (setAPI apiId \<lparr>acTools = ts, acAccessed = eClock e 1\<rparr> s,
            \<lparr>brAdded = map teName (take slots new), brSkipped = map teName (drop slots new), brCached = cached\<rparr>))"

definition RemoveAPI :: "string \<Rightarrow> EmbeddingCacheStore \<Rightarrow> EmbeddingCacheStore" where
  "RemoveAPI apiId s = s\<lparr>ecsCache := AList.delete apiId (ecsCache s)\<rparr>"

definition ClearAll :: "EmbeddingCacheStore \<Rightarrow> EmbeddingCacheStore" where
  "ClearAll s = s\<lparr>ecsCache := []\<rparr>"

definition GetCacheStats :: "EmbeddingCacheStore \<Rightarrow> nat \<times> nat" where
  "GetCacheStats s = (length (ecsCache s), sum_list (map (length \<circ> acTools \<circ> snd) (ecsCache s)))"

section \<open>Runs\<close>

datatype emb_op =
    SetLimits int int
  | Get emb_env string
  | AddAPI emb_env string
  | GetE emb_env string string
  | AddE emb_env string string string "f64 list"
  | Bulk emb_env string "ToolEntry list"
  | Remove string
  | Clear

fun emb_run :: "emb_op \<Rightarrow> EmbeddingCacheStore \<Rightarrow> EmbeddingCacheStore" where
  "emb_run (SetLimits a t) s = SetCacheLimits a t s"
| "emb_run (Get e a) s = fst (GetAPICache e a s)"
| "emb_run (AddAPI e a) s = AddAPICache e a s"
| "emb_run (GetE e a k) s = fst (GetEntry e a k s)"
| "emb_run (AddE e a k n v) s = AddEntry e a k n v s"
| "emb_run (Bulk e a ts) s = fst (BulkAddTools e a ts s)"
| "emb_run (Remove a) s = RemoveAPI a s"
| "emb_run Clear s = ClearAll s"

text \<open>Iteration reorders; identifiers and hashes are not empty.\<close>

definition reorders :: "emb_env \<Rightarrow> bool" where
  "reorders e \<longleftrightarrow> (\<forall>xs. set (eAPIs e xs) = set xs) \<and> (\<forall>xs. set (eTools e xs) = set xs)"

fun op_ok :: "emb_op \<Rightarrow> bool" where
  "op_ok (AddAPI e a) \<longleftrightarrow> reorders e \<and> a \<noteq> ''''"
| "op_ok (AddE e a k n v) \<longleftrightarrow> reorders e \<and> a \<noteq> '''' \<and> k \<noteq> ''''"
| "op_ok (Bulk e a ts) \<longleftrightarrow> reorders e \<and> a \<noteq> '''' \<and> (\<forall>t \<in> set ts. teHashKey t \<noteq> '''')"
| "op_ok _ \<longleftrightarrow> True"

text \<open>The greatest limits so far.\<close>

fun peak :: "int \<times> int \<Rightarrow> emb_op \<Rightarrow> int \<times> int" where
  "peak (a, t) (SetLimits x y) = (max a x, max t y)"
| "peak p _ = p"

definition tools_ok :: "int \<Rightarrow> tool_map \<Rightarrow> bool" where
  "tools_ok n ts \<longleftrightarrow> distinct (map fst ts) \<and> '''' \<notin> fst ` set ts \<and> int (length ts) \<le> n"

definition store_ok :: "int \<times> int \<Rightarrow> EmbeddingCacheStore \<Rightarrow> bool" where
  "store_ok p s \<longleftrightarrow> distinct (map fst (ecsCache s)) \<and> '''' \<notin> fst ` set (ecsCache s) \<and> int (length (ecsCache s)) \<le> fst p \<and>
     (\<forall>a \<in> snd ` set (ecsCache s). tools_ok (snd p) (acTools a)) \<and>
     0 < ecsMaxAPIs s \<and> ecsMaxAPIs s \<le> fst p \<and> 0 < ecsMaxTools s \<and> ecsMaxTools s \<le> snd p"

lemma oldest_member: "oldest best xs \<in> fst ` (set xs \<union> set_option best) \<or> xs = [] \<and> best = None"
  by (induction best xs rule: oldest.induct) (auto split: option.splits if_splits)

lemma delete_length: "k \<in> fst ` set xs \<Longrightarrow> length (AList.delete k xs) < length xs"
  unfolding AList.delete_eq by (metis (mono_tags, lifting) case_prod_unfold imageE length_filter_less)

lemma delete_le: "length (AList.delete k xs) \<le> length xs"
  by (simp add: AList.delete_eq)

lemma update_length: "length (AList.update k v xs) = (if k \<in> fst ` set xs then length xs else Suc (length xs))"
  by (induction xs) auto

lemma update_values: "snd ` set (AList.update k v xs) \<subseteq> insert v (snd ` set xs)"
  by (induction xs) auto

lemma update_keys: "fst ` set (AList.update k v xs) = insert k (fst ` set xs)"
  by (induction xs) auto

lemma delete_values: "snd ` set (AList.delete k xs) \<subseteq> snd ` set xs" "fst ` set (AList.delete k xs) = fst ` set xs - {k}"
  by (auto simp: AList.delete_eq image_iff)

lemma distinct_delete [simp]: "distinct (map fst xs) \<Longrightarrow> distinct (map fst (AList.delete k xs))"
  by (simp add: AList.delete_eq distinct_map_filter)

section \<open>Bounds\<close>

lemma oldest_of_map:
  assumes "set (perm xs) = set xs" "xs \<noteq> []"
  shows "oldest None (map (\<lambda>(k, v). (k, f v)) (perm xs)) \<in> fst ` set xs"
proof -
  have "perm xs \<noteq> []" using assms by (metis set_empty)
  then have "oldest None (map (\<lambda>(k, v). (k, f v)) (perm xs)) \<in> fst ` set (map (\<lambda>(k, v). (k, f v)) (perm xs))"
    using oldest_member[of None "map (\<lambda>(k, v). (k, f v)) (perm xs)"] by auto
  also have "\<dots> = fst ` set xs" unfolding set_map assms(1) by force
  finally show ?thesis .
qed

lemma findLRUAPI_member: "reorders e \<Longrightarrow> ecsCache s \<noteq> [] \<Longrightarrow> findLRUAPI e s \<in> fst ` set (ecsCache s)"
  unfolding findLRUAPI_def by (rule oldest_of_map) (auto simp: reorders_def)

lemma findLRUTool_member: "reorders e \<Longrightarrow> ts \<noteq> [] \<Longrightarrow> findLRUTool e ts \<in> fst ` set ts"
  unfolding findLRUTool_def by (rule oldest_of_map) (auto simp: reorders_def)

lemma setAPI_ok:
  assumes "store_ok p s" "tools_ok (snd p) (acTools a)" "k \<noteq> ''''" "k \<in> fst ` set (ecsCache s) \<or> int (length (ecsCache s)) < fst p"
  shows "store_ok p (setAPI k a s)"
proof -
  let ?c = "AList.update k a (ecsCache s)"
  have "\<forall>a \<in> snd ` set ?c. tools_ok (snd p) (acTools a)"
    using update_values[of k a "ecsCache s"] assms(1,2) unfolding store_ok_def by blast
  moreover have "int (length ?c) \<le> fst p" using assms(1,4) by (auto simp: store_ok_def update_length)
  moreover have "distinct (map fst ?c)" "'''' \<notin> fst ` set ?c" using assms(1,3) by (simp_all add: store_ok_def distinct_update update_keys)
  ultimately show ?thesis using assms(1) by (simp add: store_ok_def setAPI_def)
qed

text \<open>After an eviction there is room.\<close>

lemma evictAPI_ok:
  assumes ok: "store_ok p s" and "reorders e"
  shows "store_ok p (evictLRUAPIIfNeeded e s) \<and> int (length (ecsCache (evictLRUAPIIfNeeded e s))) < fst p"
proof (cases "ecsMaxAPIs s \<le> int (length (ecsCache s))")
  case False
  with ok show ?thesis by (simp add: evictLRUAPIIfNeeded_def store_ok_def)
next
  case True
  let ?k = "findLRUAPI e s"
  let ?c = "AList.delete ?k (ecsCache s)"
  have "ecsCache s \<noteq> []" using True ok by (auto simp: store_ok_def)
  from findLRUAPI_member[OF assms(2) this] have k: "?k \<in> fst ` set (ecsCache s)" .
  with ok have ne: "?k \<noteq> ''''" unfolding store_ok_def by metis
  have len: "int (length ?c) < fst p" using delete_length[OF k] ok by (simp add: store_ok_def)
  have "\<forall>a \<in> snd ` set ?c. tools_ok (snd p) (acTools a)" using delete_values(1)[of ?k "ecsCache s"] ok unfolding store_ok_def by blast
  moreover have "distinct (map fst ?c)" "'''' \<notin> fst ` set ?c" using ok delete_values(2)[of ?k "ecsCache s"] by (auto simp: store_ok_def)
  ultimately have "store_ok p (s\<lparr>ecsCache := ?c\<rparr>)" using ok len by (simp add: store_ok_def)
  with True ne len show ?thesis by (simp add: evictLRUAPIIfNeeded_def Let_def)
qed

lemma AddAPICache_ok: "store_ok p s \<Longrightarrow> reorders e \<Longrightarrow> k \<noteq> '''' \<Longrightarrow> store_ok p (AddAPICache e k s)"
proof -
  assume ok: "store_ok p s" "reorders e" "k \<noteq> ''''"
  have "tools_ok (snd p) []" using ok(1) by (simp add: tools_ok_def store_ok_def)
  with ok evictAPI_ok[OF ok(1,2)] show ?thesis unfolding AddAPICache_def by (auto intro!: setAPI_ok)
qed

lemma AddAPICache_has: "map_of (ecsCache (AddAPICache e k s)) k \<noteq> None"
  by (simp add: AddAPICache_def setAPI_def update_conv)

lemma toolsOf_ok: "store_ok p s \<Longrightarrow> tools_ok (snd p) (toolsOf k s)"
  by (force simp: toolsOf_def store_ok_def tools_ok_def split: option.splits dest: map_of_SomeD)

lemma delete_tools_ok: "tools_ok n ts \<Longrightarrow> tools_ok n (AList.delete k ts)"
  using delete_values(2)[of k ts] delete_le[of k ts] by (auto simp: tools_ok_def)

lemma dropNamed_ok: "tools_ok n ts \<Longrightarrow> tools_ok n (dropNamed e name ts)" "length (dropNamed e name ts) \<le> length ts"
  by (auto simp: dropNamed_def delete_tools_ok delete_le split: list.splits)

lemma evictTool_ok:
  assumes "tools_ok n ts" "reorders e" "0 < m" "m \<le> n"
  shows "tools_ok n (evictLRUToolIfNeeded e m ts) \<and> int (length (evictLRUToolIfNeeded e m ts)) < n"
proof (cases "m \<le> int (length ts)")
  case False
  with assms show ?thesis by (simp add: evictLRUToolIfNeeded_def)
next
  case True
  let ?k = "findLRUTool e ts"
  have "ts \<noteq> []" using True assms(3) by auto
  from findLRUTool_member[OF assms(2) this] have k: "?k \<in> fst ` set ts" .
  with assms(1) have "?k \<noteq> ''''" unfolding tools_ok_def by metis
  with True delete_tools_ok[OF assms(1), of ?k] delete_length[OF k] assms(1) show ?thesis
    by (simp add: evictLRUToolIfNeeded_def Let_def tools_ok_def)
qed

lemma update_tools_ok:
  "tools_ok n ts \<Longrightarrow> k \<noteq> '''' \<Longrightarrow> k \<in> fst ` set ts \<or> int (length ts) < n \<Longrightarrow> tools_ok n (AList.update k v ts)"
  by (auto simp: tools_ok_def update_length update_keys distinct_update)

lemma addTool_ok:
  assumes "tools_ok n ts" "reorders e" "0 < m" "m \<le> n" "k \<noteq> ''''"
  shows "tools_ok n (addTool e m k entry ts)"
proof -
  note ts = dropNamed_ok(1)[OF assms(1), of e "eeName entry"]
  show ?thesis
    unfolding addTool_def Let_def
    using update_tools_ok[OF _ assms(5)] evictTool_ok[OF ts assms(2-4)] update_tools_ok[OF ts assms(5)]
    by (auto simp: map_of_eq_None_iff)
qed

lemma bulkSort_ok:
  "bulkSort e n tools ts = (n', ts', cached, new) \<Longrightarrow> tools_ok m ts \<Longrightarrow> tools_ok m ts' \<and> set new \<subseteq> set tools \<and> length ts' \<le> length ts"
proof (induction tools arbitrary: n ts n' ts' cached new)
  case (Cons t tools)
  show ?case
  proof (cases "map_of ts (teHashKey t)")
    case None
    with Cons.prems(1) obtain new' where b: "bulkSort e n tools (dropNamed e (teName t) ts) = (n', ts', cached, new')" "new = t # new'"
      by (auto split: prod.splits)
    from Cons.IH[OF b(1) dropNamed_ok(1)[OF Cons.prems(2)]] dropNamed_ok(2)[of e "teName t" ts] b(2) show ?thesis by auto
  next
    case (Some x)
    let ?ts = "AList.update (teHashKey t) (x\<lparr>eeAccessed := eClock e n, eeEmbedding := teEmbedding t\<rparr>) ts"
    from Some Cons.prems(1) obtain cached' where b: "bulkSort e (Suc n) tools ?ts = (n', ts', cached', new)"
      by (auto split: prod.splits)
    have k: "teHashKey t \<in> fst ` set ts" using Some by (metis domI dom_map_of_conv_image_fst)
    with Cons.prems(2) have "teHashKey t \<noteq> ''''" unfolding tools_ok_def by metis
    with k Cons.prems(2) have "tools_ok m ?ts" by (intro update_tools_ok) auto
    from Cons.IH[OF b this] k show ?thesis by (auto simp: update_length)
  qed
qed auto

lemma bulkInsert_ok:
  "tools_ok m ts \<Longrightarrow> \<forall>t \<in> set new. teHashKey t \<noteq> '''' \<Longrightarrow> int (length ts + length new) \<le> m \<or> new = [] \<Longrightarrow> tools_ok m (bulkInsert e n new ts)"
proof (induction new arbitrary: n ts)
  case (Cons t new)
  then have "tools_ok m (AList.update (teHashKey t) \<lparr>eeName = teName t, eeEmbedding = teEmbedding t, eeAccessed = eClock e n\<rparr> ts)"
    by (intro update_tools_ok) auto
  with Cons show ?case by (auto simp: update_length)
qed simp

lemma toolsOf_setAPI: "toolsOf b (setAPI a c s) = (if b = a then acTools c else toolsOf b s)"
  by (simp add: toolsOf_def setAPI_def update_conv)

lemma has_member: "map_of xs k \<noteq> None \<Longrightarrow> k \<in> fst ` set xs"
  by (metis map_of_eq_None_iff)

lemma store_has_ok: "store_ok p s \<Longrightarrow> map_of (ecsCache s) k = Some a \<Longrightarrow> k \<noteq> '''' \<and> tools_ok (snd p) (acTools a)"
  by (force simp: store_ok_def dest: map_of_SomeD)

lemma BulkAddTools_ok:
  assumes "store_ok p s" "reorders e" "k \<noteq> ''''" "\<forall>t \<in> set tools. teHashKey t \<noteq> ''''"
  shows "store_ok p (fst (BulkAddTools e k tools s))"
proof (cases "tools = []")
  case True
  with assms show ?thesis by (simp add: BulkAddTools_def)
next
  case False
  let ?s = "AddAPICache e k s"
  have ok: "store_ok p ?s" by (rule AddAPICache_ok[OF assms(1-3)])
  obtain n ts cached new where b: "bulkSort e 2 tools (toolsOf k ?s) = (n, ts, cached, new)" by (cases "bulkSort e 2 tools (toolsOf k ?s)") auto
  from bulkSort_ok[OF b toolsOf_ok[OF ok]] have ts: "tools_ok (snd p) ts" "set new \<subseteq> set tools" by auto
  let ?new = "take (nat (ecsMaxTools ?s - int (length ts))) new"
  have "int (length ts + length ?new) \<le> snd p \<or> ?new = []"
    using ok by (cases "ecsMaxTools ?s \<le> int (length ts)") (auto simp: store_ok_def)
  moreover have "\<forall>t \<in> set ?new. teHashKey t \<noteq> ''''" using assms(4) ts(2) by (meson in_set_takeD subsetD)
  ultimately have "tools_ok (snd p) (bulkInsert e n ?new ts)" using ts(1) by (intro bulkInsert_ok) auto
  from setAPI_ok[OF ok, of "\<lparr>acTools = bulkInsert e n ?new ts, acAccessed = eClock e 1\<rparr>" k] this assms(3) has_member[OF AddAPICache_has] False
  show ?thesis by (simp add: BulkAddTools_def ensureAPI_def Let_def b)
qed

lemma AddEntry_ok:
  assumes "store_ok p s" "reorders e" "k \<noteq> ''''" "key \<noteq> ''''"
  shows "store_ok p (AddEntry e k key name v s)"
proof -
  let ?s = "AddAPICache e k s"
  have ok: "store_ok p ?s" by (rule AddAPICache_ok[OF assms(1-3)])
  have "tools_ok (snd p) (addTool e (ecsMaxTools ?s) key \<lparr>eeName = name, eeEmbedding = v, eeAccessed = eClock e 2\<rparr> (toolsOf k ?s))"
    using ok by (intro addTool_ok toolsOf_ok assms) (auto simp: store_ok_def)
  with setAPI_ok[OF ok] assms(3) has_member[OF AddAPICache_has] show ?thesis by (simp add: AddEntry_def ensureAPI_def Let_def)
qed

lemma emb_run_ok: "store_ok p s \<Longrightarrow> op_ok op \<Longrightarrow> store_ok (peak p op) (emb_run op s)"
proof -
  assume ok: "store_ok p s" and op: "op_ok op"
  show ?thesis
  proof (cases op)
    case (SetLimits x y)
    with ok show ?thesis by (cases p) (auto simp: SetCacheLimits_def Let_def store_ok_def tools_ok_def)
  next
    case (Get e k)
    with ok show ?thesis
      using has_member[of "ecsCache s" k]
      by (auto simp: GetAPICache_def split: option.splits dest: store_has_ok intro!: setAPI_ok)
  next
    case (GetE e k key)
    have "tools_ok (snd p) (AList.update key t ts)" if "tools_ok (snd p) ts" "map_of ts key \<noteq> None" for t ts
    proof -
      have k: "key \<in> fst ` set ts" by (rule has_member[OF that(2)])
      with that(1) have "key \<noteq> ''''" unfolding tools_ok_def by metis
      with k that(1) show ?thesis by (intro update_tools_ok) auto
    qed
    with ok GetE show ?thesis
      using has_member[of "ecsCache s" k]
      by (auto simp: GetEntry_def Let_def split: option.splits dest: store_has_ok intro!: setAPI_ok)
  next
    case (Remove k)
    with ok show ?thesis
      using delete_values[of k "ecsCache s"] delete_le[of k "ecsCache s"] by (force simp: RemoveAPI_def store_ok_def)
  next
    case Clear
    with ok show ?thesis by (simp add: ClearAll_def store_ok_def)
  qed (use ok op in \<open>auto intro: AddAPICache_ok AddEntry_ok BulkAddTools_ok\<close>)
qed

definition emb_reach :: "emb_op list \<Rightarrow> EmbeddingCacheStore" where
  "emb_reach ops = foldl (\<lambda>s op. emb_run op s) emb_init ops"

definition emb_peak :: "emb_op list \<Rightarrow> int \<times> int" where
  "emb_peak ops = foldl peak (DefaultMaxAPIs, DefaultMaxToolsPerAPI) ops"

lemma emb_reach_ok: "\<forall>op \<in> set ops. op_ok op \<Longrightarrow> store_ok (emb_peak ops) (emb_reach ops)"
proof (induction ops rule: rev_induct)
  case Nil
  then show ?case
    by (simp add: emb_peak_def emb_reach_def store_ok_def emb_init_def DefaultMaxAPIs_def DefaultMaxToolsPerAPI_def)
next
  case (snoc op ops)
  then show ?case using emb_run_ok[of "emb_peak ops" "emb_reach ops" op] by (simp add: emb_peak_def emb_reach_def)
qed


section \<open>What an insertion keeps\<close>

definition emb_lookup :: "EmbeddingCacheStore \<Rightarrow> string \<Rightarrow> string \<Rightarrow> EmbeddingEntry option" where
  "emb_lookup s api key = map_of (toolsOf api s) key"

lemma oldest_least:
  "oldest best xs = k \<Longrightarrow> xs \<noteq> [] \<or> best \<noteq> None \<Longrightarrow>
     \<exists>t. (k, t) \<in> set xs \<union> set_option best \<and> (\<forall>x \<in> set xs \<union> set_option best. t \<le> snd x)"
proof (induction best xs rule: oldest.induct)
  case (3 b x xs)
  from "3.IH"[OF "3.prems"(1)[simplified]] show ?case by (auto split: if_splits)
qed (auto split: option.splits)

lemma oldest_of_map_least:
  assumes "set (perm xs) = set xs" "distinct (map fst xs)" "map_of xs (oldest None (map (\<lambda>(k, v). (k, f v)) (perm xs))) = Some v" "map_of xs k = Some w"
  shows "f v \<le> f w"
proof -
  let ?ys = "map (\<lambda>(k, v). (k, f v)) (perm xs)"
  have "xs \<noteq> []" using assms(4) by auto
  then have "?ys \<noteq> []" using assms(1) by (metis map_is_Nil_conv set_empty)
  then obtain t where t: "(oldest None ?ys, t) \<in> set ?ys" "\<forall>x \<in> set ?ys. t \<le> snd x" using oldest_least[of None ?ys, OF refl] unfolding option.set Un_empty_right by blast
  from t(1) obtain v' where "(oldest None ?ys, v') \<in> set xs" "t = f v'" unfolding set_map assms(1) by auto
  with assms(2,3) have "t = f v" by (metis map_of_is_SomeI option.inject)
  moreover have "(k, f w) \<in> set ?ys" using map_of_SomeD[OF assms(4)] assms(1) by force
  ultimately show ?thesis using t(2) by force
qed

text \<open>A tool that goes when another is added had its name, or was used least recently in a full cache.\<close>

lemma addTool_keeps:
  assumes "distinct (map fst ts)" "reorders e" "map_of ts k = Some x" "k \<noteq> key"
  shows "map_of (addTool e m key entry ts) k = Some x \<or> eeName x = eeName entry \<or>
    m \<le> int (length ts) \<and> (\<forall>k' y. map_of ts k' = Some y \<and> eeName y \<noteq> eeName entry \<longrightarrow> eeAccessed x \<le> eeAccessed y)"
proof -
  let ?ds = "dropNamed e (eeName entry) ts"
  have named: "?ds = ts \<or> (\<exists>d y. ?ds = AList.delete d ts \<and> map_of ts d = Some y \<and> eeName y = eeName entry)"
  proof (cases "filter (\<lambda>(_, t). eeName t = eeName entry) (eTools e ts)")
    case (Cons dy rest)
    obtain d y where dy: "dy = (d, y)" by fastforce
    then have "(d, y) \<in> set (filter (\<lambda>(_, t). eeName t = eeName entry) (eTools e ts))" using Cons by simp
    then have "(d, y) \<in> set ts" "eeName y = eeName entry" using assms(2) by (auto simp: reorders_def)
    with Cons dy assms(1) show ?thesis by (auto simp: dropNamed_def)
  qed (simp add: dropNamed_def)
  have dist: "distinct (map fst ?ds)" using named assms(1) by auto
  have kept: "map_of ?ds k' = Some y" if "map_of ts k' = Some y" "eeName y \<noteq> eeName entry" for k' y
    using named that by (auto simp: delete_conv)
  have len: "length ?ds \<le> length ts" by (rule dropNamed_ok(2))
  show ?thesis
  proof (cases "eeName x = eeName entry")
    case False
    have x: "map_of ?ds k = Some x" by (rule kept[OF assms(3) False])
    show ?thesis
    proof (cases "map_of ?ds key = None \<and> m \<le> int (length ?ds) \<and> findLRUTool e ?ds = k")
      case True
      have "eeAccessed x \<le> eeAccessed y" if "map_of ts k' = Some y" "eeName y \<noteq> eeName entry" for k' y
        using oldest_of_map_least[of "eTools e" ?ds eeAccessed x k' y] assms(2) dist x True kept[OF that] by (auto simp: findLRUTool_def reorders_def)
      with True len show ?thesis by auto
    next
      case False
      with x assms(4) show ?thesis by (auto simp: addTool_def evictLRUToolIfNeeded_def Let_def update_conv delete_conv)
    qed
  qed simp
qed

lemma AddAPICache_keeps:
  assumes "distinct (map fst (ecsCache s))" "reorders e" "map_of (ecsCache s) b = Some c" "b \<noteq> api"
  shows "map_of (ecsCache (AddAPICache e api s)) b = Some c \<or>
    \<not> HasAPI api s \<and> ecsMaxAPIs s \<le> int (length (ecsCache s)) \<and> (\<forall>b' c'. map_of (ecsCache s) b' = Some c' \<longrightarrow> acAccessed c \<le> acAccessed c')"
proof (cases "map_of (ecsCache s) api = None \<and> ecsMaxAPIs s \<le> int (length (ecsCache s)) \<and> findLRUAPI e s = b")
  case True
  have "acAccessed c \<le> acAccessed c'" if "map_of (ecsCache s) b' = Some c'" for b' c'
    using oldest_of_map_least[of "eAPIs e" "ecsCache s" acAccessed c b' c'] assms True that by (auto simp: findLRUAPI_def reorders_def)
  with True show ?thesis by (auto simp: HasAPI_def)
next
  case False
  with assms(3,4) show ?thesis by (auto simp: AddAPICache_def setAPI_def evictLRUAPIIfNeeded_def Let_def update_conv delete_conv HasAPI_def)
qed

lemma AddAPICache_same: "map_of (ecsCache s) api \<noteq> None \<Longrightarrow> AddAPICache e api s = s"
  by (auto simp: AddAPICache_def)

text \<open>C15: A tool that is added to the cache of embeddings is found with its embedding. Every other entry is still there
  unless it is of the same API and has the name of the tool that was added; or the API was full and no entry of another
  name was used less recently; or the API of the tool is new, the cache was full, and no API was used less recently.\<close>

theorem embedding_add_entry:
  assumes "\<forall>op \<in> set ops. op_ok op" "op_ok (AddE e api key name v)" "s = emb_reach ops" "s' = AddEntry e api key name v s"
  shows "emb_lookup s' api key = Some \<lparr>eeName = name, eeEmbedding = v, eeAccessed = eClock e 2\<rparr> \<and>
    (\<forall>b k x. emb_lookup s b k = Some x \<and> (b, k) \<noteq> (api, key) \<longrightarrow>
       emb_lookup s' b k = Some x \<or>
       b = api \<and> eeName x = name \<or>
       b = api \<and> ecsMaxTools s \<le> int (length (toolsOf api s)) \<and>
         (\<forall>k' y. emb_lookup s api k' = Some y \<and> eeName y \<noteq> name \<longrightarrow> eeAccessed x \<le> eeAccessed y) \<or>
       b \<noteq> api \<and> \<not> HasAPI api s \<and> ecsMaxAPIs s \<le> int (length (ecsCache s)) \<and>
         (\<forall>a b' a'. map_of (ecsCache s) b = Some a \<and> map_of (ecsCache s) b' = Some a' \<longrightarrow> acAccessed a \<le> acAccessed a'))"
proof (intro conjI allI impI)
  let ?s = "AddAPICache e api s"
  let ?x = "\<lparr>eeName = name, eeEmbedding = v, eeAccessed = eClock e 2\<rparr>"
  have ok: "store_ok (emb_peak ops) s" using emb_reach_ok[OF assms(1)] assms(3) by simp
  have re: "reorders e" using assms(2) by simp
  have tools: "toolsOf b s' = (if b = api then addTool e (ecsMaxTools ?s) key ?x (toolsOf api ?s) else toolsOf b ?s)" for b
    unfolding assms(4) AddEntry_def ensureAPI_def Let_def toolsOf_setAPI by simp
  show "emb_lookup s' api key = Some ?x" by (simp add: emb_lookup_def tools addTool_def Let_def update_conv)
  fix b k x
  assume x: "emb_lookup s b k = Some x \<and> (b, k) \<noteq> (api, key)"
  then obtain a where a: "map_of (ecsCache s) b = Some a" "toolsOf b s = acTools a" by (auto simp: emb_lookup_def toolsOf_def split: option.splits)
  show "emb_lookup s' b k = Some x \<or> b = api \<and> eeName x = name \<or>
       b = api \<and> ecsMaxTools s \<le> int (length (toolsOf api s)) \<and>
         (\<forall>k' y. emb_lookup s api k' = Some y \<and> eeName y \<noteq> name \<longrightarrow> eeAccessed x \<le> eeAccessed y) \<or>
       b \<noteq> api \<and> \<not> HasAPI api s \<and> ecsMaxAPIs s \<le> int (length (ecsCache s)) \<and>
         (\<forall>a b' a'. map_of (ecsCache s) b = Some a \<and> map_of (ecsCache s) b' = Some a' \<longrightarrow> acAccessed a \<le> acAccessed a')"
  proof (cases "b = api")
    case True
    have "?s = s" using a(1) True by (intro AddAPICache_same) simp
    moreover have "distinct (map fst (toolsOf api s))" using toolsOf_ok[OF ok] by (simp add: tools_ok_def)
    ultimately show ?thesis
      using addTool_keeps[OF _ re, of "toolsOf api s" k x key "ecsMaxTools s" ?x] x True by (auto simp: emb_lookup_def tools)
  next
    case False
    have "distinct (map fst (ecsCache s))" using ok by (simp add: store_ok_def)
    from AddAPICache_keeps[OF this re a(1) False] show ?thesis
    proof
      assume "map_of (ecsCache ?s) b = Some a"
      then have "toolsOf b ?s = toolsOf b s" using a by (simp add: toolsOf_def)
      with x False show ?thesis by (simp add: emb_lookup_def tools)
    qed (use a False in auto)
  qed
qed

section \<open>Examples\<close>

definition tick :: "instant \<Rightarrow> emb_env" where
  "tick t = \<lparr>eClock = (\<lambda>n. t + int n), eAPIs = (\<lambda>xs. xs), eTools = (\<lambda>xs. xs)\<rparr>"

lemma reorders_tick [simp]: "reorders (tick t)"
  by (simp add: reorders_def tick_def)

text \<open>A cache of one API with two tools each.\<close>

definition smallOps :: "emb_op list" where
  "smallOps = [SetLimits 1 2, AddE (tick 10) ''a'' ''h1'' ''t1'' [], AddE (tick 20) ''a'' ''h2'' ''t2'' [], GetE (tick 30) ''a'' ''h1'']"


text \<open>The tool that was added goes in; the one not read since goes out.\<close>

theorem embedding_add_entry_witness:
  "emb_lookup (AddEntry (tick 40) ''a'' ''h3'' ''t3'' [] (emb_reach smallOps)) ''a'' ''h3'' = Some \<lparr>eeName = ''t3'', eeEmbedding = [], eeAccessed = eClock (tick 40) 2\<rparr> \<and>
   emb_lookup (AddEntry (tick 40) ''a'' ''h3'' ''t3'' [] (emb_reach smallOps)) ''a'' ''h2'' = None"
proof
  show "emb_lookup (AddEntry (tick 40) ''a'' ''h3'' ''t3'' [] (emb_reach smallOps)) ''a'' ''h3'' = Some \<lparr>eeName = ''t3'', eeEmbedding = [], eeAccessed = eClock (tick 40) 2\<rparr>"
    using embedding_add_entry[of smallOps "tick 40" "''a''" "''h3''" "''t3''" "[]", OF _ _ refl refl] by (simp add: smallOps_def)
  show "emb_lookup (AddEntry (tick 40) ''a'' ''h3'' ''t3'' [] (emb_reach smallOps)) ''a'' ''h2'' = None" by code_simp
qed

text \<open>A lower limit does not shrink the cache, and further APIs replace one another above it.\<close>

lemma embedding_limit_not_applied:
  "fst (GetCacheStats (emb_reach [AddAPI (tick 1) ''a'', AddAPI (tick 2) ''b'', SetLimits 1 1, AddAPI (tick 3) ''c'', AddAPI (tick 4) ''d''])) = 2"
  by code_simp

text \<open>An API with an empty identifier that was used least recently is never evicted, so that the cache outgrows its limit.\<close>

lemma embedding_empty_id_overflows:
  "fst (GetCacheStats (emb_reach [SetLimits 1 1, AddAPI (tick 1) '''', AddAPI (tick 2) ''b'', AddAPI (tick 3) ''c''])) = 3"
  by code_simp

text \<open>Two tools with one name in a batch are both kept, although an insertion replaces the entry of the same name.\<close>

lemma embedding_bulk_keeps_both_names:
  "length (toolsOf ''a'' (emb_reach [Bulk (tick 1) ''a'' [\<lparr>teHashKey = ''h1'', teName = ''t'', teEmbedding = []\<rparr>, \<lparr>teHashKey = ''h2'', teName = ''t'', teEmbedding = []\<rparr>]])) = 2"
  by code_simp

end
