(* ===== verification/Spec2Isabelle.thy ===== *)
theory Spec2Isabelle
  imports Prelude GoFloat Limiter Gcra FixedWindow MultiLimiter LocalAsync AsyncFlush Coordinator RedisLimiter GoValue CostExtractor
    QuotaHeaders QuotaKeys QuotaPhases QuotaResponse QuotaCharges QuotaStream QuotaConfig Factory LimiterCache RatePolicy
    BasicRateLimit TokenRateLimit CostRateLimit UrlQuery ModelRouting ModelFairness McpMessage McpAuthz McpAclList McpRateLimit
    GuardText SizeGuards EventStream LlmTranslate BedrockTransformer ChatTransformers
    SdkCache JwtKeys JwtConstraints JwtAuth JwtRuns OpaqueAuth Cors Subscription EmbeddingCache
begin

text \<open>
  The gateway's policy collection: its rate limiter, \<^verbatim>\<open>src/policies/advanced-ratelimit\<close>, to which the other rate
  limiting policies of the repository delegate, and those policies; the model routing policies \<^verbatim>\<open>model-round-robin\<close> and
  \<^verbatim>\<open>model-weighted-round-robin\<close>; and the policies that guard a Model Context Protocol server, \<^verbatim>\<open>mcp-authz\<close>,
  \<^verbatim>\<open>mcp-acl-list\<close> and \<^verbatim>\<open>mcp-ratelimit\<close>; guardrails on the text of a message; the policies that translate a chat
  for another provider; the authentication of tokens, \<^verbatim>\<open>jwt-auth\<close> and \<^verbatim>\<open>opaque-token-auth\<close>; and
  cross-origin access, subscriptions and a cache of embeddings.

  \<^bold>\<open>The program.\<close> The gateway builds an instance of a policy for each route (\<^verbatim>\<open>GetPolicy\<close>) and calls its
  hooks in the phases of a request: request headers, request body, response headers, and the response body
  whole or chunk by chunk. An instance has quotas. A quota extracts a key and a cost from the request or
  the response and asks its limiter, which counts in memory (GCRA or fixed window), in Redis, or in memory
  with a flush to Redis in the background. Limiters are shared between instances in a cache with reference
  counts; Redis clients are shared too. \<^verbatim>\<open>basic-ratelimit\<close>, \<^verbatim>\<open>token-based-ratelimit\<close> and \<^verbatim>\<open>llm-cost-based-ratelimit\<close>
  translate their parameters into quotas, build instances of the rate limiter and forward the hooks. The MCP policies read the JSON-RPC request in the body, plain or as an
  event stream, and decide on the capability it names; the last of them builds instances of the rate limiter
  as it meets capabilities and forwards the hooks to them.

  \<^bold>\<open>Theories\<close>, in the order of the calls from the bottom up (files under \<^verbatim>\<open>policies/advanced-ratelimit\<close>):
  \<^item> \<open>Prelude\<close>, \<open>GoFloat\<close>, \<open>GoValue\<close>: what the code uses of Go. Integers and durations are \<^typ>\<open>int\<close> with the
    wrap-around of 64 bits written out; an instant is nanoseconds since the Unix epoch; \<^verbatim>\<open>float64\<close> is a
    rational rounded to binary64, or an infinity, or NaN; maps are association lists; a value decoded from
    JSON is of type \<open>any\<close>; \<^verbatim>\<open>time.ParseDuration\<close>, \<^verbatim>\<open>strconv\<close>.
  \<^item> \<open>Limiter\<close> (\<^verbatim>\<open>limiter/\<close>): results and their headers, the registry of algorithms, and the contract of a
    limiter as the locale \<open>limiter_contract\<close>. An operation gets the readings of its clocks as an \<open>env\<close> and
    returns a value, an error or a panic (\<open>outcome\<close>).
  \<^item> \<open>Gcra\<close>, \<open>FixedWindow\<close> (\<^verbatim>\<open>algorithms/*/policy.go\<close>, \<^verbatim>\<open>memory.go\<close>): the limiters in memory, with the tick of
    their cleanup; both interpret the contract. Shown: the bound on what is granted over any span or in a
    window, over every order of operations; refinement of an abstract GCRA; exact retry times; debts kept;
    the remaining quota, computed in floating point, exact.
  \<^item> \<open>MultiLimiter\<close> (\<^verbatim>\<open>multi.go\<close>): several limits at once, over the contract.
  \<^item> \<open>RedisLimiter\<close> (\<^verbatim>\<open>redis.go\<close> of both algorithms, \<^verbatim>\<open>redis_clients.go\<close>): the server and its scripts are
    parameters; equivalence with the limiter in memory holds on a server with the documented behaviour of
    its commands.
  \<^item> \<open>LocalAsync\<close>, \<open>AsyncFlush\<close> (\<^verbatim>\<open>redis_local_async.go\<close>) and \<open>Coordinator\<close> (\<^verbatim>\<open>flush_coordinator.go\<close>): the
    local-first limiter and the goroutines that flush it. Shown: a flush neither loses nor doubles a count
    except on eviction in flight; the fail-closed latch; that no wake-up is lost in any interleaving of
    requests and flushes, by rule induction over the steps; the base tick.
  \<^item> \<open>CostExtractor\<close> (\<^verbatim>\<open>cost_extractor.go\<close>): costs from headers, metadata, bodies, SSE streams and CEL.
  \<^item> \<open>QuotaHeaders\<close>, \<open>QuotaKeys\<close>, \<open>QuotaPhases\<close>, \<open>QuotaResponse\<close> (\<^verbatim>\<open>ratelimit.go\<close>): the data of a policy, the
    headers of a response, keys, and the hooks. A hook takes the limiters as a list (a quota names its
    limiter by index, so that quotas can share one), the metadata of the request as a map, and returns both
    with its verdict. The limiters are any, given by their operations (\<open>lim_ops\<close>).
  \<^item> \<open>QuotaCharges\<close>, \<open>QuotaStream\<close>: what the hooks do to the limiters over a whole request. The locales
    \<open>answers\<close> and \<open>calm\<close> are what the hooks ask of a limiter; the fixed window limiter interprets both.
    Shown: every quota is charged exactly once by the request phases; a streamed response is charged as a
    buffered one; fail-open; and the cases in which a quota is not enforced.
  \<^item> \<open>QuotaConfig\<close>, \<open>Factory\<close>, \<open>LimiterCache\<close>, \<open>RatePolicy\<close> (\<^verbatim>\<open>ratelimit.go\<close>, \<^verbatim>\<open>gcra.go\<close>, \<^verbatim>\<open>factory.go\<close>): parsing
    of the parameters, the factories of limiters, the cache and \<^verbatim>\<open>GetPolicy\<close>. Shown: parsed quotas are well
    formed; the cache counts exactly the instances that hold a limiter and closes none in use; a policy that
    is built has an open limiter for each quota.
  \<^item> \<open>BasicRateLimit\<close>, \<open>TokenRateLimit\<close>, \<open>CostRateLimit\<close> (\<^verbatim>\<open>policies/basic-ratelimit\<close>,
    \<^verbatim>\<open>policies/token-based-ratelimit\<close>, \<^verbatim>\<open>policies/llm-cost-based-ratelimit\<close>): the policies that delegate, over the
    model of \<^verbatim>\<open>GetPolicy\<close> and of the hooks. Shown: what is charged, where and when, for each; that the delegate of a
    provider follows its template; which instances in a chain share a pinned delegate; and a template that is
    never charged.
  \<^item> \<open>UrlQuery\<close>, \<open>ModelRouting\<close>, \<open>ModelFairness\<close> (\<^verbatim>\<open>policies/model-round-robin\<close>,
    \<^verbatim>\<open>policies/model-weighted-round-robin\<close>): \<^verbatim>\<open>net/url\<close> as far as it is used, with the round trip of queries; the two
    routing policies; and that each available model gets exactly its weight, that a failed target is not
    selected until its suspension ends in any run of requests and responses, that the plain policy is the
    weighted one with weights of one, and that the query parameter is set.
  \<^item> \<open>McpMessage\<close>: what the MCP policies share, with \<^verbatim>\<open>request_validation.go\<close> of two of them: JSON documents with
    their members in order, repeated ones included, \<^verbatim>\<open>encoding/json\<close>'s decoding into the request structure
    (members match up to case, the last one wins), and the validation that rejects ambiguous members. Shown: a
    decoder that chooses any of the matching members reads the same method and name from a valid request.
  \<^item> \<open>McpAuthz\<close> (\<^verbatim>\<open>policies/mcp-authz\<close>), \<open>McpAclList\<close> (\<^verbatim>\<open>policies/mcp-acl-list\<close>), \<open>McpRateLimit\<close>
    (\<^verbatim>\<open>policies/mcp-ratelimit\<close>): parsing of the parameters, the decision, the responses and the hooks. Shown: a
    request that passes satisfies every rule, or every limit, that applies to what the server may read from it;
    the items a list shows are those a call reaches; an event stream is rewritten event by event; and the
    cases in which rules or limits are not enforced.
  \<^item> \<open>GuardText\<close>: what the guardrails share, the text of a payload or of the events of a stream. \<open>SizeGuards\<close>
    (\<^verbatim>\<open>policies/word-count-guardrail\<close>, \<^verbatim>\<open>sentence-count-guardrail\<close>, \<^verbatim>\<open>content-length-guardrail\<close>): the three copies of one
    program, as instances of a record \<open>guard\<close>. The locale \<open>size_guard\<close> is what the stream asks of a count. Shown:
    a stream is judged by its whole text, however it is cut.
  \<^item> \<open>EventStream\<close> (\<^verbatim>\<open>policies/openai-to-bedrock-transformer/eventstream.go\<close>,
    \<^verbatim>\<open>policies/llm-cost/bedrock_eventstream.go\<close>): the two decoders of Amazon event streams, with integers of 16 and 32
    bits as words. Shown: the round trip, that the loops end and where they stop, and that the decoders agree.
  \<^item> \<open>LlmTranslate\<close>, \<open>BedrockTransformer\<close>, \<open>ChatTransformers\<close> (\<^verbatim>\<open>policies/openai-to-bedrock-transformer\<close>,
    \<^verbatim>\<open>openai-to-anthropic-transformer\<close>, \<^verbatim>\<open>openai-to-mistral-transformer\<close>, \<^verbatim>\<open>openai-to-azure-openai-transformer\<close>): the loop
    over the messages of a chat, over the locale \<open>chat_translator\<close>, and the translations of each provider. Shown: the
    conversation is kept; a stream is translated alike however it is cut; token counts add up; a model name stays in
    its path segment; and a crash.
  \<^item> \<open>JwtKeys\<close>, \<open>JwtConstraints\<close>, \<open>JwtAuth\<close>, \<open>JwtRuns\<close> (\<^verbatim>\<open>policies/jwt-auth\<close>): public keys and the key sets of endpoints
    with their cache; audiences, scopes, claims and the identity; key managers, the verification of a token and the
    shared cache of verdicts with the hook; and runs of deployments and requests as an inductive relation. Shown, by
    rule induction: a request passes only on a token that was verified, now or within the life of a cached verdict;
    headers filled from claims cannot be sent by a client; and choices of the code that depend on the order of a map
    or confuse configurations.
  \<^item> \<open>SdkCache\<close>: what the policies rely on of the cache of the SDK, and an instance. \<open>OpaqueAuth\<close>
    (\<^verbatim>\<open>policies/opaque-token-auth\<close>): introspection providers, the cache of their answers, the checks and the hook, with
    runs of requests. Shown: a request passes only on an answer that reports its token active and is still fresh.
  \<^item> \<open>Cors\<close> (\<^verbatim>\<open>policies/cors\<close>): cross-origin requests, with the regular expressions the code builds. Shown: which
    origins, methods and headers are granted access.
  \<^item> \<open>Subscription\<close> (\<^verbatim>\<open>policies/subscription-validation\<close>): subscriptions and the limits of their plans. Shown: what a
    request that passes relies on, that its token stays in the gateway, and the bound of a plan over runs of requests
    and evictions.
  \<^item> \<open>EmbeddingCache\<close> (\<^verbatim>\<open>policies/semantic-tool-filtering/embeddingcache.go\<close>): the cache of embeddings as a state machine.
    Shown: its bounds, what is found, and that only what was least recently used is evicted.

  \<^bold>\<open>Parameters\<close> stand for code outside the repository: JSON, JSONPath and CEL evaluation, \<^verbatim>\<open>ParseFloat\<close>, SHA-256, the
  printed form of JSON values, the regular expression matcher, the Redis server, and the order in which Go iterates over a map. A loop
  recurses over a list or has a termination proof; the one fuel, in \<^verbatim>\<open>ParseDuration\<close>, is the length of the string,
  and each turn consumes a character.

  \<^bold>\<open>Concurrency.\<close> The limiters in memory and the cache hold one lock for a whole operation, which is then a
  step. The local-first limiter locks a stripe at a time: in the step relation of \<open>Coordinator\<close> a snapshot visits
  one stripe in a step and a result is applied in a step, and requests interleave with these.

  \<^bold>\<open>Not modelled\<close>: logging; the timers of the worker goroutines (their ticks are steps); the CEL evaluator,
  a wrapper of cel-go; and the other policies of the repository, which are separate programs: clients of content
  safety, embedding and interceptor services and signing over crypto libraries, whose work is done outside the
  repository; the prices of \<^verbatim>\<open>llm-cost\<close>, the Gemini translation, and the small policies that set or rewrite headers,
  paths and prompts, which share no state with what is modelled.
\<close>

end
